(* ===== verification/Prelude.thy ===== *)
theory Prelude
  imports Complex_Main "HOL-Library.List_Lexorder" "HOL-Library.Char_ord" "HOL-Library.Product_Lexorder"
    "HOL-Library.Multiset"
begin

text \<open>
  Shared vocabulary of the development: the exceptions of the program as values of one
  datatype, results as sums, Python dictionaries as association lists in insertion order,
  Python's \<^verbatim>\<open>sorted\<close>, and the generic lemmas the component theories rest on.
\<close>

section \<open>Exceptions as values\<close>

text \<open>
  Each constructor is an exception class of the program (pydantic's
  \<^verbatim>\<open>ValidationError\<close> is a \<^verbatim>\<open>ValueError\<close>); the string is the message
  of the \<^verbatim>\<open>raise\<close> statement.
\<close>

datatype py_error =
    ValueError string
  | TypeError string
  | KeyError string
  | OverflowError string
  | RuntimeError string
  | CancelledError string
  | StateError string
  | JournalError string
  | JournalCorruptionError string
  | JournalDigestError string
  | RegistryConflictError string
  | RecordConflictError string
  | RecordNotFoundError string
  | HistoricalImportError string
  | StorageError string
  | ArchiveError string
  | InjectedFault string
  | MetricCutError string
  | IncompatibleMetricError string
  | AmbiguousMetricError string
  | BacktestError string
  | BacktestUnavailableError string
  | BacktestAmbiguousSourceError string
  | CatalogFormatError string
  | CatalogVersionError string
  | DuplicateCatalogIdentityError string
  | AssetNotFoundError string
  | AssetAliasNotFoundError string
  | AmbiguousAssetAliasError string
  | ProviderBindingNotFoundError string
  | AmbiguousProviderBindingError string
  | UnitBasisAmbiguityError string
  | ZeroDivisionError string
  | EmaScopeError string
  | EmaPrefixError string
  | EmaCheckpointError string
  | RecursivePrefixError string
  | RecursiveCheckpointError string
  | IncrementalStateError string
  | DailyEvidenceError string

type_synonym 'a result = "py_error + 'a"

definition bind_r :: "'e + 'a \<Rightarrow> ('a \<Rightarrow> 'e + 'b) \<Rightarrow> 'e + 'b" where
  "bind_r r f = (case r of Inl e \<Rightarrow> Inl e | Inr x \<Rightarrow> f x)"

lemma bind_r_simps [simp]:
  "bind_r (Inl e) f = Inl e"
  "bind_r (Inr x) f = f x"
  by (simp_all add: bind_r_def)

lemma bind_r_eq_Inr: "bind_r r f = Inr y \<longleftrightarrow> (\<exists>x. r = Inr x \<and> f x = Inr y)"
  by (cases r) auto

lemma bind_r_eq_Inl: "bind_r r f = Inl e \<longleftrightarrow> r = Inl e \<or> (\<exists>x. r = Inr x \<and> f x = Inl e)"
  by (cases r) auto

text \<open>A generator expression whose element may raise: elements in order, first exception wins.\<close>

fun traverse :: "('a \<Rightarrow> 'e + 'b) \<Rightarrow> 'a list \<Rightarrow> 'e + 'b list" where
  "traverse f [] = Inr []"
| "traverse f (x # xs) = bind_r (f x) (\<lambda>y. bind_r (traverse f xs) (\<lambda>ys. Inr (y # ys)))"

lemma traverse_Inr_iff: "traverse f xs = Inr ys \<longleftrightarrow> list_all2 (\<lambda>x y. f x = Inr y) xs ys"
  by (induction xs arbitrary: ys) (auto simp: bind_r_eq_Inr list_all2_Cons1)

lemma traverse_Inl_D: "traverse f xs = Inl e \<Longrightarrow> \<exists>x \<in> set xs. f x = Inl e"
  by (induction xs) (auto simp: bind_r_eq_Inl)

lemma traverse_Inr_map: "(\<And>x. x \<in> set xs \<Longrightarrow> f x = Inr (g x)) \<Longrightarrow> traverse f xs = Inr (map g xs)"
  by (induction xs) auto

lemma traverse_cong: "(\<And>x. x \<in> set xs \<Longrightarrow> f x = g x) \<Longrightarrow> traverse f xs = traverse g xs"
  by (induction xs) auto

text \<open>A comprehension with a condition that may raise.\<close>

fun filter_r :: "('a \<Rightarrow> 'e + bool) \<Rightarrow> 'a list \<Rightarrow> 'e + 'a list" where
  "filter_r p [] = Inr []"
| "filter_r p (x # xs) =
     bind_r (p x) (\<lambda>keep. bind_r (filter_r p xs) (\<lambda>ys. Inr (if keep then x # ys else ys)))"

lemma filter_r_Inr:
  "filter_r p xs = Inr ys \<longleftrightarrow> (\<forall>x \<in> set xs. \<exists>b. p x = Inr b) \<and> ys = filter (\<lambda>x. p x = Inr True) xs"
proof (induction xs arbitrary: ys)
  case (Cons x xs)
  show ?case
  proof (cases "p x")
    case (Inr b)
    have "filter_r p (x # xs) = Inr ys \<longleftrightarrow>
        (\<exists>zs. filter_r p xs = Inr zs \<and> ys = (if b then x # zs else zs))"
      by (auto simp: Inr bind_r_eq_Inr)
    with Cons.IH Inr show ?thesis by auto
  qed simp
qed auto

lemma filter_r_skip: "(\<And>x. x \<in> set xs \<Longrightarrow> \<not> q x \<Longrightarrow> p x = Inr False) \<Longrightarrow>
    filter_r p (filter q xs) = filter_r p xs"
proof (induction xs)
  case (Cons x xs)
  have "bind_r (filter_r p xs) (\<lambda>ys. Inr ys) = filter_r p xs" by (cases "filter_r p xs") auto
  with Cons show ?case by auto
qed simp

section \<open>Python's sorted, set, max and min\<close>

definition sorted_unique :: "'a::linorder list \<Rightarrow> bool" where
  \<comment> \<open>\<^verbatim>\<open>values == tuple(sorted(set(values)))\<close>\<close>
  "sorted_unique xs \<longleftrightarrow> xs = sort (remdups xs)"

lemma sorted_unique_iff: "sorted_unique xs \<longleftrightarrow> sorted xs \<and> distinct xs"
proof
  assume *: "sorted_unique xs"
  have "sorted (sort (remdups xs)) \<and> distinct (sort (remdups xs))"
    by simp
  with * show "sorted xs \<and> distinct xs"
    unfolding sorted_unique_def by metis
next
  assume "sorted xs \<and> distinct xs"
  then show "sorted_unique xs"
    by (simp add: sorted_unique_def distinct_remdups_id sorted_sort_id)
qed

lemma sorted_unique_Nil [simp]: "sorted_unique []"
  by (simp add: sorted_unique_def)

lemma sort_eq_iff_sorted: "xs = sort xs \<longleftrightarrow> sorted xs"
  by (metis sorted_sort sorted_sort_id)

text \<open>\<^verbatim>\<open>max\<close> and \<^verbatim>\<open>min\<close> of an iterable that may be empty (\<^verbatim>\<open>default=None\<close>).\<close>

definition py_max :: "'a::linorder list \<Rightarrow> 'a option" where
  "py_max xs = (case xs of [] \<Rightarrow> None | y # ys \<Rightarrow> Some (fold max ys y))"

definition py_min :: "'a::linorder list \<Rightarrow> 'a option" where
  "py_min xs = (case xs of [] \<Rightarrow> None | y # ys \<Rightarrow> Some (fold min ys y))"

lemma py_max_simps [simp]: "py_max [] = None" "py_max (x # xs) = Some (fold max xs x)"
  by (simp_all add: py_max_def)

lemma py_min_simps [simp]: "py_min [] = None" "py_min (x # xs) = Some (fold min xs x)"
  by (simp_all add: py_min_def)

lemma py_max_Max: "xs \<noteq> [] \<Longrightarrow> py_max xs = Some (Max (set xs))"
  by (cases xs) (simp_all add: Max.set_eq_fold [symmetric])

lemma py_min_Min: "xs \<noteq> [] \<Longrightarrow> py_min xs = Some (Min (set xs))"
  by (cases xs) (simp_all add: Min.set_eq_fold [symmetric])

lemma py_max_eq_None [simp]: "py_max xs = None \<longleftrightarrow> xs = []"
  by (cases xs) auto

lemma py_min_eq_None [simp]: "py_min xs = None \<longleftrightarrow> xs = []"
  by (cases xs) auto

lemma py_max_SomeD: "py_max xs = Some m \<Longrightarrow> m \<in> set xs \<and> (\<forall>x \<in> set xs. x \<le> m)"
  by (cases "xs = []") (auto simp: py_max_Max)

lemma py_min_SomeD: "py_min xs = Some m \<Longrightarrow> m \<in> set xs \<and> (\<forall>x \<in> set xs. m \<le> x)"
  by (cases "xs = []") (auto simp: py_min_Min)

lemma py_max_set_cong: "set xs = set ys \<Longrightarrow> py_max xs = py_max ys"
  by (cases "xs = []"; cases "ys = []") (auto simp: py_max_Max)

section \<open>Dictionaries\<close>

text \<open>
  A Python dictionary keeps insertion order; storing under a present key replaces the value
  in place. It is an association list with distinct keys, seen as a map through
  \<^const>\<open>map_of\<close>.
\<close>

type_synonym ('k, 'v) dict = "('k \<times> 'v) list"

definition dict_get :: "('k, 'v) dict \<Rightarrow> 'k \<Rightarrow> 'v option" where
  "dict_get d k = map_of d k"

fun dict_set :: "('k, 'v) dict \<Rightarrow> 'k \<Rightarrow> 'v \<Rightarrow> ('k, 'v) dict" where
  "dict_set [] k v = [(k, v)]"
| "dict_set ((k', v') # d) k v = (if k' = k then (k, v) # d else (k', v') # dict_set d k v)"

definition dict_del :: "('k, 'v) dict \<Rightarrow> 'k \<Rightarrow> ('k, 'v) dict" where
  "dict_del d k = filter (\<lambda>p. fst p \<noteq> k) d"

definition dict_values :: "('k, 'v) dict \<Rightarrow> 'v list" where
  "dict_values d = map snd d"

definition dict_keys :: "('k, 'v) dict \<Rightarrow> 'k list" where
  "dict_keys d = map fst d"

definition dict_ok :: "('k, 'v) dict \<Rightarrow> bool" where
  "dict_ok d \<longleftrightarrow> distinct (map fst d)"

text \<open>\<^verbatim>\<open>{key(x): x for x in xs}\<close>\<close>

definition dict_by :: "('v \<Rightarrow> 'k) \<Rightarrow> 'v list \<Rightarrow> ('k, 'v) dict" where
  "dict_by key xs = fold (\<lambda>x d. dict_set d (key x) x) xs []"

lemma dict_get_Nil [simp]: "dict_get [] k = None"
  by (simp add: dict_get_def)

lemma dict_get_set [simp]: "dict_get (dict_set d k v) = (dict_get d)(k \<mapsto> v)"
  by (induction d k v rule: dict_set.induct) (auto simp: dict_get_def fun_eq_iff)

lemma set_keys_dict_set: "set (map fst (dict_set d k v)) = insert k (set (map fst d))"
  by (induction d k v rule: dict_set.induct) auto

lemma dict_ok_Nil [simp]: "dict_ok []"
  by (simp add: dict_ok_def)

lemma dict_ok_set [simp]: "dict_ok d \<Longrightarrow> dict_ok (dict_set d k v)"
  unfolding dict_ok_def
proof (induction d k v rule: dict_set.induct)
  case (2 k' v' d k v)
  then show ?case
    using set_keys_dict_set [of d k v] by (cases "k' = k") (simp_all del: set_map)
qed simp

lemma dict_get_del [simp]: "dict_get (dict_del d k) = (dict_get d)(k := None)"
  by (induction d) (auto simp: dict_get_def dict_del_def fun_eq_iff)

lemma dict_ok_del [simp]: "dict_ok d \<Longrightarrow> dict_ok (dict_del d k)"
  by (simp add: dict_ok_def dict_del_def distinct_map_filter)

lemma dict_set_fresh: "dict_get d k = None \<Longrightarrow> dict_set d k v = d @ [(k, v)]"
  by (induction d k v rule: dict_set.induct) (auto simp: dict_get_def split: if_splits)

lemma dict_values_set: "dict_ok d \<Longrightarrow>
    set (dict_values d) = {v. \<exists>k. dict_get d k = Some v}"
  unfolding dict_ok_def dict_values_def dict_get_def
  by (force simp: image_iff dest: map_of_SomeD)

lemma dict_in_iff_get: "dict_ok d \<Longrightarrow> (k, v) \<in> set d \<longleftrightarrow> dict_get d k = Some v"
  by (simp add: dict_ok_def dict_get_def)

lemma dict_get_None_iff: "dict_get d k = None \<longleftrightarrow> k \<notin> set (map fst d)"
  by (simp add: dict_get_def map_of_eq_None_iff)

section \<open>The dictionary interface\<close>

text \<open>
  What every user of a keyed collection relies on: reading back a stored value, leaving
  other keys alone, and deletion. The lemmas about bulk construction are proved once from
  these laws and used at the dictionaries of the components.
\<close>

locale keyed =
  fixes empty :: "'d"
    and lookup :: "'d \<Rightarrow> 'k \<Rightarrow> 'v option"
    and store :: "'d \<Rightarrow> 'k \<Rightarrow> 'v \<Rightarrow> 'd"
    and discard :: "'d \<Rightarrow> 'k \<Rightarrow> 'd"
    and ok :: "'d \<Rightarrow> bool"
  assumes lookup_empty: "lookup empty k = None"
    and lookup_store: "ok d \<Longrightarrow> lookup (store d k v) = (lookup d)(k \<mapsto> v)"
    and lookup_discard: "ok d \<Longrightarrow> lookup (discard d k) = (lookup d)(k := None)"
    and ok_empty: "ok empty"
    and ok_store: "ok d \<Longrightarrow> ok (store d k v)"
    and ok_discard: "ok d \<Longrightarrow> ok (discard d k)"
begin

lemma ok_store_all: "ok d \<Longrightarrow> ok (fold (\<lambda>x d. store d (key x) (val x)) xs d)"
  by (induction xs arbitrary: d) (auto simp: ok_store)

lemma lookup_store_all_Some:
  assumes "ok d" and "lookup (fold (\<lambda>x d. store d (key x) (val x)) xs d) k = Some v"
  shows "lookup d k = Some v \<or> (\<exists>x \<in> set xs. key x = k \<and> val x = v)"
  using assms
proof (induction xs arbitrary: d)
  case (Cons x xs)
  then have "lookup (store d (key x) (val x)) k = Some v \<or> (\<exists>x \<in> set xs. key x = k \<and> val x = v)"
    by (simp add: ok_store)
  then show ?case
    using Cons.prems(1) by (auto simp: lookup_store split: if_splits)
qed simp

lemma lookup_store_by_key:
  "ok d \<Longrightarrow> lookup (fold (\<lambda>x d. store d (key x) (val (key x))) xs d) k =
     (if k \<in> key ` set xs then Some (val k) else lookup d k)"
  by (induction xs arbitrary: d) (auto simp: ok_store lookup_store)

lemma lookup_store_all_other:
  "ok d \<Longrightarrow> k \<notin> key ` set xs \<Longrightarrow>
     lookup (fold (\<lambda>x d. store d (key x) (val x)) xs d) k = lookup d k"
  by (induction xs arbitrary: d) (auto simp: ok_store lookup_store)

lemma lookup_store_all_same:
  "ok d \<Longrightarrow> distinct (map key xs) \<Longrightarrow> x \<in> set xs \<Longrightarrow>
     lookup (fold (\<lambda>x d. store d (key x) (val x)) xs d) (key x) = Some (val x)"
proof (induction xs arbitrary: d)
  case (Cons y ys)
  show ?case
  proof (cases "x = y")
    case True
    with Cons.prems show ?thesis
      by (simp add: lookup_store_all_other ok_store lookup_store)
  next
    case False
    with Cons show ?thesis by (simp add: ok_store)
  qed
qed simp

lemma discard_all_lookup:
  "ok d \<Longrightarrow> lookup (fold (\<lambda>k d. discard d k) ks d) k = (if k \<in> set ks then None else lookup d k)"
  by (induction ks arbitrary: d) (auto simp: ok_discard lookup_discard)

lemma ok_discard_all: "ok d \<Longrightarrow> ok (fold (\<lambda>k d. discard d k) ks d)"
  by (induction ks arbitrary: d) (auto simp: ok_discard)

end

interpretation pydict: keyed "[]" dict_get dict_set dict_del dict_ok
  by unfold_locales auto

lemma dict_ok_by [simp]: "dict_ok (dict_by key xs)"
  unfolding dict_by_def by (rule pydict.ok_store_all) simp

lemma dict_by_distinct: "distinct (map key xs) \<Longrightarrow> dict_by key xs = map (\<lambda>x. (key x, x)) xs"
proof (induction xs rule: rev_induct)
  case (snoc x xs)
  then have eq: "dict_by key xs = map (\<lambda>x. (key x, x)) xs" by simp
  have "dict_by key (xs @ [x]) = dict_set (dict_by key xs) (key x) x"
    by (simp add: dict_by_def)
  moreover have "dict_get (dict_by key xs) (key x) = None"
    using snoc.prems by (auto simp: eq dict_get_None_iff)
  ultimately show ?case
    by (simp add: dict_set_fresh eq)
qed (simp add: dict_by_def)

lemma dict_by_values: "distinct (map key xs) \<Longrightarrow> dict_values (dict_by key xs) = xs"
  by (simp add: dict_by_distinct dict_values_def comp_def)

lemma dict_get_by: "distinct (map key xs) \<Longrightarrow> x \<in> set xs \<Longrightarrow> dict_get (dict_by key xs) (key x) = Some x"
  by (simp add: dict_by_distinct dict_get_def map_of_eq_Some_iff comp_def image_iff)

lemma dict_get_by_SomeD: "dict_get (dict_by key xs) k = Some x \<Longrightarrow> x \<in> set xs \<and> key x = k"
  unfolding dict_by_def using pydict.lookup_store_all_Some [of "[]" key "\<lambda>x. x" xs k x] by auto

lemma dict_get_by_None: "dict_get (dict_by key xs) k = None \<longleftrightarrow> k \<notin> key ` set xs"
proof
  assume "k \<notin> key ` set xs"
  then show "dict_get (dict_by key xs) k = None"
    using dict_get_by_SomeD [of key xs k] by (cases "dict_get (dict_by key xs) k") auto
next
  assume *: "dict_get (dict_by key xs) k = None"
  have "set (map fst (fold (\<lambda>x d. dict_set d (key x) x) xs d)) = set (map fst d) \<union> key ` set xs" for d
    by (induction xs arbitrary: d) (auto simp: set_keys_dict_set simp del: set_map)
  from this [of "[]"] * show "k \<notin> key ` set xs"
    by (simp add: dict_by_def dict_get_None_iff)
qed

section \<open>Small facts about lists\<close>

lemma sorted_map_sort_key [simp]: "sorted (map f (sort_key f xs))"
  by (rule sorted_sort_key)

lemma distinct_map_sort_key [simp]: "distinct (map f (sort_key g xs)) \<longleftrightarrow> distinct (map f xs)"
proof -
  have "mset (map f (sort_key g xs)) = mset (map f xs)" by simp
  then show ?thesis by (metis mset_eq_imp_distinct_iff)
qed

lemma map_eq_of_list_all2:
  "list_all2 P xs ys \<Longrightarrow> (\<And>x y. P x y \<Longrightarrow> g y = f x) \<Longrightarrow> map g ys = map f xs"
  by (induction xs ys rule: list_all2_induct) auto

lemma list_all2_right_elem: "list_all2 P xs ys \<Longrightarrow> y \<in> set ys \<Longrightarrow> \<exists>x \<in> set xs. P x y"
  by (induction xs ys rule: list_all2_induct) auto

lemma list_all2_left_elem: "list_all2 P xs ys \<Longrightarrow> x \<in> set xs \<Longrightarrow> \<exists>y \<in> set ys. P x y"
  by (induction xs ys rule: list_all2_induct) auto

lemma filter_all_conv: "(\<forall>x \<in> set xs. P x) \<Longrightarrow> filter P xs = xs"
  by (induction xs) auto

fun digits_of :: "nat \<Rightarrow> string" where
  \<comment> \<open>\<^verbatim>\<open>str(n)\<close> of a natural number\<close>
  "digits_of n = (if n < 10 then [char_of (48 + n)]
                  else digits_of (n div 10) @ [char_of (48 + n mod 10)])"

declare digits_of.simps [simp del]

lemma digits_of_nonempty [simp]: "digits_of n \<noteq> []"
  by (subst digits_of.simps) simp

lemma digits_value:
  "foldl (\<lambda>n c. 10 * n + (of_char c - 48)) a (digits_of n) = a * 10 ^ length (digits_of n) + n"
proof (induction n arbitrary: a rule: digits_of.induct)
  case (1 n)
  show ?case
  proof (cases "n < 10")
    case True
    then show ?thesis by (simp add: digits_of.simps)
  next
    case False
    have "of_char (char_of (48 + n mod 10) :: char) = (48 + n mod 10 :: nat)" by simp
    with False 1 [OF False] show ?thesis
      by (subst (1 2) digits_of.simps) (simp add: algebra_simps)
  qed
qed

lemma digits_are_digits: "list_all (\<lambda>c. CHR ''0'' \<le> c \<and> c \<le> CHR ''9'') (digits_of n)"
proof (induction n rule: digits_of.induct)
  case (1 n)
  have digit: "CHR ''0'' \<le> (char_of (48 + k) :: char) \<and> char_of (48 + k) \<le> CHR ''9''" if "k < 10" for k :: nat
    using that by (simp add: less_eq_char_def)
  show ?case
  proof (cases "n < 10")
    case True
    with digit show ?thesis by (simp add: digits_of.simps)
  next
    case False
    with 1 [OF False] digit [of "n mod 10"] show ?thesis by (subst digits_of.simps) simp
  qed
qed

lemma digits_of_inj [simp]: "digits_of m = digits_of n \<longleftrightarrow> m = n"
proof
  assume "digits_of m = digits_of n"
  then show "m = n" using digits_value [of 0 m] digits_value [of 0 n] by (metis add_0 mult_0)
qed simp

section \<open>Characters\<close>

definition py_space :: "char \<Rightarrow> bool" where
  \<comment> \<open>what \<^verbatim>\<open>str.strip()\<close> and \<^verbatim>\<open>str.split()\<close> take for a space, of the characters below 256\<close>
  "py_space c \<longleftrightarrow> (let n = (of_char c :: nat) in 9 \<le> n \<and> n \<le> 13 \<or> 28 \<le> n \<and> n \<le> 32 \<or> n = 133 \<or> n = 160)"

definition py_strip :: "string \<Rightarrow> string" where
  \<comment> \<open>\<^verbatim>\<open>s.strip()\<close>\<close>
  "py_strip s = rev (dropWhile py_space (rev (dropWhile py_space s)))"

definition lower_case :: "char \<Rightarrow> bool" where
  "lower_case c \<longleftrightarrow> CHR ''a'' \<le> c \<and> c \<le> CHR ''z''"

end
