(* ===== verification/PyTime.thy ===== *)
theory PyTime
  imports Prelude
begin

text \<open>
  Time as the program uses it: timezone-aware instants (microseconds of UTC since the epoch),
  naive datetimes that every contract rejects, calendar dates (days since the epoch), and the
  half-open UTC interval of an inclusive date range (\<^verbatim>\<open>time_intervals.py\<close>,
  \<^verbatim>\<open>core/models/base.py\<close>). Only \<^verbatim>\<open>date.max\<close> is bounded here:
  instants are unbounded integers.
\<close>

section \<open>Instants, dates and datetimes\<close>

type_synonym utc = int
type_synonym date = int

datatype py_datetime =
    Naive int \<comment> \<open>wall clock in microseconds, no \<^verbatim>\<open>tzinfo\<close>\<close>
  | Aware int int \<comment> \<open>wall clock and \<^verbatim>\<open>utcoffset()\<close>, both in microseconds\<close>

definition day_us :: int where
  "day_us = 86400000000"

definition second_us :: int where
  "second_us = 1000000"

definition seconds :: "int \<Rightarrow> int" where
  \<comment> \<open>\<^verbatim>\<open>timedelta(seconds=n)\<close>\<close>
  "seconds n = n * second_us"

definition utc_date :: "utc \<Rightarrow> date" where
  \<comment> \<open>\<^verbatim>\<open>t.date()\<close> of a UTC datetime\<close>
  "utc_date t = t div day_us"

definition day_start :: "date \<Rightarrow> utc" where
  \<comment> \<open>\<^verbatim>\<open>datetime.combine(d, time.min, tzinfo=UTC)\<close>\<close>
  "day_start d = d * day_us"

definition date_max :: date where
  \<comment> \<open>\<^verbatim>\<open>date.max\<close>, 9999-12-31\<close>
  "date_max = 2932896"

fun normalize_datetime_to_utc :: "py_datetime \<Rightarrow> utc result" where
  "normalize_datetime_to_utc (Naive w) =
     Inl (ValueError ''datetime must include timezone information'')"
| "normalize_datetime_to_utc (Aware w off) = Inr (w - off)"

datatype date_like = PlainDate date | WithTime py_datetime

fun is_plain_date :: "date_like \<Rightarrow> bool" where
  "is_plain_date (PlainDate d) = True"
| "is_plain_date (WithTime t) = False"

fun inclusive_utc_date_bounds :: "date_like \<Rightarrow> date_like \<Rightarrow> (utc \<times> utc) result" where
  "inclusive_utc_date_bounds (PlainDate start) (PlainDate end_date) =
     (if start > end_date then Inl (ValueError ''start date must not be later than end date'')
      else if end_date \<ge> date_max then Inl (OverflowError ''date value out of range'')
      else Inr (day_start start, day_start (end_date + 1)))"
| "inclusive_utc_date_bounds _ _ =
     Inl (TypeError ''inclusive date bounds require date values without times'')"

section \<open>Days and their starts\<close>

lemma day_us_pos [simp]: "0 < day_us"
  by (simp add: day_us_def)

lemma utc_date_day_start [simp]: "utc_date (day_start d) = d"
  by (simp add: utc_date_def day_start_def day_us_def)

lemma day_start_mono [simp]: "day_start a \<le> day_start b \<longleftrightarrow> a \<le> b"
  by (simp add: day_start_def day_us_def)

lemma day_start_strict_mono [simp]: "day_start a < day_start b \<longleftrightarrow> a < b"
  by (simp add: day_start_def day_us_def)

lemma day_start_le_iff: "day_start d \<le> t \<longleftrightarrow> d \<le> utc_date t"
proof
  assume "day_start d \<le> t"
  then have "d * day_us div day_us \<le> t div day_us"
    unfolding day_start_def by (rule zdiv_mono1) simp
  then show "d \<le> utc_date t" by (simp add: utc_date_def day_us_def)
next
  assume "d \<le> utc_date t"
  then have "d * day_us \<le> t div day_us * day_us"
    unfolding utc_date_def by (rule mult_right_mono) (simp add: day_us_def)
  also have "\<dots> \<le> t"
    using pos_mod_sign [OF day_us_pos, of t] div_mult_mod_eq [of t day_us] by linarith
  finally show "day_start d \<le> t" by (simp add: day_start_def)
qed

lemma less_day_start_iff: "t < day_start d \<longleftrightarrow> utc_date t < d"
  using day_start_le_iff [of d t] by linarith

lemma day_start_utc_date_le: "day_start (utc_date t) \<le> t"
  by (simp add: day_start_le_iff)

lemma seconds_nonneg [simp]: "0 \<le> seconds n \<longleftrightarrow> 0 \<le> n"
  by (simp add: seconds_def second_us_def)

text \<open>
  Property C40. The half-open UTC interval computed for an inclusive calendar range contains
  an instant exactly when the instant's UTC date lies in the inclusive range.
\<close>
theorem inclusive_bounds_exact:
  assumes "inclusive_utc_date_bounds a b = Inr (lo, hi)"
  shows "\<exists>start end_date. a = PlainDate start \<and> b = PlainDate end_date \<and> start \<le> end_date \<and>
    (\<forall>t. (lo \<le> t \<and> t < hi) = (start \<le> utc_date t \<and> utc_date t \<le> end_date))"
  using assms
  by (cases "(a, b)" rule: inclusive_utc_date_bounds.cases)
     (auto simp: day_start_le_iff less_day_start_iff split: if_splits)

theorem inclusive_bounds_exact_witness:
  "\<exists>start end_date. PlainDate 10 = PlainDate start \<and> PlainDate 12 = PlainDate end_date \<and>
    start \<le> end_date \<and>
    (\<forall>t. (day_start 10 \<le> t \<and> t < day_start 13) = (start \<le> utc_date t \<and> utc_date t \<le> end_date))"
  by (rule inclusive_bounds_exact) (simp add: date_max_def)

end
