(* ===== verification/Contracts.thy ===== *)
theory Contracts
  imports PyTime "HOL-Library.Word"
begin

unbundle bit_operations_syntax

text \<open>
  The core data contracts (\<^verbatim>\<open>core/models\<close>): enumerations, decimals, JSON values,
  UUIDs and the metric result every analysis reads, with the validators pydantic runs when
  an instance is built, and the point-in-time rule that decides which metric rows may be read
  at a cut (\<^verbatim>\<open>analytics/metric_identity_cut.py\<close>). Field values are those after
  pydantic's parsing: strings are stripped, datetimes are instants.
\<close>

section \<open>Enumerations\<close>

datatype asset_class = EQUITY | ETF | CRYPTO

fun asset_class_value :: "asset_class \<Rightarrow> string" where
  "asset_class_value EQUITY = ''equity''"
| "asset_class_value ETF = ''etf''"
| "asset_class_value CRYPTO = ''crypto''"

datatype data_quality = VALID | DELAYED | PARTIAL | SUSPECT

fun data_quality_value :: "data_quality \<Rightarrow> string" where
  "data_quality_value VALID = ''valid''"
| "data_quality_value DELAYED = ''delayed''"
| "data_quality_value PARTIAL = ''partial''"
| "data_quality_value SUSPECT = ''suspect''"

datatype data_frequency =
  TICK | MINUTE_1 | MINUTE_5 | MINUTE_15 | HOUR_1 | DAY_1 | QUARTERLY | ANNUAL | EVENT

fun data_frequency_value :: "data_frequency \<Rightarrow> string" where
  "data_frequency_value TICK = ''tick''"
| "data_frequency_value MINUTE_1 = ''minute_1''"
| "data_frequency_value MINUTE_5 = ''minute_5''"
| "data_frequency_value MINUTE_15 = ''minute_15''"
| "data_frequency_value HOUR_1 = ''hour_1''"
| "data_frequency_value DAY_1 = ''day_1''"
| "data_frequency_value QUARTERLY = ''quarterly''"
| "data_frequency_value ANNUAL = ''annual''"
| "data_frequency_value EVENT = ''event''"

lemma asset_class_value_inj [simp]: "asset_class_value a = asset_class_value b \<longleftrightarrow> a = b"
  by (cases a; cases b) auto

lemma data_quality_value_inj [simp]: "data_quality_value a = data_quality_value b \<longleftrightarrow> a = b"
  by (cases a; cases b) auto

section \<open>Decimals\<close>

text \<open>
  A finite Python \<^verbatim>\<open>Decimal\<close> (pydantic rejects the others): sign, coefficient
  and exponent. Comparisons and equality are exact on the value, so 1.0 equals 1.00.
\<close>

datatype decimal = Decimal (dec_neg: bool) (dec_coeff: nat) (dec_exp: int)

fun dec_value :: "decimal \<Rightarrow> rat" where
  "dec_value (Decimal s c e) =
     (if s then - 1 else 1) * of_nat c * (if 0 \<le> e then 10 ^ nat e else 1 / 10 ^ nat (- e))"

definition dec_less :: "decimal \<Rightarrow> decimal \<Rightarrow> bool" where
  "dec_less a b \<longleftrightarrow> dec_value a < dec_value b"

definition dec_le :: "decimal \<Rightarrow> decimal \<Rightarrow> bool" where
  "dec_le a b \<longleftrightarrow> dec_value a \<le> dec_value b"

definition dec_eq :: "decimal \<Rightarrow> decimal \<Rightarrow> bool" where
  "dec_eq a b \<longleftrightarrow> dec_value a = dec_value b"

section \<open>JSON values\<close>

text \<open>
  Python compares JSON values across numeric types (\<^verbatim>\<open>True == 1 == 1.0\<close>) and
  objects regardless of key order. \<open>json_norm\<close> maps a value to a normal form on which
  equality is structural; the two values that are not finite floats are kept apart.
\<close>

datatype json =
    JNull
  | JBool bool
  | JInt int
  | JFloat rat
  | JInf bool
  | JNan
  | JStr string
  | JArr "json list"
  | JObj "(string \<times> json) list"

datatype pyval =
    VNone
  | VNum rat
  | VInf bool
  | VNan
  | VStr string
  | VList "pyval list"
  | VDict "(string \<times> pyval) list"

fun json_norm :: "json \<Rightarrow> pyval" where
  "json_norm JNull = VNone"
| "json_norm (JBool b) = VNum (if b then 1 else 0)"
| "json_norm (JInt i) = VNum (of_int i)"
| "json_norm (JFloat r) = VNum r"
| "json_norm (JInf s) = VInf s"
| "json_norm JNan = VNan"
| "json_norm (JStr s) = VStr s"
| "json_norm (JArr xs) = VList (map json_norm xs)"
| "json_norm (JObj kvs) = VDict (sort_key fst (map (\<lambda>(k, v). (k, json_norm v)) kvs))"

definition json_eq :: "json \<Rightarrow> json \<Rightarrow> bool" where
  "json_eq a b \<longleftrightarrow> json_norm a = json_norm b"

fun json_finite :: "json \<Rightarrow> bool" where
  \<comment> \<open>what \<^verbatim>\<open>json.dumps(..., allow_nan=False)\<close> accepts\<close>
  "json_finite (JInf s) = False"
| "json_finite JNan = False"
| "json_finite (JArr xs) = list_all json_finite xs"
| "json_finite (JObj kvs) = list_all (\<lambda>(k, v). json_finite v) kvs"
| "json_finite _ = True"

type_synonym parameters = "(string \<times> json) list"

definition param_get :: "parameters \<Rightarrow> string \<Rightarrow> json" where
  \<comment> \<open>\<^verbatim>\<open>parameters.get(name)\<close>: a missing name reads as \<^verbatim>\<open>None\<close>\<close>
  "param_get ps name = (case dict_get ps name of Some v \<Rightarrow> v | None \<Rightarrow> JNull)"

lemma json_eq_refl [simp]: "json_eq a a"
  by (simp add: json_eq_def)

section \<open>UUIDs\<close>

text \<open>
  A UUID is its 128-bit value; its textual form has a fixed width, so ordering by
  \<^verbatim>\<open>str(uuid)\<close> is ordering by the value. \<open>uuid_version\<close> is
  \<^verbatim>\<open>UUID.version\<close>: present only under the RFC 4122 variant bits.
\<close>

type_synonym uuid = "128 word"

definition uuid_version :: "uuid \<Rightarrow> nat option" where
  "uuid_version u =
     (if bit u 63 \<and> \<not> bit u 62 then Some (unat (drop_bit 76 u AND 15)) else None)"

section \<open>Metric results\<close>

record metric_result =
  m_result_id :: uuid
  m_asset_id :: string
  m_metric_key :: string
  m_value :: decimal
  m_unit :: string
  m_as_of :: utc
  m_available_at :: utc
  m_computed_at :: utc
  m_parameters :: parameters
  m_input_observation_ids :: "uuid list"
  m_input_metric_result_ids :: "uuid list"
  m_algorithm_version :: string
  m_quality :: data_quality

definition validate_result_traceability :: "metric_result \<Rightarrow> metric_result result" where
  "validate_result_traceability m =
     (if m_available_at m > m_computed_at m
        then Inl (ValueError ''available_at must not be later than computed_at'')
      else if m_input_observation_ids m = []
        then Inl (ValueError ''at least one input_observation_id is required'')
      else if \<not> distinct (m_input_observation_ids m)
        then Inl (ValueError ''input_observation_ids must be unique'')
      else if \<not> distinct (m_input_metric_result_ids m)
        then Inl (ValueError ''input_metric_result_ids must be unique'')
      else Inr m)"

section \<open>Eligibility of a metric row at a cut\<close>

datatype cut_identity_version = CutV1 | CutV2

datatype legacy_state = LegacyValue | LegacyAbsent | LegacyNotString | LegacyUnparseable | LegacyNaive

record legacy_probe =
  lp_state :: legacy_state
  lp_value :: "utc option"

record cut_eligibility =
  ce_version :: cut_identity_version
  ce_eligible :: bool
  ce_legacy :: "legacy_probe option"

text \<open>
  \<open>parse\<close> is \<^verbatim>\<open>datetime.fromisoformat\<close>: \<open>None\<close> where it raises
  \<^verbatim>\<open>ValueError\<close>. Every theorem holds for any such parser.
\<close>

type_synonym iso_parser = "string \<Rightarrow> py_datetime option"

definition resolve_cut_identity_version :: "metric_result \<Rightarrow> cut_identity_version" where
  "resolve_cut_identity_version m =
     (if uuid_version (m_result_id m) = Some 8 then CutV2 else CutV1)"

definition normalize_zulu :: "string \<Rightarrow> string" where
  \<comment> \<open>\<^verbatim>\<open>f"{value[:-1]}+00:00" if value.endswith(("Z", "z")) else value\<close>\<close>
  "normalize_zulu s =
     (if s \<noteq> [] \<and> (last s = CHR ''Z'' \<or> last s = CHR ''z'') then butlast s @ ''+00:00'' else s)"

definition probe_legacy_known_at :: "iso_parser \<Rightarrow> metric_result \<Rightarrow> legacy_probe" where
  "probe_legacy_known_at parse m =
     (case param_get (m_parameters m) ''known_at'' of
        JNull \<Rightarrow> \<lparr>lp_state = LegacyAbsent, lp_value = None\<rparr>
      | JStr s \<Rightarrow>
          (case parse (normalize_zulu s) of
             None \<Rightarrow> \<lparr>lp_state = LegacyUnparseable, lp_value = None\<rparr>
           | Some (Naive w) \<Rightarrow> \<lparr>lp_state = LegacyNaive, lp_value = None\<rparr>
           | Some (Aware w off) \<Rightarrow> \<lparr>lp_state = LegacyValue, lp_value = Some (w - off)\<rparr>)
      | _ \<Rightarrow> \<lparr>lp_state = LegacyNotString, lp_value = None\<rparr>)"

definition require_absent_legacy_cut_parameter :: "metric_result \<Rightarrow> unit result" where
  "require_absent_legacy_cut_parameter m =
     (if ''known_at'' \<in> set (dict_keys (m_parameters m))
        then Inl (MetricCutError ''carries the legacy known_at parameter under metric identity v2'')
      else Inr ())"

definition metric_cut_eligibility ::
  "iso_parser \<Rightarrow> metric_result \<Rightarrow> py_datetime \<Rightarrow> cut_eligibility result" where
  "metric_cut_eligibility parse m known_at =
     (case known_at of
        Naive w \<Rightarrow> Inl (ValueError ''cut known_at must include timezone information'')
      | Aware w off \<Rightarrow>
          (let cut = w - off; version = resolve_cut_identity_version m in
           case version of
             CutV2 \<Rightarrow> bind_r (require_absent_legacy_cut_parameter m) (\<lambda>_.
               Inr \<lparr>ce_version = version, ce_eligible = m_available_at m \<le> cut,
                    ce_legacy = None\<rparr>)
           | CutV1 \<Rightarrow>
               (let legacy = probe_legacy_known_at parse m in
                Inr \<lparr>ce_version = version,
                     ce_eligible = (lp_state legacy = LegacyValue \<and> lp_value legacy = Some cut),
                     ce_legacy = Some legacy\<rparr>)))"

lemma lp_value_iff: "lp_value (probe_legacy_known_at parse m) \<noteq> None \<longleftrightarrow>
    lp_state (probe_legacy_known_at parse m) = LegacyValue"
  by (auto simp: probe_legacy_known_at_def split: json.splits option.splits py_datetime.splits)

lemma eligibility_v1:
  "resolve_cut_identity_version m = CutV1 \<Longrightarrow>
     metric_cut_eligibility parse m (Aware w off) =
       Inr \<lparr>ce_version = CutV1,
            ce_eligible = (lp_value (probe_legacy_known_at parse m) = Some (w - off)),
            ce_legacy = Some (probe_legacy_known_at parse m)\<rparr>"
  using lp_value_iff [of parse m] by (auto simp: metric_cut_eligibility_def Let_def)

lemma eligibility_v2:
  "resolve_cut_identity_version m = CutV2 \<Longrightarrow> ''known_at'' \<notin> set (dict_keys (m_parameters m)) \<Longrightarrow>
     metric_cut_eligibility parse m (Aware w off) =
       Inr \<lparr>ce_version = CutV2, ce_eligible = (m_available_at m \<le> w - off), ce_legacy = None\<rparr>"
  by (simp add: metric_cut_eligibility_def require_absent_legacy_cut_parameter_def Let_def)

lemma eligibility_error_iff:
  "(\<exists>e. metric_cut_eligibility parse m (Aware w off) = Inl e) \<longleftrightarrow>
     resolve_cut_identity_version m = CutV2 \<and> ''known_at'' \<in> set (dict_keys (m_parameters m))"
  by (cases "resolve_cut_identity_version m")
     (auto simp: metric_cut_eligibility_def require_absent_legacy_cut_parameter_def Let_def)

text \<open>
  At any UTC cut, a v2 row without the legacy parameter is readable exactly when
  it was available by then, so a row readable at a cut is readable at every later one; a v1
  row is readable at the single cut its legacy parameter names.
\<close>
lemma cut_eligibility_spec:
  assumes "''known_at'' \<notin> set (dict_keys (m_parameters v2))"
    and "resolve_cut_identity_version v2 = CutV2"
    and "resolve_cut_identity_version v1 = CutV1"
  shows "(\<exists>el. metric_cut_eligibility parse v2 (Aware w off) = Inr el \<and>
            ce_eligible el = (m_available_at v2 \<le> w - off)) \<and>
         (\<exists>el. metric_cut_eligibility parse v1 (Aware w off) = Inr el \<and>
            ce_eligible el = (lp_value (probe_legacy_known_at parse v1) = Some (w - off)))"
  using assms by (simp add: eligibility_v1 eligibility_v2)

definition witness_v2_metric :: metric_result where
  "witness_v2_metric =
     \<lparr>m_result_id = push_bit 76 8 OR push_bit 63 1 OR 5, m_asset_id = ''equity:us:aapl'',
      m_metric_key = ''market.technical.rsi'', m_value = Decimal False 715 (-1),
      m_unit = ''index'', m_as_of = 100, m_available_at = 110, m_computed_at = 120,
      m_parameters = [(''source_id'', JStr ''alpaca'')], m_input_observation_ids = [1],
      m_input_metric_result_ids = [], m_algorithm_version = ''1.0.0'', m_quality = VALID\<rparr>"

lemma witness_v2_metric_version [simp]: "resolve_cut_identity_version witness_v2_metric = CutV2"
  by (simp add: resolve_cut_identity_version_def uuid_version_def witness_v2_metric_def)

lemma cut_eligibility_spec_witness:
  "(\<exists>el. metric_cut_eligibility (\<lambda>s. None) witness_v2_metric (Aware 130 0) = Inr el \<and>
      ce_eligible el = (m_available_at witness_v2_metric \<le> 130 - 0)) \<and>
   (\<exists>el. metric_cut_eligibility (\<lambda>s. None) (witness_v2_metric\<lparr>m_result_id := 5\<rparr>) (Aware 130 0) = Inr el \<and>
      ce_eligible el = (lp_value (probe_legacy_known_at (\<lambda>s. None)
        (witness_v2_metric\<lparr>m_result_id := 5\<rparr>)) = Some (130 - 0)))"
  by (rule cut_eligibility_spec)
     (simp_all add: dict_keys_def witness_v2_metric_def resolve_cut_identity_version_def
        uuid_version_def)

end
