(* ===== verification/Screening.thy ===== *)
theory Screening
  imports Contracts
begin

text \<open>
  Deterministic analytical screening (\<^verbatim>\<open>alerts/analytical_models.py\<close>,
  \<^verbatim>\<open>alerts/analytical_engine.py\<close>): versioned rules made of metric conditions with
  hysteresis, the point-in-time request, the tri-valued condition results, and the pure engine
  that evaluates one rule over one snapshot. Every pydantic model validator is a function that
  returns its argument or the error it raises; the engine runs them where the code builds an
  instance. Identities (SHA-256 and UUIDv5 over canonical JSON) are the functions of
  \<open>screening_ids\<close>, applied to exactly the fields the code hashes.
\<close>

section \<open>Rules and conditions\<close>

datatype screening_domain = MARKET | FUNDAMENTALS

datatype rule_state = DRAFT | SILENT | ACTIVE | PAUSED

datatype condition_operator =
  GREATER_THAN | GREATER_THAN_OR_EQUAL | LESS_THAN | LESS_THAN_OR_EQUAL | EQUAL

datatype condition_state = MET | NOT_MET | NOT_EVALUABLE

fun compare :: "condition_operator \<Rightarrow> decimal \<Rightarrow> decimal \<Rightarrow> bool" where
  "compare GREATER_THAN value threshold = dec_less threshold value"
| "compare GREATER_THAN_OR_EQUAL value threshold = dec_le threshold value"
| "compare LESS_THAN value threshold = dec_less value threshold"
| "compare LESS_THAN_OR_EQUAL value threshold = dec_le value threshold"
| "compare EQUAL value threshold = dec_eq value threshold"

record screening_condition =
  c_condition_id :: string
  c_label_es :: string
  c_domain :: screening_domain
  c_metric_key :: string
  c_algorithm_version :: string
  c_unit :: string
  c_operator :: condition_operator
  c_threshold :: decimal
  c_exit_threshold :: "decimal option"
  c_parameter_filters :: parameters
  c_accepted_qualities :: "data_quality list"
  c_limitations :: "string list"

definition validate_condition :: "screening_condition \<Rightarrow> screening_condition result" where
  "validate_condition c =
     (let qualities = map data_quality_value (c_accepted_qualities c) in
      if qualities = [] then Inl (ValueError ''accepted_qualities must not be empty'')
      else if \<not> sorted_unique qualities
        then Inl (ValueError ''accepted_qualities must be unique and sorted'')
      else if \<not> list_all (\<lambda>(k, v). json_finite v) (c_parameter_filters c)
        then Inl (ValueError ''parameter_filters must be JSON serializable'')
      else
        (case c_exit_threshold c of
           None \<Rightarrow> Inr c
         | Some exit_threshold \<Rightarrow>
             (if c_operator c = EQUAL
                then Inl (ValueError ''equal conditions cannot define exit_threshold'')
              else if c_operator c \<in> {GREATER_THAN, GREATER_THAN_OR_EQUAL} \<and>
                      dec_less (c_threshold c) exit_threshold
                then Inl (ValueError ''greater-than exit_threshold must not exceed the entry threshold'')
              else if c_operator c \<in> {LESS_THAN, LESS_THAN_OR_EQUAL} \<and>
                      dec_less exit_threshold (c_threshold c)
                then Inl (ValueError ''less-than exit_threshold must not be below the entry threshold'')
              else Inr c)))"

definition retention_threshold :: "screening_condition \<Rightarrow> decimal" where
  "retention_threshold c =
     (case c_exit_threshold c of Some exit_threshold \<Rightarrow> exit_threshold | None \<Rightarrow> c_threshold c)"

record screening_rule =
  r_rule_id :: string
  r_rule_version :: string
  r_name_es :: string
  r_description_es :: string
  r_state :: rule_state
  r_domain :: screening_domain
  r_asset_classes :: "asset_class list"
  r_conditions :: "screening_condition list"
  r_confirmations_required :: int
  r_cooldown_seconds :: int
  r_limitations :: "string list"

definition validate_rule :: "screening_rule \<Rightarrow> screening_rule result" where
  "validate_rule r =
     (let asset_classes = map asset_class_value (r_asset_classes r);
          identifiers = map c_condition_id (r_conditions r) in
      if r_confirmations_required r < 1 \<or> 20 < r_confirmations_required r
        then Inl (ValueError ''confirmations_required'')
      else if r_cooldown_seconds r < 0 \<or> 31536000 < r_cooldown_seconds r
        then Inl (ValueError ''cooldown_seconds'')
      else if asset_classes = [] then Inl (ValueError ''asset_classes must not be empty'')
      else if \<not> sorted_unique asset_classes
        then Inl (ValueError ''asset_classes must be unique and sorted'')
      else if r_conditions r = [] then Inl (ValueError ''conditions must not be empty'')
      else if \<not> sorted_unique identifiers
        then Inl (ValueError ''conditions must be unique and sorted by condition_id'')
      else if \<not> list_all (\<lambda>c. c_domain c = r_domain r) (r_conditions r)
        then Inl (ValueError ''all conditions must match the rule domain'')
      else Inr r)"

record screening_request =
  q_rule :: screening_rule
  q_asset_id :: string
  q_asset_class :: asset_class
  q_source_id :: string
  q_known_at :: utc
  q_computed_at :: utc
  q_metrics :: "metric_result list"

fun check_snapshot_metrics :: "screening_request \<Rightarrow> metric_result list \<Rightarrow> unit result" where
  "check_snapshot_metrics q [] = Inr ()"
| "check_snapshot_metrics q (m # ms) =
     (if m_asset_id m \<noteq> q_asset_id q
        then Inl (ValueError ''screening metric belongs to another asset'')
      else if m_available_at m > q_known_at q
        then Inl (ValueError ''screening metric was unavailable at known_at'')
      else if param_get (m_parameters m) ''source_id'' \<noteq> JStr (q_source_id q)
        then Inl (ValueError ''screening metric source_id does not match the request'')
      else check_snapshot_metrics q ms)"

definition validate_snapshot :: "screening_request \<Rightarrow> screening_request result" where
  "validate_snapshot q =
     (if q_asset_class q \<notin> set (r_asset_classes (q_rule q))
        then Inl (ValueError ''asset_class is not compatible with the screening rule'')
      else if q_computed_at q < q_known_at q
        then Inl (ValueError ''computed_at must not predate known_at'')
      else if q_metrics q = [] then Inr q
      else if length (remdups (map m_as_of (q_metrics q))) \<noteq> 1
        then Inl (ValueError ''screening metrics must share one common as_of'')
      else if \<not> distinct (map m_result_id (q_metrics q))
        then Inl (ValueError ''screening metric result IDs must be unique'')
      else bind_r (check_snapshot_metrics q (q_metrics q)) (\<lambda>_. Inr q))"

section \<open>Condition results\<close>

record condition_result =
  cr_condition_id :: string
  cr_state :: condition_state
  cr_metric_key :: string
  cr_operator :: condition_operator
  cr_threshold :: decimal
  cr_retention_threshold :: decimal
  cr_unit :: string
  cr_retention_state :: condition_state
  cr_observed_value :: "decimal option"
  cr_metric_result_id :: "uuid option"
  cr_as_of :: "utc option"
  cr_available_at :: "utc option"
  cr_quality :: "data_quality option"
  cr_explanation_es :: string

definition state_of :: "bool \<Rightarrow> condition_state" where
  \<comment> \<open>\<^verbatim>\<open>MET if ... else NOT_MET\<close>\<close>
  "state_of b = (if b then MET else NOT_MET)"

definition validate_outcome :: "condition_result \<Rightarrow> condition_result result" where
  "validate_outcome c =
     (let missing = [cr_observed_value c = None, cr_metric_result_id c = None, cr_as_of c = None,
                     cr_available_at c = None, cr_quality c = None] in
      if cr_state c = NOT_EVALUABLE then
        (if cr_retention_state c \<noteq> NOT_EVALUABLE
           then Inl (ValueError ''unevaluable entry evidence requires unevaluable retention'')
         else if list_ex Not missing
           then Inl (ValueError ''not_evaluable conditions cannot claim metric evidence'')
         else Inr c)
      else if list_ex id missing
        then Inl (ValueError ''evaluated conditions require complete metric evidence'')
      else
        (case cr_observed_value c of
           None \<Rightarrow> Inl (ValueError ''observed screening value must be finite'')
         | Some observed \<Rightarrow>
             (if cr_state c \<noteq> state_of (compare (cr_operator c) observed (cr_threshold c))
                then Inl (ValueError ''condition state does not match its exact comparison'')
              else if cr_retention_state c \<noteq>
                        state_of (compare (cr_operator c) observed (cr_retention_threshold c))
                then Inl (ValueError ''retention_state does not match its hysteresis comparison'')
              else Inr c)))"

section \<open>Results and their identity\<close>

record screening_result =
  s_result_id :: uuid
  s_rule :: screening_rule
  s_asset_id :: string
  s_asset_class :: asset_class
  s_source_id :: string
  s_known_at :: utc
  s_as_of :: "utc option"
  s_computed_at :: utc
  s_conditions :: "condition_result list"
  s_matched :: bool
  s_retained :: "bool option"
  s_activated :: bool
  s_explanation_es :: string

text \<open>The fields hashed into a result identity; the explanations are cleared before hashing.\<close>

record result_payload =
  rp_rule_fingerprint :: string
  rp_asset_id :: string
  rp_asset_class :: string
  rp_source_id :: string
  rp_known_at :: utc
  rp_as_of :: "utc option"
  rp_conditions :: "condition_result list"

record screening_ids =
  sha_rule :: "screening_rule \<Rightarrow> string"
  sha_result :: "screening_result \<Rightarrow> string"
  uuid_result :: "result_payload \<Rightarrow> uuid"

definition rule_fingerprint :: "('x) screening_ids_scheme \<Rightarrow> screening_rule \<Rightarrow> string" where
  "rule_fingerprint I r = sha_rule I r"

definition result_fingerprint :: "('x) screening_ids_scheme \<Rightarrow> screening_result \<Rightarrow> string" where
  \<comment> \<open>\<^verbatim>\<open>model_dump(exclude={"computed_at"})\<close>\<close>
  "result_fingerprint I s = sha_result I (s\<lparr>s_computed_at := 0\<rparr>)"

definition analytical_screening_result_id ::
  "('x) screening_ids_scheme \<Rightarrow> screening_rule \<Rightarrow> string \<Rightarrow> asset_class \<Rightarrow> string \<Rightarrow> utc \<Rightarrow>
     utc option \<Rightarrow> condition_result list \<Rightarrow> uuid" where
  "analytical_screening_result_id I rule asset_id asset_class source_id known_at as_of conditions =
     uuid_result I
       \<lparr>rp_rule_fingerprint = rule_fingerprint I rule, rp_asset_id = asset_id,
        rp_asset_class = asset_class_value asset_class, rp_source_id = source_id,
        rp_known_at = known_at, rp_as_of = as_of,
        rp_conditions = map (\<lambda>c. c\<lparr>cr_explanation_es := []\<rparr>) conditions\<rparr>"

definition all_met :: "condition_result list \<Rightarrow> bool" where
  "all_met cs \<longleftrightarrow> list_all (\<lambda>c. cr_state c = MET) cs"

definition retained_of :: "condition_result list \<Rightarrow> bool option" where
  "retained_of cs =
     (if list_ex (\<lambda>c. cr_retention_state c = NOT_EVALUABLE) cs then None
      else Some (list_all (\<lambda>c. cr_retention_state c = MET) cs))"

definition rule_enabled :: "screening_rule \<Rightarrow> bool" where
  "rule_enabled r \<longleftrightarrow> r_state r \<in> {SILENT, ACTIVE}"

definition validate_result ::
  "('x) screening_ids_scheme \<Rightarrow> screening_result \<Rightarrow> screening_result result" where
  "validate_result I s =
     (let evidence_as_of = List.map_filter cr_as_of (s_conditions s) in
      if s_asset_class s \<notin> set (r_asset_classes (s_rule s))
        then Inl (ValueError ''result asset_class is not compatible with its rule'')
      else if s_computed_at s < s_known_at s
        then Inl (ValueError ''computed_at must not predate known_at'')
      else if map cr_condition_id (s_conditions s) \<noteq> map c_condition_id (r_conditions (s_rule s))
        then Inl (ValueError ''condition results do not match the rule order'')
      else if s_as_of s = None \<and> evidence_as_of \<noteq> []
        then Inl (ValueError ''result without as_of cannot contain metric evidence'')
      else if s_as_of s \<noteq> None \<and> list_ex (\<lambda>t. s_as_of s \<noteq> Some t) evidence_as_of
        then Inl (ValueError ''all condition evidence must match the result as_of'')
      else if list_ex (\<lambda>c. case cr_available_at c of None \<Rightarrow> False | Some t \<Rightarrow> t > s_known_at s)
                (s_conditions s)
        then Inl (ValueError ''condition evidence was unavailable at known_at'')
      else if s_matched s \<noteq> all_met (s_conditions s)
        then Inl (ValueError ''matched must require every condition to be met'')
      else if s_retained s \<noteq> retained_of (s_conditions s)
        then Inl (ValueError ''retained must match every condition's hysteresis state'')
      else if s_activated s \<noteq> (all_met (s_conditions s) \<and> rule_enabled (s_rule s))
        then Inl (ValueError ''activated must match rule state and condition outcomes'')
      else if s_result_id s \<noteq> analytical_screening_result_id I (s_rule s) (s_asset_id s)
                (s_asset_class s) (s_source_id s) (s_known_at s) (s_as_of s) (s_conditions s)
        then Inl (ValueError ''analytical screening result_id is not deterministic'')
      else Inr s)"

section \<open>The engine\<close>

definition filters_match :: "screening_condition \<Rightarrow> metric_result \<Rightarrow> bool" where
  "filters_match c m \<longleftrightarrow>
     list_all (\<lambda>(name, expected). json_eq (param_get (m_parameters m) name) expected)
       (c_parameter_filters c)"

fun collect_candidates :: "screening_condition \<Rightarrow> metric_result list \<Rightarrow> metric_result list result" where
  "collect_candidates c [] = Inr []"
| "collect_candidates c (m # ms) =
     (if m_algorithm_version m \<noteq> c_algorithm_version c
        then Inl (IncompatibleMetricError
               (c_condition_id c @ '': metric algorithm version is incompatible''))
      else if m_unit m \<noteq> c_unit c
        then Inl (IncompatibleMetricError (c_condition_id c @ '': metric unit is incompatible''))
      else if \<not> filters_match c m then collect_candidates c ms
      else if m_quality m \<notin> set (c_accepted_qualities c) then collect_candidates c ms
      else bind_r (collect_candidates c ms) (\<lambda>candidates. Inr (m # candidates)))"

definition not_evaluable_result :: "screening_condition \<Rightarrow> condition_result" where
  "not_evaluable_result c =
     \<lparr>cr_condition_id = c_condition_id c, cr_state = NOT_EVALUABLE,
      cr_metric_key = c_metric_key c, cr_operator = c_operator c, cr_threshold = c_threshold c,
      cr_retention_threshold = retention_threshold c, cr_unit = c_unit c,
      cr_retention_state = NOT_EVALUABLE, cr_observed_value = None, cr_metric_result_id = None,
      cr_as_of = None, cr_available_at = None, cr_quality = None,
      cr_explanation_es = c_label_es c @ '': no existe evidencia compatible en el per'' @
        [CHR 0xED] @ ''odo evaluado.''\<rparr>"

definition evaluated_result :: "screening_condition \<Rightarrow> metric_result \<Rightarrow> condition_result" where
  "evaluated_result c m =
     (let state = state_of (compare (c_operator c) (m_value m) (c_threshold c));
          retention_state = state_of (compare (c_operator c) (m_value m) (retention_threshold c));
          relationship = (if state = MET then ''cumple'' else ''no cumple'')
      in \<lparr>cr_condition_id = c_condition_id c, cr_state = state,
          cr_metric_key = c_metric_key c, cr_operator = c_operator c, cr_threshold = c_threshold c,
          cr_retention_threshold = retention_threshold c, cr_unit = c_unit c,
          cr_retention_state = retention_state, cr_observed_value = Some (m_value m),
          cr_metric_result_id = Some (m_result_id m), cr_as_of = Some (m_as_of m),
          cr_available_at = Some (m_available_at m), cr_quality = Some (m_quality m),
          cr_explanation_es = c_label_es c @ '': '' @ relationship @ '' la condici'' @
            [CHR 0xF3] @ ''n configurada.''\<rparr>)"

definition evaluate_condition ::
  "screening_condition \<Rightarrow> metric_result list \<Rightarrow> condition_result result" where
  "evaluate_condition c metrics =
     bind_r (collect_candidates c metrics) (\<lambda>candidates.
       case candidates of
         [] \<Rightarrow> validate_outcome (not_evaluable_result c)
       | [m] \<Rightarrow> validate_outcome (evaluated_result c m)
       | _ \<Rightarrow> Inl (AmbiguousMetricError
                (c_condition_id c @ '': multiple compatible metric revisions exist'')))"

definition screening_explanation :: "condition_result list \<Rightarrow> bool \<Rightarrow> string" where
  "screening_explanation conditions matched =
     (let not_evaluable = length (filter (\<lambda>c. cr_state c = NOT_EVALUABLE) conditions) in
      if not_evaluable \<noteq> 0
        then ''Evaluaci'' @ [CHR 0xF3] @ ''n incompleta: '' @ digits_of not_evaluable @
             '' condici'' @ [CHR 0xF3] @ ''n(es) no tienen evidencia compatible en el corte.''
      else if matched
        then ''La evidencia cumple todas las condiciones configuradas para revisi'' @ [CHR 0xF3] @
             ''n; no constituye una recomendaci'' @ [CHR 0xF3] @ ''n.''
      else ''La evidencia no cumple todas las condiciones configuradas; no se activa un candidato.'')"

definition metrics_by_key :: "screening_request \<Rightarrow> (string, metric_result list) dict" where
  "metrics_by_key q =
     fold (\<lambda>c d. dict_set d (c_metric_key c)
                   (filter (\<lambda>m. m_metric_key m = c_metric_key c) (q_metrics q)))
       (r_conditions (q_rule q)) []"

definition assemble_result ::
  "('x) screening_ids_scheme \<Rightarrow> screening_request \<Rightarrow> condition_result list \<Rightarrow> screening_result" where
  "assemble_result I q condition_results =
     (let rule = q_rule q;
          as_of = (case q_metrics q of [] \<Rightarrow> None | m # _ \<Rightarrow> Some (m_as_of m));
          matched = all_met condition_results;
          retained = retained_of condition_results;
          activated = (matched \<and> rule_enabled rule)
      in \<lparr>s_result_id = analytical_screening_result_id I rule (q_asset_id q) (q_asset_class q)
            (q_source_id q) (q_known_at q) as_of condition_results,
          s_rule = rule, s_asset_id = q_asset_id q, s_asset_class = q_asset_class q,
          s_source_id = q_source_id q, s_known_at = q_known_at q, s_as_of = as_of,
          s_computed_at = q_computed_at q, s_conditions = condition_results,
          s_matched = matched, s_retained = retained, s_activated = activated,
          s_explanation_es = screening_explanation condition_results matched\<rparr>)"

definition evaluate :: "('x) screening_ids_scheme \<Rightarrow> screening_request \<Rightarrow> screening_result result" where
  "evaluate I q =
     (let by_key = metrics_by_key q in
      bind_r (traverse (\<lambda>c. case dict_get by_key (c_metric_key c) of
                               None \<Rightarrow> Inl (KeyError (c_metric_key c))
                             | Some metrics \<Rightarrow> evaluate_condition c metrics)
               (r_conditions (q_rule q)))
        (\<lambda>condition_results. validate_result I (assemble_result I q condition_results)))"

section \<open>What the engine computes\<close>

text \<open>The evidence contract of a condition, and the rows of a request a condition looks at.\<close>

definition compatible :: "screening_condition \<Rightarrow> metric_result \<Rightarrow> bool" where
  "compatible c m \<longleftrightarrow> m_algorithm_version m = c_algorithm_version c \<and> m_unit m = c_unit c \<and>
     filters_match c m \<and> m_quality m \<in> set (c_accepted_qualities c)"

definition rows_for :: "screening_request \<Rightarrow> screening_condition \<Rightarrow> metric_result list" where
  "rows_for q c = filter (\<lambda>m. m_metric_key m = c_metric_key c) (q_metrics q)"

definition contract_ok :: "screening_condition \<Rightarrow> metric_result \<Rightarrow> bool" where
  "contract_ok c m \<longleftrightarrow> m_algorithm_version m = c_algorithm_version c \<and> m_unit m = c_unit c"

lemma collect_candidates_Inr:
  "collect_candidates c ms = Inr cs \<longleftrightarrow>
     (\<forall>m \<in> set ms. contract_ok c m) \<and> cs = filter (compatible c) ms"
  by (induction ms arbitrary: cs)
     (auto simp: bind_r_eq_Inr compatible_def contract_ok_def split: if_splits)

lemma collect_candidates_Inl:
  "collect_candidates c ms = Inl e \<Longrightarrow> \<exists>msg. e = IncompatibleMetricError msg"
  by (induction ms) (auto simp: bind_r_eq_Inl split: if_splits)

lemma metrics_by_key_get:
  "c \<in> set (r_conditions (q_rule q)) \<Longrightarrow>
     dict_get (metrics_by_key q) (c_metric_key c) = Some (rows_for q c)"
  unfolding metrics_by_key_def rows_for_def
  by (subst pydict.lookup_store_by_key
        [where key = c_metric_key and val = "\<lambda>k. filter (\<lambda>m. m_metric_key m = k) (q_metrics q)"]) auto

lemma state_of_simps [simp]:
  "state_of b \<noteq> NOT_EVALUABLE" "NOT_EVALUABLE \<noteq> state_of b" "state_of b = MET \<longleftrightarrow> b"
  by (simp_all add: state_of_def)

lemma validate_not_evaluable [simp]:
  "validate_outcome (not_evaluable_result c) = Inr (not_evaluable_result c)"
  by (simp add: validate_outcome_def not_evaluable_result_def)

lemma validate_evaluated [simp]:
  "validate_outcome (evaluated_result c m) = Inr (evaluated_result c m)"
  by (simp add: validate_outcome_def evaluated_result_def Let_def)

lemma evaluate_condition_Inr:
  "evaluate_condition c ms = Inr r \<longleftrightarrow> (\<forall>m \<in> set ms. contract_ok c m) \<and>
     (filter (compatible c) ms = [] \<and> r = not_evaluable_result c \<or>
      (\<exists>m. filter (compatible c) ms = [m] \<and> r = evaluated_result c m))"
  by (auto simp: evaluate_condition_def bind_r_eq_Inr collect_candidates_Inr split: list.splits)

lemma evaluate_condition_Inl:
  "evaluate_condition c ms = Inl e \<Longrightarrow>
     (\<exists>msg. e = IncompatibleMetricError msg) \<or> (\<exists>msg. e = AmbiguousMetricError msg)"
  by (cases "collect_candidates c ms" rule: sum.exhaust)
     (auto simp: evaluate_condition_def dest: collect_candidates_Inl split: list.splits)

lemma evaluate_unfold:
  "evaluate I q =
     bind_r (traverse (\<lambda>c. evaluate_condition c (rows_for q c)) (r_conditions (q_rule q)))
       (\<lambda>crs. validate_result I (assemble_result I q crs))"
proof -
  have "traverse (\<lambda>c. case dict_get (metrics_by_key q) (c_metric_key c) of
            None \<Rightarrow> Inl (KeyError (c_metric_key c)) | Some metrics \<Rightarrow> evaluate_condition c metrics)
          (r_conditions (q_rule q))
      = traverse (\<lambda>c. evaluate_condition c (rows_for q c)) (r_conditions (q_rule q))"
    by (rule traverse_cong) (simp add: metrics_by_key_get)
  then show ?thesis by (simp add: evaluate_def Let_def)
qed

text \<open>The facts about one condition result that the request's validator and the engine give.\<close>

lemma cr_simps [simp]:
  "cr_condition_id (not_evaluable_result c) = c_condition_id c"
  "cr_state (not_evaluable_result c) = NOT_EVALUABLE"
  "cr_retention_state (not_evaluable_result c) = NOT_EVALUABLE"
  "cr_as_of (not_evaluable_result c) = None"
  "cr_available_at (not_evaluable_result c) = None"
  "cr_condition_id (evaluated_result c m) = c_condition_id c"
  "cr_state (evaluated_result c m) = state_of (compare (c_operator c) (m_value m) (c_threshold c))"
  "cr_retention_state (evaluated_result c m) =
     state_of (compare (c_operator c) (m_value m) (retention_threshold c))"
  "cr_as_of (evaluated_result c m) = Some (m_as_of m)"
  "cr_available_at (evaluated_result c m) = Some (m_available_at m)"
  by (simp_all add: not_evaluable_result_def evaluated_result_def Let_def)

lemma check_snapshot_metrics_Inr:
  "check_snapshot_metrics q ms = Inr () \<longleftrightarrow>
     (\<forall>m \<in> set ms. m_asset_id m = q_asset_id q \<and> m_available_at m \<le> q_known_at q \<and>
        param_get (m_parameters m) ''source_id'' = JStr (q_source_id q))"
  by (induction ms) auto

lemma validate_snapshot_Inr:
  "validate_snapshot q = Inr q' \<longleftrightarrow> q' = q \<and> q_asset_class q \<in> set (r_asset_classes (q_rule q)) \<and>
     q_known_at q \<le> q_computed_at q \<and>
     (q_metrics q = [] \<or> length (remdups (map m_as_of (q_metrics q))) = 1 \<and>
        distinct (map m_result_id (q_metrics q)) \<and>
        (\<forall>m \<in> set (q_metrics q). m_asset_id m = q_asset_id q \<and> m_available_at m \<le> q_known_at q \<and>
           param_get (m_parameters m) ''source_id'' = JStr (q_source_id q)))"
  by (auto simp: validate_snapshot_def bind_r_eq_Inr check_snapshot_metrics_Inr)

lemma common_as_of:
  assumes "length (remdups (map m_as_of ms)) = 1" "m \<in> set ms" "m' \<in> set ms"
  shows "m_as_of m = m_as_of m'"
proof -
  from assms(1) obtain t where "remdups (map m_as_of ms) = [t]"
    by (cases "remdups (map m_as_of ms)") auto
  then have "m_as_of ` set ms = {t}"
    by (metis list.set_map list.simps(15) empty_set set_remdups)
  with assms(2,3) have "m_as_of m \<in> {t}" "m_as_of m' \<in> {t}" by (metis imageI)+
  then show ?thesis by simp
qed

definition condition_outcomes :: "screening_request \<Rightarrow> condition_result list \<Rightarrow> bool" where
  "condition_outcomes q crs \<longleftrightarrow>
     list_all2 (\<lambda>c r. (\<forall>m \<in> set (rows_for q c). contract_ok c m) \<and>
       (filter (compatible c) (rows_for q c) = [] \<and> r = not_evaluable_result c \<or>
        (\<exists>m. filter (compatible c) (rows_for q c) = [m] \<and> r = evaluated_result c m)))
     (r_conditions (q_rule q)) crs"

lemma traverse_outcomes:
  "traverse (\<lambda>c. evaluate_condition c (rows_for q c)) (r_conditions (q_rule q)) = Inr crs \<longleftrightarrow>
     condition_outcomes q crs"
  by (simp add: traverse_Inr_iff condition_outcomes_def evaluate_condition_Inr)

lemma outcome_evidence:
  assumes "condition_outcomes q crs" and "r \<in> set crs"
  obtains c where "c \<in> set (r_conditions (q_rule q))" "r = not_evaluable_result c"
    | c m where "c \<in> set (r_conditions (q_rule q))" "m \<in> set (q_metrics q)"
        "m_metric_key m = c_metric_key c" "compatible c m" "r = evaluated_result c m"
proof -
  from assms obtain c where c: "c \<in> set (r_conditions (q_rule q))"
    and r: "filter (compatible c) (rows_for q c) = [] \<and> r = not_evaluable_result c \<or>
        (\<exists>m. filter (compatible c) (rows_for q c) = [m] \<and> r = evaluated_result c m)"
    unfolding condition_outcomes_def by (blast dest: list_all2_right_elem)
  show thesis
  proof (cases "r = not_evaluable_result c")
    case True
    with c show thesis by (rule that(1))
  next
    case False
    with r obtain m where m: "filter (compatible c) (rows_for q c) = [m]" "r = evaluated_result c m"
      by blast
    then have "m \<in> set (filter (compatible c) (rows_for q c))" by simp
    then have "m \<in> set (q_metrics q)" "m_metric_key m = c_metric_key c" "compatible c m"
      by (auto simp: rows_for_def)
    with c m(2) show thesis by (auto intro: that(2))
  qed
qed

lemma outcome_ids:
  "condition_outcomes q crs \<Longrightarrow> map cr_condition_id crs = map c_condition_id (r_conditions (q_rule q))"
  unfolding condition_outcomes_def by (erule map_eq_of_list_all2) auto

lemma assemble_simps [simp]:
  "s_result_id (assemble_result I q crs) = analytical_screening_result_id I (q_rule q) (q_asset_id q)
     (q_asset_class q) (q_source_id q) (q_known_at q) (s_as_of (assemble_result I q crs)) crs"
  "s_rule (assemble_result I q crs) = q_rule q"
  "s_asset_id (assemble_result I q crs) = q_asset_id q"
  "s_asset_class (assemble_result I q crs) = q_asset_class q"
  "s_source_id (assemble_result I q crs) = q_source_id q"
  "s_known_at (assemble_result I q crs) = q_known_at q"
  "s_computed_at (assemble_result I q crs) = q_computed_at q"
  "s_conditions (assemble_result I q crs) = crs"
  "s_matched (assemble_result I q crs) = all_met crs"
  "s_retained (assemble_result I q crs) = retained_of crs"
  "s_activated (assemble_result I q crs) = (all_met crs \<and> rule_enabled (q_rule q))"
  by (simp_all add: assemble_result_def Let_def)

lemma assemble_as_of:
  "s_as_of (assemble_result I q crs) =
     (case q_metrics q of [] \<Rightarrow> None | m # _ \<Rightarrow> Some (m_as_of m))"
  by (simp add: assemble_result_def Let_def)

lemma assemble_valid:
  assumes q: "validate_snapshot q = Inr q" and crs: "condition_outcomes q crs"
  shows "validate_result I (assemble_result I q crs) = Inr (assemble_result I q crs)"
proof -
  have as_of: "s_as_of (assemble_result I q crs) = Some t" if "t \<in> set (List.map_filter cr_as_of crs)" for t
  proof -
    from that obtain r where r: "r \<in> set crs" "cr_as_of r = Some t"
      by (auto simp: List.map_filter_def)
    from crs r(1) obtain m where m: "m \<in> set (q_metrics q)" "m_as_of m = t"
      by (rule outcome_evidence) (use r(2) in auto)
    then obtain m0 ms where ms: "q_metrics q = m0 # ms" by (cases "q_metrics q") auto
    from q ms have "length (remdups (map m_as_of (q_metrics q))) = 1"
      by (simp add: validate_snapshot_Inr)
    from common_as_of [OF this m(1), of m0] ms m(2) show ?thesis
      by (simp add: assemble_as_of)
  qed
  have available: "t \<le> q_known_at q" if "r \<in> set crs" "cr_available_at r = Some t" for r t
    using crs that(1)
    by (rule outcome_evidence) (use that(2) q in \<open>auto simp: validate_snapshot_Inr\<close>)
  have none: "List.map_filter cr_as_of crs = []" if "s_as_of (assemble_result I q crs) = None"
    using as_of that by (cases "List.map_filter cr_as_of crs") auto
  have no_bad: "\<not> list_ex (\<lambda>t. s_as_of (assemble_result I q crs) \<noteq> Some t) (List.map_filter cr_as_of crs)"
    using as_of by (auto simp: list_ex_iff)
  have no_late: "\<not> list_ex (\<lambda>c. case cr_available_at c of None \<Rightarrow> False | Some t \<Rightarrow> t > s_known_at (assemble_result I q crs)) crs"
    using available by (force simp: list_ex_iff split: option.splits)
  have "q_asset_class q \<in> set (r_asset_classes (q_rule q))" "\<not> q_computed_at q < q_known_at q"
    using q by (simp_all add: validate_snapshot_Inr)
  then show ?thesis
    using none no_bad no_late outcome_ids [OF crs] unfolding validate_result_def Let_def
    by auto
qed

lemma evaluate_Inr:
  assumes "validate_snapshot q = Inr q"
  shows "evaluate I q = Inr s \<longleftrightarrow> (\<exists>crs. condition_outcomes q crs \<and> s = assemble_result I q crs)"
  by (auto simp: evaluate_unfold bind_r_eq_Inr traverse_outcomes assemble_valid [OF assms])

end
