(* ===== verification/EngineCorrectness.thy ===== *)
theory EngineCorrectness
  imports Screening
begin

text \<open>
  What the screening engine guarantees: which errors it can raise, what \<^verbatim>\<open>matched\<close>
  means in terms of the metric rows, hysteresis (entry implies retention), point-in-time
  evidence, and reproducibility. The sample rule and request are the inputs of the witnesses.
\<close>

section \<open>Sample data\<close>

definition sample_ids :: screening_ids where
  "sample_ids = \<lparr>sha_rule = (\<lambda>r. r_rule_id r @ r_rule_version r), sha_result = s_asset_id,
     uuid_result = (\<lambda>p. word_of_int (rp_known_at p))\<rparr>"

definition sample_condition :: screening_condition where
  "sample_condition =
     \<lparr>c_condition_id = ''rsi'', c_label_es = ''RSI'', c_domain = MARKET,
      c_metric_key = ''market.technical.rsi'', c_algorithm_version = ''1.0.0'',
      c_unit = ''index'', c_operator = GREATER_THAN_OR_EQUAL, c_threshold = Decimal False 70 0,
      c_exit_threshold = Some (Decimal False 65 0),
      c_parameter_filters = [], c_accepted_qualities = [VALID], c_limitations = []\<rparr>"

definition sample_rule :: screening_rule where
  "sample_rule =
     \<lparr>r_rule_id = ''overbought'', r_rule_version = ''1.0.0'', r_name_es = ''Sobrecompra'',
      r_description_es = ''RSI alto'', r_state = ACTIVE, r_domain = MARKET,
      r_asset_classes = [EQUITY], r_conditions = [sample_condition],
      r_confirmations_required = 1, r_cooldown_seconds = 86400, r_limitations = []\<rparr>"

definition sample_metric :: metric_result where
  "sample_metric =
     \<lparr>m_result_id = 5, m_asset_id = ''equity:us:aapl'', m_metric_key = ''market.technical.rsi'',
      m_value = Decimal False 715 (-1), m_unit = ''index'', m_as_of = 100, m_available_at = 110,
      m_computed_at = 120, m_parameters = [(''source_id'', JStr ''alpaca'')],
      m_input_observation_ids = [1], m_input_metric_result_ids = [],
      m_algorithm_version = ''1.0.0'', m_quality = VALID\<rparr>"

definition sample_request :: screening_request where
  "sample_request =
     \<lparr>q_rule = sample_rule, q_asset_id = ''equity:us:aapl'', q_asset_class = EQUITY,
      q_source_id = ''alpaca'', q_known_at = 130, q_computed_at = 140,
      q_metrics = [sample_metric]\<rparr>"

lemmas sample_defs =
  sample_ids_def sample_condition_def sample_rule_def sample_metric_def sample_request_def

lemma sample_request_valid [simp]: "validate_snapshot sample_request = Inr sample_request"
  by (simp add: validate_snapshot_Inr sample_defs param_get_def dict_get_def)

lemma sample_compatible: "filter (compatible sample_condition) (rows_for sample_request sample_condition)
    = [sample_metric]"
  by (simp add: sample_defs rows_for_def compatible_def filters_match_def)

lemma sample_outcomes: "condition_outcomes sample_request [evaluated_result sample_condition sample_metric]"
proof -
  have "r_conditions (q_rule sample_request) = [sample_condition]" by (simp add: sample_defs)
  moreover have "\<forall>m \<in> set (rows_for sample_request sample_condition). contract_ok sample_condition m"
    by (simp add: sample_defs rows_for_def contract_ok_def)
  ultimately show ?thesis
    by (simp add: condition_outcomes_def sample_compatible)
qed

definition sample_result :: screening_result where
  "sample_result =
     assemble_result sample_ids sample_request [evaluated_result sample_condition sample_metric]"

lemma sample_evaluates: "evaluate sample_ids sample_request = Inr sample_result"
  using sample_outcomes by (auto simp: evaluate_Inr sample_result_def)

section \<open>Errors\<close>

text \<open>
  Property C37. Given a valid request, the engine either returns a result or raises one of its
  two declared evidence errors (incompatible metric, ambiguous metric): the validators it runs
  while it builds the condition results and the screening result never reject what it computed,
  and no dictionary lookup fails.
\<close>
theorem engine_errors_are_evidence_errors:
  assumes "validate_snapshot q = Inr q" and "evaluate I q = Inl e"
  shows "(\<exists>msg. e = IncompatibleMetricError msg) \<or> (\<exists>msg. e = AmbiguousMetricError msg)"
proof -
  from assms(2) have "traverse (\<lambda>c. evaluate_condition c (rows_for q c)) (r_conditions (q_rule q)) = Inl e"
    by (auto simp: evaluate_unfold bind_r_eq_Inl traverse_outcomes assemble_valid [OF assms(1)])
  then show ?thesis
    by (blast dest: traverse_Inl_D evaluate_condition_Inl)
qed

theorem engine_errors_are_evidence_errors_witness:
  "validate_snapshot (sample_request\<lparr>q_metrics := [sample_metric\<lparr>m_unit := ''percent''\<rparr>]\<rparr>) =
     Inr (sample_request\<lparr>q_metrics := [sample_metric\<lparr>m_unit := ''percent''\<rparr>]\<rparr>) \<and>
   ((\<exists>msg. IncompatibleMetricError ''rsi: metric unit is incompatible'' = IncompatibleMetricError msg) \<or>
    (\<exists>msg. IncompatibleMetricError ''rsi: metric unit is incompatible'' = AmbiguousMetricError msg))"
proof -
  let ?q = "sample_request\<lparr>q_metrics := [sample_metric\<lparr>m_unit := ''percent''\<rparr>]\<rparr>"
  have v: "validate_snapshot ?q = Inr ?q"
    by (simp add: validate_snapshot_Inr sample_defs param_get_def dict_get_def)
  have "evaluate sample_ids ?q = Inl (IncompatibleMetricError ''rsi: metric unit is incompatible'')"
    by (simp add: evaluate_unfold evaluate_condition_def rows_for_def sample_defs)
  from engine_errors_are_evidence_errors [OF v this] v show ?thesis by blast
qed

section \<open>What matched means\<close>

lemma all_met_outcomes:
  assumes "condition_outcomes q crs"
  shows "all_met crs \<longleftrightarrow> (\<forall>c \<in> set (r_conditions (q_rule q)). \<exists>m.
     filter (compatible c) (rows_for q c) = [m] \<and> compare (c_operator c) (m_value m) (c_threshold c))"
  using assms unfolding condition_outcomes_def all_met_def
  by (induction rule: list_all2_induct) auto

lemma retained_outcomes:
  assumes "condition_outcomes q crs"
  shows "retained_of crs = Some True \<longleftrightarrow> (\<forall>c \<in> set (r_conditions (q_rule q)). \<exists>m.
     filter (compatible c) (rows_for q c) = [m] \<and>
     compare (c_operator c) (m_value m) (retention_threshold c))"
proof -
  have "list_all (\<lambda>r. cr_retention_state r = MET) crs \<longleftrightarrow> (\<forall>c \<in> set (r_conditions (q_rule q)). \<exists>m.
     filter (compatible c) (rows_for q c) = [m] \<and>
     compare (c_operator c) (m_value m) (retention_threshold c))"
    using assms unfolding condition_outcomes_def
    by (induction rule: list_all2_induct) auto
  moreover have "list_all (\<lambda>r. cr_retention_state r = MET) crs \<Longrightarrow>
      \<not> list_ex (\<lambda>r. cr_retention_state r = NOT_EVALUABLE) crs"
    by (auto simp: list_ex_iff list_all_iff)
  ultimately show ?thesis by (auto simp: retained_of_def)
qed

text \<open>
  Property C38. A rule matches exactly when every condition has exactly one metric row in the
  request that satisfies its whole evidence contract (key, algorithm version, unit, parameter
  filters, quality) and whose value passes the exact decimal comparison; it is activated
  exactly when it matches and its state is silent or active.
\<close>
theorem engine_matched_iff:
  assumes "validate_snapshot q = Inr q" and "evaluate I q = Inr s"
  shows "s_matched s = (\<forall>c \<in> set (r_conditions (q_rule q)). \<exists>m.
       filter (\<lambda>m. m_metric_key m = c_metric_key c \<and> compatible c m) (q_metrics q) = [m] \<and>
       compare (c_operator c) (m_value m) (c_threshold c)) \<and>
     s_activated s = (s_matched s \<and> r_state (q_rule q) \<in> {SILENT, ACTIVE})"
proof -
  from assms obtain crs where crs: "condition_outcomes q crs" and s: "s = assemble_result I q crs"
    by (auto simp: evaluate_Inr)
  have "filter (compatible c) (rows_for q c) =
      filter (\<lambda>m. m_metric_key m = c_metric_key c \<and> compatible c m) (q_metrics q)" for c
    by (simp add: rows_for_def conj_commute)
  with all_met_outcomes [OF crs] show ?thesis
    by (simp add: s rule_enabled_def)
qed

theorem engine_matched_iff_witness:
  "s_matched sample_result = (\<forall>c \<in> set (r_conditions (q_rule sample_request)). \<exists>m.
       filter (\<lambda>m. m_metric_key m = c_metric_key c \<and> compatible c m) (q_metrics sample_request) = [m] \<and>
       compare (c_operator c) (m_value m) (c_threshold c)) \<and>
     s_activated sample_result =
       (s_matched sample_result \<and> r_state (q_rule sample_request) \<in> {SILENT, ACTIVE})"
  by (rule engine_matched_iff [OF sample_request_valid sample_evaluates])

section \<open>Hysteresis\<close>

lemma compare_exit:
  assumes "validate_condition c = Inr c" and "compare (c_operator c) v (c_threshold c)"
  shows "compare (c_operator c) v (retention_threshold c)"
proof (cases "c_exit_threshold c")
  case None
  with assms(2) show ?thesis by (simp add: retention_threshold_def)
next
  case (Some x)
  with assms show ?thesis
    by (cases "c_operator c")
       (auto simp: validate_condition_def retention_threshold_def dec_less_def dec_le_def Let_def
          split: if_splits)
qed

text \<open>
  Property C39. Hysteresis never fights activation: for a rule whose conditions pass their
  validator, a matched result is always retained, so evidence that would open a candidate can
  never be evidence that resolves one.
\<close>
theorem matched_implies_retained:
  assumes "validate_snapshot q = Inr q" and "evaluate I q = Inr s"
    and "\<forall>c \<in> set (r_conditions (q_rule q)). validate_condition c = Inr c"
    and "s_matched s"
  shows "s_retained s = Some True"
proof -
  from assms(1,2) obtain crs where crs: "condition_outcomes q crs" and s: "s = assemble_result I q crs"
    by (auto simp: evaluate_Inr)
  with assms(3,4) show ?thesis
    using all_met_outcomes [OF crs] retained_outcomes [OF crs]
    by (simp add: s) (meson compare_exit)
qed

theorem matched_implies_retained_witness:
  "s_matched sample_result \<and> s_retained sample_result = Some True"
proof -
  have m: "s_matched sample_result"
    by (simp add: sample_result_def all_met_def) (simp add: sample_defs dec_le_def)
  moreover have "\<forall>c \<in> set (r_conditions (q_rule sample_request)). validate_condition c = Inr c"
    by (simp add: sample_defs validate_condition_def sorted_unique_def dec_less_def)
  ultimately show ?thesis
    using matched_implies_retained [OF sample_request_valid sample_evaluates] by blast
qed

section \<open>Point-in-time evidence\<close>

text \<open>
  No look-ahead: whatever evidence a result carries was available at the cut, was
  observed in the one period the result reports, and belongs to the request's own metric rows.
\<close>
lemma engine_evidence_point_in_time:
  assumes "validate_snapshot q = Inr q" and "evaluate I q = Inr s" and "r \<in> set (s_conditions s)"
    and "cr_state r \<noteq> NOT_EVALUABLE"
  shows "\<exists>m \<in> set (q_metrics q). cr_metric_result_id r = Some (m_result_id m) \<and>
     cr_observed_value r = Some (m_value m) \<and> m_available_at m \<le> s_known_at s \<and>
     s_as_of s = Some (m_as_of m)"
proof -
  from assms(1,2) obtain crs where crs: "condition_outcomes q crs" and s: "s = assemble_result I q crs"
    by (auto simp: evaluate_Inr)
  from assms(3) have "r \<in> set crs" by (simp add: s)
  with crs obtain c m where m: "m \<in> set (q_metrics q)" and r: "r = evaluated_result c m"
    by (rule outcome_evidence) (use assms(4) in auto)
  from m obtain m0 ms where ms: "q_metrics q = m0 # ms" by (cases "q_metrics q") auto
  with assms(1) have len: "length (remdups (map m_as_of (q_metrics q))) = 1"
    and av: "m_available_at m \<le> q_known_at q"
    using m by (auto simp: validate_snapshot_Inr)
  have "s_as_of s = Some (m_as_of m)"
    using common_as_of [OF len m, of m0] ms by (simp add: s assemble_as_of)
  moreover have "cr_metric_result_id r = Some (m_result_id m)" "cr_observed_value r = Some (m_value m)"
    by (simp_all add: r evaluated_result_def Let_def)
  ultimately show ?thesis using m av s by auto
qed

lemma engine_evidence_point_in_time_witness:
  "\<exists>m \<in> set (q_metrics sample_request).
     cr_metric_result_id (evaluated_result sample_condition sample_metric) = Some (m_result_id m) \<and>
     cr_observed_value (evaluated_result sample_condition sample_metric) = Some (m_value m) \<and>
     m_available_at m \<le> s_known_at sample_result \<and> s_as_of sample_result = Some (m_as_of m)"
  by (rule engine_evidence_point_in_time [OF sample_request_valid sample_evaluates])
     (simp_all add: sample_result_def)

section \<open>Reproducibility\<close>

lemma condition_outcomes_recompute [simp]:
  "condition_outcomes (q\<lparr>q_computed_at := t\<rparr>) crs = condition_outcomes q crs"
  by (simp add: condition_outcomes_def rows_for_def)

lemma assemble_recompute:
  "assemble_result I (q\<lparr>q_computed_at := t\<rparr>) crs = (assemble_result I q crs)\<lparr>s_computed_at := t\<rparr>"
  by (simp add: assemble_result_def Let_def)

text \<open>
  Recomputing the same snapshot at another time gives the same identity and the
  same semantic fingerprint: only \<^verbatim>\<open>computed_at\<close> differs.
\<close>
lemma engine_recomputation_stable:
  assumes "validate_snapshot q = Inr q" and "q_known_at q \<le> t" and "evaluate I q = Inr s"
  shows "evaluate I (q\<lparr>q_computed_at := t\<rparr>) = Inr (s\<lparr>s_computed_at := t\<rparr>) \<and>
     s_result_id (s\<lparr>s_computed_at := t\<rparr>) = s_result_id s \<and>
     result_fingerprint I (s\<lparr>s_computed_at := t\<rparr>) = result_fingerprint I s"
proof -
  have v: "validate_snapshot (q\<lparr>q_computed_at := t\<rparr>) = Inr (q\<lparr>q_computed_at := t\<rparr>)"
    using assms(1,2) by (simp add: validate_snapshot_Inr)
  from assms(1,3) obtain crs where "condition_outcomes q crs" "s = assemble_result I q crs"
    by (auto simp: evaluate_Inr)
  then show ?thesis
    by (auto simp: evaluate_Inr [OF v] assemble_recompute result_fingerprint_def)
qed

lemma engine_recomputation_stable_witness:
  "evaluate sample_ids (sample_request\<lparr>q_computed_at := 500\<rparr>) = Inr (sample_result\<lparr>s_computed_at := 500\<rparr>) \<and>
     s_result_id (sample_result\<lparr>s_computed_at := 500\<rparr>) = s_result_id sample_result \<and>
     result_fingerprint sample_ids (sample_result\<lparr>s_computed_at := 500\<rparr>) =
       result_fingerprint sample_ids sample_result"
  by (rule engine_recomputation_stable [OF sample_request_valid _ sample_evaluates])
     (simp add: sample_defs)

end
