(* ===== verification/SnapshotSelector.thy ===== *)
theory SnapshotSelector
  imports EngineCorrectness
begin

text \<open>
  Selection of one point-in-time snapshot per rule
  (\<^verbatim>\<open>AnalyticalMetricSnapshotSelector\<close> of \<^verbatim>\<open>alerts/analytical_monitor.py\<close>):
  rows admissible at the cut, the latest common period, the latest availability within it, and
  the revision policy of window-dependent metrics. The theorems: a selection never looks past
  the cut, is always a valid screening request, and is always evaluated without an error.
\<close>

section \<open>The selector\<close>

definition WINDOW_DEPENDENT_METRIC_KEYS :: "string list" where
  "WINDOW_DEPENDENT_METRIC_KEYS =
     [''market.technical.ema'', ''market.technical.rsi'', ''market.technical.rsi.average_gain'',
      ''market.technical.rsi.average_loss'', ''market.technical.macd.line'',
      ''market.technical.macd.signal'', ''market.technical.macd.histogram'',
      ''market.technical.atr'', ''market.technical.true_range'']"

definition admissible ::
  "iso_parser \<Rightarrow> screening_rule \<Rightarrow> string \<Rightarrow> utc \<Rightarrow> screening_condition \<Rightarrow> metric_result \<Rightarrow> bool result" where
  "admissible parse rule source_id known_at c m =
     (if m_metric_key m = c_metric_key c \<and> m_available_at m \<le> known_at \<and>
         m_algorithm_version m = c_algorithm_version c \<and> m_unit m = c_unit c \<and>
         m_quality m \<in> set (c_accepted_qualities c) \<and>
         json_eq (param_get (m_parameters m) ''source_id'') (JStr source_id)
      then bind_r (if r_domain rule = FUNDAMENTALS then Inr True
                   else bind_r (metric_cut_eligibility parse m (Aware known_at 0))
                          (\<lambda>el. Inr (ce_eligible el)))
             (\<lambda>eligible. Inr (eligible \<and> filters_match c m))
      else Inr False)"

fun candidates_by_key ::
  "iso_parser \<Rightarrow> screening_rule \<Rightarrow> metric_result list \<Rightarrow> string \<Rightarrow> utc \<Rightarrow>
     screening_condition list \<Rightarrow> (string, metric_result list) dict \<Rightarrow>
     (string, metric_result list) dict result" where
  "candidates_by_key parse rule metrics source_id known_at [] by_key = Inr by_key"
| "candidates_by_key parse rule metrics source_id known_at (c # cs) by_key =
     bind_r (filter_r (admissible parse rule source_id known_at c) metrics) (\<lambda>ms.
       candidates_by_key parse rule metrics source_id known_at cs
         (dict_set by_key (c_metric_key c) ms))"

definition latest_available :: "metric_result list \<Rightarrow> metric_result list" where
  "latest_available ms = filter (\<lambda>m. Some (m_available_at m) = py_max (map m_available_at ms)) ms"

definition revision_policy :: "utc \<Rightarrow> screening_condition \<Rightarrow> metric_result list \<Rightarrow> metric_result list" where
  "revision_policy known_at c candidates =
     (if length candidates > 1 \<and> c_metric_key c \<in> set WINDOW_DEPENDENT_METRIC_KEYS \<and>
         list_all (\<lambda>m. resolve_cut_identity_version m = CutV2) candidates
      then (let eligible = filter (\<lambda>m. m_computed_at m \<le> known_at) candidates;
                best = filter (\<lambda>m. Some (m_computed_at m) = py_max (map m_computed_at eligible)) eligible
            in if eligible \<noteq> [] \<and> length best = 1 then best else candidates)
      else candidates)"

definition pick_candidate ::
  "utc \<Rightarrow> utc \<Rightarrow> screening_condition \<Rightarrow> metric_result list \<Rightarrow> metric_result list result" where
  "pick_candidate known_at period c rows =
     (let in_period = filter (\<lambda>m. m_as_of m = period) rows;
          candidates = revision_policy known_at c (latest_available in_period)
      in if length candidates > 1
           then Inl (AmbiguousMetricError
                  (c_condition_id c @ '': multiple compatible metric revisions exist''))
         else Inr candidates)"

definition select ::
  "iso_parser \<Rightarrow> screening_rule \<Rightarrow> metric_result list \<Rightarrow> string \<Rightarrow> py_datetime \<Rightarrow>
     metric_result list result" where
  "select parse rule metrics source_id known_at =
     (case known_at of
        Naive w \<Rightarrow> Inl (ValueError ''known_at must be timezone-aware'')
      | Aware w off \<Rightarrow>
          (let cut = w - off in
           bind_r (candidates_by_key parse rule metrics source_id cut (r_conditions rule) [])
             (\<lambda>by_key.
               case py_max (map m_as_of (concat (dict_values by_key))) of
                 None \<Rightarrow> Inr []
               | Some period \<Rightarrow>
                   bind_r (traverse (\<lambda>c. case dict_get by_key (c_metric_key c) of
                                 None \<Rightarrow> Inl (KeyError (c_metric_key c))
                               | Some rows \<Rightarrow> pick_candidate cut period c rows)
                             (r_conditions rule))
                     (\<lambda>selected. Inr (concat selected)))))"

section \<open>Admissible rows and the candidates of a condition\<close>

lemma admissible_future:
  "known_at < m_available_at m \<Longrightarrow> admissible parse rule source_id known_at c m = Inr False"
  by (simp add: admissible_def)

lemma admissible_True:
  "admissible parse rule source_id known_at c m = Inr True \<Longrightarrow>
     m_metric_key m = c_metric_key c \<and> m_available_at m \<le> known_at \<and> compatible c m \<and>
     json_eq (param_get (m_parameters m) ''source_id'') (JStr source_id)"
  by (auto simp: admissible_def compatible_def bind_r_eq_Inr split: if_splits)

lemma json_eq_str [simp]: "json_eq v (JStr s) \<longleftrightarrow> v = JStr s"
  by (cases v) (auto simp: json_eq_def)

definition candidate_rows ::
  "iso_parser \<Rightarrow> screening_rule \<Rightarrow> metric_result list \<Rightarrow> string \<Rightarrow> utc \<Rightarrow> screening_condition \<Rightarrow>
     metric_result list" where
  "candidate_rows parse rule metrics source_id known_at c =
     filter (\<lambda>m. admissible parse rule source_id known_at c m = Inr True) metrics"

lemma candidates_by_key_get:
  assumes "candidates_by_key parse rule metrics source_id known_at cs d = Inr d'"
  shows "dict_get d' k =
     (case find (\<lambda>c. c_metric_key c = k) (rev cs) of
        Some c \<Rightarrow> Some (candidate_rows parse rule metrics source_id known_at c)
      | None \<Rightarrow> dict_get d k)"
  using assms
proof (induction cs arbitrary: d)
  case (Cons c cs)
  have snoc: "find P (ys @ [x]) = (case find P ys of Some y \<Rightarrow> Some y
      | None \<Rightarrow> if P x then Some x else None)" for P and ys :: "screening_condition list" and x
    by (induction ys) auto
  from Cons.prems obtain ms where
      ms: "filter_r (admissible parse rule source_id known_at c) metrics = Inr ms" and
      rest: "candidates_by_key parse rule metrics source_id known_at cs (dict_set d (c_metric_key c) ms)
        = Inr d'"
    by (auto simp: bind_r_eq_Inr)
  from ms have "ms = candidate_rows parse rule metrics source_id known_at c"
    by (simp add: filter_r_Inr candidate_rows_def)
  with Cons.IH [OF rest] show ?case
    by (auto simp: snoc split: option.split)
qed simp

lemma candidates_by_key_values:
  assumes "candidates_by_key parse rule metrics source_id known_at cs d = Inr d'"
    and "dict_ok d"
  shows "dict_ok d' \<and> (\<forall>rows \<in> set (dict_values d').
     rows \<in> set (dict_values d) \<or> (\<exists>c \<in> set cs. rows = candidate_rows parse rule metrics source_id known_at c))"
  using assms
proof (induction cs arbitrary: d)
  case (Cons c cs)
  from Cons.prems obtain ms where
      ms: "filter_r (admissible parse rule source_id known_at c) metrics = Inr ms" and
      rest: "candidates_by_key parse rule metrics source_id known_at cs (dict_set d (c_metric_key c) ms)
        = Inr d'"
    by (auto simp: bind_r_eq_Inr)
  from ms have ms_eq: "ms = candidate_rows parse rule metrics source_id known_at c"
    by (simp add: filter_r_Inr candidate_rows_def)
  have "set (dict_values (dict_set d (c_metric_key c) ms)) \<subseteq> insert ms (set (dict_values d))"
    using Cons.prems(2) by (auto simp: dict_values_set split: if_splits)
  with Cons.IH [OF rest] Cons.prems(2) ms_eq show ?case by auto
qed simp

lemma find_distinct_key:
  assumes "distinct (map c_metric_key cs)" "c \<in> set cs"
  shows "find (\<lambda>c'. c_metric_key c' = c_metric_key c) (rev cs) = Some c"
proof -
  obtain c' where c': "find (\<lambda>c'. c_metric_key c' = c_metric_key c) (rev cs) = Some c'"
    using assms(2) by (cases "find (\<lambda>c'. c_metric_key c' = c_metric_key c) (rev cs)")
      (auto simp: find_None_iff)
  then have "c' \<in> set cs" "c_metric_key c' = c_metric_key c"
    by (auto simp: find_Some_iff) (metis length_rev nth_mem set_rev)
  with assms have "c' = c" by (metis distinct_map inj_onD)
  with c' show ?thesis by simp
qed

lemma candidates_at_condition:
  assumes "candidates_by_key parse rule metrics source_id known_at (r_conditions rule) [] = Inr d"
    and "distinct (map c_metric_key (r_conditions rule))" and "c \<in> set (r_conditions rule)"
  shows "dict_get d (c_metric_key c) = Some (candidate_rows parse rule metrics source_id known_at c)"
  using candidates_by_key_get [OF assms(1), of "c_metric_key c"] find_distinct_key [OF assms(2,3)]
  by simp

section \<open>Picking one row\<close>

lemma latest_available_subset: "set (latest_available ms) \<subseteq> set ms"
  by (auto simp: latest_available_def)

lemma revision_policy_subset: "set (revision_policy known_at c ms) \<subseteq> set ms"
  by (auto simp: revision_policy_def Let_def)

lemma pick_candidate_Inr:
  assumes "pick_candidate known_at period c rows = Inr picked"
  shows "length picked \<le> 1 \<and> (\<forall>m \<in> set picked. m \<in> set rows \<and> m_as_of m = period)"
proof -
  have "set picked \<subseteq> set (filter (\<lambda>m. m_as_of m = period) rows)" "length picked \<le> 1"
    using assms revision_policy_subset [of known_at c "latest_available (filter (\<lambda>m. m_as_of m = period) rows)"]
      latest_available_subset [of "filter (\<lambda>m. m_as_of m = period) rows"]
    unfolding pick_candidate_def Let_def by (auto split: if_splits)
  then show ?thesis by auto
qed

section \<open>The shape of a selection\<close>

lemma select_cases:
  assumes "select parse rule metrics source_id (Aware w off) = Inr ms"
    and "distinct (map c_metric_key (r_conditions rule))"
  shows "ms = [] \<or> (\<exists>period picks. ms = concat picks \<and>
     list_all2 (\<lambda>c picked. pick_candidate (w - off) period c
        (candidate_rows parse rule metrics source_id (w - off) c) = Inr picked)
       (r_conditions rule) picks)"
proof -
  from assms(1) obtain d where
      d: "candidates_by_key parse rule metrics source_id (w - off) (r_conditions rule) [] = Inr d"
    by (auto simp: select_def Let_def bind_r_eq_Inr)
  show ?thesis
  proof (cases "py_max (map m_as_of (concat (dict_values d)))")
    case None
    with assms(1) d show ?thesis by (simp add: select_def)
  next
    case (Some period)
    let ?f = "\<lambda>c. case dict_get d (c_metric_key c) of None \<Rightarrow> Inl (KeyError (c_metric_key c))
        | Some rows \<Rightarrow> pick_candidate (w - off) period c rows"
    from assms(1) d Some obtain picks where
        picks: "traverse ?f (r_conditions rule) = Inr picks" and ms: "ms = concat picks"
      by (auto simp: select_def Let_def bind_r_eq_Inr)
    have "traverse ?f (r_conditions rule) = traverse (\<lambda>c. pick_candidate (w - off) period c
        (candidate_rows parse rule metrics source_id (w - off) c)) (r_conditions rule)"
      by (rule traverse_cong) (simp add: candidates_at_condition [OF d assms(2)])
    with picks ms show ?thesis by (auto simp: traverse_Inr_iff)
  qed
qed

lemma picked_row:
  assumes "pick_candidate known_at period c (candidate_rows parse rule metrics source_id known_at c)
      = Inr picked"
  shows "length picked \<le> 1" and "m \<in> set picked \<Longrightarrow> m \<in> set metrics \<and> m_as_of m = period \<and>
     m_metric_key m = c_metric_key c \<and> m_available_at m \<le> known_at \<and> compatible c m \<and>
     param_get (m_parameters m) ''source_id'' = JStr source_id"
  using pick_candidate_Inr [OF assms] admissible_True
  by (fastforce simp: candidate_rows_def)+

lemma filter_concat_keyed:
  assumes "list_all2 (\<lambda>c p. \<forall>m \<in> set p. g m = k c) cs ps" and "distinct (map k cs)"
  shows "list_all2 (\<lambda>c p. filter (\<lambda>m. g m = k c) (concat ps) = p) cs ps"
  using assms
proof (induction cs ps rule: list_all2_induct)
  case (Cons c cs p ps)
  have other: "g m \<noteq> k c" if "m \<in> set (concat ps)" for m
  proof -
    from that obtain q where "q \<in> set ps" "m \<in> set q" by auto
    with Cons.hyps(2) obtain c' where "c' \<in> set cs" "g m = k c'"
      by (blast dest: list_all2_right_elem)
    then have "g m \<in> k ` set cs" by simp
    with Cons.prems show ?thesis by auto
  qed
  have head: "filter (\<lambda>m. g m = k c) (concat (p # ps)) = p"
    using Cons.hyps(1) other by (simp add: filter_empty_conv)
  have "list_all2 (\<lambda>c' q. filter (\<lambda>m. g m = k c') (concat (p # ps)) = q) cs ps"
  proof (rule list.rel_mono_strong)
    show "list_all2 (\<lambda>c p. filter (\<lambda>m. g m = k c) (concat ps) = p) cs ps"
      using Cons.IH Cons.prems by simp
  next
    fix c' q assume "c' \<in> set cs" and "q \<in> set ps" and *: "filter (\<lambda>m. g m = k c') (concat ps) = q"
    then have "k c' \<in> k ` set cs" by simp
    with Cons.prems have "k c' \<noteq> k c" by auto
    then have "filter (\<lambda>m. g m = k c') p = []"
      using Cons.hyps(1) by (auto simp: filter_empty_conv)
    with * show "filter (\<lambda>m. g m = k c') (concat (p # ps)) = q" by simp
  qed
  with head show ?case by simp
qed simp

section \<open>A selection is a valid request that evaluates without error\<close>

definition request_of ::
  "screening_rule \<Rightarrow> string \<Rightarrow> asset_class \<Rightarrow> string \<Rightarrow> utc \<Rightarrow> utc \<Rightarrow> metric_result list \<Rightarrow>
     screening_request" where
  \<comment> \<open>the \<^verbatim>\<open>AnalyticalScreeningRequest(...)\<close> of the monitor and of the backtest\<close>
  "request_of rule asset_id asset_class source_id known_at computed_at metrics =
     \<lparr>q_rule = rule, q_asset_id = asset_id, q_asset_class = asset_class, q_source_id = source_id,
      q_known_at = known_at, q_computed_at = computed_at, q_metrics = metrics\<rparr>"

lemma request_of_simps [simp]:
  "q_rule (request_of rule a ac src k t ms) = rule"
  "q_asset_id (request_of rule a ac src k t ms) = a"
  "q_asset_class (request_of rule a ac src k t ms) = ac"
  "q_source_id (request_of rule a ac src k t ms) = src"
  "q_known_at (request_of rule a ac src k t ms) = k"
  "q_computed_at (request_of rule a ac src k t ms) = t"
  "q_metrics (request_of rule a ac src k t ms) = ms"
  by (simp_all add: request_of_def)

lemma select_rows:
  assumes sel: "select parse rule metrics source_id (Aware w off) = Inr ms"
    and keys: "distinct (map c_metric_key (r_conditions rule))"
  obtains period where "\<forall>m \<in> set ms. m \<in> set metrics \<and> m_as_of m = period \<and>
       m_available_at m \<le> w - off \<and> param_get (m_parameters m) ''source_id'' = JStr source_id"
    and "\<forall>c \<in> set (r_conditions rule). \<forall>m \<in> set ms. m_metric_key m = c_metric_key c \<longrightarrow> compatible c m"
    and "\<forall>c \<in> set (r_conditions rule). length (filter (\<lambda>m. m_metric_key m = c_metric_key c) ms) \<le> 1"
    and "\<forall>m \<in> set ms. m_metric_key m \<in> c_metric_key ` set (r_conditions rule)"
proof (cases "ms = []")
  case True
  then show thesis using that [of 0] by simp
next
  case False
  with select_cases [OF sel keys] obtain period picks where ms: "ms = concat picks"
    and picks: "list_all2 (\<lambda>c picked. pick_candidate (w - off) period c
        (candidate_rows parse rule metrics source_id (w - off) c) = Inr picked) (r_conditions rule) picks"
    by blast
  from picks have rows: "list_all2 (\<lambda>c picked. length picked \<le> 1 \<and> (\<forall>m \<in> set picked.
      m \<in> set metrics \<and> m_as_of m = period \<and> m_metric_key m = c_metric_key c \<and>
      m_available_at m \<le> w - off \<and> compatible c m \<and>
      param_get (m_parameters m) ''source_id'' = JStr source_id)) (r_conditions rule) picks"
    by (rule list_all2_mono) (blast dest: picked_row)
  have at: "list_all2 (\<lambda>c p. filter (\<lambda>m. m_metric_key m = c_metric_key c) ms = p) (r_conditions rule) picks"
    unfolding ms by (rule filter_concat_keyed [OF list_all2_mono [OF rows] keys]) blast
  have pick_of: "\<exists>c p. c \<in> set (r_conditions rule) \<and> m \<in> set p \<and> length p \<le> 1 \<and> (\<forall>m \<in> set p.
      m \<in> set metrics \<and> m_as_of m = period \<and> m_metric_key m = c_metric_key c \<and>
      m_available_at m \<le> w - off \<and> compatible c m \<and>
      param_get (m_parameters m) ''source_id'' = JStr source_id)" if "m \<in> set ms" for m
  proof -
    from that obtain p where "p \<in> set picks" "m \<in> set p" unfolding ms by auto
    with list_all2_right_elem [OF rows] show ?thesis by blast
  qed
  have small: "length (filter (\<lambda>m. m_metric_key m = c_metric_key c) ms) \<le> 1 \<and>
      (\<forall>m \<in> set ms. m_metric_key m = c_metric_key c \<longrightarrow> compatible c m)"
    if "c \<in> set (r_conditions rule)" for c
  proof -
    from that obtain n where n: "n < length (r_conditions rule)" "c = r_conditions rule ! n"
      by (metis in_set_conv_nth)
    with at rows have "filter (\<lambda>m. m_metric_key m = c_metric_key c) ms = picks ! n"
      "length (picks ! n) \<le> 1" "\<forall>m \<in> set (picks ! n). compatible c m"
      by (auto simp: list_all2_conv_all_nth)
    moreover have "m \<in> set (picks ! n)" if "m \<in> set ms" "m_metric_key m = c_metric_key c" for m
      using that \<open>filter (\<lambda>m. m_metric_key m = c_metric_key c) ms = picks ! n\<close> [symmetric] by simp
    ultimately show ?thesis by auto
  qed
  show thesis
    by (rule that [of period]) (use pick_of small in \<open>blast+\<close>)
qed

lemma select_request_valid:
  assumes "select parse rule metrics source_id (Aware w off) = Inr ms"
    and "distinct (map c_metric_key (r_conditions rule))"
    and "asset_class \<in> set (r_asset_classes rule)" and "w - off \<le> computed_at"
    and "\<forall>m \<in> set metrics. m_asset_id m = asset_id" and "inj_on m_result_id (set metrics)"
  shows "validate_snapshot (request_of rule asset_id asset_class source_id (w - off) computed_at ms)
     = Inr (request_of rule asset_id asset_class source_id (w - off) computed_at ms)"
proof (cases "ms = []")
  case False
  from assms(1,2) obtain period where
    rows: "\<forall>m \<in> set ms. m \<in> set metrics \<and> m_as_of m = period \<and>
       m_available_at m \<le> w - off \<and> param_get (m_parameters m) ''source_id'' = JStr source_id" and
    small: "\<forall>c \<in> set (r_conditions rule). length (filter (\<lambda>m. m_metric_key m = c_metric_key c) ms) \<le> 1" and
    keys: "\<forall>m \<in> set ms. m_metric_key m \<in> c_metric_key ` set (r_conditions rule)"
    by (rule select_rows)
  have "m_as_of ` set ms = {period}"
    using rows False by (cases ms) auto
  then have "length (remdups (map m_as_of ms)) = 1"
    by (simp add: length_remdups_card_conv)
  moreover have "distinct ms"
  proof (rule ccontr)
    assume "\<not> distinct ms"
    then obtain xs ys zs m where ms: "ms = xs @ [m] @ ys @ [m] @ zs" by (blast dest: not_distinct_decomp)
    then obtain c where "c \<in> set (r_conditions rule)" "m_metric_key m = c_metric_key c"
      using keys by auto
    with small ms show False by (fastforce)
  qed
  then have "distinct (map m_result_id ms)"
    using assms(6) rows by (auto simp: distinct_map intro: inj_on_subset)
  ultimately show ?thesis
    using assms(3-5) rows by (auto simp: validate_snapshot_Inr)
qed (use assms in \<open>simp add: validate_snapshot_Inr\<close>)

lemma select_outcomes:
  assumes "select parse rule metrics source_id (Aware w off) = Inr ms"
    and "distinct (map c_metric_key (r_conditions rule))" and "q_rule q = rule" and "q_metrics q = ms"
  shows "\<exists>crs. condition_outcomes q crs"
proof -
  let ?f = "\<lambda>c. case rows_for q c of [] \<Rightarrow> not_evaluable_result c | m # _ \<Rightarrow> evaluated_result c m"
  have
    comp: "\<forall>c \<in> set (r_conditions rule). \<forall>m \<in> set ms. m_metric_key m = c_metric_key c \<longrightarrow> compatible c m" and
    small: "\<forall>c \<in> set (r_conditions rule). length (filter (\<lambda>m. m_metric_key m = c_metric_key c) ms) \<le> 1"
    by (rule select_rows [OF assms(1,2)], blast)+
  have "(\<forall>m \<in> set (rows_for q c). contract_ok c m) \<and>
       (filter (compatible c) (rows_for q c) = [] \<and> ?f c = not_evaluable_result c \<or>
        (\<exists>m. filter (compatible c) (rows_for q c) = [m] \<and> ?f c = evaluated_result c m))"
    if "c \<in> set (r_conditions rule)" for c
  proof -
    have all: "\<forall>m \<in> set (rows_for q c). compatible c m" and len: "length (rows_for q c) \<le> 1"
      using comp small that by (auto simp: rows_for_def assms(4))
    then have "filter (compatible c) (rows_for q c) = rows_for q c"
      by (simp add: filter_all_conv)
    with all len show ?thesis
      by (cases "rows_for q c") (auto simp: contract_ok_def compatible_def)
  qed
  then have "condition_outcomes q (map ?f (r_conditions rule))"
    unfolding condition_outcomes_def assms(3) by (simp add: list_all2_map2 list_all2_same)
  then show ?thesis ..
qed

lemma selection_outcomes:
  assumes "select parse rule metrics source_id (Aware w off) = Inr ms"
    and "distinct (map c_metric_key (r_conditions rule))"
    and "asset_class \<in> set (r_asset_classes rule)" and "w - off \<le> computed_at"
    and "\<forall>m \<in> set metrics. m_asset_id m = asset_id" and "inj_on m_result_id (set metrics)"
    and "q = request_of rule asset_id asset_class source_id (w - off) computed_at ms"
  shows "validate_snapshot q = Inr q" and "\<exists>crs. condition_outcomes q crs"
  using select_request_valid [OF assms(1-6)] select_outcomes [OF assms(1,2), of q] assms(7) by auto

text \<open>
  Property C29. Screening a selection never fails: for a rule whose conditions read distinct
  metrics, the snapshot the selector returns is accepted by the request validator and the
  engine returns a result for it - none of the errors of either component can occur.
\<close>
theorem selected_snapshot_evaluates:
  assumes "select parse rule metrics source_id (Aware w off) = Inr ms"
    and "distinct (map c_metric_key (r_conditions rule))"
    and "asset_class \<in> set (r_asset_classes rule)" and "w - off \<le> computed_at"
    and "\<forall>m \<in> set metrics. m_asset_id m = asset_id" and "inj_on m_result_id (set metrics)"
  shows "\<exists>s. bind_r (validate_snapshot
       (request_of rule asset_id asset_class source_id (w - off) computed_at ms)) (evaluate I) = Inr s"
proof -
  note q = selection_outcomes [OF assms refl]
  from q(2) show ?thesis by (auto simp: q(1) evaluate_Inr [OF q(1)])
qed

lemma sample_selection:
  "select (\<lambda>s. None) (sample_rule\<lparr>r_domain := FUNDAMENTALS\<rparr>) [sample_metric] ''alpaca'' (Aware 130 0) = Inr [sample_metric]"
  by (simp add: select_def sample_defs admissible_def param_get_def dict_get_def filters_match_def
      dict_values_def pick_candidate_def latest_available_def revision_policy_def)

theorem selected_snapshot_evaluates_witness:
  "\<exists>s. bind_r (validate_snapshot (request_of (sample_rule\<lparr>r_domain := FUNDAMENTALS\<rparr>) ''equity:us:aapl''
       EQUITY ''alpaca'' (130 - 0) 140 [sample_metric])) (evaluate sample_ids) = Inr s"
  by (rule selected_snapshot_evaluates [OF sample_selection]) (simp_all add: sample_defs)

section \<open>No look-ahead\<close>

lemma candidates_by_key_restrict:
  "candidates_by_key parse rule (filter (\<lambda>m. m_available_at m \<le> known_at) metrics) source_id known_at cs d =
     candidates_by_key parse rule metrics source_id known_at cs d"
proof (induction cs arbitrary: d)
  case (Cons c cs)
  have "filter_r (admissible parse rule source_id known_at c)
          (filter (\<lambda>m. m_available_at m \<le> known_at) metrics) =
        filter_r (admissible parse rule source_id known_at c) metrics"
    by (rule filter_r_skip) (simp add: admissible_future)
  then show ?case by (simp add: Cons.IH)
qed simp

lemma select_restrict:
  "select parse rule (filter (\<lambda>m. m_available_at m \<le> w - off) metrics) source_id (Aware w off) =
     select parse rule metrics source_id (Aware w off)"
  by (simp add: select_def candidates_by_key_restrict)

text \<open>
  Property C30. The selection at a cut is a function of the rows available by the cut: two
  stores that agree on those rows give the same selection (or the same error), whatever became
  available later, in whatever order it is interleaved.
\<close>
theorem select_no_lookahead:
  assumes "filter (\<lambda>m. m_available_at m \<le> w - off) metrics = filter (\<lambda>m. m_available_at m \<le> w - off) metrics'"
  shows "select parse rule metrics source_id (Aware w off) = select parse rule metrics' source_id (Aware w off)"
  using assms select_restrict [of parse rule w off metrics source_id] select_restrict [of parse rule w off metrics' source_id]
  by simp

theorem select_no_lookahead_witness:
  "select (\<lambda>s. None) sample_rule [sample_metric] ''alpaca'' (Aware 130 0) =
   select (\<lambda>s. None) sample_rule [sample_metric\<lparr>m_available_at := 131\<rparr>, sample_metric] ''alpaca'' (Aware 130 0)"
  by (rule select_no_lookahead) (simp add: sample_defs)

text \<open>
  What a selection contains: rows of the store that were available by the cut and
  come from the requested source, all of one period, at most one per metric key of the rule,
  each satisfying the evidence contract of the condition that reads its key.
\<close>
lemma select_spec:
  assumes "select parse rule metrics source_id (Aware w off) = Inr ms"
    and "distinct (map c_metric_key (r_conditions rule))"
  shows "\<exists>period. (\<forall>m \<in> set ms. m \<in> set metrics \<and> m_as_of m = period \<and> m_available_at m \<le> w - off \<and>
       param_get (m_parameters m) ''source_id'' = JStr source_id \<and>
       (\<exists>c \<in> set (r_conditions rule). m_metric_key m = c_metric_key c \<and> compatible c m)) \<and>
     (\<forall>c \<in> set (r_conditions rule). length (filter (\<lambda>m. m_metric_key m = c_metric_key c) ms) \<le> 1)"
proof -
  from assms obtain period where
    "\<forall>m \<in> set ms. m \<in> set metrics \<and> m_as_of m = period \<and>
       m_available_at m \<le> w - off \<and> param_get (m_parameters m) ''source_id'' = JStr source_id"
    "\<forall>c \<in> set (r_conditions rule). \<forall>m \<in> set ms. m_metric_key m = c_metric_key c \<longrightarrow> compatible c m"
    "\<forall>c \<in> set (r_conditions rule). length (filter (\<lambda>m. m_metric_key m = c_metric_key c) ms) \<le> 1"
    "\<forall>m \<in> set ms. m_metric_key m \<in> c_metric_key ` set (r_conditions rule)"
    by (rule select_rows)
  then show ?thesis by (intro exI [of _ period]) (force simp: image_iff)
qed

lemma select_spec_witness:
  "\<exists>period. (\<forall>m \<in> set [sample_metric]. m \<in> set [sample_metric] \<and> m_as_of m = period \<and>
       m_available_at m \<le> 130 - 0 \<and> param_get (m_parameters m) ''source_id'' = JStr ''alpaca'' \<and>
       (\<exists>c \<in> set (r_conditions (sample_rule\<lparr>r_domain := FUNDAMENTALS\<rparr>)).
          m_metric_key m = c_metric_key c \<and> compatible c m)) \<and>
     (\<forall>c \<in> set (r_conditions (sample_rule\<lparr>r_domain := FUNDAMENTALS\<rparr>)).
        length (filter (\<lambda>m. m_metric_key m = c_metric_key c) [sample_metric]) \<le> 1)"
  by (rule select_spec [OF sample_selection]) (simp add: sample_defs)

section \<open>Two conditions on one metric\<close>

text \<open>
  The candidates of a condition are stored under its metric key, so a second condition on the
  same metric replaces them: \<open>sample_pair_rule\<close> compares one metric under two parameter
  filters, and the row of the first filter is never selected.
\<close>

definition sample_pair_rule :: screening_rule where
  "sample_pair_rule = sample_rule\<lparr>r_domain := FUNDAMENTALS, r_conditions :=
     [sample_condition\<lparr>c_domain := FUNDAMENTALS, c_condition_id := ''a'', c_parameter_filters := [(''window'', JInt 7)]\<rparr>,
      sample_condition\<lparr>c_domain := FUNDAMENTALS, c_condition_id := ''b'', c_parameter_filters := [(''window'', JInt 14)]\<rparr>]\<rparr>"

definition sample_windowed :: "uuid \<Rightarrow> int \<Rightarrow> metric_result" where
  "sample_windowed u window = sample_metric\<lparr>m_result_id := u,
     m_parameters := [(''source_id'', JStr ''alpaca''), (''window'', JInt window)]\<rparr>"

text \<open>
  A valid rule with two conditions on one metric cannot be screened: with exactly
  one compatible row for each condition, the selector returns the second condition's row twice
  and the request validator rejects the snapshot.
\<close>
lemma shared_metric_key_rejected:
  "validate_rule sample_pair_rule = Inr sample_pair_rule \<and>
   select (\<lambda>s. None) sample_pair_rule [sample_windowed 7 7, sample_windowed 14 14] ''alpaca'' (Aware 130 0)
     = Inr [sample_windowed 14 14, sample_windowed 14 14] \<and>
   validate_snapshot (request_of sample_pair_rule ''equity:us:aapl'' EQUITY ''alpaca'' 130 140
     [sample_windowed 14 14, sample_windowed 14 14])
     = Inl (ValueError ''screening metric result IDs must be unique'')"
proof (intro conjI)
  show "validate_rule sample_pair_rule = Inr sample_pair_rule"
    by (simp add: validate_rule_def sample_pair_rule_def sample_defs sorted_unique_iff)
  show "select (\<lambda>s. None) sample_pair_rule [sample_windowed 7 7, sample_windowed 14 14] ''alpaca'' (Aware 130 0)
     = Inr [sample_windowed 14 14, sample_windowed 14 14]"
    by (simp add: select_def sample_pair_rule_def sample_windowed_def sample_defs admissible_def
        param_get_def dict_get_def filters_match_def json_eq_def dict_values_def pick_candidate_def
        latest_available_def revision_policy_def)
  show "validate_snapshot (request_of sample_pair_rule ''equity:us:aapl'' EQUITY ''alpaca'' 130 140
     [sample_windowed 14 14, sample_windowed 14 14])
     = Inl (ValueError ''screening metric result IDs must be unique'')"
    by (simp add: validate_snapshot_def request_of_def sample_pair_rule_def sample_defs sample_windowed_def)
qed

end
