(* ===== verification/Journal.thy ===== *)
theory Journal
  imports Contracts
begin

text \<open>
  The append-only segmented journal (\<^verbatim>\<open>application/bounded_journal.py\<close>) at the level of
  the bytes of its files. An operation reads the files and issues file-system steps in order; the
  steps are kept apart so that an interruption between two of them, or inside an append, is a
  state of the model. JSON, SHA-256 and the parsing of a record's start time are parameters.
\<close>

section \<open>Files and steps\<close>

type_synonym byte = "8 word"
type_synonym bytes = "byte list"
type_synonym files = "(string, bytes) dict"

datatype fs_step =
    WriteAtomic string bytes
  | Truncate string
  | AppendTo string bytes
  | Unlink string

definition file_bytes :: "files \<Rightarrow> string \<Rightarrow> bytes" where
  "file_bytes fs name = (case dict_get fs name of None \<Rightarrow> [] | Some b \<Rightarrow> b)"

fun apply_step :: "fs_step \<Rightarrow> files \<Rightarrow> files" where
  "apply_step (WriteAtomic name b) fs = dict_set fs name b"
| "apply_step (Truncate name) fs = dict_set fs name []"
| "apply_step (AppendTo name b) fs = dict_set fs name (file_bytes fs name @ b)"
| "apply_step (Unlink name) fs = dict_del fs name"

definition apply_steps :: "fs_step list \<Rightarrow> files \<Rightarrow> files" where
  "apply_steps steps fs = fold apply_step steps fs"

text \<open>An operation: the steps it issued before it returned or raised.\<close>

type_synonym 'a io = "files \<Rightarrow> fs_step list \<times> 'a result"

definition return_io :: "'a \<Rightarrow> 'a io" where
  "return_io x = (\<lambda>fs. ([], Inr x))"

definition raise_io :: "py_error \<Rightarrow> 'a io" where
  "raise_io e = (\<lambda>fs. ([], Inl e))"

definition bind_io :: "'a io \<Rightarrow> ('a \<Rightarrow> 'b io) \<Rightarrow> 'b io" where
  "bind_io m f = (\<lambda>fs. case m fs of (steps, r) \<Rightarrow>
     (case r of Inl e \<Rightarrow> (steps, Inl e)
      | Inr x \<Rightarrow> (case f x (apply_steps steps fs) of (steps', r') \<Rightarrow> (steps @ steps', r'))))"

definition issue :: "fs_step \<Rightarrow> unit io" where
  "issue step = (\<lambda>fs. ([step], Inr ()))"

definition read_file :: "string \<Rightarrow> bytes option io" where
  "read_file name = (\<lambda>fs. ([], Inr (dict_get fs name)))"

fun traverse_io :: "('a \<Rightarrow> 'b io) \<Rightarrow> 'a list \<Rightarrow> 'b list io" where
  "traverse_io f [] = return_io []"
| "traverse_io f (x # xs) = bind_io (f x) (\<lambda>y. bind_io (traverse_io f xs) (\<lambda>ys. return_io (y # ys)))"

definition run_io :: "'a io \<Rightarrow> files \<Rightarrow> files \<times> 'a result" where
  "run_io m fs = (case m fs of (steps, r) \<Rightarrow> (apply_steps steps fs, r))"

section \<open>Documents\<close>

record segment_descriptor =
  sd_name :: string
  sd_digest :: string
  sd_byte_count :: nat
  sd_record_count :: nat
  sd_closed_at :: utc

record journal_manifest =
  mf_journal_id :: string
  mf_snapshot_filename :: "string option"
  mf_snapshot_digest :: "string option"
  mf_snapshot_record_count :: nat
  mf_legacy_v1_folded :: bool
  mf_closed_segments :: "segment_descriptor list"
  mf_open_segment_name :: "string option"

record 'r journal_snapshot =
  sn_journal_id :: string
  sn_snapshot_id :: string
  sn_created_at :: utc
  sn_record_count :: nat
  sn_records :: "'r list"
  sn_legacy_v1_folded :: bool

text \<open>
  What the code takes from the standard library and pydantic: the JSON documents as bytes, with
  parsing that fails on anything else, the digest, and the parsed \<^verbatim>\<open>started_at\<close> field.
\<close>

record 'r journal_codec =
  enc_record :: "'r \<Rightarrow> bytes"
  dec_record :: "bytes \<Rightarrow> 'r option"
  enc_records :: "'r list \<Rightarrow> bytes"
  enc_manifest :: "journal_manifest \<Rightarrow> bytes"
  dec_manifest :: "bytes \<Rightarrow> journal_manifest option"
  enc_snapshot :: "'r journal_snapshot \<Rightarrow> bytes"
  dec_snapshot :: "bytes \<Rightarrow> 'r journal_snapshot option"
  sha256 :: "bytes \<Rightarrow> string"
  started_at :: "'r \<Rightarrow> py_datetime option"

record 'r journal =
  jn_codec :: "'r journal_codec"
  jn_max_segment_bytes :: int
  jn_max_segment_records :: int
  jn_journal_id :: string
  jn_reducer :: "('r list \<Rightarrow> 'r list) option"

definition new_journal ::
  "'r journal_codec \<Rightarrow> int \<Rightarrow> int \<Rightarrow> string \<Rightarrow> ('r list \<Rightarrow> 'r list) option \<Rightarrow> bool \<Rightarrow> 'r journal result" where
  "new_journal codec max_segment_bytes max_segment_records journal_id reducer within_state_root =
     (if \<not> within_state_root
        then Inl (JournalError ''journal directory must be within declared state_root'')
      else if max_segment_bytes \<le> 0 then Inl (JournalError ''max_segment_bytes must be positive'')
      else if max_segment_records \<le> 0 then Inl (JournalError ''max_segment_records must be positive'')
      else Inr \<lparr>jn_codec = codec, jn_max_segment_bytes = max_segment_bytes,
             jn_max_segment_records = max_segment_records, jn_journal_id = journal_id,
             jn_reducer = reducer\<rparr>)"

section \<open>Lines\<close>

text \<open>\<^verbatim>\<open>content.split(b"\n")\<close>\<close>

fun split_newline :: "bytes \<Rightarrow> bytes list" where
  "split_newline [] = [[]]"
| "split_newline (b # bs) =
     (if b = 10 then [] # split_newline bs
      else (case split_newline bs of [] \<Rightarrow> [[b]] | c # cs \<Rightarrow> (b # c) # cs))"

text \<open>\<^verbatim>\<open>content.splitlines()\<close> of bytes: line feed, carriage return, or both together.\<close>

fun splitlines_from :: "bytes \<Rightarrow> bytes \<Rightarrow> bytes list" where
  "splitlines_from acc [] = (if acc = [] then [] else [rev acc])"
| "splitlines_from acc (b # bs) =
     (if b = 10 then rev acc # splitlines_from [] bs
      else if b = 13 then
        (case bs of [] \<Rightarrow> [rev acc]
         | c # cs \<Rightarrow> if c = 10 then rev acc # splitlines_from [] cs
                      else rev acc # splitlines_from [] (c # cs))
      else splitlines_from (b # acc) bs)"

definition blank :: "bytes \<Rightarrow> bool" where
  "blank line \<longleftrightarrow> list_all (\<lambda>b. b \<in> {9, 10, 11, 12, 13, 32}) line"

fun scan_lines :: "'r journal_codec \<Rightarrow> string \<Rightarrow> bytes list \<Rightarrow> 'r list result" where
  "scan_lines codec name [] = Inr []"
| "scan_lines codec name (line # lines) =
     (if blank line then scan_lines codec name lines
      else (case dec_record codec line of
              None \<Rightarrow> Inl (JournalCorruptionError
                        (''closed segment '' @ name @ '' contains invalid record''))
            | Some r \<Rightarrow> bind_r (scan_lines codec name lines) (\<lambda>rs. Inr (r # rs))))"

fun scan_chunks :: "'r journal_codec \<Rightarrow> string \<Rightarrow> bytes list \<Rightarrow> ('r list \<times> bytes list) result" where
  "scan_chunks codec name [] = Inr ([], [])"
| "scan_chunks codec name (chunk # rest) =
     (if rest = [] \<and> chunk = [] then Inr ([], [])
      else if blank chunk then scan_chunks codec name rest
      else (case dec_record codec chunk of
              Some r \<Rightarrow> bind_r (scan_chunks codec name rest)
                (\<lambda>(rs, slices). Inr (r # rs, (chunk @ [10]) # slices))
            | None \<Rightarrow>
                (if rest = [] then Inr ([], [])
                 else Inl (JournalCorruptionError
                        (''open segment '' @ name @ '' contains corrupted record before EOF'')))))"

section \<open>Reading\<close>

definition manifest_name :: string where "manifest_name = ''manifest.json''"
definition snapshot_name :: string where "snapshot_name = ''snapshot.json''"

definition has_data :: "files \<Rightarrow> bool" where
  "has_data fs \<longleftrightarrow> dict_get fs manifest_name \<noteq> None \<or> fs \<noteq> []"

definition load_manifest :: "'r journal \<Rightarrow> journal_manifest option io" where
  "load_manifest J =
     bind_io (read_file manifest_name) (\<lambda>content.
       case content of
         None \<Rightarrow> return_io None
       | Some b \<Rightarrow>
           (case dec_manifest (jn_codec J) b of
              None \<Rightarrow> raise_io (JournalCorruptionError ''journal manifest is corrupted'')
            | Some m \<Rightarrow> return_io (Some m)))"

definition save_manifest :: "'r journal \<Rightarrow> journal_manifest \<Rightarrow> unit io" where
  "save_manifest J m = issue (WriteAtomic manifest_name (enc_manifest (jn_codec J) m))"

definition has_snapshot :: "'r journal \<Rightarrow> bool io" where
  "has_snapshot J = bind_io (load_manifest J) (\<lambda>m. return_io (case m of None \<Rightarrow> False
     | Some m \<Rightarrow> mf_snapshot_filename m \<noteq> None))"

definition has_legacy_v1_folded :: "'r journal \<Rightarrow> bool io" where
  "has_legacy_v1_folded J = bind_io (load_manifest J) (\<lambda>m. return_io (case m of None \<Rightarrow> False
     | Some m \<Rightarrow> mf_legacy_v1_folded m))"

definition load_snapshot :: "'r journal \<Rightarrow> journal_manifest \<Rightarrow> ('r list \<times> bool) io" where
  "load_snapshot J m =
     (case mf_snapshot_filename m of
        None \<Rightarrow> return_io ([], mf_legacy_v1_folded m)
      | Some filename \<Rightarrow>
          bind_io (read_file filename) (\<lambda>content.
            case content of
              None \<Rightarrow> raise_io (JournalCorruptionError ''journal snapshot file is missing'')
            | Some b \<Rightarrow>
                (if mf_snapshot_digest m \<noteq> None \<and>
                    Some (sha256 (jn_codec J) b) \<noteq> mf_snapshot_digest m
                   then raise_io (JournalDigestError ''journal snapshot digest mismatch'')
                 else
                   (case dec_snapshot (jn_codec J) b of
                      None \<Rightarrow> raise_io (JournalCorruptionError ''journal snapshot is malformed'')
                    | Some s \<Rightarrow>
                        (if length (sn_records s) \<noteq> sn_record_count s
                           then raise_io (JournalCorruptionError ''snapshot record count mismatch'')
                         else return_io (sn_records s, sn_legacy_v1_folded s))))))"

definition read_closed_segment :: "'r journal \<Rightarrow> segment_descriptor \<Rightarrow> 'r list io" where
  "read_closed_segment J d =
     bind_io (read_file (sd_name d)) (\<lambda>content.
       case content of
         None \<Rightarrow> raise_io (JournalCorruptionError (''closed segment '' @ sd_name d @ '' is missing''))
       | Some b \<Rightarrow>
           (if sha256 (jn_codec J) b \<noteq> sd_digest d
              then raise_io (JournalDigestError (''closed segment '' @ sd_name d @ '' digest mismatch''))
            else (case scan_lines (jn_codec J) (sd_name d) (splitlines_from [] b) of
                    Inl e \<Rightarrow> raise_io e
                  | Inr rs \<Rightarrow> return_io rs)))"

text \<open>
  Opening the file for writing truncates it; the recovered lines are then written: two steps.
\<close>

definition read_open_segment :: "'r journal \<Rightarrow> string \<Rightarrow> 'r list io" where
  "read_open_segment J name =
     bind_io (read_file name) (\<lambda>content.
       case content of
         None \<Rightarrow> return_io []
       | Some b \<Rightarrow>
           (if b = [] then return_io []
            else (case scan_chunks (jn_codec J) name (split_newline b) of
                    Inl e \<Rightarrow> raise_io e
                  | Inr (rs, slices) \<Rightarrow>
                      (if length (concat slices) < length b
                         then bind_io (issue (Truncate name)) (\<lambda>_.
                              bind_io (issue (AppendTo name (concat slices))) (\<lambda>_. return_io rs))
                       else return_io rs))))"

definition read_entries :: "'r journal \<Rightarrow> 'r list io" where
  "read_entries J =
     bind_io (load_manifest J) (\<lambda>manifest.
       case manifest of
         None \<Rightarrow> return_io []
       | Some m \<Rightarrow>
           bind_io (load_snapshot J m) (\<lambda>(snapshot_records, _).
           bind_io (traverse_io (read_closed_segment J) (mf_closed_segments m)) (\<lambda>closed.
           bind_io (case mf_open_segment_name m of
                      None \<Rightarrow> return_io []
                    | Some name \<Rightarrow> read_open_segment J name) (\<lambda>open_records.
             return_io (snapshot_records @ concat closed @ open_records)))))"

section \<open>Folding and rotation\<close>

definition snapshot_created_at :: "'r journal \<Rightarrow> 'r list \<Rightarrow> utc result" where
  \<comment> \<open>2026-01-01T00:00:00Z unless the first record carries a start time\<close>
  "snapshot_created_at J folded =
     (case folded of
        [] \<Rightarrow> Inr 1767225600000000
      | r # _ \<Rightarrow> (case started_at (jn_codec J) r of
                     None \<Rightarrow> Inr 1767225600000000
                   | Some t \<Rightarrow> normalize_datetime_to_utc t))"

definition reduced :: "('r list \<Rightarrow> 'r list) option \<Rightarrow> 'r journal \<Rightarrow> 'r list \<Rightarrow> 'r list" where
  "reduced reducer J records =
     (case (if reducer \<noteq> None then reducer else jn_reducer J) of
        Some f \<Rightarrow> f records | None \<Rightarrow> records)"

definition make_snapshot ::
  "'r journal \<Rightarrow> bytes \<Rightarrow> 'r list \<Rightarrow> bool \<Rightarrow> 'r journal_snapshot result" where
  "make_snapshot J prefix folded legacy_v1_folded =
     bind_r (snapshot_created_at J folded) (\<lambda>created_at.
       Inr \<lparr>sn_journal_id = jn_journal_id J,
            sn_snapshot_id = take 32 (sha256 (jn_codec J) (prefix @ enc_records (jn_codec J) folded)),
            sn_created_at = created_at, sn_record_count = length folded, sn_records = folded,
            sn_legacy_v1_folded = legacy_v1_folded\<rparr>)"

definition ascii :: "string \<Rightarrow> bytes" where
  "ascii s = map (\<lambda>c. word_of_nat (of_char c)) s"

definition lift_result :: "'a result \<Rightarrow> 'a io" where
  "lift_result r = (\<lambda>fs. ([], r))"

definition fold_snapshot :: "'r journal \<Rightarrow> ('r list \<Rightarrow> 'r list) option \<Rightarrow> unit io" where
  "fold_snapshot J reducer =
     bind_io (load_manifest J) (\<lambda>manifest.
       case manifest of
         None \<Rightarrow> return_io ()
       | Some m \<Rightarrow>
           bind_io (load_snapshot J m) (\<lambda>(snapshot_records, legacy_v1_folded).
           bind_io (traverse_io (read_closed_segment J) (mf_closed_segments m)) (\<lambda>closed.
           let folded = reduced reducer J (snapshot_records @ concat closed) in
           bind_io (lift_result (make_snapshot J (ascii ''snapshot:'') folded legacy_v1_folded)) (\<lambda>s.
           let b = enc_snapshot (jn_codec J) s in
           bind_io (issue (WriteAtomic snapshot_name b)) (\<lambda>_.
           bind_io (traverse_io (\<lambda>d. issue (Unlink (sd_name d))) (mf_closed_segments m)) (\<lambda>_.
             save_manifest J (m\<lparr>mf_snapshot_filename := Some snapshot_name,
                                mf_snapshot_digest := Some (sha256 (jn_codec J) b),
                                mf_snapshot_record_count := length folded,
                                mf_legacy_v1_folded := legacy_v1_folded,
                                mf_closed_segments := []\<rparr>)))))))"

text \<open>Segment names: \<^verbatim>\<open>f"segment-{index:06d}.jsonl"\<close> and its inverse.\<close>

definition pad6 :: "nat \<Rightarrow> string" where
  "pad6 n = replicate (6 - length (digits_of n)) (CHR ''0'') @ digits_of n"

definition segment_name :: "nat \<Rightarrow> string" where
  "segment_name n = ''segment-'' @ pad6 n @ ''.jsonl''"

definition parse_digits :: "string \<Rightarrow> nat option" where
  "parse_digits s =
     (if s \<noteq> [] \<and> list_all (\<lambda>c. CHR ''0'' \<le> c \<and> c \<le> CHR ''9'') s
        then Some (foldl (\<lambda>n c. 10 * n + (of_char c - 48)) 0 s) else None)"

definition starts_with :: "string \<Rightarrow> string \<Rightarrow> bool" where
  "starts_with p s \<longleftrightarrow> take (length p) s = p"

definition ends_with :: "string \<Rightarrow> string \<Rightarrow> bool" where
  "ends_with p s \<longleftrightarrow> length p \<le> length s \<and> drop (length s - length p) s = p"

definition next_index :: "string \<Rightarrow> nat \<Rightarrow> nat" where
  "next_index open_name closed_count =
     (if starts_with ''segment-'' open_name \<and> ends_with ''.jsonl'' open_name
        then (case parse_digits (take (length open_name - 14) (drop 8 open_name)) of
                Some n \<Rightarrow> n + 1 | None \<Rightarrow> closed_count + 2)
      else 1)"

definition rotate_segment :: "'r journal \<Rightarrow> utc \<Rightarrow> bool \<Rightarrow> unit io" where
  "rotate_segment J now do_fold =
     bind_io (load_manifest J) (\<lambda>manifest.
       case manifest of
         None \<Rightarrow> return_io ()
       | Some m \<Rightarrow>
           (case mf_open_segment_name m of
              None \<Rightarrow> return_io ()
            | Some open_name \<Rightarrow>
                bind_io (read_file open_name) (\<lambda>content.
                  case content of
                    None \<Rightarrow> return_io ()
                  | Some b \<Rightarrow>
                      (if b = [] then return_io ()
                       else
                         bind_io (read_open_segment J open_name) (\<lambda>records.
                         bind_io (save_manifest J
                           (m\<lparr>mf_closed_segments := mf_closed_segments m @
                                [\<lparr>sd_name = open_name, sd_digest = sha256 (jn_codec J) b,
                                  sd_byte_count = length b, sd_record_count = length records,
                                  sd_closed_at = now\<rparr>],
                              mf_open_segment_name := Some (segment_name
                                (next_index open_name (length (mf_closed_segments m))))\<rparr>)) (\<lambda>_.
                         if do_fold then fold_snapshot J None else return_io ()))))))"

section \<open>Appending\<close>

definition first_manifest :: "'r journal \<Rightarrow> bool \<Rightarrow> journal_manifest" where
  "first_manifest J folded =
     \<lparr>mf_journal_id = jn_journal_id J, mf_snapshot_filename = None, mf_snapshot_digest = None,
      mf_snapshot_record_count = 0, mf_legacy_v1_folded = folded, mf_closed_segments = [],
      mf_open_segment_name = Some (segment_name 1)\<rparr>"

definition open_segment :: "'r journal \<Rightarrow> string io" where
  "open_segment J =
     bind_io (load_manifest J) (\<lambda>manifest.
       case manifest of
         None \<Rightarrow> bind_io (save_manifest J (first_manifest J False)) (\<lambda>_. return_io (segment_name 1))
       | Some m \<Rightarrow>
           (case mf_open_segment_name m of
              Some name \<Rightarrow> return_io name
            | None \<Rightarrow>
                bind_io (save_manifest J (m\<lparr>mf_open_segment_name := Some (segment_name 1)\<rparr>))
                  (\<lambda>_. return_io (segment_name 1))))"

definition append_record :: "'r journal \<Rightarrow> utc \<Rightarrow> 'r \<Rightarrow> unit io" where
  "append_record J now r =
     bind_io (open_segment J) (\<lambda>name.
     bind_io (issue (AppendTo name (enc_record (jn_codec J) r @ [10]))) (\<lambda>_.
     bind_io (read_file name) (\<lambda>content.
       if jn_max_segment_bytes J \<le> int (length (case content of None \<Rightarrow> [] | Some b \<Rightarrow> b))
         then rotate_segment J now True
       else return_io ())))"

section \<open>Legacy state\<close>

definition mark_legacy_v1_folded :: "'r journal \<Rightarrow> unit io" where
  "mark_legacy_v1_folded J =
     bind_io (load_manifest J) (\<lambda>manifest.
       save_manifest J (case manifest of
           None \<Rightarrow> first_manifest J True
         | Some m \<Rightarrow> m\<lparr>mf_legacy_v1_folded := True\<rparr>))"

definition initialize_snapshot_with_legacy :: "'r journal \<Rightarrow> 'r list \<Rightarrow> unit io" where
  "initialize_snapshot_with_legacy J records =
     bind_io (load_manifest J) (\<lambda>manifest.
       if (case manifest of None \<Rightarrow> False | Some m \<Rightarrow> mf_legacy_v1_folded m) then return_io ()
       else
         (let folded = reduced None J records in
          bind_io (lift_result (make_snapshot J (ascii ''legacy-snapshot:'') folded True)) (\<lambda>s.
          let b = enc_snapshot (jn_codec J) s in
          bind_io (issue (WriteAtomic snapshot_name b)) (\<lambda>_.
            save_manifest J
              \<lparr>mf_journal_id = jn_journal_id J, mf_snapshot_filename = Some snapshot_name,
               mf_snapshot_digest = Some (sha256 (jn_codec J) b),
               mf_snapshot_record_count = length folded, mf_legacy_v1_folded = True,
               mf_closed_segments = (case manifest of None \<Rightarrow> [] | Some m \<Rightarrow> mf_closed_segments m),
               mf_open_segment_name = Some (case manifest of
                   Some m \<Rightarrow> (case mf_open_segment_name m of Some name \<Rightarrow> name | None \<Rightarrow> segment_name 1)
                 | None \<Rightarrow> segment_name 1)\<rparr>))))"

end
