(* ===== verification/JournalCorrectness.thy ===== *)
theory JournalCorrectness
  imports Journal
begin

text \<open>
  The journal against its abstract view, the list of its entries: what the files of a consistent
  journal look like, that reading returns the entries and appending adds one at the end, that
  rotation and folding keep them (or apply the reducer once), and what an interruption of an
  append or of a compaction leaves behind.
\<close>

section \<open>Running operations\<close>

lemma apply_steps_simps [simp]:
  "apply_steps [] fs = fs"
  "apply_steps (s # ss) fs = apply_steps ss (apply_step s fs)"
  "apply_steps (ss @ ts) fs = apply_steps ts (apply_steps ss fs)"
  by (simp_all add: apply_steps_def)

lemma run_simps [simp]:
  "run_io (return_io x) fs = (fs, Inr x)"
  "run_io (raise_io e) fs = (fs, Inl e)"
  "run_io (issue s) fs = (apply_step s fs, Inr ())"
  "run_io (read_file n) fs = (fs, Inr (dict_get fs n))"
  "run_io (lift_result r) fs = (fs, r)"
  by (simp_all add: run_io_def return_io_def raise_io_def issue_def read_file_def lift_result_def)

lemma run_bind:
  "run_io (bind_io m f) fs =
     (case run_io m fs of (fs', r) \<Rightarrow> (case r of Inl e \<Rightarrow> (fs', Inl e) | Inr x \<Rightarrow> run_io (f x) fs'))"
  by (auto simp: run_io_def bind_io_def split: prod.splits sum.splits)

lemma run_bind_Inr [simp]: "run_io m fs = (fs', Inr x) \<Longrightarrow> run_io (bind_io m f) fs = run_io (f x) fs'"
  by (simp add: run_bind)

lemma run_bind_Inl [simp]: "run_io m fs = (fs', Inl e) \<Longrightarrow> run_io (bind_io m f) fs = (fs', Inl e)"
  by (simp add: run_bind)

lemma run_traverse_pure:
  "list_all2 (\<lambda>x y. run_io (f x) fs = (fs, Inr y)) xs ys \<Longrightarrow> run_io (traverse_io f xs) fs = (fs, Inr ys)"
  by (induction xs ys rule: list_all2_induct) simp_all

lemma run_traverse_issue:
  "run_io (traverse_io (\<lambda>x. issue (s x)) xs) fs = (apply_steps (map s xs) fs, Inr (map (\<lambda>_. ()) xs))"
  by (induction xs arbitrary: fs) simp_all

section \<open>Names\<close>

lemma parse_pad6: "parse_digits (pad6 n) = Some n"
proof -
  have zeros: "foldl (\<lambda>n c. 10 * n + (of_char c - 48)) 0 (replicate k (CHR ''0'')) = (0::nat)" for k
    by (induction k) simp_all
  show ?thesis
    using digits_are_digits [of n] digits_value [of 0 n]
    by (auto simp: parse_digits_def pad6_def zeros list_all_iff)
qed

lemma segment_name_inj [simp]: "segment_name m = segment_name n \<longleftrightarrow> m = n"
proof
  assume "segment_name m = segment_name n"
  then have "pad6 m = pad6 n" by (simp add: segment_name_def)
  then show "m = n" by (metis option.inject parse_pad6)
qed simp

lemma segment_name_other [simp]:
  "segment_name n \<noteq> manifest_name" "segment_name n \<noteq> snapshot_name"
  "manifest_name \<noteq> segment_name n" "snapshot_name \<noteq> segment_name n"
  "manifest_name \<noteq> snapshot_name" "snapshot_name \<noteq> manifest_name"
  by (simp_all add: segment_name_def manifest_name_def snapshot_name_def)

lemma next_index_segment: "next_index (segment_name n) k = n + 1"
proof -
  have "starts_with ''segment-'' (segment_name n)" "ends_with ''.jsonl'' (segment_name n)"
    by (simp_all add: segment_name_def starts_with_def ends_with_def)
  moreover have "take (length (segment_name n) - 14) (drop 8 (segment_name n)) = pad6 n"
    by (simp add: segment_name_def)
  ultimately show ?thesis by (simp add: next_index_def parse_pad6)
qed

section \<open>Lines\<close>

text \<open>The documented behaviour of the codec.\<close>

definition codec_ok :: "'r journal_codec \<Rightarrow> bool" where
  "codec_ok C \<longleftrightarrow>
     (\<forall>r. dec_record C (enc_record C r) = Some r \<and> 10 \<notin> set (enc_record C r) \<and>
        13 \<notin> set (enc_record C r) \<and> \<not> blank (enc_record C r)) \<and>
     (\<forall>m. dec_manifest C (enc_manifest C m) = Some m) \<and>
     (\<forall>s. dec_snapshot C (enc_snapshot C s) = Some s) \<and>
     (\<forall>r w. started_at C r \<noteq> Some (Naive w))"

lemma codec_simps:
  assumes "codec_ok C"
  shows "dec_record C (enc_record C r) = Some r" "10 \<notin> set (enc_record C r)"
    "13 \<notin> set (enc_record C r)" "\<not> blank (enc_record C r)" "enc_record C r \<noteq> []"
    "dec_manifest C (enc_manifest C m) = Some m" "dec_snapshot C (enc_snapshot C s) = Some s"
proof -
  have "blank []" by (simp add: blank_def)
  then show "enc_record C r \<noteq> []" using assms by (metis codec_ok_def)
qed (use assms in \<open>auto simp: codec_ok_def\<close>)

definition lines_of :: "'r journal_codec \<Rightarrow> 'r list \<Rightarrow> bytes" where
  "lines_of C rs = concat (map (\<lambda>r. enc_record C r @ [10]) rs)"

lemma lines_of_simps [simp]:
  "lines_of C [] = []"
  "lines_of C (r # rs) = enc_record C r @ 10 # lines_of C rs"
  "lines_of C (rs @ rs') = lines_of C rs @ lines_of C rs'"
  by (simp_all add: lines_of_def)

lemma lines_of_empty [simp]: "lines_of C rs = [] \<longleftrightarrow> rs = []" "[] = lines_of C rs \<longleftrightarrow> rs = []"
  by (cases rs; simp)+

lemma split_newline_line: "10 \<notin> set l \<Longrightarrow> split_newline (l @ 10 # bs) = l # split_newline bs"
  by (induction l) simp_all

lemma split_newline_last: "10 \<notin> set l \<Longrightarrow> split_newline l = [l]"
  by (induction l) simp_all

lemma split_lines:
  assumes "codec_ok C" and "10 \<notin> set t"
  shows "split_newline (lines_of C rs @ t) = map (enc_record C) rs @ [t]"
  using assms by (induction rs) (simp_all add: split_newline_line split_newline_last codec_simps)

lemma splitlines_from_line:
  "10 \<notin> set l \<Longrightarrow> 13 \<notin> set l \<Longrightarrow> splitlines_from acc (l @ 10 # bs) = (rev acc @ l) # splitlines_from [] bs"
  by (induction l arbitrary: acc) simp_all

lemma splitlines_lines: "codec_ok C \<Longrightarrow> splitlines_from [] (lines_of C rs) = map (enc_record C) rs"
  by (induction rs) (simp_all add: splitlines_from_line codec_simps)

lemma scan_lines_of: "codec_ok C \<Longrightarrow> scan_lines C name (map (enc_record C) rs) = Inr rs"
  by (induction rs) (simp_all add: codec_simps)

text \<open>Reading back an open segment whose last line may be torn.\<close>

definition torn_records :: "'r journal_codec \<Rightarrow> bytes \<Rightarrow> 'r list" where
  "torn_records C t = (if blank t then [] else (case dec_record C t of None \<Rightarrow> [] | Some r \<Rightarrow> [r]))"

definition torn_slices :: "'r journal_codec \<Rightarrow> bytes \<Rightarrow> bytes list" where
  "torn_slices C t = (if blank t then [] else (case dec_record C t of None \<Rightarrow> [] | Some r \<Rightarrow> [t @ [10]]))"

lemma scan_torn:
  assumes "codec_ok C"
  shows "scan_chunks C name (map (enc_record C) rs @ [t]) =
    Inr (rs @ torn_records C t, map (\<lambda>r. enc_record C r @ [10]) rs @ torn_slices C t)"
proof (induction rs)
  case Nil
  have "blank []" by (simp add: blank_def)
  then show ?case by (auto simp: torn_records_def torn_slices_def split: option.splits)
next
  case (Cons r rs)
  then show ?case by (simp add: codec_simps [OF assms])
qed

lemma torn_nil [simp]: "torn_records C [] = []" "torn_slices C [] = []"
  by (simp_all add: torn_records_def torn_slices_def blank_def)

section \<open>Consistent journals\<close>

definition snapshot_holds :: "'r journal \<Rightarrow> files \<Rightarrow> journal_manifest \<Rightarrow> 'r list \<Rightarrow> bool" where
  "snapshot_holds J fs m snap \<longleftrightarrow>
     (case mf_snapshot_filename m of
        None \<Rightarrow> snap = []
      | Some f \<Rightarrow> f = snapshot_name \<and>
          (\<exists>b s. dict_get fs f = Some b \<and> mf_snapshot_digest m = Some (sha256 (jn_codec J) b) \<and>
             dec_snapshot (jn_codec J) b = Some s \<and> sn_records s = snap \<and> sn_record_count s = length snap))"

definition closed_holds :: "'r journal \<Rightarrow> files \<Rightarrow> segment_descriptor \<Rightarrow> 'r list \<Rightarrow> bool" where
  "closed_holds J fs d rs \<longleftrightarrow> dict_get fs (sd_name d) = Some (lines_of (jn_codec J) rs) \<and>
     sd_digest d = sha256 (jn_codec J) (lines_of (jn_codec J) rs)"

text \<open>
  A consistent journal: a readable manifest, the snapshot and the closed segments it describes,
  and an open segment of whole lines after which no segment file exists yet.
\<close>

definition journal_state ::
  "'r journal \<Rightarrow> files \<Rightarrow> journal_manifest \<Rightarrow> 'r list \<Rightarrow> 'r list list \<Rightarrow> 'r list \<Rightarrow> nat \<Rightarrow> bool" where
  "journal_state J fs m snap segs opened n \<longleftrightarrow>
     (\<exists>b. dict_get fs manifest_name = Some b \<and> dec_manifest (jn_codec J) b = Some m) \<and>
     snapshot_holds J fs m snap \<and>
     list_all2 (closed_holds J fs) (mf_closed_segments m) segs \<and>
     (\<forall>d \<in> set (mf_closed_segments m). \<exists>k < n. sd_name d = segment_name k) \<and>
     mf_open_segment_name m = Some (segment_name n) \<and>
     file_bytes fs (segment_name n) = lines_of (jn_codec J) opened \<and>
     (\<forall>k > n. dict_get fs (segment_name k) = None)"

definition journal_ok :: "'r journal \<Rightarrow> files \<Rightarrow> 'r list \<Rightarrow> bool" where
  "journal_ok J fs entries \<longleftrightarrow>
     (entries = [] \<and> dict_get fs manifest_name = None \<and> (\<forall>k. dict_get fs (segment_name k) = None)) \<or>
     (\<exists>m snap segs opened n. journal_state J fs m snap segs opened n \<and>
        entries = snap @ concat segs @ opened)"

lemma run_load_manifest [simp]:
  "dict_get fs manifest_name = Some b \<Longrightarrow> dec_manifest (jn_codec J) b = Some m \<Longrightarrow>
     run_io (load_manifest J) fs = (fs, Inr (Some m))"
  "dict_get fs manifest_name = None \<Longrightarrow> run_io (load_manifest J) fs = (fs, Inr None)"
  by (simp_all add: load_manifest_def run_bind)

lemma journal_state_manifest:
  "journal_state J fs m snap segs opened n \<Longrightarrow> run_io (load_manifest J) fs = (fs, Inr (Some m))"
  by (auto simp: journal_state_def)

lemma run_load_snapshot:
  "snapshot_holds J fs m snap \<Longrightarrow> \<exists>flag. run_io (load_snapshot J m) fs = (fs, Inr (snap, flag))"
  by (auto simp: snapshot_holds_def load_snapshot_def run_bind split: option.splits)

text \<open>The legacy document is folded, and the snapshot keeps the mark through the next folding.\<close>

definition legacy_flagged :: "'r journal \<Rightarrow> files \<Rightarrow> journal_manifest \<Rightarrow> bool" where
  "legacy_flagged J fs m \<longleftrightarrow> mf_legacy_v1_folded m \<and> (\<exists>rs. run_io (load_snapshot J m) fs = (fs, Inr (rs, True)))"

lemma load_snapshot_frame:
  assumes "run_io (load_snapshot J m) fs = (fs, Inr x)" and "dict_get fs' snapshot_name = dict_get fs snapshot_name"
    and "snapshot_holds J fs m snap" and "mf_snapshot_filename m' = mf_snapshot_filename m"
    and "mf_snapshot_digest m' = mf_snapshot_digest m" and "mf_legacy_v1_folded m' = mf_legacy_v1_folded m"
  shows "run_io (load_snapshot J m') fs' = (fs', Inr x)"
  using assms by (auto simp: load_snapshot_def snapshot_holds_def run_bind split: option.splits if_splits)

lemma legacy_flagged_frame:
  assumes "legacy_flagged J fs m" and "dict_get fs' snapshot_name = dict_get fs snapshot_name"
    and "snapshot_holds J fs m snap" and "mf_snapshot_filename m' = mf_snapshot_filename m"
    and "mf_snapshot_digest m' = mf_snapshot_digest m" and "mf_legacy_v1_folded m' = mf_legacy_v1_folded m"
  shows "legacy_flagged J fs' m'"
  using assms load_snapshot_frame [OF _ assms(2-6)] by (auto simp: legacy_flagged_def)

lemma run_read_closed:
  assumes "codec_ok (jn_codec J)" and "closed_holds J fs d rs"
  shows "run_io (read_closed_segment J d) fs = (fs, Inr rs)"
  using assms(2) by (simp add: closed_holds_def read_closed_segment_def run_bind
      splitlines_lines [OF assms(1)] scan_lines_of [OF assms(1)])

lemma run_read_all_closed:
  assumes "codec_ok (jn_codec J)" and "list_all2 (closed_holds J fs) ds segs"
  shows "run_io (traverse_io (read_closed_segment J) ds) fs = (fs, Inr segs)"
  by (rule run_traverse_pure, rule list.rel_mono_strong [OF assms(2)])
     (rule run_read_closed [OF assms(1)])

lemma run_read_open_clean:
  assumes "codec_ok (jn_codec J)" and "file_bytes fs name = lines_of (jn_codec J) opened"
  shows "run_io (read_open_segment J name) fs = (fs, Inr opened)"
proof (cases "dict_get fs name")
  case None
  then have "lines_of (jn_codec J) opened = []"
    unfolding assms(2) [symmetric] by (simp add: file_bytes_def)
  then have "opened = []" by simp
  with None show ?thesis by (simp add: read_open_segment_def run_bind)
next
  case (Some b)
  with assms(2) have b: "b = lines_of (jn_codec J) opened" by (simp add: file_bytes_def)
  show ?thesis
  proof (cases "opened = []")
    case True
    with Some b show ?thesis by (simp add: read_open_segment_def run_bind)
  next
    case False
    have "scan_chunks (jn_codec J) name (split_newline b) =
        Inr (opened, map (\<lambda>r. enc_record (jn_codec J) r @ [10]) opened)"
      using split_lines [OF assms(1), of "[]" opened] scan_torn [OF assms(1), of name opened "[]"]
      by (simp add: b)
    moreover have "length (concat (map (\<lambda>r. enc_record (jn_codec J) r @ [10]) opened)) = length b"
      by (simp add: b lines_of_def)
    ultimately show ?thesis using Some False b by (simp add: read_open_segment_def run_bind)
  qed
qed

lemma run_read_entries:
  assumes "codec_ok (jn_codec J)" and "journal_ok J fs entries"
  shows "run_io (read_entries J) fs = (fs, Inr entries)"
  using assms(2) unfolding journal_ok_def
proof (elim disjE exE conjE)
  assume "entries = []" "dict_get fs manifest_name = None"
  then show ?thesis by (simp add: read_entries_def)
next
  fix m snap segs opened n
  assume st: "journal_state J fs m snap segs opened n" and entries: "entries = snap @ concat segs @ opened"
  have "snapshot_holds J fs m snap" using st by (simp add: journal_state_def)
  from run_load_snapshot [OF this] obtain flag
    where "run_io (load_snapshot J m) fs = (fs, Inr (snap, flag))" by blast
  moreover have "run_io (traverse_io (read_closed_segment J) (mf_closed_segments m)) fs = (fs, Inr segs)"
    using st by (intro run_read_all_closed [OF assms(1)]) (simp add: journal_state_def)
  moreover have "run_io (read_open_segment J (segment_name n)) fs = (fs, Inr opened)"
    using st by (intro run_read_open_clean [OF assms(1)]) (simp add: journal_state_def)
  moreover have "mf_open_segment_name m = Some (segment_name n)" using st by (simp add: journal_state_def)
  ultimately show ?thesis
    using journal_state_manifest [OF st] by (simp add: read_entries_def entries)
qed

section \<open>Folding\<close>

lemma unlink_lookup:
  "dict_get (apply_steps (map (\<lambda>d. Unlink (sd_name d)) ds) fs) k =
     (if k \<in> sd_name ` set ds then None else dict_get fs k)"
  by (induction ds arbitrary: fs) auto

lemma make_snapshot_ok:
  assumes "codec_ok (jn_codec J)"
  shows "\<exists>s. make_snapshot J prefix folded flag = Inr s \<and> sn_records s = folded \<and>
    sn_record_count s = length folded \<and> sn_legacy_v1_folded s = flag"
proof -
  have "\<exists>t. snapshot_created_at J folded = Inr t"
  proof (cases folded)
    case (Cons r rs)
    then show ?thesis
    proof (cases "started_at (jn_codec J) r")
      case (Some t)
      moreover have "started_at (jn_codec J) r \<noteq> Some (Naive w)" for w
        using assms by (simp add: codec_ok_def)
      ultimately show ?thesis using Cons by (cases t) (auto simp: snapshot_created_at_def)
    qed (simp add: snapshot_created_at_def)
  qed (simp add: snapshot_created_at_def)
  then show ?thesis by (auto simp: make_snapshot_def)
qed

lemma run_fold_snapshot:
  assumes "codec_ok (jn_codec J)" and st: "journal_state J fs m snap segs opened n"
  shows "\<exists>fs' m'. run_io (fold_snapshot J reducer) fs = (fs', Inr ()) \<and>
    journal_state J fs' m' (reduced reducer J (snap @ concat segs)) [] opened n \<and>
    (legacy_flagged J fs m \<longrightarrow> legacy_flagged J fs' m')"
proof -
  let ?C = "jn_codec J" and ?folded = "reduced reducer J (snap @ concat segs)"
  note manifest = journal_state_manifest [OF st]
  have "snapshot_holds J fs m snap" using st by (simp add: journal_state_def)
  from run_load_snapshot [OF this] obtain flag
    where snapshot: "run_io (load_snapshot J m) fs = (fs, Inr (snap, flag))" by blast
  have segments: "run_io (traverse_io (read_closed_segment J) (mf_closed_segments m)) fs = (fs, Inr segs)"
    using st by (intro run_read_all_closed [OF assms(1)]) (simp add: journal_state_def)
  obtain s where s: "make_snapshot J (ascii ''snapshot:'') ?folded flag = Inr s" "sn_records s = ?folded"
    "sn_record_count s = length ?folded" "sn_legacy_v1_folded s = flag" using make_snapshot_ok [OF assms(1)] by blast
  let ?b = "enc_snapshot ?C s"
  let ?m = "m\<lparr>mf_snapshot_filename := Some snapshot_name, mf_snapshot_digest := Some (sha256 ?C ?b),
     mf_snapshot_record_count := length ?folded, mf_legacy_v1_folded := flag, mf_closed_segments := []\<rparr>"
  let ?fs = "dict_set (apply_steps (map (\<lambda>d. Unlink (sd_name d)) (mf_closed_segments m))
     (dict_set fs snapshot_name ?b)) manifest_name (enc_manifest ?C ?m)"
  have run: "run_io (fold_snapshot J reducer) fs = (?fs, Inr ())"
    using manifest snapshot segments s(1)
    by (simp add: fold_snapshot_def Let_def save_manifest_def run_bind run_traverse_issue)
  have names: "\<exists>k < n. sd_name d = segment_name k" if "d \<in> set (mf_closed_segments m)" for d
    using st that by (simp add: journal_state_def)
  have "journal_state J ?fs ?m ?folded [] opened n"
    unfolding journal_state_def
  proof (intro conjI allI impI)
    have "snapshot_name \<notin> sd_name ` set (mf_closed_segments m)"
      using names by fastforce
    then show "snapshot_holds J ?fs ?m ?folded"
      using s codec_simps(7) [OF assms(1)] by (simp add: snapshot_holds_def unlink_lookup)
    have "segment_name n \<notin> sd_name ` set (mf_closed_segments m)"
      using names by fastforce
    then show "file_bytes ?fs (segment_name n) = lines_of ?C opened"
      using st by (simp add: file_bytes_def unlink_lookup journal_state_def)
    show "dict_get ?fs (segment_name k) = None" if "k > n" for k
      using st that by (simp add: unlink_lookup journal_state_def)
  qed (use st codec_simps(6) [OF assms(1)] in \<open>simp_all add: journal_state_def\<close>)
  moreover have "legacy_flagged J ?fs ?m" if "legacy_flagged J fs m"
  proof -
    have "flag = True" using that snapshot by (auto simp: legacy_flagged_def)
    moreover have "snapshot_name \<notin> sd_name ` set (mf_closed_segments m)" using names by fastforce
    ultimately show ?thesis
      using s codec_simps(7) [OF assms(1)] by (simp add: legacy_flagged_def load_snapshot_def run_bind unlink_lookup)
  qed
  ultimately show ?thesis using run by blast
qed

section \<open>Rotation and appending\<close>

lemma snapshot_holds_frame:
  "snapshot_holds J fs m snap \<Longrightarrow> dict_get fs' snapshot_name = dict_get fs snapshot_name \<Longrightarrow>
     mf_snapshot_filename m' = mf_snapshot_filename m \<Longrightarrow> mf_snapshot_digest m' = mf_snapshot_digest m \<Longrightarrow>
     snapshot_holds J fs' m' snap"
  by (auto simp: snapshot_holds_def split: option.splits)

lemma closed_holds_frame:
  assumes "list_all2 (closed_holds J fs) ds segs"
    and "\<And>d. d \<in> set ds \<Longrightarrow> dict_get fs' (sd_name d) = dict_get fs (sd_name d)"
  shows "list_all2 (closed_holds J fs') ds segs"
  by (rule list.rel_mono_strong [OF assms(1)]) (use assms(2) in \<open>auto simp: closed_holds_def\<close>)

definition closing_manifest ::
  "'r journal \<Rightarrow> journal_manifest \<Rightarrow> 'r list \<Rightarrow> nat \<Rightarrow> utc \<Rightarrow> journal_manifest" where
  "closing_manifest J m opened n now = m\<lparr>mf_closed_segments := mf_closed_segments m @
      [\<lparr>sd_name = segment_name n, sd_digest = sha256 (jn_codec J) (lines_of (jn_codec J) opened),
        sd_byte_count = length (lines_of (jn_codec J) opened), sd_record_count = length opened,
        sd_closed_at = now\<rparr>], mf_open_segment_name := Some (segment_name (Suc n))\<rparr>"

lemma close_segment_state:
  assumes "codec_ok (jn_codec J)" and st: "journal_state J fs m snap segs opened n" and "opened \<noteq> []"
  shows "journal_state J (dict_set fs manifest_name (enc_manifest (jn_codec J) (closing_manifest J m opened n now)))
    (closing_manifest J m opened n now) snap (segs @ [opened]) [] (Suc n)"
proof -
  let ?m = "closing_manifest J m opened n now"
  let ?fs = "dict_set fs manifest_name (enc_manifest (jn_codec J) ?m)"
  have names: "\<exists>k < n. sd_name d = segment_name k" if "d \<in> set (mf_closed_segments m)" for d
    using st that by (simp add: journal_state_def)
  have "dict_get fs (segment_name n) = Some (lines_of (jn_codec J) opened)"
    using st assms(3) by (auto simp: journal_state_def file_bytes_def split: option.splits)
  then have "closed_holds J ?fs \<lparr>sd_name = segment_name n,
      sd_digest = sha256 (jn_codec J) (lines_of (jn_codec J) opened),
      sd_byte_count = length (lines_of (jn_codec J) opened), sd_record_count = length opened,
      sd_closed_at = now\<rparr> opened"
    by (simp add: closed_holds_def)
  moreover have "list_all2 (closed_holds J ?fs) (mf_closed_segments m) segs"
  proof (rule closed_holds_frame)
    show "list_all2 (closed_holds J fs) (mf_closed_segments m) segs" using st by (simp add: journal_state_def)
    show "dict_get ?fs (sd_name d) = dict_get fs (sd_name d)" if "d \<in> set (mf_closed_segments m)" for d
      using names [OF that] by auto
  qed
  ultimately have closed_ok: "list_all2 (closed_holds J ?fs) (mf_closed_segments ?m) (segs @ [opened])"
    by (simp add: closing_manifest_def list_all2_appendI)
  show ?thesis
    unfolding journal_state_def
  proof (intro conjI allI impI closed_ok)
    show "snapshot_holds J ?fs ?m snap"
      by (rule snapshot_holds_frame [of J fs m]) (use st in \<open>simp_all add: journal_state_def closing_manifest_def\<close>)
    show "\<forall>d \<in> set (mf_closed_segments ?m). \<exists>k < Suc n. sd_name d = segment_name k"
      using names by (auto simp: closing_manifest_def less_Suc_eq)
    show "file_bytes ?fs (segment_name (Suc n)) = lines_of (jn_codec J) []"
      using st by (simp add: file_bytes_def journal_state_def)
    show "dict_get ?fs (segment_name k) = None" if "k > Suc n" for k
      using st that by (simp add: journal_state_def)
  qed (simp_all add: closing_manifest_def codec_simps(6) [OF assms(1)])
qed

lemma run_rotate:
  assumes "codec_ok (jn_codec J)" and st: "journal_state J fs m snap segs opened n"
  shows "\<exists>fs' m' n'. run_io (rotate_segment J now do_fold) fs = (fs', Inr ()) \<and>
    (if opened = [] then fs' = fs
     else if do_fold then journal_state J fs' m' (reduced None J (snap @ concat segs @ opened)) [] [] n'
     else journal_state J fs' m' snap (segs @ [opened]) [] n') \<and>
    (opened \<noteq> [] \<longrightarrow> legacy_flagged J fs m \<longrightarrow> legacy_flagged J fs' m')"
proof -
  have m: "mf_open_segment_name m = Some (segment_name n)"
    and bytes: "file_bytes fs (segment_name n) = lines_of (jn_codec J) opened"
    using st by (simp_all add: journal_state_def)
  note manifest = journal_state_manifest [OF st]
  show ?thesis
  proof (cases "opened = []")
    case True
    with bytes have "dict_get fs (segment_name n) \<in> {None, Some []}"
      by (auto simp: file_bytes_def split: option.splits)
    then have "run_io (rotate_segment J now do_fold) fs = (fs, Inr ())"
      using manifest m by (auto simp: rotate_segment_def run_bind)
    with True show ?thesis by simp
  next
    case False
    with bytes have content: "dict_get fs (segment_name n) = Some (lines_of (jn_codec J) opened)"
      by (auto simp: file_bytes_def split: option.splits)
    note read = run_read_open_clean [OF assms(1) bytes]
    let ?m = "closing_manifest J m opened n now"
    let ?fs = "dict_set fs manifest_name (enc_manifest (jn_codec J) ?m)"
    have closed_state: "journal_state J ?fs ?m snap (segs @ [opened]) [] (Suc n)"
      by (rule close_segment_state [OF assms(1) st False])
    have run: "run_io (rotate_segment J now do_fold) fs =
        run_io (if do_fold then fold_snapshot J None else return_io ()) ?fs"
      using manifest m content read False
      by (simp add: rotate_segment_def run_bind next_index_segment save_manifest_def
          closing_manifest_def)
    have flagged: "legacy_flagged J ?fs ?m" if "legacy_flagged J fs m"
      by (rule legacy_flagged_frame [OF that]) (use st in \<open>auto simp: closing_manifest_def journal_state_def\<close>)
    show ?thesis
    proof (cases do_fold)
      case True
      from run_fold_snapshot [OF assms(1) closed_state, of None] obtain fs' m' where
        "run_io (fold_snapshot J None) ?fs = (fs', Inr ())"
        "journal_state J fs' m' (reduced None J (snap @ concat (segs @ [opened]))) [] [] (Suc n)"
        "legacy_flagged J ?fs ?m \<longrightarrow> legacy_flagged J fs' m'" by blast
      with run False True flagged show ?thesis by auto
    next
      case no_fold: False
      with run False closed_state flagged show ?thesis by auto
    qed
  qed
qed

lemma append_open_state:
  assumes "codec_ok (jn_codec J)" and st: "journal_state J fs m snap segs opened n"
  shows "journal_state J (apply_step (AppendTo (segment_name n) (enc_record (jn_codec J) r @ [10])) fs) m
    snap segs (opened @ [r]) n"
proof -
  let ?fs = "apply_step (AppendTo (segment_name n) (enc_record (jn_codec J) r @ [10])) fs"
  have names: "\<exists>k < n. sd_name d = segment_name k" if "d \<in> set (mf_closed_segments m)" for d
    using st that by (simp add: journal_state_def)
  have "list_all2 (closed_holds J ?fs) (mf_closed_segments m) segs"
  proof (rule closed_holds_frame)
    show "list_all2 (closed_holds J fs) (mf_closed_segments m) segs" using st by (simp add: journal_state_def)
    show "dict_get ?fs (sd_name d) = dict_get fs (sd_name d)" if "d \<in> set (mf_closed_segments m)" for d
      using names [OF that] by auto
  qed
  moreover have "snapshot_holds J ?fs m snap"
    by (rule snapshot_holds_frame [of J fs m]) (use st in \<open>simp_all add: journal_state_def\<close>)
  ultimately show ?thesis
    unfolding journal_state_def
  proof (intro conjI allI impI)
    show "file_bytes ?fs (segment_name n) = lines_of (jn_codec J) (opened @ [r])"
      using st by (simp add: journal_state_def file_bytes_def)
  qed (use st in \<open>simp_all add: journal_state_def\<close>)
qed

lemma first_state:
  assumes "codec_ok (jn_codec J)" and "\<forall>k. dict_get fs (segment_name k) = None"
  shows "journal_state J (dict_set fs manifest_name (enc_manifest (jn_codec J) (first_manifest J flag)))
    (first_manifest J flag) [] [] [] 1"
  using assms by (auto simp: journal_state_def first_manifest_def snapshot_holds_def file_bytes_def codec_simps)

text \<open>Opening the segment to append to: a consistent state with the same entries.\<close>

lemma run_open_segment:
  assumes "codec_ok (jn_codec J)" and "journal_ok J fs entries"
  shows "\<exists>fs' m snap segs opened n. run_io (open_segment J) fs = (fs', Inr (segment_name n)) \<and>
    journal_state J fs' m snap segs opened n \<and> entries = snap @ concat segs @ opened"
  using assms(2) unfolding journal_ok_def
proof (elim disjE exE conjE)
  assume *: "entries = []" "dict_get fs manifest_name = None" "\<forall>k. dict_get fs (segment_name k) = None"
  let ?fs = "dict_set fs manifest_name (enc_manifest (jn_codec J) (first_manifest J False))"
  have "run_io (open_segment J) fs = (?fs, Inr (segment_name 1))"
    using *(2) by (simp add: open_segment_def save_manifest_def run_bind)
  with first_state [OF assms(1) *(3), of False] *(1) show ?thesis
    by (intro exI [of _ ?fs] exI [of _ "first_manifest J False"] exI [of _ "[]"] exI [of _ 1]) simp
next
  fix m snap segs opened n
  assume st: "journal_state J fs m snap segs opened n" and "entries = snap @ concat segs @ opened"
  moreover have "mf_open_segment_name m = Some (segment_name n)" using st by (simp add: journal_state_def)
  then have "run_io (open_segment J) fs = (fs, Inr (segment_name n))"
    using journal_state_manifest [OF st] by (simp add: open_segment_def)
  ultimately show ?thesis by blast
qed

text \<open>Appending, and what it keeps of a folded legacy document.\<close>

lemma run_append_flagged:
  assumes "codec_ok (jn_codec J)" and st: "journal_state J fs m snap segs opened n"
  shows "\<exists>fs' m' snap' segs' opened' n'. run_io (append_record J now r) fs = (fs', Inr ()) \<and>
    journal_state J fs' m' snap' segs' opened' n' \<and> (legacy_flagged J fs m \<longrightarrow> legacy_flagged J fs' m') \<and>
    snap' @ concat segs' @ opened' \<in> {snap @ concat segs @ opened @ [r], reduced None J (snap @ concat segs @ opened @ [r])}"
proof -
  have o: "run_io (open_segment J) fs = (fs, Inr (segment_name n))"
    using st journal_state_manifest [OF st] by (simp add: open_segment_def journal_state_def)
  let ?fs = "apply_step (AppendTo (segment_name n) (enc_record (jn_codec J) r @ [10])) fs"
  note st' = append_open_state [OF assms, of r]
  have flagged: "legacy_flagged J ?fs m" if "legacy_flagged J fs m"
    by (rule legacy_flagged_frame [OF that]) (use st in \<open>auto simp: journal_state_def\<close>)
  let ?big = "jn_max_segment_bytes J \<le> int (length (file_bytes ?fs (segment_name n)))"
  have run: "run_io (append_record J now r) fs =
      (if ?big then run_io (rotate_segment J now True) ?fs else (?fs, Inr ()))"
    using o by (simp add: append_record_def run_bind file_bytes_def)
  show ?thesis
  proof (cases ?big)
    case False
    with run have "run_io (append_record J now r) fs = (?fs, Inr ())" by simp
    with st' flagged show ?thesis
      by (intro exI [of _ ?fs] exI [of _ m] exI [of _ snap] exI [of _ segs] exI [of _ "opened @ [r]"] exI [of _ n]) simp
  next
    case True
    from run_rotate [OF assms(1) st', of now True] obtain fs' m' n' where
      rotated: "run_io (rotate_segment J now True) ?fs = (fs', Inr ())"
      "journal_state J fs' m' (reduced None J (snap @ concat segs @ opened @ [r])) [] [] n'"
      "legacy_flagged J ?fs m \<longrightarrow> legacy_flagged J fs' m'" by auto
    with run True flagged show ?thesis
      by (intro exI [of _ fs'] exI [of _ m'] exI [of _ "reduced None J (snap @ concat segs @ opened @ [r])"]
          exI [of _ "[]"] exI [of _ n']) simp
  qed
qed

lemma run_append_record:
  assumes "codec_ok (jn_codec J)" and "journal_ok J fs entries"
  shows "\<exists>fs'. run_io (append_record J now r) fs = (fs', Inr ()) \<and>
    (journal_ok J fs' (entries @ [r]) \<or> journal_ok J fs' (reduced None J (entries @ [r])))"
proof -
  from run_open_segment [OF assms] obtain fs1 m snap segs opened n where
    o: "run_io (open_segment J) fs = (fs1, Inr (segment_name n))"
    and st: "journal_state J fs1 m snap segs opened n" and e: "entries = snap @ concat segs @ opened" by blast
  have "run_io (open_segment J) fs1 = (fs1, Inr (segment_name n))"
    using st journal_state_manifest [OF st] by (simp add: open_segment_def journal_state_def)
  with o have "run_io (append_record J now r) fs = run_io (append_record J now r) fs1"
    unfolding append_record_def by simp
  moreover from run_append_flagged [OF assms(1) st, of now r] obtain fs' m' snap' segs' opened' n' where
    run: "run_io (append_record J now r) fs1 = (fs', Inr ())" and st': "journal_state J fs' m' snap' segs' opened' n'"
    and "snap' @ concat segs' @ opened' \<in> {entries @ [r], reduced None J (entries @ [r])}" unfolding e by auto
  moreover from st' have "journal_ok J fs' (snap' @ concat segs' @ opened')" unfolding journal_ok_def by blast
  ultimately show ?thesis by auto
qed

section \<open>The legacy mark\<close>

lemma run_has_folded:
  assumes "journal_ok J fs entries"
  shows "\<exists>folded. run_io (has_legacy_v1_folded J) fs = (fs, Inr folded)"
proof -
  have "\<exists>m. run_io (load_manifest J) fs = (fs, Inr m)"
    using assms unfolding journal_ok_def by (auto dest: journal_state_manifest)
  then show ?thesis by (auto simp: has_legacy_v1_folded_def)
qed

definition legacy_settled :: "'r journal \<Rightarrow> files \<Rightarrow> bool" where
  \<comment> \<open>the mark is set and stays set\<close>
  "legacy_settled J fs \<longleftrightarrow> (\<exists>m. run_io (load_manifest J) fs = (fs, Inr (Some m)) \<and> legacy_flagged J fs m)"

lemma settled_has_folded: "legacy_settled J fs \<Longrightarrow> run_io (has_legacy_v1_folded J) fs = (fs, Inr True)"
  by (auto simp: legacy_settled_def legacy_flagged_def has_legacy_v1_folded_def)

lemma run_append_settled:
  assumes "codec_ok (jn_codec J)" and "journal_ok J fs entries"
  shows "\<exists>fs'. run_io (append_record J now r) fs = (fs', Inr ()) \<and> (legacy_settled J fs \<longrightarrow> legacy_settled J fs') \<and>
    (journal_ok J fs' (entries @ [r]) \<or> journal_ok J fs' (reduced None J (entries @ [r])))"
proof (cases "legacy_settled J fs")
  case False
  with run_append_record [OF assms, of now r] show ?thesis by auto
next
  case True
  then obtain m where m: "run_io (load_manifest J) fs = (fs, Inr (Some m))" "legacy_flagged J fs m" by (auto simp: legacy_settled_def)
  from assms(2) m(1) obtain m' snap segs opened n where st: "journal_state J fs m' snap segs opened n" and e: "entries = snap @ concat segs @ opened"
    unfolding journal_ok_def by auto
  then have "m' = m" using m(1) journal_state_manifest by fastforce
  with run_append_flagged [OF assms(1) st, of now r] m(2) obtain fs' m'' snap' segs' opened' n' where
    run: "run_io (append_record J now r) fs = (fs', Inr ())" and st': "journal_state J fs' m'' snap' segs' opened' n'"
    and flag: "legacy_flagged J fs' m''"
    and es: "snap' @ concat segs' @ opened' \<in> {entries @ [r], reduced None J (entries @ [r])}" unfolding e by auto
  from st' have "journal_ok J fs' (snap' @ concat segs' @ opened')" unfolding journal_ok_def by blast
  moreover have "legacy_settled J fs'" using journal_state_manifest [OF st'] flag by (auto simp: legacy_settled_def)
  ultimately show ?thesis using run es by auto
qed

lemma run_mark_legacy:
  assumes "codec_ok (jn_codec J)" and "journal_ok J fs entries"
  shows "\<exists>fs'. run_io (mark_legacy_v1_folded J) fs = (fs', Inr ()) \<and> journal_ok J fs' entries"
  using assms(2) [unfolded journal_ok_def]
proof (elim disjE exE conjE)
  assume *: "entries = []" "dict_get fs manifest_name = None" "\<forall>k. dict_get fs (segment_name k) = None"
  let ?fs = "dict_set fs manifest_name (enc_manifest (jn_codec J) (first_manifest J True))"
  have "run_io (mark_legacy_v1_folded J) fs = (?fs, Inr ())" using *(2) by (simp add: mark_legacy_v1_folded_def save_manifest_def)
  with first_state [OF assms(1) *(3), of True] *(1) show ?thesis unfolding journal_ok_def by fastforce
next
  fix m snap segs opened n
  assume st: "journal_state J fs m snap segs opened n" and e: "entries = snap @ concat segs @ opened"
  let ?m = "m\<lparr>mf_legacy_v1_folded := True\<rparr>"
  let ?fs = "dict_set fs manifest_name (enc_manifest (jn_codec J) ?m)"
  have "run_io (mark_legacy_v1_folded J) fs = (?fs, Inr ())"
    using journal_state_manifest [OF st] by (simp add: mark_legacy_v1_folded_def save_manifest_def)
  moreover have "journal_state J ?fs ?m snap segs opened n"
    unfolding journal_state_def
  proof (intro conjI allI impI)
    show "snapshot_holds J ?fs ?m snap"
      by (rule snapshot_holds_frame [of J fs m]) (use st in \<open>simp_all add: journal_state_def\<close>)
    show "list_all2 (closed_holds J ?fs) (mf_closed_segments ?m) segs"
    proof -
      have "list_all2 (closed_holds J fs) (mf_closed_segments m) segs"
        and "\<And>d. d \<in> set (mf_closed_segments m) \<Longrightarrow> sd_name d \<noteq> manifest_name"
        using st by (auto simp: journal_state_def)
      then show ?thesis using closed_holds_frame [of J fs "mf_closed_segments m" segs ?fs] by simp
    qed
    show "file_bytes ?fs (segment_name n) = lines_of (jn_codec J) opened"
      using st by (simp add: journal_state_def file_bytes_def)
  qed (use st codec_simps(6) [OF assms(1)] in \<open>simp_all add: journal_state_def\<close>)
  ultimately show ?thesis using e unfolding journal_ok_def by blast
qed

text \<open>The first snapshot, made of the legacy records.\<close>

lemma run_initialize_legacy:
  assumes "codec_ok (jn_codec J)"
  shows "\<exists>fs'. run_io (initialize_snapshot_with_legacy J rs) [] = (fs', Inr ()) \<and> legacy_settled J fs' \<and>
    journal_ok J fs' (reduced None J rs)"
proof -
  let ?C = "jn_codec J" and ?folded = "reduced None J rs"
  obtain s where s: "make_snapshot J (ascii ''legacy-snapshot:'') ?folded True = Inr s" "sn_records s = ?folded"
    "sn_record_count s = length ?folded" "sn_legacy_v1_folded s = True" using make_snapshot_ok [OF assms(1)] by blast
  let ?b = "enc_snapshot ?C s"
  let ?m = "\<lparr>mf_journal_id = jn_journal_id J, mf_snapshot_filename = Some snapshot_name, mf_snapshot_digest = Some (sha256 ?C ?b),
     mf_snapshot_record_count = length ?folded, mf_legacy_v1_folded = True, mf_closed_segments = [],
     mf_open_segment_name = Some (segment_name 1)\<rparr>"
  define none :: files where "none = []"
  have none: "dict_get none k = None" for k by (simp add: none_def)
  let ?fs = "dict_set (dict_set none snapshot_name ?b) manifest_name (enc_manifest ?C ?m)"
  have run: "run_io (initialize_snapshot_with_legacy J rs) [] = (?fs, Inr ())"
    using s(1) by (simp add: none_def [symmetric] none initialize_snapshot_with_legacy_def Let_def save_manifest_def run_bind)
  have st: "journal_state J ?fs ?m ?folded [] [] 1"
    using s codec_simps(6,7) [OF assms] by (simp add: journal_state_def snapshot_holds_def file_bytes_def none)
  moreover have "legacy_flagged J ?fs ?m"
    using s codec_simps(7) [OF assms] by (simp add: legacy_flagged_def load_snapshot_def run_bind)
  ultimately have "legacy_settled J ?fs" using journal_state_manifest [OF st] by (auto simp: legacy_settled_def)
  moreover from st have "journal_ok J ?fs (?folded @ concat [] @ [])" unfolding journal_ok_def by blast
  ultimately show ?thesis using run by auto
qed

end
