(* ===== verification/SampleCodec.thy ===== *)
theory SampleCodec
  imports JournalCorrectness
begin

text \<open>
  A concrete codec for the witnesses about the journal: a record is a number, written as that many
  digits in braces, and documents are written as length-prefixed fields. It has the documented
  behaviour the journal relies on.
\<close>

type_synonym 'a parser = "bytes \<Rightarrow> ('a \<times> bytes) option"

definition inverse_on :: "('a \<Rightarrow> bytes) \<Rightarrow> 'a parser \<Rightarrow> bool" where
  "inverse_on enc dec \<longleftrightarrow> (\<forall>x rest. dec (enc x @ rest) = Some (x, rest))"

lemma inverse_onD: "inverse_on enc dec \<Longrightarrow> dec (enc x @ rest) = Some (x, rest)"
  by (simp add: inverse_on_def)

definition enc_nat :: "nat \<Rightarrow> bytes" where
  "enc_nat n = replicate n 1 @ [0]"

fun dec_nat :: "nat parser" where
  "dec_nat [] = None"
| "dec_nat (b # bs) = (if b = 0 then Some (0, bs) else map_option (\<lambda>(n, r). (Suc n, r)) (dec_nat bs))"

lemma nat_inverse: "inverse_on enc_nat dec_nat"
  unfolding inverse_on_def
proof (intro allI)
  fix n rest show "dec_nat (enc_nat n @ rest) = Some (n, rest)"
    by (induction n) (simp_all add: enc_nat_def)
qed

fun dec_many :: "'a parser \<Rightarrow> nat \<Rightarrow> 'a list parser" where
  "dec_many dec 0 bs = Some ([], bs)"
| "dec_many dec (Suc n) bs = Option.bind (dec bs) (\<lambda>(x, r).
     Option.bind (dec_many dec n r) (\<lambda>(xs, r). Some (x # xs, r)))"

definition enc_seq :: "('a \<Rightarrow> bytes) \<Rightarrow> 'a list \<Rightarrow> bytes" where
  "enc_seq enc xs = enc_nat (length xs) @ concat (map enc xs)"

definition dec_seq :: "'a parser \<Rightarrow> 'a list parser" where
  "dec_seq dec bs = Option.bind (dec_nat bs) (\<lambda>(n, r). dec_many dec n r)"

lemma seq_inverse: "inverse_on enc dec \<Longrightarrow> inverse_on (enc_seq enc) (dec_seq dec)"
  unfolding inverse_on_def
proof (intro allI)
  fix xs rest assume "\<forall>x rest. dec (enc x @ rest) = Some (x, rest)"
  then have "dec_many dec (length xs) (concat (map enc xs) @ rest) = Some (xs, rest)"
    by (induction xs) simp_all
  then show "dec_seq dec (enc_seq enc xs @ rest) = Some (xs, rest)"
    by (simp add: dec_seq_def enc_seq_def inverse_onD [OF nat_inverse])
qed

definition enc_byte :: "char \<Rightarrow> bytes" where
  "enc_byte c = [word_of_nat (of_char c)]"

fun dec_byte :: "char parser" where
  "dec_byte [] = None"
| "dec_byte (b # bs) = Some (char_of (unat b), bs)"

lemma byte_inverse: "inverse_on enc_byte dec_byte"
  by (simp add: inverse_on_def enc_byte_def unsigned_of_nat take_bit_eq_mod)

definition enc_string :: "string \<Rightarrow> bytes" where "enc_string = enc_seq enc_byte"
definition dec_string :: "string parser" where "dec_string = dec_seq dec_byte"

definition enc_opt :: "('a \<Rightarrow> bytes) \<Rightarrow> 'a option \<Rightarrow> bytes" where
  "enc_opt enc x = (case x of None \<Rightarrow> [0] | Some y \<Rightarrow> 1 # enc y)"

fun dec_opt :: "'a parser \<Rightarrow> 'a option parser" where
  "dec_opt dec [] = None"
| "dec_opt dec (b # bs) =
     (if b = 0 then Some (None, bs) else map_option (\<lambda>(x, r). (Some x, r)) (dec bs))"

lemma opt_inverse: "inverse_on enc dec \<Longrightarrow> inverse_on (enc_opt enc) (dec_opt dec)"
  by (simp add: inverse_on_def enc_opt_def split: option.splits)

definition enc_bool :: "bool \<Rightarrow> bytes" where "enc_bool b = [if b then 1 else 0]"

fun dec_bool :: "bool parser" where
  "dec_bool [] = None"
| "dec_bool (b # bs) = Some (b \<noteq> 0, bs)"

lemma bool_inverse: "inverse_on enc_bool dec_bool"
  by (simp add: inverse_on_def enc_bool_def)

definition enc_int :: "int \<Rightarrow> bytes" where
  "enc_int i = enc_bool (i < 0) @ enc_nat (nat \<bar>i\<bar>)"

definition dec_int :: "int parser" where
  "dec_int bs = Option.bind (dec_bool bs) (\<lambda>(neg, r). Option.bind (dec_nat r) (\<lambda>(n, r).
     Some (if neg then - int n else int n, r)))"

lemma int_inverse: "inverse_on enc_int dec_int"
  by (simp add: inverse_on_def enc_int_def dec_int_def inverse_onD [OF nat_inverse] inverse_onD [OF bool_inverse])

lemma string_inverse: "inverse_on enc_string dec_string"
  unfolding enc_string_def dec_string_def by (rule seq_inverse [OF byte_inverse])

lemmas field_inverses = inverse_onD [OF nat_inverse] inverse_onD [OF int_inverse] inverse_onD [OF bool_inverse]
  inverse_onD [OF string_inverse] inverse_onD [OF opt_inverse [OF string_inverse]]

section \<open>Documents\<close>

definition enc_descriptor :: "segment_descriptor \<Rightarrow> bytes" where
  "enc_descriptor d = enc_string (sd_name d) @ enc_string (sd_digest d) @ enc_nat (sd_byte_count d) @
     enc_nat (sd_record_count d) @ enc_int (sd_closed_at d)"

definition dec_descriptor :: "segment_descriptor parser" where
  "dec_descriptor bs =
     Option.bind (dec_string bs) (\<lambda>(name, bs). Option.bind (dec_string bs) (\<lambda>(digest, bs).
     Option.bind (dec_nat bs) (\<lambda>(bc, bs). Option.bind (dec_nat bs) (\<lambda>(rc, bs).
     Option.bind (dec_int bs) (\<lambda>(stamp, bs).
       Some (\<lparr>sd_name = name, sd_digest = digest, sd_byte_count = bc, sd_record_count = rc,
              sd_closed_at = stamp\<rparr>, bs))))))"

lemma descriptor_inverse: "inverse_on enc_descriptor dec_descriptor"
  by (simp add: inverse_on_def enc_descriptor_def dec_descriptor_def field_inverses)

definition enc_manifest_doc :: "journal_manifest \<Rightarrow> bytes" where
  "enc_manifest_doc m = enc_string (mf_journal_id m) @ enc_opt enc_string (mf_snapshot_filename m) @
     enc_opt enc_string (mf_snapshot_digest m) @ enc_nat (mf_snapshot_record_count m) @
     enc_bool (mf_legacy_v1_folded m) @ enc_seq enc_descriptor (mf_closed_segments m) @
     enc_opt enc_string (mf_open_segment_name m)"

definition dec_manifest_doc :: "bytes \<Rightarrow> journal_manifest option" where
  "dec_manifest_doc bs =
     Option.bind (dec_string bs) (\<lambda>(jid, bs). Option.bind (dec_opt dec_string bs) (\<lambda>(file, bs).
     Option.bind (dec_opt dec_string bs) (\<lambda>(digest, bs). Option.bind (dec_nat bs) (\<lambda>(rc, bs).
     Option.bind (dec_bool bs) (\<lambda>(folded, bs). Option.bind (dec_seq dec_descriptor bs) (\<lambda>(segs, bs).
     Option.bind (dec_opt dec_string bs) (\<lambda>(open_name, bs).
       Some \<lparr>mf_journal_id = jid, mf_snapshot_filename = file, mf_snapshot_digest = digest,
              mf_snapshot_record_count = rc, mf_legacy_v1_folded = folded, mf_closed_segments = segs,
              mf_open_segment_name = open_name\<rparr>)))))))"

lemma manifest_inverse: "dec_manifest_doc (enc_manifest_doc m) = Some m"
proof -
  have "dec_opt dec_string (enc_opt enc_string x) = Some (x, [])" for x
    using inverse_onD [OF opt_inverse [OF string_inverse], of x "[]"] by simp
  then show ?thesis
    by (simp add: enc_manifest_doc_def dec_manifest_doc_def field_inverses
        inverse_onD [OF seq_inverse [OF descriptor_inverse]])
qed

definition enc_snapshot_doc :: "nat journal_snapshot \<Rightarrow> bytes" where
  "enc_snapshot_doc s = enc_string (sn_journal_id s) @ enc_string (sn_snapshot_id s) @
     enc_int (sn_created_at s) @ enc_nat (sn_record_count s) @ enc_seq enc_nat (sn_records s) @
     enc_bool (sn_legacy_v1_folded s)"

definition dec_snapshot_doc :: "bytes \<Rightarrow> nat journal_snapshot option" where
  "dec_snapshot_doc bs =
     Option.bind (dec_string bs) (\<lambda>(jid, bs). Option.bind (dec_string bs) (\<lambda>(sid, bs).
     Option.bind (dec_int bs) (\<lambda>(stamp, bs). Option.bind (dec_nat bs) (\<lambda>(rc, bs).
     Option.bind (dec_seq dec_nat bs) (\<lambda>(rs, bs). Option.bind (dec_bool bs) (\<lambda>(folded, bs).
       Some \<lparr>sn_journal_id = jid, sn_snapshot_id = sid, sn_created_at = stamp, sn_record_count = rc,
              sn_records = rs, sn_legacy_v1_folded = folded\<rparr>))))))"

lemma snapshot_inverse: "dec_snapshot_doc (enc_snapshot_doc s) = Some s"
proof -
  have "dec_bool (enc_bool x) = Some (x, [])" for x
    using inverse_onD [OF bool_inverse, of x "[]"] by simp
  then show ?thesis
    by (simp add: enc_snapshot_doc_def dec_snapshot_doc_def field_inverses
        inverse_onD [OF seq_inverse [OF nat_inverse]])
qed

fun close_brace :: "bytes \<Rightarrow> nat option" where
  "close_brace [] = None"
| "close_brace (b # bs) =
     (if b = 125 then (if bs = [] then Some 0 else None)
      else if b = 49 then map_option Suc (close_brace bs) else None)"

definition sample_codec :: "nat journal_codec" where
  "sample_codec =
     \<lparr>enc_record = (\<lambda>n. 123 # replicate n 49 @ [125]),
      dec_record = (\<lambda>x. case x of [] \<Rightarrow> None | b # bs \<Rightarrow> if b = 123 then close_brace bs else None),
      enc_records = (\<lambda>rs. concat (map enc_nat rs)),
      enc_manifest = enc_manifest_doc, dec_manifest = dec_manifest_doc,
      enc_snapshot = enc_snapshot_doc, dec_snapshot = dec_snapshot_doc,
      sha256 = map (\<lambda>w. char_of (unat w)), started_at = (\<lambda>r. None)\<rparr>"

lemma close_brace_digits: "close_brace (replicate n 49 @ [125]) = Some n"
  by (induction n) simp_all

lemma sample_codec_ok: "codec_ok sample_codec"
  by (simp add: codec_ok_def sample_codec_def manifest_inverse snapshot_inverse blank_def
      close_brace_digits)

definition sample_journal :: "nat journal" where
  "sample_journal = \<lparr>jn_codec = sample_codec, jn_max_segment_bytes = 1000, jn_max_segment_records = 5000,
     jn_journal_id = ''sample'', jn_reducer = None\<rparr>"

lemma sample_journal_codec [simp]: "jn_codec sample_journal = sample_codec" "jn_reducer sample_journal = None"
  by (simp_all add: sample_journal_def)

lemma sample_empty_ok: "journal_ok sample_journal [] []"
  by (simp add: journal_ok_def)

end
