(* ===== verification/JournalCrash.thy ===== *)
theory JournalCrash
  imports SampleCodec
begin

text \<open>
  The journal as an append log, and what interruptions do to it. The interface an append log
  offers is a locale, interpreted on the journal. An operation that is interrupted leaves one of
  its crash points: the files after some of its steps, with the last append possibly cut short.
\<close>

section \<open>The append-log interface\<close>

text \<open>
  A log that holds a list of entries. Adding returns and holds one more entry, in some order
  (a compaction may reorder), as long as the entries fit; reading returns what it holds.
\<close>

locale append_log =
  fixes holds :: "'s \<Rightarrow> 'r list \<Rightarrow> bool"
    and add :: "'a \<Rightarrow> 's \<Rightarrow> 's result"
    and payload :: "'a \<Rightarrow> 'r"
    and entries :: "'s \<Rightarrow> 'r list result"
    and fits :: "'r multiset \<Rightarrow> bool"
  assumes add_holds: "holds s es \<Longrightarrow> fits (mset es + {#payload a#}) \<Longrightarrow>
      \<exists>s' es'. add a s = Inr s' \<and> holds s' es' \<and> mset es' = mset es + {#payload a#}"
    and entries_held: "holds s es \<Longrightarrow> entries s = Inr es"
begin

lemma add_all_holds:
  assumes "holds s es" and "\<forall>k \<le> length as. fits (mset es + mset (map payload (take k as)))"
  shows "\<exists>s' es'. fold (\<lambda>a r. bind_r r (add a)) as (Inr s) = Inr s' \<and> holds s' es' \<and>
    mset es' = mset es + mset (map payload as)"
  using assms
proof (induction as arbitrary: s es)
  case (Cons a as)
  from Cons.prems(2) have "fits (mset es + {#payload a#})"
    by (auto dest: spec [of _ 1])
  from add_holds [OF Cons.prems(1) this] obtain s1 es1 where
    s1: "add a s = Inr s1" "holds s1 es1" "mset es1 = mset es + {#payload a#}" by blast
  have "\<forall>k \<le> length as. fits (mset es1 + mset (map payload (take k as)))"
  proof (intro allI impI)
    fix k assume "k \<le> length as"
    with Cons.prems(2) have "fits (mset es + mset (map payload (take (Suc k) (a # as))))" by force
    then show "fits (mset es1 + mset (map payload (take k as)))" by (simp add: s1(3))
  qed
  from Cons.IH [OF s1(2) this] s1 show ?case by auto
qed auto

lemma entries_after_adds:
  assumes "holds s es" and "\<forall>k \<le> length as. fits (mset es + mset (map payload (take k as)))"
  shows "\<exists>s' es'. fold (\<lambda>a r. bind_r r (add a)) as (Inr s) = Inr s' \<and> entries s' = Inr es' \<and>
    mset es' = mset es + mset (map payload as)"
  using add_all_holds [OF assms] entries_held by blast

end

definition journal_add :: "utc \<times> 'r \<Rightarrow> 'r journal \<times> files \<Rightarrow> ('r journal \<times> files) result" where
  "journal_add item s = (case s of (J, fs) \<Rightarrow> case item of (now, r) \<Rightarrow>
     (case run_io (append_record J now r) fs of (fs', outcome) \<Rightarrow>
        bind_r outcome (\<lambda>_. Inr (J, fs'))))"

definition journal_entries :: "'r journal \<times> files \<Rightarrow> 'r list result" where
  "journal_entries s = (case s of (J, fs) \<Rightarrow> snd (run_io (read_entries J) fs))"

definition journal_holds :: "('r multiset \<Rightarrow> bool) \<Rightarrow> 'r journal \<times> files \<Rightarrow> 'r list \<Rightarrow> bool" where
  "journal_holds fits s es = (case s of (J, fs) \<Rightarrow> codec_ok (jn_codec J) \<and> journal_ok J fs es \<and>
     (\<forall>xs. fits (mset xs) \<longrightarrow> mset (reduced None J xs) = mset xs))"

interpretation jlog: append_log "journal_holds fits" journal_add snd journal_entries fits
  for fits :: "'r multiset \<Rightarrow> bool"
proof
  fix s :: "'r journal \<times> files" and es and a :: "utc \<times> 'r"
  assume h: "journal_holds fits s es" and f: "fits (mset es + {#snd a#})"
  obtain J fs where s: "s = (J, fs)" by fastforce
  obtain now :: utc and r where a: "a = (now, r)" by fastforce
  from h have c: "codec_ok (jn_codec J)" and ok: "journal_ok J fs es"
    and red: "\<forall>xs. fits (mset xs) \<longrightarrow> mset (reduced None J xs) = mset xs"
    by (auto simp: journal_holds_def s)
  from run_append_record [OF c ok, of now r] obtain fs' where
    run: "run_io (append_record J now r) fs = (fs', Inr ())"
    and ok': "journal_ok J fs' (es @ [r]) \<or> journal_ok J fs' (reduced None J (es @ [r]))" by blast
  have "mset (reduced None J (es @ [r])) = mset (es @ [r])"
    using f red [rule_format, of "es @ [r]"] by (simp add: a)
  with c red ok' have "\<exists>es'. journal_holds fits (J, fs') es' \<and> mset es' = mset es + {#r#}"
    by (auto simp: journal_holds_def)
  then show "\<exists>s' es'. journal_add a s = Inr s' \<and> journal_holds fits s' es' \<and> mset es' = mset es + {#snd a#}"
    using run by (auto simp: journal_add_def s a)
next
  fix s :: "'r journal \<times> files" and es
  assume "journal_holds fits s es"
  then show "journal_entries s = Inr es"
    by (auto simp: journal_holds_def journal_entries_def run_read_entries split: prod.splits)
qed

text \<open>
  Property C18. The journal refines an append-only list: on a consistent journal appending
  returns normally, and reading afterwards returns the old entries followed by the new record;
  only when the open segment reaches its size limit and a reducer is installed does reading
  return the reducer's result on that list instead.
\<close>
theorem journal_append_refines_list:
  assumes "codec_ok (jn_codec J)" and "journal_ok J fs entries"
  shows "run_io (read_entries J) fs = (fs, Inr entries) \<and>
    (\<exists>fs'. run_io (append_record J now r) fs = (fs', Inr ()) \<and>
       (run_io (read_entries J) fs' = (fs', Inr (entries @ [r])) \<or>
        run_io (read_entries J) fs' = (fs', Inr (reduced None J (entries @ [r])))) \<and>
       (jn_reducer J = None \<longrightarrow> journal_ok J fs' (entries @ [r])))"
proof -
  from run_append_record [OF assms, of now r] obtain fs' where
    "run_io (append_record J now r) fs = (fs', Inr ())"
    "journal_ok J fs' (entries @ [r]) \<or> journal_ok J fs' (reduced None J (entries @ [r]))" by blast
  with run_read_entries [OF assms] run_read_entries [OF assms(1), of fs'] show ?thesis
    by (auto simp: reduced_def)
qed

theorem journal_append_refines_list_witness:
  "\<exists>fs'. run_io (append_record sample_journal 0 1) [] = (fs', Inr ()) \<and>
     journal_ok sample_journal fs' [1]"
  using journal_append_refines_list [of sample_journal "[]" "[]" 0 1] sample_codec_ok sample_empty_ok
  by (simp del: split_paired_Ex) blast

section \<open>Crash points\<close>

fun crash_points :: "fs_step list \<Rightarrow> files \<Rightarrow> files list" where
  "crash_points [] fs = [fs]"
| "crash_points (s # ss) fs =
     fs # (case s of AppendTo name b \<Rightarrow> map (\<lambda>k. apply_step (AppendTo name (take k b)) fs) [0..<length b]
           | _ \<Rightarrow> []) @ crash_points ss (apply_step s fs)"

lemma crash_points_append:
  "set (crash_points [AppendTo name b] fs) = {fs, apply_step (AppendTo name b) fs} \<union>
     (\<lambda>k. apply_step (AppendTo name (take k b)) fs) ` {..<length b}"
  by (auto simp: atLeast0LessThan)

text \<open>The open segment ends in an unfinished line \<open>t\<close>.\<close>

lemma run_read_open_torn:
  assumes "codec_ok (jn_codec J)" and "dict_get fs name = Some (lines_of (jn_codec J) opened @ t)"
    and "10 \<notin> set t"
  shows "run_io (read_open_segment J name) fs =
    (if t \<noteq> [] \<and> torn_records (jn_codec J) t = []
       then dict_set (dict_set fs name []) name (lines_of (jn_codec J) opened) else fs,
     Inr (opened @ torn_records (jn_codec J) t))"
proof (cases "t = []")
  case True
  with assms(2) have "file_bytes fs name = lines_of (jn_codec J) opened" by (simp add: file_bytes_def)
  from run_read_open_clean [OF assms(1) this] True show ?thesis by simp
next
  case False
  let ?C = "jn_codec J"
  have scan: "scan_chunks ?C name (split_newline (lines_of ?C opened @ t)) =
      Inr (opened @ torn_records ?C t, map (\<lambda>r. enc_record ?C r @ [10]) opened @ torn_slices ?C t)"
    by (simp add: split_lines [OF assms(1,3)] scan_torn [OF assms(1)])
  have lines: "concat (map (\<lambda>r. enc_record ?C r @ [10]) opened) = lines_of ?C opened"
    by (simp add: lines_of_def)
  show ?thesis
  proof (cases "torn_records ?C t = []")
    case True
    then have "torn_slices ?C t = []" by (auto simp: torn_records_def torn_slices_def split: if_splits option.splits)
    with True False scan assms(2) show ?thesis
      by (simp add: read_open_segment_def run_bind lines file_bytes_def)
  next
    case nonempty: False
    then have "torn_slices ?C t = [t @ [10]]"
      by (auto simp: torn_records_def torn_slices_def split: if_splits option.splits)
    with nonempty False scan assms(2) show ?thesis
      by (simp add: read_open_segment_def run_bind lines)
  qed
qed

definition torn_state ::
  "'r journal \<Rightarrow> files \<Rightarrow> journal_manifest \<Rightarrow> 'r list \<Rightarrow> 'r list list \<Rightarrow> 'r list \<Rightarrow> nat \<Rightarrow> bytes \<Rightarrow> bool" where
  "torn_state J fs m snap segs opened n t \<longleftrightarrow> 10 \<notin> set t \<and>
     dict_get fs (segment_name n) = Some (lines_of (jn_codec J) opened @ t) \<and>
     journal_state J (dict_set fs (segment_name n) (lines_of (jn_codec J) opened)) m snap segs opened n"

lemma journal_state_cong:
  assumes "journal_state J fs m snap segs opened n" and "dict_get fs' = dict_get fs"
  shows "journal_state J fs' m snap segs opened n"
proof -
  have "closed_holds J fs' = closed_holds J fs" "snapshot_holds J fs' = snapshot_holds J fs"
    "file_bytes fs' = file_bytes fs"
    by (intro ext, simp only: closed_holds_def snapshot_holds_def file_bytes_def assms(2))+
  with assms show ?thesis unfolding journal_state_def by simp
qed

section \<open>Steps of operations\<close>

lemma run_fst: "run_io m fs = (fs', r) \<Longrightarrow> apply_steps (fst (m fs)) fs = fs' \<and> snd (m fs) = r"
  by (auto simp: run_io_def split: prod.splits)

definition silent :: "'a io \<Rightarrow> bool" where
  "silent m \<longleftrightarrow> (\<forall>fs. fst (m fs) = [])"

lemma silent_basic [simp]:
  "silent (return_io x)" "silent (raise_io e)" "silent (read_file n)" "silent (lift_result r)"
  by (simp_all add: silent_def return_io_def raise_io_def read_file_def lift_result_def)

lemma silent_bind: "silent m \<Longrightarrow> (\<And>x. silent (f x)) \<Longrightarrow> silent (bind_io m f)"
  by (auto simp: silent_def bind_io_def split: prod.splits sum.splits) (metis fst_conv)+

lemma silent_traverse: "(\<And>x. silent (f x)) \<Longrightarrow> silent (traverse_io f xs)"
  by (induction xs) (simp_all add: silent_bind)

lemma silent_reads: "silent (load_manifest J)" "silent (load_snapshot J m)" "silent (read_closed_segment J d)"
  unfolding load_manifest_def load_snapshot_def read_closed_segment_def
  by (auto intro!: silent_bind split: option.splits sum.splits)

lemma fst_bind_silent:
  assumes "silent m" and "run_io m fs = (fs', Inr x)"
  shows "fst (bind_io m f fs) = fst (f x fs)"
proof -
  have "fst (m fs) = []" using assms(1) by (simp add: silent_def)
  with assms(2) show ?thesis by (auto simp: bind_io_def run_io_def split: prod.splits)
qed

lemma fst_bind_issue: "fst (bind_io (issue s) f fs) = s # fst (f () (apply_step s fs))"
  by (simp add: bind_io_def issue_def split: prod.splits)

lemma fst_traverse_issue: "fst (traverse_io (\<lambda>x. issue (s x)) xs fs) = map s xs"
  by (induction xs arbitrary: fs) (simp_all add: bind_io_def issue_def return_io_def split: prod.splits sum.splits,
    metis (no_types, lifting) fst_conv run_fst run_traverse_issue snd_conv Inr_not_Inl)

lemma fst_bind_traverse:
  "fst (bind_io (traverse_io (\<lambda>x. issue (s x)) xs) f fs) =
     map s xs @ fst (f (map (\<lambda>_. ()) xs) (apply_steps (map s xs) fs))"
  using run_fst [OF run_traverse_issue [of s xs fs]] fst_traverse_issue [of s xs fs]
  by (auto simp: bind_io_def split: prod.splits)

text \<open>Everything but the open segment is read the same while only that file differs.\<close>

lemma reads_before_open:
  assumes "codec_ok (jn_codec J)" and st: "journal_state J (dict_set fs (segment_name n) x) m snap segs opened n"
  shows "run_io (read_entries J) fs = run_io (bind_io (read_open_segment J (segment_name n))
      (\<lambda>open_records. return_io (snap @ concat segs @ open_records))) fs"
    and "fst (read_entries J fs) = fst (bind_io (read_open_segment J (segment_name n))
      (\<lambda>open_records. return_io (snap @ concat segs @ open_records)) fs)"
proof -
  let ?fs = "dict_set fs (segment_name n) x"
  have names: "\<exists>k < n. sd_name d = segment_name k" if "d \<in> set (mf_closed_segments m)" for d
    using st that by (simp add: journal_state_def)
  have manifest: "run_io (load_manifest J) fs = (fs, Inr (Some m))" using st by (auto simp: journal_state_def)
  have "snapshot_holds J fs m snap"
    by (rule snapshot_holds_frame [of J ?fs m]) (use st in \<open>simp_all add: journal_state_def\<close>)
  then obtain flag where snapshot: "run_io (load_snapshot J m) fs = (fs, Inr (snap, flag))"
    using run_load_snapshot by blast
  have "list_all2 (closed_holds J fs) (mf_closed_segments m) segs"
  proof (rule closed_holds_frame)
    show "list_all2 (closed_holds J ?fs) (mf_closed_segments m) segs" using st by (simp add: journal_state_def)
    show "dict_get fs (sd_name d) = dict_get ?fs (sd_name d)" if "d \<in> set (mf_closed_segments m)" for d
      using names [OF that] by auto
  qed
  from run_read_all_closed [OF assms(1) this]
  have segments: "run_io (traverse_io (read_closed_segment J) (mf_closed_segments m)) fs = (fs, Inr segs)" .
  have name: "mf_open_segment_name m = Some (segment_name n)" using st by (simp add: journal_state_def)
  show "run_io (read_entries J) fs = run_io (bind_io (read_open_segment J (segment_name n))
      (\<lambda>open_records. return_io (snap @ concat segs @ open_records))) fs"
    using manifest snapshot segments name by (simp add: read_entries_def)
  show "fst (read_entries J fs) = fst (bind_io (read_open_segment J (segment_name n))
      (\<lambda>open_records. return_io (snap @ concat segs @ open_records)) fs)"
    by (simp add: read_entries_def fst_bind_silent [OF silent_reads(1) manifest]
        fst_bind_silent [OF silent_reads(2) snapshot] name
        fst_bind_silent [OF silent_traverse [OF silent_reads(3)] segments])
qed

lemma run_read_entries_torn:
  assumes "codec_ok (jn_codec J)" and torn: "torn_state J fs m snap segs opened n t"
  shows "\<exists>fs'. run_io (read_entries J) fs =
      (fs', Inr (snap @ concat segs @ opened @ torn_records (jn_codec J) t)) \<and>
    (if t \<noteq> [] \<and> torn_records (jn_codec J) t = [] then journal_state J fs' m snap segs opened n else fs' = fs)"
proof -
  let ?fs = "dict_set fs (segment_name n) (lines_of (jn_codec J) opened)"
  have st: "journal_state J ?fs m snap segs opened n" and t: "10 \<notin> set t"
    and content: "dict_get fs (segment_name n) = Some (lines_of (jn_codec J) opened @ t)"
    using torn by (simp_all add: torn_state_def)
  have "journal_state J (dict_set (dict_set fs (segment_name n) []) (segment_name n)
      (lines_of (jn_codec J) opened)) m snap segs opened n"
    by (rule journal_state_cong [OF st]) simp
  with run_read_open_torn [OF assms(1) content t] show ?thesis
    by (simp add: reads_before_open(1) [OF assms(1) st])
qed

section \<open>Interrupted appends\<close>

lemma steps_open_segment:
  assumes "journal_ok J fs entries"
  shows "fst (open_segment J fs) = [] \<or> (\<exists>b. fst (open_segment J fs) = [WriteAtomic manifest_name b])"
  using assms unfolding journal_ok_def
proof (elim disjE exE conjE)
  assume "dict_get fs manifest_name = None"
  then show ?thesis
    by (simp add: open_segment_def load_manifest_def bind_io_def read_file_def return_io_def save_manifest_def
        issue_def)
next
  fix m snap segs opened n
  assume "journal_state J fs m snap segs opened n"
  then obtain b where "dict_get fs manifest_name = Some b" "dec_manifest (jn_codec J) b = Some m"
    "mf_open_segment_name m = Some (segment_name n)" by (auto simp: journal_state_def)
  then show ?thesis
    by (simp add: open_segment_def load_manifest_def bind_io_def read_file_def return_io_def)
qed

lemma reopen_state:
  assumes "journal_state J fs m snap segs opened n"
  shows "journal_state J (dict_set fs (segment_name n) (lines_of (jn_codec J) opened')) m snap segs opened' n"
proof -
  let ?fs = "dict_set fs (segment_name n) (lines_of (jn_codec J) opened')"
  have names: "\<exists>k < n. sd_name d = segment_name k" if "d \<in> set (mf_closed_segments m)" for d
    using assms that by (simp add: journal_state_def)
  have "list_all2 (closed_holds J ?fs) (mf_closed_segments m) segs"
  proof (rule closed_holds_frame)
    show "list_all2 (closed_holds J fs) (mf_closed_segments m) segs" using assms by (simp add: journal_state_def)
    show "dict_get ?fs (sd_name d) = dict_get fs (sd_name d)" if "d \<in> set (mf_closed_segments m)" for d
      using names [OF that] by auto
  qed
  moreover have "snapshot_holds J ?fs m snap"
    by (rule snapshot_holds_frame [of J fs m]) (use assms in \<open>simp_all add: journal_state_def\<close>)
  ultimately show ?thesis
    unfolding journal_state_def
  proof (intro conjI allI impI)
    show "file_bytes ?fs (segment_name n) = lines_of (jn_codec J) opened'" by (simp add: file_bytes_def)
  qed (use assms in \<open>simp_all add: journal_state_def\<close>)
qed

lemmas rewrite_open_state = reopen_state

text \<open>The files while a line is being appended to the open segment.\<close>

lemma torn_append:
  assumes "codec_ok (jn_codec J)" and st: "journal_state J fs m snap segs opened n"
    and "k \<le> length (enc_record (jn_codec J) r)"
  shows "torn_state J (apply_step (AppendTo (segment_name n) (take k (enc_record (jn_codec J) r @ [10]))) fs)
    m snap segs opened n (take k (enc_record (jn_codec J) r))"
proof -
  let ?fs = "apply_step (AppendTo (segment_name n) (take k (enc_record (jn_codec J) r @ [10]))) fs"
  have bytes: "file_bytes fs (segment_name n) = lines_of (jn_codec J) opened"
    using st by (simp add: journal_state_def)
  have "10 \<notin> set (take k (enc_record (jn_codec J) r))"
    using codec_simps(2) [OF assms(1)] by (meson in_set_takeD)
  moreover have "dict_get ?fs (segment_name n) =
      Some (lines_of (jn_codec J) opened @ take k (enc_record (jn_codec J) r))"
    using assms(3) by (simp add: bytes)
  moreover have "journal_state J (dict_set ?fs (segment_name n) (lines_of (jn_codec J) opened)) m snap segs opened n"
  proof -
    have "journal_state J (dict_set fs (segment_name n) (lines_of (jn_codec J) opened)) m snap segs opened n"
      by (rule rewrite_open_state [OF st])
    then show ?thesis by (rule journal_state_cong) (simp add: fun_eq_iff)
  qed
  ultimately show ?thesis by (simp add: torn_state_def)
qed

lemma torn_append_reads:
  assumes "codec_ok (jn_codec J)" and st: "journal_state J fs m snap segs opened n"
    and k: "k \<le> length (enc_record (jn_codec J) r)"
    and "\<forall>k < length (enc_record (jn_codec J) r). dec_record (jn_codec J) (take k (enc_record (jn_codec J) r)) = None"
    and fs': "fs' = apply_step (AppendTo (segment_name n) (take k (enc_record (jn_codec J) r @ [10]))) fs"
    and e: "entries = snap @ concat segs @ opened"
  shows "\<exists>fs''. (run_io (read_entries J) fs' = (fs'', Inr entries) \<and> journal_ok J fs'' entries) \<or>
    run_io (read_entries J) fs' = (fs'', Inr (entries @ [r]))"
proof -
  let ?C = "jn_codec J"
  let ?t = "take k (enc_record ?C r)"
  have torn: "torn_state J fs' m snap segs opened n ?t"
    unfolding fs' by (rule torn_append [OF assms(1) st k])
  from run_read_entries_torn [OF assms(1) torn] obtain fs'' where
    run: "run_io (read_entries J) fs' = (fs'', Inr (snap @ concat segs @ opened @ torn_records ?C ?t))"
    and repaired: "if ?t \<noteq> [] \<and> torn_records ?C ?t = [] then journal_state J fs'' m snap segs opened n
      else fs'' = fs'" by blast
  show ?thesis
  proof (cases "k < length (enc_record ?C r)")
    case True
    then have none: "torn_records ?C ?t = []" using assms(4) by (simp add: torn_records_def)
    have "journal_state J fs'' m snap segs opened n"
    proof (cases "?t = []")
      case True
      with repaired torn have "fs'' = fs'" "dict_get fs' (segment_name n) = Some (lines_of ?C opened)"
        by (auto simp: torn_state_def)
      with torn show ?thesis by (auto simp: torn_state_def fun_upd_idem elim: journal_state_cong)
    qed (use repaired none in simp)
    then have "journal_ok J fs'' entries" unfolding journal_ok_def e by blast
    with run none show ?thesis by (auto simp: e)
  next
    case False
    with k have "torn_records ?C ?t = [r]" by (simp add: torn_records_def codec_simps [OF assms(1)])
    with run show ?thesis by (auto simp: e)
  qed
qed

lemma append_crash_points:
  assumes "journal_ok J fs entries" and o: "run_io (open_segment J) fs = (fs1, Inr (segment_name n))"
    and "int (length (file_bytes fs (segment_name n)) + length (enc_record (jn_codec J) r) + 1) < jn_max_segment_bytes J"
    and "fs' \<in> set (crash_points (fst (append_record J now r fs)) fs)"
    and line: "line = enc_record (jn_codec J) r @ [10]"
  obtains "fs' = fs" | "fs' = fs1" | "fs' = apply_step (AppendTo (segment_name n) line) fs1"
  | k where "k \<le> length (enc_record (jn_codec J) r)" "fs' = apply_step (AppendTo (segment_name n) (take k line)) fs1"
proof -
  have "file_bytes fs1 (segment_name n) = file_bytes fs (segment_name n)"
    using steps_open_segment [OF assms(1)] run_fst [OF o] by (auto simp: file_bytes_def)
  with assms(3) have small: "\<not> jn_max_segment_bytes J \<le> int (length (file_bytes fs1 (segment_name n)) + length line)"
    by (simp add: line)
  have steps: "fst (append_record J now r fs) = fst (open_segment J fs) @ [AppendTo (segment_name n) line]"
    using run_fst [OF o] small
    by (auto simp: append_record_def bind_io_def issue_def read_file_def return_io_def file_bytes_def line
        split: prod.splits)
  have "set (crash_points [AppendTo (segment_name n) line] fs1) \<subseteq>
      {fs1, apply_step (AppendTo (segment_name n) line) fs1} \<union>
      (\<lambda>k. apply_step (AppendTo (segment_name n) (take k line)) fs1) ` {..length (enc_record (jn_codec J) r)}"
    using crash_points_append [of "segment_name n" line fs1] by (auto simp: less_Suc_eq_le line)
  then have "set (crash_points (fst (append_record J now r fs)) fs) \<subseteq>
      {fs, fs1, apply_step (AppendTo (segment_name n) line) fs1} \<union>
      (\<lambda>k. apply_step (AppendTo (segment_name n) (take k line)) fs1) ` {..length (enc_record (jn_codec J) r)}"
    using steps_open_segment [OF assms(1)] run_fst [OF o] unfolding steps line by auto
  with assms(4) that show thesis by blast
qed

text \<open>
  Property C19. An interrupted append that does not rotate loses nothing that was confirmed: at every
  crash point of an append whose record fits into the open segment, reading afterwards returns either exactly the entries before
  it or those with the new record, provided no proper prefix of a record's document is itself a
  document; in the first case the torn line is cut off and the journal is consistent again.
\<close>
theorem interrupted_append_recovers:
  assumes "codec_ok (jn_codec J)" and "journal_ok J fs entries"
    and "\<forall>k < length (enc_record (jn_codec J) r). dec_record (jn_codec J) (take k (enc_record (jn_codec J) r)) = None"
    and "\<forall>n. int (length (file_bytes fs (segment_name n)) + length (enc_record (jn_codec J) r) + 1)
       < jn_max_segment_bytes J"
    and "fs' \<in> set (crash_points (fst (append_record J now r fs)) fs)"
  shows "\<exists>fs''. (run_io (read_entries J) fs' = (fs'', Inr entries) \<and> journal_ok J fs'' entries) \<or>
    run_io (read_entries J) fs' = (fs'', Inr (entries @ [r]))"
proof -
  let ?line = "enc_record (jn_codec J) r @ [10]"
  from run_open_segment [OF assms(1,2)] obtain fs1 m snap segs opened n where
    o: "run_io (open_segment J) fs = (fs1, Inr (segment_name n))"
    and st: "journal_state J fs1 m snap segs opened n" and e: "entries = snap @ concat segs @ opened" by blast
  have ok1: "journal_ok J fs1 entries" unfolding journal_ok_def using st e by blast
  have ok2: "journal_ok J (apply_step (AppendTo (segment_name n) ?line) fs1) (entries @ [r])"
    unfolding journal_ok_def using append_open_state [OF assms(1) st, of r] e by fastforce
  from assms(2) o assms(4) [rule_format, of n] assms(5) refl show ?thesis
  proof (cases rule: append_crash_points)
    case 1
    with run_read_entries [OF assms(1,2)] assms(2) show ?thesis by blast
  next
    case 2
    with run_read_entries [OF assms(1) ok1] ok1 show ?thesis by blast
  next
    case 3
    with run_read_entries [OF assms(1) ok2] show ?thesis by blast
  next
    case (4 k)
    from torn_append_reads [OF assms(1) st 4(1) assms(3) 4(2) e] show ?thesis .
  qed
qed

lemma sample_append_steps:
  "fst (append_record sample_journal 0 1 []) =
     [WriteAtomic manifest_name (enc_manifest_doc (first_manifest sample_journal False)),
      AppendTo (segment_name 1) [123, 49, 125, 10]]"
  by (simp add: append_record_def open_segment_def load_manifest_def save_manifest_def bind_io_def
      read_file_def issue_def return_io_def file_bytes_def dict_get_def sample_codec_def)
     (simp add: sample_journal_def)

theorem interrupted_append_recovers_witness:
  "\<exists>fs''. run_io (read_entries sample_journal)
       [(manifest_name, enc_manifest_doc (first_manifest sample_journal False)), (segment_name 1, [123, 49])] =
       (fs'', Inr []) \<or>
     run_io (read_entries sample_journal)
       [(manifest_name, enc_manifest_doc (first_manifest sample_journal False)), (segment_name 1, [123, 49])] =
       (fs'', Inr ([] @ [1]))"
proof -
  let ?fs = "[(manifest_name, enc_manifest_doc (first_manifest sample_journal False)), (segment_name 1, [123, 49])]"
  have "?fs \<in> set (crash_points (fst (append_record sample_journal 0 1 [])) [])"
    unfolding sample_append_steps
    by (simp add: file_bytes_def dict_get_def image_iff)
  moreover have "\<forall>k < length (enc_record sample_codec 1). dec_record sample_codec (take k (enc_record sample_codec 1)) = None"
    by (simp add: sample_codec_def take_Cons' less_Suc_eq)
  moreover have "\<forall>n. int (length (file_bytes [] (segment_name n)) + length (enc_record sample_codec 1) + 1)
      < jn_max_segment_bytes sample_journal"
    by (simp add: sample_codec_def sample_journal_def file_bytes_def)
  ultimately show ?thesis
    using interrupted_append_recovers [of sample_journal "[]" "[]" 1 ?fs 0] sample_codec_ok sample_empty_ok
    by auto
qed

section \<open>Interrupted compaction\<close>

lemma steps_fold_snapshot:
  assumes "codec_ok (jn_codec J)" and st: "journal_state J fs m snap segs opened n"
  shows "\<exists>b b'. fst (fold_snapshot J reducer fs) =
    WriteAtomic snapshot_name b # map (\<lambda>d. Unlink (sd_name d)) (mf_closed_segments m) @ [WriteAtomic manifest_name b']"
proof -
  have "snapshot_holds J fs m snap" using st by (simp add: journal_state_def)
  from run_load_snapshot [OF this] obtain flag
    where snapshot: "run_io (load_snapshot J m) fs = (fs, Inr (snap, flag))" by blast
  have segments: "run_io (traverse_io (read_closed_segment J) (mf_closed_segments m)) fs = (fs, Inr segs)"
    using st by (intro run_read_all_closed [OF assms(1)]) (simp add: journal_state_def)
  obtain s where s: "make_snapshot J (ascii ''snapshot:'') (reduced reducer J (snap @ concat segs)) flag = Inr s"
    using make_snapshot_ok [OF assms(1)] by blast
  have "run_io (lift_result (make_snapshot J (ascii ''snapshot:'') (reduced reducer J (snap @ concat segs)) flag)) fs =
      (fs, Inr s)" by (simp add: s)
  note steps = fst_bind_silent [OF silent_reads(1) journal_state_manifest [OF st]]
    fst_bind_silent [OF silent_reads(2) snapshot]
    fst_bind_silent [OF silent_traverse [OF silent_reads(3)] segments]
    fst_bind_silent [OF silent_basic(4) this]
  show ?thesis
    by (simp add: fold_snapshot_def Let_def steps fst_bind_issue fst_bind_traverse save_manifest_def)
       (simp add: issue_def)
qed

text \<open>
  Compaction is not crash safe: when it folds closed segments and the process dies
  after the first of them has been unlinked and before the manifest is replaced, every later
  read fails, so the whole journal is lost to the program.
\<close>
lemma interrupted_fold_blocks_reads:
  assumes "codec_ok (jn_codec J)" and "journal_state J fs m snap segs opened n" and "segs \<noteq> []"
    and "2 \<le> k" and "k < length (fst (fold_snapshot J reducer fs))"
  shows "\<exists>e. snd (run_io (read_entries J) (apply_steps (take k (fst (fold_snapshot J reducer fs))) fs)) = Inl e"
proof -
  from steps_fold_snapshot [OF assms(1,2)] obtain b b' where steps: "fst (fold_snapshot J reducer fs) =
    WriteAtomic snapshot_name b # map (\<lambda>d. Unlink (sd_name d)) (mf_closed_segments m) @ [WriteAtomic manifest_name b']"
    by blast
  from assms(2) have all2: "list_all2 (closed_holds J fs) (mf_closed_segments m) segs"
    and names: "\<forall>d \<in> set (mf_closed_segments m). \<exists>k < n. sd_name d = segment_name k"
    by (simp_all add: journal_state_def)
  from all2 assms(3) obtain d ds where m: "mf_closed_segments m = d # ds"
    by (cases "mf_closed_segments m") auto
  from assms(4) obtain j where k: "k = Suc (Suc j)" by (metis add_2_eq_Suc le_Suc_ex)
  with assms(5) have "j \<le> length ds" by (simp add: steps m)
  then have taken: "take k (fst (fold_snapshot J reducer fs)) =
      WriteAtomic snapshot_name b # map (\<lambda>d. Unlink (sd_name d)) (d # take j ds)"
    by (simp add: steps m k take_map)
  let ?fs = "apply_steps (take k (fst (fold_snapshot J reducer fs))) fs"
  have get: "dict_get ?fs x = (if x \<in> sd_name ` set (d # take j ds) then None
      else if x = snapshot_name then Some b else dict_get fs x)" for x
    unfolding taken by (simp add: unlink_lookup del: list.map)
  have "manifest_name \<notin> sd_name ` set (d # take j ds)"
    using names by (auto simp: m dest!: in_set_takeD)
  then have "dict_get ?fs manifest_name = dict_get fs manifest_name" by (simp add: get)
  then have manifest: "run_io (load_manifest J) ?fs = (?fs, Inr (Some m))"
    using assms(2) by (auto simp: journal_state_def)
  have "dict_get ?fs (sd_name d) = None" by (simp add: get)
  then have missing: "run_io (read_closed_segment J d) ?fs =
      (?fs, Inl (JournalCorruptionError (''closed segment '' @ sd_name d @ '' is missing'')))"
    by (simp add: read_closed_segment_def run_bind)
  obtain fs' r where snapshot: "run_io (load_snapshot J m) ?fs = (fs', r)" by fastforce
  then have "fs' = ?fs" using run_fst [OF snapshot] silent_reads(2) [of J m] by (simp add: silent_def)
  with manifest missing snapshot show ?thesis
    by (cases r) (auto simp: read_entries_def run_bind m split: prod.splits)
qed

lemma sample_open_state:
  "journal_state sample_journal
     (dict_set (dict_set [] manifest_name (enc_manifest_doc (first_manifest sample_journal False)))
        (segment_name 1) (lines_of sample_codec [1]))
     (first_manifest sample_journal False) [] [] [1] 1"
proof -
  have "journal_state sample_journal
     (dict_set [] manifest_name (enc_manifest sample_codec (first_manifest sample_journal False)))
     (first_manifest sample_journal False) [] [] [] 1"
    using first_state [of sample_journal "[]" False] sample_codec_ok by simp
  from reopen_state [OF this, of "[1]"] show ?thesis by (simp add: sample_codec_def)
qed

lemma interrupted_fold_blocks_reads_witness:
  "\<exists>fs m n. journal_state sample_journal fs m [] [[1]] [] n \<and>
     (\<exists>e. snd (run_io (read_entries sample_journal)
        (apply_steps (take 2 (fst (fold_snapshot sample_journal None fs))) fs)) = Inl e)"
proof -
  from close_segment_state [of sample_journal _ _ "[]" "[]" "[1]" 1 0, OF _ sample_open_state] sample_codec_ok
  obtain fs m where st: "journal_state sample_journal fs m [] [[1]] [] 2"
    by (auto simp: numeral_2_eq_2)
  have "length (mf_closed_segments m) = 1"
    using st by (auto simp: journal_state_def dest: list_all2_lengthD)
  then have "2 < length (fst (fold_snapshot sample_journal None fs))"
    using steps_fold_snapshot [OF _ st, of None] sample_codec_ok by auto
  with st interrupted_fold_blocks_reads [OF _ st, of 2 None] sample_codec_ok show ?thesis by auto
qed

section \<open>Interrupted recovery and the missing line feed\<close>

lemma split_after_lines:
  assumes "codec_ok C"
  shows "split_newline (lines_of C rs @ x) = map (enc_record C) rs @ split_newline x"
  by (induction rs) (simp_all add: split_newline_line codec_simps [OF assms])

lemma torn_read_steps:
  assumes "codec_ok (jn_codec J)" and torn: "torn_state J fs m snap segs opened n t"
    and "t \<noteq> []" and "torn_records (jn_codec J) t = []"
  shows "fst (read_entries J fs) =
    [Truncate (segment_name n), AppendTo (segment_name n) (lines_of (jn_codec J) opened)]"
proof -
  let ?C = "jn_codec J" and ?fs = "dict_set fs (segment_name n) (lines_of (jn_codec J) opened)"
  have st: "journal_state J ?fs m snap segs opened n" and t: "10 \<notin> set t"
    and content: "dict_get fs (segment_name n) = Some (lines_of ?C opened @ t)"
    using torn by (simp_all add: torn_state_def)
  have slices: "torn_slices ?C t = []"
    using assms(4) by (auto simp: torn_records_def torn_slices_def split: if_splits option.splits)
  have scan: "scan_chunks ?C (segment_name n) (split_newline (lines_of ?C opened @ t)) =
      Inr (opened, map (\<lambda>r. enc_record ?C r @ [10]) opened)"
    using assms(4) by (simp add: split_lines [OF assms(1) t] scan_torn [OF assms(1)] slices)
  have "concat (map (\<lambda>r. enc_record ?C r @ [10]) opened) = lines_of ?C opened" by (simp add: lines_of_def)
  with content scan assms(3) have "read_open_segment J (segment_name n) fs =
      ([Truncate (segment_name n), AppendTo (segment_name n) (lines_of ?C opened)], Inr opened)"
    by (simp add: read_open_segment_def bind_io_def read_file_def issue_def return_io_def)
  then show ?thesis
    by (simp add: reads_before_open(2) [OF assms(1) st]) (simp add: bind_io_def return_io_def)
qed

text \<open>
  Recovery itself is not crash safe: cutting off a torn line truncates the open
  segment to nothing before it writes the confirmed lines back, so a second interruption there
  silently drops every confirmed record of the open segment.
\<close>
lemma interrupted_recovery_drops_records:
  assumes "codec_ok (jn_codec J)" and "torn_state J fs m snap segs opened n t"
    and "t \<noteq> []" and "torn_records (jn_codec J) t = []"
  shows "\<exists>fs' \<in> set (crash_points (fst (read_entries J fs)) fs).
    run_io (read_entries J) fs' = (fs', Inr (snap @ concat segs))"
proof -
  let ?fs = "dict_set fs (segment_name n) []"
  have "?fs \<in> set (crash_points (fst (read_entries J fs)) fs)"
    unfolding torn_read_steps [OF assms] by simp
  moreover have "journal_state J (dict_set fs (segment_name n) (lines_of (jn_codec J) opened)) m snap segs opened n"
    using assms(2) by (simp add: torn_state_def)
  from reopen_state [OF this, of "[]"] have "journal_state J ?fs m snap segs [] n"
    by (rule journal_state_cong) (simp add: fun_eq_iff)
  then have "journal_ok J ?fs (snap @ concat segs)" unfolding journal_ok_def by force
  ultimately show ?thesis using run_read_entries [OF assms(1)] by blast
qed

lemma interrupted_recovery_drops_records_witness:
  "\<exists>fs. torn_state sample_journal fs (first_manifest sample_journal False) [] [] [1] 1 [123] \<and>
     (\<exists>fs' \<in> set (crash_points (fst (read_entries sample_journal fs)) fs).
        run_io (read_entries sample_journal) fs' = (fs', Inr []))"
proof -
  let ?fs = "dict_set (dict_set [] manifest_name (enc_manifest_doc (first_manifest sample_journal False)))
     (segment_name 1) (lines_of sample_codec [1] @ [123])"
  have "journal_state sample_journal (dict_set ?fs (segment_name 1) (lines_of sample_codec [1]))
     (first_manifest sample_journal False) [] [] [1] 1"
    by (rule journal_state_cong [OF sample_open_state]) (simp add: fun_eq_iff)
  then have torn: "torn_state sample_journal ?fs (first_manifest sample_journal False) [] [] [1] 1 [123]"
    by (simp add: torn_state_def dict_get_def)
  have "torn_records sample_codec [123] = []" by (simp add: torn_records_def sample_codec_def)
  with torn interrupted_recovery_drops_records [OF _ torn] sample_codec_ok show ?thesis by auto
qed

text \<open>
  A lost line feed is not repaired: if an append is interrupted exactly before its
  line feed, reading accepts the record and leaves the file as it is; the next append then writes
  on the same line and returns normally, and every later read raises a corruption error.
\<close>
lemma missing_line_feed_corrupts:
  assumes "codec_ok (jn_codec J)" and "journal_ok J fs entries"
    and "dec_record (jn_codec J) (enc_record (jn_codec J) r @ enc_record (jn_codec J) r') = None"
    and "\<forall>n. int (length (file_bytes fs (segment_name n)) + length (enc_record (jn_codec J) r) +
       length (enc_record (jn_codec J) r') + 1) < jn_max_segment_bytes J"
  shows "\<exists>fs' \<in> set (crash_points (fst (append_record J now r fs)) fs).
    run_io (read_entries J) fs' = (fs', Inr (entries @ [r])) \<and>
    (\<exists>fs'' message. run_io (append_record J now' r') fs' = (fs'', Inr ()) \<and>
       snd (run_io (read_entries J) fs'') = Inl (JournalCorruptionError message))"
proof -
  let ?C = "jn_codec J"
  let ?r = "enc_record ?C r" and ?r' = "enc_record ?C r'"
  from run_open_segment [OF assms(1,2)] obtain fs1 m snap segs opened n where
    o: "run_io (open_segment J) fs = (fs1, Inr (segment_name n))"
    and st: "journal_state J fs1 m snap segs opened n" and e: "entries = snap @ concat segs @ opened" by blast
  let ?fs' = "apply_step (AppendTo (segment_name n) ?r) fs1"
  have same: "file_bytes fs1 (segment_name n) = file_bytes fs (segment_name n)"
    using steps_open_segment [OF assms(2)] run_fst [OF o] by (auto simp: file_bytes_def)
  have size: "int (length (file_bytes fs1 (segment_name n)) + length ?r + length ?r' + 1) < jn_max_segment_bytes J"
    using assms(4) [rule_format, of n] by (simp add: same)
  have steps: "fst (append_record J now r fs) = fst (open_segment J fs) @ [AppendTo (segment_name n) (?r @ [10])]"
    using run_fst [OF o] size
    by (auto simp: append_record_def bind_io_def issue_def read_file_def return_io_def file_bytes_def
        split: prod.splits)
  have "?fs' = apply_step (AppendTo (segment_name n) (take (length ?r) (?r @ [10]))) fs1" by simp
  then have "?fs' \<in> set (crash_points [AppendTo (segment_name n) (?r @ [10])] fs1)"
    unfolding crash_points_append by (intro UnI2 image_eqI [of _ _ "length ?r"]) simp_all
  then have crash: "?fs' \<in> set (crash_points (fst (append_record J now r fs)) fs)"
    unfolding steps using steps_open_segment [OF assms(2)] run_fst [OF o] by auto
  have torn: "torn_state J ?fs' m snap segs opened n ?r"
    using torn_append [OF assms(1) st, of "length ?r" r] by simp
  have "torn_records ?C ?r = [r]" by (simp add: torn_records_def codec_simps [OF assms(1)])
  with run_read_entries_torn [OF assms(1) torn] have read:
    "run_io (read_entries J) ?fs' = (?fs', Inr (entries @ [r]))" by (auto simp: e)
  have open_name: "mf_open_segment_name m = Some (segment_name n)"
    and bytes: "file_bytes fs1 (segment_name n) = lines_of ?C opened" using st by (simp_all add: journal_state_def)
  have manifest': "run_io (load_manifest J) ?fs' = (?fs', Inr (Some m))"
    using st by (auto simp: journal_state_def)
  let ?fs'' = "apply_step (AppendTo (segment_name n) (?r' @ [10])) ?fs'"
  have "run_io (open_segment J) ?fs' = (?fs', Inr (segment_name n))"
    using manifest' open_name by (simp add: open_segment_def run_bind)
  then have append: "run_io (append_record J now' r') ?fs' = (?fs'', Inr ())"
    using size by (simp add: append_record_def run_bind file_bytes_def)
  have "journal_state J (dict_set ?fs'' (segment_name n) (lines_of ?C opened)) m snap segs opened n"
    by (rule journal_state_cong [OF rewrite_open_state [OF st]]) (simp add: fun_eq_iff)
  note rest = reads_before_open(1) [OF assms(1) this]
  have content: "dict_get ?fs'' (segment_name n) = Some (lines_of ?C opened @ ((?r @ ?r') @ 10 # []))"
    using bytes by (simp add: file_bytes_def)
  have "10 \<notin> set (?r @ ?r')" using codec_simps(2) [OF assms(1)] by simp
  then have chunks: "split_newline (lines_of ?C opened @ ((?r @ ?r') @ 10 # [])) =
      map (enc_record ?C) opened @ [?r @ ?r', []]"
    using split_newline_line [of "?r @ ?r'" "[]"] by (simp add: split_after_lines [OF assms(1)])
  have "\<not> blank (?r @ ?r')" using codec_simps(4) [OF assms(1), of r] by (simp add: blank_def)
  with assms(3) have "\<exists>message. scan_chunks ?C (segment_name n) (map (enc_record ?C) opened @ [?r @ ?r', []]) =
      Inl (JournalCorruptionError message)"
    by (induction opened) (auto simp: codec_simps [OF assms(1)])
  then obtain message where "run_io (read_open_segment J (segment_name n)) ?fs'' =
      (?fs'', Inl (JournalCorruptionError message))"
    using content chunks by (auto simp: read_open_segment_def run_bind)
  then have "snd (run_io (read_entries J) ?fs'') = Inl (JournalCorruptionError message)"
    unfolding rest by simp
  with crash read append show ?thesis by blast
qed

lemma missing_line_feed_corrupts_witness:
  "\<exists>fs' \<in> set (crash_points (fst (append_record sample_journal 0 1 [])) []).
    run_io (read_entries sample_journal) fs' = (fs', Inr ([] @ [1])) \<and>
    (\<exists>fs'' message. run_io (append_record sample_journal 0 0) fs' = (fs'', Inr ()) \<and>
       snd (run_io (read_entries sample_journal) fs'') = Inl (JournalCorruptionError message))"
proof (rule missing_line_feed_corrupts)
  show "dec_record (jn_codec sample_journal) (enc_record (jn_codec sample_journal) 1 @
      enc_record (jn_codec sample_journal) 0) = None"
    by (simp add: sample_codec_def)
  show "\<forall>n. int (length (file_bytes [] (segment_name n)) + length (enc_record (jn_codec sample_journal) 1) +
      length (enc_record (jn_codec sample_journal) 0) + 1) < jn_max_segment_bytes sample_journal"
    by (simp add: file_bytes_def sample_codec_def) (simp add: sample_journal_def)
qed (simp_all add: sample_codec_ok sample_empty_ok)

end
