(* ===== verification/CandidateStore.thy ===== *)
theory CandidateStore
  imports EngineCorrectness
begin

text \<open>
  The append-only store of screening results, receipts, candidates and candidate transitions
  (\<^verbatim>\<open>alerts/analytical_state.py\<close>): its record types with their validators, the
  whole-history validator, the recording of one scheduler attempt with confirmations, cooldown
  and evidence-driven resolution, the user's transitions, and the inbox queries. The journal
  records an operation appends are part of its result; the files they go to are the subject of
  the journal's own theory.
\<close>

section \<open>Records\<close>

datatype receipt_status = SCREENED | SKIPPED

datatype candidate_status = NEW | SEEN | DISMISSED | RESOLVED | SILENCED

datatype transition_actor = LocalUser | SystemEvidence

definition MAX_STATE_RECORDS :: nat where
  "MAX_STATE_RECORDS = 250000"

record monitor_receipt =
  rc_attempt_id :: uuid
  rc_job_id :: string
  rc_asset_id :: "string option"
  rc_status :: receipt_status
  rc_reason :: string
  rc_processed_at :: utc
  rc_result_ids :: "uuid list"

record candidate_event =
  e_candidate_id :: uuid
  e_activation_result_id :: uuid
  e_rule_id :: string
  e_rule_version :: string
  e_rule_fingerprint :: string
  e_asset_id :: string
  e_domain :: screening_domain
  e_source_id :: string
  e_as_of :: utc
  e_activated_at :: utc
  e_cooldown_until :: utc
  e_confirmations :: int
  e_status :: candidate_status

record candidate_transition =
  t_transition_id :: uuid
  t_candidate_id :: uuid
  t_from_status :: candidate_status
  t_to_status :: candidate_status
  t_recorded_at :: utc
  t_actor :: transition_actor

record screening_state =
  st_results :: "screening_result list"
  st_candidates :: "candidate_event list"
  st_transitions :: "candidate_transition list"
  st_receipts :: "monitor_receipt list"

definition empty_state :: screening_state where
  "empty_state = \<lparr>st_results = [], st_candidates = [], st_transitions = [], st_receipts = []\<rparr>"

record record_outcome =
  ro_receipt_created :: bool
  ro_results_created :: nat
  ro_candidates_created :: nat
  ro_candidates_resolved :: nat

datatype journal_record =
    ResultRecord screening_result
  | CandidateRecord candidate_event
  | TransitionRecord candidate_transition
  | ReceiptRecord monitor_receipt

section \<open>Identities\<close>

record state_ids = screening_ids +
  sha_receipt :: "monitor_receipt \<Rightarrow> string"
  sha_candidate :: "candidate_event \<Rightarrow> string"
  uuid_candidate :: "uuid \<Rightarrow> uuid"
  uuid_transition :: "uuid \<times> candidate_status \<times> candidate_status \<times> utc \<times> transition_actor \<Rightarrow> uuid"

definition receipt_fingerprint :: "('x) state_ids_scheme \<Rightarrow> monitor_receipt \<Rightarrow> string" where
  "receipt_fingerprint I r = sha_receipt I r"

definition candidate_fingerprint :: "('x) state_ids_scheme \<Rightarrow> candidate_event \<Rightarrow> string" where
  \<comment> \<open>\<^verbatim>\<open>model_dump(exclude={"status"})\<close>\<close>
  "candidate_fingerprint I e = sha_candidate I (e\<lparr>e_status := NEW\<rparr>)"

definition analytical_candidate_id :: "('x) state_ids_scheme \<Rightarrow> uuid \<Rightarrow> uuid" where
  "analytical_candidate_id I result_id = uuid_candidate I result_id"

definition analytical_candidate_transition_id ::
  "('x) state_ids_scheme \<Rightarrow> uuid \<Rightarrow> candidate_status \<Rightarrow> candidate_status \<Rightarrow> utc \<Rightarrow>
     transition_actor \<Rightarrow> uuid" where
  "analytical_candidate_transition_id I candidate_id from_status to_status recorded_at actor =
     uuid_transition I (candidate_id, from_status, to_status, recorded_at, actor)"

section \<open>Validators\<close>

definition validate_receipt :: "monitor_receipt \<Rightarrow> monitor_receipt result" where
  "validate_receipt r =
     (if \<not> sorted_unique (rc_result_ids r)
        then Inl (ValueError ''analytical monitor result_ids must be unique and sorted'')
      else if rc_status r = SCREENED \<and> rc_result_ids r = []
        then Inl (ValueError ''screened analytical attempts must reference results'')
      else if rc_status r = SKIPPED \<and> rc_result_ids r \<noteq> []
        then Inl (ValueError ''skipped analytical attempts cannot reference results'')
      else Inr r)"

definition validate_event :: "('x) state_ids_scheme \<Rightarrow> candidate_event \<Rightarrow> candidate_event result" where
  "validate_event I e =
     (if e_confirmations e < 1 \<or> 20 < e_confirmations e
        then Inl (ValueError ''confirmations'')
      else if e_candidate_id e \<noteq> analytical_candidate_id I (e_activation_result_id e)
        then Inl (ValueError ''analytical candidate_id is not deterministic'')
      else if e_cooldown_until e < e_activated_at e
        then Inl (ValueError ''candidate cooldown cannot predate activation'')
      else Inr e)"

definition validate_transition ::
  "('x) state_ids_scheme \<Rightarrow> candidate_transition \<Rightarrow> candidate_transition result" where
  "validate_transition I t =
     (if t_from_status t = t_to_status t
        then Inl (ValueError ''candidate transitions must change status'')
      else if t_transition_id t \<noteq> analytical_candidate_transition_id I (t_candidate_id t)
                (t_from_status t) (t_to_status t) (t_recorded_at t) (t_actor t)
        then Inl (ValueError ''analytical candidate transition_id is not deterministic'')
      else Inr t)"

fun project_statuses ::
  "(uuid, candidate_status) dict \<Rightarrow> candidate_transition list \<Rightarrow>
     (uuid, candidate_status) dict result" where
  "project_statuses projected [] = Inr projected"
| "project_statuses projected (t # ts) =
     (if dict_get projected (t_candidate_id t) \<noteq> Some (t_from_status t)
        then Inl (ValueError ''candidate transition history is not sequential'')
      else project_statuses (dict_set projected (t_candidate_id t) (t_to_status t)) ts)"

definition result_order :: "screening_result \<Rightarrow> utc \<times> uuid" where
  "result_order s = (s_known_at s, s_result_id s)"

definition candidate_order :: "candidate_event \<Rightarrow> utc \<times> uuid" where
  "candidate_order e = (e_activated_at e, e_candidate_id e)"

definition transition_order :: "candidate_transition \<Rightarrow> utc \<times> uuid" where
  "transition_order t = (t_recorded_at t, t_transition_id t)"

definition receipt_order :: "monitor_receipt \<Rightarrow> utc \<times> uuid" where
  "receipt_order r = (rc_processed_at r, rc_attempt_id r)"

definition validate_history :: "screening_state \<Rightarrow> screening_state result" where
  "validate_history st =
     (let result_ids = map s_result_id (st_results st);
          candidate_ids = map e_candidate_id (st_candidates st);
          transition_ids = map t_transition_id (st_transitions st);
          receipt_ids = map rc_attempt_id (st_receipts st) in
      if length (st_results st) > MAX_STATE_RECORDS then Inl (ValueError ''results'')
      else if length (st_candidates st) > MAX_STATE_RECORDS then Inl (ValueError ''candidates'')
      else if length (st_transitions st) > MAX_STATE_RECORDS then Inl (ValueError ''transitions'')
      else if length (st_receipts st) > MAX_STATE_RECORDS then Inl (ValueError ''receipts'')
      else if \<not> distinct result_ids
        then Inl (ValueError ''analytical results contain duplicate identities'')
      else if \<not> distinct candidate_ids
        then Inl (ValueError ''analytical candidates contain duplicate identities'')
      else if \<not> distinct transition_ids
        then Inl (ValueError ''candidate transitions contain duplicate identities'')
      else if \<not> distinct receipt_ids
        then Inl (ValueError ''analytical receipts contain duplicate attempt identities'')
      else if \<not> sorted (map result_order (st_results st))
        then Inl (ValueError ''analytical results are not deterministically ordered'')
      else if \<not> sorted (map candidate_order (st_candidates st))
        then Inl (ValueError ''analytical candidates are not deterministically ordered'')
      else if \<not> sorted (map transition_order (st_transitions st))
        then Inl (ValueError ''candidate transitions are not deterministically ordered'')
      else if \<not> sorted (map receipt_order (st_receipts st))
        then Inl (ValueError ''analytical receipts are not deterministically ordered'')
      else if list_ex (\<lambda>e. e_activation_result_id e \<notin> set result_ids) (st_candidates st)
        then Inl (ValueError ''analytical candidate references an unknown result'')
      else if list_ex (\<lambda>r. list_ex (\<lambda>i. i \<notin> set result_ids) (rc_result_ids r)) (st_receipts st)
        then Inl (ValueError ''analytical receipt references an unknown result'')
      else if list_ex (\<lambda>t. t_candidate_id t \<notin> set candidate_ids) (st_transitions st)
        then Inl (ValueError ''candidate transition references an unknown candidate'')
      else bind_r (project_statuses (map (\<lambda>i. (i, NEW)) candidate_ids) (st_transitions st))
        (\<lambda>projected.
           if list_ex (\<lambda>e. dict_get projected (e_candidate_id e) \<noteq> Some (e_status e)) (st_candidates st)
             then Inl (ValueError ''candidate status differs from its transition history'')
           else Inr st))"

section \<open>Recording one observed attempt\<close>

definition candidate_transition_of ::
  "('x) state_ids_scheme \<Rightarrow> candidate_event \<Rightarrow> candidate_status \<Rightarrow> utc \<Rightarrow> transition_actor \<Rightarrow>
     candidate_transition result" where
  "candidate_transition_of I e to_status recorded_at actor =
     validate_transition I
       \<lparr>t_transition_id = analytical_candidate_transition_id I (e_candidate_id e) (e_status e)
          to_status recorded_at actor,
        t_candidate_id = e_candidate_id e, t_from_status = e_status e, t_to_status = to_status,
        t_recorded_at = recorded_at, t_actor = actor\<rparr>"

definition same_stream :: "('x) state_ids_scheme \<Rightarrow> candidate_event \<Rightarrow> screening_result \<Rightarrow> bool" where
  "same_stream I e s \<longleftrightarrow> e_rule_fingerprint e = rule_fingerprint I (s_rule s) \<and>
     e_asset_id e = s_asset_id s \<and> e_source_id e = s_source_id s"

definition sorted_reverse :: "('a \<Rightarrow> 'k::linorder) \<Rightarrow> 'a list \<Rightarrow> 'a list" where
  \<comment> \<open>\<^verbatim>\<open>sorted(xs, key=..., reverse=True)\<close>, stable\<close>
  "sorted_reverse key xs = rev (sort_key key (rev xs))"

fun count_periods :: "utc list \<Rightarrow> screening_result list \<Rightarrow> nat" where
  "count_periods seen [] = 0"
| "count_periods seen (s # rest) =
     (case s_as_of s of
        None \<Rightarrow> count_periods seen rest
      | Some period \<Rightarrow>
          if period \<in> set seen then count_periods seen rest
          else if \<not> s_matched s then 0
          else Suc (count_periods (period # seen) rest))"

definition confirmation_count ::
  "('x) state_ids_scheme \<Rightarrow> screening_result list \<Rightarrow> screening_result \<Rightarrow> nat" where
  "confirmation_count I results current =
     count_periods [] (sorted_reverse result_order
       (filter (\<lambda>s. rule_fingerprint I (s_rule s) = rule_fingerprint I (s_rule current) \<and>
                    s_asset_id s = s_asset_id current \<and> s_source_id s = s_source_id current \<and>
                    s_known_at s \<le> s_known_at current \<and> s_as_of s \<noteq> None) results))"

fun merge_results ::
  "('x) state_ids_scheme \<Rightarrow> screening_result list \<Rightarrow> (uuid, screening_result) dict \<Rightarrow>
     screening_result list \<Rightarrow> ((uuid, screening_result) dict \<times> screening_result list) result" where
  "merge_results I [] by_id created = Inr (by_id, created)"
| "merge_results I (s # rest) by_id created =
     (case dict_get by_id (s_result_id s) of
        Some existing \<Rightarrow>
          (if result_fingerprint I existing \<noteq> result_fingerprint I s
             then Inl (StateError ''analytical recomputation changed deterministic semantics'')
           else merge_results I rest by_id created)
      | None \<Rightarrow> merge_results I rest (dict_set by_id (s_result_id s) s) (created @ [s]))"

record lifecycle =
  lc_candidates :: "(uuid, candidate_event) dict"
  lc_transitions :: "candidate_transition list"
  lc_created :: "candidate_event list"
  lc_resolved :: nat

fun resolve_candidates ::
  "('x) state_ids_scheme \<Rightarrow> utc \<Rightarrow> candidate_event list \<Rightarrow> lifecycle \<Rightarrow> lifecycle result" where
  "resolve_candidates I processed_at [] lc = Inr lc"
| "resolve_candidates I processed_at (e # es) lc =
     bind_r (candidate_transition_of I e RESOLVED processed_at SystemEvidence) (\<lambda>t.
       resolve_candidates I processed_at es
         (lc\<lparr>lc_candidates := dict_set (lc_candidates lc) (e_candidate_id e) (e\<lparr>e_status := RESOLVED\<rparr>),
             lc_transitions := lc_transitions lc @ [t],
             lc_resolved := Suc (lc_resolved lc)\<rparr>))"

definition activation_event ::
  "('x) state_ids_scheme \<Rightarrow> screening_result \<Rightarrow> utc \<Rightarrow> utc \<Rightarrow> nat \<Rightarrow> candidate_event" where
  "activation_event I s as_of processed_at confirmations =
     \<lparr>e_candidate_id = analytical_candidate_id I (s_result_id s),
      e_activation_result_id = s_result_id s, e_rule_id = r_rule_id (s_rule s),
      e_rule_version = r_rule_version (s_rule s),
      e_rule_fingerprint = rule_fingerprint I (s_rule s), e_asset_id = s_asset_id s,
      e_domain = r_domain (s_rule s), e_source_id = s_source_id s, e_as_of = as_of,
      e_activated_at = processed_at,
      e_cooldown_until = processed_at + seconds (r_cooldown_seconds (s_rule s)),
      e_confirmations = int confirmations, e_status = NEW\<rparr>"

definition lifecycle_step ::
  "('x) state_ids_scheme \<Rightarrow> utc \<Rightarrow> screening_result list \<Rightarrow> screening_result \<Rightarrow> lifecycle \<Rightarrow>
     lifecycle result" where
  "lifecycle_step I processed_at results s lc =
     (let candidates = dict_values (lc_candidates lc);
          open_candidates = filter (\<lambda>e. same_stream I e s \<and> e_status e \<noteq> RESOLVED) candidates in
      if open_candidates \<noteq> [] then
        (if s_retained s = Some False then resolve_candidates I processed_at open_candidates lc
         else Inr lc)
      else
        (case s_as_of s of
           None \<Rightarrow> Inr lc
         | Some as_of \<Rightarrow>
             (let confirmations = confirmation_count I results s;
                  previous = filter (\<lambda>e. same_stream I e s) candidates in
              if \<not> s_activated s then Inr lc
              else if int confirmations < r_confirmations_required (s_rule s) then Inr lc
              else if previous \<noteq> [] \<and>
                      list_ex (\<lambda>e. processed_at < e_cooldown_until e) previous then Inr lc
              else bind_r (validate_event I (activation_event I s as_of processed_at confirmations))
                (\<lambda>event.
                  case dict_get (lc_candidates lc) (e_candidate_id event) of
                    Some existing \<Rightarrow>
                      (if candidate_fingerprint I existing \<noteq> candidate_fingerprint I event
                         then Inl (StateError ''candidate recomputation changed deterministic semantics'')
                       else Inr lc)
                  | None \<Rightarrow>
                      Inr (lc\<lparr>lc_candidates := dict_set (lc_candidates lc) (e_candidate_id event) event,
                              lc_created := lc_created lc @ [event]\<rparr>)))))"

fun lifecycle_steps ::
  "('x) state_ids_scheme \<Rightarrow> utc \<Rightarrow> screening_result list \<Rightarrow> screening_result list \<Rightarrow> lifecycle \<Rightarrow>
     lifecycle result" where
  "lifecycle_steps I processed_at results [] lc = Inr lc"
| "lifecycle_steps I processed_at results (s # rest) lc =
     bind_r (lifecycle_step I processed_at results s lc) (\<lambda>lc'.
       lifecycle_steps I processed_at results rest lc')"

definition initial_lifecycle :: "screening_state \<Rightarrow> lifecycle" where
  "initial_lifecycle st =
     \<lparr>lc_candidates = dict_by e_candidate_id (st_candidates st), lc_transitions = [],
      lc_created = [], lc_resolved = 0\<rparr>"

definition record_attempt ::
  "('x) state_ids_scheme \<Rightarrow> screening_state \<Rightarrow> monitor_receipt \<Rightarrow> screening_result list \<Rightarrow>
     (record_outcome \<times> screening_state \<times> journal_record list) result" where
  "record_attempt I st receipt results =
     (if sort (map s_result_id results) \<noteq> rc_result_ids receipt
        then Inl (ValueError ''analytical receipt result_ids do not match supplied results'')
      else
        (let receipt_by_id = dict_by rc_attempt_id (st_receipts st) in
         case dict_get receipt_by_id (rc_attempt_id receipt) of
           Some existing \<Rightarrow>
             (if receipt_fingerprint I existing \<noteq> receipt_fingerprint I receipt
                then Inl (StateError ''analytical attempt replay changed receipt semantics'')
              else Inr (\<lparr>ro_receipt_created = False, ro_results_created = 0,
                         ro_candidates_created = 0, ro_candidates_resolved = 0\<rparr>, st, []))
         | None \<Rightarrow>
             bind_r (merge_results I results (dict_by s_result_id (st_results st)) [])
               (\<lambda>(results_by_id, created_results).
             bind_r (lifecycle_steps I (rc_processed_at receipt) (dict_values results_by_id)
                       (sort_key result_order results) (initial_lifecycle st))
               (\<lambda>lc.
             bind_r (validate_history
                \<lparr>st_results = sort_key result_order (dict_values results_by_id),
                 st_candidates = sort_key candidate_order (dict_values (lc_candidates lc)),
                 st_transitions = sort_key transition_order (st_transitions st @ lc_transitions lc),
                 st_receipts = sort_key receipt_order
                   (dict_values (dict_set receipt_by_id (rc_attempt_id receipt) receipt))\<rparr>)
               (\<lambda>snapshot.
                 Inr (\<lparr>ro_receipt_created = True, ro_results_created = length created_results,
                        ro_candidates_created = length (lc_created lc),
                        ro_candidates_resolved = lc_resolved lc\<rparr>,
                      snapshot,
                      map ResultRecord created_results @ map CandidateRecord (lc_created lc) @
                        map TransitionRecord (lc_transitions lc) @ [ReceiptRecord receipt]))))))"

section \<open>User transitions\<close>

fun allowed_transitions :: "candidate_status \<Rightarrow> candidate_status list" where
  "allowed_transitions NEW = [SEEN, DISMISSED, RESOLVED, SILENCED]"
| "allowed_transitions SEEN = [DISMISSED, RESOLVED, SILENCED]"
| "allowed_transitions DISMISSED = [RESOLVED]"
| "allowed_transitions SILENCED = [RESOLVED]"
| "allowed_transitions RESOLVED = []"

definition transition ::
  "('x) state_ids_scheme \<Rightarrow> screening_state \<Rightarrow> uuid \<Rightarrow> candidate_status \<Rightarrow> py_datetime \<Rightarrow>
     (candidate_event \<times> bool \<times> screening_state \<times> journal_record list) result" where
  "transition I st candidate_id to_status recorded =
     (case recorded of
        Naive w \<Rightarrow> Inl (ValueError ''recorded_at must be timezone-aware'')
      | Aware w off \<Rightarrow>
          (let recorded_at = w - off; candidates = dict_by e_candidate_id (st_candidates st) in
           if to_status = NEW then Inl (ValueError ''a candidate cannot transition back to new'')
           else
             (case dict_get candidates candidate_id of
                None \<Rightarrow> Inl (ValueError ''analytical candidate does not exist'')
              | Some current \<Rightarrow>
                  (if e_status current = to_status then Inr (current, False, st, [])
                   else if to_status \<notin> set (allowed_transitions (e_status current))
                     then Inl (ValueError ''analytical candidate transition is not allowed'')
                   else
                     bind_r (candidate_transition_of I current to_status recorded_at LocalUser) (\<lambda>t.
                       (let updated = current\<lparr>e_status := to_status\<rparr> in
                        bind_r (validate_history
                          \<lparr>st_results = st_results st,
                           st_candidates = sort_key candidate_order
                             (dict_values (dict_set candidates candidate_id updated)),
                           st_transitions = sort_key transition_order (st_transitions st @ [t]),
                           st_receipts = st_receipts st\<rparr>)
                          (\<lambda>snapshot. Inr (updated, True, snapshot, [TransitionRecord t]))))))))"

section \<open>Inbox queries\<close>

record inbox_status =
  is_result_count :: nat
  is_candidate_count :: nat
  is_new_count :: nat
  is_processed_attempt_count :: nat
  is_latest_candidate_at :: "utc option"

definition status :: "screening_state \<Rightarrow> inbox_status" where
  "status st =
     \<lparr>is_result_count = length (st_results st), is_candidate_count = length (st_candidates st),
      is_new_count = length (filter (\<lambda>e. e_status e = NEW) (st_candidates st)),
      is_processed_attempt_count = length (st_receipts st),
      is_latest_candidate_at = py_max (map e_activated_at (st_candidates st))\<rparr>"

record inbox_item =
  ii_event :: candidate_event
  ii_result :: screening_result

record inbox_page =
  ip_total :: nat
  ip_items :: "inbox_item list"

definition inbox :: "screening_state \<Rightarrow> int \<Rightarrow> inbox_page result" where
  "inbox st limit =
     (if limit < 1 \<or> 200 < limit
        then Inl (ValueError ''candidate inbox limit must be between 1 and 200'')
      else
        (let results = dict_by s_result_id (st_results st);
             ordered = sorted_reverse candidate_order (st_candidates st) in
         bind_r (traverse (\<lambda>e. case dict_get results (e_activation_result_id e) of
                                 None \<Rightarrow> Inl (KeyError ''activation_result_id'')
                               | Some s \<Rightarrow> Inr \<lparr>ii_event = e, ii_result = s\<rparr>)
                   (take (nat limit) ordered))
           (\<lambda>items. Inr \<lparr>ip_total = length ordered, ip_items = items\<rparr>)))"

definition contains_attempt :: "screening_state \<Rightarrow> uuid \<Rightarrow> bool" where
  "contains_attempt st attempt_id \<longleftrightarrow> attempt_id \<in> rc_attempt_id ` set (st_receipts st)"

end
