(* ===== verification/CandidateInvariants.thy ===== *)
theory CandidateInvariants
  imports CandidateStore
begin

text \<open>
  The invariants of the candidate store. A history is consistent (\<open>history_ok\<close>) when its
  identities are unique, its collections sorted, its references known and every candidate's
  status the end of its own chain of transitions. The operations keep it, keep at most one open
  candidate per stream and keep activations of a stream apart by the cooldown; they only append;
  and recording never fails its own validation while the clock moves forward.
\<close>

section \<open>Chains of transitions\<close>

fun chain :: "candidate_status \<Rightarrow> candidate_transition list \<Rightarrow> candidate_status option" where
  "chain s [] = Some s"
| "chain s (t # ts) = (if t_from_status t = s then chain (t_to_status t) ts else None)"

definition of_candidate :: "uuid \<Rightarrow> candidate_transition list \<Rightarrow> candidate_transition list" where
  "of_candidate i ts = filter (\<lambda>t. t_candidate_id t = i) ts"

lemma of_candidate_simps [simp]:
  "of_candidate i [] = []"
  "of_candidate i (t # ts) = (if t_candidate_id t = i then t # of_candidate i ts else of_candidate i ts)"
  "of_candidate i (ts @ us) = of_candidate i ts @ of_candidate i us"
  by (simp_all add: of_candidate_def)

lemma chain_append: "chain s (ts @ us) = (case chain s ts of None \<Rightarrow> None | Some s' \<Rightarrow> chain s' us)"
  by (induction s ts rule: chain.induct) auto

lemma project_statuses_cases:
  assumes "\<forall>t \<in> set ts. t_candidate_id t \<in> dom (dict_get d)"
  shows "(\<exists>d'. project_statuses d ts = Inr d' \<and>
       (\<forall>i s. dict_get d i = Some s \<longrightarrow> (\<exists>s'. chain s (of_candidate i ts) = Some s' \<and> dict_get d' i = Some s'))) \<or>
     (\<exists>e i s. project_statuses d ts = Inl e \<and> dict_get d i = Some s \<and> chain s (of_candidate i ts) = None)"
  using assms
proof (induction ts arbitrary: d)
  case (Cons t ts)
  let ?i = "t_candidate_id t" and ?d = "dict_set d (t_candidate_id t) (t_to_status t)"
  from Cons.prems obtain s where s: "dict_get d ?i = Some s" by auto
  show ?case
  proof (cases "s = t_from_status t")
    case False
    with s show ?thesis by (intro disjI2) (auto intro!: exI [of _ ?i])
  next
    case True
    with s have step: "project_statuses d (t # ts) = project_statuses ?d ts" by simp
    have "\<forall>t \<in> set ts. t_candidate_id t \<in> dom (dict_get ?d)" using Cons.prems by auto
    from Cons.IH [OF this] show ?thesis
    proof (elim disjE exE conjE)
      fix d' assume d': "project_statuses ?d ts = Inr d'"
        and chains: "\<forall>i s. dict_get ?d i = Some s \<longrightarrow>
          (\<exists>s'. chain s (of_candidate i ts) = Some s' \<and> dict_get d' i = Some s')"
      have "\<exists>s'. chain r (of_candidate i (t # ts)) = Some s' \<and> dict_get d' i = Some s'"
        if "dict_get d i = Some r" for i r
        using chains [rule_format, of i] that s True by (cases "i = ?i") auto
      with d' step show ?thesis by auto
    next
      fix e i r assume *: "project_statuses ?d ts = Inl e" "dict_get ?d i = Some r"
        "chain r (of_candidate i ts) = None"
      show ?thesis
      proof (cases "i = ?i")
        case True
        with * step s \<open>s = t_from_status t\<close> show ?thesis by (intro disjI2) auto
      next
        case False
        with * step show ?thesis by (intro disjI2) auto
      qed
    qed
  qed
qed simp

section \<open>Consistent histories\<close>

definition statuses_ok :: "candidate_event list \<Rightarrow> candidate_transition list \<Rightarrow> bool" where
  "statuses_ok es ts \<longleftrightarrow>
     (\<forall>e \<in> set es. chain NEW (of_candidate (e_candidate_id e) ts) = Some (e_status e))"

definition history_ok :: "screening_state \<Rightarrow> bool" where
  "history_ok st \<longleftrightarrow>
     length (st_results st) \<le> MAX_STATE_RECORDS \<and> length (st_candidates st) \<le> MAX_STATE_RECORDS \<and>
     length (st_transitions st) \<le> MAX_STATE_RECORDS \<and> length (st_receipts st) \<le> MAX_STATE_RECORDS \<and>
     distinct (map s_result_id (st_results st)) \<and> distinct (map e_candidate_id (st_candidates st)) \<and>
     distinct (map t_transition_id (st_transitions st)) \<and> distinct (map rc_attempt_id (st_receipts st)) \<and>
     sorted (map result_order (st_results st)) \<and> sorted (map candidate_order (st_candidates st)) \<and>
     sorted (map transition_order (st_transitions st)) \<and> sorted (map receipt_order (st_receipts st)) \<and>
     e_activation_result_id ` set (st_candidates st) \<subseteq> s_result_id ` set (st_results st) \<and>
     (\<forall>r \<in> set (st_receipts st). set (rc_result_ids r) \<subseteq> s_result_id ` set (st_results st)) \<and>
     t_candidate_id ` set (st_transitions st) \<subseteq> e_candidate_id ` set (st_candidates st) \<and>
     statuses_ok (st_candidates st) (st_transitions st)"

lemma projection_ok_iff:
  assumes "t_candidate_id ` set ts \<subseteq> e_candidate_id ` set es"
  shows "(\<exists>d. project_statuses (map (\<lambda>i. (i, NEW)) (map e_candidate_id es)) ts = Inr d \<and>
       (\<forall>e \<in> set es. dict_get d (e_candidate_id e) = Some (e_status e))) \<longleftrightarrow> statuses_ok es ts"
proof -
  let ?d = "map (\<lambda>i. (i, NEW)) (map e_candidate_id es)"
  have get: "dict_get ?d i = (if i \<in> e_candidate_id ` set es then Some NEW else None)" for i
    by (induction es) (auto simp: dict_get_def)
  have "\<forall>t \<in> set ts. t_candidate_id t \<in> dom (dict_get ?d)"
    using assms by (auto simp: get image_subset_iff simp del: map_map)
  from project_statuses_cases [OF this] show ?thesis
  proof (elim disjE exE conjE)
    fix d assume "project_statuses ?d ts = Inr d"
      and chains: "\<forall>i s. dict_get ?d i = Some s \<longrightarrow>
        (\<exists>s'. chain s (of_candidate i ts) = Some s' \<and> dict_get d i = Some s')"
    moreover have "dict_get d (e_candidate_id e) = chain NEW (of_candidate (e_candidate_id e) ts)"
      if "e \<in> set es" for e
      using chains [rule_format, of "e_candidate_id e" NEW] that by (auto simp: get simp del: map_map)
    ultimately show ?thesis by (auto simp: statuses_ok_def)
  next
    fix e i s assume *: "project_statuses ?d ts = Inl e" "dict_get ?d i = Some s"
      "chain s (of_candidate i ts) = None"
    then have "\<not> statuses_ok es ts"
      by (auto simp: get statuses_ok_def simp del: map_map split: if_splits intro!: bexI)
    with * show ?thesis by auto
  qed
qed

lemma validate_history_iff: "validate_history st = Inr st' \<longleftrightarrow> st' = st \<and> history_ok st"
proof (cases "t_candidate_id ` set (st_transitions st) \<subseteq> e_candidate_id ` set (st_candidates st)")
  case True
  from projection_ok_iff [OF this] show ?thesis
    unfolding validate_history_def history_ok_def Let_def
    using True by (auto simp: bind_r_eq_Inr list_ex_iff not_less image_subset_iff subset_iff split: if_splits)
next
  case False
  then show ?thesis
    unfolding validate_history_def history_ok_def Let_def
    by (auto simp: bind_r_eq_Inr list_ex_iff image_subset_iff split: if_splits)
qed

section \<open>Candidates under their identities\<close>

definition keyed_ok :: "(uuid, candidate_event) dict \<Rightarrow> bool" where
  "keyed_ok d \<longleftrightarrow> dict_ok d \<and> (\<forall>i e. dict_get d i = Some e \<longrightarrow> e_candidate_id e = i)"

lemma keyed_values_get: "keyed_ok d \<Longrightarrow> e \<in> set (dict_values d) \<longleftrightarrow> dict_get d (e_candidate_id e) = Some e"
  unfolding keyed_ok_def by (auto simp: dict_values_set)

lemma keyed_values_distinct: "keyed_ok d \<Longrightarrow> distinct (map e_candidate_id (dict_values d))"
proof -
  assume k: "keyed_ok d"
  then have "map e_candidate_id (dict_values d) = map fst d"
    by (auto simp: dict_values_def keyed_ok_def dict_in_iff_get [symmetric])
  with k show ?thesis by (simp add: keyed_ok_def dict_ok_def)
qed

lemma keyed_dict_by:
  "distinct (map e_candidate_id es) \<Longrightarrow>
     keyed_ok (dict_by e_candidate_id es) \<and> dict_values (dict_by e_candidate_id es) = es"
  by (auto simp: keyed_ok_def dict_by_values dest: dict_get_by_SomeD)

lemma keyed_set: "keyed_ok d \<Longrightarrow> e_candidate_id e = i \<Longrightarrow> keyed_ok (dict_set d i e)"
  by (auto simp: keyed_ok_def split: if_splits)

lemma keyed_values_set:
  "keyed_ok d \<Longrightarrow> e_candidate_id e = i \<Longrightarrow>
     set (dict_values (dict_set d i e)) = insert e {e' \<in> set (dict_values d). e_candidate_id e' \<noteq> i}"
  by (auto simp: dict_values_set keyed_ok_def split: if_splits)

section \<open>Resolving the open candidates of a stream\<close>

definition resolution :: "('x) state_ids_scheme \<Rightarrow> utc \<Rightarrow> candidate_event \<Rightarrow> candidate_transition" where
  "resolution I processed_at e =
     \<lparr>t_transition_id = analytical_candidate_transition_id I (e_candidate_id e) (e_status e) RESOLVED
        processed_at SystemEvidence,
      t_candidate_id = e_candidate_id e, t_from_status = e_status e, t_to_status = RESOLVED,
      t_recorded_at = processed_at, t_actor = SystemEvidence\<rparr>"

lemma resolution_simps [simp]:
  "t_candidate_id (resolution I p e) = e_candidate_id e"
  "t_from_status (resolution I p e) = e_status e"
  "t_to_status (resolution I p e) = RESOLVED"
  "t_recorded_at (resolution I p e) = p"
  "t_transition_id (resolution I p e) =
     uuid_transition I (e_candidate_id e, e_status e, RESOLVED, p, SystemEvidence)"
  by (simp_all add: resolution_def analytical_candidate_transition_id_def)

lemma candidate_transition_of_resolved:
  "e_status e \<noteq> RESOLVED \<Longrightarrow>
     candidate_transition_of I e RESOLVED p SystemEvidence = Inr (resolution I p e)"
  by (simp add: candidate_transition_of_def validate_transition_def resolution_def)

lemma resolve_candidates_Inr:
  assumes "\<forall>e \<in> set es. e_status e \<noteq> RESOLVED"
  shows "resolve_candidates I p es lc = Inr
     (lc\<lparr>lc_candidates := fold (\<lambda>e d. dict_set d (e_candidate_id e) (e\<lparr>e_status := RESOLVED\<rparr>)) es
           (lc_candidates lc),
         lc_transitions := lc_transitions lc @ map (resolution I p) es,
         lc_resolved := lc_resolved lc + length es\<rparr>)"
  using assms
  by (induction es arbitrary: lc) (simp_all add: candidate_transition_of_resolved)

text \<open>The candidate map after resolving \<open>es\<close>, seen through lookups.\<close>

lemma resolve_get:
  assumes "keyed_ok d" and "distinct (map e_candidate_id es)" and "set es \<subseteq> set (dict_values d)"
  defines "d' \<equiv> fold (\<lambda>e d. dict_set d (e_candidate_id e) (e\<lparr>e_status := RESOLVED\<rparr>)) es d"
  shows "keyed_ok d'"
    and "dict_get d' i = (case dict_get d i of
        Some e \<Rightarrow> Some (if e \<in> set es then e\<lparr>e_status := RESOLVED\<rparr> else e) | None \<Rightarrow> None)"
proof -
  have ok: "dict_ok d" using assms(1) by (simp add: keyed_ok_def)
  show get: "dict_get d' i = (case dict_get d i of
        Some e \<Rightarrow> Some (if e \<in> set es then e\<lparr>e_status := RESOLVED\<rparr> else e) | None \<Rightarrow> None)" for i
  proof (cases "i \<in> e_candidate_id ` set es")
    case True
    then obtain e where e: "e \<in> set es" "i = e_candidate_id e" by blast
    then have "dict_get d i = Some e" using assms(1,3) by (auto simp: keyed_values_get)
    moreover have "dict_get d' i = Some (e\<lparr>e_status := RESOLVED\<rparr>)"
      unfolding d'_def e(2) by (rule pydict.lookup_store_all_same [OF ok assms(2) e(1)])
    ultimately show ?thesis using e(1) by simp
  next
    case False
    then have "dict_get d' i = dict_get d i"
      unfolding d'_def by (rule pydict.lookup_store_all_other [OF ok])
    moreover have "e \<notin> set es" if "dict_get d i = Some e" for e
      using that False assms(1) by (auto simp: keyed_ok_def)
    ultimately show ?thesis by (auto split: option.split)
  qed
  have "dict_ok d'" unfolding d'_def by (rule pydict.ok_store_all [OF ok])
  then show "keyed_ok d'"
    using assms(1) by (auto simp: keyed_ok_def get split: option.splits)
qed

lemma resolve_values:
  assumes "keyed_ok d" and "distinct (map e_candidate_id es)" and "set es \<subseteq> set (dict_values d)"
  shows "set (dict_values (fold (\<lambda>e d. dict_set d (e_candidate_id e) (e\<lparr>e_status := RESOLVED\<rparr>)) es d))
     = (\<lambda>e. if e \<in> set es then e\<lparr>e_status := RESOLVED\<rparr> else e) ` set (dict_values d)"
proof -
  have ok: "dict_ok d" using assms(1) by (simp add: keyed_ok_def)
  let ?d = "fold (\<lambda>e d. dict_set d (e_candidate_id e) (e\<lparr>e_status := RESOLVED\<rparr>)) es d"
  have okd: "dict_ok ?d" using resolve_get(1) [OF assms] by (simp add: keyed_ok_def)
  show ?thesis (is "_ = ?f ` _")
  proof (intro set_eqI iffI)
    fix v assume "v \<in> set (dict_values ?d)"
    then obtain k e where "dict_get d k = Some e" "v = ?f e"
      by (auto simp: dict_values_set [OF okd] resolve_get(2) [OF assms] split: option.splits)
    then show "v \<in> ?f ` set (dict_values d)" by (auto simp: dict_values_set [OF ok])
  next
    fix v assume "v \<in> ?f ` set (dict_values d)"
    then obtain k e where "dict_get d k = Some e" and v: "v = ?f e"
      by (auto simp: dict_values_set [OF ok])
    then have "dict_get ?d k = Some v" by (simp add: resolve_get(2) [OF assms])
    then show "v \<in> set (dict_values ?d)" by (auto simp: dict_values_set [OF okd])
  qed
qed

end
