(* ===== verification/CandidateLifecycle.thy ===== *)
theory CandidateLifecycle
  imports CandidateInvariants
begin

text \<open>
  The lifecycle step of one result, inverted into its three outcomes (nothing, the open
  candidates of the stream resolved, one candidate activated), and what a run of steps keeps:
  at most one open candidate per stream, activations apart by the cooldown, statuses that agree
  with their transitions, and events that passed their validator.
\<close>

section \<open>Streams\<close>

definition stream :: "candidate_event \<Rightarrow> string \<times> string \<times> string" where
  "stream e = (e_rule_fingerprint e, e_asset_id e, e_source_id e)"

definition result_stream :: "('x) state_ids_scheme \<Rightarrow> screening_result \<Rightarrow> string \<times> string \<times> string" where
  "result_stream I s = (rule_fingerprint I (s_rule s), s_asset_id s, s_source_id s)"

lemma same_stream_iff: "same_stream I e s \<longleftrightarrow> stream e = result_stream I s"
  by (auto simp: same_stream_def stream_def result_stream_def)

text \<open>Two candidates of one stream never interfere: one is resolved, and their cooldowns do not overlap.\<close>

definition apart :: "candidate_event \<Rightarrow> candidate_event \<Rightarrow> bool" where
  "apart e e' \<longleftrightarrow> (e_status e = RESOLVED \<or> e_status e' = RESOLVED) \<and>
     (e_cooldown_until e \<le> e_activated_at e' \<or> e_cooldown_until e' \<le> e_activated_at e)"

definition streams_ok :: "candidate_event set \<Rightarrow> bool" where
  "streams_ok E \<longleftrightarrow> (\<forall>e \<in> E. \<forall>e' \<in> E.
     stream e = stream e' \<longrightarrow> e_candidate_id e \<noteq> e_candidate_id e' \<longrightarrow> apart e e')"

lemma streams_ok_empty [simp]: "streams_ok {}"
  by (simp add: streams_ok_def)

lemma streams_ok_insert:
  assumes "streams_ok E"
    and "\<And>e'. e' \<in> E \<Longrightarrow> stream e' = stream e \<Longrightarrow>
      e_status e' = RESOLVED \<and> e_cooldown_until e' \<le> e_activated_at e"
  shows "streams_ok (insert e E)"
  using assms unfolding streams_ok_def apart_def by (metis insert_iff)

lemma streams_ok_image:
  assumes "streams_ok E"
    and "\<And>e. e \<in> E \<Longrightarrow> stream (f e) = stream e \<and> e_candidate_id (f e) = e_candidate_id e \<and>
      e_activated_at (f e) = e_activated_at e \<and> e_cooldown_until (f e) = e_cooldown_until e \<and>
      (e_status e = RESOLVED \<longrightarrow> e_status (f e) = RESOLVED)"
  shows "streams_ok (f ` E)"
  using assms unfolding streams_ok_def apart_def by (metis (no_types, lifting) imageE)

lemma stream_status [simp]: "stream (e\<lparr>e_status := s\<rparr>) = stream e"
  by (simp add: stream_def)

lemma validate_event_status [simp]:
  "validate_event I (e\<lparr>e_status := s\<rparr>) = Inr (e\<lparr>e_status := s\<rparr>) \<longleftrightarrow> validate_event I e = Inr e"
  by (simp add: validate_event_def)

section \<open>The three outcomes of a step\<close>

definition open_of :: "('x) state_ids_scheme \<Rightarrow> screening_result \<Rightarrow> lifecycle \<Rightarrow> candidate_event list" where
  "open_of I s lc = filter (\<lambda>e. same_stream I e s \<and> e_status e \<noteq> RESOLVED) (dict_values (lc_candidates lc))"

definition resolved_lifecycle ::
  "('x) state_ids_scheme \<Rightarrow> utc \<Rightarrow> candidate_event list \<Rightarrow> lifecycle \<Rightarrow> lifecycle" where
  "resolved_lifecycle I p es lc =
     lc\<lparr>lc_candidates := fold (\<lambda>e d. dict_set d (e_candidate_id e) (e\<lparr>e_status := RESOLVED\<rparr>)) es
          (lc_candidates lc),
        lc_transitions := lc_transitions lc @ map (resolution I p) es,
        lc_resolved := lc_resolved lc + length es\<rparr>"

definition opened_lifecycle :: "candidate_event \<Rightarrow> lifecycle \<Rightarrow> lifecycle" where
  "opened_lifecycle e lc =
     lc\<lparr>lc_candidates := dict_set (lc_candidates lc) (e_candidate_id e) e,
        lc_created := lc_created lc @ [e]\<rparr>"

text \<open>When a result may open a candidate.\<close>

definition may_open ::
  "('x) state_ids_scheme \<Rightarrow> utc \<Rightarrow> screening_result list \<Rightarrow> screening_result \<Rightarrow> lifecycle \<Rightarrow> bool" where
  "may_open I p rs s lc \<longleftrightarrow> s_activated s \<and> s_as_of s \<noteq> None \<and>
     r_confirmations_required (s_rule s) \<le> int (confirmation_count I rs s) \<and>
     (\<forall>e \<in> set (dict_values (lc_candidates lc)). same_stream I e s \<longrightarrow> e_cooldown_until e \<le> p)"

lemma lifecycle_step_unfold:
  "lifecycle_step I p rs s lc =
     (if open_of I s lc \<noteq> [] then
        Inr (if s_retained s = Some False then resolved_lifecycle I p (open_of I s lc) lc else lc)
      else if \<not> may_open I p rs s lc then Inr lc
      else
        (let e = activation_event I s (the (s_as_of s)) p (confirmation_count I rs s) in
         bind_r (validate_event I e) (\<lambda>e.
           case dict_get (lc_candidates lc) (e_candidate_id e) of
             Some existing \<Rightarrow>
               (if candidate_fingerprint I existing \<noteq> candidate_fingerprint I e
                  then Inl (StateError ''candidate recomputation changed deterministic semantics'')
                else Inr lc)
           | None \<Rightarrow> Inr (opened_lifecycle e lc))))"
proof (cases "open_of I s lc = []")
  case False
  have "\<forall>e \<in> set (open_of I s lc). e_status e \<noteq> RESOLVED" by (simp add: open_of_def)
  with False show ?thesis
    unfolding lifecycle_step_def Let_def open_of_def [symmetric]
    by (simp add: resolve_candidates_Inr resolved_lifecycle_def)
next
  case True
  show ?thesis
  proof (cases "s_as_of s")
    case None
    with True show ?thesis
      unfolding lifecycle_step_def Let_def open_of_def [symmetric] by (simp add: may_open_def)
  next
    case (Some as_of)
    have cool: "(filter (\<lambda>e. same_stream I e s) xs \<noteq> [] \<and>
        list_ex (\<lambda>e. p < e_cooldown_until e) (filter (\<lambda>e. same_stream I e s) xs)) \<longleftrightarrow>
      \<not> (\<forall>e \<in> set xs. same_stream I e s \<longrightarrow> e_cooldown_until e \<le> p)" for xs
      by (auto simp: list_ex_iff filter_empty_conv not_le)
    show ?thesis
      unfolding lifecycle_step_def Let_def open_of_def [symmetric] opened_lifecycle_def
      using True Some by (simp add: cool may_open_def not_less)
  qed
qed

lemma lifecycle_step_cases:
  assumes "lifecycle_step I p rs s lc = Inr lc'"
  obtains (kept) "lc' = lc"
  | (resolved) "s_retained s = Some False" "lc' = resolved_lifecycle I p (open_of I s lc) lc"
  | (opened) e where "open_of I s lc = []" "may_open I p rs s lc"
      "e = activation_event I s (the (s_as_of s)) p (confirmation_count I rs s)"
      "validate_event I e = Inr e" "dict_get (lc_candidates lc) (e_candidate_id e) = None"
      "lc' = opened_lifecycle e lc"
proof -
  let ?e = "activation_event I s (the (s_as_of s)) p (confirmation_count I rs s)"
  have ve: "validate_event I ?e = Inr x \<Longrightarrow> x = ?e" for x
    by (simp add: validate_event_def split: if_splits)
  show ?thesis
  proof (cases "open_of I s lc \<noteq> [] \<or> \<not> may_open I p rs s lc")
    case True
    with assms show ?thesis
      unfolding lifecycle_step_unfold by (auto split: if_splits intro: that(1,2))
  next
    case False
    then have *: "lifecycle_step I p rs s lc = bind_r (validate_event I ?e) (\<lambda>e.
           case dict_get (lc_candidates lc) (e_candidate_id e) of
             Some existing \<Rightarrow>
               (if candidate_fingerprint I existing \<noteq> candidate_fingerprint I e
                  then Inl (StateError ''candidate recomputation changed deterministic semantics'')
                else Inr lc)
           | None \<Rightarrow> Inr (opened_lifecycle e lc))"
      by (simp add: lifecycle_step_unfold Let_def)
    with assms obtain x where x: "validate_event I ?e = Inr x" by (auto simp: bind_r_eq_Inr)
    with ve have "validate_event I ?e = Inr ?e" by simp
    with assms False show ?thesis
      unfolding * by (auto split: if_splits option.splits intro: that(1) that(3) [OF _ _ refl])
  qed
qed

section \<open>What a step keeps\<close>

definition events_ok :: "('x) state_ids_scheme \<Rightarrow> candidate_event set \<Rightarrow> bool" where
  "events_ok I E \<longleftrightarrow> (\<forall>e \<in> E. validate_event I e = Inr e)"

definition candidates_ok :: "('x) state_ids_scheme \<Rightarrow> lifecycle \<Rightarrow> bool" where
  "candidates_ok I lc \<longleftrightarrow> keyed_ok (lc_candidates lc) \<and>
     streams_ok (set (dict_values (lc_candidates lc))) \<and>
     events_ok I (set (dict_values (lc_candidates lc)))"

lemma open_of_props:
  assumes "keyed_ok (lc_candidates lc)"
  shows "distinct (map e_candidate_id (open_of I s lc))"
    and "set (open_of I s lc) \<subseteq> set (dict_values (lc_candidates lc))"
  using keyed_values_distinct [OF assms] by (auto simp: open_of_def distinct_map_filter)

lemma resolved_values:
  assumes "keyed_ok (lc_candidates lc)"
  shows "keyed_ok (lc_candidates (resolved_lifecycle I p (open_of I s lc) lc))"
    and "set (dict_values (lc_candidates (resolved_lifecycle I p (open_of I s lc) lc))) =
      (\<lambda>e. if e \<in> set (open_of I s lc) then e\<lparr>e_status := RESOLVED\<rparr> else e) `
        set (dict_values (lc_candidates lc))"
  using resolve_get(1) [OF assms open_of_props [OF assms]] resolve_values [OF assms open_of_props [OF assms]]
  by (simp_all add: resolved_lifecycle_def)

lemma opened_values:
  assumes "keyed_ok (lc_candidates lc)" and "dict_get (lc_candidates lc) (e_candidate_id e) = None"
  shows "keyed_ok (lc_candidates (opened_lifecycle e lc))"
    and "set (dict_values (lc_candidates (opened_lifecycle e lc))) =
      insert e (set (dict_values (lc_candidates lc)))"
  using assms keyed_values_get [OF assms(1)]
  by (auto simp: opened_lifecycle_def keyed_set keyed_values_set)

lemma lifecycle_step_keeps:
  assumes "lifecycle_step I p rs s lc = Inr lc'" and "candidates_ok I lc"
  shows "candidates_ok I lc'"
  using assms(1)
proof (cases rule: lifecycle_step_cases)
  case kept
  with assms(2) show ?thesis by simp
next
  case resolved
  from assms(2) have k: "keyed_ok (lc_candidates lc)" by (simp add: candidates_ok_def)
  let ?f = "\<lambda>e. if e \<in> set (open_of I s lc) then e\<lparr>e_status := RESOLVED\<rparr> else e"
  have "streams_ok (?f ` set (dict_values (lc_candidates lc)))"
    using assms(2) by (intro streams_ok_image) (auto simp: candidates_ok_def)
  moreover have "events_ok I (?f ` set (dict_values (lc_candidates lc)))"
    using assms(2) by (auto simp: candidates_ok_def events_ok_def)
  ultimately show ?thesis
    unfolding candidates_ok_def resolved(2) resolved_values(2) [OF k]
    using resolved_values(1) [OF k] by simp
next
  case (opened e)
  from assms(2) have k: "keyed_ok (lc_candidates lc)" by (simp add: candidates_ok_def)
  have "e_status e' = RESOLVED \<and> e_cooldown_until e' \<le> e_activated_at e"
    if "e' \<in> set (dict_values (lc_candidates lc))" "stream e' = stream e" for e'
  proof -
    have "stream e = result_stream I s" and act: "e_activated_at e = p"
      by (simp_all add: opened(3) activation_event_def stream_def result_stream_def)
    with that have same: "same_stream I e' s" by (simp add: same_stream_iff)
    with that(1) opened(1) have "e_status e' = RESOLVED"
      by (auto simp: open_of_def filter_empty_conv)
    with that(1) same opened(2) act show ?thesis by (auto simp: may_open_def)
  qed
  then show ?thesis
    unfolding candidates_ok_def opened(6) opened_values(2) [OF k opened(5)]
    using assms(2) opened(4) opened_values(1) [OF k opened(5)]
    by (auto simp: candidates_ok_def events_ok_def intro!: streams_ok_insert)
qed

lemma lifecycle_steps_keep:
  "lifecycle_steps I p rs ss lc = Inr lc' \<Longrightarrow> candidates_ok I lc \<Longrightarrow> candidates_ok I lc'"
  by (induction ss arbitrary: lc) (auto simp: bind_r_eq_Inr dest: lifecycle_step_keeps)

section \<open>A whole run of steps\<close>

lemma lifecycle_steps_invariant:
  assumes "lifecycle_steps I p rs ss lc = Inr lc'" and "P lc"
    and "\<And>s lc lc'. s \<in> set ss \<Longrightarrow> P lc \<Longrightarrow> lifecycle_step I p rs s lc = Inr lc' \<Longrightarrow> P lc'"
  shows "P lc'"
  using assms by (induction ss arbitrary: lc) (auto simp: bind_r_eq_Inr)

definition later :: "candidate_event \<Rightarrow> candidate_event \<Rightarrow> bool" where
  \<comment> \<open>the same candidate, with its status kept or resolved\<close>
  "later e e' \<longleftrightarrow> e' = e \<or> e' = e\<lparr>e_status := RESOLVED\<rparr>"

lemma later_simps:
  "later e e"
  "later e e' \<Longrightarrow> later e (e'\<lparr>e_status := RESOLVED\<rparr>)"
  "later e e' \<Longrightarrow> e_candidate_id e' = e_candidate_id e"
  "later e e' \<Longrightarrow> e_activation_result_id e' = e_activation_result_id e"
  by (auto simp: later_def)

lemma of_candidate_resolutions:
  "distinct (map e_candidate_id es) \<Longrightarrow>
     of_candidate i (map (resolution I p) es) =
       (case find (\<lambda>e. e_candidate_id e = i) es of None \<Rightarrow> [] | Some e \<Rightarrow> [resolution I p e])"
proof (induction es)
  case (Cons e es)
  have "find (\<lambda>x. e_candidate_id x = i) es = None" if "e_candidate_id e = i"
    using Cons.prems that by (fastforce simp: find_None_iff image_iff)
  with Cons show ?case by simp
qed simp

lemma statuses_ok_resolve:
  assumes "statuses_ok V ts" and "distinct (map e_candidate_id V)" and "set es \<subseteq> set V"
    and "distinct (map e_candidate_id es)"
    and "set V' = (\<lambda>e. if e \<in> set es then e\<lparr>e_status := RESOLVED\<rparr> else e) ` set V"
  shows "statuses_ok V' (ts @ map (resolution I p) es)"
proof -
  have "chain NEW (of_candidate (e_candidate_id e) (ts @ map (resolution I p) es)) =
      Some (if e \<in> set es then RESOLVED else e_status e)" if e: "e \<in> set V" for e
  proof -
    have c: "chain NEW (of_candidate (e_candidate_id e) ts) = Some (e_status e)"
      using assms(1) e by (simp add: statuses_ok_def)
    show ?thesis
    proof (cases "e \<in> set es")
      case True
      then have "find (\<lambda>x. e_candidate_id x = e_candidate_id e) es = Some e"
        using assms(4) by (induction es) auto
      with c True show ?thesis by (simp add: chain_append of_candidate_resolutions [OF assms(4)])
    next
      case False
      then have "find (\<lambda>x. e_candidate_id x = e_candidate_id e) es = None"
        using assms(2,3) e by (auto simp: find_None_iff distinct_map dest: inj_onD)
      with c False show ?thesis by (simp add: chain_append of_candidate_resolutions [OF assms(4)])
    qed
  qed
  then show ?thesis unfolding statuses_ok_def assms(5) by auto
qed

lemma statuses_ok_open:
  assumes "statuses_ok V ts" and "set V' = insert e (set V)" and "e_status e = NEW"
    and "e_candidate_id e \<notin> t_candidate_id ` set ts"
  shows "statuses_ok V' ts"
proof -
  have "of_candidate (e_candidate_id e) ts = []"
    using assms(4) by (force simp: of_candidate_def filter_empty_conv)
  with assms show ?thesis by (auto simp: statuses_ok_def)
qed

text \<open>
  What is known in the middle of recording: the base state's candidates are still there, changed
  at most to resolved; the others were created in this run; the new transitions are resolutions
  of distinct candidates, now resolved; and the statuses agree with the transitions.
\<close>

definition run_ok ::
  "('x) state_ids_scheme \<Rightarrow> utc \<Rightarrow> candidate_event list \<Rightarrow> candidate_transition list \<Rightarrow> uuid set \<Rightarrow>
     lifecycle \<Rightarrow> bool" where
  "run_ok I p es ts R lc \<longleftrightarrow>
     candidates_ok I lc \<and>
     statuses_ok (dict_values (lc_candidates lc)) (ts @ lc_transitions lc) \<and>
     t_candidate_id ` set (ts @ lc_transitions lc)
       \<subseteq> e_candidate_id ` set (dict_values (lc_candidates lc)) \<and>
     e_activation_result_id ` set (dict_values (lc_candidates lc)) \<subseteq> R \<and>
     (\<forall>t \<in> set (lc_transitions lc). \<exists>e \<in> set (dict_values (lc_candidates lc)). \<exists>e0.
        e_status e = RESOLVED \<and> e_status e0 \<noteq> RESOLVED \<and> later e0 e \<and> t = resolution I p e0) \<and>
     distinct (map t_candidate_id (lc_transitions lc)) \<and>
     (\<forall>e \<in> set es. \<exists>e' \<in> set (dict_values (lc_candidates lc)). later e e') \<and>
     (\<forall>e' \<in> set (dict_values (lc_candidates lc)). \<exists>e \<in> set es \<union> set (lc_created lc). later e e')"

lemma run_okD:
  assumes "run_ok I p es ts R lc"
  shows "candidates_ok I lc"
    and "statuses_ok (dict_values (lc_candidates lc)) (ts @ lc_transitions lc)"
    and "t_candidate_id ` set (ts @ lc_transitions lc)
       \<subseteq> e_candidate_id ` set (dict_values (lc_candidates lc))"
    and "e_activation_result_id ` set (dict_values (lc_candidates lc)) \<subseteq> R"
    and "\<And>t. t \<in> set (lc_transitions lc) \<Longrightarrow> \<exists>e \<in> set (dict_values (lc_candidates lc)). \<exists>e0.
        e_status e = RESOLVED \<and> e_status e0 \<noteq> RESOLVED \<and> later e0 e \<and> t = resolution I p e0"
    and "distinct (map t_candidate_id (lc_transitions lc))"
    and "\<And>e. e \<in> set es \<Longrightarrow> \<exists>e' \<in> set (dict_values (lc_candidates lc)). later e e'"
    and "\<And>e'. e' \<in> set (dict_values (lc_candidates lc)) \<Longrightarrow>
        \<exists>e \<in> set es \<union> set (lc_created lc). later e e'"
    and "keyed_ok (lc_candidates lc)"
  using assms by (simp_all only: run_ok_def candidates_ok_def bex_simps)

lemma run_ok_resolved:
  assumes "run_ok I p es ts R lc"
  shows "candidates_ok I (resolved_lifecycle I p (open_of I s lc) lc) \<Longrightarrow>
    run_ok I p es ts R (resolved_lifecycle I p (open_of I s lc) lc)"
proof -
  let ?V = "dict_values (lc_candidates lc)" and ?es = "open_of I s lc"
  let ?f = "\<lambda>e. if e \<in> set ?es then e\<lparr>e_status := RESOLVED\<rparr> else e"
  let ?lc = "resolved_lifecycle I p ?es lc"
  let ?V' = "dict_values (lc_candidates ?lc)"
  assume ok: "candidates_ok I ?lc"
  have k: "keyed_ok (lc_candidates lc)" by (rule run_okD(9) [OF assms])
  note V' = resolved_values(2) [OF k, of I p s]
  note es = open_of_props [OF k, of I s]
  have tr: "lc_transitions ?lc = lc_transitions lc @ map (resolution I p) ?es"
    and created: "lc_created ?lc = lc_created lc"
    by (simp_all add: resolved_lifecycle_def)
  have ids: "e_candidate_id ` set ?V' = e_candidate_id ` set ?V"
    unfolding V' image_image by (rule image_cong) auto
  have st: "statuses_ok ?V' ((ts @ lc_transitions lc) @ map (resolution I p) ?es)"
    by (rule statuses_ok_resolve [OF run_okD(2) [OF assms] keyed_values_distinct [OF k] es(2,1) V'])
  have tids: "t_candidate_id ` set (ts @ lc_transitions ?lc) \<subseteq> e_candidate_id ` set ?V'"
    using run_okD(3) [OF assms] es(2) unfolding ids tr by auto
  have refs: "e_activation_result_id ` set ?V' \<subseteq> R"
    using run_okD(4) [OF assms] unfolding V' by auto
  have open_status: "e_status e \<noteq> RESOLVED" if "e \<in> set ?es" for e
    using that by (simp add: open_of_def)
  have old: "\<exists>e \<in> set ?V'. \<exists>e0. e_status e = RESOLVED \<and> e_status e0 \<noteq> RESOLVED \<and> later e0 e \<and>
      t = resolution I p e0" if "t \<in> set (lc_transitions lc)" for t
  proof -
    from run_okD(5) [OF assms that] obtain e e0 where e: "e \<in> set ?V" "e_status e = RESOLVED"
      "e_status e0 \<noteq> RESOLVED" "later e0 e" "t = resolution I p e0" by blast
    with open_status have "?f e = e" by auto
    with e(1) have "e \<in> set ?V'" unfolding V' by (intro image_eqI [of _ _ e]) simp_all
    with e show ?thesis by blast
  qed
  have new: "\<exists>e \<in> set ?V'. \<exists>e0. e_status e = RESOLVED \<and> e_status e0 \<noteq> RESOLVED \<and> later e0 e \<and>
      t = resolution I p e0" if "t \<in> resolution I p ` set ?es" for t
  proof -
    from that obtain e where e: "e \<in> set ?es" "t = resolution I p e" by blast
    then have "e\<lparr>e_status := RESOLVED\<rparr> \<in> set ?V'"
      using es(2) unfolding V' by (intro image_eqI [of _ _ e]) auto
    with e open_status [OF e(1)] show ?thesis by (force simp: later_def)
  qed
  have disj: "t_candidate_id t \<noteq> e_candidate_id e" if "t \<in> set (lc_transitions lc)" "e \<in> set ?es" for t e
  proof
    assume eq: "t_candidate_id t = e_candidate_id e"
    from run_okD(5) [OF assms that(1)] obtain e1 e0 where e1: "e1 \<in> set ?V"
      "e_status e1 = RESOLVED" "later e0 e1" "t = resolution I p e0" by blast
    then have "e_candidate_id e1 = e_candidate_id e" using eq by (simp add: later_simps(3))
    with e1(1) es(2) that(2) have "e1 = e" using k by (auto simp: keyed_values_get)
    with e1(2) open_status [OF that(2)] show False by simp
  qed
  have dist: "distinct (map t_candidate_id (lc_transitions ?lc))"
    using run_okD(6) [OF assms] es(1) disj unfolding tr by (auto simp: comp_def)
  have base: "\<exists>e' \<in> set ?V'. later e e'" if "e \<in> set es" for e
  proof -
    from run_okD(7) [OF assms that] obtain e' where "e' \<in> set ?V" "later e e'" by blast
    then show ?thesis unfolding V' by (intro bexI [of _ "?f e'"]) (auto simp: later_simps)
  qed
  have origin: "\<exists>e \<in> set es \<union> set (lc_created ?lc). later e e'" if "e' \<in> set ?V'" for e'
  proof -
    from that obtain e1 where e1: "e1 \<in> set ?V" "e' = ?f e1" unfolding V' by blast
    with run_okD(8) [OF assms] obtain e where "e \<in> set es \<union> set (lc_created lc)" "later e e1"
      by blast
    moreover from this(2) e1(2) have "later e e'" by (simp add: later_simps)
    ultimately show ?thesis unfolding created by blast
  qed
  have trans: "\<exists>e \<in> set ?V'. \<exists>e0. e_status e = RESOLVED \<and> e_status e0 \<noteq> RESOLVED \<and> later e0 e \<and>
      t = resolution I p e0" if "t \<in> set (lc_transitions ?lc)" for t
    using that old new unfolding tr by auto
  show ?thesis
    unfolding run_ok_def
  proof (intro conjI ballI)
    show "statuses_ok ?V' (ts @ lc_transitions ?lc)" using st by (simp add: tr)
  qed (rule ok tids refs dist | erule trans base origin)+
qed

lemma run_ok_opened:
  assumes "run_ok I p es ts R lc" and "candidates_ok I (opened_lifecycle e lc)"
    and "dict_get (lc_candidates lc) (e_candidate_id e) = None"
    and "e_status e = NEW" and "e_activation_result_id e \<in> R"
  shows "run_ok I p es ts R (opened_lifecycle e lc)"
proof -
  have k: "keyed_ok (lc_candidates lc)" using assms(1) by (simp add: run_ok_def candidates_ok_def)
  note V' = opened_values(2) [OF k assms(3)]
  have "e_candidate_id e \<notin> e_candidate_id ` set (dict_values (lc_candidates lc))"
    using assms(3) by (auto simp: keyed_values_get [OF k])
  then have "e_candidate_id e \<notin> t_candidate_id ` set (ts @ lc_transitions lc)"
    using assms(1) unfolding run_ok_def by blast
  then have st: "statuses_ok (dict_values (lc_candidates (opened_lifecycle e lc))) (ts @ lc_transitions lc)"
    using assms(1) by (intro statuses_ok_open [OF _ V' assms(4)]) (auto simp: run_ok_def)
  have tr: "lc_transitions (opened_lifecycle e lc) = lc_transitions lc"
    and created: "lc_created (opened_lifecycle e lc) = lc_created lc @ [e]"
    by (simp_all add: opened_lifecycle_def)
  have "\<forall>e' \<in> insert e (set (dict_values (lc_candidates lc))).
      \<exists>e1 \<in> set es \<union> set (lc_created lc @ [e]). later e1 e'"
    using assms(1) unfolding run_ok_def by (auto simp: later_simps(1))
  then show ?thesis
    using st assms(1,2,5) unfolding run_ok_def V' tr created by blast
qed

lemma run_ok_step:
  assumes "lifecycle_step I p rs s lc = Inr lc'" and "run_ok I p es ts R lc" and "s_result_id s \<in> R"
  shows "run_ok I p es ts R lc'"
proof -
  have "candidates_ok I lc" using assms(2) by (simp add: run_ok_def)
  note ok = lifecycle_step_keeps [OF assms(1) this]
  from assms(1) show ?thesis
  proof (cases rule: lifecycle_step_cases)
    case kept
    with assms(2) show ?thesis by simp
  next
    case resolved
    with run_ok_resolved [OF assms(2)] ok show ?thesis by simp
  next
    case (opened e)
    have "e_status e = NEW" "e_activation_result_id e = s_result_id s"
      by (simp_all add: opened(3) activation_event_def)
    with run_ok_opened [OF assms(2) _ opened(5)] ok opened(6) assms(3) show ?thesis by simp
  qed
qed

lemma run_ok_steps:
  assumes "lifecycle_steps I p rs ss lc = Inr lc'" and "run_ok I p es ts R lc"
    and "s_result_id ` set ss \<subseteq> R"
  shows "run_ok I p es ts R lc'"
  using assms(1,2)
  by (rule lifecycle_steps_invariant [where P = "run_ok I p es ts R"])
     (use assms(3) in \<open>auto intro: run_ok_step\<close>)

end
