(* ===== verification/CandidateRecording.thy ===== *)
theory CandidateRecording
  imports CandidateLifecycle
begin

text \<open>
  Recording an attempt and moving a candidate, as whole operations: what a successful call
  returns, the state invariant both keep, the store as a step relation, and when recording
  cannot fail.
\<close>

section \<open>Merging the results of an attempt\<close>

lemma merge_results_Inr:
  assumes "merge_results I rs d c = Inr (d', c')"
  shows "\<exists>new. c' = c @ new \<and> d' = d @ map (\<lambda>s. (s_result_id s, s)) new \<and> set new \<subseteq> set rs \<and>
     (dict_ok d \<longrightarrow> dict_ok d') \<and>
     (\<forall>s \<in> set rs. \<exists>v. dict_get d' (s_result_id s) = Some v \<and>
        result_fingerprint I v = result_fingerprint I s)"
  using assms
proof (induction rs arbitrary: d c)
  case (Cons s rs)
  have grow: "dict_get (d @ map (\<lambda>s. (s_result_id s, s)) new) k = Some v"
    if "dict_get d k = Some v" for d k v new
    using that by (simp add: dict_get_def map_add_def)
  show ?case
  proof (cases "dict_get d (s_result_id s)")
    case None
    then have *: "merge_results I rs (d @ [(s_result_id s, s)]) (c @ [s]) = Inr (d', c')"
      using Cons.prems by (simp add: dict_set_fresh)
    from Cons.IH [OF this] obtain new where new: "c' = c @ s # new"
      "d' = (d @ [(s_result_id s, s)]) @ map (\<lambda>s. (s_result_id s, s)) new" "set new \<subseteq> set rs"
      "dict_ok (d @ [(s_result_id s, s)]) \<longrightarrow> dict_ok d'"
      "\<forall>s \<in> set rs. \<exists>v. dict_get d' (s_result_id s) = Some v \<and>
        result_fingerprint I v = result_fingerprint I s" by auto
    have "dict_get (d @ [(s_result_id s, s)]) (s_result_id s) = Some s"
      using None dict_set_fresh [OF None, of s] dict_get_set [of d "s_result_id s" s] by simp
    then have here: "dict_get d' (s_result_id s) = Some s" unfolding new(2) by (rule grow)
    have "dict_ok d \<longrightarrow> dict_ok (d @ [(s_result_id s, s)])"
      using dict_ok_set [of d "s_result_id s" s] by (simp add: dict_set_fresh [OF None])
    with new here show ?thesis by (intro exI [of _ "s # new"]) auto
  next
    case (Some v)
    with Cons.prems have fp: "result_fingerprint I v = result_fingerprint I s"
      and "merge_results I rs d c = Inr (d', c')" by (auto split: if_splits)
    from Cons.IH [OF this(2)] obtain new where new: "c' = c @ new"
      "d' = d @ map (\<lambda>s. (s_result_id s, s)) new" "set new \<subseteq> set rs" "dict_ok d \<longrightarrow> dict_ok d'"
      "\<forall>s \<in> set rs. \<exists>v. dict_get d' (s_result_id s) = Some v \<and>
        result_fingerprint I v = result_fingerprint I s" by auto
    moreover from Some have "dict_get d' (s_result_id s) = Some v" unfolding new(2) by (rule grow)
    ultimately show ?thesis using fp by (intro exI [of _ new]) auto
  qed
qed auto

lemma merge_results_fresh:
  assumes "distinct (map s_result_id rs)" and "\<forall>s \<in> set rs. dict_get d (s_result_id s) = None"
  shows "merge_results I rs d c = Inr (d @ map (\<lambda>s. (s_result_id s, s)) rs, c @ rs)"
  using assms
proof (induction rs arbitrary: d c)
  case (Cons s rs)
  then have "dict_set d (s_result_id s) s = d @ [(s_result_id s, s)]"
    by (simp add: dict_set_fresh)
  moreover have "\<forall>r \<in> set rs. dict_get (dict_set d (s_result_id s) s) (s_result_id r) = None"
    using Cons.prems by (auto simp: image_iff)
  ultimately show ?case using Cons by simp
qed simp

section \<open>What a successful recording returns\<close>

definition recorded_state ::
  "screening_state \<Rightarrow> monitor_receipt \<Rightarrow> screening_result list \<Rightarrow> lifecycle \<Rightarrow> screening_state" where
  "recorded_state st receipt new lc =
     \<lparr>st_results = sort_key result_order (st_results st @ new),
      st_candidates = sort_key candidate_order (dict_values (lc_candidates lc)),
      st_transitions = sort_key transition_order (st_transitions st @ lc_transitions lc),
      st_receipts = sort_key receipt_order (st_receipts st @ [receipt])\<rparr>"

lemma dict_values_by: "distinct (map key xs) \<Longrightarrow> dict_values (dict_by key xs @ map (\<lambda>x. (key x, x)) ys) = xs @ ys"
  by (simp add: dict_values_def dict_by_distinct comp_def)

lemma receipts_extended:
  assumes "history_ok st" and "dict_get (dict_by rc_attempt_id (st_receipts st)) (rc_attempt_id r) = None"
  shows "dict_values (dict_set (dict_by rc_attempt_id (st_receipts st)) (rc_attempt_id r) r) =
    st_receipts st @ [r]"
  using assms dict_values_by [of rc_attempt_id "st_receipts st" "[r]"]
  by (simp add: dict_set_fresh history_ok_def)

lemma record_attempt_cases:
  assumes "record_attempt I st r rs = Inr (out, st', js)" and "history_ok st"
  obtains (replayed) old where "dict_get (dict_by rc_attempt_id (st_receipts st)) (rc_attempt_id r) = Some old"
      "receipt_fingerprint I old = receipt_fingerprint I r" "st' = st" "js = []"
      "ro_receipt_created out = False"
  | (recorded) new lc where
      "dict_get (dict_by rc_attempt_id (st_receipts st)) (rc_attempt_id r) = None"
      "sort (map s_result_id rs) = rc_result_ids r" "set new \<subseteq> set rs"
      "distinct (map s_result_id (st_results st @ new))"
      "s_result_id ` set rs \<subseteq> s_result_id ` set (st_results st @ new)"
      "lifecycle_steps I (rc_processed_at r) (st_results st @ new) (sort_key result_order rs)
         (initial_lifecycle st) = Inr lc"
      "st' = recorded_state st r new lc" "history_ok st'"
      "js = map ResultRecord new @ map CandidateRecord (lc_created lc) @
         map TransitionRecord (lc_transitions lc) @ [ReceiptRecord r]"
      "ro_receipt_created out"
proof (cases "dict_get (dict_by rc_attempt_id (st_receipts st)) (rc_attempt_id r)")
  case (Some old)
  with assms(1) show ?thesis
    by (intro that(1) [OF Some]) (auto simp: record_attempt_def Let_def split: if_splits)
next
  case None
  let ?d0 = "dict_by s_result_id (st_results st)"
  have dist: "distinct (map s_result_id (st_results st))" using assms(2) by (simp add: history_ok_def)
  from assms(1) None have ids: "sort (map s_result_id rs) = rc_result_ids r"
    by (auto simp: record_attempt_def split: if_splits)
  from assms(1) None ids obtain d c lc st1 where
    m: "merge_results I rs ?d0 [] = Inr (d, c)"
    and l: "lifecycle_steps I (rc_processed_at r) (dict_values d) (sort_key result_order rs)
         (initial_lifecycle st) = Inr lc"
    and v: "validate_history
        \<lparr>st_results = sort_key result_order (dict_values d),
         st_candidates = sort_key candidate_order (dict_values (lc_candidates lc)),
         st_transitions = sort_key transition_order (st_transitions st @ lc_transitions lc),
         st_receipts = sort_key receipt_order (dict_values
           (dict_set (dict_by rc_attempt_id (st_receipts st)) (rc_attempt_id r) r))\<rparr> = Inr st1"
    and o: "out = \<lparr>ro_receipt_created = True, ro_results_created = length c,
         ro_candidates_created = length (lc_created lc), ro_candidates_resolved = lc_resolved lc\<rparr>"
    and j: "st' = st1" "js = map ResultRecord c @ map CandidateRecord (lc_created lc) @
         map TransitionRecord (lc_transitions lc) @ [ReceiptRecord r]"
    unfolding record_attempt_def Let_def
    by (simp add: bind_r_eq_Inr split: prod.splits) blast
  from merge_results_Inr [OF m] have d: "d = ?d0 @ map (\<lambda>s. (s_result_id s, s)) c"
    and c: "set c \<subseteq> set rs" and ok: "dict_ok d"
    and cover: "\<forall>s \<in> set rs. \<exists>v. dict_get d (s_result_id s) = Some v"
    by (auto dest: bspec)
  have vals: "dict_values d = st_results st @ c" unfolding d by (rule dict_values_by [OF dist])
  have keys: "map fst d = map s_result_id (st_results st @ c)"
    by (simp add: d dict_by_distinct [OF dist] comp_def)
  have "s_result_id ` set rs \<subseteq> set (map fst d)"
    using cover by (force simp: dict_get_def dest: map_of_SomeD)
  then have rsub: "s_result_id ` set rs \<subseteq> s_result_id ` set (st_results st @ c)"
    unfolding keys by (simp only: set_map)
  have dd: "distinct (map s_result_id (st_results st @ c))"
    using ok unfolding dict_ok_def keys .
  from v have st1: "st1 = recorded_state st r c lc" "history_ok st1"
    by (simp_all add: validate_history_iff recorded_state_def vals receipts_extended [OF assms(2) None])
  show ?thesis
    using that(2) [OF None ids c dd rsub _ _ _ j(2)] l vals st1 j(1) o by simp
qed

section \<open>The state invariant\<close>

definition valid_state :: "('x) state_ids_scheme \<Rightarrow> screening_state \<Rightarrow> bool" where
  "valid_state I st \<longleftrightarrow> history_ok st \<and> streams_ok (set (st_candidates st)) \<and>
     events_ok I (set (st_candidates st)) \<and>
     (\<forall>t \<in> set (st_transitions st). validate_transition I t = Inr t)"

lemma valid_state_historyD: "valid_state I st \<Longrightarrow> history_ok st"
  by (simp add: valid_state_def)

lemma initial_candidates:
  assumes "history_ok st"
  shows "keyed_ok (lc_candidates (initial_lifecycle st))"
    and "dict_values (lc_candidates (initial_lifecycle st)) = st_candidates st"
  using keyed_dict_by [of "st_candidates st"] assms by (auto simp: initial_lifecycle_def history_ok_def)

lemma initial_run_ok:
  assumes "valid_state I st" and "s_result_id ` set (st_results st) \<subseteq> R"
  shows "run_ok I p (st_candidates st) (st_transitions st) R (initial_lifecycle st)"
proof -
  have h: "history_ok st" using assms(1) by (simp add: valid_state_def)
  have "candidates_ok I (initial_lifecycle st)"
    using assms(1) initial_candidates [OF h] by (simp add: candidates_ok_def valid_state_def)
  moreover have "lc_transitions (initial_lifecycle st) = []" "lc_created (initial_lifecycle st) = []"
    by (simp_all add: initial_lifecycle_def)
  moreover have "e_activation_result_id ` set (st_candidates st) \<subseteq> R"
    using h assms(2) unfolding history_ok_def by blast
  moreover have "\<exists>e' \<in> set (st_candidates st). later e e'" "\<exists>e' \<in> set (st_candidates st). later e' e"
    if "e \<in> set (st_candidates st)" for e
    using that later_simps(1) by blast+
  ultimately show ?thesis
    using h unfolding run_ok_def initial_candidates(2) [OF h] by (simp add: history_ok_def)
qed

lemma resolution_valid:
  "e_status e \<noteq> RESOLVED \<Longrightarrow> validate_transition I (resolution I p e) = Inr (resolution I p e)"
  by (simp add: validate_transition_def analytical_candidate_transition_id_def)
     (simp add: resolution_def)

lemma recorded_run_ok:
  assumes "valid_state I st"
    and "lifecycle_steps I (rc_processed_at r) (st_results st @ new) (sort_key result_order rs)
         (initial_lifecycle st) = Inr lc"
    and "s_result_id ` set rs \<subseteq> s_result_id ` set (st_results st @ new)"
  shows "run_ok I (rc_processed_at r) (st_candidates st) (st_transitions st)
    (s_result_id ` set (st_results st @ new)) lc"
  by (rule run_ok_steps [OF assms(2) initial_run_ok [OF assms(1)]]) (use assms(3) in auto)

lemma valid_state_recorded:
  assumes "valid_state I st" and "record_attempt I st r rs = Inr (out, st', js)"
  shows "valid_state I st'"
  using assms(2) valid_state_historyD [OF assms(1)]
proof (cases rule: record_attempt_cases)
  case replayed
  with assms(1) show ?thesis by simp
next
  case (recorded new lc)
  note run = recorded_run_ok [OF assms(1) recorded(6,5)]
  have "\<forall>t \<in> set (lc_transitions lc). validate_transition I t = Inr t"
    using run_okD(5) [OF run] resolution_valid by blast
  then show ?thesis
    using run_okD(1) [OF run] assms(1) recorded(8)
    by (auto simp: valid_state_def recorded(7) recorded_state_def candidates_ok_def)
qed

section \<open>User transitions\<close>

lemma replace_by_key:
  assumes "a \<in> S" and "key a = k" and "\<And>x. x \<in> S \<Longrightarrow> key x = k \<Longrightarrow> x = a"
  shows "insert b {x \<in> S. key x \<noteq> k} = (\<lambda>x. if x = a then b else x) ` S"
proof -
  from assms have "{x \<in> S. key x \<noteq> k} = S - {a}" by blast
  with assms(1) show ?thesis by auto
qed

lemma transition_cases:
  assumes "transition I st cid to recorded = Inr (e, changed, st', js)" and "history_ok st"
  obtains (same) "e \<in> set (st_candidates st)" "e_candidate_id e = cid" "e_status e = to"
      "changed = False" "st' = st" "js = []"
  | (moved) e0 w off t where "recorded = Aware w off" "e0 \<in> set (st_candidates st)"
      "e_candidate_id e0 = cid" "to \<in> set (allowed_transitions (e_status e0))"
      "to \<noteq> NEW" "candidate_transition_of I e0 to (w - off) LocalUser = Inr t"
      "e = e0\<lparr>e_status := to\<rparr>" "changed" "js = [TransitionRecord t]" "history_ok st'"
      "st_results st' = st_results st" "st_receipts st' = st_receipts st"
      "set (st_candidates st') = (\<lambda>x. if x = e0 then e else x) ` set (st_candidates st)"
      "st_transitions st' = sort_key transition_order (st_transitions st @ [t])"
proof -
  let ?d = "dict_by e_candidate_id (st_candidates st)"
  have k: "keyed_ok ?d" and vals: "dict_values ?d = st_candidates st"
    using keyed_dict_by [of "st_candidates st"] assms(2) by (auto simp: history_ok_def)
  from assms(1) obtain w off e0 where rec: "recorded = Aware w off" and to: "to \<noteq> NEW"
    and e0: "dict_get ?d cid = Some e0"
    by (auto simp: transition_def Let_def split: py_datetime.splits if_splits option.splits)
  then have e0': "e0 \<in> set (st_candidates st)" "e_candidate_id e0 = cid"
    by (auto dest: dict_get_by_SomeD)
  show ?thesis
  proof (cases "e_status e0 = to")
    case True
    with assms(1) rec to e0 have "e = e0" "changed = False" "st' = st" "js = []"
      by (simp_all add: transition_def Let_def)
    with that(1) e0' True show ?thesis by simp
  next
    case False
    with assms(1) rec to e0 obtain t where allowed: "to \<in> set (allowed_transitions (e_status e0))"
      and t: "candidate_transition_of I e0 to (w - off) LocalUser = Inr t"
      and v: "validate_history
         \<lparr>st_results = st_results st,
          st_candidates = sort_key candidate_order (dict_values (dict_set ?d cid (e0\<lparr>e_status := to\<rparr>))),
          st_transitions = sort_key transition_order (st_transitions st @ [t]),
          st_receipts = st_receipts st\<rparr> = Inr st'"
      and out: "e = e0\<lparr>e_status := to\<rparr>" "changed" "js = [TransitionRecord t]"
      by (auto simp: transition_def Let_def bind_r_eq_Inr split: if_splits)
    have "set (dict_values (dict_set ?d cid e)) =
        insert e {x \<in> set (st_candidates st). e_candidate_id x \<noteq> cid}"
      using keyed_values_set [OF k, of e cid] e0'(2) out(1) by (simp add: vals)
    also have "\<dots> = (\<lambda>x. if x = e0 then e else x) ` set (st_candidates st)"
    proof (rule replace_by_key [where key = e_candidate_id, OF e0'])
      show "x = e0" if "x \<in> set (st_candidates st)" "e_candidate_id x = cid" for x
        using that e0 keyed_values_get [OF k, of x] by (simp add: vals)
    qed
    finally show ?thesis
      using that(2) [OF rec e0' allowed to t out] v out(1) by (simp add: validate_history_iff)
  qed
qed

lemma candidate_transition_ofD:
  "candidate_transition_of I e to p a = Inr t \<Longrightarrow> validate_transition I t = Inr t \<and>
     t_candidate_id t = e_candidate_id e \<and> t_from_status t = e_status e \<and> t_to_status t = to \<and>
     t_recorded_at t = p \<and> t_actor t = a"
  by (auto simp: candidate_transition_of_def validate_transition_def split: if_splits)

lemma valid_state_moved:
  assumes "valid_state I st" and "transition I st cid to recorded = Inr (e, changed, st', js)"
  shows "valid_state I st'"
  using assms(2) valid_state_historyD [OF assms(1)]
proof (cases rule: transition_cases)
  case same
  with assms(1) show ?thesis by simp
next
  case (moved e0 w off t)
  let ?f = "\<lambda>x. if x = e0 then e else x"
  have "e_status e0 \<noteq> RESOLVED" using moved(4) by auto
  then have "streams_ok (?f ` set (st_candidates st))"
    using assms(1) moved(7) by (intro streams_ok_image) (auto simp: valid_state_def)
  moreover have "events_ok I (?f ` set (st_candidates st))"
    using assms(1) moved(2,7) by (auto simp: valid_state_def events_ok_def)
  moreover have "\<forall>x \<in> set (st_transitions st'). validate_transition I x = Inr x"
    using assms(1) candidate_transition_ofD [OF moved(6)] by (auto simp: moved(14) valid_state_def)
  ultimately show ?thesis
    using moved(10) by (simp add: valid_state_def moved(13))
qed

end
