(* ===== verification/CandidateLiveness.thy ===== *)
theory CandidateLiveness
  imports CandidateRecording
begin

text \<open>
  When recording cannot fail. The validators inside \<^verbatim>\<open>record_attempt\<close> raise if two
  transitions of a candidate are out of order, if identities collide, or if a bound is exceeded;
  for a fresh attempt processed after every recorded transition none of this happens.
\<close>

section \<open>Sorting what is appended later\<close>

lemma sort_key_append_before:
  assumes "\<And>a b. a \<in> set xs \<Longrightarrow> b \<in> set ys \<Longrightarrow> f a < f b"
  shows "sort_key f (xs @ ys) = sort_key f xs @ sort_key f ys"
proof (rule properties_for_sort_key)
  show "sorted (map f (sort_key f xs @ sort_key f ys))"
    using assms by (auto simp: sorted_append intro: less_imp_le)
  show "filter (\<lambda>x. f k = f x) (sort_key f xs @ sort_key f ys) = filter (\<lambda>x. f k = f x) (xs @ ys)" for k
    using sort_key_stable [of f "f k"] by (simp add: eq_commute [of "f k"])
qed simp

lemma of_candidate_sort:
  assumes "distinct (map t_candidate_id ts)"
  shows "of_candidate i (sort_key f ts) = of_candidate i ts"
proof -
  have "length (of_candidate i ts) \<le> 1"
    using assms
  proof (induction ts)
    case (Cons t ts)
    then show ?case
      by (auto simp: of_candidate_def filter_empty_conv image_iff)
  qed simp
  then have "sort_key f (of_candidate i ts) = of_candidate i ts"
    by (auto simp: le_Suc_eq length_Suc_conv)
  then show ?thesis by (simp add: of_candidate_def filter_sort)
qed

section \<open>The steps succeed\<close>

lemma run_ok_mono: "run_ok I p es ts R lc \<Longrightarrow> R \<subseteq> R' \<Longrightarrow> run_ok I p es ts R' lc"
  unfolding run_ok_def by blast

definition step_inputs_ok :: "('x) state_ids_scheme \<Rightarrow> screening_result list \<Rightarrow> screening_result \<Rightarrow> bool" where
  "step_inputs_ok I rs s \<longleftrightarrow> 0 \<le> r_cooldown_seconds (s_rule s) \<and>
     1 \<le> r_confirmations_required (s_rule s) \<and> confirmation_count I rs s \<le> 20"

lemma lifecycle_step_succeeds:
  assumes "run_ok I p es ts R lc" and "s_result_id s \<notin> R"
    and "inj_on (uuid_candidate I) (insert (s_result_id s) R)"
    and "step_inputs_ok I rs s"
  shows "\<exists>lc'. lifecycle_step I p rs s lc = Inr lc'"
proof (cases "open_of I s lc = [] \<and> may_open I p rs s lc")
  case False
  then show ?thesis by (simp add: lifecycle_step_unfold)
next
  case True
  let ?e = "activation_event I s (the (s_as_of s)) p (confirmation_count I rs s)"
  have "0 \<le> seconds (r_cooldown_seconds (s_rule s))"
    using assms(4) by (simp add: step_inputs_ok_def seconds_def second_us_def)
  then have v: "validate_event I ?e = Inr ?e"
    using assms(4) True
    by (simp add: validate_event_def activation_event_def step_inputs_ok_def may_open_def not_less)
  have "dict_get (lc_candidates lc) (e_candidate_id ?e) = None"
  proof (rule ccontr)
    assume "dict_get (lc_candidates lc) (e_candidate_id ?e) \<noteq> None"
    then obtain x where x: "dict_get (lc_candidates lc) (e_candidate_id ?e) = Some x" by blast
    have "keyed_ok (lc_candidates lc)" by (rule run_okD(9) [OF assms(1)])
    with x have xv: "x \<in> set (dict_values (lc_candidates lc))" and xid: "e_candidate_id x = e_candidate_id ?e"
      by (auto simp: keyed_values_get keyed_ok_def)
    then have "e_candidate_id x = uuid_candidate I (e_activation_result_id x)"
      using run_okD(1) [OF assms(1)]
      by (auto simp: candidates_ok_def events_ok_def validate_event_def analytical_candidate_id_def
          split: if_splits)
    moreover have "e_candidate_id ?e = uuid_candidate I (s_result_id s)"
      by (simp add: activation_event_def analytical_candidate_id_def)
    moreover have "e_activation_result_id x \<in> R" using run_okD(4) [OF assms(1)] xv by blast
    ultimately show False using assms(2,3) xid by (auto dest: inj_onD)
  qed
  with True v show ?thesis by (simp add: lifecycle_step_unfold Let_def)
qed

lemma lifecycle_steps_succeed:
  assumes "run_ok I p es ts R lc" and "distinct (map s_result_id ss)"
    and "R \<inter> s_result_id ` set ss = {}"
    and "inj_on (uuid_candidate I) (R \<union> s_result_id ` set ss)"
    and "\<forall>s \<in> set ss. step_inputs_ok I rs s"
  shows "\<exists>lc'. lifecycle_steps I p rs ss lc = Inr lc'"
  using assms
proof (induction ss arbitrary: lc R)
  case (Cons s ss)
  have "inj_on (uuid_candidate I) (insert (s_result_id s) R)"
    by (rule inj_on_subset [OF Cons.prems(4)]) auto
  with Cons.prems obtain lc1 where lc1: "lifecycle_step I p rs s lc = Inr lc1"
    using lifecycle_step_succeeds [OF Cons.prems(1), of s rs] by auto
  have "run_ok I p es ts (insert (s_result_id s) R) lc1"
    by (rule run_ok_step [OF lc1 run_ok_mono [OF Cons.prems(1)]]) auto
  from Cons.IH [OF this] Cons.prems(2-5) lc1 show ?case by auto
qed simp

lemma lifecycle_steps_created:
  assumes "lifecycle_steps I p rs ss lc = Inr lc'"
  shows "length (lc_created lc') \<le> length (lc_created lc) + length ss"
  using assms
proof (induction ss arbitrary: lc)
  case (Cons s ss)
  then obtain lc1 where l: "lifecycle_step I p rs s lc = Inr lc1"
    and m: "lifecycle_steps I p rs ss lc1 = Inr lc'" by (auto simp: bind_r_eq_Inr)
  from l have "length (lc_created lc1) \<le> Suc (length (lc_created lc))"
    by (cases rule: lifecycle_step_cases) (auto simp: resolved_lifecycle_def opened_lifecycle_def)
  with Cons.IH [OF m] show ?case by simp
qed simp

section \<open>The snapshot validates\<close>

definition transition_payload ::
  "candidate_transition \<Rightarrow> uuid \<times> candidate_status \<times> candidate_status \<times> utc \<times> transition_actor" where
  "transition_payload t = (t_candidate_id t, t_from_status t, t_to_status t, t_recorded_at t, t_actor t)"

lemma valid_transition_id: "validate_transition I t = Inr t \<Longrightarrow>
    t_transition_id t = uuid_transition I (transition_payload t)"
  by (simp add: validate_transition_def analytical_candidate_transition_id_def transition_payload_def
      split: if_splits)

definition resolution_payloads ::
  "utc \<Rightarrow> uuid set \<Rightarrow> (uuid \<times> candidate_status \<times> candidate_status \<times> utc \<times> transition_actor) set" where
  "resolution_payloads p ids = (\<lambda>(i, s). (i, s, RESOLVED, p, SystemEvidence)) ` (ids \<times> UNIV)"

lemma run_ok_transition_ids:
  assumes "run_ok I p es ts R lc" and "\<forall>t \<in> set ts. validate_transition I t = Inr t"
    and "distinct (map t_transition_id ts)" and "\<forall>t \<in> set ts. t_recorded_at t < p"
    and "inj_on (uuid_transition I) (transition_payload ` set ts \<union> resolution_payloads p ids)"
    and "e_candidate_id ` set (dict_values (lc_candidates lc)) \<subseteq> ids"
  shows "distinct (map t_transition_id (ts @ lc_transitions lc))"
proof -
  let ?new = "lc_transitions lc" and ?P = "transition_payload ` set ts \<union> resolution_payloads p ids"
  have new: "t_transition_id t = uuid_transition I (transition_payload t) \<and>
      transition_payload t \<in> resolution_payloads p ids \<and> t_recorded_at t = p" if "t \<in> set ?new" for t
  proof -
    from run_okD(5) [OF assms(1) that] obtain e e0 where e: "e \<in> set (dict_values (lc_candidates lc))"
      "e_status e0 \<noteq> RESOLVED" "later e0 e" "t = resolution I p e0" by blast
    then have "e_candidate_id e0 = e_candidate_id e" by (simp add: later_simps(3))
    with e(1) assms(6) have "e_candidate_id e0 \<in> ids" by (simp add: image_subset_iff)
    then have "(e_candidate_id e0, e_status e0, RESOLVED, p, SystemEvidence) \<in> resolution_payloads p ids"
      unfolding resolution_payloads_def by (intro image_eqI [of _ _ "(e_candidate_id e0, e_status e0)"]) simp_all
    moreover have "transition_payload t = (e_candidate_id e0, e_status e0, RESOLVED, p, SystemEvidence)"
      by (simp add: e(4) transition_payload_def) (simp add: resolution_def)
    moreover have "t_transition_id t = uuid_transition I (transition_payload t)"
      unfolding e(4) by (rule valid_transition_id [OF resolution_valid [OF e(2)]])
    ultimately show ?thesis by (simp add: e(4))
  qed
  have inj: "transition_payload t = transition_payload u"
    if "t_transition_id t = t_transition_id u" "t \<in> set (ts @ ?new)" "u \<in> set (ts @ ?new)" for t u
  proof (rule inj_onD [OF assms(5)])
    have "t_transition_id x = uuid_transition I (transition_payload x) \<and> transition_payload x \<in> ?P"
      if "x \<in> set (ts @ ?new)" for x
    proof (cases "x \<in> set ?new")
      case False
      with that have "x \<in> set ts" by simp
      with assms(2) show ?thesis using valid_transition_id by blast
    qed (use new in blast)
    from this [OF that(2)] this [OF that(3)] that(1)
    show "uuid_transition I (transition_payload t) = uuid_transition I (transition_payload u)"
      "transition_payload t \<in> ?P" "transition_payload u \<in> ?P" by simp_all
  qed
  have "distinct (map t_transition_id ?new)"
    unfolding distinct_map
  proof
    show "distinct ?new" using run_okD(6) [OF assms(1)] by (simp add: distinct_map)
    have "inj_on t_candidate_id (set ?new)" using run_okD(6) [OF assms(1)] by (simp add: distinct_map)
    moreover have "t_candidate_id t = t_candidate_id u"
      if "t_transition_id t = t_transition_id u" "t \<in> set ?new" "u \<in> set ?new" for t u
      using inj [OF that(1)] that(2,3) by (simp add: transition_payload_def)
    ultimately show "inj_on t_transition_id (set ?new)" by (metis inj_onD inj_onI)
  qed
  moreover have "t_transition_id t \<noteq> t_transition_id u" if tu: "t \<in> set ts" "u \<in> set ?new" for t u
  proof
    assume "t_transition_id t = t_transition_id u"
    from inj [OF this] tu have "t_recorded_at t = t_recorded_at u" by (simp add: transition_payload_def)
    moreover have "t_recorded_at t < p" using assms(4) tu(1) by blast
    ultimately show False using new [OF tu(2)] by simp
  qed
  ultimately show ?thesis using assms(3) by (auto simp: image_iff)
qed

section \<open>Recording a fresh attempt\<close>

text \<open>What the caller has to provide: a fresh attempt with fresh results, later than the history.\<close>

definition recordable ::
  "('x) state_ids_scheme \<Rightarrow> screening_state \<Rightarrow> monitor_receipt \<Rightarrow> screening_result list \<Rightarrow> bool" where
  "recordable I st r rs \<longleftrightarrow>
     sort (map s_result_id rs) = rc_result_ids r \<and> distinct (map s_result_id rs) \<and>
     rc_attempt_id r \<notin> rc_attempt_id ` set (st_receipts st) \<and>
     s_result_id ` set (st_results st) \<inter> s_result_id ` set rs = {} \<and>
     (\<forall>t \<in> set (st_transitions st). t_recorded_at t < rc_processed_at r) \<and>
     (\<forall>s \<in> set rs. step_inputs_ok I (st_results st @ rs) s) \<and>
     length (st_results st) + length rs \<le> MAX_STATE_RECORDS \<and>
     length (st_candidates st) + length rs \<le> MAX_STATE_RECORDS \<and>
     length (st_transitions st) + length (st_candidates st) + length rs \<le> MAX_STATE_RECORDS \<and>
     length (st_receipts st) < MAX_STATE_RECORDS"

text \<open>No collision of the two \<^verbatim>\<open>uuid5\<close> identities on the identities in play.\<close>

definition collision_free ::
  "('x) state_ids_scheme \<Rightarrow> screening_state \<Rightarrow> monitor_receipt \<Rightarrow> screening_result list \<Rightarrow> bool" where
  "collision_free I st r rs \<longleftrightarrow>
     inj_on (uuid_candidate I) (s_result_id ` (set (st_results st) \<union> set rs)) \<and>
     inj_on (uuid_transition I) (transition_payload ` set (st_transitions st) \<union>
       resolution_payloads (rc_processed_at r)
         (uuid_candidate I ` s_result_id ` (set (st_results st) \<union> set rs)))"

lemma run_ok_candidate_ids:
  assumes "run_ok I p es ts R lc"
  shows "e_candidate_id ` set (dict_values (lc_candidates lc)) \<subseteq> uuid_candidate I ` R"
proof
  fix i assume "i \<in> e_candidate_id ` set (dict_values (lc_candidates lc))"
  then obtain e where e: "e \<in> set (dict_values (lc_candidates lc))" "i = e_candidate_id e" by blast
  then have "validate_event I e = Inr e"
    using run_okD(1) [OF assms] by (simp add: candidates_ok_def events_ok_def)
  then have "i = uuid_candidate I (e_activation_result_id e)"
    by (simp add: e(2) validate_event_def analytical_candidate_id_def split: if_splits)
  moreover have "e_activation_result_id e \<in> R" using run_okD(4) [OF assms] e(1) by blast
  ultimately show "i \<in> uuid_candidate I ` R" by blast
qed

lemma run_ok_sizes:
  assumes "run_ok I p es ts R lc"
  shows "length (dict_values (lc_candidates lc)) \<le> length es + length (lc_created lc)"
    and "length (lc_transitions lc) \<le> length (dict_values (lc_candidates lc))"
proof -
  let ?V = "dict_values (lc_candidates lc)"
  have dV: "distinct (map e_candidate_id ?V)"
    by (rule keyed_values_distinct [OF run_okD(9) [OF assms]])
  have "e_candidate_id ` set ?V \<subseteq> e_candidate_id ` set (es @ lc_created lc)"
    using run_okD(8) [OF assms] later_simps(3) by (fastforce simp: image_iff)
  then have "set (map e_candidate_id ?V) \<subseteq> set (map e_candidate_id (es @ lc_created lc))"
    by (simp only: set_map)
  from card_mono [OF _ this] dV
  have "length ?V \<le> card (set (map e_candidate_id (es @ lc_created lc)))"
    by (metis List.finite_set distinct_card length_map)
  also have "\<dots> \<le> length es + length (lc_created lc)"
    using card_length [of "map e_candidate_id (es @ lc_created lc)"] by simp
  finally show "length ?V \<le> length es + length (lc_created lc)" .
  have "t_candidate_id ` set (lc_transitions lc) \<subseteq> e_candidate_id ` set ?V"
    using run_okD(3) [OF assms] by auto
  then have "set (map t_candidate_id (lc_transitions lc)) \<subseteq> set (map e_candidate_id ?V)"
    by (simp only: set_map)
  from card_mono [OF _ this] show "length (lc_transitions lc) \<le> length ?V"
    using dV run_okD(6) [OF assms] by (metis List.finite_set distinct_card length_map)
qed

lemma recorded_history_ok:
  assumes "valid_state I st" and "recordable I st r rs" and "collision_free I st r rs"
    and "run_ok I (rc_processed_at r) (st_candidates st) (st_transitions st)
      (s_result_id ` set (st_results st @ rs)) lc"
    and "length (lc_created lc) \<le> length rs"
  shows "history_ok (recorded_state st r rs lc)"
proof -
  let ?p = "rc_processed_at r" and ?V = "dict_values (lc_candidates lc)"
  note run = assms(4)
  note sizes = run_ok_sizes [OF run]
  have h: "history_ok st" using assms(1) by (simp add: valid_state_def)
  have new: "t_recorded_at t = ?p" if "t \<in> set (lc_transitions lc)" for t
    using run_okD(5) [OF run that] by auto
  have split: "sort_key transition_order (st_transitions st @ lc_transitions lc) =
      st_transitions st @ sort_key transition_order (lc_transitions lc)"
  proof -
    have "sort_key transition_order (st_transitions st) = st_transitions st"
      using h by (simp add: history_ok_def sort_key_id_if_sorted)
    moreover have "transition_order a < transition_order b"
      if "a \<in> set (st_transitions st)" "b \<in> set (lc_transitions lc)" for a b
      using that assms(2) new [OF that(2)] by (simp add: recordable_def transition_order_def less_prod_def)
    ultimately show ?thesis by (simp add: sort_key_append_before)
  qed
  have "statuses_ok ?V (st_transitions st @ sort_key transition_order (lc_transitions lc))"
    using run_okD(2) [OF run]
    by (simp add: statuses_ok_def of_candidate_sort [OF run_okD(6) [OF run]])
  then have "statuses_ok (sort_key candidate_order ?V)
      (sort_key transition_order (st_transitions st @ lc_transitions lc))"
    by (simp add: split statuses_ok_def)
  moreover have "distinct (map t_transition_id (st_transitions st @ lc_transitions lc))"
  proof (rule run_ok_transition_ids [OF run])
    show "\<forall>t \<in> set (st_transitions st). validate_transition I t = Inr t"
      using assms(1) by (simp add: valid_state_def)
    show "distinct (map t_transition_id (st_transitions st))" using h by (simp add: history_ok_def)
    show "\<forall>t \<in> set (st_transitions st). t_recorded_at t < ?p" using assms(2) by (simp add: recordable_def)
    show "inj_on (uuid_transition I) (transition_payload ` set (st_transitions st) \<union>
       resolution_payloads ?p (uuid_candidate I ` s_result_id ` (set (st_results st) \<union> set rs)))"
      using assms(3) by (simp add: collision_free_def)
    show "e_candidate_id ` set ?V \<subseteq> uuid_candidate I ` s_result_id ` (set (st_results st) \<union> set rs)"
      using run_ok_candidate_ids [OF run] by simp
  qed
  moreover have "distinct (map s_result_id (st_results st @ rs))"
    using h assms(2) by (simp add: history_ok_def recordable_def)
  moreover have "distinct (map e_candidate_id ?V)"
    by (rule keyed_values_distinct [OF run_okD(9) [OF run]])
  moreover have "distinct (map rc_attempt_id (st_receipts st @ [r]))"
    using h assms(2) by (simp add: history_ok_def recordable_def)
  moreover have "set (rc_result_ids r) = s_result_id ` set rs"
  proof -
    have "rc_result_ids r = sort (map s_result_id rs)" using assms(2) by (simp add: recordable_def)
    then show ?thesis by simp
  qed
  moreover have "length (st_results st @ rs) \<le> MAX_STATE_RECORDS"
      "length ?V \<le> MAX_STATE_RECORDS" "length (st_receipts st @ [r]) \<le> MAX_STATE_RECORDS"
      "length (st_transitions st @ lc_transitions lc) \<le> MAX_STATE_RECORDS"
    using sizes assms(2,5) by (auto simp: recordable_def)
  moreover have "\<forall>x \<in> set (st_receipts st @ [r]). set (rc_result_ids x) \<subseteq> s_result_id ` set (st_results st @ rs)"
  proof -
    have "\<forall>x \<in> set (st_receipts st). set (rc_result_ids x) \<subseteq> s_result_id ` set (st_results st)"
      using h by (simp add: history_ok_def)
    moreover have "set (rc_result_ids r) = s_result_id ` set rs" by fact
    ultimately show ?thesis by (simp add: image_Un) blast
  qed
  ultimately show ?thesis
    using run_okD(3,4) [OF run] unfolding history_ok_def recorded_state_def by simp
qed

lemma recordable_succeeds:
  assumes "valid_state I st" and "recordable I st r rs" and "collision_free I st r rs"
  obtains lc where
    "lifecycle_steps I (rc_processed_at r) (st_results st @ rs) (sort_key result_order rs)
       (initial_lifecycle st) = Inr lc"
    "record_attempt I st r rs = Inr
       (\<lparr>ro_receipt_created = True, ro_results_created = length rs,
         ro_candidates_created = length (lc_created lc), ro_candidates_resolved = lc_resolved lc\<rparr>,
        recorded_state st r rs lc,
        map ResultRecord rs @ map CandidateRecord (lc_created lc) @
          map TransitionRecord (lc_transitions lc) @ [ReceiptRecord r])"
proof -
  let ?R0 = "s_result_id ` set (st_results st)" and ?p = "rc_processed_at r"
  let ?rs = "sort_key result_order rs"
  have h: "history_ok st" using assms(1) by (simp add: valid_state_def)
  then have dist: "distinct (map s_result_id (st_results st))" by (simp add: history_ok_def)
  have run0: "run_ok I ?p (st_candidates st) (st_transitions st) ?R0 (initial_lifecycle st)"
    by (rule initial_run_ok [OF assms(1) subset_refl])
  have "inj_on (uuid_candidate I) (?R0 \<union> s_result_id ` set ?rs)"
    using assms(3) by (simp add: collision_free_def image_Un)
  with assms(2) obtain lc where
    lc: "lifecycle_steps I ?p (st_results st @ rs) ?rs (initial_lifecycle st) = Inr lc"
    using lifecycle_steps_succeed [OF run0, of ?rs "st_results st @ rs"] by (auto simp: recordable_def)
  have run: "run_ok I ?p (st_candidates st) (st_transitions st) (s_result_id ` set (st_results st @ rs)) lc"
    by (rule recorded_run_ok [OF assms(1) lc]) auto
  have len: "length (lc_created lc) \<le> length rs"
    using lifecycle_steps_created [OF lc] by (simp add: initial_lifecycle_def)
  have "\<forall>s \<in> set rs. dict_get (dict_by s_result_id (st_results st)) (s_result_id s) = None"
    using assms(2) by (auto simp: recordable_def dict_get_by_None)
  then have m: "merge_results I rs (dict_by s_result_id (st_results st)) [] =
      Inr (dict_by s_result_id (st_results st) @ map (\<lambda>s. (s_result_id s, s)) rs, rs)"
    using merge_results_fresh [of rs "dict_by s_result_id (st_results st)" I "[]"] assms(2)
    by (simp add: recordable_def)
  have none: "dict_get (dict_by rc_attempt_id (st_receipts st)) (rc_attempt_id r) = None"
    using assms(2) by (simp add: recordable_def dict_get_by_None)
  have v: "validate_history (recorded_state st r rs lc) = Inr (recorded_state st r rs lc)"
    using recorded_history_ok [OF assms run len] by (simp add: validate_history_iff)
  have "record_attempt I st r rs = Inr
       (\<lparr>ro_receipt_created = True, ro_results_created = length rs,
         ro_candidates_created = length (lc_created lc), ro_candidates_resolved = lc_resolved lc\<rparr>,
        recorded_state st r rs lc,
        map ResultRecord rs @ map CandidateRecord (lc_created lc) @
          map TransitionRecord (lc_transitions lc) @ [ReceiptRecord r])"
    using assms(2) v [unfolded recorded_state_def]
    by (simp add: record_attempt_def recordable_def none m dict_values_by [OF dist] lc
        receipts_extended [OF h none] recorded_state_def)
  with lc show ?thesis by (rule that)
qed

end
