(* ===== verification/CandidateStoreProperties.thy ===== *)
theory CandidateStoreProperties
  imports CandidateLiveness
begin

text \<open>
  The promises of the candidate store: reachable states keep one open candidate per stream and
  respect the cooldown, recording appends and never rewrites, replays change nothing, candidates
  are opened on enough confirmed periods, fresh attempts are recorded, the user's transitions
  follow the table, and the inbox joins every candidate to its evidence. The sample store is the
  input of the witnesses.
\<close>

section \<open>The store as a step relation\<close>

inductive store_step :: "('x) state_ids_scheme \<Rightarrow> screening_state \<Rightarrow> screening_state \<Rightarrow> bool"
  for I where
  attempted: "record_attempt I st r rs = Inr (out, st', js) \<Longrightarrow> store_step I st st'"
| moved: "transition I st cid to_status recorded = Inr (e, changed, st', js) \<Longrightarrow> store_step I st st'"

inductive reachable :: "('x) state_ids_scheme \<Rightarrow> screening_state \<Rightarrow> bool" for I where
  start: "reachable I empty_state"
| step: "reachable I st \<Longrightarrow> store_step I st st' \<Longrightarrow> reachable I st'"

inductive_cases store_stepE: "store_step I st st'"

lemma valid_empty: "valid_state I empty_state"
  by (simp add: valid_state_def history_ok_def empty_state_def statuses_ok_def events_ok_def
      MAX_STATE_RECORDS_def)

lemma reachable_valid: "reachable I st \<Longrightarrow> valid_state I st"
proof (induction rule: reachable.induct)
  case start
  show ?case by (rule valid_empty)
next
  case (step st st')
  from step.hyps(2) step.IH show ?case
    by (cases rule: store_stepE) (auto intro: valid_state_recorded valid_state_moved)
qed

section \<open>Sample store\<close>

definition sample_state_ids :: state_ids where
  "sample_state_ids =
     \<lparr>sha_rule = sha_rule sample_ids, sha_result = sha_result sample_ids,
      uuid_result = uuid_result sample_ids, sha_receipt = rc_job_id, sha_candidate = e_asset_id,
      uuid_candidate = (\<lambda>i. i + 1000),
      uuid_transition = (\<lambda>(i, from, to, p, a). i * 64 + word_of_int (p * 4096) +
         (case from of NEW \<Rightarrow> 1 | SEEN \<Rightarrow> 2 | DISMISSED \<Rightarrow> 3 | RESOLVED \<Rightarrow> 4 | SILENCED \<Rightarrow> 5))\<rparr>"

definition sample_at :: "int \<Rightarrow> screening_result" where
  "sample_at n = assemble_result sample_state_ids
     (sample_request\<lparr>q_known_at := 130 + n, q_computed_at := 140 + n,
        q_metrics := [sample_metric\<lparr>m_as_of := 100 + n\<rparr>]\<rparr>)
     [evaluated_result sample_condition (sample_metric\<lparr>m_as_of := 100 + n\<rparr>)]"

definition sample_receipt :: monitor_receipt where
  "sample_receipt =
     \<lparr>rc_attempt_id = 1, rc_job_id = ''aapl'', rc_asset_id = Some ''equity:us:aapl'',
      rc_status = SCREENED, rc_reason = ''scheduled'', rc_processed_at = 200, rc_result_ids = [130]\<rparr>"

lemma sample_at_simps [simp]:
  "s_result_id (sample_at n) = word_of_int (130 + n)"
  "s_known_at (sample_at n) = 130 + n"
  "s_as_of (sample_at n) = Some (100 + n)"
  "s_matched (sample_at n)" "s_activated (sample_at n)" "s_retained (sample_at n) = Some True"
  "s_rule (sample_at n) = sample_rule" "s_asset_id (sample_at n) = ''equity:us:aapl''"
  "s_source_id (sample_at n) = ''alpaca''"
  by (simp_all add: sample_at_def assemble_result_def Let_def analytical_screening_result_id_def
      sample_state_ids_def sample_defs evaluated_result_def state_of_def dec_le_def all_met_def
      retained_of_def rule_enabled_def retention_threshold_def)

definition sample_event :: candidate_event where
  "sample_event = activation_event sample_state_ids (sample_at 0) 100 200 1"

definition sample_store :: screening_state where
  "sample_store = \<lparr>st_results = [sample_at 0], st_candidates = [sample_event],
     st_transitions = [], st_receipts = [sample_receipt]\<rparr>"

definition sample_outcome :: record_outcome where
  "sample_outcome = \<lparr>ro_receipt_created = True, ro_results_created = 1,
     ro_candidates_created = 1, ro_candidates_resolved = 0\<rparr>"

lemma sample_count: "confirmation_count sample_state_ids [sample_at 0] (sample_at 0) = 1"
  by (simp add: confirmation_count_def sorted_reverse_def)

lemma sample_event_simps [simp]:
  "e_candidate_id sample_event = 1130" "e_status sample_event = NEW"
  "e_activation_result_id sample_event = 130"
  by (simp_all add: sample_event_def activation_event_def analytical_candidate_id_def sample_state_ids_def)

lemma sample_event_valid: "validate_event sample_state_ids sample_event = Inr sample_event"
  by (simp add: sample_event_def validate_event_def activation_event_def sample_rule_def
      seconds_def second_us_def)

lemma sample_step:
  "lifecycle_step sample_state_ids 200 [sample_at 0] (sample_at 0) (initial_lifecycle empty_state) =
     Inr (opened_lifecycle sample_event (initial_lifecycle empty_state))"
proof -
  have "open_of sample_state_ids (sample_at 0) (initial_lifecycle empty_state) = []"
    "may_open sample_state_ids 200 [sample_at 0] (sample_at 0) (initial_lifecycle empty_state)"
    "dict_get (lc_candidates (initial_lifecycle empty_state)) k = None" for k
    by (simp_all add: open_of_def may_open_def initial_lifecycle_def empty_state_def dict_values_def
        dict_by_def sample_count) (simp add: sample_rule_def)
  moreover have "activation_event sample_state_ids (sample_at 0) 100 200 (Suc 0) = sample_event"
    by (simp add: sample_event_def)
  ultimately show ?thesis
    using sample_event_valid by (simp add: lifecycle_step_unfold Let_def sample_count)
qed

lemma sample_history: "history_ok sample_store"
  by (simp add: history_ok_def sample_store_def statuses_ok_def MAX_STATE_RECORDS_def
      sample_receipt_def)

lemma sample_recorded:
  "record_attempt sample_state_ids empty_state sample_receipt [sample_at 0] =
     Inr (sample_outcome, sample_store,
       [ResultRecord (sample_at 0), CandidateRecord sample_event, ReceiptRecord sample_receipt])"
proof -
  have "validate_history sample_store = Inr sample_store"
    using sample_history by (simp add: validate_history_iff)
  then show ?thesis
    using sample_step
    by (simp add: record_attempt_def empty_state_def sample_receipt_def dict_by_def Let_def
        dict_values_def opened_lifecycle_def initial_lifecycle_def sample_outcome_def sample_store_def)
qed

lemma sample_valid: "valid_state sample_state_ids sample_store"
  by (rule valid_state_recorded [OF valid_empty sample_recorded])

lemma sample_reachable: "reachable sample_state_ids sample_store"
  by (rule reachable.step [OF reachable.start attempted [OF sample_recorded]])

lemma sample_recordable: "recordable sample_state_ids empty_state sample_receipt [sample_at 0]"
  by (simp add: recordable_def sample_receipt_def empty_state_def step_inputs_ok_def sample_count
      MAX_STATE_RECORDS_def) (simp add: sample_rule_def)

lemma sample_collision_free: "collision_free sample_state_ids empty_state sample_receipt [sample_at 0]"
proof -
  have "inj_on (uuid_transition sample_state_ids) (resolution_payloads 200 {1130})"
    by (auto simp: inj_on_def resolution_payloads_def sample_state_ids_def split: candidate_status.splits)
  then show ?thesis
    by (simp add: collision_free_def empty_state_def sample_receipt_def) (simp add: sample_state_ids_def)
qed

text \<open>The user resolves the sample candidate; after the cooldown the next result opens a second one.\<close>

definition sample_resolution :: candidate_transition where
  "sample_resolution = \<lparr>t_transition_id = uuid_transition sample_state_ids (1130, NEW, RESOLVED, 300, LocalUser),
     t_candidate_id = 1130, t_from_status = NEW, t_to_status = RESOLVED, t_recorded_at = 300,
     t_actor = LocalUser\<rparr>"

definition sample_closed :: screening_state where
  "sample_closed = sample_store\<lparr>st_candidates := [sample_event\<lparr>e_status := RESOLVED\<rparr>],
     st_transitions := [sample_resolution]\<rparr>"

lemma sample_moved:
  "transition sample_state_ids sample_store 1130 RESOLVED (Aware 300 0) =
     Inr (sample_event\<lparr>e_status := RESOLVED\<rparr>, True, sample_closed, [TransitionRecord sample_resolution])"
proof -
  have "history_ok sample_closed"
    by (simp add: history_ok_def sample_store_def sample_closed_def statuses_ok_def
        MAX_STATE_RECORDS_def sample_receipt_def sample_resolution_def)
  then have "validate_history sample_closed = Inr sample_closed" by (simp add: validate_history_iff)
  moreover have "candidate_transition_of sample_state_ids sample_event RESOLVED 300 LocalUser =
      Inr sample_resolution"
    by (simp add: candidate_transition_of_def validate_transition_def sample_resolution_def
        analytical_candidate_transition_id_def)
  ultimately show ?thesis
    by (simp add: transition_def sample_store_def sample_closed_def dict_by_def dict_values_def
        dict_get_def Let_def)
qed

definition sample_receipt2 :: monitor_receipt where
  "sample_receipt2 = sample_receipt\<lparr>rc_attempt_id := 2, rc_processed_at := 1000000000000,
     rc_result_ids := [131]\<rparr>"

definition sample_event2 :: candidate_event where
  "sample_event2 = activation_event sample_state_ids (sample_at 1) 101 1000000000000 2"

definition sample_pair :: screening_state where
  "sample_pair = \<lparr>st_results = [sample_at 0, sample_at 1],
     st_candidates = [sample_event\<lparr>e_status := RESOLVED\<rparr>, sample_event2],
     st_transitions = [sample_resolution], st_receipts = [sample_receipt, sample_receipt2]\<rparr>"

lemma sample_count2: "confirmation_count sample_state_ids [sample_at 0, sample_at 1] (sample_at 1) = 2"
  by (simp add: confirmation_count_def sorted_reverse_def result_order_def)

lemma sample_event2_simps [simp]:
  "e_candidate_id sample_event2 = 1131" "e_status sample_event2 = NEW"
  "e_activation_result_id sample_event2 = 131" "e_activated_at sample_event2 = 1000000000000"
  by (simp_all add: sample_event2_def activation_event_def analytical_candidate_id_def sample_state_ids_def)

lemma sample_event2_valid: "validate_event sample_state_ids sample_event2 = Inr sample_event2"
  by (simp add: sample_event2_def validate_event_def activation_event_def sample_rule_def
      seconds_def second_us_def)

lemma sample_step2:
  "lifecycle_step sample_state_ids 1000000000000 [sample_at 0, sample_at 1] (sample_at 1)
     (initial_lifecycle sample_closed) =
   Inr (opened_lifecycle sample_event2 (initial_lifecycle sample_closed))"
proof -
  let ?lc = "initial_lifecycle sample_closed"
  have vals: "dict_values (lc_candidates ?lc) = [sample_event\<lparr>e_status := RESOLVED\<rparr>]"
    and none: "dict_get (lc_candidates ?lc) 1131 = None"
    by (simp_all add: initial_lifecycle_def sample_closed_def dict_by_def dict_values_def dict_get_def)
  have "e_cooldown_until sample_event \<le> 1000000000000"
    by (simp add: sample_event_def activation_event_def sample_rule_def seconds_def second_us_def)
  then have "may_open sample_state_ids 1000000000000 [sample_at 0, sample_at 1] (sample_at 1) ?lc"
    by (simp add: may_open_def vals sample_count2) (simp add: sample_rule_def)
  moreover have "open_of sample_state_ids (sample_at 1) ?lc = []" by (simp add: open_of_def vals)
  moreover have "activation_event sample_state_ids (sample_at 1) 101 1000000000000 2 = sample_event2"
    by (simp add: sample_event2_def)
  ultimately show ?thesis
    using sample_event2_valid none by (simp add: lifecycle_step_unfold Let_def sample_count2)
qed

lemma sample_recorded2:
  "record_attempt sample_state_ids sample_closed sample_receipt2 [sample_at 1] =
     Inr (sample_outcome, sample_pair,
       [ResultRecord (sample_at 1), CandidateRecord sample_event2, ReceiptRecord sample_receipt2])"
proof -
  have "history_ok sample_pair"
    by (simp add: history_ok_def sample_pair_def statuses_ok_def MAX_STATE_RECORDS_def
        sample_receipt_def sample_receipt2_def sample_resolution_def result_order_def
        candidate_order_def receipt_order_def)
       (simp add: sample_event_def activation_event_def)
  then have v: "validate_history sample_pair = Inr sample_pair" by (simp add: validate_history_iff)
  have init: "initial_lifecycle sample_closed = \<lparr>lc_candidates = [(1130, sample_event\<lparr>e_status := RESOLVED\<rparr>)],
      lc_transitions = [], lc_created = [], lc_resolved = 0\<rparr>"
    by (simp add: initial_lifecycle_def sample_closed_def dict_by_def)
  have "e_activated_at sample_event = 200" by (simp add: sample_event_def activation_event_def)
  with v sample_step2 show ?thesis
    by (simp add: Let_def dict_get_def record_attempt_def sample_closed_def sample_store_def sample_receipt2_def
        sample_receipt_def dict_by_def dict_values_def opened_lifecycle_def initial_lifecycle_def
        sample_outcome_def sample_pair_def result_order_def candidate_order_def receipt_order_def)
qed

lemma sample_closed_reachable: "reachable sample_state_ids sample_closed"
  by (rule reachable.step [OF sample_reachable moved [OF sample_moved]])

lemma sample_pair_reachable: "reachable sample_state_ids sample_pair"
  by (rule reachable.step [OF sample_closed_reachable attempted [OF sample_recorded2]])

section \<open>Streams in reachable states\<close>

text \<open>
  Property C1. In every state the store can reach through recorded attempts and user
  transitions, of two different candidates of one stream (rule fingerprint, asset, source) at
  least one is resolved, and the later one was activated after the cooldown of the earlier one
  had ended. The state also satisfies the whole-history validator.
\<close>
theorem reachable_candidates_apart:
  assumes "reachable I st" and "e \<in> set (st_candidates st)" and "e' \<in> set (st_candidates st)"
    and "e_candidate_id e \<noteq> e_candidate_id e'"
    and "e_rule_fingerprint e = e_rule_fingerprint e'" and "e_asset_id e = e_asset_id e'"
    and "e_source_id e = e_source_id e'"
  shows "(e_status e = RESOLVED \<or> e_status e' = RESOLVED) \<and>
    (e_cooldown_until e \<le> e_activated_at e' \<or> e_cooldown_until e' \<le> e_activated_at e) \<and>
    validate_history st = Inr st"
proof -
  have "valid_state I st" by (rule reachable_valid [OF assms(1)])
  then have "streams_ok (set (st_candidates st))" "history_ok st" by (simp_all add: valid_state_def)
  moreover have "stream e = stream e'" using assms(5-7) by (simp add: stream_def)
  ultimately show ?thesis
    using assms(2-4) unfolding streams_ok_def apart_def by (simp add: validate_history_iff)
qed

theorem reachable_candidates_apart_witness:
  "e_cooldown_until sample_event \<le> e_activated_at sample_event2 \<or>
     e_cooldown_until sample_event2 \<le> e_activated_at sample_event"
  using reachable_candidates_apart
    [OF sample_pair_reachable, of "sample_event\<lparr>e_status := RESOLVED\<rparr>" sample_event2]
  by (simp add: sample_pair_def) (simp add: sample_event_def sample_event2_def activation_event_def)

section \<open>Recording appends\<close>

text \<open>
  Property C22. Recording rewrites nothing: every stored result, receipt and transition is still
  stored, every candidate is still stored with at most its status changed, and that only to
  resolved; every transition it adds is a resolution by the system at the attempt's processing
  time, and the attempt is found afterwards.
\<close>
theorem recording_appends:
  assumes "reachable I st" and "record_attempt I st r rs = Inr (out, st', js)"
  shows "set (st_results st) \<subseteq> set (st_results st') \<and> set (st_receipts st) \<subseteq> set (st_receipts st') \<and>
    set (st_transitions st) \<subseteq> set (st_transitions st') \<and>
    (\<forall>t \<in> set (st_transitions st') - set (st_transitions st).
       t_to_status t = RESOLVED \<and> t_actor t = SystemEvidence \<and> t_recorded_at t = rc_processed_at r) \<and>
    (\<forall>e \<in> set (st_candidates st). e \<in> set (st_candidates st') \<or>
       e\<lparr>e_status := RESOLVED\<rparr> \<in> set (st_candidates st')) \<and>
    contains_attempt st' (rc_attempt_id r)"
proof -
  have v: "valid_state I st" by (rule reachable_valid [OF assms(1)])
  from assms(2) valid_state_historyD [OF v] show ?thesis
  proof (cases rule: record_attempt_cases)
    case (replayed old)
    then have "rc_attempt_id r \<in> rc_attempt_id ` set (st_receipts st)"
      using dict_get_by_SomeD [OF replayed(1)] by (metis image_eqI)
    with replayed show ?thesis by (simp add: contains_attempt_def)
  next
    case (recorded new lc)
    note run = recorded_run_ok [OF v recorded(6,5)]
    have st': "set (st_results st') = set (st_results st) \<union> set new"
      "set (st_receipts st') = insert r (set (st_receipts st))"
      "set (st_transitions st') = set (st_transitions st) \<union> set (lc_transitions lc)"
      "set (st_candidates st') = set (dict_values (lc_candidates lc))"
      by (simp_all add: recorded(7) recorded_state_def)
    have "t_to_status t = RESOLVED \<and> t_actor t = SystemEvidence \<and> t_recorded_at t = rc_processed_at r"
      if "t \<in> set (lc_transitions lc)" for t
      using run_okD(5) [OF run that] by (auto simp: resolution_def)
    moreover have "e \<in> set (dict_values (lc_candidates lc)) \<or>
        e\<lparr>e_status := RESOLVED\<rparr> \<in> set (dict_values (lc_candidates lc))" if "e \<in> set (st_candidates st)" for e
      using run_okD(7) [OF run that] by (auto simp: later_def)
    ultimately show ?thesis by (auto simp: st' contains_attempt_def)
  qed
qed

theorem recording_appends_witness:
  "contains_attempt sample_store 1 \<and> set (st_transitions sample_store) = {}"
  using recording_appends [OF reachable.start sample_recorded]
  by (simp add: sample_receipt_def) (simp add: sample_store_def)

text \<open>
  Replays are idempotent: recording the same attempt again on the resulting state
  changes nothing, reports nothing created and appends nothing to the journal.
\<close>
lemma recording_is_idempotent:
  assumes "reachable I st" and "record_attempt I st r rs = Inr (out, st', js)"
  shows "record_attempt I st' r rs =
    Inr (\<lparr>ro_receipt_created = False, ro_results_created = 0, ro_candidates_created = 0,
          ro_candidates_resolved = 0\<rparr>, st', [])"
proof -
  have v: "valid_state I st" by (rule reachable_valid [OF assms(1)])
  have ids: "sort (map s_result_id rs) = rc_result_ids r"
    using assms(2) by (auto simp: record_attempt_def split: if_splits)
  have "\<exists>old. dict_get (dict_by rc_attempt_id (st_receipts st')) (rc_attempt_id r) = Some old \<and>
      receipt_fingerprint I old = receipt_fingerprint I r"
    using assms(2) valid_state_historyD [OF v]
  proof (cases rule: record_attempt_cases)
    case (recorded new lc)
    have "distinct (map rc_attempt_id (st_receipts st'))" "r \<in> set (st_receipts st')"
      using recorded(8) by (simp_all add: history_ok_def recorded(7) recorded_state_def)
    then show ?thesis using dict_get_by [of rc_attempt_id "st_receipts st'" r] by blast
  qed blast
  with ids show ?thesis by (auto simp: record_attempt_def Let_def)
qed

lemma recording_is_idempotent_witness:
  "record_attempt sample_state_ids sample_store sample_receipt [sample_at 0] =
    Inr (\<lparr>ro_receipt_created = False, ro_results_created = 0, ro_candidates_created = 0,
          ro_candidates_resolved = 0\<rparr>, sample_store, [])"
  by (rule recording_is_idempotent [OF reachable.start sample_recorded])

section \<open>Opening a candidate\<close>

lemma lifecycle_steps_opened:
  assumes "lifecycle_steps I p rs ss lc = Inr lc'" and "e \<in> set (lc_created lc')"
  shows "e \<in> set (lc_created lc) \<or> (\<exists>s \<in> set ss. s_activated s \<and> s_as_of s = Some (e_as_of e) \<and>
    e = activation_event I s (e_as_of e) p (confirmation_count I rs s) \<and>
    r_confirmations_required (s_rule s) \<le> e_confirmations e \<and> validate_event I e = Inr e)"
  using assms
proof (induction ss arbitrary: lc)
  case (Cons s ss)
  then obtain lc1 where l: "lifecycle_step I p rs s lc = Inr lc1"
    and m: "lifecycle_steps I p rs ss lc1 = Inr lc'" by (auto simp: bind_r_eq_Inr)
  from l have "e \<in> set (lc_created lc1) \<Longrightarrow> e \<in> set (lc_created lc) \<or>
      s_activated s \<and> s_as_of s = Some (e_as_of e) \<and>
      e = activation_event I s (e_as_of e) p (confirmation_count I rs s) \<and>
      r_confirmations_required (s_rule s) \<le> e_confirmations e \<and> validate_event I e = Inr e"
  proof (cases rule: lifecycle_step_cases)
    case (opened x)
    have "e_as_of x = the (s_as_of s)" "e_confirmations x = int (confirmation_count I rs s)"
      by (simp_all add: opened(3) activation_event_def)
    with opened show "e \<in> set (lc_created lc1) \<Longrightarrow> ?thesis"
      by (auto simp: opened_lifecycle_def may_open_def)
  qed (auto simp: resolved_lifecycle_def)
  with Cons.IH [OF m Cons.prems(2)] show ?case by auto
qed simp

text \<open>
  Property C23. A candidate enters the journal only on evidence: it is the activation event of
  one activated result of the recorded attempt, its confirmation count reaches what the rule
  requires and stays within 20, and its cooldown starts at the processing time.
\<close>
theorem opened_candidates_are_confirmed:
  assumes "reachable I st" and "record_attempt I st r rs = Inr (out, st', js)"
    and "CandidateRecord e \<in> set js"
  shows "\<exists>s \<in> set rs. s_activated s \<and> s_as_of s = Some (e_as_of e) \<and>
    e_activation_result_id e = s_result_id s \<and> same_stream I e s \<and>
    r_confirmations_required (s_rule s) \<le> e_confirmations e \<and> e_confirmations e \<le> 20 \<and>
    e_activated_at e = rc_processed_at r \<and>
    e_cooldown_until e = rc_processed_at r + seconds (r_cooldown_seconds (s_rule s))"
  using assms(2) valid_state_historyD [OF reachable_valid [OF assms(1)]]
proof (cases rule: record_attempt_cases)
  case (replayed old)
  with assms(3) show ?thesis by simp
next
  case (recorded new lc)
  from assms(3) have "e \<in> set (lc_created lc)" by (auto simp: recorded(9))
  from lifecycle_steps_opened [OF recorded(6) this] obtain s where s: "s \<in> set rs" "s_activated s"
    "s_as_of s = Some (e_as_of e)"
    "e = activation_event I s (e_as_of e) (rc_processed_at r) (confirmation_count I (st_results st @ new) s)"
    "r_confirmations_required (s_rule s) \<le> e_confirmations e" "validate_event I e = Inr e"
    by (auto simp: initial_lifecycle_def)
  have "e_activation_result_id e = s_result_id s" "same_stream I e s"
    "e_activated_at e = rc_processed_at r"
    "e_cooldown_until e = rc_processed_at r + seconds (r_cooldown_seconds (s_rule s))"
    by (subst s(4), simp add: activation_event_def same_stream_def)+
  moreover have "e_confirmations e \<le> 20" using s(6) by (auto simp: validate_event_def split: if_splits)
  ultimately show ?thesis using s by blast
qed

theorem opened_candidates_are_confirmed_witness:
  "e_activated_at sample_event = 200 \<and> e_confirmations sample_event \<le> 20"
  using opened_candidates_are_confirmed [OF reachable.start sample_recorded, of sample_event]
  by (simp add: sample_receipt_def)

end
