(* ===== verification/InboxProperties.thy ===== *)
theory InboxProperties
  imports CandidateStoreProperties
begin

text \<open>
  The remaining promises of the candidate store: the confirmation count against its reference
  reading, recording never failing on a fresh attempt, the attempt it does reject although its
  evidence is sound, the user's transitions, and the inbox.
\<close>

section \<open>Confirmations\<close>

text \<open>Keep the first element of each key.\<close>

fun first_by :: "('a \<Rightarrow> 'k) \<Rightarrow> 'a list \<Rightarrow> 'a list" where
  "first_by key [] = []"
| "first_by key (x # xs) = x # filter (\<lambda>y. key y \<noteq> key x) (first_by key xs)"

lemma first_by_distinct: "distinct (map key xs) \<Longrightarrow> first_by key xs = xs"
proof (induction xs)
  case (Cons x xs)
  then have "filter (\<lambda>y. key y \<noteq> key x) xs = xs" by (intro filter_all_conv) (auto simp: image_iff)
  with Cons show ?case by simp
qed simp

lemma count_periods_spec:
  assumes "\<forall>s \<in> set xs. s_as_of s \<noteq> None"
  shows "count_periods seen xs = length (takeWhile s_matched
    (filter (\<lambda>s. s_as_of s \<notin> Some ` set seen) (first_by s_as_of xs)))"
  using assms
proof (induction xs arbitrary: seen)
  case (Cons s xs)
  from Cons.prems obtain p where p: "s_as_of s = Some p" by auto
  let ?rest = "first_by s_as_of xs"
  show ?case
  proof (cases "p \<in> set seen")
    case True
    have "filter (\<lambda>y. s_as_of y \<notin> Some ` set seen \<and> s_as_of y \<noteq> Some p) ?rest =
        filter (\<lambda>y. s_as_of y \<notin> Some ` set seen) ?rest"
      using True by (intro filter_cong) auto
    with True p Cons show ?thesis by (simp add: conj_commute)
  next
    case False
    have "filter (\<lambda>y. s_as_of y \<noteq> Some p \<and> s_as_of y \<notin> Some ` set seen) ?rest =
        filter (\<lambda>y. s_as_of y \<notin> Some ` set (p # seen)) ?rest"
      by (intro filter_cong) auto
    with False p Cons show ?thesis by (auto simp: conj_commute)
  qed
qed simp

text \<open>
  The results of a stream known at a cut, newest first; the count's loop reads them once with a
  set of seen periods.
\<close>

definition stream_results ::
  "('x) state_ids_scheme \<Rightarrow> screening_result list \<Rightarrow> screening_result \<Rightarrow> screening_result list" where
  "stream_results I results current =
     sorted_reverse result_order
       (filter (\<lambda>s. result_stream I s = result_stream I current \<and> s_known_at s \<le> s_known_at current \<and>
          s_as_of s \<noteq> None) results)"

text \<open>
  The confirmation count is the number of consecutive matched periods, counted back
  from the newest: take the results of the same rule fingerprint, asset and source known at the
  cut, newest first, keep the newest result of each evidence period, and count the matched ones
  up to the first that did not match.
\<close>
lemma confirmation_count_spec:
  "confirmation_count I results current =
     length (takeWhile s_matched (first_by s_as_of (stream_results I results current)))"
proof -
  have "confirmation_count I results current = count_periods [] (stream_results I results current)"
    by (simp add: confirmation_count_def stream_results_def result_stream_def conj_assoc)
  moreover have "\<forall>s \<in> set (stream_results I results current). s_as_of s \<noteq> None"
    by (simp add: stream_results_def sorted_reverse_def)
  ultimately show ?thesis by (simp add: count_periods_spec)
qed

section \<open>Recording succeeds, and when it does not\<close>

text \<open>
  Property C10. Recording a fresh attempt under the bounds never fails: in a reachable state, if the attempt's and
  the results' identities are new, the processing time lies after every recorded transition, the
  rules' bounds hold, no identity collides, no result counts more than 20 confirmations and the
  four collections stay under their limit, then \<^verbatim>\<open>record_attempt\<close> returns, with a
  receipt created and every result stored.
\<close>
theorem recording_succeeds:
  assumes "reachable I st" and "recordable I st r rs" and "collision_free I st r rs"
  shows "\<exists>out st' js. record_attempt I st r rs = Inr (out, st', js) \<and> ro_receipt_created out \<and>
    ro_results_created out = length rs \<and>
    set (st_results st') = set (st_results st) \<union> set rs \<and> r \<in> set (st_receipts st')"
proof -
  from recordable_succeeds [OF reachable_valid [OF assms(1)] assms(2,3)] obtain lc where
    "record_attempt I st r rs = Inr
       (\<lparr>ro_receipt_created = True, ro_results_created = length rs,
         ro_candidates_created = length (lc_created lc), ro_candidates_resolved = lc_resolved lc\<rparr>,
        recorded_state st r rs lc,
        map ResultRecord rs @ map CandidateRecord (lc_created lc) @
          map TransitionRecord (lc_transitions lc) @ [ReceiptRecord r])" .
  then show ?thesis by (simp add: recorded_state_def)
qed

theorem recording_succeeds_witness:
  "\<exists>out st' js. record_attempt sample_state_ids empty_state sample_receipt [sample_at 0] = Inr (out, st', js) \<and>
    ro_receipt_created out \<and> sample_receipt \<in> set (st_receipts st')"
  using recording_succeeds [OF reachable.start sample_recordable sample_collision_free] by blast

text \<open>
  Property C27. Recording fails when a long streak would open a candidate: a fresh activated result
  with evidence, of a rule that requires at most 20 confirmations, of a stream that has no open
  candidate, is past its cooldowns and has matched for more than 20 periods, is rejected with the
  event validator's bound on confirmations, so the attempt is not recorded. A stream gets there
  when its candidate is resolved by hand during such a streak, once the cooldown is over.
\<close>
theorem long_streak_is_rejected:
  assumes "reachable I st" and "rc_attempt_id r \<notin> rc_attempt_id ` set (st_receipts st)"
    and "rc_result_ids r = [s_result_id s]" and "s_result_id s \<notin> s_result_id ` set (st_results st)"
    and "s_activated s" and "s_as_of s \<noteq> None" and "r_confirmations_required (s_rule s) \<le> 20"
    and "\<forall>e \<in> set (st_candidates st). same_stream I e s \<longrightarrow>
      e_status e = RESOLVED \<and> e_cooldown_until e \<le> rc_processed_at r"
    and "20 < confirmation_count I (st_results st @ [s]) s"
  shows "record_attempt I st r [s] = Inl (ValueError ''confirmations'')"
proof -
  have h: "history_ok st" using reachable_valid [OF assms(1)] by (simp add: valid_state_def)
  then have dist: "distinct (map s_result_id (st_results st))" by (simp add: history_ok_def)
  note vals = initial_candidates(2) [OF h]
  have none: "dict_get (dict_by rc_attempt_id (st_receipts st)) (rc_attempt_id r) = None"
    using assms(2) by (simp add: dict_get_by_None)
  have "merge_results I [s] (dict_by s_result_id (st_results st)) [] =
      Inr (dict_by s_result_id (st_results st) @ [(s_result_id s, s)], [s])"
    using merge_results_fresh [of "[s]" "dict_by s_result_id (st_results st)" I "[]"] assms(4)
    by (simp add: dict_get_by_None)
  moreover have "dict_values (dict_by s_result_id (st_results st) @ [(s_result_id s, s)]) = st_results st @ [s]"
    using dict_values_by [OF dist, of "[s]"] by simp
  moreover have "lifecycle_step I (rc_processed_at r) (st_results st @ [s]) s (initial_lifecycle st) =
      Inl (ValueError ''confirmations'')"
  proof -
    let ?lc = "initial_lifecycle st" and ?e = "activation_event I s (the (s_as_of s)) (rc_processed_at r)
        (confirmation_count I (st_results st @ [s]) s)"
    have "open_of I s ?lc = []" using assms(8) by (auto simp: open_of_def vals filter_empty_conv)
    moreover have "may_open I (rc_processed_at r) (st_results st @ [s]) s ?lc"
      using assms(5-9) by (simp add: may_open_def vals)
    moreover have "validate_event I ?e = Inl (ValueError ''confirmations'')"
      using assms(9) by (simp add: validate_event_def activation_event_def)
    ultimately show ?thesis by (simp add: lifecycle_step_unfold Let_def)
  qed
  ultimately show ?thesis
    using assms(3) by (simp add: record_attempt_def none)
qed

text \<open>A streak of 20 results in one attempt, its candidate resolved, and a 21st result.\<close>

definition streak :: "nat \<Rightarrow> screening_result list" where
  "streak n = map (\<lambda>k. sample_at (int k)) [0..<n]"

definition streak_receipt :: monitor_receipt where
  "streak_receipt = sample_receipt\<lparr>rc_result_ids := map s_result_id (streak 20)\<rparr>"

definition streak_open :: screening_state where
  "streak_open = sample_store\<lparr>st_results := streak 20, st_receipts := [streak_receipt]\<rparr>"

definition streak_closed :: screening_state where
  "streak_closed = sample_closed\<lparr>st_results := streak 20, st_receipts := [streak_receipt]\<rparr>"

definition late_receipt :: monitor_receipt where
  "late_receipt = sample_receipt2\<lparr>rc_result_ids := [150]\<rparr>"

lemma streak_ids: "distinct (map s_result_id (streak 20))"
  "sort (map s_result_id (streak 20)) = map s_result_id (streak 20)"
  "sorted (map result_order (streak 20))"
  by (simp_all add: streak_def upt_conv_Cons result_order_def)

lemma streak_sorted: "sort_key result_order (streak 20) = streak 20"
  using streak_ids(3) by (rule sort_key_id_if_sorted)

lemma streak_first: "streak 20 = sample_at 0 # map (\<lambda>k. sample_at (int k)) [1..<20]"
  by (simp add: streak_def upt_conv_Cons)

lemma streak_known: "stream_results sample_state_ids (streak n) (sample_at (int m)) =
    sorted_reverse result_order (filter (\<lambda>s. s_known_at s \<le> 130 + int m) (streak n))"
  unfolding stream_results_def
  by (rule arg_cong [of _ _ "sorted_reverse result_order"], rule filter_cong)
     (auto simp: streak_def result_stream_def)

lemma streak_count0: "confirmation_count sample_state_ids (streak 20) (sample_at 0) = 1"
  using streak_known [of 20 0]
  by (simp add: confirmation_count_spec) (simp add: streak_def upt_conv_Cons sorted_reverse_def)

lemma keep_open:
  "\<forall>s \<in> set ss. open_of I s lc \<noteq> [] \<and> s_retained s = Some True \<Longrightarrow>
     lifecycle_steps I p rs ss lc = Inr lc"
  by (induction ss) (simp_all add: lifecycle_step_unfold)

lemma streak_steps:
  "lifecycle_steps sample_state_ids 200 (streak 20) (streak 20) (initial_lifecycle empty_state) =
     Inr (opened_lifecycle sample_event (initial_lifecycle empty_state))"
proof -
  let ?lc = "initial_lifecycle empty_state" and ?lc' = "opened_lifecycle sample_event (initial_lifecycle empty_state)"
  have "open_of sample_state_ids (sample_at 0) ?lc = []"
    "may_open sample_state_ids 200 (streak 20) (sample_at 0) ?lc"
    "dict_get (lc_candidates ?lc) k = None" for k
    by (simp_all add: open_of_def may_open_def initial_lifecycle_def empty_state_def dict_values_def
        dict_by_def streak_count0) (simp add: sample_rule_def)
  moreover have "activation_event sample_state_ids (sample_at 0) 100 200 (Suc 0) = sample_event"
    by (simp add: sample_event_def)
  ultimately have first: "lifecycle_step sample_state_ids 200 (streak 20) (sample_at 0) ?lc = Inr ?lc'"
    using sample_event_valid by (simp add: lifecycle_step_unfold Let_def streak_count0)
  have "same_stream sample_state_ids sample_event (sample_at n)" for n
    by (simp add: same_stream_def sample_event_def activation_event_def)
  then have "open_of sample_state_ids (sample_at n) ?lc' = [sample_event]" for n
    by (simp add: open_of_def opened_lifecycle_def initial_lifecycle_def empty_state_def dict_by_def
        dict_values_def)
  then have "lifecycle_steps sample_state_ids 200 (streak 20) (map (\<lambda>k. sample_at (int k)) [1..<20]) ?lc' = Inr ?lc'"
    by (intro keep_open) auto
  with first show ?thesis by (subst (2) streak_first) simp
qed

lemma streak_history: "history_ok streak_open" "history_ok streak_closed"
  using streak_ids
  by (simp_all add: history_ok_def streak_open_def streak_closed_def sample_store_def sample_closed_def
      statuses_ok_def MAX_STATE_RECORDS_def streak_receipt_def sample_receipt_def sample_resolution_def)
     (simp_all add: streak_def upt_conv_Cons)

lemma streak_recorded:
  "\<exists>out js. record_attempt sample_state_ids empty_state streak_receipt (streak 20) = Inr (out, streak_open, js)"
proof -
  have "merge_results sample_state_ids (streak 20) [] [] =
      Inr (map (\<lambda>s. (s_result_id s, s)) (streak 20), streak 20)"
    using merge_results_fresh [OF streak_ids(1), of "[]" sample_state_ids "[]"] by simp
  moreover have "dict_values (map (\<lambda>s. (s_result_id s, s)) (streak 20)) = streak 20"
    by (simp add: dict_values_def comp_def)
  moreover have "validate_history streak_open = Inr streak_open"
    using streak_history(1) by (simp add: validate_history_iff)
  ultimately show ?thesis
    using streak_steps streak_ids(2) streak_sorted
    by (simp add: record_attempt_def streak_receipt_def sample_receipt_def empty_state_def dict_by_def
        streak_open_def sample_store_def opened_lifecycle_def initial_lifecycle_def dict_values_def)
qed

lemma streak_moved:
  "\<exists>js. transition sample_state_ids streak_open 1130 RESOLVED (Aware 300 0) =
     Inr (sample_event\<lparr>e_status := RESOLVED\<rparr>, True, streak_closed, js)"
proof -
  have "validate_history streak_closed = Inr streak_closed"
    using streak_history(2) by (simp add: validate_history_iff)
  moreover have "candidate_transition_of sample_state_ids sample_event RESOLVED 300 LocalUser =
      Inr sample_resolution"
    by (simp add: candidate_transition_of_def validate_transition_def sample_resolution_def
        analytical_candidate_transition_id_def)
  ultimately show ?thesis
    by (simp add: transition_def streak_open_def streak_closed_def sample_store_def sample_closed_def
        dict_by_def dict_values_def dict_get_def Let_def)
qed

lemma streak_reachable: "reachable sample_state_ids streak_closed"
  using streak_recorded streak_moved by (blast intro: reachable.intros store_step.intros)

lemma streak_count: "confirmation_count sample_state_ids (streak 20 @ [sample_at 20]) (sample_at 20) = 21"
proof -
  have eq: "streak 20 @ [sample_at 20] = streak 21"
    by (simp add: streak_def upt_conv_Cons)
  have "filter (\<lambda>s. s_known_at s \<le> 150) (streak 21) = streak 21"
    by (simp add: streak_def upt_conv_Cons)
  then have known: "stream_results sample_state_ids (streak 21) (sample_at 20) =
      sorted_reverse result_order (streak 21)"
    using streak_known [of 21 20] by simp
  have "sorted_reverse result_order (streak 21) = rev (streak 21)"
    unfolding sorted_reverse_def by (simp add: streak_def upt_conv_Cons result_order_def)
  moreover have "distinct (map s_as_of (rev (streak 21)))" by (simp add: streak_def upt_conv_Cons)
  moreover have "\<forall>s \<in> set (rev (streak 21)). s_matched s" by (auto simp: streak_def)
  moreover have "length (streak 21) = 21" by (simp add: streak_def)
  ultimately show ?thesis
    by (simp add: eq confirmation_count_spec known first_by_distinct takeWhile_eq_all_conv [THEN iffD2])
qed

theorem long_streak_is_rejected_witness:
  "reachable sample_state_ids streak_closed \<and>
   record_attempt sample_state_ids streak_closed late_receipt [sample_at 20] = Inl (ValueError ''confirmations'')"
proof -
  have results: "st_results streak_closed = streak 20"
    and candidates: "st_candidates streak_closed = [sample_event\<lparr>e_status := RESOLVED\<rparr>]"
    and receipts: "st_receipts streak_closed = [streak_receipt]"
    by (simp_all add: streak_closed_def sample_closed_def)
  have "e_cooldown_until sample_event \<le> 1000000000000"
    by (simp add: sample_event_def activation_event_def sample_rule_def seconds_def second_us_def)
  moreover have "s_result_id (sample_at 20) \<notin> s_result_id ` set (streak 20)"
    by (simp add: streak_def upt_conv_Cons)
  moreover have "r_confirmations_required sample_rule \<le> 20" by (simp add: sample_rule_def)
  moreover have "rc_attempt_id late_receipt \<notin> rc_attempt_id ` set (st_receipts streak_closed)"
    "rc_result_ids late_receipt = [s_result_id (sample_at 20)]" "rc_processed_at late_receipt = 1000000000000"
    by (simp_all add: receipts late_receipt_def sample_receipt2_def streak_receipt_def sample_receipt_def)
  ultimately have "record_attempt sample_state_ids streak_closed late_receipt [sample_at 20] =
      Inl (ValueError ''confirmations'')"
    by (intro long_streak_is_rejected [OF streak_reachable])
       (simp_all add: results candidates streak_count)
  with streak_reachable show ?thesis by simp
qed

section \<open>User transitions\<close>

text \<open>
  Property C26. The effect of a user transition: the named candidate has the requested status
  and the state stays in the table of allowed moves, no other candidate and no result or
  receipt changes, and exactly when the status changed one transition by the user is appended
  to the history and to the journal. A resolved candidate never changes again.
\<close>
theorem transition_effect:
  assumes "reachable I st" and "transition I st cid to_status recorded = Inr (e, changed, st', js)"
  shows "\<exists>e0 \<in> set (st_candidates st). e_candidate_id e0 = cid \<and> e = e0\<lparr>e_status := to_status\<rparr> \<and>
    changed = (e_status e0 \<noteq> to_status) \<and>
    (changed \<longrightarrow> to_status \<in> set (allowed_transitions (e_status e0)) \<and> e_status e0 \<noteq> RESOLVED) \<and>
    set (st_candidates st') = insert e (set (st_candidates st) - {e0}) \<and>
    st_results st' = st_results st \<and> st_receipts st' = st_receipts st \<and>
    (\<exists>ts. mset (st_transitions st') = mset (st_transitions st) + mset ts \<and> js = map TransitionRecord ts \<and>
       length ts = (if changed then 1 else 0) \<and> (\<forall>t \<in> set ts. t_actor t = LocalUser \<and> t_candidate_id t = cid))"
  using assms(2) valid_state_historyD [OF reachable_valid [OF assms(1)]]
proof (cases rule: transition_cases)
  case same
  then show ?thesis by (intro bexI [of _ e]) auto
next
  case (moved e0 w off t)
  have "e_status e0 \<noteq> RESOLVED" "e_status e0 \<noteq> to_status"
    using moved(4) by (cases "e_status e0"; auto)+
  moreover have "(\<lambda>x. if x = e0 then e else x) ` set (st_candidates st) =
      insert e (set (st_candidates st) - {e0})"
    using moved(2) by auto
  moreover have "mset (st_transitions st') = mset (st_transitions st) + mset [t]" by (simp add: moved(14))
  ultimately show ?thesis
    using moved candidate_transition_ofD [OF moved(6)]
    by (intro bexI [of _ e0] conjI exI [of _ "[t]"]) auto
qed

theorem transition_effect_witness:
  "\<exists>e0 \<in> set (st_candidates sample_store). e_candidate_id e0 = 1130 \<and> e_status e0 \<noteq> RESOLVED \<and>
     set (st_candidates sample_closed) =
       insert (sample_event\<lparr>e_status := RESOLVED\<rparr>) (set (st_candidates sample_store) - {e0})"
  using transition_effect [OF sample_reachable sample_moved] by blast

lemma moved_history_ok:
  assumes "history_ok st" and "e \<in> set (st_candidates st)" "e_candidate_id e = cid"
    and "dict_get (dict_by e_candidate_id (st_candidates st)) cid = Some e"
    and "candidate_transition_of I e to_status p LocalUser = Inr t"
    and "\<forall>t \<in> set (st_transitions st). t_recorded_at t < p"
    and "t_transition_id t \<notin> t_transition_id ` set (st_transitions st)"
    and "length (st_transitions st) < MAX_STATE_RECORDS"
  shows "history_ok
     \<lparr>st_results = st_results st,
      st_candidates = sort_key candidate_order (dict_values
        (dict_set (dict_by e_candidate_id (st_candidates st)) cid (e\<lparr>e_status := to_status\<rparr>))),
      st_transitions = sort_key transition_order (st_transitions st @ [t]),
      st_receipts = st_receipts st\<rparr>"
proof -
  let ?d = "dict_by e_candidate_id (st_candidates st)" and ?e = "e\<lparr>e_status := to_status\<rparr>"
  let ?V = "dict_values (dict_set ?d cid ?e)"
  have k: "keyed_ok ?d" and vals: "dict_values ?d = st_candidates st"
    using keyed_dict_by [of "st_candidates st"] assms(1) by (auto simp: history_ok_def)
  have k': "keyed_ok (dict_set ?d cid ?e)" using assms(3) by (intro keyed_set [OF k]) simp
  have V: "set ?V = insert ?e {x \<in> set (st_candidates st). e_candidate_id x \<noteq> cid}"
    using keyed_values_set [OF k, of ?e cid] assms(3) by (simp add: vals)
  have ids: "e_candidate_id ` set ?V = e_candidate_id ` set (st_candidates st)"
    unfolding V using assms(2,3) by (auto intro: rev_image_eqI)
  have "set (map e_candidate_id ?V) = set (map e_candidate_id (st_candidates st))"
    using ids by (simp only: set_map)
  then have len: "length ?V = length (st_candidates st)"
    using keyed_values_distinct [OF k'] keyed_values_distinct [OF k]
    by (metis distinct_card length_map vals)
  note tD = candidate_transition_ofD [OF assms(5)]
  have split: "sort_key transition_order (st_transitions st @ [t]) = st_transitions st @ [t]"
  proof -
    have "transition_order a < transition_order t" if "a \<in> set (st_transitions st)" for a
      using assms(6) tD that by (simp add: transition_order_def less_prod_def)
    moreover have "sort_key transition_order (st_transitions st) = st_transitions st"
      using assms(1) by (simp add: history_ok_def sort_key_id_if_sorted)
    ultimately show ?thesis using sort_key_append_before [of "st_transitions st" "[t]" transition_order] by simp
  qed
  have "chain NEW (of_candidate (e_candidate_id x) (st_transitions st @ [t])) = Some (e_status x)"
    if "x \<in> set ?V" for x
  proof (cases "x = ?e")
    case True
    have "chain NEW (of_candidate (e_candidate_id e) (st_transitions st)) = Some (e_status e)"
      using assms(1,2) by (simp add: history_ok_def statuses_ok_def)
    with True tD show ?thesis by (simp add: chain_append)
  next
    case False
    with that have "x \<in> set (st_candidates st)" "e_candidate_id x \<noteq> cid" by (auto simp: V)
    with assms(1,3) tD show ?thesis by (simp add: history_ok_def statuses_ok_def)
  qed
  then have "statuses_ok (sort_key candidate_order ?V) (sort_key transition_order (st_transitions st @ [t]))"
    by (simp add: statuses_ok_def split)
  moreover have "e_activation_result_id ` set ?V \<subseteq> e_activation_result_id ` set (st_candidates st)"
    unfolding V using assms(2) by auto
  moreover have "t_candidate_id t \<in> e_candidate_id ` set (st_candidates st)"
    using tD assms(2) by simp
  ultimately show ?thesis
    using assms(1,7,8) ids len keyed_values_distinct [OF k']
    unfolding history_ok_def by (simp add: subset_trans)
qed

text \<open>
  A user transition recorded after the candidate's history succeeds exactly when
  the target is not new, the candidate exists, and the target is its status already or allowed
  by the table. (The new identity must not collide and the history must have room.)
\<close>
lemma transition_succeeds_iff:
  assumes "reachable I st" and "\<forall>t \<in> set (st_transitions st). t_recorded_at t < w - off"
    and "\<forall>from. uuid_transition I (cid, from, to_status, w - off, LocalUser) \<notin>
      t_transition_id ` set (st_transitions st)"
    and "length (st_transitions st) < MAX_STATE_RECORDS"
  shows "(\<exists>out. transition I st cid to_status (Aware w off) = Inr out) =
    (to_status \<noteq> NEW \<and> (\<exists>e \<in> set (st_candidates st). e_candidate_id e = cid \<and>
       (e_status e = to_status \<or> to_status \<in> set (allowed_transitions (e_status e)))))"
proof -
  have v: "valid_state I st" by (rule reachable_valid [OF assms(1)])
  then have h: "history_ok st" by (simp add: valid_state_def)
  let ?d = "dict_by e_candidate_id (st_candidates st)"
  have k: "keyed_ok ?d" and vals: "dict_values ?d = st_candidates st"
    using keyed_dict_by [of "st_candidates st"] h by (auto simp: history_ok_def)
  show ?thesis
  proof
    assume "\<exists>out. transition I st cid to_status (Aware w off) = Inr out"
    then obtain e0 where "dict_get ?d cid = Some e0" "to_status \<noteq> NEW"
      "e_status e0 = to_status \<or> to_status \<in> set (allowed_transitions (e_status e0))"
      by (auto simp: transition_def Let_def split: if_splits option.splits)
    then show "to_status \<noteq> NEW \<and> (\<exists>e \<in> set (st_candidates st). e_candidate_id e = cid \<and>
       (e_status e = to_status \<or> to_status \<in> set (allowed_transitions (e_status e))))"
      by (auto dest: dict_get_by_SomeD)
  next
    assume "to_status \<noteq> NEW \<and> (\<exists>e \<in> set (st_candidates st). e_candidate_id e = cid \<and>
       (e_status e = to_status \<or> to_status \<in> set (allowed_transitions (e_status e))))"
    then obtain e where e: "e \<in> set (st_candidates st)" "e_candidate_id e = cid" and new: "to_status \<noteq> NEW"
      and al: "e_status e = to_status \<or> to_status \<in> set (allowed_transitions (e_status e))" by blast
    from e have get: "dict_get ?d cid = Some e" using keyed_values_get [OF k, of e] by (simp add: vals)
    show "\<exists>out. transition I st cid to_status (Aware w off) = Inr out"
    proof (cases "e_status e = to_status")
      case True
      with get new have "transition I st cid to_status (Aware w off) = Inr (e, False, st, [])"
        by (simp add: transition_def)
      then show ?thesis by blast
    next
      case False
      then have allowed: "to_status \<in> set (allowed_transitions (e_status e))" using al by blast
      let ?e = "e\<lparr>e_status := to_status\<rparr>"
      obtain t where t: "candidate_transition_of I e to_status (w - off) LocalUser = Inr t"
        using False by (auto simp: candidate_transition_of_def validate_transition_def)
      note tD = candidate_transition_ofD [OF t]
      then have "t_transition_id t = uuid_transition I (cid, e_status e, to_status, w - off, LocalUser)"
        using valid_transition_id [of I t] e(2) by (simp add: transition_payload_def)
      then have fresh: "t_transition_id t \<notin> t_transition_id ` set (st_transitions st)" using assms(3) by simp
      have "history_ok
         \<lparr>st_results = st_results st,
          st_candidates = sort_key candidate_order (dict_values (dict_set ?d cid ?e)),
          st_transitions = sort_key transition_order (st_transitions st @ [t]),
          st_receipts = st_receipts st\<rparr>"
        by (rule moved_history_ok [OF h e get t]) (use assms(2,4) fresh in auto)
      then have "\<exists>st'. transition I st cid to_status (Aware w off) = Inr (?e, True, st', [TransitionRecord t])"
        using new get False allowed t by (simp add: transition_def Let_def validate_history_iff [THEN iffD2])
      then show ?thesis by blast
    qed
  qed
qed

lemma transition_succeeds_iff_witness:
  "(\<exists>out. transition sample_state_ids sample_store 1130 SEEN (Aware 250 0) = Inr out) =
    (SEEN \<noteq> NEW \<and> (\<exists>e \<in> set (st_candidates sample_store). e_candidate_id e = 1130 \<and>
       (e_status e = SEEN \<or> SEEN \<in> set (allowed_transitions (e_status e)))))"
  by (rule transition_succeeds_iff [OF sample_reachable])
     (simp_all add: sample_store_def MAX_STATE_RECORDS_def)

section \<open>The inbox\<close>

lemma sorted_reverse_sorted: "sorted_wrt (\<lambda>x y. key y \<le> key x) (sorted_reverse key xs)"
proof -
  have "sorted_wrt (\<lambda>x y. key x \<le> key y) (sort_key key (rev xs))"
    using sorted_map_sort_key [of key "rev xs"] by (simp add: sorted_map del: sorted_map_sort_key)
  then show ?thesis by (simp add: sorted_reverse_def sorted_wrt_rev)
qed

text \<open>
  The inbox never fails on a reachable state for a limit between 1 and 200: it
  returns the limit's many newest candidates (all of them if there are fewer), newest first,
  nothing left out is newer than what is shown, and each is joined to its activation result.
\<close>
lemma inbox_newest_first:
  assumes "reachable I st" and "1 \<le> limit" and "limit \<le> 200"
  shows "\<exists>page. inbox st limit = Inr page \<and> ip_total page = length (st_candidates st) \<and>
    length (ip_items page) = min (nat limit) (length (st_candidates st)) \<and>
    sorted_wrt (\<lambda>a b. candidate_order (ii_event b) \<le> candidate_order (ii_event a)) (ip_items page) \<and>
    (\<forall>e \<in> set (st_candidates st) - ii_event ` set (ip_items page).
       \<forall>i \<in> set (ip_items page). candidate_order e \<le> candidate_order (ii_event i)) \<and>
    (\<forall>i \<in> set (ip_items page). ii_event i \<in> set (st_candidates st) \<and> ii_result i \<in> set (st_results st) \<and>
       s_result_id (ii_result i) = e_activation_result_id (ii_event i))"
proof -
  have h: "history_ok st" using reachable_valid [OF assms(1)] by (simp add: valid_state_def)
  let ?es = "sorted_reverse candidate_order (st_candidates st)" and ?n = "nat limit"
  let ?d = "dict_by s_result_id (st_results st)"
  let ?item = "\<lambda>e. \<lparr>ii_event = e, ii_result = the (dict_get ?d (e_activation_result_id e))\<rparr>"
  have es: "set ?es = set (st_candidates st)" "length ?es = length (st_candidates st)"
    by (simp_all add: sorted_reverse_def)
  have join: "\<exists>s \<in> set (st_results st). dict_get ?d (e_activation_result_id e) = Some s \<and>
      s_result_id s = e_activation_result_id e" if "e \<in> set ?es" for e
  proof -
    have "e_activation_result_id e \<in> s_result_id ` set (st_results st)"
      using h that es(1) unfolding history_ok_def by blast
    then show ?thesis using dict_get_by_None [of s_result_id "st_results st"]
      by (cases "dict_get ?d (e_activation_result_id e)") (auto dest: dict_get_by_SomeD)
  qed
  have "traverse (\<lambda>e. case dict_get ?d (e_activation_result_id e) of
      None \<Rightarrow> Inl (KeyError ''activation_result_id'')
    | Some s \<Rightarrow> Inr \<lparr>ii_event = e, ii_result = s\<rparr>) (take ?n ?es) = Inr (map ?item (take ?n ?es))"
  proof (rule traverse_Inr_map)
    fix e assume "e \<in> set (take ?n ?es)"
    then have "e \<in> set ?es" by (rule in_set_takeD)
    from join [OF this] show "(case dict_get ?d (e_activation_result_id e) of
      None \<Rightarrow> Inl (KeyError ''activation_result_id'')
    | Some s \<Rightarrow> Inr \<lparr>ii_event = e, ii_result = s\<rparr>) = Inr (?item e)" by auto
  qed
  then have page: "inbox st limit = Inr \<lparr>ip_total = length ?es, ip_items = map ?item (take ?n ?es)\<rparr>"
    using assms(2,3) by (simp add: inbox_def Let_def)
  have sorted: "sorted_wrt (\<lambda>x y. candidate_order y \<le> candidate_order x) (take ?n ?es @ drop ?n ?es)"
    using sorted_reverse_sorted [of candidate_order "st_candidates st"] by simp
  have rest: "candidate_order e \<le> candidate_order x"
    if "e \<in> set ?es" "e \<notin> set (take ?n ?es)" "x \<in> set (take ?n ?es)" for e x
  proof -
    have "e \<in> set (drop ?n ?es)" using that(1,2) by (metis Un_iff append_take_drop_id set_append)
    with sorted that(3) show ?thesis unfolding sorted_wrt_append by blast
  qed
  have events: "ii_event ` set (map ?item (take ?n ?es)) = set (take ?n ?es)" by (simp add: image_image)
  have joined: "\<forall>e \<in> set (take ?n ?es). e \<in> set (st_candidates st) \<and> ii_result (?item e) \<in> set (st_results st) \<and>
      s_result_id (ii_result (?item e)) = e_activation_result_id e"
    using join es(1) by (fastforce dest: in_set_takeD)
  have order: "sorted_wrt (\<lambda>a b. candidate_order (ii_event b) \<le> candidate_order (ii_event a))
      (map ?item (take ?n ?es))"
    using sorted by (simp add: sorted_wrt_map sorted_wrt_append)
  show ?thesis
    by (intro exI [of _ "\<lparr>ip_total = length ?es, ip_items = map ?item (take ?n ?es)\<rparr>"] conjI page)
       (use es rest joined order in \<open>simp_all add: events image_image min.commute\<close>)
qed

lemma inbox_newest_first_witness:
  "\<exists>page. inbox sample_pair 1 = Inr page \<and> length (ip_items page) = 1"
  using inbox_newest_first [OF sample_pair_reachable, of 1] by (auto simp: sample_pair_def)

end
