(* ===== verification/CandidateRecovery.thy ===== *)
theory CandidateRecovery
  imports InboxProperties
begin

text \<open>
  Recovering the candidate store after a restart (\<^verbatim>\<open>AnalyticalScreeningStateStore.load\<close>)
  from the JSON snapshot and the journal's records, and the reduction the journal applies when it
  folds segments. The store is followed together with the records it appends; recovery gives back
  exactly the state from the journal alone, and from the synchronised snapshot with the journal.
\<close>

section \<open>Loading\<close>

fun result_of :: "journal_record \<Rightarrow> screening_result option" where
  "result_of (ResultRecord s) = Some s"
| "result_of _ = None"

fun candidate_of :: "journal_record \<Rightarrow> candidate_event option" where
  "candidate_of (CandidateRecord e) = Some e"
| "candidate_of _ = None"

fun transition_of :: "journal_record \<Rightarrow> candidate_transition option" where
  "transition_of (TransitionRecord t) = Some t"
| "transition_of _ = None"

fun receipt_of :: "journal_record \<Rightarrow> monitor_receipt option" where
  "receipt_of (ReceiptRecord r) = Some r"
| "receipt_of _ = None"

definition malformed :: py_error where
  "malformed = StateError ''analytical screening state is malformed or unreadable''"

definition or_malformed :: "'a result \<Rightarrow> 'a result" where
  "or_malformed r = (case r of Inl _ \<Rightarrow> Inl malformed | Inr x \<Rightarrow> Inr x)"

fun validate_record :: "('x) state_ids_scheme \<Rightarrow> journal_record \<Rightarrow> journal_record result" where
  "validate_record I (ResultRecord s) = bind_r (validate_result I s) (\<lambda>s. Inr (ResultRecord s))"
| "validate_record I (CandidateRecord e) = bind_r (validate_event I e) (\<lambda>e. Inr (CandidateRecord e))"
| "validate_record I (TransitionRecord t) = bind_r (validate_transition I t) (\<lambda>t. Inr (TransitionRecord t))"
| "validate_record I (ReceiptRecord r) = bind_r (validate_receipt r) (\<lambda>r. Inr (ReceiptRecord r))"

text \<open>A journal entry is \<open>None\<close> when it is no record of one of the four collections.\<close>

definition read_record :: "('x) state_ids_scheme \<Rightarrow> journal_record option \<Rightarrow> journal_record result" where
  "read_record I entry =
     (case entry of None \<Rightarrow> Inl malformed | Some record \<Rightarrow> or_malformed (validate_record I record))"

lemma or_malformed_Inl [simp]: "or_malformed r = Inl e \<longleftrightarrow> e = malformed \<and> (\<exists>x. r = Inl x)"
  by (cases r) (auto simp: or_malformed_def)

lemma or_malformed_Inr [simp]: "or_malformed r = Inr x \<longleftrightarrow> r = Inr x"
  by (cases r) (simp_all add: or_malformed_def)

text \<open>\<^verbatim>\<open>AnalyticalScreeningState.model_validate_json\<close>: every member, then the history.\<close>

definition validate_document :: "('x) state_ids_scheme \<Rightarrow> screening_state \<Rightarrow> screening_state result" where
  "validate_document I st =
     bind_r (traverse (validate_result I) (st_results st)) (\<lambda>_.
     bind_r (traverse (validate_event I) (st_candidates st)) (\<lambda>_.
     bind_r (traverse (validate_transition I) (st_transitions st)) (\<lambda>_.
     bind_r (traverse validate_receipt (st_receipts st)) (\<lambda>_. validate_history st))))"

text \<open>Keep the first item of an identity; a later one must have the same fingerprint.\<close>

fun merge_first ::
  "('a \<Rightarrow> 'k) \<Rightarrow> ('a \<Rightarrow> string) \<Rightarrow> py_error \<Rightarrow> 'a list \<Rightarrow> ('k, 'a) dict \<Rightarrow> ('k, 'a) dict result" where
  "merge_first key fp err [] d = Inr d"
| "merge_first key fp err (x # xs) d =
     (case dict_get d (key x) of
        Some existing \<Rightarrow> (if fp existing \<noteq> fp x then Inl err else merge_first key fp err xs d)
      | None \<Rightarrow> merge_first key fp err xs (dict_set d (key x) x))"

text \<open>Every candidate with the status its transitions project.\<close>

definition project_candidates ::
  "(uuid, candidate_event) dict \<Rightarrow> candidate_transition list \<Rightarrow> candidate_event list" where
  "project_candidates by_candidate sorted_transitions =
     (let projected = fold (\<lambda>t d. dict_set d (t_candidate_id t) (t_to_status t)) sorted_transitions
            (map (\<lambda>e. (e_candidate_id e, NEW)) (dict_values by_candidate)) in
      map (\<lambda>(cid, e). e\<lparr>e_status :=
        (case dict_get projected cid of Some s \<Rightarrow> s | None \<Rightarrow> e_status e)\<rparr>) by_candidate)"

lemma project_candidates_ids:
  "e_candidate_id ` set (project_candidates d ts) = e_candidate_id ` set (dict_values d)"
  by (simp add: project_candidates_def Let_def image_image case_prod_beta dict_values_def)

definition rebuild ::
  "('x) state_ids_scheme \<Rightarrow> screening_state \<Rightarrow> screening_result list \<Rightarrow> candidate_event list \<Rightarrow>
     candidate_transition list \<Rightarrow> monitor_receipt list \<Rightarrow> screening_state result" where
  "rebuild I legacy results candidates transitions receipts =
     bind_r (merge_first s_result_id (result_fingerprint I)
         (StateError ''analytical recomputation changed deterministic semantics'') results
         (dict_by s_result_id (st_results legacy))) (\<lambda>by_result.
     bind_r (merge_first e_candidate_id (candidate_fingerprint I)
         (StateError ''candidate recomputation changed deterministic semantics'') candidates
         (dict_by e_candidate_id (st_candidates legacy))) (\<lambda>by_candidate.
     let by_transition = fold (\<lambda>t d. dict_set d (t_transition_id t) t) transitions
           (dict_by t_transition_id (st_transitions legacy)) in
     bind_r (merge_first rc_attempt_id (receipt_fingerprint I)
         (StateError ''analytical attempt replay changed receipt semantics'') receipts
         (dict_by rc_attempt_id (st_receipts legacy))) (\<lambda>by_receipt.
     let sorted_transitions = sort_key transition_order (dict_values by_transition);
         updated_candidates = project_candidates by_candidate sorted_transitions in
     or_malformed (validate_history
       \<lparr>st_results = sort_key result_order (dict_values by_result),
        st_candidates = sort_key candidate_order updated_candidates,
        st_transitions = sorted_transitions,
        st_receipts = sort_key receipt_order (dict_values by_receipt)\<rparr>))))"

text \<open>
  \<open>legacy\<close> is the document at \<^verbatim>\<open>_path\<close> if the file exists, \<open>preexisting\<close> says that it was
  there before the journal, \<open>folded\<close> that it has been folded into it.
\<close>

definition load ::
  "('x) state_ids_scheme \<Rightarrow> bool \<Rightarrow> bool \<Rightarrow> bool \<Rightarrow> screening_state option \<Rightarrow> screening_state option \<Rightarrow>
     journal_record option list \<Rightarrow> screening_state result" where
  "load I preexisting folded has_journal cached legacy entries =
     bind_r (case legacy of None \<Rightarrow> Inr () | Some st \<Rightarrow>
               bind_r (or_malformed (validate_document I st)) (\<lambda>_. Inr ())) (\<lambda>_.
     case cached of
       Some st \<Rightarrow> Inr st
     | None \<Rightarrow>
         if \<not> has_journal \<and> legacy = None then Inr empty_state
         else
           (let document = (case legacy of None \<Rightarrow> empty_state | Some st \<Rightarrow>
                  if preexisting \<and> folded then empty_state else st) in
            bind_r (traverse (read_record I) entries) (\<lambda>records.
              let results = List.map_filter result_of records;
                  candidates = List.map_filter candidate_of records;
                  transitions = List.map_filter transition_of records;
                  receipts = List.map_filter receipt_of records in
              (case (preexisting, legacy) of
                 (False, Some st) \<Rightarrow>
                   rebuild I document
                     (filter (\<lambda>s. s_result_id s \<in> s_result_id ` set (st_results st)) results)
                     (filter (\<lambda>e. e_candidate_id e \<in> e_candidate_id ` set (st_candidates st)) candidates)
                     transitions
                     (filter (\<lambda>r. rc_attempt_id r \<in> rc_attempt_id ` set (st_receipts st)) receipts)
               | _ \<Rightarrow> rebuild I document results candidates transitions receipts))))"

section \<open>Reducing records\<close>

text \<open>
  \<^verbatim>\<open>_reduce_analytical_screening_records\<close>: the last record of every identity, each
  collection sorted by its ISO time (\<open>iso_text\<close>) and identity.
\<close>

definition reduce_records :: "(utc \<Rightarrow> string) \<Rightarrow> journal_record list \<Rightarrow> journal_record list" where
  "reduce_records iso_text records =
     map ResultRecord (sort_key (\<lambda>s. (iso_text (s_known_at s), s_result_id s))
       (dict_values (dict_by s_result_id (List.map_filter result_of records)))) @
     map CandidateRecord (sort_key (\<lambda>e. (iso_text (e_activated_at e), e_candidate_id e))
       (dict_values (dict_by e_candidate_id (List.map_filter candidate_of records)))) @
     map TransitionRecord (sort_key (\<lambda>t. (iso_text (t_recorded_at t), t_transition_id t))
       (dict_values (dict_by t_transition_id (List.map_filter transition_of records)))) @
     map ReceiptRecord (sort_key (\<lambda>r. (iso_text (rc_processed_at r), rc_attempt_id r))
       (dict_values (dict_by rc_attempt_id (List.map_filter receipt_of records))))"

lemma bind_r_InrE:
  assumes "bind_r r f = Inr y"
  obtains x where "r = Inr x" "f x = Inr y"
  using assms by (auto simp: bind_r_eq_Inr)

section \<open>Replaying transitions\<close>

lemma projected_last:
  assumes "chain s (of_candidate i ts) = Some s'" and "dict_get d i = Some s"
  shows "dict_get (fold (\<lambda>t d. dict_set d (t_candidate_id t) (t_to_status t)) ts d) i = Some s'"
  using assms by (induction ts arbitrary: d s) (auto split: if_splits)

lemma updated_candidate:
  assumes "statuses_ok es ts" and "e \<in> set es" and "e_candidate_id e \<in> e_candidate_id ` set cs"
  shows "dict_get (fold (\<lambda>t d. dict_set d (t_candidate_id t) (t_to_status t)) ts
      (map (\<lambda>e. (e_candidate_id e, NEW)) cs)) (e_candidate_id e) = Some (e_status e)"
proof (rule projected_last)
  show "chain NEW (of_candidate (e_candidate_id e) ts) = Some (e_status e)"
    using assms(1,2) by (simp add: statuses_ok_def)
  show "dict_get (map (\<lambda>e. (e_candidate_id e, NEW)) cs) (e_candidate_id e) = Some NEW"
    using assms(3) by (induction cs) (auto simp: dict_get_def)
qed

section \<open>Merging\<close>

lemma merge_first_fresh:
  assumes "distinct (map key xs)" and "\<forall>x \<in> set xs. dict_get d (key x) = None"
  shows "merge_first key fp err xs d = Inr (d @ map (\<lambda>x. (key x, x)) xs)"
  using assms
proof (induction xs arbitrary: d)
  case (Cons x xs)
  have "\<forall>y \<in> set xs. dict_get (dict_set d (key x) x) (key y) = None"
    using Cons.prems by (auto simp: image_iff)
  with Cons show ?case by (simp add: dict_set_fresh)
qed simp

lemma merge_first_known:
  assumes "\<forall>x \<in> set xs. \<exists>y. dict_get d (key x) = Some y \<and> fp y = fp x"
  shows "merge_first key fp err xs d = Inr d"
  using assms by (induction xs) auto

lemma dict_set_same: "dict_get d k = Some v \<Longrightarrow> dict_set d k v = d"
  by (induction d k v rule: dict_set.induct) (auto simp: dict_get_def split: if_splits)

lemma fold_set_same:
  "\<forall>x \<in> set xs. dict_get d (key x) = Some x \<Longrightarrow> fold (\<lambda>x d. dict_set d (key x) x) xs d = d"
  by (induction xs) (simp_all add: dict_set_same)

section \<open>The store with its journal\<close>

abbreviation as_new :: "candidate_event \<Rightarrow> candidate_event" where
  "as_new e \<equiv> e\<lparr>e_status := NEW\<rparr>"

text \<open>The journal holds every item of the state once, candidates as they were created.\<close>

definition covers :: "screening_state \<Rightarrow> journal_record list \<Rightarrow> bool" where
  "covers st js \<longleftrightarrow>
     mset (List.map_filter result_of js) = mset (st_results st) \<and>
     mset (List.map_filter candidate_of js) = mset (map as_new (st_candidates st)) \<and>
     mset (List.map_filter transition_of js) = mset (st_transitions st) \<and>
     mset (List.map_filter receipt_of js) = mset (st_receipts st)"

inductive journaled ::
  "('x) state_ids_scheme \<Rightarrow> screening_state \<Rightarrow> journal_record list \<Rightarrow> bool" for I where
  nothing: "journaled I empty_state []"
| attempted: "journaled I st js \<Longrightarrow> record_attempt I st r rs = Inr (out, st', js') \<Longrightarrow>
    validate_receipt r = Inr r \<Longrightarrow> \<forall>s \<in> set rs. validate_result I s = Inr s \<Longrightarrow>
    journaled I st' (js @ js')"
| moved: "journaled I st js \<Longrightarrow> transition I st cid to_status recorded = Inr (e, changed, st', js') \<Longrightarrow>
    journaled I st' (js @ js')"

lemma map_filter_append [simp]: "List.map_filter f (xs @ ys) = List.map_filter f xs @ List.map_filter f ys"
  by (induction xs) (auto simp: List.map_filter_def)

lemma map_filter_map_Some: "(\<And>x. f (g x) = Some x) \<Longrightarrow> List.map_filter f (map g xs) = xs"
  by (induction xs) (simp_all add: List.map_filter_simps)

lemma map_filter_map_None: "(\<And>x. f (g x) = None) \<Longrightarrow> List.map_filter f (map g xs) = []"
  by (induction xs) (simp_all add: List.map_filter_simps)

lemmas filter_records = map_filter_map_Some map_filter_map_None List.map_filter_simps

lemma journaled_reachable: "journaled I st js \<Longrightarrow> reachable I st"
  by (induction rule: journaled.induct) (blast intro: reachable.intros store_step.intros)+

lemma values_set_same:
  assumes "dict_get d k = Some v" and "f v' = f v"
  shows "map f (dict_values (dict_set d k v')) = map f (dict_values d)"
  using assms by (induction d k v' rule: dict_set.induct)
    (auto simp: dict_get_def dict_values_def split: if_splits)

lemma resolved_as_new:
  assumes "\<forall>e \<in> set es. \<exists>e0. dict_get d (e_candidate_id e) = Some e0 \<and> as_new e0 = as_new e"
  shows "map as_new (dict_values (fold (\<lambda>e d. dict_set d (e_candidate_id e) (e\<lparr>e_status := RESOLVED\<rparr>)) es d))
    = map as_new (dict_values d)"
  using assms
proof (induction es arbitrary: d)
  case (Cons e es)
  then obtain e0 where e0: "dict_get d (e_candidate_id e) = Some e0" "as_new e0 = as_new e" by auto
  let ?d = "dict_set d (e_candidate_id e) (e\<lparr>e_status := RESOLVED\<rparr>)"
  have eq: "map as_new (dict_values ?d) = map as_new (dict_values d)"
    by (rule values_set_same [where f = as_new, OF e0(1)]) (use e0(2) in simp)
  have "\<forall>x \<in> set es. \<exists>e0. dict_get ?d (e_candidate_id x) = Some e0 \<and> as_new e0 = as_new x"
  proof
    fix x assume "x \<in> set es"
    with Cons.prems obtain x0 where "dict_get d (e_candidate_id x) = Some x0" "as_new x0 = as_new x" by auto
    with e0 show "\<exists>e0. dict_get ?d (e_candidate_id x) = Some e0 \<and> as_new e0 = as_new x" by auto
  qed
  from Cons.IH [OF this] eq show ?case by simp
qed simp

lemma lifecycle_step_as_new:
  assumes "lifecycle_step I p rs s lc = Inr lc'" and "keyed_ok (lc_candidates lc)"
    and "map as_new (dict_values (lc_candidates lc)) = base @ lc_created lc"
  shows "map as_new (dict_values (lc_candidates lc')) = base @ lc_created lc'"
  using assms(1)
proof (cases rule: lifecycle_step_cases)
  case kept
  with assms(3) show ?thesis by simp
next
  case resolved
  have "\<forall>e \<in> set (open_of I s lc). \<exists>e0. dict_get (lc_candidates lc) (e_candidate_id e) = Some e0 \<and>
      as_new e0 = as_new e"
    using open_of_props(2) [OF assms(2)] keyed_values_get [OF assms(2)] by blast
  from resolved_as_new [OF this] show ?thesis
    using assms(3) resolved(2) by (simp add: resolved_lifecycle_def)
next
  case (opened e)
  have "e_status e = NEW" by (simp add: opened(3) activation_event_def)
  then have "as_new e = e" by simp
  moreover have "dict_values (dict_set (lc_candidates lc) (e_candidate_id e) e) =
      dict_values (lc_candidates lc) @ [e]"
    by (simp add: dict_set_fresh [OF opened(5)] dict_values_def)
  ultimately show ?thesis using assms(3) by (simp add: opened(6) opened_lifecycle_def)
qed

lemma lifecycle_steps_as_new:
  assumes "lifecycle_steps I p rs ss lc = Inr lc'" and "candidates_ok I lc"
    and "map as_new (dict_values (lc_candidates lc)) = base @ lc_created lc"
  shows "map as_new (dict_values (lc_candidates lc')) = base @ lc_created lc'"
proof -
  have "candidates_ok I lc' \<and> map as_new (dict_values (lc_candidates lc')) = base @ lc_created lc'"
    using assms(1)
  proof (rule lifecycle_steps_invariant [where P = "\<lambda>lc. candidates_ok I lc \<and>
      map as_new (dict_values (lc_candidates lc)) = base @ lc_created lc"])
    fix s l l' assume "candidates_ok I l \<and> map as_new (dict_values (lc_candidates l)) = base @ lc_created l"
      "lifecycle_step I p rs s l = Inr l'"
    then show "candidates_ok I l' \<and> map as_new (dict_values (lc_candidates l')) = base @ lc_created l'"
      using lifecycle_step_as_new lifecycle_step_keeps by (metis candidates_ok_def)
  qed (use assms(2,3) in blast)
  then show ?thesis by blast
qed

lemma distinct_map_key: "distinct (map g xs) \<Longrightarrow> (\<And>x. g (f x) = g x) \<Longrightarrow> distinct (map f xs)"
  by (auto simp: distinct_map inj_on_def) metis

lemma journaled_covers:
  assumes "journaled I st js"
  shows "covers st js \<and> (\<forall>j \<in> set js. validate_record I j = Inr j)"
  using assms
proof (induction rule: journaled.induct)
  case nothing
  show ?case by (simp add: covers_def empty_state_def List.map_filter_simps)
next
  case (attempted st js r rs out st' js')
  have v: "valid_state I st" by (rule reachable_valid [OF journaled_reachable]) fact
  from attempted.hyps(2) valid_state_historyD [OF v] show ?case
  proof (cases rule: record_attempt_cases)
    case (replayed old)
    with attempted.IH show ?thesis by simp
  next
    case (recorded new lc)
    have h: "history_ok st" using v by (simp add: valid_state_def)
    note run = recorded_run_ok [OF v recorded(6,5)]
    have init: "map as_new (dict_values (lc_candidates (initial_lifecycle st))) =
        map as_new (st_candidates st) @ lc_created (initial_lifecycle st)"
      by (simp add: initial_candidates(2) [OF h]) (simp add: initial_lifecycle_def)
    have "candidates_ok I (initial_lifecycle st)"
      by (rule run_okD(1) [OF initial_run_ok [OF v subset_refl]])
    from lifecycle_steps_as_new [OF recorded(6) this init]
    have cands: "map as_new (dict_values (lc_candidates lc)) = map as_new (st_candidates st) @ lc_created lc" .
    have "mset (map as_new (st_candidates st')) = image_mset as_new (mset (dict_values (lc_candidates lc)))"
      by (simp add: recorded(7) recorded_state_def)
    also have "\<dots> = mset (map as_new (st_candidates st)) + mset (lc_created lc)"
      using arg_cong [OF cands, of mset] by simp
    finally have cs: "mset (map as_new (st_candidates st')) =
        mset (map as_new (st_candidates st)) + mset (lc_created lc)" .
    have "covers st' (js @ js')"
      using attempted.IH cs unfolding covers_def
      by (simp add: recorded(9) filter_records) (simp add: recorded(7) recorded_state_def)
    moreover have "validate_record I j = Inr j" if "j \<in> set js'" for j
    proof -
      have "validate_event I e = Inr e" if "e \<in> set (lc_created lc)" for e
        using lifecycle_steps_opened [OF recorded(6) that] by (auto simp: initial_lifecycle_def)
      moreover have "validate_transition I t = Inr t" if "t \<in> set (lc_transitions lc)" for t
        using run_okD(5) [OF run that] resolution_valid by blast
      ultimately show ?thesis
        using that attempted.hyps(3,4) recorded(3) by (auto simp: recorded(9))
    qed
    ultimately show ?thesis using attempted.IH by auto
  qed
next
  case (moved st js cid to_status recorded e changed st' js')
  have v: "valid_state I st" by (rule reachable_valid [OF journaled_reachable]) fact
  from moved.hyps(2) valid_state_historyD [OF v] show ?case
  proof (cases rule: transition_cases)
    case same
    with moved.IH show ?thesis by simp
  next
    case (moved e0 w off t)
    have h: "history_ok st" "history_ok st'" using v moved(10) by (simp_all add: valid_state_def)
    have "as_new e = as_new e0" using moved(7) by simp
    then have img: "as_new ` set (st_candidates st') = as_new ` set (st_candidates st)"
      unfolding moved(13) image_image by (intro image_cong) auto
    have "distinct (map as_new (st_candidates x))" if "history_ok x" for x
    proof (rule distinct_map_key [where g = e_candidate_id])
      show "distinct (map e_candidate_id (st_candidates x))" using that by (simp add: history_ok_def)
    qed simp
    then have "mset (map as_new (st_candidates st')) = mset (map as_new (st_candidates st))"
      using h img by (intro set_eq_iff_mset_eq_distinct [THEN iffD1]) (simp_all del: mset_map)
    then have "covers st' (js @ js')"
      using \<open>covers st js \<and> _\<close> unfolding covers_def
      by (simp add: moved(9,11,12,14) filter_records)
    moreover have "validate_transition I t = Inr t" using candidate_transition_ofD [OF moved(6)] by simp
    ultimately show ?thesis using \<open>covers st js \<and> _\<close> by (simp add: moved(9))
  qed
qed

section \<open>Recovery from the journal alone\<close>

lemma sort_key_recovers:
  assumes "mset xs = mset ys" and "sorted (map f ys)" and "distinct (map g ys)"
    and "\<And>x y. f x = f y \<Longrightarrow> g x = g y"
  shows "sort_key f xs = ys"
proof (rule sort_key_inj_key_eq [OF assms(1) _ assms(2)])
  have "inj_on g (set xs)" using assms(1,3) by (metis distinct_map mset_eq_setD)
  then show "inj_on f (set xs)" using assms(4) by (meson inj_on_def)
qed

lemma values_of_pairs: "dict_values (map (\<lambda>x. (key x, x)) xs) = xs"
  by (simp add: dict_values_def comp_def)

lemma mset_distinct_map:
  assumes "mset xs = mset ys" and "distinct (map f ys)"
  shows "distinct (map f xs)"
  using assms arg_cong [OF assms(1), of "image_mset f"]
  by (metis mset_eq_imp_distinct_iff mset_map)

lemma covers_distinct:
  assumes "history_ok st" and "covers st js"
  shows "distinct (map s_result_id (List.map_filter result_of js))"
    and "distinct (map e_candidate_id (List.map_filter candidate_of js))"
    and "distinct (map t_transition_id (List.map_filter transition_of js))"
    and "distinct (map rc_attempt_id (List.map_filter receipt_of js))"
proof -
  show "distinct (map e_candidate_id (List.map_filter candidate_of js))"
    by (rule mset_distinct_map [of _ "map as_new (st_candidates st)"])
       (use assms in \<open>simp_all add: covers_def history_ok_def comp_def\<close>)
qed (use assms in \<open>auto simp: covers_def history_ok_def intro: mset_distinct_map\<close>)

lemma map_filter_sources:
  "s \<in> set (List.map_filter result_of js) \<Longrightarrow> ResultRecord s \<in> set js"
  "e \<in> set (List.map_filter candidate_of js) \<Longrightarrow> CandidateRecord e \<in> set js"
  "t \<in> set (List.map_filter transition_of js) \<Longrightarrow> TransitionRecord t \<in> set js"
  "r \<in> set (List.map_filter receipt_of js) \<Longrightarrow> ReceiptRecord r \<in> set js"
proof -
  show "s \<in> set (List.map_filter result_of js) \<Longrightarrow> ResultRecord s \<in> set js"
    by (induction js rule: list.induct) (auto simp: List.map_filter_simps elim: result_of.elims split: option.splits)
  show "e \<in> set (List.map_filter candidate_of js) \<Longrightarrow> CandidateRecord e \<in> set js"
    by (induction js rule: list.induct) (auto simp: List.map_filter_simps elim: candidate_of.elims split: option.splits)
  show "t \<in> set (List.map_filter transition_of js) \<Longrightarrow> TransitionRecord t \<in> set js"
    by (induction js rule: list.induct) (auto simp: List.map_filter_simps elim: transition_of.elims split: option.splits)
  show "r \<in> set (List.map_filter receipt_of js) \<Longrightarrow> ReceiptRecord r \<in> set js"
    by (induction js rule: list.induct) (auto simp: List.map_filter_simps elim: receipt_of.elims split: option.splits)
qed

lemma rebuild_from_nothing:
  assumes "history_ok st"
    and "mset rs = mset (st_results st)" and "mset es = mset (map as_new (st_candidates st))"
    and "mset ts = mset (st_transitions st)" and "mset ps = mset (st_receipts st)"
  shows "rebuild I empty_state rs es ts ps = Inr st"
proof -
  have dist: "distinct (map s_result_id rs)" "distinct (map e_candidate_id es)"
    "distinct (map t_transition_id ts)" "distinct (map rc_attempt_id ps)"
  proof -
    show "distinct (map e_candidate_id es)"
      by (rule mset_distinct_map [OF assms(3)]) (use assms(1) in \<open>simp add: history_ok_def comp_def\<close>)
  qed (use assms in \<open>auto simp: history_ok_def intro: mset_distinct_map\<close>)
  let ?ts = "st_transitions st"
  let ?proj = "fold (\<lambda>t d. dict_set d (t_candidate_id t) (t_to_status t)) ?ts
      (map (\<lambda>e. (e_candidate_id e, NEW)) es)"
  let ?status = "\<lambda>e. case dict_get ?proj (e_candidate_id e) of Some s \<Rightarrow> s | None \<Rightarrow> e_status e"
  have merged: "merge_first s_result_id fr err rs [] = Inr (map (\<lambda>s. (s_result_id s, s)) rs)"
    "merge_first e_candidate_id fe err es [] = Inr (map (\<lambda>e. (e_candidate_id e, e)) es)"
    "merge_first rc_attempt_id fp err ps [] = Inr (map (\<lambda>r. (rc_attempt_id r, r)) ps)" for fr fe fp err
    using dist by (simp_all add: merge_first_fresh)
  have trans: "dict_values (fold (\<lambda>t d. dict_set d (t_transition_id t) t) ts []) = ts"
    using dict_by_values [OF dist(3)] by (simp add: dict_by_def)
  have sorted_ts: "sort_key transition_order ts = ?ts"
    using assms(1,4) by (intro sort_key_recovers [where g = t_transition_id])
      (auto simp: history_ok_def transition_order_def)
  have "set es = as_new ` set (st_candidates st)"
    using mset_eq_setD [OF assms(3)] by simp
  then have es_ids: "e_candidate_id ` set es = e_candidate_id ` set (st_candidates st)"
    by (simp add: image_image)
  have "?status (as_new e) = e_status e" if "e \<in> set (st_candidates st)" for e
    using updated_candidate [of "st_candidates st" ?ts e es] assms(1) that es_ids
    by (simp add: history_ok_def)
  then have "map (\<lambda>e. e\<lparr>e_status := ?status e\<rparr>) (map as_new (st_candidates st)) = st_candidates st"
    by (simp add: comp_def map_idI del: option.case)
  moreover have "mset (map (\<lambda>e. e\<lparr>e_status := ?status e\<rparr>) es) =
      mset (map (\<lambda>e. e\<lparr>e_status := ?status e\<rparr>) (map as_new (st_candidates st)))"
    using arg_cong [OF assms(3), of "image_mset (\<lambda>e. e\<lparr>e_status := ?status e\<rparr>)"]
    by (simp only: mset_map)
  ultimately have cands: "sort_key candidate_order (map (\<lambda>e. e\<lparr>e_status := ?status e\<rparr>) es) = st_candidates st"
    using assms(1) by (intro sort_key_recovers [where g = e_candidate_id])
      (simp_all add: history_ok_def candidate_order_def)
  have "sort_key result_order rs = st_results st" "sort_key receipt_order ps = st_receipts st"
    using assms(1,2,5) by (auto simp: history_ok_def result_order_def receipt_order_def
        intro!: sort_key_recovers [where g = s_result_id] sort_key_recovers [where g = rc_attempt_id])
  moreover have "validate_history \<lparr>st_results = st_results st, st_candidates = st_candidates st,
      st_transitions = st_transitions st, st_receipts = st_receipts st\<rparr> = Inr st"
    using assms(1) by (cases st) (simp add: validate_history_iff)
  ultimately show ?thesis
    using cands
    by (simp add: rebuild_def project_candidates_def empty_state_def dict_by_def merged trans sorted_ts values_of_pairs comp_def
        Let_def or_malformed_def)
qed

lemma read_records:
  "\<forall>j \<in> set js. validate_record I j = Inr j \<Longrightarrow> traverse (read_record I) (map Some js) = Inr js"
  by (induction js) (simp_all add: read_record_def or_malformed_def)

lemma load_of_covers:
  assumes "history_ok st" and "covers st js" and "\<forall>j \<in> set js. validate_record I j = Inr j"
    and "legacy = None \<or> (\<exists>doc. legacy = Some doc \<and> validate_document I doc = Inr doc)"
  shows "load I True True True None legacy (map Some js) = Inr st"
proof -
  have "rebuild I empty_state (List.map_filter result_of js) (List.map_filter candidate_of js)
      (List.map_filter transition_of js) (List.map_filter receipt_of js) = Inr st"
    using assms(2) by (intro rebuild_from_nothing [OF assms(1)]) (simp_all add: covers_def)
  then show ?thesis
    using assms(4) by (auto simp: load_def read_records [OF assms(3)] or_malformed_def Let_def)
qed

text \<open>
  Property C20. Recovery is exact: the records the store has appended since it was empty are
  enough to rebuild its state after a restart, also when the legacy document at its path (already
  folded into the journal) is only preserved, and also after the journal has reduced the records.
\<close>
theorem load_recovers_from_journal:
  assumes "journaled I st js" and "legacy = None \<or> (\<exists>doc. legacy = Some doc \<and> validate_document I doc = Inr doc)"
  shows "load I True True True None legacy (map Some js) = Inr st \<and>
    load I True True True None legacy (map Some (reduce_records iso_text js)) = Inr st"
proof -
  have h: "history_ok st"
    using reachable_valid [OF journaled_reachable [OF assms(1)]] by (simp add: valid_state_def)
  have c: "covers st js" and v: "\<forall>j \<in> set js. validate_record I j = Inr j"
    using journaled_covers [OF assms(1)] by auto
  have dist: "distinct (map s_result_id (List.map_filter result_of js))"
    "distinct (map e_candidate_id (List.map_filter candidate_of js))"
    "distinct (map t_transition_id (List.map_filter transition_of js))"
    "distinct (map rc_attempt_id (List.map_filter receipt_of js))"
    by (rule covers_distinct [OF h c])+
  have "covers st (reduce_records iso_text js)"
    using c unfolding covers_def reduce_records_def
    by (simp add: filter_records dict_by_values dist)
  moreover have "\<forall>j \<in> set (reduce_records iso_text js). validate_record I j = Inr j"
  proof
    fix j assume "j \<in> set (reduce_records iso_text js)"
    then have "j \<in> set js"
      unfolding reduce_records_def by (simp add: dict_by_values dist) (elim disjE imageE; auto dest: map_filter_sources)
    with v show "validate_record I j = Inr j" by blast
  qed
  ultimately show ?thesis using load_of_covers [OF h _ _ assms(2)] c v by blast
qed

lemma sample_at_0: "sample_at 0 = sample_result"
  by (simp add: sample_at_def sample_result_def assemble_result_def Let_def
      analytical_screening_result_id_def sample_state_ids_def sample_defs rule_fingerprint_def)

lemma sample_result_valid: "validate_result sample_state_ids (sample_at 0) = Inr (sample_at 0)"
  by (simp add: validate_result_def sample_at_def assemble_result_def Let_def sample_defs
      analytical_screening_result_id_def sample_state_ids_def evaluated_result_def state_of_def
      rule_fingerprint_def List.map_filter_simps)

lemma sample_journaled:
  "journaled sample_state_ids sample_store
     [ResultRecord (sample_at 0), CandidateRecord sample_event, ReceiptRecord sample_receipt]"
proof -
  have "validate_receipt sample_receipt = Inr sample_receipt"
    by (simp add: validate_receipt_def sample_receipt_def sorted_unique_def)
  from journaled.attempted [OF journaled.nothing sample_recorded this] sample_result_valid
  show ?thesis by simp
qed

lemma sample_closed_journaled:
  "journaled sample_state_ids sample_closed
     [ResultRecord (sample_at 0), CandidateRecord sample_event, ReceiptRecord sample_receipt,
      TransitionRecord sample_resolution]"
  using journaled.moved [OF sample_journaled sample_moved] by simp

theorem load_recovers_from_journal_witness:
  "load sample_state_ids True True True None None
     (map Some [ResultRecord (sample_at 0), CandidateRecord sample_event, ReceiptRecord sample_receipt,
        TransitionRecord sample_resolution]) = Inr sample_closed"
  using load_recovers_from_journal [OF sample_closed_journaled, of None] by simp

section \<open>Recovery from the synchronised snapshot\<close>

lemma rebuild_synchronised:
  assumes "history_ok st"
    and "set rs \<subseteq> set (st_results st)" and "as_new ` set es \<subseteq> as_new ` set (st_candidates st)"
    and "set ts \<subseteq> set (st_transitions st)" and "set ps \<subseteq> set (st_receipts st)"
  shows "rebuild I st rs es ts ps = Inr st"
proof -
  have dist: "distinct (map s_result_id (st_results st))" "distinct (map e_candidate_id (st_candidates st))"
    "distinct (map t_transition_id (st_transitions st))" "distinct (map rc_attempt_id (st_receipts st))"
    using assms(1) by (simp_all add: history_ok_def)
  have known: "\<exists>y. dict_get (dict_by e_candidate_id (st_candidates st)) (e_candidate_id e) = Some y \<and>
      candidate_fingerprint I y = candidate_fingerprint I e" if "e \<in> set es" for e
  proof -
    from assms(3) that obtain e' where e': "e' \<in> set (st_candidates st)" "as_new e = as_new e'" by blast
    from e'(2) have "e_candidate_id e = e_candidate_id e'" by (cases e; cases e') simp
    with e' dict_get_by [OF dist(2) e'(1)] show ?thesis by (auto simp: candidate_fingerprint_def)
  qed
  have merged: "merge_first s_result_id (result_fingerprint I) err rs (dict_by s_result_id (st_results st)) =
      Inr (dict_by s_result_id (st_results st))"
    "merge_first e_candidate_id (candidate_fingerprint I) err es (dict_by e_candidate_id (st_candidates st)) =
      Inr (dict_by e_candidate_id (st_candidates st))"
    "merge_first rc_attempt_id (receipt_fingerprint I) err ps (dict_by rc_attempt_id (st_receipts st)) =
      Inr (dict_by rc_attempt_id (st_receipts st))" for err
    using assms(2,5) dict_get_by [OF dist(1)] dict_get_by [OF dist(4)] known
    by (auto intro!: merge_first_known)
  have trans: "fold (\<lambda>t d. dict_set d (t_transition_id t) t) ts (dict_by t_transition_id (st_transitions st)) =
      dict_by t_transition_id (st_transitions st)"
    using assms(4) dict_get_by [OF dist(3)] by (intro fold_set_same) auto
  let ?proj = "fold (\<lambda>t d. dict_set d (t_candidate_id t) (t_to_status t)) (st_transitions st)
      (map (\<lambda>e. (e_candidate_id e, NEW)) (st_candidates st))"
  have "dict_get ?proj (e_candidate_id e) = Some (e_status e)" if "e \<in> set (st_candidates st)" for e
    using updated_candidate [of "st_candidates st" "st_transitions st" e "st_candidates st"] assms(1) that
    by (simp add: history_ok_def)
  then have cands: "map (\<lambda>(cid, e). e\<lparr>e_status :=
      (case dict_get ?proj cid of Some s \<Rightarrow> s | None \<Rightarrow> e_status e)\<rparr>)
      (dict_by e_candidate_id (st_candidates st)) = st_candidates st"
    by (simp add: dict_by_distinct [OF dist(2)] comp_def map_idI)
  have sorted: "sort_key result_order (st_results st) = st_results st"
    "sort_key candidate_order (st_candidates st) = st_candidates st"
    "sort_key transition_order (st_transitions st) = st_transitions st"
    "sort_key receipt_order (st_receipts st) = st_receipts st"
    using assms(1) by (simp_all add: history_ok_def sort_key_id_if_sorted)
  have "validate_history \<lparr>st_results = st_results st, st_candidates = st_candidates st,
      st_transitions = st_transitions st, st_receipts = st_receipts st\<rparr> = Inr st"
    using assms(1) by (cases st) (simp add: validate_history_iff)
  then show ?thesis
    using cands by (simp add: rebuild_def project_candidates_def merged trans dict_by_values dist sorted Let_def or_malformed_def)
qed

lemma traverse_same: "(\<And>x. x \<in> set xs \<Longrightarrow> f x = Inr x) \<Longrightarrow> traverse f xs = Inr xs"
  using traverse_Inr_map [of xs f "\<lambda>x. x"] by simp

lemma journaled_document:
  assumes "journaled I st js"
  shows "validate_document I st = Inr st"
proof -
  have c: "covers st js" and v: "\<forall>j \<in> set js. validate_record I j = Inr j"
    using journaled_covers [OF assms] by auto
  have state: "valid_state I st" by (rule reachable_valid [OF journaled_reachable [OF assms]])
  have "validate_result I s = Inr s" if "s \<in> set (st_results st)" for s
  proof -
    have "s \<in> set (List.map_filter result_of js)"
      using that c by (metis covers_def set_mset_mset)
    then show ?thesis using v map_filter_sources(1) by (fastforce simp: bind_r_eq_Inr)
  qed
  moreover have "validate_receipt r = Inr r" if "r \<in> set (st_receipts st)" for r
  proof -
    have "r \<in> set (List.map_filter receipt_of js)"
      using that c by (metis covers_def set_mset_mset)
    then show ?thesis using v map_filter_sources(4) by (fastforce simp: bind_r_eq_Inr)
  qed
  ultimately have "traverse (validate_result I) (st_results st) = Inr (st_results st)"
    "traverse validate_receipt (st_receipts st) = Inr (st_receipts st)"
    by (auto intro: traverse_same)
  moreover have "traverse (validate_event I) (st_candidates st) = Inr (st_candidates st)"
    "traverse (validate_transition I) (st_transitions st) = Inr (st_transitions st)"
    using state by (auto simp: valid_state_def events_ok_def intro: traverse_same)
  ultimately show ?thesis
    using state by (simp add: validate_document_def valid_state_def validate_history_iff)
qed

lemma load_synchronised:
  assumes "validate_document I st = Inr st" and "\<forall>j \<in> set js. validate_record I j = Inr j"
  shows "load I False folded has_journal None (Some st) (map Some js) =
    rebuild I st
      (filter (\<lambda>s. s_result_id s \<in> s_result_id ` set (st_results st)) (List.map_filter result_of js))
      (filter (\<lambda>e. e_candidate_id e \<in> e_candidate_id ` set (st_candidates st)) (List.map_filter candidate_of js))
      (List.map_filter transition_of js)
      (filter (\<lambda>r. rc_attempt_id r \<in> rc_attempt_id ` set (st_receipts st)) (List.map_filter receipt_of js))"
  using assms(1) by (simp add: load_def read_records [OF assms(2)] or_malformed_def Let_def)

lemma recorded_are_fresh:
  assumes v: "valid_state I st" and "record_attempt I st r rs = Inr (out, st', pre @ post)"
  shows "(\<forall>s. ResultRecord s \<in> set pre \<longrightarrow> s_result_id s \<notin> s_result_id ` set (st_results st)) \<and>
    (\<forall>e. CandidateRecord e \<in> set pre \<longrightarrow> e_candidate_id e \<notin> e_candidate_id ` set (st_candidates st)) \<and>
    (\<forall>x. ReceiptRecord x \<in> set pre \<longrightarrow> rc_attempt_id x \<notin> rc_attempt_id ` set (st_receipts st))"
proof -
  have h: "history_ok st" using v by (simp add: valid_state_def)
  from assms(2) h show ?thesis
  proof (cases rule: record_attempt_cases)
    case (recorded new lc)
    note run = recorded_run_ok [OF v recorded(6,5)]
    have init: "map as_new (dict_values (lc_candidates (initial_lifecycle st))) =
        map as_new (st_candidates st) @ lc_created (initial_lifecycle st)"
      by (simp add: initial_candidates(2) [OF h]) (simp add: initial_lifecycle_def)
    have "candidates_ok I (initial_lifecycle st)"
      by (rule run_okD(1) [OF initial_run_ok [OF v subset_refl]])
    from lifecycle_steps_as_new [OF recorded(6) this init]
    have "map e_candidate_id (map as_new (dict_values (lc_candidates lc))) =
        map e_candidate_id (map as_new (st_candidates st) @ lc_created lc)" by simp
    then have "map e_candidate_id (dict_values (lc_candidates lc)) =
        map e_candidate_id (st_candidates st) @ map e_candidate_id (lc_created lc)" by (simp add: comp_def)
    with keyed_values_distinct [OF run_okD(9) [OF run]]
    have "e_candidate_id ` set (st_candidates st) \<inter> e_candidate_id ` set (lc_created lc) = {}" by simp
    moreover have "s_result_id ` set (st_results st) \<inter> s_result_id ` set new = {}"
      using recorded(4) by simp
    moreover have "rc_attempt_id r \<notin> rc_attempt_id ` set (st_receipts st)"
      using recorded(1) by (simp add: dict_get_by_None)
    moreover have "set pre \<subseteq> ResultRecord ` set new \<union> CandidateRecord ` set (lc_created lc) \<union>
        TransitionRecord ` set (lc_transitions lc) \<union> {ReceiptRecord r}"
      using arg_cong [OF recorded(9), of set] by auto
    ultimately show ?thesis by blast
  qed simp
qed

text \<open>
  Property C21. Crash safety of recording: if the process dies while the records of an attempt
  are being appended, or after them but before the snapshot is rewritten, and none of the
  appended records is a transition, then loading gives exactly the state before the attempt (so
  the attempt is observed again as a whole). With no appended record this says that snapshot and
  journal together give the state back.
\<close>
theorem interrupted_recording_is_dropped:
  assumes "journaled I st js" and "record_attempt I st r rs = Inr (out, st', pre @ post)"
    and "validate_receipt r = Inr r" and "\<forall>s \<in> set rs. validate_result I s = Inr s"
    and "\<forall>t. TransitionRecord t \<notin> set pre"
  shows "load I False folded has_journal None (Some st) (map Some (js @ pre)) = Inr st"
proof -
  have v: "valid_state I st" by (rule reachable_valid [OF journaled_reachable [OF assms(1)]])
  then have h: "history_ok st" by (simp add: valid_state_def)
  have c: "covers st js" using journaled_covers [OF assms(1)] by simp
  have jv: "\<forall>j \<in> set (js @ pre). validate_record I j = Inr j"
    using journaled_covers [OF journaled.attempted [OF assms(1-4)]] by auto
  have base: "set (List.map_filter result_of js) = set (st_results st)"
    "set (List.map_filter candidate_of js) = as_new ` set (st_candidates st)"
    "set (List.map_filter transition_of js) = set (st_transitions st)"
    "set (List.map_filter receipt_of js) = set (st_receipts st)"
    using c unfolding covers_def by (metis mset_eq_setD set_map)+
  note fresh = recorded_are_fresh [OF v assms(2)]
  have "List.map_filter transition_of pre = []"
    using assms(5) map_filter_sources(3) [of _ pre] by (cases "List.map_filter transition_of pre") auto
  with base fresh show ?thesis
    unfolding load_synchronised [OF journaled_document [OF assms(1)] jv]
    by (intro rebuild_synchronised [OF h]) (auto dest: map_filter_sources)
qed

theorem interrupted_recording_is_dropped_witness:
  "load sample_state_ids False True True None (Some empty_state)
     (map Some [ResultRecord (sample_at 0), CandidateRecord sample_event]) = Inr empty_state"
proof -
  have "record_attempt sample_state_ids empty_state sample_receipt [sample_at 0] =
      Inr (sample_outcome, sample_store,
        [ResultRecord (sample_at 0), CandidateRecord sample_event] @ [ReceiptRecord sample_receipt])"
    using sample_recorded by simp
  moreover have "validate_receipt sample_receipt = Inr sample_receipt"
    by (simp add: validate_receipt_def sample_receipt_def sorted_unique_def)
  ultimately show ?thesis
    using interrupted_recording_is_dropped [OF journaled.nothing, of sample_state_ids sample_receipt
        "[sample_at 0]" sample_outcome sample_store
        "[ResultRecord (sample_at 0), CandidateRecord sample_event]" "[ReceiptRecord sample_receipt]" True True]
      sample_result_valid by simp
qed

section \<open>Transitions are not filtered\<close>

lemma merge_first_values:
  "merge_first key fp err xs d = Inr d' \<Longrightarrow> set (dict_values d') \<subseteq> set (dict_values d) \<union> set xs"
proof (induction xs arbitrary: d)
  case (Cons x xs)
  have "set (dict_values (dict_set d k x)) \<subseteq> insert x (set (dict_values d))" for k
    by (induction d k x rule: dict_set.induct) (auto simp: dict_values_def)
  with Cons show ?case by (fastforce split: option.splits if_splits)
qed simp

lemma merge_error: "merge_first key fp (StateError m) xs d = Inl e \<Longrightarrow> e \<in> range StateError"
  by (induction xs arbitrary: d) (auto split: option.splits if_splits)

lemma rebuild_Inr:
  assumes "rebuild I st rs es ts ps = Inr st'"
  obtains bc where "merge_first e_candidate_id (candidate_fingerprint I)
         (StateError ''candidate recomputation changed deterministic semantics'') es
         (dict_by e_candidate_id (st_candidates st)) = Inr bc"
    and "history_ok st'"
    and "st_transitions st' = sort_key transition_order (dict_values
         (fold (\<lambda>t d. dict_set d (t_transition_id t) t) ts (dict_by t_transition_id (st_transitions st))))"
    and "e_candidate_id ` set (st_candidates st') = e_candidate_id ` set (dict_values bc)"
proof -
  let ?ts = "sort_key transition_order (dict_values
         (fold (\<lambda>t d. dict_set d (t_transition_id t) t) ts (dict_by t_transition_id (st_transitions st))))"
  show ?thesis
    using assms unfolding rebuild_def Let_def
  proof (elim bind_r_InrE)
    fix br bc bp
    assume bc: "merge_first e_candidate_id (candidate_fingerprint I)
         (StateError ''candidate recomputation changed deterministic semantics'') es
         (dict_by e_candidate_id (st_candidates st)) = Inr bc"
      and v: "or_malformed (validate_history
       \<lparr>st_results = sort_key result_order (dict_values br),
        st_candidates = sort_key candidate_order (project_candidates bc ?ts),
        st_transitions = ?ts,
        st_receipts = sort_key receipt_order (dict_values bp)\<rparr>) = Inr st'"
    from v have "st' = \<lparr>st_results = sort_key result_order (dict_values br),
        st_candidates = sort_key candidate_order (project_candidates bc ?ts),
        st_transitions = ?ts, st_receipts = sort_key receipt_order (dict_values bp)\<rparr>" and h: "history_ok st'"
      unfolding or_malformed_Inr validate_history_iff by simp_all
    then show thesis by (intro that [OF bc h]) (simp_all add: project_candidates_ids)
  qed
qed

text \<open>
  A stale snapshot can make the store unreadable: loading keeps only the journal's
  results, candidates and receipts that the snapshot knows, but all its transitions. If the
  journal holds a transition of a candidate the snapshot does not know (the snapshot was not
  rewritten after the attempt that opened it), every load fails.
\<close>
lemma stale_snapshot_blocks_load:
  assumes "validate_document I st = Inr st" and "\<forall>j \<in> set js. validate_record I j = Inr j"
    and "distinct (map t_transition_id (List.map_filter transition_of js))"
    and "TransitionRecord t \<in> set js" and "t_candidate_id t \<notin> e_candidate_id ` set (st_candidates st)"
  shows "\<exists>message. load I False folded has_journal None (Some st) (map Some js) = Inl (StateError message)"
proof -
  let ?rs = "filter (\<lambda>s. s_result_id s \<in> s_result_id ` set (st_results st)) (List.map_filter result_of js)"
  let ?es = "filter (\<lambda>e. e_candidate_id e \<in> e_candidate_id ` set (st_candidates st)) (List.map_filter candidate_of js)"
  let ?ts = "List.map_filter transition_of js"
  let ?ps = "filter (\<lambda>r. rc_attempt_id r \<in> rc_attempt_id ` set (st_receipts st)) (List.map_filter receipt_of js)"
  let ?bt = "fold (\<lambda>t d. dict_set d (t_transition_id t) t) ?ts (dict_by t_transition_id (st_transitions st))"
  have "t \<in> set ?ts" using assms(4) by (auto simp: List.map_filter_def image_iff intro!: bexI [of _ "TransitionRecord t"])
  then have "dict_get ?bt (t_transition_id t) = Some t"
    by (intro pydict.lookup_store_all_same [OF dict_ok_by assms(3)])
  moreover have "dict_ok ?bt" by (rule pydict.ok_store_all [OF dict_ok_by])
  ultimately have t: "t \<in> set (dict_values ?bt)" by (auto simp: dict_values_set)
  have "e \<in> range StateError" if "rebuild I st ?rs ?es ?ts ?ps = Inl e" for e
    using that by (auto simp: rebuild_def bind_r_eq_Inl Let_def malformed_def dest: merge_error)
  moreover have "rebuild I st ?rs ?es ?ts ?ps \<noteq> Inr st'" for st'
  proof
    assume "rebuild I st ?rs ?es ?ts ?ps = Inr st'"
    then obtain bc where bc: "merge_first e_candidate_id (candidate_fingerprint I)
         (StateError ''candidate recomputation changed deterministic semantics'') ?es
         (dict_by e_candidate_id (st_candidates st)) = Inr bc"
      and v: "history_ok st'" and tr: "st_transitions st' = sort_key transition_order (dict_values ?bt)"
      and cs: "e_candidate_id ` set (st_candidates st') = e_candidate_id ` set (dict_values bc)"
      by (rule rebuild_Inr)
    have "set (dict_values bc) \<subseteq> set (st_candidates st) \<union> set ?es"
      using merge_first_values [OF bc] assms(1)
      by (auto simp: dict_values_set dest!: dict_get_by_SomeD)
    then have "e_candidate_id ` set (st_candidates st') \<subseteq> e_candidate_id ` set (st_candidates st)"
      unfolding cs by auto
    moreover have "t_candidate_id t \<in> e_candidate_id ` set (st_candidates st')"
      using v t tr unfolding history_ok_def by auto
    ultimately show False using assms(5) by blast
  qed
  ultimately show ?thesis
    unfolding load_synchronised [OF assms(1,2)]
    by (cases "rebuild I st ?rs ?es ?ts ?ps") auto
qed

text \<open>
  The witness is a journal the store really appends: the sample attempt opens a candidate, its
  snapshot is not written, and the user resolves the candidate.
\<close>
lemma stale_snapshot_blocks_load_witness:
  "journaled sample_state_ids sample_closed
     [ResultRecord (sample_at 0), CandidateRecord sample_event, ReceiptRecord sample_receipt,
      TransitionRecord sample_resolution] \<and>
   (\<exists>message. load sample_state_ids False True True None (Some empty_state)
     (map Some [ResultRecord (sample_at 0), CandidateRecord sample_event, ReceiptRecord sample_receipt,
        TransitionRecord sample_resolution]) = Inl (StateError message))"
proof
  let ?js = "[ResultRecord (sample_at 0), CandidateRecord sample_event, ReceiptRecord sample_receipt,
      TransitionRecord sample_resolution]"
  have "\<forall>j \<in> set ?js. validate_record sample_state_ids j = Inr j"
    using journaled_covers [OF sample_closed_journaled] by blast
  then show "\<exists>message. load sample_state_ids False True True None (Some empty_state) (map Some ?js) =
      Inl (StateError message)"
    by (intro stale_snapshot_blocks_load [where t = sample_resolution]
        journaled_document [OF journaled.nothing])
       (simp_all add: List.map_filter_simps empty_state_def)
qed (rule sample_closed_journaled)

end
