(* ===== verification/CandidateJournal.thy ===== *)
theory CandidateJournal
  imports JournalCrash CandidateRecovery
begin

text \<open>
  The candidate store on its journal: appending the records of the store to the segmented journal,
  with its compactions, and recovering the store from what the journal then reads.
\<close>

definition unique_records :: "journal_record list \<Rightarrow> bool" where
  "unique_records js \<longleftrightarrow>
     distinct (map s_result_id (List.map_filter result_of js)) \<and>
     distinct (map e_candidate_id (List.map_filter candidate_of js)) \<and>
     distinct (map t_transition_id (List.map_filter transition_of js)) \<and>
     distinct (map rc_attempt_id (List.map_filter receipt_of js))"

lemma unique_prefix: "unique_records (xs @ ys) \<Longrightarrow> unique_records xs"
  by (simp add: unique_records_def)

lemma mset_map_filter: "mset xs = mset ys \<Longrightarrow> mset (List.map_filter f xs) = mset (List.map_filter f ys)"
  by (simp add: List.map_filter_def)

lemma mset_by_kind:
  "mset js = mset (map ResultRecord (List.map_filter result_of js)) +
     mset (map CandidateRecord (List.map_filter candidate_of js)) +
     mset (map TransitionRecord (List.map_filter transition_of js)) +
     mset (map ReceiptRecord (List.map_filter receipt_of js))"
proof (induction js)
  case (Cons j js)
  then show ?case by (cases j) (simp_all add: List.map_filter_simps)
qed (simp add: List.map_filter_simps)

lemma reduce_keeps_records:
  assumes "unique_records js"
  shows "mset (reduce_records iso_text js) = mset js"
  using assms mset_by_kind [of js]
  by (simp add: unique_records_def reduce_records_def dict_by_values)

text \<open>
  The reducer the store installs in its journal: parsed records, reduced, written again as
  documents.
\<close>

definition store_reducer ::
  "(journal_record \<Rightarrow> 'r) \<Rightarrow> ('r \<Rightarrow> journal_record option) \<Rightarrow> (utc \<Rightarrow> string) \<Rightarrow> 'r list \<Rightarrow> 'r list" where
  "store_reducer doc parse iso_text entries =
     map doc (reduce_records iso_text (List.map_filter parse entries))"

definition documents ::
  "(journal_record \<Rightarrow> 'r) \<Rightarrow> ('r \<Rightarrow> journal_record option) \<Rightarrow> 'r multiset \<Rightarrow> bool" where
  "documents doc parse M \<longleftrightarrow> (\<exists>js. M = mset (map doc js) \<and> unique_records js \<and>
     (\<forall>j \<in> set js. parse (doc j) = Some j))"

lemma parsed_documents:
  assumes "\<forall>j \<in> set js. parse (doc j) = Some j"
  shows "List.map_filter parse (map doc js) = js"
  using assms by (induction js) (simp_all add: List.map_filter_simps)

lemma reducer_keeps_documents:
  assumes "documents doc parse (mset xs)"
  shows "mset (store_reducer doc parse iso_text xs) = mset xs"
proof -
  from assms obtain js where js: "mset xs = mset (map doc js)" "unique_records js"
    "\<forall>j \<in> set js. parse (doc j) = Some j" by (auto simp: documents_def)
  let ?ys = "List.map_filter parse xs"
  have same: "mset ?ys = mset js"
    using mset_map_filter [OF js(1), of parse] by (simp add: parsed_documents [of js parse doc] js(3))
  then have "unique_records ?ys"
    using js(2) unfolding unique_records_def by (auto intro: mset_distinct_map mset_map_filter)
  from reduce_keeps_records [OF this, of iso_text] show ?thesis
    by (simp add: store_reducer_def same js(1))
qed

lemma journal_add_all:
  "fold (\<lambda>a r. bind_r r (journal_add a)) appends (Inr (J, fs)) = Inr s \<Longrightarrow> fst s = J"
proof (induction appends arbitrary: fs)
  case (Cons a appends)
  have failed: "fold (\<lambda>a r. bind_r r (journal_add a)) as (Inl e) = Inl e" for as and e
    by (induction as) simp_all
  show ?case
  proof (cases "journal_add a (J, fs)")
    case (Inr s')
    then have "fst s' = J" by (auto simp: journal_add_def bind_r_eq_Inr split: prod.splits)
    with Inr Cons show ?thesis by (cases s') simp
  qed (use Cons.prems in \<open>simp add: failed\<close>)
qed auto

lemma prefixes_fit:
  assumes "unique_records js" and "\<forall>j \<in> set js. parse (doc j) = Some j"
  shows "documents doc parse (mset (take k (map doc js)))"
proof -
  have "unique_records (take k js)"
    using assms(1) unique_prefix [of "take k js" "drop k js"] by simp
  with assms(2) show ?thesis
    unfolding documents_def by (intro exI [of _ "take k js"]) (auto simp: take_map dest: in_set_takeD)
qed

text \<open>
  Property C17. End-to-end durability: if every record the store has appended since it was empty
  goes through the segmented journal, starting from no files, at any clock readings and with all
  the rotations and compactions its size limits cause, then no append fails, and after a restart
  reading the journal and loading its entries gives back exactly the state of the store.
\<close>
theorem journal_recovers_store:
  assumes "codec_ok (jn_codec J)" and "jn_reducer J = Some (store_reducer doc parse iso_text)"
    and "journaled I st js" and "\<forall>j \<in> set js. parse (doc j) = Some j"
    and "map snd appends = map doc js"
    and "legacy = None \<or> (\<exists>d. legacy = Some d \<and> validate_document I d = Inr d)"
  shows "\<exists>fs entries.
    fold (\<lambda>a r. bind_r r (journal_add a)) appends (Inr (J, [])) = Inr (J, fs) \<and>
    run_io (read_entries J) fs = (fs, Inr entries) \<and>
    load I True True True None legacy (map parse entries) = Inr st"
proof -
  note jc = journaled_covers [OF assms(3)]
  have h: "history_ok st"
    using reachable_valid [OF journaled_reachable [OF assms(3)]] by (simp add: valid_state_def)
  have unique: "unique_records js"
    using covers_distinct [OF h] jc by (simp add: unique_records_def)
  have "journal_holds (documents doc parse) (J, []) []"
    using assms(1,2) reducer_keeps_documents [of doc parse]
    by (simp add: journal_holds_def journal_ok_def reduced_def)
  moreover have "documents doc parse (mset [] + mset (map snd (take k appends)))" for k
    using prefixes_fit [of js parse doc k] unique assms(4) by (simp add: assms(5) flip: take_map)
  ultimately obtain s es where run: "fold (\<lambda>a r. bind_r r (journal_add a)) appends (Inr (J, [])) = Inr s"
      "journal_entries s = Inr es" "mset es = mset (map doc js)"
      "journal_holds (documents doc parse) s es"
    using jlog.add_all_holds [of "documents doc parse" "(J, [])" "[]" appends] jlog.entries_held
    by (auto simp: assms(5)) blast
  obtain fs where s: "s = (J, fs)" using journal_add_all [OF run(1)] by (cases s) simp
  have read: "run_io (read_entries J) fs = (fs, Inr es)"
    using run(4) by (auto simp: s journal_holds_def intro: run_read_entries)
  let ?ys = "List.map_filter parse es"
  have "\<forall>x \<in> set es. \<exists>y. parse x = Some y"
    using mset_eq_setD [OF run(3)] assms(4) by auto
  then have parsed: "map parse es = map Some ?ys"
    by (induction es) (auto simp: List.map_filter_simps)
  have same: "mset ?ys = mset js"
    using mset_map_filter [OF run(3), of parse] by (simp add: parsed_documents [of js parse doc] assms(4))
  then have "covers st ?ys"
    using jc by (simp add: covers_def mset_map_filter [OF same])
  moreover have "\<forall>j \<in> set ?ys. validate_record I j = Inr j"
    using jc mset_eq_setD [OF same] by simp
  ultimately have "load I True True True None legacy (map parse es) = Inr st"
    unfolding parsed by (rule load_of_covers [OF h _ _ assms(6)])
  with run(1) read s show ?thesis by blast
qed

definition sample_records :: "journal_record list" where
  "sample_records = [ResultRecord (sample_at 0), CandidateRecord sample_event,
     ReceiptRecord sample_receipt, TransitionRecord sample_resolution]"

fun sample_doc :: "journal_record \<Rightarrow> nat" where
  "sample_doc (ResultRecord s) = 0"
| "sample_doc (CandidateRecord e) = 1"
| "sample_doc (ReceiptRecord r) = 2"
| "sample_doc (TransitionRecord t) = 3"

definition sample_parse :: "nat \<Rightarrow> journal_record option" where
  "sample_parse n = (if n < 4 then Some (sample_records ! n) else None)"

text \<open>A journal whose size limit closes a segment at every append.\<close>

definition small_journal :: "nat journal" where
  "small_journal = sample_journal\<lparr>jn_max_segment_bytes := 1,
     jn_reducer := Some (store_reducer sample_doc sample_parse (\<lambda>t. []))\<rparr>"

theorem journal_recovers_store_witness:
  "\<exists>fs entries.
    fold (\<lambda>a r. bind_r r (journal_add a)) [(0, 0), (1, 1), (2, 2), (3, 3)] (Inr (small_journal, [])) =
      Inr (small_journal, fs) \<and>
    run_io (read_entries small_journal) fs = (fs, Inr entries) \<and>
    load sample_state_ids True True True None None (map sample_parse entries) = Inr sample_closed"
proof (rule journal_recovers_store [where js = sample_records and doc = sample_doc and iso_text = "\<lambda>t. []"])
  show "journaled sample_state_ids sample_closed sample_records"
    unfolding sample_records_def by (rule sample_closed_journaled)
qed (simp_all add: small_journal_def sample_codec_ok sample_parse_def sample_records_def)

end
