(* ===== verification/RuleRegistry.thy ===== *)
theory RuleRegistry
  imports Screening
begin

text \<open>
  The registry of screening rules (\<^verbatim>\<open>alerts/analytical_rule_registry.py\<close>): packaged
  defaults, an append-only history of local revisions in one document, and optimistic updates.
  The document at the registry's path is an optional value; the file operations around it are
  not modelled. The store keeps no other state: every operation loads the document again.
\<close>

section \<open>Updates and revisions\<close>

record condition_update =
  cu_condition_id :: string
  cu_threshold :: decimal
  cu_exit_threshold :: "decimal option"

record rule_update =
  ru_rule_id :: string
  ru_expected_fingerprint :: string
  ru_state :: rule_state
  ru_confirmations_required :: int
  ru_cooldown_seconds :: int
  ru_conditions :: "condition_update list"

definition validate_update :: "rule_update \<Rightarrow> rule_update result" where
  "validate_update u =
     (let identifiers = map cu_condition_id (ru_conditions u) in
      if ru_confirmations_required u < 1 \<or> 20 < ru_confirmations_required u
        then Inl (ValueError ''confirmations_required'')
      else if ru_cooldown_seconds u < 0 \<or> 31536000 < ru_cooldown_seconds u
        then Inl (ValueError ''cooldown_seconds'')
      else if identifiers = []
        then Inl (ValueError ''rule configuration update must include conditions'')
      else if \<not> sorted_unique identifiers
        then Inl (ValueError ''rule condition updates must be unique and sorted'')
      else Inr u)"

record rule_revision =
  rv_revision_id :: uuid
  rv_rule :: screening_rule
  rv_previous_fingerprint :: string
  rv_recorded_at :: utc

text \<open>UUIDv5 over the rule's fingerprint, the previous one and the time.\<close>

record registry_ids = screening_ids +
  uuid_revision :: "string \<Rightarrow> string \<Rightarrow> utc \<Rightarrow> uuid"

definition analytical_rule_revision_id ::
  "('x) registry_ids_scheme \<Rightarrow> screening_rule \<Rightarrow> string \<Rightarrow> utc \<Rightarrow> uuid" where
  "analytical_rule_revision_id I rule previous_fingerprint recorded_at =
     uuid_revision I (rule_fingerprint I rule) previous_fingerprint recorded_at"

definition local_mark :: string where "local_mark = ''.local.''"

text \<open>\<^verbatim>\<open>".local." in version\<close> and \<^verbatim>\<open>version.partition(".local.")[0]\<close>\<close>

fun has_local :: "string \<Rightarrow> bool" where
  "has_local [] = False"
| "has_local (c # cs) = (take 7 (c # cs) = local_mark \<or> has_local cs)"

fun before_local :: "string \<Rightarrow> string" where
  "before_local [] = []"
| "before_local (c # cs) = (if take 7 (c # cs) = local_mark then [] else c # before_local cs)"

definition validate_revision :: "('x) registry_ids_scheme \<Rightarrow> rule_revision \<Rightarrow> rule_revision result" where
  "validate_revision I v =
     (if rv_revision_id v \<noteq> analytical_rule_revision_id I (rv_rule v) (rv_previous_fingerprint v)
           (rv_recorded_at v)
        then Inl (ValueError ''analytical rule revision_id is not deterministic'')
      else if \<not> has_local (r_rule_version (rv_rule v))
        then Inl (ValueError ''local analytical revisions require a local rule_version'')
      else Inr v)"

type_synonym registry_state = "rule_revision list"

definition MAX_RULE_REVISIONS :: nat where "MAX_RULE_REVISIONS = 25000"

definition revision_order :: "rule_revision \<Rightarrow> utc \<times> string \<times> uuid" where
  "revision_order v = (rv_recorded_at v, r_rule_id (rv_rule v), rv_revision_id v)"

definition validate_registry :: "registry_state \<Rightarrow> registry_state result" where
  "validate_registry st =
     (if MAX_RULE_REVISIONS < length st then Inl (ValueError ''revisions'')
      else if \<not> distinct (map rv_revision_id st)
        then Inl (ValueError ''analytical rule registry contains duplicate revisions'')
      else if \<not> sorted (map revision_order st)
        then Inl (ValueError ''analytical rule revisions are not deterministically ordered'')
      else if \<not> distinct (map (\<lambda>v. (r_rule_id (rv_rule v), r_rule_version (rv_rule v))) st)
        then Inl (ValueError ''analytical rule versions must be unique per rule'')
      else Inr st)"

section \<open>Comparing rules\<close>

text \<open>
  \<^verbatim>\<open>==\<close> of two rule models: decimals by value, JSON values as Python compares them.
\<close>

definition condition_eq :: "screening_condition \<Rightarrow> screening_condition \<Rightarrow> bool" where
  "condition_eq a b \<longleftrightarrow>
     c_condition_id a = c_condition_id b \<and> c_label_es a = c_label_es b \<and> c_domain a = c_domain b \<and>
     c_metric_key a = c_metric_key b \<and> c_algorithm_version a = c_algorithm_version b \<and>
     c_unit a = c_unit b \<and> c_operator a = c_operator b \<and> dec_eq (c_threshold a) (c_threshold b) \<and>
     rel_option dec_eq (c_exit_threshold a) (c_exit_threshold b) \<and>
     json_eq (JObj (c_parameter_filters a)) (JObj (c_parameter_filters b)) \<and>
     c_accepted_qualities a = c_accepted_qualities b \<and> c_limitations a = c_limitations b"

definition rule_eq :: "screening_rule \<Rightarrow> screening_rule \<Rightarrow> bool" where
  "rule_eq a b \<longleftrightarrow>
     r_rule_id a = r_rule_id b \<and> r_rule_version a = r_rule_version b \<and> r_name_es a = r_name_es b \<and>
     r_description_es a = r_description_es b \<and> r_state a = r_state b \<and> r_domain a = r_domain b \<and>
     r_asset_classes a = r_asset_classes b \<and>
     list_all2 condition_eq (r_conditions a) (r_conditions b) \<and>
     r_confirmations_required a = r_confirmations_required b \<and>
     r_cooldown_seconds a = r_cooldown_seconds b \<and> r_limitations a = r_limitations b"

definition matches_default_configuration :: "screening_rule \<Rightarrow> screening_rule \<Rightarrow> bool" where
  "matches_default_configuration rule default_rule \<longleftrightarrow>
     rule_eq (rule\<lparr>r_rule_version := []\<rparr>) (default_rule\<lparr>r_rule_version := []\<rparr>)"

section \<open>Projection\<close>

type_synonym projection = "(string, screening_rule) dict \<times> (string, nat) dict"

fun replay :: "('x) registry_ids_scheme \<Rightarrow> projection \<Rightarrow> registry_state \<Rightarrow> projection result" where
  "replay I p [] = Inr p"
| "replay I (current, counts) (v # vs) =
     (let rule_id = r_rule_id (rv_rule v) in
      case dict_get current rule_id of
        None \<Rightarrow> Inl (ValueError ''analytical revision references an unknown default rule'')
      | Some prior \<Rightarrow>
          (if rv_previous_fingerprint v \<noteq> rule_fingerprint I prior
             then Inl (ValueError ''analytical rule revision chain is inconsistent'')
           else
             (case dict_get counts rule_id of
                None \<Rightarrow> Inl (KeyError rule_id)
              | Some n \<Rightarrow> replay I (dict_set current rule_id (rv_rule v), dict_set counts rule_id (n + 1)) vs)))"

definition initial_projection :: "screening_rule list \<Rightarrow> projection" where
  "initial_projection defaults =
     (dict_by r_rule_id defaults, map (\<lambda>(rule_id, _). (rule_id, 0)) (dict_by r_rule_id defaults))"

definition project ::
  "('x) registry_ids_scheme \<Rightarrow> screening_rule list \<Rightarrow> registry_state \<Rightarrow> projection result" where
  "project I defaults st = replay I (initial_projection defaults) st"

section \<open>The store\<close>

definition new_registry :: "screening_rule list \<Rightarrow> screening_rule list result" where
  "new_registry defaults =
     (let sorted_defaults = sort_key (\<lambda>r. (r_rule_id r, r_rule_version r)) defaults in
      if sorted_defaults = [] \<or> \<not> distinct (map r_rule_id sorted_defaults)
        then Inl (ValueError ''analytical rule defaults must have unique rule IDs'')
      else Inr sorted_defaults)"

text \<open>A rule parsed from JSON: its conditions are validated, then the rule.\<close>

definition parse_rule :: "screening_rule \<Rightarrow> screening_rule result" where
  "parse_rule r = bind_r (traverse validate_condition (r_conditions r)) (\<lambda>_. validate_rule r)"

definition parse_registry :: "('x) registry_ids_scheme \<Rightarrow> registry_state \<Rightarrow> registry_state result" where
  "parse_registry I st =
     bind_r (traverse (\<lambda>v. bind_r (parse_rule (rv_rule v)) (\<lambda>_. validate_revision I v)) st)
       (\<lambda>_. validate_registry st)"

definition load_registry ::
  "('x) registry_ids_scheme \<Rightarrow> screening_rule list \<Rightarrow> registry_state option \<Rightarrow> registry_state result" where
  "load_registry I defaults document =
     (case document of
        None \<Rightarrow> Inr []
      | Some st \<Rightarrow>
          (case bind_r (parse_registry I st) (\<lambda>st. project I defaults st) of
             Inl e \<Rightarrow> Inl (StateError ''analytical rule registry state is malformed or unreadable'')
           | Inr _ \<Rightarrow> Inr st))"

record rule_configuration =
  cfg_rule :: screening_rule
  cfg_default_rule :: screening_rule
  cfg_fingerprint :: string
  cfg_customized :: bool
  cfg_revision_count :: nat

definition validate_configuration ::
  "('x) registry_ids_scheme \<Rightarrow> rule_configuration \<Rightarrow> rule_configuration result" where
  "validate_configuration I c =
     (if r_rule_id (cfg_rule c) \<noteq> r_rule_id (cfg_default_rule c)
        then Inl (ValueError ''configured and default rule IDs must match'')
      else if cfg_fingerprint c \<noteq> rule_fingerprint I (cfg_rule c)
        then Inl (ValueError ''configured rule fingerprint is inconsistent'')
      else if cfg_customized c \<noteq> (\<not> matches_default_configuration (cfg_rule c) (cfg_default_rule c))
        then Inl (ValueError ''customized must match the current rule semantics'')
      else Inr c)"

definition configuration ::
  "('x) registry_ids_scheme \<Rightarrow> screening_rule \<Rightarrow> screening_rule \<Rightarrow> nat \<Rightarrow> rule_configuration result" where
  "configuration I rule default_rule revision_count =
     validate_configuration I
       \<lparr>cfg_rule = rule, cfg_default_rule = default_rule, cfg_fingerprint = rule_fingerprint I rule,
        cfg_customized = (\<not> matches_default_configuration rule default_rule),
        cfg_revision_count = revision_count\<rparr>"

definition dict_at :: "(string, 'v) dict \<Rightarrow> string \<Rightarrow> 'v result" where
  \<comment> \<open>\<^verbatim>\<open>d[key]\<close>\<close>
  "dict_at d k = (case dict_get d k of None \<Rightarrow> Inl (KeyError k) | Some v \<Rightarrow> Inr v)"

record registry_snapshot =
  rs_configurations :: "rule_configuration list"
  rs_total_revisions :: nat

definition registry_snapshot_of ::
  "('x) registry_ids_scheme \<Rightarrow> screening_rule list \<Rightarrow> registry_state option \<Rightarrow> registry_snapshot result" where
  "registry_snapshot_of I defaults document =
     bind_r (load_registry I defaults document) (\<lambda>st.
     bind_r (project I defaults st) (\<lambda>(current, counts).
     bind_r (traverse (\<lambda>default_rule.
         bind_r (dict_at current (r_rule_id default_rule)) (\<lambda>rule.
         bind_r (dict_at counts (r_rule_id default_rule)) (\<lambda>n.
           configuration I rule default_rule n))) defaults) (\<lambda>configurations.
       Inr \<lparr>rs_configurations = configurations, rs_total_revisions = length st\<rparr>)))"

definition current_rules ::
  "('x) registry_ids_scheme \<Rightarrow> screening_rule list \<Rightarrow> registry_state option \<Rightarrow> screening_rule list result" where
  "current_rules I defaults document =
     bind_r (registry_snapshot_of I defaults document) (\<lambda>s. Inr (map cfg_rule (rs_configurations s)))"

text \<open>\<open>rule_id\<close> is the stripped text.\<close>

definition get_rule ::
  "('x) registry_ids_scheme \<Rightarrow> screening_rule list \<Rightarrow> registry_state option \<Rightarrow> string \<Rightarrow> screening_rule result" where
  "get_rule I defaults document rule_id =
     bind_r (registry_snapshot_of I defaults document) (\<lambda>s.
       case find (\<lambda>c. r_rule_id (cfg_rule c) = rule_id) (rs_configurations s) of
         None \<Rightarrow> Inl (ValueError ''analytical rule does not exist'')
       | Some c \<Rightarrow> Inr (cfg_rule c))"

section \<open>Updating\<close>

record update_outcome =
  uo_changed :: bool
  uo_configuration :: rule_configuration
  uo_revision_id :: "uuid option"

definition validate_update_outcome :: "update_outcome \<Rightarrow> update_outcome result" where
  "validate_update_outcome out =
     (if uo_changed out \<noteq> (uo_revision_id out \<noteq> None)
        then Inl (ValueError ''rule update revision identity is inconsistent'')
      else Inr out)"

definition updated_condition ::
  "(string, condition_update) dict \<Rightarrow> screening_condition \<Rightarrow> screening_condition result" where
  "updated_condition updates c =
     bind_r (dict_at updates (c_condition_id c)) (\<lambda>u.
       validate_condition (c\<lparr>c_threshold := cu_threshold u, c_exit_threshold := cu_exit_threshold u\<rparr>))"

definition next_version :: "string \<Rightarrow> nat \<Rightarrow> string" where
  "next_version version n = before_local version @ local_mark @ digits_of (n + 1)"

text \<open>The part of \<^verbatim>\<open>update\<close> that appends a revision for a changed rule.\<close>

definition append_revision ::
  "('x) registry_ids_scheme \<Rightarrow> screening_rule list \<Rightarrow> registry_state \<Rightarrow> screening_rule \<Rightarrow> nat \<Rightarrow>
     screening_rule \<Rightarrow> screening_rule \<Rightarrow> utc \<Rightarrow> (update_outcome \<times> registry_state option) result" where
  "append_revision I defaults st current n default_rule candidate recorded_at =
     bind_r (validate_rule (candidate\<lparr>r_rule_version := next_version (r_rule_version current) n\<rparr>)) (\<lambda>updated.
     bind_r (validate_revision I
       \<lparr>rv_revision_id = analytical_rule_revision_id I updated (rule_fingerprint I current) recorded_at,
        rv_rule = updated, rv_previous_fingerprint = rule_fingerprint I current,
        rv_recorded_at = recorded_at\<rparr>) (\<lambda>revision.
     bind_r (validate_registry (sort_key revision_order (st @ [revision]))) (\<lambda>st'.
     bind_r (project I defaults st') (\<lambda>_.
     bind_r (configuration I updated default_rule (n + 1)) (\<lambda>cfg.
     bind_r (validate_update_outcome
       \<lparr>uo_changed = True, uo_configuration = cfg, uo_revision_id = Some (rv_revision_id revision)\<rparr>)
       (\<lambda>out. Inr (out, Some st')))))))"

definition requested_rule :: "rule_update \<Rightarrow> screening_condition list \<Rightarrow> screening_rule \<Rightarrow> screening_rule" where
  \<comment> \<open>\<^verbatim>\<open>candidate_payload\<close>\<close>
  "requested_rule u conditions current =
     current\<lparr>r_state := ru_state u, r_confirmations_required := ru_confirmations_required u,
       r_cooldown_seconds := ru_cooldown_seconds u, r_conditions := conditions\<rparr>"

definition update_rule ::
  "('x) registry_ids_scheme \<Rightarrow> screening_rule list \<Rightarrow> registry_state option \<Rightarrow> rule_update \<Rightarrow> py_datetime \<Rightarrow>
     (update_outcome \<times> registry_state option) result" where
  "update_rule I defaults document u at_time =
     (case at_time of
        Naive w \<Rightarrow> Inl (ValueError ''recorded_at must be timezone-aware'')
      | Aware w off \<Rightarrow>
     bind_r (load_registry I defaults document) (\<lambda>st.
     bind_r (project I defaults st) (\<lambda>(current_by_id, counts).
     case dict_get current_by_id (ru_rule_id u) of
       None \<Rightarrow> Inl (ValueError ''analytical rule does not exist'')
     | Some current \<Rightarrow>
         if ru_expected_fingerprint u \<noteq> rule_fingerprint I current
           then Inl (RegistryConflictError ''analytical rule changed since it was loaded'')
         else
           (let updates = dict_by cu_condition_id (ru_conditions u) in
            if dict_keys updates \<noteq> map c_condition_id (r_conditions current)
              then Inl (ValueError ''rule update conditions must exactly match the current rule'')
            else
              bind_r (traverse (updated_condition updates) (r_conditions current)) (\<lambda>conditions.
              bind_r (validate_rule (requested_rule u conditions current)) (\<lambda>candidate.
              bind_r (dict_at counts (r_rule_id current)) (\<lambda>n.
              bind_r (dict_at (dict_by r_rule_id defaults) (r_rule_id current)) (\<lambda>default_rule.
              if rule_eq candidate current then
                bind_r (configuration I current default_rule n) (\<lambda>cfg.
                bind_r (validate_update_outcome
                    \<lparr>uo_changed = False, uo_configuration = cfg, uo_revision_id = None\<rparr>) (\<lambda>out.
                  Inr (out, document)))
              else append_revision I defaults st current n default_rule candidate (w - off)))))))))"

end
