(* ===== verification/RuleCatalog.thy ===== *)
theory RuleCatalog
  imports RuleRegistry
begin

text \<open>
  The packaged screening rules (\<^verbatim>\<open>alerts/analytical_rule_catalog.py\<close>), with their
  Spanish texts, and that the registry and the selector can use them as they are.
\<close>

definition INITIAL_MARKET_ACTIVITY_RULE :: screening_rule where
  "INITIAL_MARKET_ACTIVITY_RULE =
     \<lparr>r_rule_id = ''market.activity.relative-volume-review'', r_rule_version = ''1.0'',
      r_name_es = ''Actividad relativa para revisi'' @ [CHR 0xF3] @ ''n'',
      r_description_es =
        ''Detecta volumen diario relativo elevado frente a las 20 barras anteriores.'',
      r_state = SILENT, r_domain = MARKET, r_asset_classes = [CRYPTO, EQUITY, ETF],
      r_conditions =
        [\<lparr>c_condition_id = ''relative_volume_gte_1_5'',
          c_label_es = ''Volumen relativo'',
          c_domain = MARKET, c_metric_key = ''market.history.relative_volume'',
          c_algorithm_version = ''market-relative-volume-v1-decimal34'', c_unit = ''ratio'',
          c_operator = GREATER_THAN_OR_EQUAL, c_threshold = Decimal False 15 (-1),
          c_exit_threshold = Some (Decimal False 12 (-1)),
          c_parameter_filters = [(''window'', JInt 20)],
          c_accepted_qualities = [PARTIAL, VALID],
          c_limitations =
            [''Alpaca IEX cubre una sola bolsa y su volumen no representa el SIP consolidado.'',
             ''Coinbase representa '' @ [CHR 0xFA] @
             ''nicamente la actividad observada en Coinbase Exchange.'']\<rparr>],
      r_confirmations_required = 2, r_cooldown_seconds = 86400,
      r_limitations =
        [''La expansi'' @ [CHR 0xF3] @ ''n de volumen es una condici'' @ [CHR 0xF3] @
         ''n descriptiva, no una se'' @ [CHR 0xF1] @ ''al de compra o venta.'']\<rparr>"

definition RSI_LOW_REVIEW_RULE :: screening_rule where
  "RSI_LOW_REVIEW_RULE =
     \<lparr>r_rule_id = ''market.technical.rsi-low-review'', r_rule_version = ''1.0'',
      r_name_es = ''RSI bajo para revisi'' @ [CHR 0xF3] @ ''n'',
      r_description_es =
        ''Describe un RSI Wilder diario bajo el umbral configurable para revisi'' @ [CHR 0xF3] @
        ''n humana.'',
      r_state = SILENT, r_domain = MARKET, r_asset_classes = [CRYPTO, EQUITY, ETF],
      r_conditions =
        [\<lparr>c_condition_id = ''rsi_lte_30'',
          c_label_es = ''RSI Wilder'',
          c_domain = MARKET, c_metric_key = ''market.technical.rsi'',
          c_algorithm_version = ''market-rsi-wilder-v1-decimal34'', c_unit = ''index'',
          c_operator = LESS_THAN_OR_EQUAL, c_threshold = Decimal False 30 0,
          c_exit_threshold = Some (Decimal False 35 0),
          c_parameter_filters = [(''window'', JInt 14)],
          c_accepted_qualities = [PARTIAL, VALID],
          c_limitations =
            [''El umbral es configurable y descriptivo; no demuestra oportunidad, retorno futuro ni acci'' @
             [CHR 0xF3] @ ''n recomendada.'']\<rparr>],
      r_confirmations_required = 2, r_cooldown_seconds = 86400,
      r_limitations =
        [''No representa una instrucci'' @ [CHR 0xF3] @
         ''n operativa de sobrecompra o sobreventa.'']\<rparr>"

definition MACD_POSITIVE_HISTOGRAM_REVIEW_RULE :: screening_rule where
  "MACD_POSITIVE_HISTOGRAM_REVIEW_RULE =
     \<lparr>r_rule_id = ''market.technical.macd-positive-histogram-review'', r_rule_version = ''1.0'',
      r_name_es = ''Histograma MACD positivo para revisi'' @ [CHR 0xF3] @ ''n'',
      r_description_es =
        ''Describe un histograma MACD diario positivo bajo par'' @ [CHR 0xE1] @
        ''metros configurables.'',
      r_state = SILENT, r_domain = MARKET, r_asset_classes = [CRYPTO, EQUITY, ETF],
      r_conditions =
        [\<lparr>c_condition_id = ''macd_histogram_gt_0'',
          c_label_es = ''Histograma MACD'',
          c_domain = MARKET, c_metric_key = ''market.technical.macd.histogram'',
          c_algorithm_version = ''market-macd-v1-decimal34'', c_unit = ''USD'',
          c_operator = GREATER_THAN, c_threshold = Decimal False 0 0,
          c_exit_threshold = Some (Decimal False 0 0),
          c_parameter_filters = [(''fast_window'', JInt 12), (''slow_window'', JInt 26), (''signal_window'', JInt 9)],
          c_accepted_qualities = [PARTIAL, VALID],
          c_limitations =
            [''El umbral es configurable y descriptivo; no demuestra oportunidad, retorno futuro ni acci'' @
             [CHR 0xF3] @ ''n recomendada.'']\<rparr>],
      r_confirmations_required = 2, r_cooldown_seconds = 86400,
      r_limitations =
        [''No es una se'' @ [CHR 0xF1] @ ''al predictiva ni una recomendaci'' @ [CHR 0xF3] @
         ''n.'']\<rparr>"

definition RSI_INCREMENTAL_LOW_REVIEW_RULE :: screening_rule where
  "RSI_INCREMENTAL_LOW_REVIEW_RULE =
     \<lparr>r_rule_id = ''market.technical.rsi-incremental-low-review'', r_rule_version = ''1.0'',
      r_name_es = ''RSI diario incremental bajo para revisi'' @ [CHR 0xF3] @ ''n'',
      r_description_es =
        ''Describe un RSI Wilder diario incremental v2 bajo el umbral configurable para revisi'' @
        [CHR 0xF3] @ ''n humana.'',
      r_state = SILENT, r_domain = MARKET, r_asset_classes = [CRYPTO, EQUITY, ETF],
      r_conditions =
        [\<lparr>c_condition_id = ''rsi_lte_30'',
          c_label_es = ''RSI Wilder'',
          c_domain = MARKET, c_metric_key = ''market.technical.rsi'',
          c_algorithm_version = ''market-rsi-incremental-v2-decimal34'', c_unit = ''index'',
          c_operator = LESS_THAN_OR_EQUAL, c_threshold = Decimal False 30 0,
          c_exit_threshold = Some (Decimal False 35 0),
          c_parameter_filters = [(''window'', JInt 14)],
          c_accepted_qualities = [PARTIAL, VALID],
          c_limitations =
            [''El umbral es configurable y descriptivo; no demuestra oportunidad, retorno futuro ni acci'' @
             [CHR 0xF3] @ ''n recomendada.'']\<rparr>],
      r_confirmations_required = 2, r_cooldown_seconds = 86400,
      r_limitations =
        [''La evidencia incremental v2 es descriptiva y no tiene valor predictivo probado.'',
         ''No representa una instrucci'' @ [CHR 0xF3] @
         ''n operativa de sobrecompra o sobreventa.'']\<rparr>"

definition MACD_INCREMENTAL_POSITIVE_HISTOGRAM_REVIEW_RULE :: screening_rule where
  "MACD_INCREMENTAL_POSITIVE_HISTOGRAM_REVIEW_RULE =
     \<lparr>r_rule_id = ''market.technical.macd-incremental-positive-histogram-review'', r_rule_version = ''1.0'',
      r_name_es = ''Histograma MACD diario incremental positivo para revisi'' @ [CHR 0xF3] @
                  ''n'',
      r_description_es =
        ''Describe un histograma MACD diario incremental v2 positivo bajo par'' @ [CHR 0xE1] @
        ''metros configurables.'',
      r_state = SILENT, r_domain = MARKET, r_asset_classes = [CRYPTO, EQUITY, ETF],
      r_conditions =
        [\<lparr>c_condition_id = ''macd_histogram_gt_0'',
          c_label_es = ''Histograma MACD'',
          c_domain = MARKET, c_metric_key = ''market.technical.macd.histogram'',
          c_algorithm_version = ''market-macd-incremental-v2-decimal34'', c_unit = ''USD'',
          c_operator = GREATER_THAN, c_threshold = Decimal False 0 0,
          c_exit_threshold = Some (Decimal False 0 0),
          c_parameter_filters = [(''fast_window'', JInt 12), (''slow_window'', JInt 26), (''signal_window'', JInt 9)],
          c_accepted_qualities = [PARTIAL, VALID],
          c_limitations =
            [''El umbral es configurable y descriptivo; no demuestra oportunidad, retorno futuro ni acci'' @
             [CHR 0xF3] @ ''n recomendada.'']\<rparr>],
      r_confirmations_required = 2, r_cooldown_seconds = 86400,
      r_limitations =
        [''La evidencia incremental v2 es descriptiva y no tiene valor predictivo probado.'',
         ''No es una se'' @ [CHR 0xF1] @ ''al predictiva ni una recomendaci'' @ [CHR 0xF3] @
         ''n.'']\<rparr>"

definition INITIAL_ANNUAL_FUNDAMENTAL_RULE :: screening_rule where
  "INITIAL_ANNUAL_FUNDAMENTAL_RULE =
     \<lparr>r_rule_id = ''fundamentals.annual-balance-growth-review'', r_rule_version = ''1.0'',
      r_name_es = ''Balance, margen y crecimiento anual para revisi'' @ [CHR 0xF3] @ ''n'',
      r_description_es =
        ''Eval'' @ [CHR 0xFA] @ ''a simult'' @ [CHR 0xE1] @
        ''neamente tres condiciones fundamentales anuales configuradas.'',
      r_state = SILENT, r_domain = FUNDAMENTALS, r_asset_classes = [EQUITY],
      r_conditions =
        [\<lparr>c_condition_id = ''liabilities_to_assets_lte_0_6'',
          c_label_es = ''Pasivos sobre activos'',
          c_domain = FUNDAMENTALS, c_metric_key = ''fundamental.liabilities_to_assets'',
          c_algorithm_version = ''sec-fundamental-liabilities-to-assets-v1-decimal34'', c_unit = ''ratio'',
          c_operator = LESS_THAN_OR_EQUAL, c_threshold = Decimal False 6 (-1),
          c_exit_threshold = None,
          c_parameter_filters = [(''frequency'', JStr ''annual'')],
          c_accepted_qualities = [VALID],
          c_limitations =
            []\<rparr>,
         \<lparr>c_condition_id = ''net_margin_gt_0'',
          c_label_es = ''Margen neto'',
          c_domain = FUNDAMENTALS, c_metric_key = ''fundamental.net_margin'',
          c_algorithm_version = ''sec-fundamental-net-margin-v1-decimal34'', c_unit = ''ratio'',
          c_operator = GREATER_THAN, c_threshold = Decimal False 0 0,
          c_exit_threshold = None,
          c_parameter_filters = [(''frequency'', JStr ''annual'')],
          c_accepted_qualities = [VALID],
          c_limitations =
            []\<rparr>,
         \<lparr>c_condition_id = ''revenue_yoy_growth_gt_0'',
          c_label_es = ''Crecimiento interanual de ingresos'',
          c_domain = FUNDAMENTALS, c_metric_key = ''fundamental.revenue_yoy_growth'',
          c_algorithm_version = ''sec-fundamental-revenue-yoy-growth-v1-decimal34'', c_unit = ''ratio'',
          c_operator = GREATER_THAN, c_threshold = Decimal False 0 0,
          c_exit_threshold = None,
          c_parameter_filters = [(''frequency'', JStr ''annual'')],
          c_accepted_qualities = [VALID],
          c_limitations =
            []\<rparr>],
      r_confirmations_required = 1, r_cooldown_seconds = 604800,
      r_limitations =
        [''Los umbrales son una plantilla inicial configurable, no una definici'' @ [CHR 0xF3] @
         ''n universal de calidad.'',
         ''La regla no incorpora valoraci'' @ [CHR 0xF3] @
         ''n, precio, sector ni contexto macro.'']\<rparr>"

definition INITIAL_QUARTERLY_FUNDAMENTAL_RULE :: screening_rule where
  "INITIAL_QUARTERLY_FUNDAMENTAL_RULE =
     \<lparr>r_rule_id = ''fundamentals.quarterly-balance-growth-review'', r_rule_version = ''1.0'',
      r_name_es = ''Balance, margen y crecimiento para revisi'' @ [CHR 0xF3] @ ''n'',
      r_description_es =
        ''Eval'' @ [CHR 0xFA] @ ''a simult'' @ [CHR 0xE1] @
        ''neamente tres condiciones fundamentales trimestrales configuradas.'',
      r_state = SILENT, r_domain = FUNDAMENTALS, r_asset_classes = [EQUITY],
      r_conditions =
        [\<lparr>c_condition_id = ''liabilities_to_assets_lte_0_6'',
          c_label_es = ''Pasivos sobre activos'',
          c_domain = FUNDAMENTALS, c_metric_key = ''fundamental.liabilities_to_assets'',
          c_algorithm_version = ''sec-fundamental-liabilities-to-assets-v1-decimal34'', c_unit = ''ratio'',
          c_operator = LESS_THAN_OR_EQUAL, c_threshold = Decimal False 6 (-1),
          c_exit_threshold = None,
          c_parameter_filters = [(''frequency'', JStr ''quarterly'')],
          c_accepted_qualities = [VALID],
          c_limitations =
            []\<rparr>,
         \<lparr>c_condition_id = ''net_margin_gt_0'',
          c_label_es = ''Margen neto'',
          c_domain = FUNDAMENTALS, c_metric_key = ''fundamental.net_margin'',
          c_algorithm_version = ''sec-fundamental-net-margin-v1-decimal34'', c_unit = ''ratio'',
          c_operator = GREATER_THAN, c_threshold = Decimal False 0 0,
          c_exit_threshold = None,
          c_parameter_filters = [(''frequency'', JStr ''quarterly'')],
          c_accepted_qualities = [VALID],
          c_limitations =
            []\<rparr>,
         \<lparr>c_condition_id = ''revenue_yoy_growth_gt_0'',
          c_label_es = ''Crecimiento interanual de ingresos'',
          c_domain = FUNDAMENTALS, c_metric_key = ''fundamental.revenue_yoy_growth'',
          c_algorithm_version = ''sec-fundamental-revenue-yoy-growth-v1-decimal34'', c_unit = ''ratio'',
          c_operator = GREATER_THAN, c_threshold = Decimal False 0 0,
          c_exit_threshold = None,
          c_parameter_filters = [(''frequency'', JStr ''quarterly'')],
          c_accepted_qualities = [VALID],
          c_limitations =
            []\<rparr>],
      r_confirmations_required = 1, r_cooldown_seconds = 604800,
      r_limitations =
        [''Los umbrales son una plantilla inicial configurable, no una definici'' @ [CHR 0xF3] @
         ''n universal de calidad.'',
         ''La regla no incorpora valoraci'' @ [CHR 0xF3] @
         ''n, precio, sector ni contexto macro.'']\<rparr>"

definition INITIAL_ANALYTICAL_RULES :: "screening_rule list" where
  "INITIAL_ANALYTICAL_RULES =
     [INITIAL_ANNUAL_FUNDAMENTAL_RULE,
      INITIAL_QUARTERLY_FUNDAMENTAL_RULE,
      INITIAL_MARKET_ACTIVITY_RULE,
      MACD_INCREMENTAL_POSITIVE_HISTOGRAM_REVIEW_RULE,
      MACD_POSITIVE_HISTOGRAM_REVIEW_RULE,
      RSI_INCREMENTAL_LOW_REVIEW_RULE,
      RSI_LOW_REVIEW_RULE]"

lemmas packaged_rules =
  INITIAL_ANNUAL_FUNDAMENTAL_RULE_def INITIAL_QUARTERLY_FUNDAMENTAL_RULE_def INITIAL_MARKET_ACTIVITY_RULE_def
  MACD_INCREMENTAL_POSITIVE_HISTOGRAM_REVIEW_RULE_def MACD_POSITIVE_HISTOGRAM_REVIEW_RULE_def
  RSI_INCREMENTAL_LOW_REVIEW_RULE_def RSI_LOW_REVIEW_RULE_def

section \<open>The packaged rules are usable\<close>

lemmas evaluate_rule = parse_rule_def validate_rule_def validate_condition_def sorted_unique_iff
  dec_less_def Let_def

lemma packaged_rule_parses:
  "parse_rule INITIAL_ANNUAL_FUNDAMENTAL_RULE = Inr INITIAL_ANNUAL_FUNDAMENTAL_RULE"
  "parse_rule INITIAL_QUARTERLY_FUNDAMENTAL_RULE = Inr INITIAL_QUARTERLY_FUNDAMENTAL_RULE"
  "parse_rule INITIAL_MARKET_ACTIVITY_RULE = Inr INITIAL_MARKET_ACTIVITY_RULE"
  "parse_rule MACD_INCREMENTAL_POSITIVE_HISTOGRAM_REVIEW_RULE = Inr MACD_INCREMENTAL_POSITIVE_HISTOGRAM_REVIEW_RULE"
  "parse_rule MACD_POSITIVE_HISTOGRAM_REVIEW_RULE = Inr MACD_POSITIVE_HISTOGRAM_REVIEW_RULE"
  "parse_rule RSI_INCREMENTAL_LOW_REVIEW_RULE = Inr RSI_INCREMENTAL_LOW_REVIEW_RULE"
  "parse_rule RSI_LOW_REVIEW_RULE = Inr RSI_LOW_REVIEW_RULE"
  by (simp_all add: packaged_rules evaluate_rule)

lemma packaged_ids: "map r_rule_id INITIAL_ANALYTICAL_RULES =
   [''fundamentals.annual-balance-growth-review'', ''fundamentals.quarterly-balance-growth-review'',
    ''market.activity.relative-volume-review'', ''market.technical.macd-incremental-positive-histogram-review'',
    ''market.technical.macd-positive-histogram-review'', ''market.technical.rsi-incremental-low-review'',
    ''market.technical.rsi-low-review'']"
  by (simp add: INITIAL_ANALYTICAL_RULES_def packaged_rules)

text \<open>
  The packaged catalogue can be used as it is: the registry accepts it in the order
  it is written, every rule passes its validators, is enabled and silent, and no two conditions of
  a rule share a metric key, so that the snapshot selector applies every condition's own filters.
\<close>
lemma packaged_rules_usable:
  "new_registry INITIAL_ANALYTICAL_RULES = Inr INITIAL_ANALYTICAL_RULES \<and>
   list_all (\<lambda>r. parse_rule r = Inr r \<and> r_state r = SILENT \<and> rule_enabled r \<and>
     distinct (map c_metric_key (r_conditions r))) INITIAL_ANALYTICAL_RULES"
proof
  have "sorted (map (\<lambda>r. (r_rule_id r, r_rule_version r)) INITIAL_ANALYTICAL_RULES)"
    by (simp add: INITIAL_ANALYTICAL_RULES_def packaged_rules)
  then have "sort_key (\<lambda>r. (r_rule_id r, r_rule_version r)) INITIAL_ANALYTICAL_RULES = INITIAL_ANALYTICAL_RULES"
    by (rule sort_key_id_if_sorted)
  moreover have "INITIAL_ANALYTICAL_RULES \<noteq> []" by (simp add: INITIAL_ANALYTICAL_RULES_def)
  moreover have "distinct (map r_rule_id INITIAL_ANALYTICAL_RULES)" unfolding packaged_ids by simp
  ultimately show "new_registry INITIAL_ANALYTICAL_RULES = Inr INITIAL_ANALYTICAL_RULES"
    by (simp add: new_registry_def)
next
  show "list_all (\<lambda>r. parse_rule r = Inr r \<and> r_state r = SILENT \<and> rule_enabled r \<and>
     distinct (map c_metric_key (r_conditions r))) INITIAL_ANALYTICAL_RULES"
    by (simp add: INITIAL_ANALYTICAL_RULES_def packaged_rule_parses)
       (simp add: packaged_rules rule_enabled_def)
qed

end
