(* ===== verification/RegistryProperties.thy ===== *)
theory RegistryProperties
  imports RuleCatalog
begin

text \<open>
  What the rule registry guarantees: the registry always loads, updates change only the editable
  fields of a rule, an update takes effect, a stale one is refused, and a clock that has gone
  back blocks changes.
\<close>

section \<open>Replaying revisions\<close>

abbreviation rule_id_of :: "rule_revision \<Rightarrow> string" where
  "rule_id_of v \<equiv> r_rule_id (rv_rule v)"

definition of_rule :: "string \<Rightarrow> registry_state \<Rightarrow> registry_state" where
  "of_rule rid vs = filter (\<lambda>v. rule_id_of v = rid) vs"

lemma of_rule_simps [simp]:
  "of_rule rid [] = []"
  "of_rule rid (v # vs) = (if rule_id_of v = rid then v # of_rule rid vs else of_rule rid vs)"
  "of_rule rid (xs @ ys) = of_rule rid xs @ of_rule rid ys"
  by (simp_all add: of_rule_def)

fun chained :: "('x) registry_ids_scheme \<Rightarrow> screening_rule \<Rightarrow> registry_state \<Rightarrow> bool" where
  "chained I prior [] = True"
| "chained I prior (v # vs) =
     (rv_previous_fingerprint v = rule_fingerprint I prior \<and> chained I (rv_rule v) vs)"

abbreviation latest_rule :: "screening_rule \<Rightarrow> registry_state \<Rightarrow> screening_rule" where
  "latest_rule prior vs \<equiv> last (prior # map rv_rule vs)"

lemma chained_append: "chained I prior (xs @ ys) \<longleftrightarrow>
    chained I prior xs \<and> chained I (latest_rule prior xs) ys"
  by (induction xs arbitrary: prior) auto

text \<open>
  A projection is usable when both dictionaries have the same keys. Replaying succeeds exactly
  when every revision belongs to a known rule and each rule's revisions form a chain.
\<close>

definition aligned :: "projection \<Rightarrow> bool" where
  "aligned p \<longleftrightarrow> dict_keys (fst p) = dict_keys (snd p)"

lemma aligned_get: "aligned p \<Longrightarrow> dict_get (fst p) k = None \<longleftrightarrow> dict_get (snd p) k = None"
  by (simp add: aligned_def dict_get_None_iff dict_keys_def del: set_map)

lemma dict_keys_set: "dict_get d k = Some v' \<Longrightarrow> dict_keys (dict_set d k v) = dict_keys d"
  by (induction d k v rule: dict_set.induct) (auto simp: dict_get_def dict_keys_def split: if_splits)

lemma replay_step:
  "replay I p (v # vs) = Inr p' \<longleftrightarrow>
     (\<exists>prior n. dict_get (fst p) (rule_id_of v) = Some prior \<and> dict_get (snd p) (rule_id_of v) = Some n \<and>
        rv_previous_fingerprint v = rule_fingerprint I prior \<and>
        replay I (dict_set (fst p) (rule_id_of v) (rv_rule v), dict_set (snd p) (rule_id_of v) (n + 1)) vs = Inr p')"
  by (cases p) (auto simp: Let_def split: option.splits)

lemma replay_Inr:
  assumes "replay I p vs = Inr p'"
  shows "\<forall>v \<in> set vs. dict_get (fst p) (rule_id_of v) \<noteq> None"
    and "dict_get (fst p) rid = Some prior \<Longrightarrow> chained I prior (of_rule rid vs)"
    and "dict_get (fst p') rid = map_option (\<lambda>prior. latest_rule prior (of_rule rid vs)) (dict_get (fst p) rid)"
    and "dict_get (snd p') rid = map_option (\<lambda>n. n + length (of_rule rid vs)) (dict_get (snd p) rid)"
    and "dict_keys (fst p') = dict_keys (fst p) \<and> dict_keys (snd p') = dict_keys (snd p)"
proof -
  show "\<forall>v \<in> set vs. dict_get (fst p) (rule_id_of v) \<noteq> None"
    using assms by (induction vs arbitrary: p) (fastforce simp: replay_step simp del: replay.simps(2) split: if_splits)+
  show "dict_get (fst p) rid = Some prior \<Longrightarrow> chained I prior (of_rule rid vs)"
    using assms
  proof (induction vs arbitrary: p prior)
    case (Cons v vs)
    from Cons.prems(2) obtain n q where step: "rv_previous_fingerprint v = rule_fingerprint I q"
        "dict_get (fst p) (rule_id_of v) = Some q"
        "replay I (dict_set (fst p) (rule_id_of v) (rv_rule v), dict_set (snd p) (rule_id_of v) (n + 1)) vs = Inr p'"
      unfolding replay_step by blast
    show ?case
      using step Cons.prems(1) Cons.IH [OF _ step(3), of "if rule_id_of v = rid then rv_rule v else prior"]
      by auto
  qed simp
  show "dict_get (fst p') rid = map_option (\<lambda>prior. latest_rule prior (of_rule rid vs)) (dict_get (fst p) rid)"
    using assms by (induction vs arbitrary: p) (auto simp: replay_step option.map_ident simp del: replay.simps(2))
  show "dict_get (snd p') rid = map_option (\<lambda>n. n + length (of_rule rid vs)) (dict_get (snd p) rid)"
    using assms by (induction vs arbitrary: p) (auto simp: replay_step option.map_ident simp del: replay.simps(2))
  show "dict_keys (fst p') = dict_keys (fst p) \<and> dict_keys (snd p') = dict_keys (snd p)"
    using assms by (induction vs arbitrary: p) (auto simp: replay_step dict_keys_set simp del: replay.simps(2))
qed

lemma replay_succeeds:
  assumes "aligned p" and "\<forall>v \<in> set vs. dict_get (fst p) (rule_id_of v) \<noteq> None"
    and "\<And>rid prior. dict_get (fst p) rid = Some prior \<Longrightarrow> chained I prior (of_rule rid vs)"
  shows "\<exists>p'. replay I p vs = Inr p'"
  using assms
proof (induction vs arbitrary: p)
  case (Cons v vs)
  from Cons.prems(2) obtain prior where prior: "dict_get (fst p) (rule_id_of v) = Some prior" by auto
  moreover obtain n where n: "dict_get (snd p) (rule_id_of v) = Some n"
    using aligned_get [OF Cons.prems(1), of "rule_id_of v"] prior by auto
  let ?p = "(dict_set (fst p) (rule_id_of v) (rv_rule v), dict_set (snd p) (rule_id_of v) (n + 1))"
  have "\<exists>p'. replay I ?p vs = Inr p'"
  proof (rule Cons.IH)
    show "aligned ?p" using Cons.prems(1) prior n by (simp add: aligned_def dict_keys_set)
    show "\<forall>x \<in> set vs. dict_get (fst ?p) (rule_id_of x) \<noteq> None" using Cons.prems(2) by simp
    fix rid pr assume "dict_get (fst ?p) rid = Some pr"
    then show "chained I pr (of_rule rid vs)"
      using Cons.prems(3) [of rid] prior by (auto split: if_splits)
  qed
  moreover have "rv_previous_fingerprint v = rule_fingerprint I prior"
    using Cons.prems(3) [OF prior] by simp
  ultimately show ?case using prior n unfolding replay_step by blast
qed simp

lemma replay_append:
  "replay I p (xs @ ys) = bind_r (replay I p xs) (\<lambda>p. replay I p ys)"
  by (induction I p xs rule: replay.induct) (auto simp: Let_def split: option.splits)

section \<open>The registry invariant\<close>

text \<open>What an update may not change: everything but state, counts, cooldown and thresholds.\<close>

definition condition_contract :: "screening_condition \<Rightarrow> screening_condition" where
  "condition_contract c = c\<lparr>c_threshold := Decimal False 0 0, c_exit_threshold := None\<rparr>"

definition contract :: "screening_rule \<Rightarrow> screening_rule" where
  "contract r = r\<lparr>r_rule_version := [], r_state := DRAFT, r_confirmations_required := 1,
     r_cooldown_seconds := 0, r_conditions := map condition_contract (r_conditions r)\<rparr>"

definition defaults_ok :: "screening_rule list \<Rightarrow> bool" where
  "defaults_ok D \<longleftrightarrow> new_registry D = Inr D \<and> (\<forall>d \<in> set D. parse_rule d = Inr d)"

abbreviation stored :: "registry_state option \<Rightarrow> registry_state" where
  "stored document \<equiv> (case document of None \<Rightarrow> [] | Some st \<Rightarrow> st)"

definition numbered :: "registry_state \<Rightarrow> bool" where
  "numbered st \<longleftrightarrow> (\<forall>v \<in> set st. \<exists>base k. r_rule_version (rv_rule v) = base @ local_mark @ digits_of k \<and>
     1 \<le> k \<and> k \<le> length (of_rule (rule_id_of v) st))"

definition registry_ok ::
  "('x) registry_ids_scheme \<Rightarrow> screening_rule list \<Rightarrow> registry_state \<Rightarrow> bool" where
  "registry_ok I D st \<longleftrightarrow> parse_registry I st = Inr st \<and> (\<exists>p. project I D st = Inr p) \<and> numbered st \<and>
     (\<forall>v \<in> set st. \<forall>d \<in> set D. rule_id_of v = r_rule_id d \<longrightarrow> contract (rv_rule v) = contract d)"

lemma defaults_ok_ids: "defaults_ok D \<Longrightarrow> distinct (map r_rule_id D)"
  by (auto simp: defaults_ok_def new_registry_def Let_def split: if_splits)

lemma initial_lookup:
  assumes "defaults_ok D"
  shows "aligned (initial_projection D)"
    and "d \<in> set D \<Longrightarrow> dict_get (fst (initial_projection D)) (r_rule_id d) = Some d"
    and "d \<in> set D \<Longrightarrow> dict_get (snd (initial_projection D)) (r_rule_id d) = Some 0"
    and "dict_get (fst (initial_projection D)) rid = Some d \<Longrightarrow> d \<in> set D \<and> r_rule_id d = rid"
proof -
  have zero: "dict_get (map (\<lambda>(k, _). (k, 0 :: nat)) kvs) k = map_option (\<lambda>_. 0) (dict_get kvs k)"
    for kvs :: "(string \<times> screening_rule) list" and k
    by (induction kvs) (auto simp: dict_get_def)
  show "aligned (initial_projection D)"
    by (simp add: aligned_def initial_projection_def dict_keys_def comp_def case_prod_beta)
  show get: "d \<in> set D \<Longrightarrow> dict_get (fst (initial_projection D)) (r_rule_id d) = Some d"
    using dict_get_by [OF defaults_ok_ids [OF assms]] by (simp add: initial_projection_def)
  then show "d \<in> set D \<Longrightarrow> dict_get (snd (initial_projection D)) (r_rule_id d) = Some 0"
    by (simp add: initial_projection_def zero)
  show "dict_get (fst (initial_projection D)) rid = Some d \<Longrightarrow> d \<in> set D \<and> r_rule_id d = rid"
    by (auto simp: initial_projection_def dest: dict_get_by_SomeD)
qed

lemma registry_ok_load:
  assumes "registry_ok I D (stored document)"
  shows "load_registry I D document = Inr (stored document)"
  using assms by (cases document) (auto simp: load_registry_def registry_ok_def)

lemma registry_ok_empty: "registry_ok I D []"
  by (simp add: registry_ok_def parse_registry_def validate_registry_def project_def numbered_def)

text \<open>What the projection of a consistent registry holds for a default rule.\<close>

lemma projected_rule:
  assumes "defaults_ok D" and "project I D st = Inr p" and "d \<in> set D"
  shows "dict_get (fst p) (r_rule_id d) = Some (latest_rule d (of_rule (r_rule_id d) st))"
    and "dict_get (snd p) (r_rule_id d) = Some (length (of_rule (r_rule_id d) st))"
    and "chained I d (of_rule (r_rule_id d) st)"
  using replay_Inr(2-4) [OF assms(2) [unfolded project_def], of "r_rule_id d"] initial_lookup(2,3) [OF assms(1,3)]
  by simp_all

lemma projected_default:
  assumes "defaults_ok D" and "project I D st = Inr p" and "dict_get (fst p) rid = Some r"
  shows "\<exists>d \<in> set D. r_rule_id d = rid \<and> r = latest_rule d (of_rule rid st)"
  using replay_Inr(3) [OF assms(2) [unfolded project_def], of rid] assms(3) initial_lookup(4) [OF assms(1), of rid]
  by (cases "dict_get (fst (initial_projection D)) rid") auto

lemma revision_default:
  assumes "defaults_ok D" and "project I D st = Inr p" and "v \<in> set st"
  shows "\<exists>d \<in> set D. r_rule_id d = rule_id_of v"
  using replay_Inr(1) [OF assms(2) [unfolded project_def]] assms(3) initial_lookup(4) [OF assms(1)] by fastforce

lemma latest_rule_cases:
  "latest_rule d vs = d \<and> vs = [] \<or> (\<exists>v \<in> set vs. latest_rule d vs = rv_rule v)"
  by (cases vs rule: rev_cases) auto

lemma latest_rule_sound:
  assumes "registry_ok I D st" and "defaults_ok D" and "d \<in> set D"
  shows "contract (latest_rule d (of_rule (r_rule_id d) st)) = contract d"
    and "parse_rule (latest_rule d (of_rule (r_rule_id d) st)) = Inr (latest_rule d (of_rule (r_rule_id d) st))"
    and "r_rule_id (latest_rule d (of_rule (r_rule_id d) st)) = r_rule_id d"
proof -
  have parsed: "parse_rule (rv_rule v) = Inr (rv_rule v)" if "v \<in> set st" for v
  proof -
    from assms(1) have "traverse (\<lambda>v. bind_r (parse_rule (rv_rule v)) (\<lambda>_. validate_revision I v)) st \<noteq> Inl e" for e
      by (auto simp: registry_ok_def parse_registry_def)
    then obtain vs where "traverse (\<lambda>v. bind_r (parse_rule (rv_rule v)) (\<lambda>_. validate_revision I v)) st = Inr vs"
      by (cases "traverse (\<lambda>v. bind_r (parse_rule (rv_rule v)) (\<lambda>_. validate_revision I v)) st") auto
    then have "list_all2 (\<lambda>v v'. bind_r (parse_rule (rv_rule v)) (\<lambda>_. validate_revision I v) = Inr v') st vs"
      by (simp add: traverse_Inr_iff)
    from list_all2_left_elem [OF this that] obtain r where "parse_rule (rv_rule v) = Inr r"
      by (auto simp: bind_r_eq_Inr)
    then show ?thesis
      by (auto simp: parse_rule_def bind_r_eq_Inr validate_rule_def Let_def split: if_splits)
  qed
  note cases = latest_rule_cases [of d "of_rule (r_rule_id d) st"]
  show "contract (latest_rule d (of_rule (r_rule_id d) st)) = contract d"
    using cases assms(1,3) by (auto simp: registry_ok_def of_rule_def)
  show "parse_rule (latest_rule d (of_rule (r_rule_id d) st)) = Inr (latest_rule d (of_rule (r_rule_id d) st))"
    using cases parsed assms(2,3) by (auto simp: of_rule_def defaults_ok_def)
  show "r_rule_id (latest_rule d (of_rule (r_rule_id d) st)) = r_rule_id d"
    using cases by (auto simp: of_rule_def)
qed

section \<open>The branches of an update\<close>

lemma dict_at_Inr: "dict_at d k = Inr v \<longleftrightarrow> dict_get d k = Some v"
  by (simp add: dict_at_def split: option.splits)

lemma validate_simps:
  "validate_rule r = Inr r' \<Longrightarrow> r' = r"
  "validate_condition c = Inr c' \<Longrightarrow> c' = c"
  "validate_revision I v = Inr v' \<Longrightarrow> v' = v"
  "validate_registry st = Inr st' \<Longrightarrow> st' = st"
  "validate_update_outcome out = Inr out' \<Longrightarrow> out' = out"
  by (auto simp: validate_rule_def validate_condition_def validate_revision_def validate_registry_def
      validate_update_outcome_def Let_def split: if_splits option.splits)

lemma configuration_Inr:
  "r_rule_id r = r_rule_id d \<Longrightarrow> configuration I r d n =
     Inr \<lparr>cfg_rule = r, cfg_default_rule = d, cfg_fingerprint = rule_fingerprint I r,
          cfg_customized = (\<not> matches_default_configuration r d), cfg_revision_count = n\<rparr>"
  by (simp add: configuration_def validate_configuration_def)

definition revised :: "('x) registry_ids_scheme \<Rightarrow> screening_rule \<Rightarrow> screening_rule \<Rightarrow> utc \<Rightarrow> rule_revision" where
  "revised I current updated recorded_at =
     \<lparr>rv_revision_id = analytical_rule_revision_id I updated (rule_fingerprint I current) recorded_at,
      rv_rule = updated, rv_previous_fingerprint = rule_fingerprint I current, rv_recorded_at = recorded_at\<rparr>"

lemma append_revision_Inr:
  assumes "append_revision I D st current n d candidate recorded_at = Inr (out, document')"
  obtains v p where "v = revised I current (candidate\<lparr>r_rule_version := next_version (r_rule_version current) n\<rparr>) recorded_at"
    and "validate_rule (rv_rule v) = Inr (rv_rule v)" and "validate_revision I v = Inr v"
    and "validate_registry (sort_key revision_order (st @ [v])) = Inr (sort_key revision_order (st @ [v]))"
    and "project I D (sort_key revision_order (st @ [v])) = Inr p"
    and "uo_changed out" and "cfg_rule (uo_configuration out) = rv_rule v"
    and "document' = Some (sort_key revision_order (st @ [v]))"
proof -
  let ?r = "candidate\<lparr>r_rule_version := next_version (r_rule_version current) n\<rparr>"
  let ?v = "revised I current ?r recorded_at" and ?st = "sort_key revision_order (st @ [revised I current ?r recorded_at])"
  from assms obtain p cfg where
    "validate_rule ?r = Inr ?r" "validate_revision I ?v = Inr ?v" "validate_registry ?st = Inr ?st"
    "project I D ?st = Inr p" "configuration I ?r d (n + 1) = Inr cfg"
    "out = \<lparr>uo_changed = True, uo_configuration = cfg, uo_revision_id = Some (rv_revision_id ?v)\<rparr>"
    "document' = Some ?st"
    unfolding append_revision_def bind_r_eq_Inr revised_def [symmetric]
    by (metis Pair_inject sum.inject(2) validate_simps(1) validate_simps(3-5))
  moreover then have "cfg_rule cfg = ?r"
    by (auto simp: configuration_def validate_configuration_def split: if_splits)
  ultimately show thesis using that [of ?v p] by (simp add: revised_def)
qed

definition requested_conditions ::
  "rule_update \<Rightarrow> screening_rule \<Rightarrow> screening_condition list result" where
  "requested_conditions u current =
     traverse (updated_condition (dict_by cu_condition_id (ru_conditions u))) (r_conditions current)"

lemma update_rule_cases:
  assumes "update_rule I D document u t = Inr (out, document')"
    and "defaults_ok D" and "registry_ok I D (stored document)"
  obtains w off d current conditions candidate where "t = Aware w off"
    and "d \<in> set D" and "r_rule_id d = ru_rule_id u"
    and "current = latest_rule d (of_rule (ru_rule_id u) (stored document))"
    and "ru_expected_fingerprint u = rule_fingerprint I current"
    and "requested_conditions u current = Inr conditions"
    and "candidate = requested_rule u conditions current" and "validate_rule candidate = Inr candidate"
    and "rule_eq candidate current \<and> document' = document \<and> \<not> uo_changed out \<or>
      \<not> rule_eq candidate current \<and>
      append_revision I D (stored document) current (length (of_rule (ru_rule_id u) (stored document)))
        d candidate (w - off) = Inr (out, document')"
proof -
  let ?st = "stored document"
  from assms(1) obtain w off where t: "t = Aware w off" by (cases t) (auto simp: update_rule_def)
  from assms(3) obtain p where p: "project I D ?st = Inr p" by (auto simp: registry_ok_def)
  obtain current_by_id counts where pp: "p = (current_by_id, counts)" by fastforce
  note upd = assms(1) [unfolded update_rule_def t py_datetime.case registry_ok_load [OF assms(3)]
      bind_r_simps p pp prod.case]
  obtain current where cur: "dict_get current_by_id (ru_rule_id u) = Some current"
    using upd by (cases "dict_get current_by_id (ru_rule_id u)") auto
  with projected_default [OF assms(2) p, of "ru_rule_id u"] pp obtain d where d: "d \<in> set D"
    "r_rule_id d = ru_rule_id u" and current: "current = latest_rule d (of_rule (ru_rule_id u) ?st)" by auto
  have rid: "r_rule_id current = ru_rule_id u"
    using latest_rule_sound(3) [OF assms(3,2) d(1)] by (simp add: current d(2))
  have n: "dict_at counts (r_rule_id current) = Inr (length (of_rule (ru_rule_id u) ?st))"
    using projected_rule(2) [OF assms(2) p d(1)] by (simp add: dict_at_Inr rid d(2) pp)
  have def: "dict_at (dict_by r_rule_id D) (r_rule_id current) = Inr d"
    using initial_lookup(2) [OF assms(2) d(1)] by (simp add: dict_at_Inr rid d(2) initial_projection_def)
  have fp: "ru_expected_fingerprint u = rule_fingerprint I current"
    using upd by (auto simp: cur split: if_splits)
  from upd obtain conditions candidate where c: "requested_conditions u current = Inr conditions"
    "validate_rule (requested_rule u conditions current) = Inr candidate"
    and rest: "(if rule_eq candidate current then
                bind_r (configuration I current d (length (of_rule (ru_rule_id u) ?st))) (\<lambda>cfg.
                bind_r (validate_update_outcome
                    \<lparr>uo_changed = False, uo_configuration = cfg, uo_revision_id = None\<rparr>) (\<lambda>out.
                  Inr (out, document)))
              else append_revision I D ?st current (length (of_rule (ru_rule_id u) ?st)) d candidate (w - off)) =
      Inr (out, document')"
    by (auto simp: cur Let_def requested_conditions_def bind_r_eq_Inr n def split: if_splits)
  from c(2) have cand: "candidate = requested_rule u conditions current" by (rule validate_simps)
  from rest have "rule_eq candidate current \<and> document' = document \<and> \<not> uo_changed out \<or>
      \<not> rule_eq candidate current \<and> append_revision I D ?st current
        (length (of_rule (ru_rule_id u) ?st)) d candidate (w - off) = Inr (out, document')"
    by (cases "rule_eq candidate current") (auto simp: bind_r_eq_Inr dest!: validate_simps(5))
  with that t d current fp c cand show thesis by blast
qed

section \<open>An update keeps the invariant\<close>

lemma requested_conditions_contract:
  assumes "requested_conditions u current = Inr conditions"
  shows "map condition_contract conditions = map condition_contract (r_conditions current)"
    and "traverse validate_condition conditions = Inr conditions"
proof -
  let ?ups = "dict_by cu_condition_id (ru_conditions u)"
  have all: "list_all2 (\<lambda>c c'. updated_condition ?ups c = Inr c') (r_conditions current) conditions"
    using assms by (simp add: requested_conditions_def traverse_Inr_iff)
  show "map condition_contract conditions = map condition_contract (r_conditions current)"
    using all by (rule map_eq_of_list_all2)
      (auto simp: updated_condition_def bind_r_eq_Inr condition_contract_def dest!: validate_simps(2))
  have "validate_condition c' = Inr c'" if "c' \<in> set conditions" for c'
    using list_all2_right_elem [OF all that]
    by (auto simp: updated_condition_def bind_r_eq_Inr dest: validate_simps(2))
  then show "traverse validate_condition conditions = Inr conditions"
    using traverse_Inr_map [of conditions validate_condition "\<lambda>c. c"] by simp
qed

lemma of_rule_sort [simp]: "of_rule rid (sort_key f xs) = sort_key f (of_rule rid xs)"
  by (simp add: of_rule_def filter_sort)

lemma parse_registry_Inr:
  "parse_registry I st = Inr st \<longleftrightarrow> validate_registry st = Inr st \<and>
     (\<forall>v \<in> set st. parse_rule (rv_rule v) = Inr (rv_rule v) \<and> validate_revision I v = Inr v)"
proof -
  have "parse_rule r = Inr r' \<Longrightarrow> r' = r" for r r'
    by (auto simp: parse_rule_def bind_r_eq_Inr dest: validate_simps(1))
  then have elem: "bind_r (parse_rule (rv_rule v)) (\<lambda>_. validate_revision I v) = Inr w \<longleftrightarrow>
      w = v \<and> parse_rule (rv_rule v) = Inr (rv_rule v) \<and> validate_revision I v = Inr v" for v w
    by (auto simp: bind_r_eq_Inr dest: validate_simps(3))
  have "traverse (\<lambda>v. bind_r (parse_rule (rv_rule v)) (\<lambda>_. validate_revision I v)) st = Inr ws \<longleftrightarrow>
      ws = st \<and> (\<forall>v \<in> set st. parse_rule (rv_rule v) = Inr (rv_rule v) \<and> validate_revision I v = Inr v)" for ws
    unfolding traverse_Inr_iff elem by (induction st arbitrary: ws) (auto simp: list_all2_Cons1)
  then show ?thesis by (auto simp: parse_registry_def bind_r_eq_Inr)
qed

lemma has_local_mark: "has_local (a @ local_mark @ b)"
  by (induction a) (simp_all add: local_mark_def)

lemma update_keeps_registry:
  assumes "update_rule I D document u t = Inr (out, document')"
    and "defaults_ok D" and "registry_ok I D (stored document)"
  shows "registry_ok I D (stored document')"
  using assms
proof (cases rule: update_rule_cases)
  case (1 w off d current conditions candidate)
  let ?st = "stored document" and ?n = "length (of_rule (ru_rule_id u) (stored document))"
  show ?thesis
  proof (cases "rule_eq candidate current")
    case True
    with 1(9) assms(3) show ?thesis by simp
  next
    case False
    with 1(9) have "append_revision I D ?st current ?n d candidate (w - off) = Inr (out, document')" by simp
    then show ?thesis
    proof (cases rule: append_revision_Inr)
      case (1 v p)
      note cand = \<open>candidate = requested_rule u conditions current\<close>
        and conds = \<open>requested_conditions u current = Inr conditions\<close>
      have cur: "contract current = contract d" "r_rule_id current = ru_rule_id u"
        using latest_rule_sound(1,3) [OF assms(3,2) \<open>d \<in> set D\<close>]
        by (simp_all add: \<open>r_rule_id d = ru_rule_id u\<close> \<open>current = _\<close>)
      let ?st' = "sort_key revision_order (?st @ [v])"
      have rule: "rv_rule v = candidate\<lparr>r_rule_version := next_version (r_rule_version current) ?n\<rparr>"
        by (simp add: 1(1) revised_def)
      have cid: "r_rule_id candidate = ru_rule_id u" by (simp add: cand requested_rule_def cur(2))
      then have id: "rule_id_of v = ru_rule_id u" by (simp add: rule)
      have contract: "contract (rv_rule v) = contract d"
        using cur(1) requested_conditions_contract(1) [OF conds]
        by (simp add: rule cand requested_rule_def contract_def)
      have parsed: "parse_rule (rv_rule v) = Inr (rv_rule v)"
        using 1(2) requested_conditions_contract(2) [OF conds]
        by (simp add: parse_rule_def rule cand requested_rule_def)
      have "parse_registry I ?st' = Inr ?st'"
        using assms(3) 1(3,4) parsed by (auto simp: registry_ok_def parse_registry_Inr)
      moreover have "numbered ?st'"
        unfolding numbered_def
      proof
        fix x assume "x \<in> set ?st'"
        then consider "x \<in> set ?st" | "x = v" by auto
        then show "\<exists>base k. r_rule_version (rv_rule x) = base @ local_mark @ digits_of k \<and>
          1 \<le> k \<and> k \<le> length (of_rule (rule_id_of x) ?st')"
        proof cases
          case 1
          with assms(3) show ?thesis by (fastforce simp: registry_ok_def numbered_def)
        next
          case 2
          then show ?thesis
            by (intro exI [of _ "before_local (r_rule_version current)"] exI [of _ "?n + 1"])
               (simp add: cid rule next_version_def)
        qed
      qed
      moreover have "contract (rv_rule x) = contract d'"
        if "x \<in> set ?st'" "d' \<in> set D" "rule_id_of x = r_rule_id d'" for x d'
      proof (cases "x = v")
        case True
        with that id \<open>d \<in> set D\<close> \<open>r_rule_id d = _\<close> defaults_ok_ids [OF assms(2)] have "d' = d"
          by (metis eq_key_imp_eq_value distinct_map inj_onD)
        with contract True show ?thesis by simp
      next
        case False
        with that assms(3) show ?thesis by (auto simp: registry_ok_def)
      qed
      ultimately show ?thesis using 1(5) by (auto simp: registry_ok_def 1(8))
    qed
  qed
qed

text \<open>The documents that any sequence of updates leaves, starting without a file.\<close>

inductive registry_run ::
  "('x) registry_ids_scheme \<Rightarrow> screening_rule list \<Rightarrow> registry_state option \<Rightarrow> bool" for I D where
  missing: "registry_run I D None"
| updated: "registry_run I D document \<Longrightarrow> update_rule I D document u t = Inr (out, document') \<Longrightarrow>
    registry_run I D document'"

lemma registry_run_ok:
  assumes "registry_run I D document" and "defaults_ok D"
  shows "registry_ok I D (stored document)"
  using assms by (induction rule: registry_run.induct) (auto simp: registry_ok_empty intro: update_keeps_registry)

section \<open>Reading the registry\<close>

abbreviation rule_now :: "registry_state option \<Rightarrow> screening_rule \<Rightarrow> screening_rule" where
  "rule_now document d \<equiv> latest_rule d (of_rule (r_rule_id d) (stored document))"

lemma snapshot_Inr:
  assumes "registry_ok I D (stored document)" and "defaults_ok D"
  shows "registry_snapshot_of I D document = Inr
    \<lparr>rs_configurations = map (\<lambda>d. \<lparr>cfg_rule = rule_now document d, cfg_default_rule = d,
        cfg_fingerprint = rule_fingerprint I (rule_now document d),
        cfg_customized = (\<not> matches_default_configuration (rule_now document d) d),
        cfg_revision_count = length (of_rule (r_rule_id d) (stored document))\<rparr>) D,
     rs_total_revisions = length (stored document)\<rparr>"
proof -
  from assms(1) obtain p where p: "project I D (stored document) = Inr p" by (auto simp: registry_ok_def)
  obtain current counts where pp: "p = (current, counts)" by fastforce
  have step: "bind_r (dict_at current (r_rule_id d)) (\<lambda>rule. bind_r (dict_at counts (r_rule_id d))
      (configuration I rule d)) = Inr \<lparr>cfg_rule = rule_now document d, cfg_default_rule = d,
        cfg_fingerprint = rule_fingerprint I (rule_now document d),
        cfg_customized = (\<not> matches_default_configuration (rule_now document d) d),
        cfg_revision_count = length (of_rule (r_rule_id d) (stored document))\<rparr>" if "d \<in> set D" for d
  proof -
    have "dict_at current (r_rule_id d) = Inr (rule_now document d)"
      "dict_at counts (r_rule_id d) = Inr (length (of_rule (r_rule_id d) (stored document)))"
      using projected_rule(1,2) [OF assms(2) p that] by (simp_all add: dict_at_Inr pp del: last.simps)
    then show ?thesis
      by (simp only: bind_r_simps configuration_Inr [OF latest_rule_sound(3) [OF assms that]])
  qed
  have "traverse (\<lambda>d. bind_r (dict_at current (r_rule_id d)) (\<lambda>rule. bind_r (dict_at counts (r_rule_id d))
      (configuration I rule d))) D = Inr (map (\<lambda>d. \<lparr>cfg_rule = rule_now document d, cfg_default_rule = d,
        cfg_fingerprint = rule_fingerprint I (rule_now document d),
        cfg_customized = (\<not> matches_default_configuration (rule_now document d) d),
        cfg_revision_count = length (of_rule (r_rule_id d) (stored document))\<rparr>) D)"
    by (rule traverse_Inr_map) (rule step)
  then show ?thesis
    by (simp add: registry_snapshot_of_def registry_ok_load [OF assms(1)] p pp del: last.simps)
qed

lemma current_rules_Inr:
  "registry_ok I D (stored document) \<Longrightarrow> defaults_ok D \<Longrightarrow>
     current_rules I D document = Inr (map (rule_now document) D)"
  by (simp add: current_rules_def snapshot_Inr comp_def del: last.simps)

lemma get_rule_Inr:
  assumes "registry_ok I D (stored document)" and "defaults_ok D"
  shows "get_rule I D document rid = Inr r \<longleftrightarrow> (\<exists>d \<in> set D. r_rule_id d = rid \<and> r = rule_now document d)"
proof -
  let ?cfg = "\<lambda>d. \<lparr>cfg_rule = rule_now document d, cfg_default_rule = d,
      cfg_fingerprint = rule_fingerprint I (rule_now document d),
      cfg_customized = (\<not> matches_default_configuration (rule_now document d) d),
      cfg_revision_count = length (of_rule (r_rule_id d) (stored document))\<rparr>"
  have id: "r_rule_id (rule_now document d) = r_rule_id d" if "d \<in> set D" for d
    by (rule latest_rule_sound(3) [OF assms that])
  have "map_option cfg_rule (find (\<lambda>c. r_rule_id (cfg_rule c) = rid) (map ?cfg ds)) = Some r \<longleftrightarrow>
      (\<exists>d \<in> set ds. r_rule_id d = rid \<and> r = rule_now document d)"
    if "set ds \<subseteq> set D" "distinct (map r_rule_id ds)" for ds
    using that
  proof (induction ds)
    case (Cons d ds)
    have "r_rule_id d' \<noteq> r_rule_id d" if "d' \<in> set ds" for d'
      using Cons.prems(2) that by (auto simp: image_iff)
    with Cons id [of d] show ?case
      by (cases "r_rule_id d = rid") (auto simp del: last.simps)
  qed simp
  from this [OF subset_refl defaults_ok_ids [OF assms(2)]] show ?thesis
    by (auto simp: get_rule_def snapshot_Inr [OF assms] simp del: last.simps split: option.splits)
qed

section \<open>Appending the newest revision\<close>

lemma version_number_unique:
  assumes "a @ local_mark @ digits_of k = b @ local_mark @ digits_of m"
  shows "k = m"
proof -
  have tail: "takeWhile (\<lambda>c. c \<noteq> CHR ''.'') (rev (a @ local_mark @ digits_of k)) = rev (digits_of k)" for a k
  proof -
    have "c \<noteq> CHR ''.''" if "c \<in> set (rev (digits_of k))" for c
      using digits_are_digits [of k] that by (auto simp: list_all_iff less_eq_char_def)
    from takeWhile_append2 [of "rev (digits_of k)" "\<lambda>c. c \<noteq> CHR ''.''", OF this] show ?thesis
      by (simp add: local_mark_def)
  qed
  from arg_cong [OF assms, of "\<lambda>s. takeWhile (\<lambda>c. c \<noteq> CHR ''.'') (rev s)"] show ?thesis
    unfolding tail by simp
qed

lemma newest_last:
  assumes "validate_registry st = Inr st" and "\<forall>x \<in> set st. rv_recorded_at x < rv_recorded_at v"
  shows "sort_key revision_order (st @ [v]) = st @ [v]"
proof (rule sort_key_id_if_sorted)
  have "sorted (map revision_order st)"
    using assms(1) by (simp add: validate_registry_def split: if_splits)
  then show "sorted (map revision_order (st @ [v]))"
    using assms(2) by (auto simp: sorted_append revision_order_def less_eq_prod_def)
qed

lemma valid_with_newest:
  assumes "registry_ok I D st" and "\<forall>x \<in> set st. rv_recorded_at x < rv_recorded_at v"
    and "length st < MAX_RULE_REVISIONS" and "\<forall>x \<in> set st. rv_revision_id x \<noteq> rv_revision_id v"
    and "r_rule_version (rv_rule v) = next_version version (length (of_rule (rule_id_of v) st))"
  shows "validate_registry (st @ [v]) = Inr (st @ [v])"
proof -
  have st: "validate_registry st = Inr st" and num: "numbered st"
    using assms(1) by (simp_all add: registry_ok_def parse_registry_Inr)
  have "(r_rule_id (rv_rule x), r_rule_version (rv_rule x)) \<noteq> (rule_id_of v, r_rule_version (rv_rule v))"
    if "x \<in> set st" for x
  proof
    assume eq: "(r_rule_id (rv_rule x), r_rule_version (rv_rule x)) = (rule_id_of v, r_rule_version (rv_rule v))"
    from num that obtain base k where "r_rule_version (rv_rule x) = base @ local_mark @ digits_of k"
      "k \<le> length (of_rule (rule_id_of x) st)" by (auto simp: numbered_def)
    with eq assms(5) version_number_unique [of base k "before_local version" "length (of_rule (rule_id_of v) st) + 1"]
    show False by (simp add: next_version_def)
  qed
  moreover have "sorted (map revision_order (st @ [v]))"
    using newest_last [OF st assms(2)] by (metis sorted_sort_key)
  ultimately show ?thesis
    using st assms(3,4) unfolding validate_registry_def by (force split: if_splits)
qed

lemma project_with_newest:
  assumes "project I D st = Inr p" and "defaults_ok D" and "d \<in> set D" and "rule_id_of v = r_rule_id d"
    and "rv_previous_fingerprint v = rule_fingerprint I (latest_rule d (of_rule (r_rule_id d) st))"
  shows "\<exists>p'. project I D (st @ [v]) = Inr p'"
  using assms(1) projected_rule(1,2) [OF assms(2,1,3)] assms(4,5)
  unfolding project_def replay_append
  by (cases p) (simp add: Let_def del: last.simps)

lemma update_appends_newest:
  assumes "defaults_ok D" and "registry_ok I D (stored document)" and "validate_update u = Inr u"
    and "get_rule I D document (ru_rule_id u) = Inr current"
    and "ru_expected_fingerprint u = rule_fingerprint I current"
    and "map cu_condition_id (ru_conditions u) = map c_condition_id (r_conditions current)"
    and "requested_conditions u current = Inr conditions"
    and "\<not> rule_eq (requested_rule u conditions current) current"
    and "v = revised I current ((requested_rule u conditions current)\<lparr>r_rule_version :=
        next_version (r_rule_version current) (length (of_rule (ru_rule_id u) (stored document)))\<rparr>) (w - off)"
    and "\<forall>x \<in> set (stored document). rv_recorded_at x < w - off"
    and "length (stored document) < MAX_RULE_REVISIONS"
    and "\<forall>x \<in> set (stored document). rv_revision_id x \<noteq> rv_revision_id v"
  shows "\<exists>out. update_rule I D document u (Aware w off) = Inr (out, Some (stored document @ [v])) \<and> uo_changed out"
proof -
  let ?st = "stored document" and ?n = "length (of_rule (ru_rule_id u) (stored document))"
  let ?r = "requested_rule u conditions current"
  from assms(4) get_rule_Inr [OF assms(2,1)] obtain d where d: "d \<in> set D" "r_rule_id d = ru_rule_id u"
    and current: "current = rule_now document d" by blast
  from assms(2) obtain p where p: "project I D ?st = Inr p" by (auto simp: registry_ok_def)
  obtain current_by_id counts where pp: "p = (current_by_id, counts)" by fastforce
  have rid: "r_rule_id current = ru_rule_id u"
    using latest_rule_sound(3) [OF assms(2,1) d(1)] by (simp only: current d(2))
  have lookups: "dict_get current_by_id (ru_rule_id u) = Some current" "dict_at counts (ru_rule_id u) = Inr ?n"
    "dict_at (dict_by r_rule_id D) (ru_rule_id u) = Inr d"
    using projected_rule(1,2) [OF assms(1) p d(1)] initial_lookup(2) [OF assms(1) d(1)] current
    by (simp_all add: dict_at_Inr pp d(2) initial_projection_def del: last.simps)
  have "sorted_unique (map cu_condition_id (ru_conditions u))"
    using assms(3) by (simp add: validate_update_def Let_def split: if_splits)
  then have keys: "dict_keys (dict_by cu_condition_id (ru_conditions u)) = map c_condition_id (r_conditions current)"
    using assms(6) by (simp add: dict_by_distinct sorted_unique_iff dict_keys_def comp_def)
  have counts: "1 \<le> ru_confirmations_required u" "ru_confirmations_required u \<le> 20"
    "0 \<le> ru_cooldown_seconds u" "ru_cooldown_seconds u \<le> 31536000"
    using assms(3) by (auto simp: validate_update_def Let_def split: if_splits)
  have parsed: "validate_rule current = Inr current"
    using latest_rule_sound(2) [OF assms(2,1) d(1)] unfolding current
    by (auto simp: parse_rule_def bind_r_eq_Inr simp del: last.simps)
  have contracts: "map condition_contract conditions = map condition_contract (r_conditions current)"
    by (rule requested_conditions_contract(1) [OF assms(7)])
  from arg_cong [OF contracts, of "map c_condition_id"] arg_cong [OF contracts, of "map c_domain"]
  have same: "map c_condition_id conditions = map c_condition_id (r_conditions current)"
    "map c_domain conditions = map c_domain (r_conditions current)"
    by (simp_all add: comp_def condition_contract_def)
  have "list_all (\<lambda>c. c_domain c = x) cs \<longleftrightarrow> list_all (\<lambda>y. y = x) (map c_domain cs)" for cs x
    by (simp add: list.pred_map comp_def)
  from this [of "r_domain current" conditions] this [of "r_domain current" "r_conditions current"]
  have domains: "list_all (\<lambda>c. c_domain c = r_domain current) conditions \<longleftrightarrow>
      list_all (\<lambda>c. c_domain c = r_domain current) (r_conditions current)"
    by (simp only: same(2))
  have nonempty: "conditions = [] \<longleftrightarrow> r_conditions current = []"
    using arg_cong [OF same(1), of "\<lambda>xs. xs = []"] by simp
  have valid: "validate_rule (?r\<lparr>r_rule_version := x\<rparr>) = Inr (?r\<lparr>r_rule_version := x\<rparr>)" for x
    using parsed counts same(1) domains nonempty
    by (auto simp: validate_rule_def requested_rule_def Let_def split: if_splits)
  from valid [of "r_rule_version current"] have valid0: "validate_rule ?r = Inr ?r"
    by (simp add: requested_rule_def)
  have rule: "rv_rule v = ?r\<lparr>r_rule_version := next_version (r_rule_version current) ?n\<rparr>"
    and time: "rv_recorded_at v = w - off" and prev: "rv_previous_fingerprint v = rule_fingerprint I current"
    by (simp_all add: assms(9) revised_def)
  have id: "rule_id_of v = ru_rule_id u" by (simp add: rule requested_rule_def rid)
  have order: "sort_key revision_order (?st @ [v]) = ?st @ [v]"
    using assms(2,10) by (intro newest_last) (simp_all add: registry_ok_def parse_registry_Inr time)
  have st': "validate_registry (?st @ [v]) = Inr (?st @ [v])"
  proof (rule valid_with_newest [OF assms(2) _ assms(11,12)])
    show "r_rule_version (rv_rule v) =
        next_version (r_rule_version current) (length (of_rule (rule_id_of v) ?st))"
      unfolding id by (simp add: rule)
  qed (use assms(10) in \<open>simp add: time\<close>)
  obtain p' where p': "project I D (?st @ [v]) = Inr p'"
    using project_with_newest [OF p assms(1) d(1), of v] id prev current by (auto simp: d(2) simp del: last.simps)
  have rev: "validate_revision I v = Inr v"
    using has_local_mark [of "before_local (r_rule_version current)" "digits_of (?n + 1)"]
    by (simp add: validate_revision_def assms(9) revised_def next_version_def)
  let ?out = "\<lparr>uo_changed = True, uo_configuration =
      \<lparr>cfg_rule = rv_rule v, cfg_default_rule = d, cfg_fingerprint = rule_fingerprint I (rv_rule v),
       cfg_customized = (\<not> matches_default_configuration (rv_rule v) d), cfg_revision_count = ?n + 1\<rparr>,
      uo_revision_id = Some (rv_revision_id v)\<rparr>"
  have "append_revision I D ?st current ?n d ?r (w - off) = Inr (?out, Some (?st @ [v]))"
    unfolding append_revision_def valid bind_r_simps revised_def [symmetric] assms(9) [symmetric]
    using configuration_Inr [of "rv_rule v" d I "?n + 1"] id d(2)
    by (simp add: rev order st' p' rule [symmetric] validate_update_outcome_def)
  then have "update_rule I D document u (Aware w off) = Inr (?out, Some (?st @ [v]))"
    using assms(5,7,8)
    by (simp add: update_rule_def registry_ok_load [OF assms(2)] p pp lookups keys Let_def
        requested_conditions_def [symmetric] valid0 rid)
  moreover have "uo_changed ?out" by simp
  ultimately show ?thesis by blast
qed

section \<open>Properties\<close>

text \<open>
  Property C24. However the rules are updated, and whatever the requests contain, the registry
  always loads again; its current rules are the packaged ones in their order, each valid and
  different from its default at most in state, confirmations, cooldown, thresholds and version.
\<close>
theorem updates_keep_rule_contracts:
  assumes "defaults_ok D" and "registry_run I D document"
  shows "\<exists>rules. current_rules I D document = Inr rules \<and>
    list_all2 (\<lambda>r d. contract r = contract d \<and> parse_rule r = Inr r) rules D"
proof -
  have ok: "registry_ok I D (stored document)" by (rule registry_run_ok [OF assms(2,1)])
  have "list_all2 (\<lambda>r d. contract r = contract d \<and> parse_rule r = Inr r) (map (rule_now document) ds) ds"
    if "set ds \<subseteq> set D" for ds
    using that latest_rule_sound(1,2) [OF ok assms(1)]
    by (induction ds) (simp_all del: last.simps)
  then show ?thesis
    using current_rules_Inr [OF ok assms(1)] by blast
qed

definition sample_registry_ids :: registry_ids where
  "sample_registry_ids =
     \<lparr>sha_rule = (\<lambda>r. r_rule_id r @ r_rule_version r), sha_result = (\<lambda>s. []), uuid_result = (\<lambda>p. 0),
      uuid_revision = (\<lambda>fp previous t. word_of_int t)\<rparr>"

abbreviation rsi_default :: screening_rule where
  "rsi_default \<equiv> RSI_LOW_REVIEW_RULE"

definition rsi_request :: "decimal \<Rightarrow> string \<Rightarrow> rule_update" where
  "rsi_request threshold fingerprint =
     \<lparr>ru_rule_id = ''market.technical.rsi-low-review'', ru_expected_fingerprint = fingerprint,
      ru_state = ACTIVE, ru_confirmations_required = 3, ru_cooldown_seconds = 3600,
      ru_conditions = [\<lparr>cu_condition_id = ''rsi_lte_30'', cu_threshold = threshold,
        cu_exit_threshold = Some (Decimal False 40 0)\<rparr>]\<rparr>"

lemma rsi_defaults_ok: "defaults_ok [rsi_default]"
  by (simp add: defaults_ok_def new_registry_def packaged_rule_parses)

lemma rsi_id [simp]: "r_rule_id rsi_default = ''market.technical.rsi-low-review''"
  "r_rule_version rsi_default = ''1.0''"
  by (simp_all add: RSI_LOW_REVIEW_RULE_def)

definition rsi_conditions :: "decimal \<Rightarrow> screening_condition list" where
  "rsi_conditions threshold = map (\<lambda>c. c\<lparr>c_threshold := threshold, c_exit_threshold := Some (Decimal False 40 0)\<rparr>)
     (r_conditions rsi_default)"

definition rsi_revision :: rule_revision where
  "rsi_revision = revised sample_registry_ids rsi_default
     ((requested_rule (rsi_request (Decimal False 25 0) ''f'') (rsi_conditions (Decimal False 25 0)) rsi_default)
        \<lparr>r_rule_version := ''1.0.local.1''\<rparr>) 100"

lemma rsi_first_update:
  "\<exists>out. update_rule sample_registry_ids [rsi_default] None
     (rsi_request (Decimal False 25 0) (rule_fingerprint sample_registry_ids rsi_default)) (Aware 100 0) =
       Inr (out, Some [rsi_revision]) \<and> uo_changed out"
proof -
  let ?u = "rsi_request (Decimal False 25 0) (rule_fingerprint sample_registry_ids rsi_default)"
  have version: "next_version ''1.0'' 0 = ''1.0.local.1''"
    by code_simp
  have "\<exists>out. update_rule sample_registry_ids [rsi_default] None ?u (Aware 100 0) =
      Inr (out, Some (stored None @ [rsi_revision])) \<and> uo_changed out"
  proof (rule update_appends_newest [where current = rsi_default and conditions = "rsi_conditions (Decimal False 25 0)"])
    show "registry_ok sample_registry_ids [rsi_default] (stored None)" by (simp add: registry_ok_empty)
    show "validate_update ?u = Inr ?u" by (simp add: validate_update_def rsi_request_def sorted_unique_iff)
    show "get_rule sample_registry_ids [rsi_default] None (ru_rule_id ?u) = Inr rsi_default"
      by (subst get_rule_Inr) (simp_all add: registry_ok_empty rsi_defaults_ok rsi_request_def)
    show "map cu_condition_id (ru_conditions ?u) = map c_condition_id (r_conditions rsi_default)"
      by (simp add: rsi_request_def RSI_LOW_REVIEW_RULE_def)
    show "requested_conditions ?u rsi_default = Inr (rsi_conditions (Decimal False 25 0))"
      by (simp add: requested_conditions_def rsi_request_def rsi_conditions_def RSI_LOW_REVIEW_RULE_def
          updated_condition_def dict_at_def dict_get_def dict_by_def evaluate_rule)
    show "\<not> rule_eq (requested_rule ?u (rsi_conditions (Decimal False 25 0)) rsi_default) rsi_default"
      by (simp add: rule_eq_def requested_rule_def rsi_request_def RSI_LOW_REVIEW_RULE_def)
    show "rsi_revision = revised sample_registry_ids rsi_default
        ((requested_rule ?u (rsi_conditions (Decimal False 25 0)) rsi_default)\<lparr>r_rule_version :=
          next_version (r_rule_version rsi_default) (length (of_rule (ru_rule_id ?u) (stored None)))\<rparr>) (100 - 0)"
      by (simp add: rsi_revision_def requested_rule_def rsi_request_def version)
  qed (simp_all add: rsi_defaults_ok rsi_request_def MAX_RULE_REVISIONS_def)
  then show ?thesis by simp
qed

lemma rsi_run: "registry_run sample_registry_ids [rsi_default] (Some [rsi_revision])"
  using rsi_first_update registry_run.updated [OF registry_run.missing] by blast

theorem updates_keep_rule_contracts_witness:
  "\<exists>rules. current_rules sample_registry_ids [rsi_default] (Some [rsi_revision]) = Inr rules \<and>
    list_all2 (\<lambda>r d. contract r = contract d \<and> parse_rule r = Inr r) rules [rsi_default]"
  by (rule updates_keep_rule_contracts [OF rsi_defaults_ok rsi_run])

lemma rule_now_appended:
  assumes "registry_ok I D (stored document)" and "rule_id_of v = rid"
  shows "rule_now (Some (stored document @ [v])) d = (if r_rule_id d = rid then rv_rule v else rule_now document d)"
  using assms(2) by auto

text \<open>
  Property C25. An update takes effect: a valid request made against the current fingerprint, whose
  settings pass the validators and differ from the current ones, recorded later than every
  revision, returns; from then on the registry answers with exactly the requested rule under the
  next local version, and every other rule is as before.
\<close>
theorem update_takes_effect:
  assumes "defaults_ok D" and "registry_run I D document" and "validate_update u = Inr u"
    and "get_rule I D document (ru_rule_id u) = Inr current"
    and "ru_expected_fingerprint u = rule_fingerprint I current"
    and "map cu_condition_id (ru_conditions u) = map c_condition_id (r_conditions current)"
    and "requested_conditions u current = Inr conditions"
    and "\<not> rule_eq (requested_rule u conditions current) current"
    and "requested = (requested_rule u conditions current)\<lparr>r_rule_version :=
        next_version (r_rule_version current) (length (of_rule (ru_rule_id u) (stored document)))\<rparr>"
    and "\<forall>x \<in> set (stored document). rv_recorded_at x < w - off"
    and "length (stored document) < MAX_RULE_REVISIONS"
    and "\<forall>x \<in> set (stored document). rv_revision_id x \<noteq>
        analytical_rule_revision_id I requested (rule_fingerprint I current) (w - off)"
  shows "\<exists>out document'. update_rule I D document u (Aware w off) = Inr (out, document') \<and> uo_changed out \<and>
    get_rule I D document' (ru_rule_id u) = Inr requested \<and>
    (\<forall>rid r. rid \<noteq> ru_rule_id u \<longrightarrow>
       (get_rule I D document' rid = Inr r) = (get_rule I D document rid = Inr r))"
proof -
  let ?v = "revised I current requested (w - off)"
  let ?document' = "Some (stored document @ [?v])"
  have ok: "registry_ok I D (stored document)" by (rule registry_run_ok [OF assms(2,1)])
  obtain out where out: "update_rule I D document u (Aware w off) = Inr (out, ?document')" "uo_changed out"
    using update_appends_newest [OF assms(1) ok assms(3-8) _ assms(10,11), of ?v] assms(12)
    by (auto simp: assms(9) revised_def)
  have ok': "registry_ok I D (stored ?document')" by (rule update_keeps_registry [OF out(1) assms(1) ok])
  from assms(4) get_rule_Inr [OF ok assms(1)] obtain d where d: "d \<in> set D" "r_rule_id d = ru_rule_id u"
    "current = rule_now document d" by blast
  have "rule_id_of ?v = ru_rule_id u"
    using latest_rule_sound(3) [OF ok assms(1) d(1)]
    by (simp add: revised_def assms(9) requested_rule_def d(2,3) del: last.simps)
  note now = rule_now_appended [OF ok this]
  have "get_rule I D ?document' (ru_rule_id u) = Inr requested"
    unfolding get_rule_Inr [OF ok' assms(1)] now using d(1,2) by (auto simp: revised_def)
  moreover have "(get_rule I D ?document' rid = Inr r) = (get_rule I D document rid = Inr r)"
    if "rid \<noteq> ru_rule_id u" for rid r
    unfolding get_rule_Inr [OF ok' assms(1)] get_rule_Inr [OF ok assms(1)] now using that by auto
  ultimately show ?thesis using out by blast
qed

theorem update_takes_effect_witness:
  "\<exists>out document'. update_rule sample_registry_ids [rsi_default] None
      (rsi_request (Decimal False 25 0) (rule_fingerprint sample_registry_ids rsi_default)) (Aware 100 0) =
      Inr (out, document') \<and> uo_changed out \<and>
    get_rule sample_registry_ids [rsi_default] document' ''market.technical.rsi-low-review'' =
      Inr ((requested_rule (rsi_request (Decimal False 25 0) (rule_fingerprint sample_registry_ids rsi_default))
        (rsi_conditions (Decimal False 25 0)) rsi_default)\<lparr>r_rule_version := next_version ''1.0'' 0\<rparr>)"
proof -
  let ?u = "rsi_request (Decimal False 25 0) (rule_fingerprint sample_registry_ids rsi_default)"
  have "get_rule sample_registry_ids [rsi_default] None (ru_rule_id ?u) = Inr rsi_default"
    by (subst get_rule_Inr) (simp_all add: registry_ok_empty rsi_defaults_ok rsi_request_def)
  note effect = update_takes_effect [OF rsi_defaults_ok registry_run.missing _ this,
      where conditions = "rsi_conditions (Decimal False 25 0)" and w = 100 and off = 0]
  have "requested_conditions ?u rsi_default = Inr (rsi_conditions (Decimal False 25 0))"
    "map cu_condition_id (ru_conditions ?u) = map c_condition_id (r_conditions rsi_default)"
    "\<not> rule_eq (requested_rule ?u (rsi_conditions (Decimal False 25 0)) rsi_default) rsi_default"
    "validate_update ?u = Inr ?u"
    by (simp_all add: requested_conditions_def rsi_request_def rsi_conditions_def RSI_LOW_REVIEW_RULE_def
        updated_condition_def dict_at_def dict_get_def dict_by_def evaluate_rule rule_eq_def
        requested_rule_def validate_update_def)
  from effect [OF this(4) _ this(2,1,3) refl] show ?thesis
    by (auto simp: rsi_request_def MAX_RULE_REVISIONS_def)
qed

text \<open>
  Optimistic locking: of two updates prepared against the same fingerprint, once the
  first has changed the rule, the second is refused with a conflict and changes nothing (if the
  changed rule does not hash to the same fingerprint).
\<close>
lemma stale_update_conflicts:
  assumes "defaults_ok D" and "registry_run I D document"
    and "update_rule I D document u (Aware w off) = Inr (out, document')" and "uo_changed out"
    and "\<forall>x \<in> set (stored document). rv_recorded_at x < w - off"
    and "rule_fingerprint I (cfg_rule (uo_configuration out)) \<noteq> ru_expected_fingerprint u"
    and "ru_rule_id u' = ru_rule_id u" and "ru_expected_fingerprint u' = ru_expected_fingerprint u"
  shows "update_rule I D document' u' (Aware w' off') =
    Inl (RegistryConflictError ''analytical rule changed since it was loaded'')"
proof -
  have ok: "registry_ok I D (stored document)" by (rule registry_run_ok [OF assms(2,1)])
  have ok': "registry_ok I D (stored document')" by (rule update_keeps_registry [OF assms(3,1) ok])
  from assms(3,1) ok show ?thesis
  proof (cases rule: update_rule_cases)
    case (1 w0 off0 d current conditions candidate)
    then have "append_revision I D (stored document) current (length (of_rule (ru_rule_id u) (stored document)))
        d candidate (w - off) = Inr (out, document')" using assms(4) by auto
    then show ?thesis
    proof (cases rule: append_revision_Inr)
      case inner: (1 v p)
      have "\<forall>x \<in> set (stored document). rv_recorded_at x < rv_recorded_at v"
        using assms(5) by (simp add: inner(1) revised_def)
      with ok have document': "document' = Some (stored document @ [v])"
        using newest_last inner(8) by (auto simp: registry_ok_def parse_registry_Inr)
      have "r_rule_id current = ru_rule_id u"
        using latest_rule_sound(3) [OF ok assms(1) 1(2)] by (simp add: 1(3,4) del: last.simps)
      then have id: "rule_id_of v = ru_rule_id u"
        by (simp add: inner(1) revised_def 1(7) requested_rule_def)
      obtain q where q: "project I D (stored document') = Inr q" using ok' by (auto simp: registry_ok_def)
      have "dict_get (fst q) (ru_rule_id u') = Some (rv_rule v)"
        using projected_rule(1) [OF assms(1) q 1(2)] by (simp add: 1(3) assms(7) document' id)
      then show ?thesis
        using assms(6,8) inner(7)
        by (cases q) (simp add: update_rule_def registry_ok_load [OF ok'] q)
    qed
  qed
qed

definition rsi_second_request :: rule_update where
  "rsi_second_request = rsi_request (Decimal False 20 0) (rule_fingerprint sample_registry_ids rsi_default)"

lemma stale_update_conflicts_witness:
  "update_rule sample_registry_ids [rsi_default] (Some [rsi_revision]) rsi_second_request (Aware 200 0) =
    Inl (RegistryConflictError ''analytical rule changed since it was loaded'')"
proof -
  obtain out where first: "update_rule sample_registry_ids [rsi_default] None
     (rsi_request (Decimal False 25 0) (rule_fingerprint sample_registry_ids rsi_default)) (Aware 100 0) =
       Inr (out, Some [rsi_revision])" "uo_changed out"
    using rsi_first_update by blast
  have empty: "registry_ok sample_registry_ids [rsi_default] (stored None)" by (simp add: registry_ok_empty)
  have "rule_fingerprint sample_registry_ids (cfg_rule (uo_configuration out)) = ''market.technical.rsi-low-review1.0.local.1''"
    using first(1) rsi_defaults_ok empty
  proof (cases rule: update_rule_cases)
    case (1 w off d current conditions candidate)
    then have "append_revision sample_registry_ids [rsi_default] [] current 0 d candidate (w - off) =
        Inr (out, Some [rsi_revision])"
      using first(2) by simp
    then show ?thesis
    proof (cases rule: append_revision_Inr)
      case inner: (1 v p)
      then have "rv_rule v = rv_rule rsi_revision" by simp
      with inner(7) show ?thesis
        by (simp add: rule_fingerprint_def sample_registry_ids_def rsi_revision_def revised_def requested_rule_def)
    qed
  qed
  then show ?thesis
    using stale_update_conflicts [OF rsi_defaults_ok registry_run.missing first, of rsi_second_request 200 0]
    by (simp add: rsi_request_def rsi_second_request_def rule_fingerprint_def sample_registry_ids_def)
qed

section \<open>A clock that has gone back\<close>

lemma chained_split:
  "chained I d (as @ v # bs) \<Longrightarrow> rv_previous_fingerprint v = rule_fingerprint I (latest_rule d as)"
  by (simp add: chained_append del: last.simps)

lemma early_revision_breaks_chain:
  assumes "chained I d (sort_key revision_order (xs @ [v]))" and "sorted (map revision_order xs)"
    and "x \<in> set xs" and "rv_recorded_at v < rv_recorded_at x" and "v \<notin> set xs"
    and "rv_previous_fingerprint v = rule_fingerprint I (latest_rule d xs)"
    and "distinct (map (rule_fingerprint I) (d # map rv_rule xs))"
  shows False
proof -
  let ?ys = "sort_key revision_order (xs @ [v])"
  obtain ys z where xs: "xs = ys @ [z]" using assms(3) by (cases xs rule: rev_cases) auto
  have "revision_order x \<le> revision_order z"
    using assms(2,3) by (auto simp: xs sorted_append)
  moreover have "revision_order v < revision_order x"
    using assms(4) by (simp add: revision_order_def)
  ultimately have late: "revision_order v < revision_order z" by simp
  obtain as bs where split: "?ys = as @ v # bs" "v \<notin> set as"
    using split_list_first [of v ?ys] by auto
  have "sorted (map revision_order (as @ v # bs))"
    unfolding split(1) [symmetric] by simp
  then have early: "revision_order a \<le> revision_order v" if "a \<in> set as" for a
    using that by (auto simp: sorted_append)
  have "set as \<subseteq> set ?ys" unfolding split(1) by auto
  then have sub: "set as \<subseteq> set xs" using split(2) by auto
  have zas: "z \<notin> set as" using early late by force
  have "rule_fingerprint I (latest_rule d as) = rule_fingerprint I (latest_rule d xs)"
    using chained_split [of I d as v bs] assms(1,6) split(1) by simp
  then have eq: "rule_fingerprint I (latest_rule d as) = rule_fingerprint I (rv_rule z)" by (simp add: xs)
  from latest_rule_cases [of d as] show False
  proof
    assume "latest_rule d as = d \<and> as = []"
    with eq assms(7) show False by (simp add: xs)
  next
    assume "\<exists>a \<in> set as. latest_rule d as = rv_rule a"
    then obtain a where a: "a \<in> set as" "latest_rule d as = rv_rule a" by blast
    then have "a \<in> set ys" using sub zas by (auto simp: xs)
    then have "rule_fingerprint I (rv_rule a) \<noteq> rule_fingerprint I (rv_rule z)"
      using assms(7) by (auto simp: xs image_iff)
    with eq a(2) show False by simp
  qed
qed

text \<open>
  A clock that has gone back locks a rule: while the time of an update is before one
  of the rule's recorded revisions, no request can change the rule; a request that differs from
  the current settings fails with an error (the revision would be sorted before its predecessor
  and break the chain of fingerprints).
\<close>
lemma clock_regression_blocks_updates:
  assumes "defaults_ok D" and "registry_run I D document" and "d \<in> set D" and "r_rule_id d = ru_rule_id u"
    and "x \<in> set (stored document)" and "rule_id_of x = ru_rule_id u" and "w - off < rv_recorded_at x"
    and "distinct (map (rule_fingerprint I) (d # map rv_rule (of_rule (ru_rule_id u) (stored document))))"
    and "update_rule I D document u (Aware w off) = Inr (out, document')"
  shows "\<not> uo_changed out \<and> document' = document"
proof -
  let ?st = "stored document"
  have ok: "registry_ok I D ?st" by (rule registry_run_ok [OF assms(2,1)])
  from assms(9,1) ok show ?thesis
  proof (cases rule: update_rule_cases)
    case (1 w0 off0 d0 current conditions candidate)
    have "d0 = d"
      using 1(2,3) assms(3,4) defaults_ok_ids [OF assms(1)] by (metis distinct_map inj_onD)
    note current = 1(4) [unfolded this]
    show ?thesis
    proof (cases "rule_eq candidate current")
      case True
      with 1(9) show ?thesis by simp
    next
      case False
      with 1 have "append_revision I D ?st current (length (of_rule (ru_rule_id u) ?st)) d0 candidate (w - off) =
          Inr (out, document')" by auto
      then show ?thesis
      proof (cases rule: append_revision_Inr)
        case inner: (1 v p)
        have "r_rule_id current = ru_rule_id u"
          using latest_rule_sound(3) [OF ok assms(1,3)] by (simp add: current assms(4) del: last.simps)
        then have id: "rule_id_of v = ru_rule_id u"
          by (simp add: inner(1) revised_def 1(7) requested_rule_def)
        have "distinct (map rv_revision_id (sort_key revision_order (?st @ [v])))"
          using inner(4) by (simp add: validate_registry_def split: if_splits)
        then have "v \<notin> set ?st" by auto
        moreover have "chained I d (sort_key revision_order (of_rule (ru_rule_id u) ?st @ [v]))"
          using projected_rule(3) [OF assms(1) inner(5) assms(3)] by (simp add: assms(4) id)
        moreover have "sorted (map revision_order ?st)"
          using ok by (simp add: registry_ok_def parse_registry_Inr validate_registry_def split: if_splits)
        then have "sorted (map revision_order (of_rule (ru_rule_id u) ?st))"
          unfolding of_rule_def by (rule sorted_filter)
        moreover have "x \<in> set (of_rule (ru_rule_id u) ?st)" using assms(5,6) by (simp add: of_rule_def)
        moreover have "rv_recorded_at v < rv_recorded_at x"
          "rv_previous_fingerprint v = rule_fingerprint I (latest_rule d (of_rule (ru_rule_id u) ?st))"
          using assms(7) current by (simp_all add: inner(1) revised_def)
        ultimately have False
          using early_revision_breaks_chain [of I d "of_rule (ru_rule_id u) ?st" v x] assms(8)
          by (auto simp: of_rule_def)
        then show ?thesis ..
      qed
    qed
  qed
qed

lemma clock_regression_blocks_updates_witness:
  "\<exists>e. update_rule sample_registry_ids [rsi_default] (Some [rsi_revision])
     (rsi_request (Decimal False 20 0) (rule_fingerprint sample_registry_ids (rv_rule rsi_revision)))
     (Aware 50 0) = Inl e"
proof -
  let ?u = "rsi_request (Decimal False 20 0) (rule_fingerprint sample_registry_ids (rv_rule rsi_revision))"
  have ids: "rule_id_of rsi_revision = ''market.technical.rsi-low-review''"
    by (simp add: rsi_revision_def revised_def requested_rule_def)
  have ok: "registry_ok sample_registry_ids [rsi_default] (stored (Some [rsi_revision]))"
    by (rule registry_run_ok [OF rsi_run rsi_defaults_ok])
  have unchanged: "\<not> uo_changed out \<and> document' = Some [rsi_revision]"
    if "update_rule sample_registry_ids [rsi_default] (Some [rsi_revision]) ?u (Aware 50 0) = Inr (out, document')"
    for out document'
    by (rule clock_regression_blocks_updates [OF rsi_defaults_ok rsi_run _ _ _ _ _ _ that, of rsi_default rsi_revision])
       (simp_all add: ids, simp_all add: rsi_request_def rsi_revision_def revised_def rule_fingerprint_def
          sample_registry_ids_def requested_rule_def)
  have "False" if upd: "update_rule sample_registry_ids [rsi_default] (Some [rsi_revision]) ?u (Aware 50 0) = Inr (out, document')"
    for out document'
    using upd rsi_defaults_ok ok
  proof (cases rule: update_rule_cases)
    case (1 w off d current conditions candidate)
    have "current = rv_rule rsi_revision"
      using 1(3,4) ids by (simp add: rsi_request_def)
    moreover have "list_all2 (\<lambda>c c'. updated_condition (dict_by cu_condition_id (ru_conditions ?u)) c = Inr c')
        (r_conditions current) conditions"
      using 1(6) by (simp add: requested_conditions_def traverse_Inr_iff)
    ultimately have "list_all2 condition_eq conditions (r_conditions current) \<Longrightarrow> False"
      by (simp add: rsi_revision_def revised_def requested_rule_def rsi_conditions_def RSI_LOW_REVIEW_RULE_def
          list_all2_Cons1 list_all2_Cons2 rsi_request_def updated_condition_def dict_at_def dict_get_def
          dict_by_def bind_r_eq_Inr)
         (auto dest!: validate_simps(2) simp: condition_eq_def dec_eq_def)
    moreover have "rule_eq candidate current"
      using 1(9) unchanged [OF upd] by (auto elim: append_revision_Inr)
    ultimately show False by (simp add: rule_eq_def 1(7) requested_rule_def)
  qed
  then show ?thesis
    by (cases "update_rule sample_registry_ids [rsi_default] (Some [rsi_revision]) ?u (Aware 50 0)") auto
qed

end
