(* ===== verification/DocumentTable.thy ===== *)
theory DocumentTable
  imports Contracts
begin

text \<open>
  The append-only document tables of the DuckDB store (the helpers of
  \<^verbatim>\<open>storage/repositories.py\<close>), for any kind of row: \<open>key\<close> reads the identity of a
  row, \<open>avail\<close> its availability and \<open>doc\<close> is its canonical JSON text. A table is a dictionary from
  identities to rows; a stored row is the document it was stored with, which parses back to it.
  Ordering and comparisons by the text of a UUID are those of its value. A batch is one
  transaction: it is stored completely or not at all. The interface \<open>paged_source\<close> states what
  the readers of bounded pages rely on.
\<close>

section \<open>Operations\<close>

type_synonym 'r doc_table = "(uuid, 'r) dict"

record batch_write_receipt =
  bw_created :: "uuid list"
  bw_reused :: "uuid list"
  bw_conflicting :: "uuid list"

definition conflict :: py_error where
  "conflict = RecordConflictError ''identifier already has different content''"

definition ensure_append_only :: "('r \<Rightarrow> string) \<Rightarrow> 'r doc_table \<Rightarrow> uuid \<Rightarrow> string \<Rightarrow> bool result" where
  "ensure_append_only doc table identifier document =
     (case dict_get table identifier of
        None \<Rightarrow> Inr True
      | Some row \<Rightarrow> if doc row = document then Inr False else Inl conflict)"

definition get_document :: "'r doc_table \<Rightarrow> uuid \<Rightarrow> 'r result" where
  "get_document table identifier =
     (case dict_get table identifier of
        None \<Rightarrow> Inl (RecordNotFoundError ''record was not found'')
      | Some row \<Rightarrow> Inr row)"

definition get_many_documents :: "'r doc_table \<Rightarrow> uuid list \<Rightarrow> (uuid, 'r) dict result" where
  "get_many_documents table identifiers =
     (let ordered_ids = sort (remdups identifiers) in
      bind_r (traverse (get_document table) ordered_ids) (\<lambda>rows. Inr (zip ordered_ids rows)))"

definition GET_EXISTING_CHUNK_SIZE :: nat where "GET_EXISTING_CHUNK_SIZE = 1000"

text \<open>\<^verbatim>\<open>for i in range(0, len(xs), n)\<close>: the slices of length \<open>n\<close>; the size is positive.\<close>

function chunks :: "nat \<Rightarrow> 'a list \<Rightarrow> 'a list list" where
  "chunks n xs = (if n = 0 \<or> xs = [] then [] else take n xs # chunks n (drop n xs))"
  by pat_completeness auto
termination by (relation "measure (\<lambda>(n, xs). length xs)") (auto simp: min_def)

declare chunks.simps [simp del]

text \<open>The rows of one \<^verbatim>\<open>WHERE key IN (...)\<close> query, in the order of the table.\<close>

definition rows_in :: "'r doc_table \<Rightarrow> uuid list \<Rightarrow> (uuid \<times> 'r) list" where
  "rows_in table ids = filter (\<lambda>(k, row). k \<in> set ids) table"

definition get_existing_documents :: "nat \<Rightarrow> 'r doc_table \<Rightarrow> uuid list \<Rightarrow> (uuid, 'r) dict" where
  "get_existing_documents chunk_size table identifiers =
     fold (\<lambda>chunk found. fold (\<lambda>row d. dict_set d (fst row) (snd row)) (rows_in table chunk) found)
       (chunks chunk_size (sort (remdups identifiers))) []"

section \<open>Saving a batch\<close>

fun check_batch ::
  "('r \<Rightarrow> uuid) \<Rightarrow> ('r \<Rightarrow> string) \<Rightarrow> 'r list \<Rightarrow> (uuid, string) dict \<Rightarrow> (uuid, string) dict result" where
  "check_batch key doc [] seen = Inr seen"
| "check_batch key doc (m # ms) seen =
     (case dict_get seen (key m) of
        Some text \<Rightarrow> if text \<noteq> doc m then Inl conflict else check_batch key doc ms seen
      | None \<Rightarrow> check_batch key doc ms (dict_set seen (key m) (doc m)))"

fun sort_batch ::
  "('r \<Rightarrow> uuid) \<Rightarrow> ('r \<Rightarrow> string) \<Rightarrow> (uuid, 'r) dict \<Rightarrow> 'r list \<Rightarrow> uuid list \<Rightarrow>
     batch_write_receipt \<times> 'r list \<Rightarrow> (batch_write_receipt \<times> 'r list) result" where
  "sort_batch key doc existing [] seen_keys acc = Inr acc"
| "sort_batch key doc existing (m # ms) seen_keys (receipt, items) =
     (let k = key m in
      case dict_get existing k of
        Some row \<Rightarrow>
          (if doc row \<noteq> doc m then Inl conflict
           else if k \<notin> set seen_keys
             then sort_batch key doc existing ms (k # seen_keys)
                    (receipt\<lparr>bw_reused := bw_reused receipt @ [k]\<rparr>, items)
           else sort_batch key doc existing ms seen_keys (receipt, items))
      | None \<Rightarrow>
          (if k \<notin> set seen_keys
             then sort_batch key doc existing ms (k # seen_keys)
                    (receipt\<lparr>bw_created := bw_created receipt @ [k]\<rparr>, items @ [m])
           else sort_batch key doc existing ms seen_keys
                    (receipt\<lparr>bw_reused := bw_reused receipt @ [k]\<rparr>, items)))"

definition MAX_BOUNDED_INSERT_ROWS :: nat where "MAX_BOUNDED_INSERT_ROWS = 256"

definition insert_bounded :: "('r \<Rightarrow> uuid) \<Rightarrow> 'r doc_table \<Rightarrow> 'r list \<Rightarrow> 'r doc_table" where
  \<comment> \<open>one \<^verbatim>\<open>INSERT\<close> per slice\<close>
  "insert_bounded key table items =
     fold (\<lambda>chunk table. fold (\<lambda>m t. dict_set t (key m) m) chunk table)
       (chunks MAX_BOUNDED_INSERT_ROWS items) table"

definition empty_receipt :: batch_write_receipt where
  "empty_receipt = \<lparr>bw_created = [], bw_reused = [], bw_conflicting = []\<rparr>"

text \<open>
  The body of every \<^verbatim>\<open>save_many\<close>; \<open>lookup\<close> is how it reads the rows that exist already.
\<close>

definition save_batch ::
  "('r \<Rightarrow> uuid) \<Rightarrow> ('r \<Rightarrow> string) \<Rightarrow> ('r doc_table \<Rightarrow> uuid list \<Rightarrow> (uuid, 'r) dict) \<Rightarrow> 'r doc_table \<Rightarrow> 'r list \<Rightarrow>
     (batch_write_receipt \<times> 'r doc_table) result" where
  "save_batch key doc lookup table results =
     (if results = [] then Inr (empty_receipt, table)
      else
        bind_r (check_batch key doc results []) (\<lambda>seen_in_batch.
        bind_r (sort_batch key doc (lookup table (sort (dict_keys seen_in_batch))) results [] (empty_receipt, []))
          (\<lambda>(receipt, items).
             Inr (receipt, if items = [] then table else insert_bounded key table items))))"

section \<open>Queries\<close>

definition holds_for :: "('a \<Rightarrow> bool) \<Rightarrow> 'a option \<Rightarrow> bool" where
  \<comment> \<open>a clause that is only added when its argument is given\<close>
  "holds_for p x = (case x of None \<Rightarrow> True | Some v \<Rightarrow> p v)"

definition by_availability :: "('r \<Rightarrow> utc) \<Rightarrow> ('r \<Rightarrow> uuid) \<Rightarrow> 'r \<Rightarrow> utc \<times> uuid" where
  "by_availability avail key m = (avail m, key m)"

text \<open>
  One page after a cursor: \<^verbatim>\<open>WHERE at > ? OR (at = ? AND key > ?) ORDER BY at, key LIMIT ?\<close>.
\<close>

definition after_cursor :: "('r \<Rightarrow> utc) \<Rightarrow> ('r \<Rightarrow> uuid) \<Rightarrow> (utc \<times> uuid) option \<Rightarrow> 'r \<Rightarrow> bool" where
  "after_cursor avail key cursor m =
     (case cursor of None \<Rightarrow> True | Some (t, i) \<Rightarrow> t < avail m \<or> avail m = t \<and> i < key m)"

definition keyset_page ::
  "('r \<Rightarrow> utc) \<Rightarrow> ('r \<Rightarrow> uuid) \<Rightarrow> 'r doc_table \<Rightarrow> int \<Rightarrow> (utc \<times> uuid) option \<Rightarrow> uuid list" where
  "keyset_page avail key table limit cursor =
     map key (take (nat limit) (sort_key (by_availability avail key)
       (filter (after_cursor avail key cursor) (dict_values table))))"

definition ANALYTICAL_IMPORT_PAGE_LIMIT :: int where "ANALYTICAL_IMPORT_PAGE_LIMIT = 256"

fun validate_import_page :: "int \<Rightarrow> py_datetime option \<Rightarrow> uuid option \<Rightarrow> unit result" where
  "validate_import_page limit cursor_at cursor_id =
     (if \<not> (1 \<le> limit \<and> limit \<le> ANALYTICAL_IMPORT_PAGE_LIMIT)
        then Inl (ValueError ''analytical import page limit must be an integer between 1 and 256'')
      else if (cursor_at = None) \<noteq> (cursor_id = None)
        then Inl (ValueError ''analytical import cursor fields must be provided together'')
      else (case cursor_at of
              Some (Naive w) \<Rightarrow> Inl (ValueError ''analytical import cursor time must be timezone-aware'')
            | _ \<Rightarrow> Inr ()))"

definition cursor_of :: "py_datetime option \<Rightarrow> uuid option \<Rightarrow> (utc \<times> uuid) option" where
  "cursor_of cursor_at cursor_id = (case (cursor_at, cursor_id) of (Some (Aware w off), Some i) \<Rightarrow> Some (w - off, i) | _ \<Rightarrow> None)"

section \<open>Slices\<close>

lemma concat_chunks: "0 < n \<Longrightarrow> concat (chunks n xs) = xs"
  by (induction n xs rule: chunks.induct) (subst chunks.simps, simp)

lemma fold_concat: "fold f (concat xss) s = fold (\<lambda>xs. fold f xs) xss s"
  by (induction xss arbitrary: s) simp_all

lemma fold_chunks: "0 < n \<Longrightarrow> fold (\<lambda>chunk. fold f chunk) (chunks n xs) s = fold f xs s"
  using fold_concat [of f "chunks n xs" s] by (simp add: concat_chunks)

lemma chunks_bound: "c \<in> set (chunks n xs) \<Longrightarrow> c \<noteq> [] \<and> length c \<le> n"
  by (induction n xs rule: chunks.induct) (subst (asm) (2) chunks.simps, auto split: if_splits)

lemma insert_bounded_fold: "insert_bounded key table items = fold (\<lambda>m t. dict_set t (key m) m) items table"
  by (simp add: insert_bounded_def fold_chunks MAX_BOUNDED_INSERT_ROWS_def)

section \<open>Tables\<close>

definition table_ok :: "('r \<Rightarrow> uuid) \<Rightarrow> 'r doc_table \<Rightarrow> bool" where
  "table_ok key table \<longleftrightarrow> dict_ok table \<and> (\<forall>k row. dict_get table k = Some row \<longrightarrow> key row = k)"

lemma table_ok_empty: "table_ok key []"
  by (simp add: table_ok_def)

lemma table_ok_set: "table_ok key table \<Longrightarrow> table_ok key (dict_set table (key m) m)"
  by (auto simp: table_ok_def)

lemma rows_in_get: "dict_ok table \<Longrightarrow> dict_get (rows_in table ids) k = (if k \<in> set ids then dict_get table k else None)"
  unfolding rows_in_def dict_get_def dict_ok_def
  by (induction table) (auto simp: map_of_eq_None_iff split: if_splits)

text \<open>Looking identities up in slices is the same as looking each of them up.\<close>

lemma rows_stored:
  "dict_ok d \<Longrightarrow> dict_get (fold (\<lambda>row d. dict_set d (fst row) (snd row)) (rows_in table chunk) d) k =
     (if dict_ok table \<and> k \<in> set chunk \<and> dict_get table k \<noteq> None then dict_get table k
      else dict_get (fold (\<lambda>row d. dict_set d (fst row) (snd row)) (rows_in table chunk) d) k)"
  using pydict.lookup_store_all_same [of d fst "rows_in table chunk" _ snd]
  by (auto simp: rows_in_def dict_ok_def distinct_map_filter case_prod_beta
      dict_in_iff_get [unfolded dict_ok_def] image_iff)

lemma stored_elsewhere:
  "dict_ok d \<Longrightarrow> k \<notin> set chunk \<or> dict_get table k = None \<Longrightarrow> dict_ok table \<Longrightarrow>
     dict_get (fold (\<lambda>row d. dict_set d (fst row) (snd row)) (rows_in table chunk) d) k = dict_get d k"
  using pydict.lookup_store_all_other [of d k fst "rows_in table chunk" snd]
  by (auto simp: rows_in_def case_prod_beta image_iff dict_in_iff_get)

lemma rows_stored_ok: "dict_ok d \<Longrightarrow> dict_ok (fold (\<lambda>row d. dict_set d (fst row) (snd row)) rows d)"
  using pydict.ok_store_all [of d fst snd rows] by (simp add: case_prod_beta)

lemma get_existing_spec:
  assumes "dict_ok table" and "0 < n"
  shows "dict_get (get_existing_documents n table ids) k = (if k \<in> set ids then dict_get table k else None)"
proof -
  have "dict_ok d \<Longrightarrow> dict_get (fold (\<lambda>chunk found. fold (\<lambda>row d. dict_set d (fst row) (snd row)) (rows_in table chunk) found) cs d) k =
      (if k \<in> set (concat cs) \<and> dict_get table k \<noteq> None then dict_get table k else dict_get d k)" for cs d
  proof (induction cs arbitrary: d)
    case (Cons c cs)
    then show ?case
      using rows_stored_ok [OF Cons.prems, of "rows_in table c"] rows_stored [OF Cons.prems, of table c k]
        stored_elsewhere [OF Cons.prems _ assms(1), of k c] assms(1)
      by (simp add: Cons.IH) auto
  qed simp
  from this [of "[]" "chunks n (sort (remdups ids))"] show ?thesis
    by (auto simp: get_existing_documents_def concat_chunks [OF assms(2)])
qed

end
