(* ===== verification/AppendOnly.thy ===== *)
theory AppendOnly
  imports DocumentTable
begin

text \<open>
  Saving a batch in an append-only table: when it succeeds, what it changes, and that it is
  idempotent. The locale \<open>batch_lookup\<close> states what a batch relies on when it reads the rows that
  exist already; the two ways the source reads them, one query or one query per slice, are its
  interpretations.
\<close>

text \<open>No identity has two different documents, in a batch and in a batch and a table.\<close>

definition one_document :: "('r \<Rightarrow> uuid) \<Rightarrow> ('r \<Rightarrow> string) \<Rightarrow> 'r list \<Rightarrow> bool" where
  "one_document key doc ms \<longleftrightarrow> (\<forall>m \<in> set ms. \<forall>m' \<in> set ms. key m' = key m \<longrightarrow> doc m' = doc m)"

definition batch_fits :: "('r \<Rightarrow> uuid) \<Rightarrow> ('r \<Rightarrow> string) \<Rightarrow> 'r doc_table \<Rightarrow> 'r list \<Rightarrow> bool" where
  "batch_fits key doc table ms \<longleftrightarrow> one_document key doc ms \<and>
     (\<forall>m \<in> set ms. \<forall>row. dict_get table (key m) = Some row \<longrightarrow> doc row = doc m)"

lemma one_document_Cons:
  "one_document key doc (m # ms) \<longleftrightarrow>
     one_document key doc ms \<and> (\<forall>m' \<in> set ms. key m' = key m \<longrightarrow> doc m' = doc m)"
  unfolding one_document_def list.set by (metis insert_iff)

lemma check_batch_Inr:
  "(\<exists>seen'. check_batch key doc ms seen = Inr seen') \<longleftrightarrow>
    one_document key doc ms \<and> (\<forall>m \<in> set ms. \<forall>t. dict_get seen (key m) = Some t \<longrightarrow> t = doc m)"
  (is "_ \<longleftrightarrow> _ \<and> ?fits ms seen")
proof (induction ms arbitrary: seen)
  case (Cons m ms)
  show ?case
  proof (cases "dict_get seen (key m)")
    case None
    have "(\<exists>seen'. check_batch key doc (m # ms) seen = Inr seen') \<longleftrightarrow>
        (\<exists>seen'. check_batch key doc ms (dict_set seen (key m) (doc m)) = Inr seen')" by (simp add: None)
    also have "\<dots> \<longleftrightarrow> one_document key doc ms \<and> ?fits ms (dict_set seen (key m) (doc m))" by (rule Cons.IH)
    also have "?fits ms (dict_set seen (key m) (doc m)) \<longleftrightarrow>
        ?fits ms seen \<and> (\<forall>m' \<in> set ms. key m' = key m \<longrightarrow> doc m' = doc m)"
      unfolding dict_get_set fun_upd_apply by (metis None option.distinct(1) option.inject)
    also have "one_document key doc ms \<and> \<dots> \<longleftrightarrow> one_document key doc (m # ms) \<and> ?fits (m # ms) seen"
      unfolding one_document_Cons by (simp only: list.set ball_simps None option.distinct simp_thms conj_ac)
    finally show ?thesis .
  next
    case (Some t)
    have "(\<exists>seen'. check_batch key doc (m # ms) seen = Inr seen') \<longleftrightarrow>
        t = doc m \<and> (\<exists>seen'. check_batch key doc ms seen = Inr seen')" by (simp add: Some)
    also have "\<dots> \<longleftrightarrow> t = doc m \<and> one_document key doc ms \<and> ?fits ms seen" by (simp only: Cons.IH)
    also have "\<dots> \<longleftrightarrow> one_document key doc (m # ms) \<and> ?fits (m # ms) seen"
    proof -
      have here: "(\<forall>u. dict_get seen (key m) = Some u \<longrightarrow> u = doc m) \<longleftrightarrow> t = doc m" using Some by simp
      have other: "\<forall>m' \<in> set ms. key m' = key m \<longrightarrow> doc m' = doc m" if "t = doc m" "?fits ms seen"
        using that Some by metis
      show ?thesis unfolding one_document_Cons list.set ball_simps here using other by blast
    qed
    finally show ?thesis .
  qed
qed (simp add: one_document_def)

lemma check_batch_keys:
  "check_batch key doc ms seen = Inr seen' \<Longrightarrow> set (dict_keys seen') = set (dict_keys seen) \<union> key ` set ms"
proof (induction ms arbitrary: seen)
  case (Cons m ms)
  show ?case
  proof (cases "dict_get seen (key m)")
    case None
    with Cons.prems have "check_batch key doc ms (dict_set seen (key m) (doc m)) = Inr seen'" by simp
    from Cons.IH [OF this] show ?thesis by (auto simp: dict_keys_def set_keys_dict_set simp del: set_map)
  next
    case (Some t)
    then have "key m \<in> set (dict_keys seen)"
      using dict_get_None_iff [of seen "key m"] by (auto simp: dict_keys_def)
    moreover have "check_batch key doc ms seen = Inr seen'" using Cons.prems Some by (simp split: if_splits)
    ultimately show ?thesis using Cons.IH by auto
  qed
qed simp

lemma sort_batch_Inr:
  assumes "sort_batch key doc existing ms sk (r, items) = Inr (r', items')"
  shows "\<exists>new. items' = items @ new \<and> bw_created r' = bw_created r @ map key new \<and>
    distinct (map key new) \<and> set new \<subseteq> set ms \<and>
    key ` set new = {i \<in> key ` set ms. dict_get existing i = None \<and> i \<notin> set sk}"
  using assms
proof (induction ms arbitrary: sk r items)
  case (Cons m ms)
  let ?k = "key m"
  show ?case
  proof (cases "dict_get existing ?k = None \<and> ?k \<notin> set sk")
    case True
    with Cons.prems have "sort_batch key doc existing ms (?k # sk)
        (r\<lparr>bw_created := bw_created r @ [?k]\<rparr>, items @ [m]) = Inr (r', items')" by (simp add: Let_def)
    from Cons.IH [OF this] obtain new where new: "items' = (items @ [m]) @ new"
      "bw_created r' = (bw_created r @ [?k]) @ map key new" "distinct (map key new)"
      "set new \<subseteq> set ms"
      "key ` set new = {i \<in> key ` set ms. dict_get existing i = None \<and> i \<notin> set (?k # sk)}" by auto
    have "?k \<notin> key ` set new" unfolding new(5) by simp
    moreover have "key ` set (m # new) =
        {i \<in> key ` set (m # ms). dict_get existing i = None \<and> i \<notin> set sk}"
      using True new(5) by auto
    ultimately show ?thesis using new(1-4) by (intro exI [of _ "m # new"]) auto
  next
    case False
    obtain sk2 r2 where rest: "sort_batch key doc existing ms sk2 (r2, items) = Inr (r', items')"
      "bw_created r2 = bw_created r" "sk2 = sk \<or> sk2 = ?k # sk \<and> dict_get existing ?k \<noteq> None"
    proof (cases "dict_get existing ?k")
      case None
      with False Cons.prems show thesis by (auto simp: Let_def intro: that)
    next
      case (Some row)
      show thesis
      proof (cases "?k \<in> set sk")
        case True
        with Some Cons.prems show thesis by (intro that [of sk r]) (auto simp: Let_def split: if_splits)
      next
        case new: False
        with Some Cons.prems show thesis
          by (intro that [of "?k # sk" "r\<lparr>bw_reused := bw_reused r @ [?k]\<rparr>"]) (auto simp: Let_def split: if_splits)
      qed
    qed
    have "{i \<in> key ` set ms. dict_get existing i = None \<and> i \<notin> set sk2} =
        {i \<in> key ` set (m # ms). dict_get existing i = None \<and> i \<notin> set sk}"
      using rest(3) False by auto
    with Cons.IH [OF rest(1)] rest(2) show ?thesis by auto
  qed
qed simp

lemma sort_batch_succeeds:
  "(\<exists>out. sort_batch key doc existing ms sk acc = Inr out) \<longleftrightarrow>
     (\<forall>m \<in> set ms. \<forall>row. dict_get existing (key m) = Some row \<longrightarrow> doc row = doc m)"
  by (induction key doc existing ms sk acc rule: sort_batch.induct) (auto simp: Let_def split: option.splits)

lemma insert_fresh:
  assumes "table_ok key table" and "distinct (map key ms)" and "\<forall>m \<in> set ms. dict_get table (key m) = None"
  shows "insert_bounded key table ms = table @ map (\<lambda>m. (key m, m)) ms"
  using assms unfolding insert_bounded_fold
proof (induction ms arbitrary: table)
  case (Cons m ms)
  have other: "\<forall>m' \<in> set ms. dict_get (dict_set table (key m) m) (key m') = None"
    using Cons.prems by (auto simp: image_iff)
  have fresh: "dict_set table (key m) m = table @ [(key m, m)]"
    using Cons.prems by (simp add: dict_set_fresh)
  have "fold (\<lambda>m t. dict_set t (key m) m) ms (dict_set table (key m) m) =
      dict_set table (key m) m @ map (\<lambda>m. (key m, m)) ms"
    by (rule Cons.IH [OF table_ok_set [OF Cons.prems(1)] _ other]) (use Cons.prems in simp)
  then show ?case by (simp add: fresh)
qed simp

lemma table_ok_append:
  assumes "table_ok key table" and "distinct (map key new)" and "key ` set new \<inter> set (dict_keys table) = {}"
  shows "table_ok key (table @ map (\<lambda>m. (key m, m)) new)"
proof -
  have ok: "dict_ok (table @ map (\<lambda>m. (key m, m)) new)"
    using assms by (auto simp: table_ok_def dict_ok_def dict_keys_def comp_def)
  have "key row = k" if "(k, row) \<in> set (table @ map (\<lambda>m. (key m, m)) new)" for k row
  proof -
    have "dict_ok table" using assms(1) by (simp add: table_ok_def)
    from that consider "dict_get table k = Some row" | "key row = k"
      using dict_in_iff_get [OF \<open>dict_ok table\<close>, of k row] by auto
    then show ?thesis using assms(1) by cases (simp_all add: table_ok_def)
  qed
  with ok dict_in_iff_get [OF ok] show ?thesis unfolding table_ok_def by blast
qed

lemma batch_fits_append:
  assumes "batch_fits key doc table ms" and "table_ok key table" and "set new \<subseteq> set ms"
  shows "batch_fits key doc (table @ map (\<lambda>m. (key m, m)) new) ms"
proof -
  have "doc row = doc m" if m: "m \<in> set ms"
    and row: "dict_get (table @ map (\<lambda>m. (key m, m)) new) (key m) = Some row" for m row
  proof -
    from row consider "dict_get table (key m) = Some row"
      | "row \<in> set new" "key row = key m"
    proof -
      assume table: "dict_get table (key m) = Some row \<Longrightarrow> thesis"
        and added: "row \<in> set new \<Longrightarrow> key row = key m \<Longrightarrow> thesis"
      show thesis
      proof (cases "dict_get table (key m)")
        case None
        with row have "map_of (map (\<lambda>m. (key m, m)) new) (key m) = Some row"
          by (simp add: dict_get_def map_add_Some_iff)
        from map_of_SomeD [OF this] show thesis by (auto intro: added)
      next
        case (Some r)
        with row have "r = row" by (simp add: dict_get_def map_add_def)
        with Some table show thesis by simp
      qed
    qed
    then show ?thesis
    proof cases
      case 1
      with assms(1) m show ?thesis by (auto simp: batch_fits_def)
    next
      case 2
      with assms(1,3) m show ?thesis unfolding batch_fits_def one_document_def by blast
    qed
  qed
  with assms(1) show ?thesis unfolding batch_fits_def by blast
qed

locale batch_lookup =
  fixes key :: "'r \<Rightarrow> uuid"
    and doc :: "'r \<Rightarrow> string"
    and lookup :: "'r doc_table \<Rightarrow> uuid list \<Rightarrow> (uuid, 'r) dict"
  assumes finds: "dict_ok table \<Longrightarrow> i \<in> set ids \<Longrightarrow> dict_get (lookup table ids) i = dict_get table i"
begin

lemma rows_of_batch:
  assumes "table_ok key table" and "check_batch key doc ms [] = Inr seen" and "i \<in> key ` set ms"
  shows "dict_get (lookup table (sort (dict_keys seen))) i = dict_get table i"
proof -
  have "dict_ok table" using assms(1) by (simp add: table_ok_def)
  then show ?thesis
    using check_batch_keys [OF assms(2)] assms(3) by (simp add: finds dict_keys_def)
qed

lemma save_batch_bind:
  "ms \<noteq> [] \<Longrightarrow> check_batch key doc ms [] = Inr seen \<Longrightarrow>
    save_batch key doc lookup table ms =
      bind_r (sort_batch key doc (lookup table (sort (dict_keys seen))) ms [] (empty_receipt, []))
        (\<lambda>(receipt, items). Inr (receipt, if items = [] then table else insert_bounded key table items))"
  by (simp add: save_batch_def)

lemma save_batch_Inr:
  "save_batch key doc lookup table ms = Inr (receipt, table') \<longleftrightarrow>
     (if ms = [] then receipt = empty_receipt \<and> table' = table
      else \<exists>seen items. check_batch key doc ms [] = Inr seen \<and>
        sort_batch key doc (lookup table (sort (dict_keys seen))) ms [] (empty_receipt, []) = Inr (receipt, items) \<and>
        table' = (if items = [] then table else insert_bounded key table items))"
proof (cases "check_batch key doc ms []")
  case (Inr seen)
  show ?thesis
  proof (cases "ms = []")
    case False
    note save = save_batch_bind [OF False Inr, of table]
    show ?thesis
    proof (cases "sort_batch key doc (lookup table (sort (dict_keys seen))) ms [] (empty_receipt, [])")
      case inl: (Inl e)
      show ?thesis by (simp add: save inl Inr False)
    next
      case inr: (Inr out)
      show ?thesis by (cases out) (auto simp: save inr Inr False)
    qed
  qed (auto simp: save_batch_def)
next
  case (Inl e)
  then show ?thesis by (cases "ms = []") (auto simp: save_batch_def)
qed

lemma save_batch_succeeds:
  assumes "table_ok key table"
  shows "(\<exists>receipt table'. save_batch key doc lookup table ms = Inr (receipt, table')) \<longleftrightarrow> batch_fits key doc table ms"
proof (cases "ms = []")
  case False
  show ?thesis
  proof (cases "check_batch key doc ms []")
    case (Inl e)
    then have "\<not> one_document key doc ms" using check_batch_Inr [of key doc ms "[]"] by simp
    with False Inl show ?thesis by (simp add: save_batch_def batch_fits_def)
  next
    case (Inr seen)
    then have one: "one_document key doc ms" using check_batch_Inr [of key doc ms "[]"] by simp
    have "(\<exists>receipt table'. save_batch key doc lookup table ms = Inr (receipt, table')) \<longleftrightarrow>
        (\<exists>out. sort_batch key doc (lookup table (sort (dict_keys seen))) ms [] (empty_receipt, []) = Inr out)"
      unfolding save_batch_bind [OF False Inr]
      by (cases "sort_batch key doc (lookup table (sort (dict_keys seen))) ms [] (empty_receipt, [])")
         (simp_all add: split_beta)
    also have "\<dots> \<longleftrightarrow> (\<forall>m \<in> set ms. \<forall>row. dict_get table (key m) = Some row \<longrightarrow> doc row = doc m)"
      unfolding sort_batch_succeeds by (simp add: rows_of_batch [OF assms Inr] cong: ball_cong)
    finally show ?thesis using one by (simp add: batch_fits_def)
  qed
qed (simp add: save_batch_Inr batch_fits_def one_document_def)

lemma save_batch_effect:
  assumes "table_ok key table" and save: "save_batch key doc lookup table ms = Inr (receipt, table')"
  obtains new where "table' = table @ map (\<lambda>m. (key m, m)) new"
    and "bw_created receipt = map key new" and "distinct (map key new)" and "set new \<subseteq> set ms"
    and "key ` set new = key ` set ms - set (dict_keys table)"
proof (cases "ms = []")
  case True
  with save show thesis by (auto simp: save_batch_Inr empty_receipt_def intro: that [of "[]"])
next
  case False
  with save obtain seen items where seen: "check_batch key doc ms [] = Inr seen"
    and sorted: "sort_batch key doc (lookup table (sort (dict_keys seen))) ms [] (empty_receipt, []) = Inr (receipt, items)"
    and table': "table' = (if items = [] then table else insert_bounded key table items)"
    by (auto simp: save_batch_Inr)
  from sort_batch_Inr [OF sorted] have items: "bw_created receipt = map key items"
    "distinct (map key items)" "set items \<subseteq> set ms"
    "key ` set items = {i \<in> key ` set ms. dict_get (lookup table (sort (dict_keys seen))) i = None}"
    by (auto simp: empty_receipt_def)
  have "dict_get table i = None \<longleftrightarrow> i \<notin> set (dict_keys table)" for i
    using dict_get_None_iff [of table i] by (simp add: dict_keys_def)
  then have new: "key ` set items = key ` set ms - set (dict_keys table)"
    and "\<forall>m \<in> set items. dict_get table (key m) = None"
    subgoal unfolding items(4) using rows_of_batch [OF assms(1) seen] by auto
    subgoal premises prems
    proof
      fix m assume "m \<in> set items"
      then have "key m \<in> key ` set items" by simp
      then show "dict_get table (key m) = None"
        unfolding items(4) using rows_of_batch [OF assms(1) seen] by auto
    qed
    done
  with insert_fresh [OF assms(1) items(2)] have "table' = table @ map (\<lambda>m. (key m, m)) items"
    by (simp add: table')
  with items(1-3) new show thesis by (intro that)
qed

lemma append_only:
  assumes "table_ok key table"
  shows "((\<exists>receipt table'. save_batch key doc lookup table ms = Inr (receipt, table')) \<longleftrightarrow> batch_fits key doc table ms) \<and>
    (\<forall>receipt table'. save_batch key doc lookup table ms = Inr (receipt, table') \<longrightarrow>
      (\<exists>new. table' = table @ map (\<lambda>m. (key m, m)) new \<and> bw_created receipt = map key new \<and> set new \<subseteq> set ms) \<and>
      table_ok key table' \<and> set (dict_keys table') = set (dict_keys table) \<union> key ` set ms \<and>
      (\<exists>again. save_batch key doc lookup table' ms = Inr (again, table') \<and> bw_created again = []))"
proof (intro conjI allI impI save_batch_succeeds assms)
  fix receipt table' assume save: "save_batch key doc lookup table ms = Inr (receipt, table')"
  obtain new where new: "table' = table @ map (\<lambda>m. (key m, m)) new"
    "bw_created receipt = map key new" "distinct (map key new)" "set new \<subseteq> set ms"
    "key ` set new = key ` set ms - set (dict_keys table)"
    by (rule save_batch_effect [OF assms save])
  have ok: "table_ok key table'" unfolding new(1) by (rule table_ok_append [OF assms new(3)]) (use new(5) in auto)
  have keys: "set (dict_keys table') = set (dict_keys table) \<union> key ` set ms"
    using new(5) by (auto simp: new(1) dict_keys_def image_image)
  have fits: "batch_fits key doc table ms" using save save_batch_succeeds [OF assms, of ms] by blast
  have "batch_fits key doc table' ms"
    using fits new(4) by (rule batch_fits_append [OF _ assms, of doc ms new, folded new(1)])
  then obtain again table2 where again: "save_batch key doc lookup table' ms = Inr (again, table2)"
    using save_batch_succeeds [OF ok] by blast
  obtain none where none: "table2 = table' @ map (\<lambda>m. (key m, m)) none" "bw_created again = map key none"
    "key ` set none = key ` set ms - set (dict_keys table')"
    by (rule save_batch_effect [OF ok again])
  have "key ` set none = {}" unfolding none(3) keys by blast
  then have "none = []" by simp
  with none again have "save_batch key doc lookup table' ms = Inr (again, table')" "bw_created again = []" by simp_all
  then show "\<exists>again. save_batch key doc lookup table' ms = Inr (again, table') \<and> bw_created again = []" by blast
  show "\<exists>new. table' = table @ map (\<lambda>m. (key m, m)) new \<and> bw_created receipt = map key new \<and>
      set new \<subseteq> set ms"
    using new by blast
  show "table_ok key table'" "set (dict_keys table') = set (dict_keys table) \<union> key ` set ms" by (fact ok keys)+
qed

end

text \<open>One query for the whole batch, and one query per slice of 256 identities.\<close>

interpretation one_query: batch_lookup key doc rows_in for key doc
  by unfold_locales (simp add: rows_in_get)

interpretation sliced_query: batch_lookup key doc "get_existing_documents 256" for key doc
  by unfold_locales (simp add: get_existing_spec)

end
