(* ===== verification/PagedSource.thy ===== *)
theory PagedSource
  imports DocumentTable
begin

text \<open>
  Readers of a corpus see it through bounded pages of identities and the hydration of one page.
  The locale \<open>paged_source\<close> states that contract for any state \<open>s\<close> of a source that is \<open>ok\<close>: \<open>rows s\<close>
  are its rows in the order of availability and identity, a page after a cursor holds the next
  identities, and hydrating part of the rows finds exactly them. The document tables provide it.
\<close>

section \<open>The interface\<close>

text \<open>The cursor after the rows \<open>seen\<close>.\<close>

definition cursor_after :: "('r \<Rightarrow> utc) \<Rightarrow> ('r \<Rightarrow> uuid) \<Rightarrow> 'r list \<Rightarrow> (utc \<times> uuid) option" where
  "cursor_after avail key seen = (if seen = [] then None else Some (by_availability avail key (last seen)))"

lemma cursor_after_Nil [simp]: "cursor_after avail key [] = None"
  by (simp add: cursor_after_def)

lemma cursor_after_append: "rows \<noteq> [] \<Longrightarrow> cursor_after avail key (seen @ rows) = Some (avail (last rows), key (last rows))"
  by (simp add: cursor_after_def by_availability_def)

locale paged_source =
  fixes ok :: "'s \<Rightarrow> bool"
    and rows :: "'s \<Rightarrow> 'r list"
    and page :: "'s \<Rightarrow> int \<Rightarrow> (utc \<times> uuid) option \<Rightarrow> uuid list result"
    and hydrate :: "'s \<Rightarrow> uuid list \<Rightarrow> (uuid, 'r) dict result"
    and key :: "'r \<Rightarrow> uuid"
    and avail :: "'r \<Rightarrow> utc"
  assumes rows_distinct: "ok s \<Longrightarrow> distinct (map key (rows s))"
    and page_next: "ok s \<Longrightarrow> rows s = seen @ rest \<Longrightarrow> 1 \<le> limit \<Longrightarrow> limit \<le> ANALYTICAL_IMPORT_PAGE_LIMIT \<Longrightarrow>
      page s limit (cursor_after avail key seen) = Inr (map key (take (nat limit) rest))"
    and hydrate_finds: "ok s \<Longrightarrow> set ms \<subseteq> set (rows s) \<Longrightarrow> distinct (map key ms) \<Longrightarrow> length ms \<le> 256 \<Longrightarrow>
      \<exists>found. hydrate s (map key ms) = Inr found \<and> length found = length ms \<and>
        (\<forall>m \<in> set ms. dict_get found (key m) = Some m)"
begin

text \<open>One page of a source whose rows continue with \<open>rest\<close>: its identities and its rows.\<close>

lemma next_page:
  assumes "ok s" and "rows s = seen @ rest" and "1 \<le> limit" and "limit \<le> ANALYTICAL_IMPORT_PAGE_LIMIT"
  obtains found where "page s limit (cursor_after avail key seen) = Inr (map key (take (nat limit) rest))"
    and "hydrate s (map key (take (nat limit) rest)) = Inr found"
    and "length found = length (take (nat limit) rest)"
    and "\<And>m. m \<in> set (take (nat limit) rest) \<Longrightarrow> dict_get found (key m) = Some m"
proof -
  have "distinct (map key (take (nat limit) rest))"
    using rows_distinct [OF assms(1)] distinct_take [of "map key rest" "nat limit"]
    by (simp add: assms(2) take_map)
  moreover have "length (take (nat limit) rest) \<le> 256"
    using assms(4) by (simp add: ANALYTICAL_IMPORT_PAGE_LIMIT_def)
  moreover have "set (take (nat limit) rest) \<subseteq> set (rows s)"
    using assms(2) by (auto dest: in_set_takeD)
  ultimately show thesis
    using hydrate_finds [OF assms(1)] page_next [OF assms] that by metis
qed

end

section \<open>Document tables are paged sources\<close>

definition in_order :: "('r \<Rightarrow> utc) \<Rightarrow> ('r \<Rightarrow> uuid) \<Rightarrow> 'r doc_table \<Rightarrow> 'r list" where
  "in_order avail key table = sort_key (by_availability avail key) (dict_values table)"

lemma set_in_order [simp]: "set (in_order avail key table) = set (dict_values table)"
  by (simp add: in_order_def)

lemma table_ids: "table_ok key table \<Longrightarrow> map key (dict_values table) = dict_keys table"
  by (auto simp: table_ok_def dict_values_def dict_keys_def dict_in_iff_get [symmetric])

lemma distinct_in_order: "table_ok key table \<Longrightarrow> distinct (map key (in_order avail key table))"
  using table_ids [of key table] by (simp add: in_order_def table_ok_def dict_ok_def dict_keys_def)

lemma stored_row: "table_ok key table \<Longrightarrow> m \<in> set (dict_values table) \<Longrightarrow> dict_get table (key m) = Some m"
  by (auto simp: table_ok_def dict_values_set)

lemma sorted_pages:
  assumes "distinct (map key (seen @ rest))" and "sort_key (by_availability avail key) ms = seen @ rest"
  shows "sort_key (by_availability avail key) (filter (after_cursor avail key (cursor_after avail key seen)) ms) = rest"
proof (cases seen rule: rev_cases)
  case Nil
  with assms show ?thesis by (simp add: after_cursor_def)
next
  case (snoc seen' x)
  let ?by = "by_availability avail key" and ?p = "after_cursor avail key (cursor_after avail key seen)"
  have p: "?p m \<longleftrightarrow> ?by x < ?by m" for m
    by (auto simp: snoc cursor_after_def after_cursor_def by_availability_def)
  have sorted: "sorted (map ?by (seen' @ [x] @ rest))"
  proof -
    have "sorted (map ?by (sort_key ?by ms))" by simp
    then show ?thesis by (simp only: assms(2) snoc append_assoc)
  qed
  have before: "filter ?p (seen' @ [x]) = []"
    using sorted by (auto simp: p filter_empty_conv sorted_append not_less)
  have after: "filter ?p rest = rest"
  proof (rule filter_True, rule ballI)
    fix m assume m: "m \<in> set rest"
    with sorted have "?by x \<le> ?by m" by (auto simp: sorted_append)
    moreover have "key m \<noteq> key x" using assms(1) m by (auto simp: snoc image_iff)
    then have "?by m \<noteq> ?by x" by (simp add: by_availability_def)
    ultimately show "?p m" by (simp add: p)
  qed
  have "sort_key ?by (filter ?p ms) = filter ?p (sort_key ?by ms)" by (simp add: filter_sort)
  also have "sort_key ?by ms = (seen' @ [x]) @ rest" using assms(2) snoc by simp
  also have "filter ?p \<dots> = filter ?p (seen' @ [x]) @ filter ?p rest" by (rule filter_append)
  also have "\<dots> = rest" by (simp only: before after append_Nil)
  finally show ?thesis .
qed

lemma keyset_page_next:
  assumes "table_ok key table" and "in_order avail key table = seen @ rest"
  shows "keyset_page avail key table limit (cursor_after avail key seen) = map key (take (nat limit) rest)"
proof -
  have "distinct (map key (seen @ rest))" using distinct_in_order [OF assms(1), of avail] assms(2) by simp
  from sorted_pages [OF this] assms(2) show ?thesis by (simp add: keyset_page_def in_order_def)
qed

lemma get_many_finds:
  assumes "table_ok key table" and "set ms \<subseteq> set (dict_values table)" and "distinct (map key ms)"
  shows "\<exists>found. get_many_documents table (map key ms) = Inr found \<and> length found = length ms \<and>
    (\<forall>m \<in> set ms. dict_get found (key m) = Some m)"
proof -
  let ?ids = "sort (map key ms)"
  let ?row = "\<lambda>i. the (dict_get table i)"
  have row: "dict_get table (key m) = Some m" if "m \<in> set ms" for m
    using stored_row [OF assms(1)] assms(2) that by blast
  have "traverse (get_document table) ?ids = Inr (map ?row ?ids)"
    by (rule traverse_Inr_map) (auto simp: get_document_def row)
  then have "get_many_documents table (map key ms) = Inr (zip ?ids (map ?row ?ids))"
    using assms(3) by (simp add: get_many_documents_def distinct_remdups_id Let_def)
  moreover have "\<forall>m \<in> set ms. dict_get (zip ?ids (map ?row ?ids)) (key m) = Some m"
    using row by (simp add: dict_get_def map_of_zip_map)
  ultimately show ?thesis by simp
qed

lemma traverse_lookup:
  assumes "\<And>m. m \<in> set ms \<Longrightarrow> dict_get d (key m) = Some m"
  shows "traverse (\<lambda>i. case dict_get d i of None \<Rightarrow> Inl e | Some m \<Rightarrow> Inr m) (map key ms) = Inr ms"
  using assms by (induction ms) simp_all

end
