(* ===== verification/EvidenceModels.thy ===== *)
theory EvidenceModels
  imports Contracts
begin

text \<open>
  The other contracts the storage layer keeps: raw records and normalized observations
  (\<^verbatim>\<open>core/models/observation.py\<close>, \<^verbatim>\<open>core/models/source.py\<close>) and diagnostic
  results with their components and evidence (\<^verbatim>\<open>core/models/diagnostic.py\<close>), with the
  validators that run when an instance is built, and the decimal arithmetic these use: every
  operation rounds half to even to the 28 digits of Python's default context. Exponents are
  unbounded, and the sign of a zero is not observed.
\<close>

section \<open>Decimal arithmetic\<close>

definition dec_signed :: "decimal \<Rightarrow> int" where
  "dec_signed d = (if dec_neg d then - int (dec_coeff d) else int (dec_coeff d))"

definition dec_of :: "int \<Rightarrow> int \<Rightarrow> decimal" where
  "dec_of v e = Decimal (v < 0) (nat \<bar>v\<bar>) e"

definition half_even :: "nat \<Rightarrow> nat \<Rightarrow> nat" where
  \<comment> \<open>\<open>n / d\<close> rounded to the nearest integer, ties to the even one\<close>
  "half_even n d =
     (let q = n div d; r = n mod d in
      if 2 * r < d then q else if d < 2 * r then q + 1 else if even q then q else q + 1)"

definition dec_round :: "nat \<Rightarrow> decimal \<Rightarrow> decimal" where
  "dec_round p d =
     (let n = length (digits_of (dec_coeff d)) in
      if n \<le> p then d
      else Decimal (dec_neg d) (half_even (dec_coeff d) (10 ^ (n - p))) (dec_exp d + int (n - p)))"

definition dec_precision :: nat where "dec_precision = 28"

definition dec_add :: "decimal \<Rightarrow> decimal \<Rightarrow> decimal" where
  "dec_add a b =
     (let e = min (dec_exp a) (dec_exp b) in
      dec_round dec_precision
        (dec_of (dec_signed a * 10 ^ nat (dec_exp a - e) + dec_signed b * 10 ^ nat (dec_exp b - e)) e))"

definition dec_neg_of :: "decimal \<Rightarrow> decimal" where
  "dec_neg_of d = Decimal (\<not> dec_neg d) (dec_coeff d) (dec_exp d)"

definition dec_sub :: "decimal \<Rightarrow> decimal \<Rightarrow> decimal" where
  "dec_sub a b = dec_add a (dec_neg_of b)"

definition dec_mul :: "decimal \<Rightarrow> decimal \<Rightarrow> decimal" where
  "dec_mul a b = dec_round dec_precision (dec_of (dec_signed a * dec_signed b) (dec_exp a + dec_exp b))"

definition dec_abs :: "decimal \<Rightarrow> decimal" where
  "dec_abs d = dec_round dec_precision (Decimal False (dec_coeff d) (dec_exp d))"

definition dec_sum :: "decimal list \<Rightarrow> decimal" where
  "dec_sum ds = foldl dec_add (Decimal False 0 0) ds"

section \<open>Observations\<close>

record source_reference =
  sr_source_id :: string
  sr_record_key :: "string option"
  sr_retrieved_at :: utc
  sr_raw_uri :: "string option"
  sr_checksum_sha256 :: "string option"

record raw_record =
  rr_record_id :: uuid
  rr_asset_id :: "string option"
  rr_source :: source_reference
  rr_event_time :: "utc option"
  rr_available_at :: utc
  rr_received_at :: utc
  rr_payload :: json
  rr_schema_version :: string

definition validate_availability_order :: "raw_record \<Rightarrow> raw_record result" where
  "validate_availability_order r =
     (if rr_available_at r > rr_received_at r
        then Inl (ValueError ''available_at must not be later than received_at'') else Inr r)"

record observation =
  o_observation_id :: uuid
  o_raw_record_id :: uuid
  o_asset_id :: string
  o_field_name :: string
  o_value :: decimal
  o_unit :: string
  o_frequency :: data_frequency
  o_observed_at :: "utc option"
  o_period_start :: "utc option"
  o_period_end :: "utc option"
  o_available_at :: utc
  o_normalized_at :: utc
  o_source :: source_reference
  o_quality :: data_quality
  o_transformation_version :: string

definition validate_temporal_consistency :: "observation \<Rightarrow> observation result" where
  "validate_temporal_consistency ob =
     (if (case (o_period_start ob, o_period_end ob) of (Some s, Some e) \<Rightarrow> s > e | _ \<Rightarrow> False)
        then Inl (ValueError ''period_start must not be later than period_end'')
      else if o_available_at ob > o_normalized_at ob
        then Inl (ValueError ''available_at must not be later than normalized_at'')
      else if o_observed_at ob = None \<and> o_period_end ob = None
        then Inl (ValueError ''observed_at or period_end must be provided'')
      else Inr ob)"

section \<open>Diagnostics\<close>

datatype diagnostic_mode = MARKET_MODE | FUNDAMENTAL_MODE | UNIFIED_MODE

fun diagnostic_mode_value :: "diagnostic_mode \<Rightarrow> string" where
  "diagnostic_mode_value MARKET_MODE = ''market''"
| "diagnostic_mode_value FUNDAMENTAL_MODE = ''fundamental''"
| "diagnostic_mode_value UNIFIED_MODE = ''unified''"

datatype diagnostic_verdict = POSITIVE | NEUTRAL | NEGATIVE | INSUFFICIENT_DATA

datatype evidence_direction = SUPPORTS | OPPOSES | NEUTRAL_DIRECTION

record diagnostic_evidence =
  de_metric_result_id :: uuid
  de_direction :: evidence_direction
  de_contribution :: decimal
  de_reason :: string

record diagnostic_component =
  dc_component_key :: string
  dc_score :: decimal
  dc_weight :: decimal
  dc_weighted_contribution :: decimal
  dc_metric_result_ids :: "uuid list"
  dc_explanation :: string

definition DECIMAL_TOLERANCE :: decimal where "DECIMAL_TOLERANCE = Decimal False 1 (- 4)"

definition in_bounds :: "nat \<Rightarrow> decimal \<Rightarrow> bool" where
  \<comment> \<open>\<^verbatim>\<open>Field(ge=Decimal("0"), le=Decimal(n))\<close>\<close>
  "in_bounds n d \<longleftrightarrow> dec_le (Decimal False 0 0) d \<and> dec_le d (Decimal False n 0)"

definition far_apart :: "decimal \<Rightarrow> decimal \<Rightarrow> bool" where
  \<comment> \<open>\<^verbatim>\<open>abs(a - b) > DECIMAL_TOLERANCE\<close>\<close>
  "far_apart a b \<longleftrightarrow> dec_less DECIMAL_TOLERANCE (dec_abs (dec_sub a b))"

definition validate_component :: "diagnostic_component \<Rightarrow> diagnostic_component result" where
  "validate_component c =
     (if \<not> in_bounds 100 (dc_score c) \<or> \<not> in_bounds 1 (dc_weight c)
        then Inl (ValueError ''component score or weight is out of range'')
      else if far_apart (dc_weighted_contribution c) (dec_mul (dc_score c) (dc_weight c))
        then Inl (ValueError ''weighted_contribution must equal score multiplied by weight'')
      else Inr c)"

record diagnostic_result =
  d_diagnostic_id :: uuid
  d_asset_id :: string
  d_mode :: diagnostic_mode
  d_verdict :: diagnostic_verdict
  d_final_score :: decimal
  d_confidence :: decimal
  d_as_of :: utc
  d_available_at :: utc
  d_computed_at :: utc
  d_components :: "diagnostic_component list"
  d_evidence :: "diagnostic_evidence list"
  d_algorithm_version :: string
  d_summary :: string
  d_quality :: data_quality

definition validate_diagnostic_consistency :: "diagnostic_result \<Rightarrow> diagnostic_result result" where
  "validate_diagnostic_consistency d =
     (if d_available_at d > d_computed_at d
        then Inl (ValueError ''available_at must not be later than computed_at'')
      else if d_components d \<noteq> [] \<and>
          far_apart (dec_sum (map dc_weight (d_components d))) (Decimal False 1 0)
        then Inl (ValueError ''component weights must sum to 1'')
      else if d_verdict d \<noteq> INSUFFICIENT_DATA \<and> (d_components d = [] \<or> d_evidence d = [])
        then Inl (ValueError ''a normal diagnostic requires components and evidence'')
      else if d_verdict d \<noteq> INSUFFICIENT_DATA \<and>
          far_apart (d_final_score d) (dec_sum (map dc_weighted_contribution (d_components d)))
        then Inl (ValueError ''final_score must equal weighted component contributions'')
      else Inr d)"

definition parse_diagnostic :: "diagnostic_result \<Rightarrow> diagnostic_result result" where
  \<comment> \<open>building a \<^verbatim>\<open>DiagnosticResult\<close>: its components, its fields, then the model validator\<close>
  "parse_diagnostic d =
     bind_r (traverse validate_component (d_components d)) (\<lambda>_.
       if \<not> in_bounds 100 (d_final_score d) \<or> \<not> in_bounds 1 (d_confidence d)
         then Inl (ValueError ''diagnostic score or confidence is out of range'')
       else validate_diagnostic_consistency d)"

end
