(* ===== verification/Repositories.thy ===== *)
theory Repositories
  imports AppendOnly PagedSource EvidenceModels
begin

text \<open>
  The three append-only repositories of \<^verbatim>\<open>storage/repositories.py\<close>: normalized
  observations, metric results and diagnostic results, each a document table with its own
  columns, filters and orders. \<open>doc\<close> is the canonical JSON text of a row.
\<close>

section \<open>Metric results\<close>

type_synonym metric_table = "metric_result doc_table"

definition save_metric ::
  "(metric_result \<Rightarrow> string) \<Rightarrow> metric_table \<Rightarrow> metric_result \<Rightarrow> (metric_result \<times> metric_table) result" where
  "save_metric doc table m =
     bind_r (ensure_append_only doc table (m_result_id m) (doc m)) (\<lambda>fresh.
       Inr (m, if fresh then dict_set table (m_result_id m) m else table))"

definition save_metrics ::
  "(metric_result \<Rightarrow> string) \<Rightarrow> metric_table \<Rightarrow> metric_result list \<Rightarrow>
     (batch_write_receipt \<times> metric_table) result" where
  "save_metrics doc = save_batch m_result_id doc rows_in"

definition get_existing_metrics :: "metric_table \<Rightarrow> uuid list \<Rightarrow> (uuid, metric_result) dict" where
  "get_existing_metrics = get_existing_documents GET_EXISTING_CHUNK_SIZE"

definition blank_text :: "string \<Rightarrow> bool" where
  \<comment> \<open>\<^verbatim>\<open>not s.strip()\<close>\<close>
  "blank_text s \<longleftrightarrow> list_all py_space s"

fun normalize_keys :: "string list \<Rightarrow> string list \<Rightarrow> string list result" where
  "normalize_keys seen [] = Inr []"
| "normalize_keys seen (key # keys) =
     (if blank_text key then Inl (ValueError ''metric_keys must contain non-empty strings'')
      else if key \<in> set seen then normalize_keys seen keys
      else bind_r (normalize_keys (key # seen) keys) (\<lambda>ks. Inr (key # ks)))"

definition normalize_metric_keys :: "string list \<Rightarrow> string list result" where
  "normalize_metric_keys metric_keys =
     (if metric_keys = [] then Inl (ValueError ''metric_keys must not be empty'')
      else normalize_keys [] metric_keys)"

record metric_filter =
  mq_asset_id :: "string option"
  mq_metric_key :: "string option"
  mq_metric_keys :: "string list option"
  mq_as_of_from :: "utc option"
  mq_as_of_to :: "utc option"

definition metric_clauses :: "metric_filter \<Rightarrow> (metric_result \<Rightarrow> bool) result" where
  "metric_clauses f =
     (if mq_metric_key f \<noteq> None \<and> mq_metric_keys f \<noteq> None
        then Inl (ValueError ''metric_key and metric_keys cannot be used together'')
      else
        bind_r (case mq_metric_keys f of None \<Rightarrow> Inr None
                | Some keys \<Rightarrow> bind_r (normalize_metric_keys keys) (\<lambda>ks. Inr (Some ks))) (\<lambda>keys.
          Inr (\<lambda>m. holds_for (\<lambda>a. m_asset_id m = a) (mq_asset_id f) \<and>
                   holds_for (\<lambda>k. m_metric_key m = k) (mq_metric_key f) \<and>
                   holds_for (\<lambda>ks. m_metric_key m \<in> set ks) keys \<and>
                   holds_for (\<lambda>t. t \<le> m_as_of m) (mq_as_of_from f) \<and>
                   holds_for (\<lambda>t. m_as_of m \<le> t) (mq_as_of_to f))))"

definition by_period :: "metric_result \<Rightarrow> utc \<times> uuid" where
  "by_period m = (m_as_of m, m_result_id m)"

definition list_metrics :: "metric_table \<Rightarrow> metric_filter \<Rightarrow> metric_result list result" where
  "list_metrics table f =
     bind_r (metric_clauses f) (\<lambda>p. Inr (sort_key by_period (filter p (dict_values table))))"

definition count_metrics :: "metric_table \<Rightarrow> metric_filter \<Rightarrow> nat result" where
  "count_metrics table f = bind_r (metric_clauses f) (\<lambda>p. Inr (length (filter p (dict_values table))))"

definition list_metric_import_page ::
  "metric_table \<Rightarrow> int \<Rightarrow> py_datetime option \<Rightarrow> uuid option \<Rightarrow> uuid list result" where
  "list_metric_import_page table limit after_available_at after_result_id =
     bind_r (validate_import_page limit after_available_at after_result_id) (\<lambda>_.
       Inr (keyset_page m_available_at m_result_id table limit (cursor_of after_available_at after_result_id)))"

subsection \<open>Selecting identities before hydration\<close>

text \<open>
  The store's functions a query uses: \<open>sq_cast\<close> is \<^verbatim>\<open>try_cast(... AS TIMESTAMPTZ)\<close> and
  \<open>sq_text\<close> the text of a JSON value that is neither a string nor null.
\<close>

record sql_functions =
  sq_cast :: "string \<Rightarrow> utc option"
  sq_text :: "json \<Rightarrow> string"

definition json_extract_string :: "sql_functions \<Rightarrow> json \<Rightarrow> string option" where
  "json_extract_string sql v =
     (case v of JStr s \<Rightarrow> Some s | JNull \<Rightarrow> None | _ \<Rightarrow> Some (sq_text sql v))"

definition is_digit :: "char \<Rightarrow> bool" where
  "is_digit c \<longleftrightarrow> CHR ''0'' \<le> c \<and> c \<le> CHR ''9''"

definition zone_suffix :: "string \<Rightarrow> bool" where
  \<comment> \<open>\<^verbatim>\<open>regexp_matches(s, '(Z|[+-][0-9]{2}:[0-9]{2})$')\<close>\<close>
  "zone_suffix s \<longleftrightarrow> (case rev s of
       CHR ''Z'' # _ \<Rightarrow> True
     | d # c # x # b # a # sign # _ \<Rightarrow>
         (sign = CHR ''+'' \<or> sign = CHR ''-'') \<and> is_digit a \<and> is_digit b \<and> x = CHR '':'' \<and> is_digit c \<and> is_digit d
     | _ \<Rightarrow> False)"

definition version_digit :: "uuid \<Rightarrow> nat" where
  \<comment> \<open>\<^verbatim>\<open>substr(result_id, 15, 1)\<close>, the first digit of the third group\<close>
  "version_digit u = unat (drop_bit 76 u AND 15)"

definition legacy_clause :: "sql_functions \<Rightarrow> (utc \<Rightarrow> bool) \<Rightarrow> metric_result \<Rightarrow> bool" where
  "legacy_clause sql p m \<longleftrightarrow>
     version_digit (m_result_id m) = 8 \<or>
     (let legacy = json_extract_string sql (param_get (m_parameters m) ''known_at'');
          cast = Option.bind legacy (sq_cast sql) in
      holds_for p cast \<or> \<not> zone_suffix (case legacy of None \<Rightarrow> [] | Some s \<Rightarrow> s))"

record metric_id_query =
  iq_asset_id :: "string option"
  iq_metric_keys :: "string list option"
  iq_available_to :: "py_datetime option"
  iq_as_of_from :: "py_datetime option"
  iq_as_of_before :: "py_datetime option"
  iq_parameter_equals :: "(string \<times> string) list"
  iq_parameter_date_range :: "(string \<times> string) option"
  iq_cut_known_at :: "py_datetime option"
  iq_legacy_known_at_to :: "py_datetime option"

definition aware :: "string \<Rightarrow> py_datetime option \<Rightarrow> utc option result" where
  \<comment> \<open>the check of every datetime argument; the value as an instant\<close>
  "aware name value =
     (case value of
        None \<Rightarrow> Inr None
      | Some (Naive w) \<Rightarrow> Inl (ValueError (name @ '' must be timezone-aware''))
      | Some (Aware w off) \<Rightarrow> Inr (Some (w - off)))"

definition validate_json_parameter_key :: "string \<Rightarrow> unit result" where
  "validate_json_parameter_key key =
     (if key \<noteq> [] \<and> filter (\<lambda>c. c \<noteq> CHR ''_'') key \<noteq> [] \<and>
          list_all (\<lambda>c. c = CHR ''_'' \<or> is_digit c \<or> CHR ''A'' \<le> c \<and> c \<le> CHR ''Z'' \<or> CHR ''a'' \<le> c \<and> c \<le> CHR ''z'') key
        then Inr () else Inl (ValueError ''metric parameter keys must be simple ASCII identifiers''))"

definition parameter_clause :: "sql_functions \<Rightarrow> string \<Rightarrow> (string \<Rightarrow> bool) \<Rightarrow> metric_result \<Rightarrow> bool" where
  \<comment> \<open>a comparison with NULL does not hold\<close>
  "parameter_clause sql name p m \<longleftrightarrow>
     (case json_extract_string sql (param_get (m_parameters m) name) of None \<Rightarrow> False | Some s \<Rightarrow> p s)"

definition list_metric_ids :: "sql_functions \<Rightarrow> metric_table \<Rightarrow> metric_id_query \<Rightarrow> uuid list result" where
  "list_metric_ids sql table q =
     (if iq_metric_keys q = Some [] then Inr []
      else
        bind_r (aware ''available_to'' (iq_available_to q)) (\<lambda>available_to.
        bind_r (aware ''as_of_from'' (iq_as_of_from q)) (\<lambda>as_of_from.
        bind_r (aware ''as_of_before'' (iq_as_of_before q)) (\<lambda>as_of_before.
        bind_r (traverse (\<lambda>(name, value). validate_json_parameter_key name) (sort (iq_parameter_equals q))) (\<lambda>_.
        bind_r (case iq_parameter_date_range q of
             Some (start, finish) \<Rightarrow>
               (if start > finish
                  then Inl (ValueError ''parameter date range start must not follow end'') else Inr ())
           | None \<Rightarrow> Inr ()) (\<lambda>_.
        bind_r (aware ''cut_known_at'' (iq_cut_known_at q)) (\<lambda>cut_known_at.
        bind_r (aware ''legacy_known_at_to'' (iq_legacy_known_at_to q)) (\<lambda>legacy_known_at_to.
          Inr (map m_result_id (sort_key (by_availability m_available_at m_result_id)
            (filter (\<lambda>m.
               holds_for (\<lambda>a. m_asset_id m = a) (iq_asset_id q) \<and>
               holds_for (\<lambda>ks. m_metric_key m \<in> set ks) (iq_metric_keys q) \<and>
               holds_for (\<lambda>t. m_available_at m \<le> t) available_to \<and>
               holds_for (\<lambda>t. t \<le> m_as_of m) as_of_from \<and>
               holds_for (\<lambda>t. m_as_of m < t) as_of_before \<and>
               list_all (\<lambda>(name, value). parameter_clause sql name (\<lambda>s. s = value) m) (iq_parameter_equals q) \<and>
               holds_for (\<lambda>(start, finish). parameter_clause sql ''valuation_date'' (\<lambda>s. start \<le> s \<and> s \<le> finish) m)
                 (iq_parameter_date_range q) \<and>
               holds_for (\<lambda>t. legacy_clause sql (\<lambda>v. v = t) m) cut_known_at \<and>
               holds_for (\<lambda>t. legacy_clause sql (\<lambda>v. v \<le> t) m) legacy_known_at_to)
             (dict_values table))))))))))))"

section \<open>Observations\<close>

type_synonym observation_table = "observation doc_table"

definition OBSERVATION_IMPORT_PAGE_LIMIT :: nat where "OBSERVATION_IMPORT_PAGE_LIMIT = 256"

definition save_observation ::
  "(observation \<Rightarrow> string) \<Rightarrow> observation_table \<Rightarrow> observation \<Rightarrow> (observation \<times> observation_table) result" where
  "save_observation doc table ob =
     bind_r (ensure_append_only doc table (o_observation_id ob) (doc ob)) (\<lambda>fresh.
       Inr (ob, if fresh then dict_set table (o_observation_id ob) ob else table))"

definition get_existing_observations :: "observation_table \<Rightarrow> uuid list \<Rightarrow> (uuid, observation) dict" where
  "get_existing_observations = get_existing_documents OBSERVATION_IMPORT_PAGE_LIMIT"

definition save_observations ::
  "(observation \<Rightarrow> string) \<Rightarrow> observation_table \<Rightarrow> observation list \<Rightarrow>
     (batch_write_receipt \<times> observation_table) result" where
  "save_observations doc = save_batch o_observation_id doc (get_existing_documents OBSERVATION_IMPORT_PAGE_LIMIT)"

datatype period_bound = PeriodDate date | PeriodTime py_datetime

definition normalize_period_bound :: "period_bound \<Rightarrow> bool \<Rightarrow> utc" where
  \<comment> \<open>a naive bound is read as UTC; a date as its first or its last full second\<close>
  "normalize_period_bound bound is_end_of_day =
     (case bound of
        PeriodTime (Aware w off) \<Rightarrow> w - off
      | PeriodTime (Naive w) \<Rightarrow> w
      | PeriodDate d \<Rightarrow> day_start d + (if is_end_of_day then day_us - second_us else 0))"

record observation_filter =
  oq_asset_id :: "string option"
  oq_source_id :: "string option"
  oq_field_name :: "string option"
  oq_field_names :: "string list option"
  oq_frequency :: "data_frequency option"
  oq_quality :: "data_quality option"
  oq_observed_from :: "utc option"
  oq_observed_before :: "utc option"
  oq_available_from :: "utc option"
  oq_available_to :: "utc option"
  oq_period_end_from :: "period_bound option"
  oq_period_end_to :: "period_bound option"

definition column :: "('v \<Rightarrow> bool) \<Rightarrow> 'v option \<Rightarrow> bool" where
  \<comment> \<open>a comparison with a column that may be NULL\<close>
  "column p x = (case x of None \<Rightarrow> False | Some v \<Rightarrow> p v)"

definition observation_clauses :: "observation_filter \<Rightarrow> observation \<Rightarrow> bool" where
  "observation_clauses f ob \<longleftrightarrow>
     holds_for (\<lambda>a. o_asset_id ob = a) (oq_asset_id f) \<and>
     holds_for (\<lambda>s. sr_source_id (o_source ob) = s) (oq_source_id f) \<and>
     holds_for (\<lambda>n. o_field_name ob = n) (oq_field_name f) \<and>
     holds_for (\<lambda>ns. o_field_name ob \<in> set ns) (oq_field_names f) \<and>
     holds_for (\<lambda>v. o_frequency ob = v) (oq_frequency f) \<and>
     holds_for (\<lambda>v. o_quality ob = v) (oq_quality f) \<and>
     holds_for (\<lambda>t. column (\<lambda>c. t \<le> c) (o_observed_at ob)) (oq_observed_from f) \<and>
     holds_for (\<lambda>t. column (\<lambda>c. c < t) (o_observed_at ob)) (oq_observed_before f) \<and>
     holds_for (\<lambda>t. t \<le> o_available_at ob) (oq_available_from f) \<and>
     holds_for (\<lambda>t. o_available_at ob \<le> t) (oq_available_to f) \<and>
     holds_for (\<lambda>b. column (\<lambda>c. normalize_period_bound b False \<le> c) (o_period_end ob)) (oq_period_end_from f) \<and>
     holds_for (\<lambda>b. column (\<lambda>c. c \<le> normalize_period_bound b True) (o_period_end ob)) (oq_period_end_to f)"

definition list_observations :: "observation_table \<Rightarrow> observation_filter \<Rightarrow> observation list" where
  "list_observations table f =
     sort_key (by_availability o_available_at o_observation_id) (filter (observation_clauses f) (dict_values table))"

definition count_observations :: "observation_table \<Rightarrow> observation_filter \<Rightarrow> nat" where
  "count_observations table f = length (filter (observation_clauses f) (dict_values table))"

definition observed_at_bounds :: "observation_table \<Rightarrow> observation_filter \<Rightarrow> utc option \<times> utc option" where
  \<comment> \<open>\<^verbatim>\<open>MIN\<close> and \<^verbatim>\<open>MAX\<close> ignore NULL\<close>
  "observed_at_bounds table f =
     (let times = List.map_filter o_observed_at (filter (observation_clauses f) (dict_values table)) in
      (py_min times, py_max times))"

definition field_name_of :: "observation_table \<Rightarrow> uuid \<Rightarrow> string option" where
  "field_name_of table observation_id = map_option o_field_name (dict_get table observation_id)"

record availability_filter =
  aq_asset_id :: "string option"
  aq_source_id :: "string option"
  aq_frequency :: "data_frequency option"
  aq_quality :: "data_quality option"
  aq_transformation_version :: "string option"

definition availability_clauses :: "availability_filter \<Rightarrow> observation \<Rightarrow> bool" where
  "availability_clauses f ob \<longleftrightarrow>
     holds_for (\<lambda>a. o_asset_id ob = a) (aq_asset_id f) \<and>
     holds_for (\<lambda>v. o_frequency ob = v) (aq_frequency f) \<and>
     holds_for (\<lambda>v. o_quality ob = v) (aq_quality f) \<and>
     holds_for (\<lambda>s. sr_source_id (o_source ob) = s) (aq_source_id f) \<and>
     holds_for (\<lambda>v. o_transformation_version ob = v) (aq_transformation_version f)"

definition minimum_available_at :: "observation_table \<Rightarrow> availability_filter \<Rightarrow> utc option" where
  "minimum_available_at table f =
     py_min (map o_available_at (filter (availability_clauses f) (dict_values table)))"

definition maximum_available_at ::
  "observation_table \<Rightarrow> availability_filter \<Rightarrow> py_datetime option \<Rightarrow> py_datetime option \<Rightarrow> py_datetime option \<Rightarrow>
     utc option result" where
  "maximum_available_at table f observed_from observed_before available_to =
     bind_r (aware ''observed_from'' observed_from) (\<lambda>observed_from.
     bind_r (aware ''observed_before'' observed_before) (\<lambda>observed_before.
     bind_r (aware ''available_to'' available_to) (\<lambda>available_to.
       Inr (py_max (map o_available_at (filter (\<lambda>ob. availability_clauses f ob \<and>
              holds_for (\<lambda>t. column (\<lambda>c. t \<le> c) (o_observed_at ob)) observed_from \<and>
              holds_for (\<lambda>t. column (\<lambda>c. c < t) (o_observed_at ob)) observed_before \<and>
              holds_for (\<lambda>t. o_available_at ob \<le> t) available_to) (dict_values table)))))))"

definition list_observation_import_page ::
  "observation_table \<Rightarrow> int \<Rightarrow> py_datetime option \<Rightarrow> uuid option \<Rightarrow> uuid list result" where
  "list_observation_import_page table limit after_available_at after_observation_id =
     (if limit < 1 \<or> limit > int OBSERVATION_IMPORT_PAGE_LIMIT
        then Inl (StorageError ''observation import page limit must be between 1 and 256'')
      else if (after_available_at = None) \<noteq> (after_observation_id = None)
        then Inl (StorageError ''observation import cursor requires both fields together'')
      else (case after_available_at of
              Some (Naive w) \<Rightarrow> Inl (StorageError ''observation import cursor available_at must be timezone-aware'')
            | _ \<Rightarrow> Inr (keyset_page o_available_at o_observation_id table limit
                     (cursor_of after_available_at after_observation_id))))"

section \<open>Diagnostics\<close>

type_synonym diagnostic_table = "diagnostic_result doc_table"

definition save_diagnostic ::
  "(diagnostic_result \<Rightarrow> string) \<Rightarrow> diagnostic_table \<Rightarrow> diagnostic_result \<Rightarrow>
     (diagnostic_result \<times> diagnostic_table) result" where
  "save_diagnostic doc table d =
     bind_r (ensure_append_only doc table (d_diagnostic_id d) (doc d)) (\<lambda>fresh.
       Inr (d, if fresh then dict_set table (d_diagnostic_id d) d else table))"

definition save_diagnostics ::
  "(diagnostic_result \<Rightarrow> string) \<Rightarrow> diagnostic_table \<Rightarrow> diagnostic_result list \<Rightarrow>
     (batch_write_receipt \<times> diagnostic_table) result" where
  "save_diagnostics doc = save_batch d_diagnostic_id doc rows_in"

record diagnostic_filter =
  dq_asset_id :: "string option"
  dq_mode :: "diagnostic_mode option"
  dq_as_of_from :: "utc option"
  dq_as_of_to :: "utc option"

definition diagnostic_clauses :: "diagnostic_filter \<Rightarrow> diagnostic_result \<Rightarrow> bool" where
  "diagnostic_clauses f d \<longleftrightarrow>
     holds_for (\<lambda>a. d_asset_id d = a) (dq_asset_id f) \<and>
     holds_for (\<lambda>v. d_mode d = v) (dq_mode f) \<and>
     holds_for (\<lambda>t. t \<le> d_as_of d) (dq_as_of_from f) \<and>
     holds_for (\<lambda>t. d_as_of d \<le> t) (dq_as_of_to f)"

definition list_diagnostics :: "diagnostic_table \<Rightarrow> diagnostic_filter \<Rightarrow> diagnostic_result list" where
  "list_diagnostics table f =
     sort_key (\<lambda>d. (d_as_of d, d_diagnostic_id d)) (filter (diagnostic_clauses f) (dict_values table))"

definition count_diagnostics :: "diagnostic_table \<Rightarrow> diagnostic_filter \<Rightarrow> nat" where
  "count_diagnostics table f = length (filter (diagnostic_clauses f) (dict_values table))"

definition list_diagnostic_import_page ::
  "diagnostic_table \<Rightarrow> int \<Rightarrow> py_datetime option \<Rightarrow> uuid option \<Rightarrow> uuid list result" where
  "list_diagnostic_import_page table limit after_available_at after_diagnostic_id =
     bind_r (validate_import_page limit after_available_at after_diagnostic_id) (\<lambda>_.
       Inr (keyset_page d_available_at d_diagnostic_id table limit (cursor_of after_available_at after_diagnostic_id)))"

section \<open>The import pages are paged sources\<close>

text \<open>A page after an optional cursor, as the importers ask for it.\<close>

definition with_cursor :: "('s \<Rightarrow> int \<Rightarrow> py_datetime option \<Rightarrow> uuid option \<Rightarrow> uuid list result) \<Rightarrow>
    's \<Rightarrow> int \<Rightarrow> (utc \<times> uuid) option \<Rightarrow> uuid list result" where
  "with_cursor page s limit cursor = page s limit (map_option (\<lambda>(t, i). Aware t 0) cursor) (map_option snd cursor)"

lemma cursor_of_map [simp]: "cursor_of (map_option (\<lambda>(t, i). Aware t 0) cursor) (map_option snd cursor) = cursor"
  by (cases cursor) (auto simp: cursor_of_def)

lemma validate_import_page_ok:
  "1 \<le> limit \<Longrightarrow> limit \<le> ANALYTICAL_IMPORT_PAGE_LIMIT \<Longrightarrow>
    validate_import_page limit (map_option (\<lambda>(t, i). Aware t 0) cursor) (map_option snd cursor) = Inr ()"
  by (cases cursor) auto

interpretation metric_pages: paged_source "table_ok m_result_id" "in_order m_available_at m_result_id"
  "with_cursor list_metric_import_page" get_many_documents m_result_id m_available_at
  by unfold_locales
     (simp_all add: distinct_in_order with_cursor_def list_metric_import_page_def validate_import_page_ok
        keyset_page_next get_many_finds del: validate_import_page.simps)

interpretation diagnostic_pages: paged_source "table_ok d_diagnostic_id" "in_order d_available_at d_diagnostic_id"
  "with_cursor list_diagnostic_import_page" get_many_documents d_diagnostic_id d_available_at
  by unfold_locales
     (simp_all add: distinct_in_order with_cursor_def list_diagnostic_import_page_def validate_import_page_ok
        keyset_page_next get_many_finds del: validate_import_page.simps)

lemma observation_page:
  "1 \<le> limit \<Longrightarrow> limit \<le> ANALYTICAL_IMPORT_PAGE_LIMIT \<Longrightarrow>
    list_observation_import_page table limit (map_option (\<lambda>(t, i). Aware t 0) cursor) (map_option snd cursor) =
      Inr (keyset_page o_available_at o_observation_id table limit cursor)"
  by (cases cursor) (auto simp: list_observation_import_page_def ANALYTICAL_IMPORT_PAGE_LIMIT_def
    OBSERVATION_IMPORT_PAGE_LIMIT_def cursor_of_def)

interpretation observation_pages: paged_source "table_ok o_observation_id" "in_order o_available_at o_observation_id"
  "with_cursor list_observation_import_page" get_many_documents o_observation_id o_available_at
  by unfold_locales
     (simp_all add: distinct_in_order with_cursor_def observation_page keyset_page_next get_many_finds)

end
