(* ===== verification/RepositoryProperties.thy ===== *)
theory RepositoryProperties
  imports Repositories
begin

text \<open>
  Properties of the repositories: saving is append-only and idempotent in all three tables, and
  the selection of identities at a cut never hides a row the cut may read.
\<close>

section \<open>Append-only batches\<close>

text \<open>
  The contract of \<^verbatim>\<open>save_many\<close>: it returns exactly when no identity has two different
  documents, in the batch or in the batch and the table; the rows of the table stay where they
  are, one row is appended for each new identity, in the order of the receipt; and saving the
  batch again creates nothing and leaves the table as it is.
\<close>

definition append_only_save ::
  "('r \<Rightarrow> uuid) \<Rightarrow> ('r \<Rightarrow> string) \<Rightarrow>
     ('r doc_table \<Rightarrow> 'r list \<Rightarrow> (batch_write_receipt \<times> 'r doc_table) result) \<Rightarrow> bool" where
  "append_only_save key doc save_many \<longleftrightarrow>
     (\<forall>table ms. table_ok key table \<longrightarrow>
       ((\<exists>receipt table'. save_many table ms = Inr (receipt, table')) \<longleftrightarrow> batch_fits key doc table ms) \<and>
       (\<forall>receipt table'. save_many table ms = Inr (receipt, table') \<longrightarrow>
         (\<exists>new. table' = table @ map (\<lambda>m. (key m, m)) new \<and> bw_created receipt = map key new \<and> set new \<subseteq> set ms) \<and>
         table_ok key table' \<and> set (dict_keys table') = set (dict_keys table) \<union> key ` set ms \<and>
         (\<exists>again. save_many table' ms = Inr (again, table') \<and> bw_created again = [])))"

context batch_lookup
begin

lemma append_only_contract: "append_only_save key doc (save_batch key doc lookup)"
  unfolding append_only_save_def using append_only by blast

end

text \<open>
  Property C16. Saving a batch of metrics, observations or diagnostics is
  append-only and idempotent: it returns exactly when no identity would get two different
  documents, keeps every stored row in place, appends exactly the new identities in the order
  of the receipt's created ones, and a second save of the batch changes nothing.
\<close>
theorem saving_is_append_only:
  "append_only_save m_result_id metric_doc (save_metrics metric_doc) \<and>
   append_only_save o_observation_id observation_doc (save_observations observation_doc) \<and>
   append_only_save d_diagnostic_id diagnostic_doc (save_diagnostics diagnostic_doc)"
  unfolding save_metrics_def save_observations_def save_diagnostics_def OBSERVATION_IMPORT_PAGE_LIMIT_def
  by (intro conjI one_query.append_only_contract sliced_query.append_only_contract)

section \<open>Selecting before hydration\<close>

text \<open>
  The hypothesis on the store's \<^verbatim>\<open>try_cast\<close>: where Python reads a text that ends in a
  time zone as an instant, the store reads the same instant, or nothing.
\<close>

definition casts_agree :: "iso_parser \<Rightarrow> sql_functions \<Rightarrow> bool" where
  "casts_agree parse sql \<longleftrightarrow>
     (\<forall>s w off t. parse (normalize_zulu s) = Some (Aware w off) \<longrightarrow> zone_suffix s \<longrightarrow>
        sq_cast sql s = Some t \<longrightarrow> t = w - off)"

lemma version_8_digit: "uuid_version u = Some 8 \<Longrightarrow> version_digit u = 8"
  by (auto simp: uuid_version_def version_digit_def split: if_splits)

lemma legacy_clause_eligible:
  assumes "casts_agree parse sql"
    and "metric_cut_eligibility parse m (Aware w off) = Inr el" and "ce_eligible el" and "p (w - off)"
  shows "legacy_clause sql p m"
proof (cases "resolve_cut_identity_version m")
  case CutV2
  then show ?thesis
    by (auto simp: resolve_cut_identity_version_def legacy_clause_def version_8_digit split: if_splits)
next
  case CutV1
  let ?v = "param_get (m_parameters m) ''known_at''"
  from CutV1 assms(2,3) have probe: "lp_value (probe_legacy_known_at parse m) = Some (w - off)"
    using eligibility_v1 [OF CutV1, of parse w off] by auto
  show ?thesis
  proof (cases "?v")
    case (JStr s)
    with probe obtain w' off' where parsed: "parse (normalize_zulu s) = Some (Aware w' off')" "w' - off' = w - off"
      by (auto simp: probe_legacy_known_at_def split: option.splits py_datetime.splits)
    show ?thesis
    proof (cases "zone_suffix s \<and> sq_cast sql s \<noteq> None")
      case True
      then obtain t where t: "sq_cast sql s = Some t" by auto
      with True parsed assms(1) have "t = w - off" unfolding casts_agree_def by auto
      with t JStr assms(4) show ?thesis
        by (simp add: legacy_clause_def json_extract_string_def holds_for_def Let_def)
    next
      case False
      with JStr show ?thesis by (auto simp: legacy_clause_def json_extract_string_def holds_for_def Let_def)
    qed
  qed (use probe in \<open>simp_all add: probe_legacy_known_at_def\<close>)
qed

definition cut_query :: "string \<Rightarrow> string list \<Rightarrow> utc \<Rightarrow> utc \<Rightarrow> py_datetime \<Rightarrow> metric_id_query" where
  \<comment> \<open>the query of \<^verbatim>\<open>MarketDiagnosticMetricSelector.candidates\<close>\<close>
  "cut_query asset_id metric_keys start finish known_at =
     \<lparr>iq_asset_id = Some asset_id, iq_metric_keys = Some metric_keys, iq_available_to = Some known_at,
      iq_as_of_from = Some (Aware start 0), iq_as_of_before = Some (Aware finish 0), iq_parameter_equals = [],
      iq_parameter_date_range = None, iq_cut_known_at = Some known_at, iq_legacy_known_at_to = None\<rparr>"

text \<open>
  Property C31. Selecting identities at a cut before hydration never hides a row: every stored
  row of the asset, metric keys and periods that was available by the cut and that the
  point-in-time rule makes eligible at it, of either identity version, is selected; the selection
  fails for no aware cut, lists no identity twice, and lists only rows available by the cut.
\<close>
theorem preselection_hides_nothing:
  assumes "casts_agree parse sql" and "table_ok m_result_id table"
  shows "\<exists>ids. list_metric_ids sql table (cut_query asset_id metric_keys start finish (Aware w off)) = Inr ids \<and>
    distinct ids \<and> (\<forall>i \<in> set ids. \<exists>m. dict_get table i = Some m \<and> m_available_at m \<le> w - off) \<and>
    (\<forall>m \<in> set (dict_values table). m_asset_id m = asset_id \<longrightarrow> m_metric_key m \<in> set metric_keys \<longrightarrow>
       start \<le> m_as_of m \<longrightarrow> m_as_of m < finish \<longrightarrow> m_available_at m \<le> w - off \<longrightarrow>
       (\<exists>el. metric_cut_eligibility parse m (Aware w off) = Inr el \<and> ce_eligible el) \<longrightarrow> m_result_id m \<in> set ids)"
proof (cases "metric_keys = []")
  case True
  then show ?thesis by (simp add: list_metric_ids_def cut_query_def)
next
  case False
  let ?p = "\<lambda>m. m_asset_id m = asset_id \<and> m_metric_key m \<in> set metric_keys \<and>
    m_available_at m \<le> w - off \<and> start \<le> m_as_of m \<and> m_as_of m < finish \<and> legacy_clause sql (\<lambda>v. v = w - off) m"
  let ?rows = "sort_key (by_availability m_available_at m_result_id) (filter ?p (dict_values table))"
  have ids: "list_metric_ids sql table (cut_query asset_id metric_keys start finish (Aware w off)) =
      Inr (map m_result_id ?rows)"
    using False by (simp add: list_metric_ids_def cut_query_def aware_def holds_for_def)
  have "distinct (map m_result_id (dict_values table))"
    using assms(2) table_ids [OF assms(2)] by (simp add: table_ok_def dict_ok_def dict_keys_def)
  then have "distinct (map m_result_id ?rows)" by (simp add: distinct_map_filter)
  moreover have "\<exists>m. dict_get table i = Some m \<and> m_available_at m \<le> w - off" if "i \<in> set (map m_result_id ?rows)" for i
    using that stored_row [OF assms(2)] by auto
  moreover have "m_result_id m \<in> set (map m_result_id ?rows)"
    if "m \<in> set (dict_values table)" "m_asset_id m = asset_id" "m_metric_key m \<in> set metric_keys"
      "start \<le> m_as_of m" "m_as_of m < finish" "m_available_at m \<le> w - off"
      "metric_cut_eligibility parse m (Aware w off) = Inr el" "ce_eligible el" for m el
    using that legacy_clause_eligible [OF assms(1) that(7,8), of "\<lambda>v. v = w - off"] by auto
  ultimately show ?thesis using ids by blast
qed

definition sample_table :: metric_table where
  "sample_table = [(7, witness_v2_metric\<lparr>m_result_id := 7\<rparr>), (5, witness_v2_metric\<lparr>m_result_id := 5\<rparr>)]"

lemma sample_table_ok: "table_ok m_result_id sample_table"
  by (simp add: table_ok_def sample_table_def dict_ok_def dict_get_def)

definition sample_v1 :: metric_result where
  "sample_v1 = witness_v2_metric\<lparr>m_result_id := 5, m_parameters := [(''known_at'', JStr ''t+00:00'')]\<rparr>"

definition sample_sql :: sql_functions where
  "sample_sql = \<lparr>sq_cast = (\<lambda>s. Some 130), sq_text = (\<lambda>v. [])\<rparr>"

theorem preselection_hides_nothing_witness:
  "\<exists>ids. list_metric_ids sample_sql [(5, sample_v1)] (cut_query ''equity:us:aapl'' [''market.technical.rsi''] 90 101 (Aware 130 0)) = Inr ids \<and> 5 \<in> set ids"
proof -
  have agree: "casts_agree (\<lambda>s. Some (Aware 130 0)) sample_sql" by (simp add: casts_agree_def sample_sql_def)
  have ok: "table_ok m_result_id [(5, sample_v1)]"
    by (simp add: table_ok_def dict_ok_def dict_get_def sample_v1_def)
  have "\<exists>el. metric_cut_eligibility (\<lambda>s. Some (Aware 130 0)) sample_v1 (Aware 130 0) = Inr el \<and> ce_eligible el"
    by (simp add: metric_cut_eligibility_def resolve_cut_identity_version_def uuid_version_def sample_v1_def
        probe_legacy_known_at_def param_get_def dict_get_def)
  then show ?thesis
    using preselection_hides_nothing [OF agree ok, of "''equity:us:aapl''" "[''market.technical.rsi'']" 90 101 130 0]
    by (auto simp: dict_values_def holds_for_def sample_v1_def witness_v2_metric_def)
qed

end
