(* ===== verification/Loops.thy ===== *)
theory Loops
  imports Prelude
begin

text \<open>
  \<^verbatim>\<open>while True\<close> loops that read and write a world: one iteration either raises, leaves the loop
  (\<open>None\<close>) or goes on with the next values of its local variables. A loop that never leaves is
  \<open>None\<close>. Programs of such loops are actions: not returning, or an exception or a value together
  with the world it leaves behind.
\<close>

type_synonym ('s, 'w) iteration = "'s \<Rightarrow> 'w \<Rightarrow> 's option result \<times> 'w"

partial_function (option) run_loop :: "('s, 'w) iteration \<Rightarrow> 's \<Rightarrow> 'w \<Rightarrow> ('s result \<times> 'w) option" where
  "run_loop step s w =
     (case step s w of
        (Inl e, w') \<Rightarrow> Some (Inl e, w')
      | (Inr None, w') \<Rightarrow> Some (Inr s, w')
      | (Inr (Some s'), w') \<Rightarrow> run_loop step s' w')"

definition read_loop :: "('s \<Rightarrow> 's option result) \<Rightarrow> 's \<Rightarrow> 's result option" where
  \<comment> \<open>a loop that changes nothing but its local variables\<close>
  "read_loop step s = map_option fst (run_loop (\<lambda>s w. (step s, w)) s ())"

lemma run_loop_stops: "step s w = (Inr None, w') \<Longrightarrow> run_loop step s w = Some (Inr s, w')"
  by (subst run_loop.simps) simp

lemma run_loop_raises: "step s w = (Inl e, w') \<Longrightarrow> run_loop step s w = Some (Inl e, w')"
  by (subst run_loop.simps) simp

lemma run_loop_goes_on: "step s w = (Inr (Some s'), w') \<Longrightarrow> run_loop step s w = run_loop step s' w'"
  by (subst run_loop.simps) simp

lemma read_loop_simps:
  "step s = Inr None \<Longrightarrow> read_loop step s = Some (Inr s)"
  "step s = Inl e \<Longrightarrow> read_loop step s = Some (Inl e)"
  "step s = Inr (Some s') \<Longrightarrow> read_loop step s = read_loop step s'"
  by (simp_all add: read_loop_def run_loop_stops run_loop_raises run_loop_goes_on)

section \<open>Actions\<close>

type_synonym ('a, 'w) command = "'w \<Rightarrow> 'a result \<times> 'w"
type_synonym ('a, 'w) action = "'w \<Rightarrow> ('a result \<times> 'w) option"

definition bind_c :: "('a, 'w) command \<Rightarrow> ('a \<Rightarrow> ('b, 'w) command) \<Rightarrow> ('b, 'w) command" where
  "bind_c c f w = (case c w of (Inl e, w') \<Rightarrow> (Inl e, w') | (Inr x, w') \<Rightarrow> f x w')"

definition bind_a :: "('a, 'w) action \<Rightarrow> ('a \<Rightarrow> ('b, 'w) action) \<Rightarrow> ('b, 'w) action" where
  "bind_a a f w =
     (case a w of
        None \<Rightarrow> None
      | Some (Inl e, w') \<Rightarrow> Some (Inl e, w')
      | Some (Inr x, w') \<Rightarrow> f x w')"

definition pure_c :: "'a result \<Rightarrow> ('a, 'w) command" where
  "pure_c r w = (r, w)"

definition run_c :: "('a, 'w) command \<Rightarrow> ('a, 'w) action" where
  "run_c c w = Some (c w)"

definition pure_a :: "'a result \<Rightarrow> ('a, 'w) action" where
  "pure_a r w = Some (r, w)"

definition read_a :: "'a result option \<Rightarrow> ('a, 'w) action" where
  "read_a r w = map_option (\<lambda>r. (r, w)) r"

lemma bind_c_eq: "c w = (Inr x, w') \<Longrightarrow> bind_c c f w = f x w'" "c w = (Inl e, w') \<Longrightarrow> bind_c c f w = (Inl e, w')"
  by (simp_all add: bind_c_def)

lemma bind_a_eq:
  "a w = Some (Inr x, w') \<Longrightarrow> bind_a a f w = f x w'" "a w = Some (Inl e, w') \<Longrightarrow> bind_a a f w = Some (Inl e, w')"
  by (simp_all add: bind_a_def)

lemma bind_pure [simp]:
  "bind_c (pure_c (Inr x)) f w = f x w" "bind_c (pure_c (Inl e)) f w = (Inl e, w)"
  "bind_a (pure_a (Inr x)) g w = g x w" "bind_a (pure_a (Inl e)) g w = Some (Inl e, w)"
  "bind_a (read_a (Some (Inr x))) g w = g x w" "bind_a (read_a (Some (Inl e))) g w = Some (Inl e, w)"
  by (simp_all add: bind_c_def bind_a_def pure_c_def pure_a_def read_a_def)

section \<open>Total correctness\<close>

text \<open>
  \<open>hoare P c R E\<close>: from a world with \<open>P\<close>, the command returns \<open>x\<close> in a world with \<open>R x\<close>, or raises
  \<open>e\<close> in one with \<open>E e\<close>. For an action, \<open>achieves P a R E\<close> says in addition that it returns.
\<close>

definition hoare :: "('w \<Rightarrow> bool) \<Rightarrow> ('a, 'w) command \<Rightarrow> ('a \<Rightarrow> 'w \<Rightarrow> bool) \<Rightarrow> (py_error \<Rightarrow> 'w \<Rightarrow> bool) \<Rightarrow> bool" where
  "hoare P c R E \<longleftrightarrow> (\<forall>w. P w \<longrightarrow> (case c w of (Inl e, w') \<Rightarrow> E e w' | (Inr x, w') \<Rightarrow> R x w'))"

definition achieves :: "('w \<Rightarrow> bool) \<Rightarrow> ('a, 'w) action \<Rightarrow> ('a \<Rightarrow> 'w \<Rightarrow> bool) \<Rightarrow> (py_error \<Rightarrow> 'w \<Rightarrow> bool) \<Rightarrow> bool" where
  "achieves P a R E \<longleftrightarrow>
     (\<forall>w. P w \<longrightarrow> (\<exists>r w'. a w = Some (r, w') \<and> (case r of Inl e \<Rightarrow> E e w' | Inr x \<Rightarrow> R x w')))"

lemma hoareI: "(\<And>w. P w \<Longrightarrow> case c w of (Inl e, w') \<Rightarrow> E e w' | (Inr x, w') \<Rightarrow> R x w') \<Longrightarrow> hoare P c R E"
  by (simp add: hoare_def)

lemma hoareE: "hoare P c R E \<Longrightarrow> P w \<Longrightarrow> case c w of (Inl e, w') \<Rightarrow> E e w' | (Inr x, w') \<Rightarrow> R x w'"
  by (simp add: hoare_def)

lemma hoareD: "hoare P c R E \<Longrightarrow> P w \<Longrightarrow> c w = (r, w') \<Longrightarrow> case r of Inl e \<Rightarrow> E e w' | Inr x \<Rightarrow> R x w'"
  unfolding hoare_def by (metis (no_types, lifting) split_conv)

lemma hoare_bind:
  assumes "hoare P c S E" and "\<And>x. hoare (S x) (f x) R E"
  shows "hoare P (bind_c c f) R E"
proof (rule hoareI)
  fix w assume "P w"
  obtain r w' where c: "c w = (r, w')" by force
  show "case bind_c c f w of (Inl e, w') \<Rightarrow> E e w' | (Inr x, w') \<Rightarrow> R x w'"
  proof (cases r)
    case (Inl e)
    with hoareD [OF assms(1) \<open>P w\<close> c] c show ?thesis by (simp add: bind_c_def)
  next
    case (Inr x)
    with hoareD [OF assms(1) \<open>P w\<close> c] have "S x w'" by simp
    obtain r2 w2 where f: "f x w' = (r2, w2)" by force
    from hoareD [OF assms(2) \<open>S x w'\<close> f] show ?thesis using Inr c f by (simp add: bind_c_def split: sum.splits)
  qed
qed

lemma hoare_pure: "(\<And>w. P w \<Longrightarrow> R x w) \<Longrightarrow> hoare P (pure_c (Inr x)) R E"
  by (simp add: hoare_def pure_c_def)

lemma hoare_ex: "(\<And>x. hoare (P x) c R E) \<Longrightarrow> hoare (\<lambda>w. \<exists>x. P x w) c R E"
  unfolding hoare_def by (intro allI impI, elim exE) metis

lemma hoare_split: "(\<And>a b. hoare P (f a b) R E) \<Longrightarrow> hoare P (case x of (a, b) \<Rightarrow> f a b) R E"
  by (cases x) simp

lemma hoare_assume: "(A \<Longrightarrow> hoare P c R E) \<Longrightarrow> hoare (\<lambda>w. P w \<and> A) c R E"
  by (auto simp: hoare_def)

lemma hoare_bind_pure: "hoare P (f x) R E \<Longrightarrow> hoare P (bind_c (pure_c (Inr x)) f) R E"
  by (simp add: hoare_def)

lemma hoare_conseq: "hoare P' c R' E' \<Longrightarrow> (\<And>w. P w \<Longrightarrow> P' w) \<Longrightarrow> (\<And>x w. R' x w \<Longrightarrow> R x w) \<Longrightarrow>
    (\<And>e w. E' e w \<Longrightarrow> E e w) \<Longrightarrow> hoare P c R E"
proof (rule hoareI)
  fix w
  assume h: "hoare P' c R' E'" "\<And>w. P w \<Longrightarrow> P' w" "\<And>x w. R' x w \<Longrightarrow> R x w" "\<And>e w. E' e w \<Longrightarrow> E e w" and "P w"
  obtain r w' where c: "c w = (r, w')" by force
  from hoareD [OF h(1) h(2) [OF \<open>P w\<close>] c] h(3,4) c
  show "case c w of (Inl e, w') \<Rightarrow> E e w' | (Inr x, w') \<Rightarrow> R x w'" by (simp split: sum.splits)
qed

lemma achieves_bind:
  assumes "achieves P a S E" and "\<And>x. achieves (S x) (f x) R E"
  shows "achieves P (bind_a a f) R E"
proof -
  have "\<exists>r w'. bind_a a f w = Some (r, w') \<and> (case r of Inl e \<Rightarrow> E e w' | Inr x \<Rightarrow> R x w')" if "P w" for w
  proof -
    from assms(1) that obtain r w' where a: "a w = Some (r, w')" "case r of Inl e \<Rightarrow> E e w' | Inr x \<Rightarrow> S x w'"
      unfolding achieves_def by blast
    with assms(2) show ?thesis by (cases r) (auto simp: bind_a_eq achieves_def)
  qed
  then show ?thesis by (simp add: achieves_def)
qed

lemma achieves_run: "hoare P c R E \<Longrightarrow> achieves P (run_c c) R E"
proof -
  assume "hoare P c R E"
  then have "\<exists>r w'. Some (c w) = Some (r, w') \<and> (case r of Inl e \<Rightarrow> E e w' | Inr x \<Rightarrow> R x w')" if "P w" for w
    using that by (cases "c w") (auto simp: hoare_def)
  then show ?thesis by (simp add: achieves_def run_c_def)
qed

lemma achieves_pure: "(\<And>w. P w \<Longrightarrow> R x w) \<Longrightarrow> achieves P (pure_a (Inr x)) R E"
  by (simp add: achieves_def pure_a_def)

lemma achieves_bind_pure: "achieves P (f x) R E \<Longrightarrow> achieves P (bind_a (pure_a (Inr x)) f) R E"
  by (simp add: achieves_def)

lemma achieves_bind_read: "r = Some (Inr x) \<Longrightarrow> achieves P (f x) R E \<Longrightarrow> achieves P (bind_a (read_a r) f) R E"
  by (simp add: achieves_def)

lemma achieves_ex: "(\<And>x. achieves (P x) a R E) \<Longrightarrow> achieves (\<lambda>w. \<exists>x. P x w) a R E"
  unfolding achieves_def by blast

lemma achieves_assume: "(A \<Longrightarrow> achieves P a R E) \<Longrightarrow> achieves (\<lambda>w. P w \<and> A) a R E"
  by (auto simp: achieves_def)

lemma achieves_split: "(\<And>x y. z = (x, y) \<Longrightarrow> achieves P (f x y) R E) \<Longrightarrow> achieves P (case z of (x, y) \<Rightarrow> f x y) R E"
  by (cases z) simp

lemma achieves_conseq:
  assumes "achieves P' a R' E'" and "\<And>w. P w \<Longrightarrow> P' w" and "\<And>x w. R' x w \<Longrightarrow> R x w" and "\<And>e w. E' e w \<Longrightarrow> E e w"
  shows "achieves P a R E"
proof -
  have "\<exists>r w'. a w = Some (r, w') \<and> (case r of Inl e \<Rightarrow> E e w' | Inr x \<Rightarrow> R x w')" if "P w" for w
  proof -
    from assms(1,2) that obtain r w' where "a w = Some (r, w')" "case r of Inl e \<Rightarrow> E' e w' | Inr x \<Rightarrow> R' x w'"
      unfolding achieves_def by blast
    with assms(3,4) show ?thesis by (cases r) auto
  qed
  then show ?thesis by (simp add: achieves_def)
qed

text \<open>A loop whose iterations keep an invariant and decrease a measure returns.\<close>

lemma achieves_loop:
  assumes "\<And>s. hoare (I s) (step s) (\<lambda>r w. case r of None \<Rightarrow> R s w | Some s' \<Rightarrow> I s' w \<and> m s' < (m s :: nat)) E"
  shows "achieves (I s) (run_loop step s) R E"
proof -
  have "\<exists>r w'. run_loop step s w = Some (r, w') \<and> (case r of Inl e \<Rightarrow> E e w' | Inr x \<Rightarrow> R x w')" if "I s w" for s w
    using that
  proof (induction "m s" arbitrary: s w rule: less_induct)
    case less
    obtain r w' where step: "step s w = (r, w')" by force
    with assms [of s] less.prems have post: "case r of Inl e \<Rightarrow> E e w' | Inr x \<Rightarrow>
        (case x of None \<Rightarrow> R s w' | Some s' \<Rightarrow> I s' w' \<and> m s' < m s)"
      by (fastforce simp: hoare_def split: sum.splits)
    show ?case
    proof (cases r)
      case (Inl e)
      with step post show ?thesis by (auto simp: run_loop_raises)
    next
      case (Inr x)
      with step post less.hyps show ?thesis
        by (cases x) (auto simp: run_loop_stops run_loop_goes_on)
    qed
  qed
  then show ?thesis by (simp add: achieves_def)
qed

end
