(* ===== verification/ChildTables.thy ===== *)
theory ChildTables
  imports DocumentTable
begin

text \<open>
  Child rows of the historical archive: tables whose primary key is a parent and a position. They
  are read for up to 253 parents at a time in pages of 256 rows after a cursor, and grouped by
  parent. A table that holds one block of consecutive positions per parent is read back as exactly
  these blocks.
\<close>

section \<open>Reading in pages\<close>

definition ARCHIVE_BATCH :: nat where "ARCHIVE_BATCH = 256"

definition beyond :: "'k::linorder option \<Rightarrow> 'k \<Rightarrow> bool" where
  "beyond cursor k = (case cursor of None \<Rightarrow> True | Some c \<Rightarrow> c < k)"

text \<open>
  \<^verbatim>\<open>while True\<close>: the next rows of \<^verbatim>\<open>SELECT ... WHERE key > cursor ORDER BY key LIMIT n\<close>, until a
  page is empty.
\<close>

function keyset_scan :: "nat \<Rightarrow> ('k::linorder \<times> 'v) list \<Rightarrow> 'k option \<Rightarrow> ('k \<times> 'v) list" where
  "keyset_scan limit rows cursor =
     (let page = take limit (sort_key fst (filter (\<lambda>row. beyond cursor (fst row)) rows)) in
      if page = [] then [] else page @ keyset_scan limit rows (Some (fst (last page))))"
  by pat_completeness auto
termination
proof (relation "measure (\<lambda>(limit, rows, cursor). length (filter (\<lambda>row. beyond cursor (fst row)) rows))", simp)
  fix limit and rows :: "('k::linorder \<times> 'v) list" and cursor :: "'k option" and page
  assume page: "page = take limit (sort_key fst (filter (\<lambda>row. beyond cursor (fst row)) rows))" and "page \<noteq> []"
  then have "last page \<in> set page" by simp
  then have row: "last page \<in> set rows" "beyond cursor (fst (last page))"
    unfolding page by (auto dest: in_set_takeD)
  have le: "beyond (Some (fst (last page))) k \<Longrightarrow> beyond cursor k" for k
    using row(2) by (auto simp: beyond_def split: option.splits)
  have "filter (\<lambda>row. beyond (Some (fst (last page))) (fst row)) rows =
      filter (\<lambda>row. beyond (Some (fst (last page))) (fst row)) (filter (\<lambda>row. beyond cursor (fst row)) rows)"
    by (auto intro: filter_cong simp: le)
  moreover have "length (filter (\<lambda>row. beyond (Some (fst (last page))) (fst row)) (filter (\<lambda>row. beyond cursor (fst row)) rows))
      < length (filter (\<lambda>row. beyond cursor (fst row)) rows)"
    by (rule length_filter_less [of "last page"]) (use row in \<open>auto simp: beyond_def\<close>)
  ultimately show "((limit, rows, Some (fst (last page))), limit, rows, cursor) \<in>
      measure (\<lambda>(limit, rows, cursor). length (filter (\<lambda>row. beyond cursor (fst row)) rows))" by simp
qed

declare keyset_scan.simps [simp del]

definition paged_children :: "(('k::linorder \<times> nat) \<times> 'v) list \<Rightarrow> 'k list \<Rightarrow> (('k \<times> nat) \<times> 'v) list" where
  "paged_children rows parents =
     concat (map (\<lambda>chunk. keyset_scan ARCHIVE_BATCH (filter (\<lambda>row. fst (fst row) \<in> set chunk) rows) None)
       (chunks (ARCHIVE_BATCH - 3) parents))"

fun group_children ::
  "py_error \<Rightarrow> (('k \<times> nat) \<times> 'v) list \<Rightarrow> ('k, 'v list) dict \<Rightarrow> ('k, 'v list) dict result" where
  \<comment> \<open>appending each row to its parent; a position that is not the next one is an error\<close>
  "group_children e [] acc = Inr acc"
| "group_children e (((k, position), v) # rows) acc =
     (case dict_get acc k of
        None \<Rightarrow> Inl (KeyError ''parent'')
      | Some vs \<Rightarrow>
          if position \<noteq> length vs then Inl e else group_children e rows (dict_set acc k (vs @ [v])))"

section \<open>Pages are complete\<close>

lemma keyset_rest:
  assumes "sorted (map fst (seen @ rest))" and "distinct (map fst (seen @ rest))"
  shows "filter (\<lambda>row. beyond (if seen = [] then None else Some (fst (last seen))) (fst row)) (seen @ rest) = rest"
proof (cases seen rule: rev_cases)
  case Nil
  then show ?thesis by (simp add: beyond_def)
next
  case (snoc seen' x)
  have "filter (\<lambda>row. fst x < fst row) (seen' @ [x]) = []"
    using assms(1) by (auto simp: snoc filter_empty_conv sorted_append not_less)
  moreover have "filter (\<lambda>row. fst x < fst row) rest = rest"
  proof (rule filter_True, rule ballI)
    fix m assume m: "m \<in> set rest"
    have "fst x \<notin> fst ` set rest" using assms(2) by (simp add: snoc)
    with imageI [OF m, of fst] have "fst m \<noteq> fst x" by metis
    moreover have "fst x \<le> fst m" using assms(1) m by (auto simp: snoc sorted_append)
    ultimately show "fst x < fst m" by simp
  qed
  ultimately show ?thesis unfolding snoc filter_append by (simp add: beyond_def)
qed

lemma keyset_scan_rest:
  assumes "0 < limit" and "distinct (map fst rows)" and "sort_key fst rows = seen @ rest"
  shows "keyset_scan limit rows (if seen = [] then None else Some (fst (last seen))) = rest"
  using assms(3)
proof (induction rest arbitrary: seen rule: length_induct)
  case (1 rest)
  let ?cursor = "if seen = [] then None else Some (fst (last seen))"
  have "sorted (map fst (sort_key fst rows))" "distinct (map fst (sort_key fst rows))"
    using assms(2) by (simp_all del: map_map)
  then have "sorted (map fst (seen @ rest))" "distinct (map fst (seen @ rest))" by (simp_all only: 1(2))
  from keyset_rest [OF this] have page: "sort_key fst (filter (\<lambda>row. beyond ?cursor (fst row)) rows) = rest"
    by (simp only: filter_sort [symmetric] 1(2))
  show ?case
  proof (cases "rest = []")
    case True
    then show ?thesis using page by (subst keyset_scan.simps) simp
  next
    case False
    let ?page = "take limit rest"
    have nonempty: "?page \<noteq> []" using False assms(1) by simp
    have less: "length (drop limit rest) < length rest" using False assms(1) by simp
    have "sort_key fst rows = (seen @ ?page) @ drop limit rest" using 1(2) by simp
    from 1(1) [rule_format, OF less this] have "keyset_scan limit rows (Some (fst (last ?page))) = drop limit rest"
      using nonempty by (simp only: append_is_Nil_conv if_False last_appendR simp_thms)
    with page nonempty show ?thesis by (subst keyset_scan.simps) (simp only: Let_def if_False append_take_drop_id)
  qed
qed

lemma keyset_scan_all: "0 < limit \<Longrightarrow> distinct (map fst rows) \<Longrightarrow> keyset_scan limit rows None = sort_key fst rows"
  using keyset_scan_rest [of limit rows "[]" "sort_key fst rows"] by simp

section \<open>Blocks of children\<close>

definition block :: "'k \<Rightarrow> 'v list \<Rightarrow> (('k \<times> nat) \<times> 'v) list" where
  "block k vs = map (\<lambda>(p, v). ((k, p), v)) (enumerate 0 vs)"

definition has_blocks :: "(('k \<times> nat) \<times> 'v) list \<Rightarrow> ('k \<Rightarrow> 'v list) \<Rightarrow> bool" where
  "has_blocks rows f \<longleftrightarrow> dict_ok rows \<and> (\<forall>k p v. ((k, p), v) \<in> set rows \<longleftrightarrow> p < length (f k) \<and> v = f k ! p)"

lemma fst_block: "row \<in> set (block k vs) \<Longrightarrow> fst (fst row) = k"
  by (auto simp: block_def)

lemma in_block: "((k', p), v) \<in> set (block k vs) \<longleftrightarrow> k' = k \<and> p < length vs \<and> v = vs ! p"
  by (force simp: block_def in_set_enumerate_eq)

lemma block_keys: "map fst (block k vs) = map (\<lambda>p. (k, p)) [0..<length vs]"
  by (rule nth_equalityI) (auto simp: block_def nth_enumerate_eq)

lemma blocks_keys_sorted:
  fixes ks :: "'k::linorder list"
  assumes "sorted ks" and "distinct ks"
  shows "sorted (map fst (concat (map (\<lambda>k. block k (f k)) ks))) \<and> distinct (map fst (concat (map (\<lambda>k. block k (f k)) ks)))"
  using assms
proof (induction ks)
  case (Cons k ks)
  let ?first = "map fst (block k (f k))" and ?rest = "map fst (concat (map (\<lambda>k. block k (f k)) ks))"
  have "sorted (map (\<lambda>p. (k, p)) [0..<n]) \<and> distinct (map (\<lambda>p. (k, p)) [0..<n])" for n
    by (induction n) (auto simp: sorted_append distinct_map inj_on_def)
  then have first: "sorted ?first" "distinct ?first" "\<forall>a \<in> set ?first. fst a = k"
    unfolding block_keys by (auto simp del: upt.simps)
  have rest: "\<forall>b \<in> set ?rest. k < fst b"
  proof
    fix b assume "b \<in> set ?rest"
    then have "fst b \<in> set ks" by (auto simp: block_def)
    with Cons.prems show "k < fst b" by (auto simp: less_le)
  qed
  have "sorted ?rest" "distinct ?rest" using Cons by simp_all
  moreover have "a \<le> b" "a \<noteq> b" if "a \<in> set ?first" "b \<in> set ?rest" for a b
    using first(3) rest that by (force simp: less_eq_prod_def)+
  ultimately have "sorted (?first @ ?rest)" "distinct (?first @ ?rest)"
    using first(1,2) unfolding sorted_append distinct_append by blast+
  then show ?case by (simp only: list.map concat.simps map_append)
qed simp

text \<open>A table that is the concatenation of one block for each of some rows.\<close>

lemma blocks_of:
  assumes "distinct (map h xs)"
  shows "has_blocks (concat (map (\<lambda>x. block (h x) (v x)) xs))
    (\<lambda>k. case map_of (map (\<lambda>x. (h x, v x)) xs) k of None \<Rightarrow> [] | Some vs \<Rightarrow> vs)"
proof -
  have "distinct (map fst (concat (map (\<lambda>x. block (h x) (v x)) xs)))"
    using assms
  proof (induction xs)
    case (Cons x xs)
    have "distinct (map fst (block (h x) (v x)))"
      unfolding block_keys by (simp add: distinct_map inj_on_def)
    moreover have "set (map fst (block (h x) (v x))) \<inter> set (map fst (concat (map (\<lambda>x. block (h x) (v x)) xs))) = {}"
    proof (intro equals0I)
      fix a assume "a \<in> set (map fst (block (h x) (v x))) \<inter> set (map fst (concat (map (\<lambda>x. block (h x) (v x)) xs)))"
      then have "fst a = h x" "fst a \<in> h ` set xs" by (auto dest: fst_block)
      with Cons.prems show False by auto
    qed
    ultimately show ?case using Cons by simp
  qed simp
  moreover have "((k, p), u) \<in> set (concat (map (\<lambda>x. block (h x) (v x)) xs)) \<longleftrightarrow>
      p < length (case map_of (map (\<lambda>x. (h x, v x)) xs) k of None \<Rightarrow> [] | Some vs \<Rightarrow> vs) \<and>
      u = (case map_of (map (\<lambda>x. (h x, v x)) xs) k of None \<Rightarrow> [] | Some vs \<Rightarrow> vs) ! p" for k p u
    using assms
  proof (induction xs)
    case (Cons x xs)
    then show ?case by (auto simp: in_block map_of_eq_None_iff image_iff split: option.splits dest!: map_of_SomeD)
  qed simp
  ultimately show ?thesis by (simp add: has_blocks_def dict_ok_def)
qed

lemma sort_key_unique:
  assumes "distinct (map fst xs)" and "sorted (map fst ys)" and "distinct (map fst ys)" and "set ys = set xs"
  shows "sort_key fst xs = ys"
proof (rule map_sorted_distinct_set_unique)
  show "inj_on fst (set (sort_key fst xs) \<union> set ys)" using assms(1,4) by (simp add: distinct_map)
  show "distinct (map fst (sort_key fst xs))" using assms(1) by simp
qed (use assms in simp_all)

lemma children_of_chunk:
  assumes "has_blocks rows f" and "sorted ks" and "distinct ks"
  shows "keyset_scan ARCHIVE_BATCH (filter (\<lambda>row. fst (fst row) \<in> set ks) rows) None =
    concat (map (\<lambda>k. block k (f k)) ks)"
proof -
  have "distinct (map fst (filter (\<lambda>row. fst (fst row) \<in> set ks) rows))"
    using assms(1) by (simp add: has_blocks_def dict_ok_def distinct_map_filter)
  moreover have "set (concat (map (\<lambda>k. block k (f k)) ks)) = set (filter (\<lambda>row. fst (fst row) \<in> set ks) rows)"
    using assms(1) by (auto simp: has_blocks_def in_block)
  ultimately show ?thesis
    using blocks_keys_sorted [OF assms(2,3), of f]
    by (simp add: keyset_scan_all ARCHIVE_BATCH_def sort_key_unique del: map_concat set_concat)
qed

lemma chunks_sorted: "sorted ks \<Longrightarrow> distinct ks \<Longrightarrow> c \<in> set (chunks n ks) \<Longrightarrow> sorted c \<and> distinct c"
proof (induction n ks rule: chunks.induct)
  case (1 n ks)
  from 1(4) have "c = take n ks \<or> c \<in> set (chunks n (drop n ks)) \<and> n \<noteq> 0 \<and> ks \<noteq> []"
    by (subst (asm) chunks.simps) (auto split: if_splits)
  with 1 show ?case by (auto simp: sorted_wrt_take sorted_wrt_drop)
qed

lemma concat_nested: "concat (map (\<lambda>c. concat (map g c)) cs) = concat (map g (concat cs))"
  by (induction cs) simp_all

lemma paged_children_blocks:
  assumes "has_blocks rows f" and "sorted ks" and "distinct ks"
  shows "paged_children rows ks = concat (map (\<lambda>k. block k (f k)) ks)"
proof -
  have "paged_children rows ks = concat (map (\<lambda>chunk. concat (map (\<lambda>k. block k (f k)) chunk)) (chunks (ARCHIVE_BATCH - 3) ks))"
    unfolding paged_children_def
    by (intro arg_cong [where f = concat] map_cong refl children_of_chunk [OF assms(1)])
       (use chunks_sorted [OF assms(2,3)] in blast)+
  also have "\<dots> = concat (map (\<lambda>k. block k (f k)) (concat (chunks (ARCHIVE_BATCH - 3) ks)))"
    by (rule concat_nested)
  finally show ?thesis by (simp add: concat_chunks ARCHIVE_BATCH_def)
qed

section \<open>Grouping\<close>

lemma dict_set_present: "k \<notin> set (map fst d) \<Longrightarrow> dict_set (d @ (k, u) # d') k v = d @ (k, v) # d'"
  by (induction d) auto

lemma group_block:
  assumes "k \<notin> set (map fst d)"
  shows "group_children e (map (\<lambda>(p, v). ((k, p), v)) (enumerate (length us) vs) @ rows) (d @ (k, us) # d') =
    group_children e rows (d @ (k, us @ vs) # d')"
proof (induction vs arbitrary: us)
  case (Cons v vs)
  have "dict_get (d @ (k, us) # d') k = Some us"
    using assms by (auto simp: dict_get_def map_add_Some_iff map_of_eq_None_iff)
  with Cons.IH [of "us @ [v]"] show ?case by (simp add: dict_set_present [OF assms])
qed simp

lemma group_blocks_from:
  assumes "distinct (map fst d @ ks)"
  shows "group_children e (concat (map (\<lambda>k. block k (f k)) ks)) (d @ map (\<lambda>k. (k, [])) ks) = Inr (d @ map (\<lambda>k. (k, f k)) ks)"
  using assms
proof (induction ks arbitrary: d)
  case (Cons k ks)
  have "group_children e (block k (f k) @ concat (map (\<lambda>k. block k (f k)) ks)) (d @ (k, []) # map (\<lambda>k. (k, [])) ks) =
      group_children e (concat (map (\<lambda>k. block k (f k)) ks)) (d @ (k, f k) # map (\<lambda>k. (k, [])) ks)"
    using group_block [of k d e "[]" "f k"] Cons.prems by (simp add: block_def)
  with Cons.IH [of "d @ [(k, f k)]"] Cons.prems show ?case by simp
qed simp

lemma group_blocks:
  "distinct ks \<Longrightarrow> group_children e (concat (map (\<lambda>k. block k (f k)) ks)) (map (\<lambda>k. (k, [])) ks) = Inr (map (\<lambda>k. (k, f k)) ks)"
  using group_blocks_from [of "[]" ks e f] by simp

end
