(* ===== verification/SequenceStore.thy ===== *)
theory SequenceStore
  imports ChildTables
begin

text \<open>
  Content-addressed identity sequences of the historical archive
  (\<^verbatim>\<open>storage/historical_analytical_archive.py\<close>): a sequence is a link type and an ordered
  list of identities; it is stored once, as references to segments of at most 256 identities,
  which are shared between sequences. \<open>sha\<close> is the SHA-256 hex digest of a byte string; bytes are
  characters, and all texts hashed here are ASCII. UUID columns hold identities.
\<close>

section \<open>Hashes\<close>

definition be8 :: "nat \<Rightarrow> string" where
  \<comment> \<open>\<^verbatim>\<open>n.to_bytes(8, "big")\<close>\<close>
  "be8 n = map (\<lambda>k. char_of (n div 256 ^ (7 - k))) [0..<8]"

definition digest_parts :: "(string \<Rightarrow> string) \<Rightarrow> string \<Rightarrow> string list \<Rightarrow> string" where
  "digest_parts sha prefix parts = sha (prefix @ concat (map (\<lambda>part. be8 (length part) @ part) parts))"

definition hex_digit :: "nat \<Rightarrow> char" where
  "hex_digit n = ''0123456789abcdef'' ! n"

definition uuid_nibble :: "uuid \<Rightarrow> nat \<Rightarrow> char" where
  "uuid_nibble u k = hex_digit (unat (drop_bit (4 * k) u AND 15))"

definition uuid_text :: "uuid \<Rightarrow> string" where
  \<comment> \<open>\<^verbatim>\<open>str(uuid)\<close>\<close>
  "uuid_text u =
     map (uuid_nibble u) (rev [24..<32]) @ ''-'' @ map (uuid_nibble u) (rev [20..<24]) @ ''-'' @
     map (uuid_nibble u) (rev [16..<20]) @ ''-'' @ map (uuid_nibble u) (rev [12..<16]) @ ''-'' @
     map (uuid_nibble u) (rev [0..<12])"

type_synonym link = "string \<times> uuid list"

definition sequence_hash :: "(string \<Rightarrow> string) \<Rightarrow> link \<Rightarrow> string" where
  "sequence_hash sha link =
     digest_parts sha ''historical-analytical-sequence-v1'' (fst link # map uuid_text (snd link))"

definition segment_hash :: "(string \<Rightarrow> string) \<Rightarrow> link \<Rightarrow> string" where
  "segment_hash sha link =
     digest_parts sha ''historical-analytical-segment-v1'' (fst link # map uuid_text (snd link))"

section \<open>Tables\<close>

record meta_row =
  mr_link_type :: string
  mr_item_count :: nat
  mr_hash :: string

record sequence_tables =
  st_sequences :: "(string, meta_row) dict"
  st_references :: "((string \<times> nat) \<times> string) list"
  st_segments :: "(string, meta_row) dict"
  st_members :: "((string \<times> nat) \<times> uuid) list"

text \<open>\<^verbatim>\<open>INSERT\<close> under a primary key, and in slices of 256 rows.\<close>

fun insert_rows :: "('k \<times> 'v) list \<Rightarrow> ('k \<times> 'v) list \<Rightarrow> ('k \<times> 'v) list result" where
  "insert_rows table [] = Inr table"
| "insert_rows table ((k, v) # rows) =
     (if k \<in> set (map fst table) then Inl (StorageError ''duplicate primary key'')
      else insert_rows (table @ [(k, v)]) rows)"

definition executemany_bounded :: "('k \<times> 'v) list \<Rightarrow> ('k \<times> 'v) list \<Rightarrow> ('k \<times> 'v) list result" where
  "executemany_bounded table rows =
     foldl (\<lambda>r chunk. bind_r r (\<lambda>table. insert_rows table chunk)) (Inr table) (chunks ARCHIVE_BATCH rows)"

definition select_by_ids :: "('k::linorder \<times> 'v) list \<Rightarrow> 'k list \<Rightarrow> ('k \<times> 'v) list" where
  "select_by_ids table identifiers =
     concat (map (\<lambda>chunk. sort_key fst (filter (\<lambda>row. fst row \<in> set chunk) table))
       (chunks (ARCHIVE_BATCH - 3) (sort (remdups identifiers))))"

definition dict_update :: "('k, 'v) dict \<Rightarrow> ('k \<times> 'v) list \<Rightarrow> ('k, 'v) dict" where
  "dict_update d rows = fold (\<lambda>row d. dict_set d (fst row) (snd row)) rows d"

definition in_batches :: "('k list \<Rightarrow> ('k, 'v) dict result) \<Rightarrow> 'k list \<Rightarrow> ('k, 'v) dict result" where
  \<comment> \<open>the recursion of the loaders: slices of 256 when there are more identities\<close>
  "in_batches load ordered =
     (if length ordered > ARCHIVE_BATCH
        then foldl (\<lambda>r chunk. bind_r r (\<lambda>output. bind_r (load chunk) (\<lambda>d. Inr (dict_update output d))))
               (Inr []) (chunks ARCHIVE_BATCH ordered)
      else load ordered)"

section \<open>Loading\<close>

definition load_segment_page ::
  "(string \<Rightarrow> string) \<Rightarrow> sequence_tables \<Rightarrow> string list \<Rightarrow> (string, link) dict result" where
  "load_segment_page sha tables ordered =
     (let metadata = dict_update [] (select_by_ids (st_segments tables) ordered) in
      if set (dict_keys metadata) \<noteq> set ordered
        then Inl (ArchiveError ''historical analytical segment is missing'')
      else
        bind_r (group_children (ArchiveError ''historical analytical segment order is corrupt'')
            (paged_children (st_members tables) ordered) (map (\<lambda>i. (i, [])) ordered)) (\<lambda>members.
          traverse (\<lambda>(segment_id, identifiers).
            case dict_get metadata segment_id of
              None \<Rightarrow> Inl (KeyError ''segment'')
            | Some meta \<Rightarrow>
                (if \<not> (1 \<le> mr_item_count meta \<and> mr_item_count meta \<le> ARCHIVE_BATCH) \<or>
                    length identifiers \<noteq> mr_item_count meta \<or>
                    segment_hash sha (mr_link_type meta, identifiers) \<noteq> mr_hash meta \<or>
                    mr_hash meta \<noteq> segment_id
                   then Inl (ArchiveError ''historical analytical segment checksum does not match'')
                 else Inr (segment_id, (mr_link_type meta, identifiers)))) members))"

definition load_segments ::
  "(string \<Rightarrow> string) \<Rightarrow> sequence_tables \<Rightarrow> string list \<Rightarrow> (string, link) dict result" where
  "load_segments sha tables segment_ids =
     (let ordered = sort (remdups segment_ids) in
      if ordered = [] then Inr [] else in_batches (load_segment_page sha tables) ordered)"

fun join_segments :: "(string, link) dict \<Rightarrow> string \<Rightarrow> string list \<Rightarrow> uuid list result" where
  "join_segments segment_values link_type [] = Inr []"
| "join_segments segment_values link_type (segment_id # ids) =
     (case dict_get segment_values segment_id of
        None \<Rightarrow> Inl (KeyError ''segment'')
      | Some (segment_type, identifiers) \<Rightarrow>
          (if segment_type \<noteq> link_type then Inl (ArchiveError ''historical analytical link class changed'')
           else bind_r (join_segments segment_values link_type ids) (\<lambda>rest. Inr (identifiers @ rest))))"

definition load_sequence_page ::
  "(string \<Rightarrow> string) \<Rightarrow> sequence_tables \<Rightarrow> string list \<Rightarrow> (string, link) dict result" where
  "load_sequence_page sha tables ordered =
     (let metadata = dict_update [] (filter (\<lambda>row. fst row \<in> set ordered) (st_sequences tables)) in
      if set (dict_keys metadata) \<noteq> set ordered
        then Inl (ArchiveError ''historical analytical sequence is missing'')
      else
        bind_r (group_children (ArchiveError ''historical analytical sequence order is corrupt'')
            (paged_children (st_references tables) ordered) (map (\<lambda>i. (i, [])) ordered)) (\<lambda>refs.
        bind_r (load_segments sha tables (concat (dict_values refs))) (\<lambda>segment_values.
          traverse (\<lambda>(sequence_id, segments).
            case dict_get metadata sequence_id of
              None \<Rightarrow> Inl (KeyError ''sequence'')
            | Some meta \<Rightarrow>
                bind_r (join_segments segment_values (mr_link_type meta) segments) (\<lambda>identifiers.
                  (if length identifiers \<noteq> mr_item_count meta \<or>
                      sequence_hash sha (mr_link_type meta, identifiers) \<noteq> mr_hash meta \<or>
                      mr_hash meta \<noteq> sequence_id
                     then Inl (ArchiveError ''historical analytical sequence checksum does not match'')
                   else Inr (sequence_id, (mr_link_type meta, identifiers))))) refs)))"

definition load_sequences ::
  "(string \<Rightarrow> string) \<Rightarrow> sequence_tables \<Rightarrow> string list \<Rightarrow> (string, link) dict result" where
  "load_sequences sha tables sequence_ids =
     (let ordered = sort (remdups sequence_ids) in
      if ordered = [] then Inr [] else in_batches (load_sequence_page sha tables) ordered)"

section \<open>Saving\<close>

definition intern :: "string \<Rightarrow> (link \<Rightarrow> string) \<Rightarrow> (string, link) dict \<Rightarrow> link \<Rightarrow> (string, link) dict result" where
  \<comment> \<open>adding a link under its hash; another link under the same hash is a conflict\<close>
  "intern what hash known link =
     (case dict_get known (hash link) of
        Some previous \<Rightarrow>
          if previous \<noteq> link
            then Inl (ArchiveError (''historical analytical '' @ what @ '' conflicts with its hash''))
          else Inr (dict_set known (hash link) link)
      | None \<Rightarrow> Inr (dict_set known (hash link) link))"

definition intern_all ::
  "string \<Rightarrow> (link \<Rightarrow> string) \<Rightarrow> link list \<Rightarrow> (string, link) dict result" where
  "intern_all what hash links = foldl (\<lambda>r link. bind_r r (\<lambda>d. intern what hash d link)) (Inr []) links"

definition check_loaded :: "string \<Rightarrow> (string, link) dict \<Rightarrow> (string, link) dict \<Rightarrow> string list \<Rightarrow> unit result" where
  \<comment> \<open>every identity loads to the link it stands for\<close>
  "check_loaded what loaded known ids =
     (if list_all (\<lambda>i. dict_get loaded i = dict_get known i) ids then Inr ()
      else Inl (ArchiveError (''historical analytical '' @ what @ '' conflicts with its hash'')))"

definition meta_of :: "(link \<Rightarrow> string) \<Rightarrow> link \<Rightarrow> meta_row" where
  "meta_of hash link = \<lparr>mr_link_type = fst link, mr_item_count = length (snd link), mr_hash = hash link\<rparr>"

definition segments_of :: "link \<Rightarrow> link list" where
  "segments_of link = map (\<lambda>items. (fst link, items)) (chunks ARCHIVE_BATCH (snd link))"

definition links_at :: "(string, link) dict \<Rightarrow> string list \<Rightarrow> link list" where
  "links_at known ids = map (\<lambda>i. the (dict_get known i)) ids"

definition save_new_sequences ::
  "(string \<Rightarrow> string) \<Rightarrow> sequence_tables \<Rightarrow> (string, link) dict \<Rightarrow> string list \<Rightarrow> sequence_tables result" where
  "save_new_sequences sha tables sequence_values missing_sequence_ids =
     (let missing = links_at sequence_values missing_sequence_ids in
      bind_r (intern_all ''segment'' (segment_hash sha) (concat (map segments_of missing))) (\<lambda>segment_values.
      let segment_ids = sort (dict_keys segment_values);
          existing_segment_ids = remdups (map fst (select_by_ids (st_segments tables) segment_ids)) in
      bind_r (if existing_segment_ids = [] then Inr ()
              else bind_r (load_segments sha tables existing_segment_ids) (\<lambda>loaded.
                check_loaded ''segment'' loaded segment_values existing_segment_ids)) (\<lambda>_.
      let new_segments = links_at segment_values (filter (\<lambda>i. i \<notin> set existing_segment_ids) segment_ids) in
      bind_r (executemany_bounded (st_segments tables)
        (map (\<lambda>l. (segment_hash sha l, meta_of (segment_hash sha) l)) new_segments)) (\<lambda>segments.
      bind_r (executemany_bounded (st_members tables)
        (concat (map (\<lambda>l. block (segment_hash sha l) (snd l)) new_segments))) (\<lambda>members.
      bind_r (executemany_bounded (st_sequences tables)
        (map (\<lambda>l. (sequence_hash sha l, meta_of (sequence_hash sha) l)) missing)) (\<lambda>sequences.
      bind_r (executemany_bounded (st_references tables)
        (concat (map (\<lambda>l. block (sequence_hash sha l) (map (segment_hash sha) (segments_of l))) missing))) (\<lambda>references.
      let tables = \<lparr>st_sequences = sequences, st_references = references, st_segments = segments, st_members = members\<rparr> in
      bind_r (load_sequences sha tables missing_sequence_ids) (\<lambda>loaded.
      bind_r (check_loaded ''sequence'' loaded sequence_values missing_sequence_ids) (\<lambda>_. Inr tables)))))))))"

definition save_sequences_batch ::
  "(string \<Rightarrow> string) \<Rightarrow> sequence_tables \<Rightarrow> link list \<Rightarrow> (string list \<times> sequence_tables) result" where
  "save_sequences_batch sha tables requests =
     bind_r (intern_all ''sequence'' (sequence_hash sha) requests) (\<lambda>sequence_values.
     let request_ids = map (sequence_hash sha) requests in
     if request_ids = [] then Inr ([], tables)
     else
       let all_sequence_ids = sort (dict_keys sequence_values);
           existing_sequence_ids = remdups (map fst (select_by_ids (st_sequences tables) all_sequence_ids)) in
       bind_r (if existing_sequence_ids = [] then Inr ()
               else bind_r (load_sequences sha tables existing_sequence_ids) (\<lambda>loaded.
                 check_loaded ''sequence'' loaded sequence_values existing_sequence_ids)) (\<lambda>_.
       let missing_sequence_ids = filter (\<lambda>i. i \<notin> set existing_sequence_ids) all_sequence_ids in
       bind_r (if missing_sequence_ids = [] then Inr tables
               else save_new_sequences sha tables sequence_values missing_sequence_ids) (\<lambda>tables.
         Inr (request_ids, tables))))"

end
