(* ===== verification/HistoricalArchive.thy ===== *)
theory HistoricalArchive
  imports SequenceStore PagedSource EvidenceModels
begin

text \<open>
  The archive of historical metric and diagnostic results
  (\<^verbatim>\<open>storage/historical_analytical_archive.py\<close>): one row per result, child rows for the
  components and the evidence of a diagnostic, and content-addressed sequences for the identities
  a result refers to. Text columns hold the values their texts parse back to; the text of a
  decimal keeps its exponent, the text of an instant sorts as the instant, and the parameters of a
  metric are read back with the keys of every object in order. A transaction that fails leaves
  the archive as it was. \<open>ae_metric_checksum\<close> and \<open>ae_diagnostic_checksum\<close> are the SHA-256 digests
  of the canonical JSON of a row and \<open>ae_metric_identity\<close> is the identity a UUIDv8 metric must
  have (\<^verbatim>\<open>recalculate_metric_result_id\<close>).
\<close>

record archive_env =
  ae_sha :: "string \<Rightarrow> string"
  ae_metric_checksum :: "metric_result \<Rightarrow> string"
  ae_diagnostic_checksum :: "diagnostic_result \<Rightarrow> string"
  ae_metric_identity :: "metric_result \<Rightarrow> uuid option"

section \<open>Rows\<close>

fun json_sorted :: "json \<Rightarrow> json" where
  "json_sorted (JArr xs) = JArr (map json_sorted xs)"
| "json_sorted (JObj kvs) = JObj (sort_key fst (map (\<lambda>(k, v). (k, json_sorted v)) kvs))"
| "json_sorted v = v"

definition sorted_parameters :: "parameters \<Rightarrow> parameters" where
  "sorted_parameters ps = sort_key fst (map (\<lambda>(k, v). (k, json_sorted v)) ps)"

record metric_row =
  mw_asset_id :: string
  mw_metric_key :: string
  mw_value :: decimal
  mw_unit :: string
  mw_as_of :: utc
  mw_available_at :: utc
  mw_computed_at :: utc
  mw_parameters :: parameters
  mw_observation_sequence_id :: string
  mw_metric_sequence_id :: string
  mw_algorithm_version :: string
  mw_quality :: data_quality
  mw_id_version :: nat
  mw_checksum :: string

record diagnostic_row =
  gw_asset_id :: string
  gw_mode :: diagnostic_mode
  gw_verdict :: diagnostic_verdict
  gw_final_score :: decimal
  gw_confidence :: decimal
  gw_as_of :: utc
  gw_available_at :: utc
  gw_computed_at :: utc
  gw_algorithm_version :: string
  gw_summary :: string
  gw_quality :: data_quality
  gw_component_count :: nat
  gw_evidence_count :: nat
  gw_checksum :: string

record component_row =
  cw_component_key :: string
  cw_score :: decimal
  cw_weight :: decimal
  cw_weighted_contribution :: decimal
  cw_metric_sequence_id :: string
  cw_explanation :: string

record archive =
  ar_metrics :: "(uuid, metric_row) dict"
  ar_diagnostics :: "(uuid, diagnostic_row) dict"
  ar_components :: "((uuid \<times> nat) \<times> component_row) list"
  ar_evidence :: "((uuid \<times> nat) \<times> diagnostic_evidence) list"
  ar_sequences :: sequence_tables

definition id_version :: "uuid \<Rightarrow> nat" where
  \<comment> \<open>\<^verbatim>\<open>result_id.version or 0\<close>\<close>
  "id_version u = (case uuid_version u of None \<Rightarrow> 0 | Some v \<Rightarrow> v)"

definition observation_link :: "metric_result \<Rightarrow> link" where
  "observation_link m = (''metric-input-observation-v1'', m_input_observation_ids m)"

definition metric_link :: "metric_result \<Rightarrow> link" where
  "metric_link m = (''metric-input-result-v1'', m_input_metric_result_ids m)"

definition component_link :: "diagnostic_component \<Rightarrow> link" where
  "component_link c = (''diagnostic-component-metric-result-v1'', dc_metric_result_ids c)"

definition metric_row_of :: "archive_env \<Rightarrow> metric_result \<Rightarrow> string \<Rightarrow> string \<Rightarrow> metric_row" where
  "metric_row_of env m observation_sequence metric_sequence =
     \<lparr>mw_asset_id = m_asset_id m, mw_metric_key = m_metric_key m, mw_value = m_value m, mw_unit = m_unit m,
      mw_as_of = m_as_of m, mw_available_at = m_available_at m, mw_computed_at = m_computed_at m,
      mw_parameters = sorted_parameters (m_parameters m),
      mw_observation_sequence_id = observation_sequence, mw_metric_sequence_id = metric_sequence,
      mw_algorithm_version = m_algorithm_version m, mw_quality = m_quality m,
      mw_id_version = id_version (m_result_id m), mw_checksum = ae_metric_checksum env m\<rparr>"

definition diagnostic_row_of :: "archive_env \<Rightarrow> diagnostic_result \<Rightarrow> diagnostic_row" where
  "diagnostic_row_of env d =
     \<lparr>gw_asset_id = d_asset_id d, gw_mode = d_mode d, gw_verdict = d_verdict d, gw_final_score = d_final_score d,
      gw_confidence = d_confidence d, gw_as_of = d_as_of d, gw_available_at = d_available_at d,
      gw_computed_at = d_computed_at d, gw_algorithm_version = d_algorithm_version d, gw_summary = d_summary d,
      gw_quality = d_quality d, gw_component_count = length (d_components d),
      gw_evidence_count = length (d_evidence d), gw_checksum = ae_diagnostic_checksum env d\<rparr>"

definition component_row_of :: "diagnostic_component \<Rightarrow> string \<Rightarrow> component_row" where
  "component_row_of c sequence_id =
     \<lparr>cw_component_key = dc_component_key c, cw_score = dc_score c, cw_weight = dc_weight c,
      cw_weighted_contribution = dc_weighted_contribution c, cw_metric_sequence_id = sequence_id,
      cw_explanation = dc_explanation c\<rparr>"

text \<open>Python's equality of two results: decimals by value, JSON objects in any order.\<close>

definition metric_eq :: "metric_result \<Rightarrow> metric_result \<Rightarrow> bool" where
  "metric_eq a b \<longleftrightarrow>
     m_result_id a = m_result_id b \<and> m_asset_id a = m_asset_id b \<and> m_metric_key a = m_metric_key b \<and>
     dec_eq (m_value a) (m_value b) \<and> m_unit a = m_unit b \<and> m_as_of a = m_as_of b \<and>
     m_available_at a = m_available_at b \<and> m_computed_at a = m_computed_at b \<and>
     json_eq (JObj (m_parameters a)) (JObj (m_parameters b)) \<and>
     m_input_observation_ids a = m_input_observation_ids b \<and>
     m_input_metric_result_ids a = m_input_metric_result_ids b \<and>
     m_algorithm_version a = m_algorithm_version b \<and> m_quality a = m_quality b"

definition component_eq :: "diagnostic_component \<Rightarrow> diagnostic_component \<Rightarrow> bool" where
  "component_eq a b \<longleftrightarrow>
     dc_component_key a = dc_component_key b \<and> dec_eq (dc_score a) (dc_score b) \<and> dec_eq (dc_weight a) (dc_weight b) \<and>
     dec_eq (dc_weighted_contribution a) (dc_weighted_contribution b) \<and>
     dc_metric_result_ids a = dc_metric_result_ids b \<and> dc_explanation a = dc_explanation b"

definition evidence_eq :: "diagnostic_evidence \<Rightarrow> diagnostic_evidence \<Rightarrow> bool" where
  "evidence_eq a b \<longleftrightarrow>
     de_metric_result_id a = de_metric_result_id b \<and> de_direction a = de_direction b \<and>
     dec_eq (de_contribution a) (de_contribution b) \<and> de_reason a = de_reason b"

definition diagnostic_eq :: "diagnostic_result \<Rightarrow> diagnostic_result \<Rightarrow> bool" where
  "diagnostic_eq a b \<longleftrightarrow>
     d_diagnostic_id a = d_diagnostic_id b \<and> d_asset_id a = d_asset_id b \<and> d_mode a = d_mode b \<and>
     d_verdict a = d_verdict b \<and> dec_eq (d_final_score a) (d_final_score b) \<and>
     dec_eq (d_confidence a) (d_confidence b) \<and> d_as_of a = d_as_of b \<and> d_available_at a = d_available_at b \<and>
     d_computed_at a = d_computed_at b \<and> list_all2 component_eq (d_components a) (d_components b) \<and>
     list_all2 evidence_eq (d_evidence a) (d_evidence b) \<and> d_algorithm_version a = d_algorithm_version b \<and>
     d_summary a = d_summary b \<and> d_quality a = d_quality b"

section \<open>Reading\<close>

definition validate_metric_identity :: "archive_env \<Rightarrow> metric_result \<Rightarrow> unit result" where
  "validate_metric_identity env m =
     (if uuid_version (m_result_id m) \<noteq> Some 8 then Inr ()
      else (case ae_metric_identity env m of
              None \<Rightarrow> Inl (ArchiveError ''historical UUIDv8 metric identity cannot be validated'')
            | Some expected \<Rightarrow>
                if expected \<noteq> m_result_id m
                  then Inl (ArchiveError ''historical UUIDv8 metric identity does not match its source model'')
                else Inr ()))"

definition require_unit :: "bool \<Rightarrow> string \<Rightarrow> unit result" where
  "require_unit ok message = (if ok then Inr () else Inl (ArchiveError message))"

definition invalid_row :: "string \<Rightarrow> 'a result \<Rightarrow> 'a result" where
  \<comment> \<open>\<^verbatim>\<open>except (ValueError, TypeError)\<close> around building a model\<close>
  "invalid_row message r = (case r of Inl e \<Rightarrow> Inl (ArchiveError message) | Inr x \<Rightarrow> Inr x)"

definition identifiers_at :: "(string, link) dict \<Rightarrow> string \<Rightarrow> uuid list result" where
  "identifiers_at sequences sequence_id =
     (case dict_get sequences sequence_id of None \<Rightarrow> Inl (KeyError ''sequence'') | Some l \<Rightarrow> Inr (snd l))"

definition read_metric :: "archive_env \<Rightarrow> (string, link) dict \<Rightarrow> uuid \<times> metric_row \<Rightarrow> metric_result result" where
  "read_metric env sequences entry =
     (let result_id = fst entry; row = snd entry in
      bind_r (identifiers_at sequences (mw_observation_sequence_id row)) (\<lambda>observation_ids.
      bind_r (identifiers_at sequences (mw_metric_sequence_id row)) (\<lambda>metric_ids.
      bind_r (invalid_row ''historical metric row is invalid'' (validate_result_traceability
         \<lparr>m_result_id = result_id, m_asset_id = mw_asset_id row, m_metric_key = mw_metric_key row,
          m_value = mw_value row, m_unit = mw_unit row, m_as_of = mw_as_of row,
          m_available_at = mw_available_at row, m_computed_at = mw_computed_at row,
          m_parameters = mw_parameters row, m_input_observation_ids = observation_ids,
          m_input_metric_result_ids = metric_ids, m_algorithm_version = mw_algorithm_version row,
          m_quality = mw_quality row\<rparr>)) (\<lambda>m.
      bind_r (require_unit (id_version result_id = mw_id_version row)
         ''historical metric UUID version was altered'') (\<lambda>_.
      bind_r (validate_metric_identity env m) (\<lambda>_.
      bind_r (require_unit (ae_metric_checksum env m = mw_checksum row)
         ''historical metric checksum does not match'') (\<lambda>_. Inr m)))))))"

definition indexed_rows :: "string \<Rightarrow> (uuid, 'w) dict \<Rightarrow> uuid list \<Rightarrow> (uuid \<times> 'w) list result" where
  \<comment> \<open>the rows of the identities, in order; the first missing one is an error\<close>
  "indexed_rows message table ordered =
     (let indexed = dict_update [] (select_by_ids table ordered) in
      traverse (\<lambda>i. case dict_get indexed i of
          None \<Rightarrow> Inl (RecordNotFoundError message) | Some row \<Rightarrow> Inr (i, row)) ordered)"

definition get_metrics :: "archive_env \<Rightarrow> archive \<Rightarrow> uuid list \<Rightarrow> (uuid, metric_result) dict result" where
  "get_metrics env archive result_ids =
     (let ordered = sort (remdups result_ids) in
      if ordered = [] then Inr []
      else if length ordered > ARCHIVE_BATCH
        then Inl (ValueError ''historical metric lookup is limited to 256 IDs'')
      else
        bind_r (indexed_rows ''historical metric was not found'' (ar_metrics archive) ordered) (\<lambda>rows.
        bind_r (load_sequences (ae_sha env) (ar_sequences archive)
          (map (\<lambda>(i, row). mw_observation_sequence_id row) rows @ map (\<lambda>(i, row). mw_metric_sequence_id row) rows))
          (\<lambda>sequences.
        bind_r (traverse (read_metric env sequences) rows) (\<lambda>results. Inr (zip ordered results)))))"

text \<open>The children of a diagnostic, grouped by parent with the positions they were read with.\<close>

definition children_of :: "(('k \<times> nat) \<times> 'v) list \<Rightarrow> 'k \<Rightarrow> (nat \<times> 'v) list" where
  "children_of rows parent = map (\<lambda>((k, p), v). (p, v)) (filter (\<lambda>row. fst (fst row) = parent) rows)"

definition read_component :: "(string, link) dict \<Rightarrow> component_row \<Rightarrow> diagnostic_component result" where
  "read_component sequences row =
     bind_r (identifiers_at sequences (cw_metric_sequence_id row)) (\<lambda>ids.
       Inr \<lparr>dc_component_key = cw_component_key row, dc_score = cw_score row, dc_weight = cw_weight row,
            dc_weighted_contribution = cw_weighted_contribution row, dc_metric_result_ids = ids,
            dc_explanation = cw_explanation row\<rparr>)"

definition read_diagnostic ::
  "archive_env \<Rightarrow> (string, link) dict \<Rightarrow> ((uuid \<times> nat) \<times> component_row) list \<Rightarrow>
     ((uuid \<times> nat) \<times> diagnostic_evidence) list \<Rightarrow> uuid \<times> diagnostic_row \<Rightarrow> diagnostic_result result" where
  "read_diagnostic env sequences component_rows evidence_rows entry =
     (let diagnostic_id = fst entry; row = snd entry;
          component_items = children_of component_rows diagnostic_id;
          evidence_items = children_of evidence_rows diagnostic_id in
      bind_r (traverse (\<lambda>(p, c). read_component sequences c) component_items) (\<lambda>components.
      bind_r (require_unit (length component_items = gw_component_count row \<and>
           length evidence_items = gw_evidence_count row)
         ''historical diagnostic child inventory is incomplete'') (\<lambda>_.
      bind_r (require_unit (map fst component_items = [0..<length component_items])
         ''historical diagnostic component order is corrupt'') (\<lambda>_.
      bind_r (require_unit (map fst evidence_items = [0..<length evidence_items])
         ''historical diagnostic evidence order is corrupt'') (\<lambda>_.
      bind_r (invalid_row ''historical diagnostic row is invalid'' (parse_diagnostic
         \<lparr>d_diagnostic_id = diagnostic_id, d_asset_id = gw_asset_id row, d_mode = gw_mode row,
          d_verdict = gw_verdict row, d_final_score = gw_final_score row, d_confidence = gw_confidence row,
          d_as_of = gw_as_of row, d_available_at = gw_available_at row, d_computed_at = gw_computed_at row,
          d_components = components, d_evidence = map snd evidence_items,
          d_algorithm_version = gw_algorithm_version row, d_summary = gw_summary row,
          d_quality = gw_quality row\<rparr>)) (\<lambda>d.
      bind_r (require_unit (ae_diagnostic_checksum env d = gw_checksum row)
         ''historical diagnostic checksum does not match'') (\<lambda>_. Inr d)))))))"

definition get_diagnostics :: "archive_env \<Rightarrow> archive \<Rightarrow> uuid list \<Rightarrow> (uuid, diagnostic_result) dict result" where
  "get_diagnostics env archive diagnostic_ids =
     (let ordered = sort (remdups diagnostic_ids) in
      if ordered = [] then Inr []
      else if length ordered > ARCHIVE_BATCH
        then Inl (ValueError ''historical diagnostic lookup is limited to 256 IDs'')
      else
        bind_r (indexed_rows ''historical diagnostic was not found'' (ar_diagnostics archive) ordered) (\<lambda>rows.
        let component_rows = paged_children (ar_components archive) ordered;
            evidence_rows = paged_children (ar_evidence archive) ordered in
        bind_r (load_sequences (ae_sha env) (ar_sequences archive)
          (map (\<lambda>(k, row). cw_metric_sequence_id row) component_rows)) (\<lambda>sequences.
        bind_r (traverse (read_diagnostic env sequences component_rows evidence_rows) rows) (\<lambda>results.
          Inr (zip ordered results)))))"

section \<open>Saving\<close>

fun check_checksums ::
  "('r \<Rightarrow> uuid) \<Rightarrow> ('r \<Rightarrow> string) \<Rightarrow> ('r \<Rightarrow> unit result) \<Rightarrow> 'r list \<Rightarrow> (uuid, string) dict \<Rightarrow> unit result" where
  \<comment> \<open>every item is validated and has one checksum per identity\<close>
  "check_checksums key checksum validate [] checksums = Inr ()"
| "check_checksums key checksum validate (item # items) checksums =
     bind_r (validate item) (\<lambda>_.
       (case dict_get checksums (key item) of
          Some previous \<Rightarrow>
            if previous \<noteq> checksum item
              then Inl (RecordConflictError ''historical identifier has conflicting content'')
            else check_checksums key checksum validate items (dict_set checksums (key item) (checksum item))
        | None \<Rightarrow> check_checksums key checksum validate items (dict_set checksums (key item) (checksum item))))"

definition unique_items :: "('r \<Rightarrow> uuid) \<Rightarrow> 'r list \<Rightarrow> 'r list" where
  \<comment> \<open>\<^verbatim>\<open>{key(item): item for item in typed}.values()\<close>\<close>
  "unique_items key items = dict_values (dict_by key items)"

definition check_stored ::
  "('r \<Rightarrow> 'r \<Rightarrow> bool) \<Rightarrow> ('r \<Rightarrow> uuid) \<Rightarrow> 'r list \<Rightarrow> (uuid, 'r) dict \<Rightarrow> unit result" where
  "check_stored eq key unique current =
     (if list_all (\<lambda>item. case dict_get current (key item) of None \<Rightarrow> True | Some stored \<Rightarrow> eq stored item) unique
        then Inr () else Inl (RecordConflictError ''historical identifier has conflicting content''))"

definition save_archive_metrics ::
  "archive_env \<Rightarrow> archive \<Rightarrow> metric_result list \<Rightarrow> ((uuid list \<times> uuid list) \<times> archive) result" where
  "save_archive_metrics env archive typed =
     (if length typed > ARCHIVE_BATCH
        then Inl (ArchiveError ''historical metric batch must contain at most 256 MetricResult rows'')
      else if typed = [] then Inr (([], []), archive)
      else
        bind_r (check_checksums m_result_id (ae_metric_checksum env) (validate_metric_identity env) typed []) (\<lambda>_.
        let unique = unique_items m_result_id typed;
            existing_keys = remdups (map fst (select_by_ids (ar_metrics archive) (map m_result_id unique))) in
        bind_r (if existing_keys = [] then Inr []
                else get_metrics env archive (sort existing_keys)) (\<lambda>current.
        bind_r (check_stored metric_eq m_result_id unique current) (\<lambda>_.
        let new_items = filter (\<lambda>m. m_result_id m \<notin> set existing_keys) unique in
        bind_r (save_sequences_batch (ae_sha env) (ar_sequences archive)
          (concat (map (\<lambda>m. [observation_link m, metric_link m]) new_items))) (\<lambda>(sequence_ids, sequences).
        let rows = map (\<lambda>(index, m). (m_result_id m,
              metric_row_of env m (sequence_ids ! (index * 2)) (sequence_ids ! (index * 2 + 1)))) (enumerate 0 new_items) in
        bind_r (executemany_bounded (ar_metrics archive) rows) (\<lambda>metrics.
          Inr ((map m_result_id new_items, map m_result_id (filter (\<lambda>m. m_result_id m \<in> set existing_keys) unique)),
               archive\<lparr>ar_metrics := metrics, ar_sequences := sequences\<rparr>)))))))"

text \<open>The component sequences are taken from one iterator, diagnostic by diagnostic.\<close>

fun deal :: "string list \<Rightarrow> diagnostic_result list \<Rightarrow> (diagnostic_result \<times> string list) list" where
  "deal ids [] = []"
| "deal ids (d # ds) =
     (d, take (length (d_components d)) ids) # deal (drop (length (d_components d)) ids) ds"

definition save_archive_diagnostics ::
  "archive_env \<Rightarrow> archive \<Rightarrow> diagnostic_result list \<Rightarrow> ((uuid list \<times> uuid list) \<times> archive) result" where
  "save_archive_diagnostics env archive typed =
     (if length typed > ARCHIVE_BATCH
        then Inl (ArchiveError ''historical diagnostic batch must contain at most 256 DiagnosticResult rows'')
      else if typed = [] then Inr (([], []), archive)
      else
        bind_r (check_checksums d_diagnostic_id (ae_diagnostic_checksum env) (\<lambda>_. Inr ()) typed []) (\<lambda>_.
        let unique = unique_items d_diagnostic_id typed;
            existing_keys = remdups (map fst (select_by_ids (ar_diagnostics archive) (map d_diagnostic_id unique))) in
        bind_r (if existing_keys = [] then Inr []
                else get_diagnostics env archive (sort existing_keys)) (\<lambda>current.
        bind_r (check_stored diagnostic_eq d_diagnostic_id unique current) (\<lambda>_.
        let new_items = filter (\<lambda>d. d_diagnostic_id d \<notin> set (dict_keys current)) unique in
        bind_r (save_sequences_batch (ae_sha env) (ar_sequences archive)
          (concat (map (\<lambda>d. map component_link (d_components d)) new_items))) (\<lambda>(sequence_ids, sequences).
        bind_r (executemany_bounded (ar_diagnostics archive)
          (map (\<lambda>d. (d_diagnostic_id d, diagnostic_row_of env d)) new_items)) (\<lambda>diagnostics.
        bind_r (executemany_bounded (ar_components archive)
          (concat (map (\<lambda>(d, ids). block (d_diagnostic_id d)
             (map (\<lambda>(c, i). component_row_of c i) (zip (d_components d) ids))) (deal sequence_ids new_items)))) (\<lambda>components.
        bind_r (executemany_bounded (ar_evidence archive)
          (concat (map (\<lambda>d. block (d_diagnostic_id d) (d_evidence d)) new_items))) (\<lambda>evidence.
          Inr ((map d_diagnostic_id new_items,
                map d_diagnostic_id (filter (\<lambda>d. d_diagnostic_id d \<in> set (dict_keys current)) unique)),
               \<lparr>ar_metrics = ar_metrics archive, ar_diagnostics = diagnostics, ar_components = components,
                ar_evidence = evidence, ar_sequences = sequences\<rparr>)))))))))"

section \<open>Pages\<close>

definition validate_archive_limit :: "int \<Rightarrow> unit result" where
  "validate_archive_limit limit =
     (if 1 \<le> limit \<and> limit \<le> int ARCHIVE_BATCH then Inr ()
      else Inl (ValueError ''historical analytical page limit must be an integer between 1 and 256''))"

definition select_page_ids ::
  "('w \<Rightarrow> utc) \<Rightarrow> (uuid, 'w) dict \<Rightarrow> int \<Rightarrow> (utc \<times> uuid) option \<Rightarrow> ('w \<Rightarrow> bool) \<Rightarrow> utc option \<Rightarrow> uuid list" where
  "select_page_ids avail table limit after filters known_to =
     map fst (take (nat limit) (sort_key (by_availability (avail \<circ> snd) fst)
       (filter (\<lambda>row. filters (snd row) \<and> holds_for (\<lambda>t. avail (snd row) \<le> t) known_to \<and>
                after_cursor (avail \<circ> snd) fst after row) table)))"

definition list_archive_metric_ids :: "archive \<Rightarrow> int \<Rightarrow> (utc \<times> uuid) option \<Rightarrow> uuid list result" where
  "list_archive_metric_ids archive limit after =
     bind_r (validate_archive_limit limit) (\<lambda>_.
       Inr (select_page_ids mw_available_at (ar_metrics archive) limit after (\<lambda>_. True) None))"

definition list_archive_diagnostic_ids :: "archive \<Rightarrow> int \<Rightarrow> (utc \<times> uuid) option \<Rightarrow> uuid list result" where
  "list_archive_diagnostic_ids archive limit after =
     bind_r (validate_archive_limit limit) (\<lambda>_.
       Inr (select_page_ids gw_available_at (ar_diagnostics archive) limit after (\<lambda>_. True) None))"

definition models_of :: "(uuid, 'r) dict \<Rightarrow> uuid list \<Rightarrow> 'r list result" where
  "models_of found ids = traverse (\<lambda>i. case dict_get found i of None \<Rightarrow> Inl (KeyError ''identifier'') | Some m \<Rightarrow> Inr m) ids"

definition list_archive_metrics ::
  "archive_env \<Rightarrow> archive \<Rightarrow> int \<Rightarrow> string option \<Rightarrow> string option \<Rightarrow> utc option \<Rightarrow> (utc \<times> uuid) option \<Rightarrow>
     metric_result list result" where
  "list_archive_metrics env archive limit asset_id metric_key known_to after =
     bind_r (validate_archive_limit limit) (\<lambda>_.
       let ids = select_page_ids mw_available_at (ar_metrics archive) limit after
             (\<lambda>row. holds_for (\<lambda>a. mw_asset_id row = a) asset_id \<and> holds_for (\<lambda>k. mw_metric_key row = k) metric_key)
             known_to in
       if ids = [] then Inr [] else bind_r (get_metrics env archive ids) (\<lambda>models. models_of models ids))"

definition list_archive_diagnostics ::
  "archive_env \<Rightarrow> archive \<Rightarrow> int \<Rightarrow> string option \<Rightarrow> string option \<Rightarrow> utc option \<Rightarrow> (utc \<times> uuid) option \<Rightarrow>
     diagnostic_result list result" where
  "list_archive_diagnostics env archive limit asset_id mode known_to after =
     bind_r (validate_archive_limit limit) (\<lambda>_.
       let ids = select_page_ids gw_available_at (ar_diagnostics archive) limit after
             (\<lambda>row. holds_for (\<lambda>a. gw_asset_id row = a) asset_id \<and>
                holds_for (\<lambda>v. diagnostic_mode_value (gw_mode row) = v) mode)
             known_to in
       if ids = [] then Inr [] else bind_r (get_diagnostics env archive ids) (\<lambda>models. models_of models ids))"

definition empty_archive :: archive where
  "empty_archive = \<lparr>ar_metrics = [], ar_diagnostics = [], ar_components = [], ar_evidence = [],
     ar_sequences = \<lparr>st_sequences = [], st_references = [], st_segments = [], st_members = []\<rparr>\<rparr>"

end
