(* ===== verification/ArchiveValidation.thy ===== *)
theory ArchiveValidation
  imports HistoricalArchive
begin

text \<open>
  The relational validation of an archive
  (\<^verbatim>\<open>storage/historical_analytical_validation.py\<close>): references that are missing,
  foreign or in the future, the acyclicity of the dependencies between metrics, and the ownership
  of sequences and segments. Queries are list comprehensions over the tables; the observations the
  archive refers to are a table of another component, of which only the asset and the availability
  are read.
\<close>

type_synonym observation_index = "(uuid, string \<times> utc) dict"

section \<open>References\<close>

text \<open>
  The rows of \<^verbatim>\<open>sequence JOIN sequence_segment JOIN segment JOIN member\<close> for one sequence
  identity: the link types of the sequence and of the segment, and the identity it refers to.
\<close>

definition linked_rows :: "sequence_tables \<Rightarrow> string \<Rightarrow> (string \<times> string \<times> uuid) list" where
  "linked_rows tables sequence_id =
     concat (map (\<lambda>(sid, smeta). if sid \<noteq> sequence_id then [] else
       concat (map (\<lambda>((rsid, p), gid). if rsid \<noteq> sid then [] else
         concat (map (\<lambda>(gid', gmeta). if gid' \<noteq> gid then [] else
           concat (map (\<lambda>((mgid, q), i). if mgid \<noteq> gid' then [] else
             [(mr_link_type smeta, mr_link_type gmeta, i)])
             (st_members tables))) (st_segments tables))) (st_references tables))) (st_sequences tables))"

definition bad_target :: "string \<Rightarrow> utc \<Rightarrow> (string \<times> utc) option \<Rightarrow> bool" where
  \<comment> \<open>missing, foreign or future\<close>
  "bad_target asset_id available_at target =
     (case target of None \<Rightarrow> True | Some (a, t) \<Rightarrow> a \<noteq> asset_id \<or> t > available_at)"

definition bad_links ::
  "sequence_tables \<Rightarrow> string \<Rightarrow> string \<Rightarrow> string \<Rightarrow> utc \<Rightarrow> (uuid \<Rightarrow> (string \<times> utc) option) \<Rightarrow> bool" where
  "bad_links tables link_type sequence_id asset_id available_at target =
     list_ex (\<lambda>(stype, gtype, i). stype \<noteq> link_type \<or> gtype \<noteq> stype \<or> bad_target asset_id available_at (target i))
       (linked_rows tables sequence_id)"

definition metric_target :: "archive \<Rightarrow> uuid \<Rightarrow> (string \<times> utc) option" where
  "metric_target archive i = map_option (\<lambda>row. (mw_asset_id row, mw_available_at row)) (dict_get (ar_metrics archive) i)"

definition validate_reference_rows :: "observation_index \<Rightarrow> archive \<Rightarrow> unit result" where
  "validate_reference_rows observations archive =
     (let tables = ar_sequences archive in
      bind_r (require_unit (\<not> list_ex (\<lambda>(i, row). bad_links tables ''metric-input-observation-v1''
            (mw_observation_sequence_id row) (mw_asset_id row) (mw_available_at row) (dict_get observations))
          (ar_metrics archive))
        ''historical metric observation references are missing, foreign, or future'') (\<lambda>_.
      bind_r (require_unit (\<not> list_ex (\<lambda>(i, row). bad_links tables ''metric-input-result-v1''
            (mw_metric_sequence_id row) (mw_asset_id row) (mw_available_at row) (metric_target archive))
          (ar_metrics archive))
        ''historical metric dependencies are missing, foreign, or future'') (\<lambda>_.
      bind_r (require_unit (\<not> list_ex (\<lambda>((k, p), row). case dict_get (ar_diagnostics archive) k of
              None \<Rightarrow> False
            | Some d \<Rightarrow> bad_links tables ''diagnostic-component-metric-result-v1''
                (cw_metric_sequence_id row) (gw_asset_id d) (gw_available_at d) (metric_target archive))
          (ar_components archive))
        ''historical diagnostic component references are missing, foreign, or future'') (\<lambda>_.
      require_unit (\<not> list_ex (\<lambda>((k, p), row). case dict_get (ar_diagnostics archive) k of
              None \<Rightarrow> False
            | Some d \<Rightarrow> bad_target (gw_asset_id d) (gw_available_at d) (metric_target archive (de_metric_result_id row)))
          (ar_evidence archive))
        ''historical diagnostic evidence is missing, foreign, or future''))))"

section \<open>Acyclic dependencies\<close>

definition metric_edges :: "archive \<Rightarrow> (uuid \<times> uuid) list" where
  \<comment> \<open>parent and input; a join without the segments\<close>
  "metric_edges archive =
     (let tables = ar_sequences archive in
      concat (map (\<lambda>(i, row). concat (map (\<lambda>(sid, smeta). if sid \<noteq> mw_metric_sequence_id row then [] else
        concat (map (\<lambda>((rsid, p), gid). if rsid \<noteq> sid then [] else
          concat (map (\<lambda>((mgid, q), input). if mgid \<noteq> gid then [] else [(i, input)]) (st_members tables)))
          (st_references tables))) (st_sequences tables))) (ar_metrics archive)))"

text \<open>
  \<^verbatim>\<open>while remaining\<close>: up to 256 nodes without remaining dependencies are deleted at a
  time, and their parents' counts go down by the number of edges to them.
\<close>

definition ready_nodes :: "(uuid, int) dict \<Rightarrow> uuid list" where
  "ready_nodes nodes = take 256 (sort (map fst (filter (\<lambda>(i, n). n = 0) nodes)))"

definition without_ready :: "(uuid \<times> uuid) list \<Rightarrow> uuid list \<Rightarrow> (uuid, int) dict \<Rightarrow> (uuid, int) dict" where
  "without_ready edges ready nodes =
     filter (\<lambda>(i, n). i \<notin> set ready)
       (map (\<lambda>(i, n). (i, n - int (length (filter (\<lambda>(p, input). p = i \<and> input \<in> set ready) edges)))) nodes)"

function remove_ready :: "(uuid \<times> uuid) list \<Rightarrow> (uuid, int) dict \<Rightarrow> nat \<Rightarrow> unit result" where
  "remove_ready edges nodes remaining =
     (if remaining = 0 then Inr ()
      else
        let ready = ready_nodes nodes in
        if ready = [] then Inl (ArchiveError ''historical metric dependency graph contains a cycle'')
        else remove_ready edges (without_ready edges ready nodes) (remaining - length ready))"
  by pat_completeness auto
termination by (relation "measure (\<lambda>(edges, nodes, remaining). remaining)") auto

declare remove_ready.simps [simp del]

definition validate_metric_acyclic :: "archive \<Rightarrow> unit result" where
  "validate_metric_acyclic archive =
     (let edges = metric_edges archive;
          nodes = map (\<lambda>(i, row). (i, int (length (filter (\<lambda>(p, input). p = i) edges)))) (ar_metrics archive) in
      remove_ready edges nodes (length nodes))"

section \<open>Ownership\<close>

definition validate_archive_sequences :: "archive \<Rightarrow> unit result" where
  "validate_archive_sequences archive =
     (let tables = ar_sequences archive in
      bind_r (require_unit (list_all (\<lambda>(sid, meta).
            list_ex (\<lambda>(i, row). mw_observation_sequence_id row = sid \<or> mw_metric_sequence_id row = sid) (ar_metrics archive) \<or>
            list_ex (\<lambda>(k, row). cw_metric_sequence_id row = sid) (ar_components archive)) (st_sequences tables))
        ''historical analytical archive has an unreferenced sequence'') (\<lambda>_.
      bind_r (require_unit (list_all (\<lambda>(gid, meta). list_ex (\<lambda>(k, gid'). gid' = gid) (st_references tables)) (st_segments tables))
        ''historical analytical archive has an unreferenced segment'') (\<lambda>_.
      bind_r (require_unit (list_all (\<lambda>((gid, q), i). dict_get (st_segments tables) gid \<noteq> None) (st_members tables))
        ''historical analytical archive has a segment member without a segment'') (\<lambda>_.
      require_unit (list_all (\<lambda>((sid, p), gid).
            case (dict_get (st_sequences tables) sid, dict_get (st_segments tables) gid) of
              (Some smeta, Some gmeta) \<Rightarrow> mr_link_type smeta = mr_link_type gmeta
            | _ \<Rightarrow> False) (st_references tables))
        ''historical analytical sequence links are incomplete or incompatible''))))"

record validation_summary =
  vs_metric_count :: nat
  vs_diagnostic_count :: nat
  vs_metric_observation_links :: nat
  vs_metric_metric_links :: nat
  vs_diagnostic_component_links :: nat
  vs_diagnostic_evidence_links :: nat
  vs_sequence_count :: nat
  vs_segment_count :: nat

definition counted_links :: "sequence_tables \<Rightarrow> (string \<Rightarrow> bool) \<Rightarrow> string list \<Rightarrow> nat" where
  \<comment> \<open>\<^verbatim>\<open>sum(item_count)\<close> of the joined sequences\<close>
  "counted_links tables of_type ids =
     sum_list (map (\<lambda>i. sum_list (map (\<lambda>(sid, meta). if sid = i \<and> of_type (mr_link_type meta) then mr_item_count meta else 0)
       (st_sequences tables))) ids)"

definition verify_historical_archive :: "observation_index \<Rightarrow> archive \<Rightarrow> validation_summary result" where
  "verify_historical_archive observations archive =
     bind_r (validate_archive_sequences archive) (\<lambda>_.
     bind_r (validate_reference_rows observations archive) (\<lambda>_.
     bind_r (validate_metric_acyclic archive) (\<lambda>_.
       let tables = ar_sequences archive in
       Inr \<lparr>vs_metric_count = length (ar_metrics archive), vs_diagnostic_count = length (ar_diagnostics archive),
            vs_metric_observation_links = counted_links tables (\<lambda>t. t = ''metric-input-observation-v1'')
              (map (\<lambda>(i, row). mw_observation_sequence_id row) (ar_metrics archive)),
            vs_metric_metric_links = counted_links tables (\<lambda>t. t = ''metric-input-result-v1'')
              (map (\<lambda>(i, row). mw_metric_sequence_id row) (ar_metrics archive)),
            vs_diagnostic_component_links = counted_links tables (\<lambda>t. True)
              (map (\<lambda>(k, row). cw_metric_sequence_id row) (ar_components archive)),
            vs_diagnostic_evidence_links = length (ar_evidence archive),
            vs_sequence_count = length (st_sequences tables), vs_segment_count = length (st_segments tables)\<rparr>)))"

section \<open>Removing ready nodes decides acyclicity\<close>

text \<open>\<open>nodes\<close> hold the number of edges from a node to nodes that have not been removed.\<close>

definition counts_edges :: "(uuid \<times> uuid) list \<Rightarrow> uuid set \<Rightarrow> (uuid, int) dict \<Rightarrow> bool" where
  "counts_edges edges removed nodes \<longleftrightarrow>
     (\<forall>(i, n) \<in> set nodes. n = int (length (filter (\<lambda>(p, input). p = i \<and> input \<notin> removed) edges)))"

lemma ready_nodes_spec:
  "set (ready_nodes nodes) \<subseteq> {i. (i, 0) \<in> set nodes}" "ready_nodes nodes = [] \<longleftrightarrow> (\<forall>(i, n) \<in> set nodes. n \<noteq> 0)"
  "distinct (map fst nodes) \<Longrightarrow> distinct (ready_nodes nodes)"
proof -
  show "set (ready_nodes nodes) \<subseteq> {i. (i, 0) \<in> set nodes}"
    unfolding ready_nodes_def by (auto dest!: in_set_takeD)
  have "sort xs = [] \<longleftrightarrow> xs = []" for xs :: "uuid list" by (metis set_empty set_sort)
  then show "ready_nodes nodes = [] \<longleftrightarrow> (\<forall>(i, n) \<in> set nodes. n \<noteq> 0)"
    by (auto simp: ready_nodes_def filter_empty_conv)
  show "distinct (map fst nodes) \<Longrightarrow> distinct (ready_nodes nodes)"
    by (simp add: ready_nodes_def distinct_map_filter)
qed

lemma counts_without_ready:
  assumes "counts_edges edges removed nodes" and "set ready \<inter> removed = {}"
  shows "counts_edges edges (removed \<union> set ready) (without_ready edges ready nodes)"
proof -
  have split: "length (filter (\<lambda>(p, input). p = i \<and> input \<notin> removed) es) =
      length (filter (\<lambda>(p, input). p = i \<and> input \<notin> removed \<union> set ready) es) +
      length (filter (\<lambda>(p, input). p = i \<and> input \<in> set ready) es)" for i es
    using assms(2) by (induction es) auto
  show ?thesis unfolding counts_edges_def
  proof (intro ballI, clarify)
    fix i n assume "(i, n) \<in> set (without_ready edges ready nodes)"
    then obtain n0 where n0: "(i, n0) \<in> set nodes"
      "n = n0 - int (length (filter (\<lambda>(p, input). p = i \<and> input \<in> set ready) edges))"
      by (auto simp: without_ready_def)
    with assms(1) have "n0 = int (length (filter (\<lambda>(p, input). p = i \<and> input \<notin> removed) edges))"
      by (auto simp: counts_edges_def)
    with n0(2) show "n = int (length (filter (\<lambda>(p, input). p = i \<and> input \<notin> removed \<union> set ready) edges))"
      unfolding split by simp
  qed
qed

lemma removed_nodes:
  assumes "distinct (map fst nodes)" and "set ready \<subseteq> fst ` set nodes" and "distinct ready"
  shows "distinct (map fst (without_ready edges ready nodes))"
    and "fst ` set (without_ready edges ready nodes) = fst ` set nodes - set ready"
    and "length (without_ready edges ready nodes) = length nodes - length ready"
proof -
  have fst: "map fst (without_ready edges ready nodes) = filter (\<lambda>i. i \<notin> set ready) (map fst nodes)"
    by (induction nodes) (auto simp: without_ready_def)
  show "distinct (map fst (without_ready edges ready nodes))" unfolding fst using assms(1) by (rule distinct_filter)
  have set: "set (map fst (without_ready edges ready nodes)) = set (map fst nodes) - set ready" unfolding fst by auto
  then show "fst ` set (without_ready edges ready nodes) = fst ` set nodes - set ready" by simp
  have "length (without_ready edges ready nodes) = card (set (map fst (without_ready edges ready nodes)))"
    using \<open>distinct (map fst (without_ready edges ready nodes))\<close> by (metis distinct_card length_map)
  also have "\<dots> = card (set (map fst nodes)) - card (set ready)"
    unfolding set by (rule card_Diff_subset) (use assms(2) in auto)
  also have "\<dots> = length nodes - length ready"
    using assms(1,3) by (metis distinct_card length_map)
  finally show "length (without_ready edges ready nodes) = length nodes - length ready" .
qed

text \<open>
  A set of removed nodes is closed when every edge from it leads into it, and has no cycle: the
  nodes removed so far. When no node is ready the remaining ones all have an edge that leads out
  of the removed set.
\<close>

lemma remove_ready_decides:
  assumes "distinct (map fst nodes)" and "counts_edges edges removed nodes" and "fst ` set nodes \<inter> removed = {}"
    and "fst ` set edges \<subseteq> fst ` set nodes \<union> removed"
    and "\<forall>(p, i) \<in> set edges. p \<in> removed \<longrightarrow> i \<in> removed" and "acyclic {(p, i) \<in> set edges. p \<in> removed}"
  shows "remove_ready edges nodes (length nodes) = Inr () \<longleftrightarrow>
    acyclic (set edges) \<and> snd ` set edges \<subseteq> fst ` set nodes \<union> removed"
  using assms
proof (induction "length nodes" arbitrary: nodes removed rule: less_induct)
  case less
  show ?case
  proof (cases "nodes = []")
    case True
    then have "{(p, i) \<in> set edges. p \<in> removed} = set edges" using less.prems(4) by auto
    moreover have "snd ` set edges \<subseteq> removed" using less.prems(4,5) True by fastforce
    ultimately show ?thesis using True less.prems(6) by (simp add: remove_ready.simps)
  next
    case nonempty: False
    show ?thesis
    proof (cases "ready_nodes nodes = []")
      case True
      have out: "\<exists>i. (p, i) \<in> set edges \<and> i \<notin> removed" if "p \<in> fst ` set nodes" for p
      proof -
        from that obtain n where n: "(p, n) \<in> set nodes" by force
        with True have "n \<noteq> 0" unfolding ready_nodes_spec(2) by blast
        moreover have "n = int (length (filter (\<lambda>(p', input). p' = p \<and> input \<notin> removed) edges))"
          using less.prems(2) n by (auto simp: counts_edges_def)
        ultimately have "filter (\<lambda>(p', input). p' = p \<and> input \<notin> removed) edges \<noteq> []" by auto
        then show ?thesis by (auto simp: filter_empty_conv)
      qed
      have False if acyclic: "acyclic (set edges)" and closed_under: "snd ` set edges \<subseteq> fst ` set nodes \<union> removed"
      proof -
        from acyclic have "wf ((set edges)\<inverse>)" by (simp add: finite_acyclic_wf_converse)
        moreover obtain p0 where "p0 \<in> fst ` set nodes" using nonempty by (cases nodes) auto
        ultimately obtain p where p: "p \<in> fst ` set nodes" "\<And>i. (i, p) \<in> (set edges)\<inverse> \<Longrightarrow> i \<notin> fst ` set nodes"
          by (metis wfE_min)
        from out [OF p(1)] obtain i where i: "(p, i) \<in> set edges" "i \<notin> removed" by blast
        then have "i \<in> fst ` set nodes" using closed_under by force
        with p(2) i(1) show False by blast
      qed
      with True nonempty show ?thesis by (auto simp: remove_ready.simps)
    next
      case False
      let ?ready = "ready_nodes nodes"
      let ?nodes = "without_ready edges ?ready nodes" and ?removed = "removed \<union> set ?ready"
      have ready: "set ?ready \<subseteq> {i. (i, 0) \<in> set nodes}" "distinct ?ready"
        using ready_nodes_spec(1,3) less.prems(1) by blast+
      then have sub: "set ?ready \<subseteq> fst ` set nodes" by force
      note nodes = removed_nodes [OF less.prems(1) sub ready(2), of edges]
      have inputs: "i \<in> removed" if "(p, i) \<in> set edges" "p \<in> set ?ready" for p i
      proof (rule ccontr)
        assume "i \<notin> removed"
        with that(1) have "filter (\<lambda>(p', input). p' = p \<and> input \<notin> removed) edges \<noteq> []"
          by (auto simp: filter_empty_conv)
        moreover have "(p, 0) \<in> set nodes" using ready(1) that(2) by blast
        ultimately show False using less.prems(2) by (fastforce simp: counts_edges_def)
      qed
      have a: "fst ` set ?nodes \<inter> ?removed = {}" using nodes(2) less.prems(3) by blast
      have b: "fst ` set edges \<subseteq> fst ` set ?nodes \<union> ?removed" using nodes(2) less.prems(4) by blast
      have c: "\<forall>(p, i) \<in> set edges. p \<in> ?removed \<longrightarrow> i \<in> ?removed" using less.prems(5) inputs by blast
      have d: "acyclic {(p, i) \<in> set edges. p \<in> ?removed}"
      proof -
        let ?old = "{(p, i) \<in> set edges. p \<in> removed}" and ?new = "{(p, i) \<in> set edges. p \<in> set ?ready}"
        have disjoint: "set ?ready \<inter> removed = {}" using sub less.prems(3) by blast
        have old_stays: "i \<in> removed" if "(p, i) \<in> ?old\<^sup>+" for p i
          using that less.prems(5) by (induction rule: trancl_induct) auto
        have "acyclic (?old \<union> ?new)"
        proof (rule acyclicI, rule allI, rule notI)
          fix x assume cycle: "(x, x) \<in> (?old \<union> ?new)\<^sup>+"
          have path: "y \<in> removed \<and> (x \<in> removed \<longrightarrow> (x, y) \<in> ?old\<^sup>+)" if "(x, y) \<in> (?old \<union> ?new)\<^sup>+" for y
            using that
          proof (induction rule: trancl_induct)
            case (base y)
            then have "y \<in> removed" using inputs less.prems(5) by blast
            with base disjoint show ?case by blast
          next
            case (step y z)
            then have yz: "(y, z) \<in> ?old" using disjoint by blast
            then have "z \<in> removed" using less.prems(5) by blast
            moreover have "(x, z) \<in> ?old\<^sup>+" if "x \<in> removed"
              using step.IH that yz by (blast intro: trancl_into_trancl)
            ultimately show ?case by blast
          qed
          from path [OF cycle] have "(x, x) \<in> ?old\<^sup>+" by blast
          with less.prems(6) show False by (simp add: acyclic_def)
        qed
        moreover have "?old \<union> ?new = {(p, i) \<in> set edges. p \<in> ?removed}" by auto
        ultimately show ?thesis by simp
      qed
      have e: "counts_edges edges ?removed ?nodes"
        by (rule counts_without_ready [OF less.prems(2)]) (use sub less.prems(3) in blast)
      have less: "length ?nodes < length nodes"
        using False nodes(3) nonempty by (simp add: diff_less)
      have "remove_ready edges ?nodes (length ?nodes) = Inr () \<longleftrightarrow>
          acyclic (set edges) \<and> snd ` set edges \<subseteq> fst ` set ?nodes \<union> ?removed"
        by (rule less.hyps [OF less nodes(1) e a b c d])
      moreover have "fst ` set ?nodes \<union> ?removed = fst ` set nodes \<union> removed" using nodes(2) sub by blast
      ultimately show ?thesis
        using False nonempty nodes(3) by (subst remove_ready.simps) (simp add: Let_def)
    qed
  qed
qed

end
