(* ===== verification/HistoricalImport.thy ===== *)
theory HistoricalImport
  imports Loops ArchiveValidation Repositories
begin

text \<open>
  The resumable import of the persisted metric and diagnostic history into the archive
  (\<^verbatim>\<open>storage/historical_analytical_import.py\<close>) and the row inventory of the archive
  (\<^verbatim>\<open>verify_rows\<close>, \<^verbatim>\<open>verify_complete\<close>). The importer reads the source repositories, writes the
  archive page by page and commits a checkpoint after each page; it may be interrupted at every
  point where the code calls its failure injector or commits the checkpoint.

  The code writes the metric and the diagnostic variant of each loop out; a \<open>family\<close> holds what
  differs. The checkpoint file holds the value it parses to; \<open>iw_faults\<close> says which of the next
  interruption points fail. The length check of \<^verbatim>\<open>extend_digest\<close> is left out: SHA-256 digests
  have 64 characters.
\<close>

section \<open>State\<close>

datatype import_phase = METRICS | DIAGNOSTICS | VERIFICATION | COMPLETE

type_synonym import_cursor = "utc \<times> uuid"

record import_state =
  is_source_workspace_id :: string
  is_source_fingerprint :: string
  is_raw_digest :: string
  is_observation_digest :: string
  is_staging_id :: string
  is_phase :: import_phase
  is_metric_cursor :: "import_cursor option"
  is_diagnostic_cursor :: "import_cursor option"
  is_metric_count :: nat
  is_diagnostic_count :: nat
  is_metric_digest :: string
  is_diagnostic_digest :: string
  is_complete :: bool
  is_page_limit :: int
  is_updated_at :: utc

record corpus_inventory =
  ci_count :: nat
  ci_corpus_digest :: string
  ci_counts_by_asset :: "(string, nat) dict"
  ci_counts_by_category :: "(string, nat) dict"
  ci_counts_by_uuid_version :: "(string, nat) dict"
  ci_max_page_requested :: int
  ci_max_page_hydrated :: nat

record import_summary =
  sm_source_workspace_id :: string
  sm_source_fingerprint :: string
  sm_raw_digest :: string
  sm_observation_digest :: string
  sm_metric_digest :: string
  sm_diagnostic_digest :: string
  sm_metric_count :: nat
  sm_diagnostic_count :: nat
  sm_metrics_by_asset :: "(string, nat) dict"
  sm_metrics_by_key :: "(string, nat) dict"
  sm_metrics_by_uuid_version :: "(string, nat) dict"
  sm_diagnostics_by_asset :: "(string, nat) dict"
  sm_diagnostics_by_mode :: "(string, nat) dict"
  sm_metric_created_count :: nat
  sm_metric_reused_count :: nat
  sm_diagnostic_created_count :: nat
  sm_diagnostic_reused_count :: nat
  sm_max_page_requested :: int
  sm_max_page_hydrated :: nat

text \<open>
  What the importer is built with: the source tables, the environment of the archive, the
  observations its graph check reads, the digests of the verified raw and observation imports and
  the digests of JSON documents.
\<close>

record importer =
  im_metrics :: metric_table
  im_diagnostics :: diagnostic_table
  im_archive_env :: archive_env
  im_observations :: observation_index
  im_page_limit :: int
  im_clock :: "nat \<Rightarrow> py_datetime"
  im_allow_source_transition :: bool
  im_workspace_id :: string
  im_staging_id :: string
  im_prerequisites :: "(string \<times> string) result"
  im_payload_hash :: "(string \<times> string) list \<Rightarrow> string"
  im_state_hash :: "import_state \<Rightarrow> string"

record import_world =
  iw_archive :: archive
  iw_state :: "import_state option"
  iw_preserved :: "(string, import_state) dict"
  iw_ticks :: nat
  iw_faults :: "bool list"

section \<open>Families\<close>

record 'r family =
  fa_name :: string
  fa_page :: "int \<Rightarrow> import_cursor option \<Rightarrow> uuid list result"
  fa_get_many :: "uuid list \<Rightarrow> (uuid, 'r) dict result"
  fa_target_page :: "archive \<Rightarrow> int \<Rightarrow> import_cursor option \<Rightarrow> uuid list result"
  fa_target_get :: "archive \<Rightarrow> uuid list \<Rightarrow> (uuid, 'r) dict result"
  fa_save :: "archive \<Rightarrow> 'r list \<Rightarrow> ((uuid list \<times> uuid list) \<times> archive) result"
  fa_key :: "'r \<Rightarrow> uuid"
  fa_avail :: "'r \<Rightarrow> utc"
  fa_eq :: "'r \<Rightarrow> 'r \<Rightarrow> bool"
  fa_checksum :: "'r \<Rightarrow> string"
  fa_asset :: "'r \<Rightarrow> string"
  fa_category :: "'r \<Rightarrow> string"
  fa_version :: "'r \<Rightarrow> string option"
  fa_progress :: "import_state \<Rightarrow> import_cursor option \<times> nat \<times> string"
  fa_set_progress :: "import_cursor option \<times> nat \<times> string \<Rightarrow> import_state \<Rightarrow> import_state"

definition metric_family :: "importer \<Rightarrow> metric_result family" where
  "metric_family I =
     \<lparr>fa_name = ''metric'', fa_page = with_cursor list_metric_import_page (im_metrics I),
      fa_get_many = get_many_documents (im_metrics I),
      fa_target_page = list_archive_metric_ids,
      fa_target_get = get_metrics (im_archive_env I),
      fa_save = save_archive_metrics (im_archive_env I),
      fa_key = m_result_id, fa_avail = m_available_at, fa_eq = metric_eq,
      fa_checksum = ae_metric_checksum (im_archive_env I),
      fa_asset = m_asset_id, fa_category = m_metric_key,
      fa_version = (\<lambda>m. Some (digits_of (id_version (m_result_id m)))),
      fa_progress = (\<lambda>s. (is_metric_cursor s, is_metric_count s, is_metric_digest s)),
      fa_set_progress = (\<lambda>(cursor, n, digest) s.
        s\<lparr>is_metric_cursor := cursor, is_metric_count := n, is_metric_digest := digest\<rparr>)\<rparr>"

definition diagnostic_family :: "importer \<Rightarrow> diagnostic_result family" where
  "diagnostic_family I =
     \<lparr>fa_name = ''diagnostic'', fa_page = with_cursor list_diagnostic_import_page (im_diagnostics I),
      fa_get_many = get_many_documents (im_diagnostics I),
      fa_target_page = list_archive_diagnostic_ids,
      fa_target_get = get_diagnostics (im_archive_env I),
      fa_save = save_archive_diagnostics (im_archive_env I),
      fa_key = d_diagnostic_id, fa_avail = d_available_at, fa_eq = diagnostic_eq,
      fa_checksum = ae_diagnostic_checksum (im_archive_env I),
      fa_asset = d_asset_id, fa_category = (\<lambda>d. diagnostic_mode_value (d_mode d)),
      fa_version = (\<lambda>d. None),
      fa_progress = (\<lambda>s. (is_diagnostic_cursor s, is_diagnostic_count s, is_diagnostic_digest s)),
      fa_set_progress = (\<lambda>(cursor, n, digest) s.
        s\<lparr>is_diagnostic_cursor := cursor, is_diagnostic_count := n, is_diagnostic_digest := digest\<rparr>)\<rparr>"

section \<open>Digests\<close>

definition EMPTY_DIGEST :: "importer \<Rightarrow> string" where
  "EMPTY_DIGEST I = ae_sha (im_archive_env I) []"

definition extend_digest :: "importer \<Rightarrow> string \<Rightarrow> string \<Rightarrow> string" where
  "extend_digest I accumulated checksum = ae_sha (im_archive_env I) (accumulated @ '':'' @ checksum)"

definition fold_digest :: "importer \<Rightarrow> 'r family \<Rightarrow> string \<Rightarrow> 'r \<Rightarrow> string" where
  "fold_digest I F previous m = extend_digest I previous (fa_checksum F m)"

definition cursor_at :: "'r family \<Rightarrow> 'r list \<Rightarrow> import_cursor option" where
  \<comment> \<open>the cursor after the last row of a page\<close>
  "cursor_at F ms = Some (fa_avail F (last ms), fa_key F (last ms))"

section \<open>Scanning the source\<close>

definition increment :: "(string, nat) dict \<Rightarrow> string \<Rightarrow> (string, nat) dict" where
  "increment mapping key =
     dict_set mapping key ((case dict_get mapping key of None \<Rightarrow> 0 | Some n \<Rightarrow> n) + 1)"

definition scan_row :: "importer \<Rightarrow> 'r family \<Rightarrow> 'r \<Rightarrow> corpus_inventory \<Rightarrow> corpus_inventory" where
  "scan_row I F m corpus =
     corpus\<lparr>ci_count := ci_count corpus + 1,
         ci_corpus_digest := fold_digest I F (ci_corpus_digest corpus) m,
         ci_counts_by_asset := increment (ci_counts_by_asset corpus) (fa_asset F m),
         ci_counts_by_category := increment (ci_counts_by_category corpus) (fa_category F m),
         ci_counts_by_uuid_version :=
           (case fa_version F m of None \<Rightarrow> ci_counts_by_uuid_version corpus
            | Some v \<Rightarrow> increment (ci_counts_by_uuid_version corpus) v)\<rparr>"

definition scan_step ::
  "importer \<Rightarrow> 'r family \<Rightarrow> import_cursor option \<times> corpus_inventory \<Rightarrow> (import_cursor option \<times> corpus_inventory) option result" where
  "scan_step I F = (\<lambda>(cursor, corpus).
     bind_r (fa_page F (im_page_limit I) cursor) (\<lambda>page.
     if page = [] then Inr None
     else
       bind_r (fa_get_many F page) (\<lambda>found.
       if length found \<noteq> length page then Inl (HistoricalImportError (''historical '' @ fa_name F @ '' page is incomplete''))
       else
         bind_r (models_of found page) (\<lambda>ms.
           let corpus = corpus\<lparr>ci_max_page_hydrated := max (ci_max_page_hydrated corpus) (length page)\<rparr> in
           Inr (Some (cursor_at F ms, fold (scan_row I F) ms corpus))))))"

definition empty_inventory :: "importer \<Rightarrow> corpus_inventory" where
  "empty_inventory I =
     \<lparr>ci_count = 0, ci_corpus_digest = EMPTY_DIGEST I, ci_counts_by_asset = [], ci_counts_by_category = [],
      ci_counts_by_uuid_version = [], ci_max_page_requested = im_page_limit I, ci_max_page_hydrated = 0\<rparr>"

definition scan_source :: "importer \<Rightarrow> 'r family \<Rightarrow> corpus_inventory result option" where
  "scan_source I F =
     map_option (\<lambda>r. bind_r r (\<lambda>(cursor, corpus). Inr corpus)) (read_loop (scan_step I F) (None, empty_inventory I))"

section \<open>Checkpoints\<close>

definition now :: "importer \<Rightarrow> (utc, import_world) command" where
  "now I w =
     (case im_clock I (iw_ticks w) of
        Naive t \<Rightarrow> (Inl (HistoricalImportError ''historical analytical clock must be timezone-aware''),
                     w\<lparr>iw_ticks := iw_ticks w + 1\<rparr>)
      | Aware t off \<Rightarrow> (Inr (t - off), w\<lparr>iw_ticks := iw_ticks w + 1\<rparr>))"

definition take_fault :: "py_error \<Rightarrow> (unit, import_world) command" where
  "take_fault e w =
     (case iw_faults w of
        [] \<Rightarrow> (Inr (), w)
      | True # faults \<Rightarrow> (Inl e, w\<lparr>iw_faults := faults\<rparr>)
      | False # faults \<Rightarrow> (Inr (), w\<lparr>iw_faults := faults\<rparr>))"

definition inject :: "string \<Rightarrow> (unit, import_world) command" where
  "inject point = take_fault (InjectedFault point)"

definition put_state :: "import_state \<Rightarrow> (unit, import_world) command" where
  \<comment> \<open>\<^verbatim>\<open>os.replace(temporary, path)\<close>\<close>
  "put_state st w = (Inr (), w\<lparr>iw_state := Some st\<rparr>)"

definition write_state :: "import_state \<Rightarrow> (unit, import_world) command" where
  "write_state st =
     bind_c (take_fault (HistoricalImportError ''historical analytical state could not be committed'')) (\<lambda>_. put_state st)"

definition initial_state :: "importer \<Rightarrow> string \<Rightarrow> string \<Rightarrow> string \<Rightarrow> (import_state, import_world) command" where
  "initial_state I source_fingerprint raw_digest observation_digest =
     bind_c (now I) (\<lambda>t. pure_c (Inr
       \<lparr>is_source_workspace_id = im_workspace_id I, is_source_fingerprint = source_fingerprint,
        is_raw_digest = raw_digest, is_observation_digest = observation_digest, is_staging_id = im_staging_id I,
        is_phase = METRICS, is_metric_cursor = None, is_diagnostic_cursor = None, is_metric_count = 0,
        is_diagnostic_count = 0, is_metric_digest = EMPTY_DIGEST I, is_diagnostic_digest = EMPTY_DIGEST I,
        is_complete = False, is_page_limit = im_page_limit I, is_updated_at = t\<rparr>))"

definition updated_state :: "importer \<Rightarrow> import_state \<Rightarrow> (import_state, import_world) command" where
  \<comment> \<open>the state with its updates already made, at the present time\<close>
  "updated_state I st = bind_c (now I) (\<lambda>t. pure_c (Inr (st\<lparr>is_updated_at := t\<rparr>)))"

definition source_fingerprint_of :: "importer \<Rightarrow> string \<Rightarrow> string \<Rightarrow> string \<Rightarrow> string \<Rightarrow> string" where
  "source_fingerprint_of I raw_digest observation_digest metric_digest diagnostic_digest =
     im_payload_hash I
       [(''policy_version'', ''historical-analytical-import-v1''), (''source_workspace_id'', im_workspace_id I),
        (''raw_digest'', raw_digest), (''observation_digest'', observation_digest),
        (''metric_digest'', metric_digest), (''diagnostic_digest'', diagnostic_digest)]"

definition check_state_binding :: "importer \<Rightarrow> import_state \<Rightarrow> string \<Rightarrow> string \<Rightarrow> string \<Rightarrow> unit result" where
  "check_state_binding I st source_fingerprint raw_digest observation_digest =
     (if is_source_workspace_id st \<noteq> im_workspace_id I \<or> is_source_fingerprint st \<noteq> source_fingerprint \<or>
          is_raw_digest st \<noteq> raw_digest \<or> is_observation_digest st \<noteq> observation_digest \<or>
          is_staging_id st \<noteq> im_staging_id I \<or> is_page_limit st \<noteq> im_page_limit I
        then Inl (HistoricalImportError ''historical analytical checkpoint binds to different inputs'')
      else if is_complete st \<noteq> (is_phase st = COMPLETE)
        then Inl (HistoricalImportError ''historical analytical complete flag and phase disagree'')
      else Inr ())"

definition archive_historic_state :: "importer \<Rightarrow> import_state \<Rightarrow> (unit, import_world) command" where
  \<comment> \<open>the bytes of the old checkpoint are kept under their digest\<close>
  "archive_historic_state I st w =
     (case dict_get (iw_preserved w) (im_state_hash I st) of
        Some kept \<Rightarrow>
          (if kept \<noteq> st
             then (Inl (HistoricalImportError ''historic analytical checkpoint cannot be preserved''), w)
           else (Inr (), w))
      | None \<Rightarrow> (Inr (), w\<lparr>iw_preserved := dict_set (iw_preserved w) (im_state_hash I st) st\<rparr>))"

section \<open>The confirmed prefix\<close>

definition lookup_model :: "(uuid, 'r) dict \<Rightarrow> uuid \<Rightarrow> 'r result" where
  "lookup_model d i = (case dict_get d i of None \<Rightarrow> Inl (KeyError ''identifier'') | Some m \<Rightarrow> Inr m)"

fun compare_models ::
  "importer \<Rightarrow> 'r family \<Rightarrow> string \<Rightarrow> (uuid, 'r) dict \<Rightarrow> (uuid, 'r) dict \<Rightarrow> uuid list \<Rightarrow> string \<Rightarrow> string result" where
  \<comment> \<open>every archived row is its source row; the digest goes on\<close>
  "compare_models I F message sources targets [] digest = Inr digest"
| "compare_models I F message sources targets (i # ids) digest =
     bind_r (lookup_model sources i) (\<lambda>source.
     bind_r (lookup_model targets i) (\<lambda>target.
       if \<not> fa_eq F target source then Inl (HistoricalImportError message)
       else compare_models I F message sources targets ids (fold_digest I F digest source)))"

text \<open>The source and the target cursor of the code always hold the same position.\<close>

definition prefix_step ::
  "importer \<Rightarrow> 'r family \<Rightarrow> archive \<Rightarrow> nat \<Rightarrow> import_cursor option \<times> string \<times> nat \<Rightarrow> (import_cursor option \<times> string \<times> nat) option result" where
  "prefix_step I F archive confirmed = (\<lambda>(cursor, digest, verified).
     if \<not> verified < confirmed then Inr None
     else
       let page_size = min (im_page_limit I) (int (confirmed - verified)) in
       bind_r (fa_page F page_size cursor) (\<lambda>source_ids.
       bind_r (fa_target_page F archive page_size cursor) (\<lambda>target_ids.
       bind_r (fa_get_many F source_ids) (\<lambda>source_models.
       bind_r (fa_target_get F archive target_ids) (\<lambda>target_models.
       if source_ids = [] \<or> source_ids \<noteq> target_ids
         then Inl (HistoricalImportError (''confirmed '' @ fa_name F @ ''s prefix differs from source''))
       else
         bind_r (compare_models I F (''confirmed '' @ fa_name F @ ''s content differs from source'') source_models target_models source_ids digest)
           (\<lambda>digest.
         bind_r (lookup_model source_models (last source_ids)) (\<lambda>m.
           Inr (Some (cursor_at F [m], digest, verified + length source_ids)))))))))"

definition validate_confirmed_prefix ::
  "importer \<Rightarrow> 'r family \<Rightarrow> import_state \<Rightarrow> archive \<Rightarrow> unit result option" where
  "validate_confirmed_prefix I F st archive =
     (let (expected_cursor, confirmed, expected_digest) = fa_progress F st in
      map_option (\<lambda>r. bind_r r (\<lambda>(cursor, digest, verified).
          if confirmed = 0
            then (if expected_cursor \<noteq> None \<or> expected_digest \<noteq> EMPTY_DIGEST I
                    then Inl (HistoricalImportError (''empty '' @ fa_name F @ ''s cursor or digest is inconsistent'')) else Inr ())
          else if cursor \<noteq> expected_cursor \<or> digest \<noteq> expected_digest
            then Inl (HistoricalImportError (''confirmed '' @ fa_name F @ ''s cursor or digest is inconsistent''))
          else Inr ()))
        (read_loop (prefix_step I F archive confirmed) (None, EMPTY_DIGEST I, 0)))"

definition check_complete_source :: "importer \<Rightarrow> 'r family \<Rightarrow> import_state \<Rightarrow> unit result option" where
  "check_complete_source I F st =
     (let (cursor, confirmed, digest) = fa_progress F st in
      map_option (\<lambda>r. bind_r r (\<lambda>corpus.
          if confirmed \<noteq> ci_count corpus \<or> digest \<noteq> ci_corpus_digest corpus
            then Inl (HistoricalImportError (''confirmed '' @ fa_name F @ '' phase does not match complete source'')) else Inr ()))
        (scan_source I F))"

definition validate_confirmed_prefixes :: "importer \<Rightarrow> import_state \<Rightarrow> archive \<Rightarrow> (unit, import_world) action" where
  "validate_confirmed_prefixes I st archive =
     bind_a (read_a (validate_confirmed_prefix I (metric_family I) st archive)) (\<lambda>_.
     bind_a (read_a (validate_confirmed_prefix I (diagnostic_family I) st archive)) (\<lambda>_.
     bind_a (pure_a
       (if is_phase st = METRICS \<and> (is_diagnostic_count st \<noteq> 0 \<or> is_diagnostic_cursor st \<noteq> None \<or>
             is_diagnostic_digest st \<noteq> EMPTY_DIGEST I)
          then Inl (HistoricalImportError ''diagnostic checkpoint exists before metric phase completes'')
        else Inr ())) (\<lambda>_.
     bind_a (if is_phase st \<in> {DIAGNOSTICS, VERIFICATION, COMPLETE}
               then read_a (check_complete_source I (metric_family I) st) else pure_a (Inr ())) (\<lambda>_.
       if is_phase st \<in> {VERIFICATION, COMPLETE}
         then read_a (check_complete_source I (diagnostic_family I) st) else pure_a (Inr ())))))"

section \<open>Importing\<close>

definition save_page :: "'r family \<Rightarrow> 'r list \<Rightarrow> (uuid list \<times> uuid list, import_world) command" where
  \<comment> \<open>one transaction of the archive\<close>
  "save_page F ms w =
     (case fa_save F (iw_archive w) ms of
        Inl e \<Rightarrow> (Inl e, w)
      | Inr (receipt, archive) \<Rightarrow> (Inr receipt, w\<lparr>iw_archive := archive\<rparr>))"

definition read_archive :: "(archive \<Rightarrow> 'a result) \<Rightarrow> ('a, import_world) command" where
  "read_archive f w = (f (iw_archive w), w)"

type_synonym import_locals = "import_state \<times> nat \<times> nat \<times> nat"

definition import_step :: "importer \<Rightarrow> 'r family \<Rightarrow> (import_locals, import_world) iteration" where
  \<comment> \<open>the checkpoint, the rows created and reused, and the largest page\<close>
  "import_step I F = (\<lambda>(st, created, reused, hydrated).
     let (cursor, confirmed, digest) = fa_progress F st in
     bind_c (pure_c (fa_page F (im_page_limit I) cursor)) (\<lambda>page.
     if page = [] then pure_c (Inr None)
     else
       bind_c (pure_c (fa_get_many F page)) (\<lambda>records.
       bind_c (pure_c (models_of records page)) (\<lambda>ordered.
       bind_c (inject (''before_'' @ fa_name F @ ''_page_write'')) (\<lambda>_.
       bind_c (save_page F ordered) (\<lambda>(new, old).
       bind_c (inject (''after_'' @ fa_name F @ ''_page_commit_before_state'')) (\<lambda>_.
       bind_c (read_archive (\<lambda>archive. fa_target_get F archive page)) (\<lambda>reread.
       bind_c (pure_c (compare_models I F (''archived '' @ fa_name F @ '' differs from source'') records reread page digest)) (\<lambda>digest.
       bind_c (updated_state I (fa_set_progress F (cursor_at F ordered, confirmed + length page, digest) st)) (\<lambda>st.
       bind_c (write_state st) (\<lambda>_.
       bind_c (inject (''after_'' @ fa_name F @ ''_page_state'')) (\<lambda>_.
         pure_c (Inr (Some (st, created + length new, reused + length old, max hydrated (length page))))))))))))))))"

definition import_family_rows :: "importer \<Rightarrow> 'r family \<Rightarrow> import_state \<Rightarrow> (import_locals, import_world) action" where
  "import_family_rows I F st = run_loop (import_step I F) (st, 0, 0, 0)"

definition import_metrics :: "importer \<Rightarrow> import_state \<Rightarrow> (import_locals, import_world) action" where
  "import_metrics I = import_family_rows I (metric_family I)"

definition import_diagnostics :: "importer \<Rightarrow> import_state \<Rightarrow> (import_locals, import_world) action" where
  "import_diagnostics I = import_family_rows I (diagnostic_family I)"

section \<open>Verifying\<close>

type_synonym verify_locals = "import_cursor option \<times> string \<times> nat \<times> bool"

definition verify_step :: "importer \<Rightarrow> 'r family \<Rightarrow> bool \<Rightarrow> (verify_locals, import_world) iteration" where
  "verify_step I F inject_during_verification = (\<lambda>(cursor, digest, confirmed, injected).
     bind_c (pure_c (fa_page F (im_page_limit I) cursor)) (\<lambda>source_ids.
     bind_c (read_archive (\<lambda>archive. fa_target_page F archive (im_page_limit I) cursor)) (\<lambda>target_ids.
     bind_c (pure_c (fa_get_many F source_ids)) (\<lambda>source_models.
     bind_c (read_archive (\<lambda>archive. fa_target_get F archive target_ids)) (\<lambda>target_models.
     if source_ids = [] \<and> target_ids = [] then pure_c (Inr None)
     else if source_ids = [] \<or> source_ids \<noteq> target_ids
       then pure_c (Inl (HistoricalImportError (''historical '' @ fa_name F @ ''s inventory differs from source'')))
     else
       bind_c (pure_c (compare_models I F (''historical '' @ fa_name F @ ''s model differs from source'') source_models target_models source_ids digest))
         (\<lambda>digest.
       bind_c (pure_c (lookup_model source_models (last source_ids))) (\<lambda>m.
       bind_c (if inject_during_verification \<and> \<not> injected then inject ''during_final_verification'' else pure_c (Inr ()))
         (\<lambda>_. pure_c (Inr (Some
            (cursor_at F [m], digest, confirmed + length source_ids, inject_during_verification \<or> injected)))))))))))"

definition verify_inventory :: "importer \<Rightarrow> 'r family \<Rightarrow> corpus_inventory \<Rightarrow> bool \<Rightarrow> (unit, import_world) action" where
  "verify_inventory I F expected inject_during_verification =
     bind_a (run_loop (verify_step I F inject_during_verification) (None, EMPTY_DIGEST I, 0, False))
       (\<lambda>(cursor, digest, confirmed, injected). pure_a
         (if confirmed \<noteq> ci_count expected \<or> digest \<noteq> ci_corpus_digest expected
            then Inl (HistoricalImportError (''historical '' @ fa_name F @ ''s digest differs from source'')) else Inr ()))"

record rows_summary =
  rs_metric_count :: nat
  rs_diagnostic_count :: nat
  rs_metric_digest :: string
  rs_diagnostic_digest :: string
  rs_metric_cursor :: "import_cursor option"
  rs_diagnostic_cursor :: "import_cursor option"

definition rows_step ::
  "importer \<Rightarrow> 'r family \<Rightarrow> archive \<Rightarrow> import_cursor option \<times> string \<times> nat \<Rightarrow> (import_cursor option \<times> string \<times> nat) option result" where
  "rows_step I F archive = (\<lambda>(cursor, digest, confirmed).
     bind_r (fa_target_page F archive (int ARCHIVE_BATCH) cursor) (\<lambda>ids.
     if ids = [] then Inr None
     else
       bind_r (fa_target_get F archive ids) (\<lambda>found.
       bind_r (models_of found ids) (\<lambda>ms.
         Inr (Some (cursor_at F ms, foldl (fold_digest I F) digest ms, confirmed + length found))))))"

definition family_rows :: "importer \<Rightarrow> 'r family \<Rightarrow> archive \<Rightarrow> (import_cursor option \<times> string \<times> nat) result option" where
  "family_rows I F archive = read_loop (rows_step I F archive) (None, EMPTY_DIGEST I, 0)"

definition verify_rows :: "importer \<Rightarrow> archive \<Rightarrow> (rows_summary, import_world) action" where
  "verify_rows I archive =
     bind_a (read_a (family_rows I (metric_family I) archive)) (\<lambda>(metric_cursor, metric_digest, metric_count).
     bind_a (read_a (family_rows I (diagnostic_family I) archive)) (\<lambda>(diagnostic_cursor, diagnostic_digest, diagnostic_count).
     bind_a (pure_a (validate_archive_sequences archive)) (\<lambda>_. pure_a (Inr
       \<lparr>rs_metric_count = metric_count, rs_diagnostic_count = diagnostic_count,
        rs_metric_digest = metric_digest, rs_diagnostic_digest = diagnostic_digest,
        rs_metric_cursor = metric_cursor, rs_diagnostic_cursor = diagnostic_cursor\<rparr>))))"

definition verify_archive_complete :: "importer \<Rightarrow> (validation_summary, import_world) action" where
  "verify_archive_complete I w =
     bind_a (verify_rows I (iw_archive w))
       (\<lambda>_. pure_a (verify_historical_archive (im_observations I) (iw_archive w))) w"

section \<open>The whole import\<close>

definition resume_state :: "importer \<Rightarrow> string \<Rightarrow> string \<Rightarrow> string \<Rightarrow> (import_state, import_world) action" where
  \<comment> \<open>the checkpoint to go on from\<close>
  "resume_state I source_fingerprint raw_digest observation_digest w =
     (let fresh = bind_c (initial_state I source_fingerprint raw_digest observation_digest) (\<lambda>st.
            bind_c (write_state st) (\<lambda>_. pure_c (Inr st))) in
      case iw_state w of
        None \<Rightarrow> run_c fresh w
      | Some st \<Rightarrow>
          (case check_state_binding I st source_fingerprint raw_digest observation_digest of
             Inl e \<Rightarrow>
               (if \<not> im_allow_source_transition I then Some (Inl e, w)
                else run_c (bind_c (archive_historic_state I st) (\<lambda>_. fresh)) w)
           | Inr _ \<Rightarrow> bind_a (validate_confirmed_prefixes I st (iw_archive w)) (\<lambda>_. pure_a (Inr st)) w))"

definition next_phase :: "importer \<Rightarrow> import_phase \<Rightarrow> bool \<Rightarrow> import_state \<Rightarrow> (import_state, import_world) action" where
  "next_phase I phase finished st =
     run_c (bind_c (updated_state I (st\<lparr>is_phase := phase, is_complete := finished\<rparr>)) (\<lambda>st.
       bind_c (write_state st) (\<lambda>_. pure_c (Inr st))))"

definition metric_phase :: "importer \<Rightarrow> import_state \<Rightarrow> (import_locals, import_world) action" where
  "metric_phase I st =
     (if is_phase st = METRICS
        then bind_a (import_metrics I st) (\<lambda>(st, counts).
             bind_a (next_phase I DIAGNOSTICS (is_complete st) st) (\<lambda>st. pure_a (Inr (st, counts))))
      else pure_a (Inr (st, 0, 0, 0)))"

definition diagnostic_phase :: "importer \<Rightarrow> import_state \<Rightarrow> (import_locals, import_world) action" where
  "diagnostic_phase I st =
     (if is_phase st = DIAGNOSTICS
        then bind_a (import_diagnostics I st) (\<lambda>(st, counts).
             bind_a (next_phase I VERIFICATION (is_complete st) st) (\<lambda>st. pure_a (Inr (st, counts))))
      else pure_a (Inr (st, 0, 0, 0)))"

definition verification_phase ::
  "importer \<Rightarrow> corpus_inventory \<Rightarrow> corpus_inventory \<Rightarrow> import_state \<Rightarrow> (import_state, import_world) action" where
  "verification_phase I metric_inventory diagnostic_inventory st =
     (if is_phase st \<in> {VERIFICATION, COMPLETE}
        then
          bind_a (verify_inventory I (metric_family I) metric_inventory (is_phase st \<noteq> COMPLETE)) (\<lambda>_.
          bind_a (verify_inventory I (diagnostic_family I) diagnostic_inventory False) (\<lambda>_.
          bind_a (verify_archive_complete I) (\<lambda>_.
            if is_phase st \<noteq> COMPLETE then next_phase I COMPLETE True st else pure_a (Inr st))))
      else pure_a (Inr st))"

definition run_import :: "importer \<Rightarrow> (import_summary, import_world) action" where
  "run_import I =
     bind_a (pure_a (im_prerequisites I)) (\<lambda>(raw_digest, observation_digest).
     bind_a (read_a (scan_source I (metric_family I))) (\<lambda>metric_inventory.
     bind_a (read_a (scan_source I (diagnostic_family I))) (\<lambda>diagnostic_inventory.
     let source_fingerprint = source_fingerprint_of I raw_digest observation_digest
           (ci_corpus_digest metric_inventory) (ci_corpus_digest diagnostic_inventory) in
     bind_a (resume_state I source_fingerprint raw_digest observation_digest) (\<lambda>st.
     bind_a (metric_phase I st) (\<lambda>(st, metric_created, metric_reused, metric_hydrated).
     bind_a (diagnostic_phase I st) (\<lambda>(st, diagnostic_created, diagnostic_reused, diagnostic_hydrated).
     bind_a (verification_phase I metric_inventory diagnostic_inventory st) (\<lambda>st.
     if \<not> is_complete st \<or> is_phase st \<noteq> COMPLETE
       then pure_a (Inl (HistoricalImportError ''historical analytical import did not reach completion''))
     else pure_a (Inr
       \<lparr>sm_source_workspace_id = im_workspace_id I, sm_source_fingerprint = source_fingerprint,
        sm_raw_digest = raw_digest, sm_observation_digest = observation_digest,
        sm_metric_digest = ci_corpus_digest metric_inventory,
        sm_diagnostic_digest = ci_corpus_digest diagnostic_inventory,
        sm_metric_count = ci_count metric_inventory, sm_diagnostic_count = ci_count diagnostic_inventory,
        sm_metrics_by_asset = ci_counts_by_asset metric_inventory,
        sm_metrics_by_key = ci_counts_by_category metric_inventory,
        sm_metrics_by_uuid_version = ci_counts_by_uuid_version metric_inventory,
        sm_diagnostics_by_asset = ci_counts_by_asset diagnostic_inventory,
        sm_diagnostics_by_mode = ci_counts_by_category diagnostic_inventory,
        sm_metric_created_count = metric_created, sm_metric_reused_count = metric_reused,
        sm_diagnostic_created_count = diagnostic_created, sm_diagnostic_reused_count = diagnostic_reused,
        sm_max_page_requested = im_page_limit I,
        sm_max_page_hydrated = max (max metric_hydrated diagnostic_hydrated)
          (max (ci_max_page_hydrated metric_inventory) (ci_max_page_hydrated diagnostic_inventory))\<rparr>))))))))"

section \<open>Portable prefixes\<close>

definition portable_step ::
  "importer \<Rightarrow> 'r family \<Rightarrow> archive \<Rightarrow> nat \<Rightarrow> import_cursor option \<times> string \<times> nat \<Rightarrow> (import_cursor option \<times> string \<times> nat) option result" where
  "portable_step I F archive confirmed = (\<lambda>(cursor, digest, verified).
     if \<not> verified < confirmed then Inr None
     else
       bind_r (fa_target_page F archive (min 256 (int (confirmed - verified))) cursor) (\<lambda>ids.
       bind_r (fa_target_get F archive ids) (\<lambda>records.
       if ids = [] then Inl (HistoricalImportError ''portable analytical prefix is truncated'')
       else
         bind_r (models_of records ids) (\<lambda>ms.
           Inr (Some (cursor_at F ms, foldl (fold_digest I F) digest ms, verified + length ids))))))"

definition verify_family_prefix :: "importer \<Rightarrow> 'r family \<Rightarrow> archive \<Rightarrow> import_state \<Rightarrow> unit result option" where
  "verify_family_prefix I F archive st =
     (let (expected_cursor, confirmed, expected_digest) = fa_progress F st in
      map_option (\<lambda>r. bind_r r (\<lambda>(cursor, digest, verified).
          if (verified \<noteq> confirmed \<or> digest \<noteq> expected_digest \<or> cursor \<noteq> expected_cursor) \<and>
             \<not> (confirmed = 0 \<and> expected_cursor = None \<and> expected_digest = EMPTY_DIGEST I)
            then Inl (HistoricalImportError ''portable analytical prefix does not match state'') else Inr ()))
        (read_loop (portable_step I F archive confirmed) (None, EMPTY_DIGEST I, 0)))"

definition verify_saved_prefix :: "importer \<Rightarrow> archive \<Rightarrow> import_state \<Rightarrow> (unit, import_world) action" where
  "verify_saved_prefix I archive st =
     bind_a (read_a (verify_family_prefix I (metric_family I) archive st)) (\<lambda>_.
       read_a (verify_family_prefix I (diagnostic_family I) archive st))"

end
