(* ===== verification/SequenceStoreProperties.thy ===== *)
theory SequenceStoreProperties
  imports SequenceStore
begin

text \<open>
  The sequence store keeps what is interned in it: hashes of different links have different
  pre-images, loading returns exactly the stored links, and saving a batch of links appends the
  new ones and their new segments.
\<close>

section \<open>Pre-images\<close>

lemma digits_256_inj:
  fixes n m :: nat
  assumes "n < 256 ^ k" and "m < 256 ^ k" and "\<And>j. j < k \<Longrightarrow> n div 256 ^ j mod 256 = m div 256 ^ j mod 256"
  shows "n = m"
  using assms
proof (induction k arbitrary: n m)
  case (Suc k)
  have digits: "n div 256 div 256 ^ j mod 256 = m div 256 div 256 ^ j mod 256" if "j < k" for j
    using Suc.prems(3) [of "Suc j"] that by (simp add: div_mult2_eq [symmetric] mult.commute)
  have "n div 256 < 256 ^ k" "m div 256 < 256 ^ k"
    using Suc.prems(1,2) by (simp_all add: less_mult_imp_div_less mult.commute)
  from Suc.IH [OF this digits] have "n div 256 = m div 256" .
  moreover have "n mod 256 = m mod 256" using Suc.prems(3) [of 0] by simp
  ultimately have "n div 256 * 256 + n mod 256 = m div 256 * 256 + m mod 256" by (simp only:)
  then show ?case by (simp only: div_mult_mod_eq)
qed simp

lemma length_be8 [simp]: "length (be8 n) = 8"
  by (simp add: be8_def)

lemma be8_nonempty [simp]: "be8 n \<noteq> []"
  using length_be8 [of n] by (metis list.size(3) zero_neq_numeral)

lemma nth_be8: "i < 8 \<Longrightarrow> be8 n ! i = char_of (n div 256 ^ (7 - i))"
  unfolding be8_def by (subst nth_map_upt) simp_all

lemma be8_inj:
  assumes "n < 2 ^ 64" and "m < 2 ^ 64" and "be8 n = be8 m"
  shows "n = m"
proof (rule digits_256_inj [of n 8 m])
  fix j :: nat assume "j < 8"
  have "be8 n ! (7 - j) = be8 m ! (7 - j)" using assms(3) by simp
  then have "char_of (n div 256 ^ (7 - (7 - j))) = (char_of (m div 256 ^ (7 - (7 - j))) :: char)"
    using \<open>j < 8\<close> by (simp add: nth_be8)
  then have "of_char (char_of (n div 256 ^ j)) = (of_char (char_of (m div 256 ^ j)) :: nat)"
    using \<open>j < 8\<close> by simp
  then show "n div 256 ^ j mod 256 = m div 256 ^ j mod 256" by simp
qed (use assms in simp_all)

lemma frames_inj:
  assumes "concat (map (\<lambda>p. be8 (length p) @ p) ps) = concat (map (\<lambda>p. be8 (length p) @ p) qs)"
    and "\<forall>p \<in> set ps \<union> set qs. length p < 2 ^ 64"
  shows "ps = qs"
  using assms
proof (induction ps arbitrary: qs)
  case Nil
  then show ?case by (cases qs) (auto dest: arg_cong [of _ _ length])
next
  case (Cons p ps)
  show ?case
  proof (cases qs)
    case Nil
    with Cons.prems(1) show ?thesis by simp
  next
    case (Cons q qs')
    with Cons.prems(1) have "be8 (length p) = be8 (length q)"
      and rest: "p @ concat (map (\<lambda>p. be8 (length p) @ p) ps) = q @ concat (map (\<lambda>p. be8 (length p) @ p) qs')"
      by simp_all
    then have "length p = length q" using be8_inj Cons.prems(2) Cons by simp
    with rest have "p = q" "concat (map (\<lambda>p. be8 (length p) @ p) ps) = concat (map (\<lambda>p. be8 (length p) @ p) qs')"
      by simp_all
    with Cons.IH [of qs'] Cons.prems(2) Cons show ?thesis by simp
  qed
qed

lemma hex_digit_inj: "a < 16 \<Longrightarrow> b < 16 \<Longrightarrow> hex_digit a = hex_digit b \<Longrightarrow> a = b"
proof -
  have "distinct ''0123456789abcdef''" "length ''0123456789abcdef'' = 16" by simp_all
  then show "a < 16 \<Longrightarrow> b < 16 \<Longrightarrow> hex_digit a = hex_digit b \<Longrightarrow> a = b"
    unfolding hex_digit_def by (metis nth_eq_iff_index_eq)
qed

lemma nibble_less: "unat (x AND 15 :: uuid) < 16"
proof -
  have "x AND 15 \<le> 15" by (rule word_and_le1)
  then show ?thesis by (simp add: word_le_nat_alt)
qed

lemma nibbles_inj:
  assumes "\<And>k. k < 32 \<Longrightarrow> uuid_nibble u k = uuid_nibble v k"
  shows "u = v"
proof (rule bit_word_eqI)
  fix n assume n: "n < LENGTH(128)"
  have "uuid_nibble u (n div 4) = uuid_nibble v (n div 4)" using n by (intro assms) simp
  then have "drop_bit (4 * (n div 4)) u AND 15 = drop_bit (4 * (n div 4)) v AND 15"
    unfolding uuid_nibble_def using hex_digit_inj nibble_less word_unat_eq_iff by blast
  then have "bit (drop_bit (4 * (n div 4)) u AND mask 4) (n mod 4) = bit (drop_bit (4 * (n div 4)) v AND mask 4) (n mod 4)"
    by (simp add: mask_eq_exp_minus_1)
  moreover have "n mod 4 < 128" by (rule less_trans [OF mod_less_divisor]) simp_all
  ultimately show "bit u n = bit v n" using n by (simp add: bit_simps)
qed

lemma length_uuid_text [simp]: "length (uuid_text u) = 36"
  by (simp add: uuid_text_def)

lemma map_append_eq: "map f xs @ a = map g xs @ b \<longleftrightarrow> (\<forall>x \<in> set xs. f x = g x) \<and> a = b"
  by (induction xs) auto

lemma uuid_text_inj: "uuid_text u = uuid_text v \<Longrightarrow> u = v"
proof (rule nibbles_inj)
  fix k :: nat assume "uuid_text u = uuid_text v" and "k < 32"
  then have "\<forall>i \<in> set (rev [24..<32]) \<union> set (rev [20..<24]) \<union> set (rev [16..<20]) \<union> set (rev [12..<16]) \<union> set (rev [0..<12]).
      uuid_nibble u i = uuid_nibble v i"
    unfolding uuid_text_def by (simp only: map_append_eq map_eq_conv append_Cons append_Nil list.inject) blast
  moreover have "k \<in> set (rev [24..<32]) \<union> set (rev [20..<24]) \<union> set (rev [16..<20]) \<union> set (rev [12..<16]) \<union> set (rev [0..<12])"
    using \<open>k < 32\<close> by (simp only: set_rev set_upt Un_iff atLeastLessThan_iff) presburger
  ultimately show "uuid_nibble u k = uuid_nibble v k" by blast
qed

lemma uuid_texts_inj: "map uuid_text us = map uuid_text vs \<Longrightarrow> us = vs"
  by (metis uuid_text_inj injI map_injective)

definition short_link :: "link \<Rightarrow> bool" where
  "short_link l \<longleftrightarrow> length (fst l) < 2 ^ 64"

lemma digest_parts_inj:
  assumes "inj sha" and "digest_parts sha prefix ps = digest_parts sha prefix qs"
    and "\<forall>p \<in> set ps \<union> set qs. length p < 2 ^ 64"
  shows "ps = qs"
  using frames_inj [OF _ assms(3)] assms(1,2) by (simp add: digest_parts_def inj_eq)

lemma link_hash_inj:
  assumes "inj sha" and "short_link l" and "short_link l'"
    and "digest_parts sha prefix (fst l # map uuid_text (snd l)) = digest_parts sha prefix (fst l' # map uuid_text (snd l'))"
  shows "l = l'"
proof -
  have "fst l # map uuid_text (snd l) = fst l' # map uuid_text (snd l')"
    by (rule digest_parts_inj [OF assms(1,4)]) (use assms(2,3) in \<open>auto simp: short_link_def\<close>)
  then show ?thesis by (auto dest: uuid_texts_inj intro: prod_eqI)
qed

lemma hash_inj_on:
  assumes "inj sha"
  shows "inj_on (sequence_hash sha) {l. short_link l}" "inj_on (segment_hash sha) {l. short_link l}"
  using link_hash_inj [OF assms] by (auto simp: inj_on_def sequence_hash_def segment_hash_def)

section \<open>Rows\<close>

lemma insert_rows_fresh:
  "distinct (map fst rows) \<Longrightarrow> set (map fst rows) \<inter> set (map fst table) = {} \<Longrightarrow> insert_rows table rows = Inr (table @ rows)"
proof (induction rows arbitrary: table)
  case (Cons row rows)
  obtain k v where row: "row = (k, v)" by force
  have "insert_rows (table @ [(k, v)]) rows = Inr ((table @ [(k, v)]) @ rows)"
    by (rule Cons.IH) (use Cons.prems row in auto)
  with Cons.prems row show ?case by auto
qed simp

lemma executemany_fresh:
  assumes "distinct (map fst rows)" and "set (map fst rows) \<inter> set (map fst table) = {}"
  shows "executemany_bounded table rows = Inr (table @ rows)"
proof -
  have "distinct (map fst (concat cs)) \<Longrightarrow> set (map fst (concat cs)) \<inter> set (map fst t) = {} \<Longrightarrow>
      foldl (\<lambda>r chunk. bind_r r (\<lambda>table. insert_rows table chunk)) (Inr t) cs = Inr (t @ concat cs)" for cs t
  proof (induction cs arbitrary: t)
    case (Cons c cs)
    have c: "insert_rows t c = Inr (t @ c)" by (rule insert_rows_fresh) (use Cons.prems in auto)
    have "foldl (\<lambda>r chunk. bind_r r (\<lambda>table. insert_rows table chunk)) (Inr (t @ c)) cs = Inr ((t @ c) @ concat cs)"
      by (rule Cons.IH) (use Cons.prems in \<open>simp only: concat.simps map_append distinct_append set_append; blast\<close>)+
    with c show ?case by simp
  qed simp
  from this [of "chunks ARCHIVE_BATCH rows" table] assms show ?thesis
    by (simp add: executemany_bounded_def concat_chunks ARCHIVE_BATCH_def)
qed

lemma set_select_by_ids: "set (select_by_ids table ids) = {row \<in> set table. fst row \<in> set ids}"
proof -
  have "set (concat (map (\<lambda>chunk. sort_key fst (filter (\<lambda>row. fst row \<in> set chunk) table)) cs)) =
      {row \<in> set table. fst row \<in> set (concat cs)}" for cs
    by (induction cs) auto
  from this [of "chunks (ARCHIVE_BATCH - 3) (sort (remdups ids))"] show ?thesis
    by (simp add: select_by_ids_def concat_chunks ARCHIVE_BATCH_def)
qed

lemma get_update: "dict_get (dict_update d rows) = dict_get d ++ map_of (rev rows)"
  unfolding dict_update_def
  by (induction rows arbitrary: d) (simp_all add: map_add_def fun_eq_iff split: option.splits)

lemma get_update_in:
  assumes "dict_ok table" and "set rows \<subseteq> set table" and "(k, v) \<in> set rows"
  shows "dict_get (dict_update d rows) k = Some v"
proof -
  obtain v' where v': "map_of (rev rows) k = Some v'"
    using assms(3) by (cases "map_of (rev rows) k") (auto simp: map_of_eq_None_iff image_iff)
  from map_of_SomeD [OF v'] have "(k, v') \<in> set table" using assms(2) by auto
  moreover have "(k, v) \<in> set table" using assms(2,3) by blast
  ultimately have "v' = v" using assms(1) dict_in_iff_get by fastforce
  with v' show ?thesis by (simp add: get_update map_add_Some_iff)
qed

lemma get_update_out: "k \<notin> set (map fst rows) \<Longrightarrow> dict_get (dict_update d rows) k = dict_get d k"
  by (simp add: get_update map_add_dom_app_simps dom_map_of_conv_image_fst)

lemma ok_update: "dict_ok d \<Longrightarrow> dict_ok (dict_update d rows)"
  using pydict.ok_store_all [of d fst snd rows] by (simp add: dict_update_def case_prod_beta)

lemma get_restricted:
  assumes "dict_ok table" and "set rows = {row \<in> set table. fst row \<in> set ids}"
  shows "dict_get (dict_update [] rows) k = (if k \<in> set ids then dict_get table k else None)"
proof (cases "k \<in> set ids \<and> dict_get table k \<noteq> None")
  case True
  then obtain v where v: "dict_get table k = Some v" by auto
  with assms True have "(k, v) \<in> set rows" by (simp add: dict_in_iff_get)
  from get_update_in [OF assms(1) _ this] show ?thesis using True v assms(2) by auto
next
  case False
  have "k \<notin> set (map fst rows)"
    using False dict_get_None_iff [of table k] by (auto simp: assms(2))
  with False show ?thesis by (auto simp: get_update_out)
qed

lemmas get_selected = get_restricted [OF _ set_select_by_ids]

lemma keys_dict_get: "set (dict_keys d) = {k. dict_get d k \<noteq> None}"
  using dict_get_None_iff [of d] by (auto simp: dict_keys_def)

text \<open>Loading in slices of 256 finds what loading each slice finds.\<close>

lemma get_pairs: "dict_get (map (\<lambda>i. (i, f i)) ids) k = (if k \<in> set ids then Some (f k) else None)"
  by (auto simp: dict_get_def map_of_map_restrict)

lemma in_batches_finds:
  assumes "\<And>c. c = ids \<or> c \<in> set (chunks ARCHIVE_BATCH ids) \<Longrightarrow> load c = Inr (map (\<lambda>i. (i, f i)) c)"
  shows "\<exists>d. in_batches load ids = Inr d \<and> (\<forall>k. dict_get d k = (if k \<in> set ids then Some (f k) else None))"
proof -
  have "dict_ok d \<Longrightarrow> (\<And>c. c \<in> set cs \<Longrightarrow> load c = Inr (map (\<lambda>i. (i, f i)) c)) \<Longrightarrow>
      \<exists>d'. foldl (\<lambda>r chunk. bind_r r (\<lambda>output. bind_r (load chunk) (\<lambda>d. Inr (dict_update output d)))) (Inr d) cs = Inr d' \<and>
        (\<forall>k. dict_get d' k = (if k \<in> set (concat cs) then Some (f k) else dict_get d k))" for d cs
  proof (induction cs arbitrary: d)
    case (Cons c cs)
    let ?d = "dict_update d (map (\<lambda>i. (i, f i)) c)"
    have get: "dict_get ?d k = (if k \<in> set c then Some (f k) else dict_get d k)" for k
    proof (cases "k \<in> set c")
      case True
      have "dict_ok (map (\<lambda>i. (i, f i)) (remdups c))" by (simp add: dict_ok_def comp_def)
      from get_update_in [OF this, of "map (\<lambda>i. (i, f i)) c" k "f k" d] True Cons.prems(1) show ?thesis by auto
    next
      case False
      then show ?thesis using get_update_out [of k "map (\<lambda>i. (i, f i)) c"] by auto
    qed
    have "\<exists>d'. foldl (\<lambda>r chunk. bind_r r (\<lambda>output. bind_r (load chunk) (\<lambda>d. Inr (dict_update output d)))) (Inr ?d) cs = Inr d' \<and>
        (\<forall>k. dict_get d' k = (if k \<in> set (concat cs) then Some (f k) else dict_get ?d k))"
      by (rule Cons.IH [OF ok_update [OF Cons.prems(1)]]) (use Cons.prems(2) in auto)
    then show ?case using Cons.prems(2) [of c] by (auto simp: get)
  qed simp
  from this [of "[]" "chunks ARCHIVE_BATCH ids"] assms show ?thesis
    by (auto simp: in_batches_def get_pairs concat_chunks ARCHIVE_BATCH_def)
qed

section \<open>What a store holds\<close>

text \<open>
  \<open>stores sha tables seqs segs\<close>: the tables hold exactly the sequences \<open>seqs\<close> and the segments
  \<open>segs\<close>, in this order.
\<close>

definition sequence_rows :: "(string \<Rightarrow> string) \<Rightarrow> link list \<Rightarrow> (string \<times> meta_row) list" where
  "sequence_rows sha = map (\<lambda>l. (sequence_hash sha l, meta_of (sequence_hash sha) l))"

definition segment_rows :: "(string \<Rightarrow> string) \<Rightarrow> link list \<Rightarrow> (string \<times> meta_row) list" where
  "segment_rows sha = map (\<lambda>l. (segment_hash sha l, meta_of (segment_hash sha) l))"

definition reference_rows :: "(string \<Rightarrow> string) \<Rightarrow> link list \<Rightarrow> ((string \<times> nat) \<times> string) list" where
  "reference_rows sha ls = concat (map (\<lambda>l. block (sequence_hash sha l) (map (segment_hash sha) (segments_of l))) ls)"

definition member_rows :: "(string \<Rightarrow> string) \<Rightarrow> link list \<Rightarrow> ((string \<times> nat) \<times> uuid) list" where
  "member_rows sha ls = concat (map (\<lambda>l. block (segment_hash sha l) (snd l)) ls)"

definition stores :: "(string \<Rightarrow> string) \<Rightarrow> sequence_tables \<Rightarrow> link list \<Rightarrow> link list \<Rightarrow> bool" where
  "stores sha tables seqs segs \<longleftrightarrow>
     tables = \<lparr>st_sequences = sequence_rows sha seqs, st_references = reference_rows sha seqs,
       st_segments = segment_rows sha segs, st_members = member_rows sha segs\<rparr> \<and>
     distinct (map (sequence_hash sha) seqs) \<and> distinct (map (segment_hash sha) segs) \<and>
     (\<forall>l \<in> set segs. snd l \<noteq> [] \<and> length (snd l) \<le> ARCHIVE_BATCH) \<and>
     (\<forall>l \<in> set seqs. set (segments_of l) \<subseteq> set segs)"

definition item_at :: "('l \<Rightarrow> 'k) \<Rightarrow> 'l list \<Rightarrow> 'k \<Rightarrow> 'l" where
  \<comment> \<open>the item stored under a key\<close>
  "item_at key ls i = the (map_of (map (\<lambda>l. (key l, l)) ls) i)"

lemma map_of_links: "distinct (map hash ls) \<Longrightarrow> l \<in> set ls \<Longrightarrow> map_of (map (\<lambda>l. (hash l, f l)) ls) (hash l) = Some (f l)"
  by (simp add: map_of_eq_Some_iff comp_def image_iff) force

lemma item_at_key: "distinct (map hash ls) \<Longrightarrow> l \<in> set ls \<Longrightarrow> item_at hash ls (hash l) = l"
  using map_of_links [of hash ls l "\<lambda>l. l"] by (simp add: item_at_def)

text \<open>A store of links under their hashes: the metadata and the children of the identities \<open>ids\<close>.\<close>

lemma metadata_of_links:
  assumes "distinct (map hash ls)" and "l \<in> set ls"
  shows "dict_get (map (\<lambda>l. (hash l, meta_of hash l)) ls) (hash l) = Some (meta_of hash l)"
  using map_of_links [OF assms] by (simp add: dict_get_def)

lemma links_dict_ok: "distinct (map hash ls) \<Longrightarrow> dict_ok (map (\<lambda>l. (hash l, f l)) ls)"
  by (simp add: dict_ok_def comp_def)

lemma children_of_links:
  assumes "distinct (map hash ls)" and "set ids \<subseteq> hash ` set ls" and "sorted ids" and "distinct ids"
  shows "group_children e (paged_children (concat (map (\<lambda>l. block (hash l) (v l)) ls)) ids) (map (\<lambda>i. (i, [])) ids) =
    Inr (map (\<lambda>i. (i, v (item_at hash ls i))) ids)"
proof -
  let ?f = "\<lambda>k. case map_of (map (\<lambda>l. (hash l, v l)) ls) k of None \<Rightarrow> [] | Some vs \<Rightarrow> vs"
  have "?f i = v (item_at hash ls i)" if "i \<in> set ids" for i
  proof -
    from that assms(2) obtain l where "l \<in> set ls" "i = hash l" by blast
    then show ?thesis using map_of_links [OF assms(1), of l v] item_at_key [OF assms(1), of l] by simp
  qed
  then have "map (\<lambda>i. (i, ?f i)) ids = map (\<lambda>i. (i, v (item_at hash ls i))) ids" by simp
  then show ?thesis
    unfolding paged_children_blocks [OF blocks_of [OF assms(1), of v] assms(3,4)] group_blocks [OF assms(4)] by (rule arg_cong)
qed

section \<open>Loading\<close>

lemma load_segment_page_finds:
  assumes "stores sha tables seqs segs" and "set ids \<subseteq> segment_hash sha ` set segs" and "sorted ids" and "distinct ids"
  shows "load_segment_page sha tables ids = Inr (map (\<lambda>i. (i, item_at (segment_hash sha) segs i)) ids)"
proof -
  let ?at = "item_at (segment_hash sha) segs"
  from assms(1) have tables: "st_segments tables = segment_rows sha segs" "st_members tables = member_rows sha segs"
    and distinct: "distinct (map (segment_hash sha) segs)"
    and sizes: "\<forall>l \<in> set segs. snd l \<noteq> [] \<and> length (snd l) \<le> ARCHIVE_BATCH"
    by (simp_all add: stores_def)
  define metadata where "metadata = dict_update [] (select_by_ids (st_segments tables) ids)"
  have ok: "dict_ok (st_segments tables)" unfolding tables segment_rows_def by (rule links_dict_ok [OF distinct])
  have link: "?at i \<in> set segs" "segment_hash sha (?at i) = i" "dict_get metadata i = Some (meta_of (segment_hash sha) (?at i))"
    if "i \<in> set ids" for i
  proof -
    from that assms(2) obtain l where l: "l \<in> set segs" "i = segment_hash sha l" by blast
    then have "?at i = l" using item_at_key [OF distinct] by simp
    moreover have "dict_get metadata i = dict_get (st_segments tables) i"
      using that by (simp add: metadata_def get_selected [OF ok])
    ultimately show "?at i \<in> set segs" "segment_hash sha (?at i) = i"
      "dict_get metadata i = Some (meta_of (segment_hash sha) (?at i))"
      using l metadata_of_links [OF distinct l(1)] by (simp_all add: tables segment_rows_def)
  qed
  have keys: "set (dict_keys metadata) = set ids"
    using link(3) by (auto simp: keys_dict_get metadata_def get_selected [OF ok] split: if_splits)
  have members: "group_children e (paged_children (st_members tables) ids) (map (\<lambda>i. (i, [])) ids) =
      Inr (map (\<lambda>i. (i, snd (?at i))) ids)" for e
    unfolding tables member_rows_def by (rule children_of_links [OF distinct assms(2-4)])
  show ?thesis
    unfolding load_segment_page_def metadata_def [symmetric] Let_def keys members bind_r_simps
    using link sizes
    by (auto simp: traverse_Inr_iff list_all2_map1 list_all2_map2 list_all2_same meta_of_def Suc_le_eq)
qed

lemma chunk_subset: "c \<in> set (chunks n xs) \<Longrightarrow> set c \<subseteq> set xs"
proof (cases "n = 0")
  case False
  assume "c \<in> set (chunks n xs)"
  then have "set c \<subseteq> set (concat (chunks n xs))" by auto
  with False show ?thesis by (simp only: concat_chunks neq0_conv)
qed (subst (asm) chunks.simps, simp)

lemma sort_empty: "sort (remdups xs) = [] \<longleftrightarrow> xs = []"
  by (metis set_empty set_remdups set_sort)

lemma load_segments_finds:
  assumes "stores sha tables seqs segs" and "set ids \<subseteq> segment_hash sha ` set segs"
  shows "\<exists>d. load_segments sha tables ids = Inr d \<and>
    (\<forall>l \<in> set segs. segment_hash sha l \<in> set ids \<longrightarrow> dict_get d (segment_hash sha l) = Some l)"
proof (cases "ids = []")
  case False
  have "load_segment_page sha tables c = Inr (map (\<lambda>i. (i, item_at (segment_hash sha) segs i)) c)"
    if "c = sort (remdups ids) \<or> c \<in> set (chunks ARCHIVE_BATCH (sort (remdups ids)))" for c
  proof (rule load_segment_page_finds [OF assms(1)])
    have "set c \<subseteq> set ids" using that chunk_subset [of c ARCHIVE_BATCH "sort (remdups ids)"] by auto
    then show "set c \<subseteq> segment_hash sha ` set segs" using assms(2) by blast
    show "sorted c" "distinct c" using that chunks_sorted [of "sort (remdups ids)" c] by auto
  qed
  from in_batches_finds [of "sort (remdups ids)", OF this] obtain d where
    d: "in_batches (load_segment_page sha tables) (sort (remdups ids)) = Inr d"
      "\<forall>k. dict_get d k = (if k \<in> set ids then Some (item_at (segment_hash sha) segs k) else None)" by auto
  have "distinct (map (segment_hash sha) segs)" using assms(1) by (simp add: stores_def)
  with d False show ?thesis by (auto simp: load_segments_def Let_def sort_empty item_at_key)
qed (simp add: load_segments_def)

lemma join_finds:
  assumes "\<And>l. l \<in> set ls \<Longrightarrow> dict_get sv (hash l) = Some l" and "\<And>l. l \<in> set ls \<Longrightarrow> fst l = t"
  shows "join_segments sv t (map hash ls) = Inr (concat (map snd ls))"
  using assms
proof (induction ls)
  case (Cons l ls)
  have "join_segments sv t (map hash ls) = Inr (concat (map snd ls))" by (rule Cons.IH) (use Cons.prems in auto)
  moreover have "dict_get sv (hash l) = Some (t, snd l)" using Cons.prems(1) [of l] Cons.prems(2) [of l] by (cases l) simp
  ultimately show ?case by simp
qed simp

lemma concat_segments: "concat (map snd (segments_of l)) = snd l"
  by (simp add: segments_of_def comp_def concat_chunks ARCHIVE_BATCH_def)

lemma segments_of_type: "s \<in> set (segments_of l) \<Longrightarrow> fst s = fst l"
  by (auto simp: segments_of_def)

lemma load_sequence_page_finds:
  assumes "stores sha tables seqs segs" and "set ids \<subseteq> sequence_hash sha ` set seqs" and "sorted ids" and "distinct ids"
  shows "load_sequence_page sha tables ids = Inr (map (\<lambda>i. (i, item_at (sequence_hash sha) seqs i)) ids)"
proof -
  let ?at = "item_at (sequence_hash sha) seqs" and ?G = "segment_hash sha"
  from assms(1) have tables: "st_sequences tables = sequence_rows sha seqs" "st_references tables = reference_rows sha seqs"
    and distinct: "distinct (map (sequence_hash sha) seqs)"
    and parts: "\<forall>l \<in> set seqs. set (segments_of l) \<subseteq> set segs"
    by (simp_all add: stores_def)
  define metadata where "metadata = dict_update [] (filter (\<lambda>row. fst row \<in> set ids) (st_sequences tables))"
  have "dict_ok (st_sequences tables)" unfolding tables sequence_rows_def by (rule links_dict_ok [OF distinct])
  from get_restricted [OF this, of "filter (\<lambda>row. fst row \<in> set ids) (st_sequences tables)" ids]
  have get: "dict_get metadata i = (if i \<in> set ids then dict_get (st_sequences tables) i else None)" for i
    by (simp add: metadata_def)
  have link: "?at i \<in> set seqs" "sequence_hash sha (?at i) = i" "dict_get metadata i = Some (meta_of (sequence_hash sha) (?at i))"
    if "i \<in> set ids" for i
  proof -
    from that assms(2) obtain l where l: "l \<in> set seqs" "i = sequence_hash sha l" by blast
    then have "?at i = l" using item_at_key [OF distinct] by simp
    then show "?at i \<in> set seqs" "sequence_hash sha (?at i) = i"
      "dict_get metadata i = Some (meta_of (sequence_hash sha) (?at i))"
      using l that metadata_of_links [OF distinct l(1)] by (simp_all add: get tables sequence_rows_def)
  qed
  have keys: "set (dict_keys metadata) = set ids"
    using link(3) by (auto simp: keys_dict_get get split: if_splits)
  have refs: "group_children e (paged_children (st_references tables) ids) (map (\<lambda>i. (i, [])) ids) =
      Inr (map (\<lambda>i. (i, map ?G (segments_of (?at i)))) ids)" for e
    unfolding tables reference_rows_def
    by (rule children_of_links [OF distinct assms(2-4), of e "\<lambda>l. map ?G (segments_of l)"])
  let ?segs = "concat (dict_values (map (\<lambda>i. (i, map ?G (segments_of (?at i)))) ids))"
  have segs: "set ?segs = ?G ` (\<Union>i \<in> set ids. set (segments_of (?at i)))" by (auto simp: dict_values_def)
  have "set ?segs \<subseteq> ?G ` set segs" unfolding segs using link(1) parts by blast
  from load_segments_finds [OF assms(1) this] obtain sv where sv: "load_segments sha tables ?segs = Inr sv"
    "\<forall>l \<in> set segs. ?G l \<in> set ?segs \<longrightarrow> dict_get sv (?G l) = Some l" by blast
  have join: "join_segments sv (fst (?at i)) (map ?G (segments_of (?at i))) = Inr (snd (?at i))" if "i \<in> set ids" for i
  proof -
    have "dict_get sv (?G s) = Some s" if s: "s \<in> set (segments_of (?at i))" for s
    proof -
      have "s \<in> set segs" using s parts link(1) [OF \<open>i \<in> set ids\<close>] by blast
      moreover have "?G s \<in> set ?segs" unfolding segs using s \<open>i \<in> set ids\<close> by blast
      ultimately show ?thesis using sv(2) by blast
    qed
    then show ?thesis using join_finds [of "segments_of (?at i)" sv ?G] segments_of_type concat_segments by metis
  qed
  show ?thesis
    unfolding load_sequence_page_def metadata_def [symmetric] Let_def keys refs bind_r_simps sv(1)
    using link join
    by (auto simp: traverse_Inr_iff list_all2_map1 list_all2_map2 list_all2_same meta_of_def)
qed

lemma load_sequences_finds:
  assumes "stores sha tables seqs segs" and "set ids \<subseteq> sequence_hash sha ` set seqs"
  shows "\<exists>d. load_sequences sha tables ids = Inr d \<and>
    (\<forall>l \<in> set seqs. sequence_hash sha l \<in> set ids \<longrightarrow> dict_get d (sequence_hash sha l) = Some l)"
proof (cases "ids = []")
  case False
  have "load_sequence_page sha tables c = Inr (map (\<lambda>i. (i, item_at (sequence_hash sha) seqs i)) c)"
    if "c = sort (remdups ids) \<or> c \<in> set (chunks ARCHIVE_BATCH (sort (remdups ids)))" for c
  proof (rule load_sequence_page_finds [OF assms(1)])
    have "set c \<subseteq> set ids" using that chunk_subset [of c ARCHIVE_BATCH "sort (remdups ids)"] by auto
    then show "set c \<subseteq> sequence_hash sha ` set seqs" using assms(2) by blast
    show "sorted c" "distinct c" using that chunks_sorted [of "sort (remdups ids)" c] by auto
  qed
  from in_batches_finds [of "sort (remdups ids)", OF this] obtain d where
    d: "in_batches (load_sequence_page sha tables) (sort (remdups ids)) = Inr d"
      "\<forall>k. dict_get d k = (if k \<in> set ids then Some (item_at (sequence_hash sha) seqs k) else None)" by auto
  have "distinct (map (sequence_hash sha) seqs)" using assms(1) by (simp add: stores_def)
  with d False show ?thesis by (auto simp: load_sequences_def Let_def sort_empty item_at_key)
qed (simp add: load_sequences_def)

section \<open>Saving\<close>

lemma intern_all_inj:
  "inj_on hash (set links) \<Longrightarrow> intern_all what hash links = Inr (dict_by hash links)"
proof (induction links rule: rev_induct)
  case Nil
  then show ?case by (simp add: intern_all_def dict_by_def)
next
  case (snoc l links)
  have "previous = l" if "dict_get (dict_by hash links) (hash l) = Some previous" for previous
    using dict_get_by_SomeD [OF that] snoc.prems by (auto simp: inj_on_def)
  moreover have "intern_all what hash links = Inr (dict_by hash links)"
    using snoc by (auto intro: inj_on_subset)
  ultimately show ?case
    by (auto simp: intern_all_def intern_def dict_by_def split: option.splits)
qed

lemma get_interned:
  assumes "inj_on hash (set links)"
  shows "dict_get (dict_by hash links) i = Some l \<longleftrightarrow> l \<in> set links \<and> hash l = i"
proof
  assume l: "l \<in> set links \<and> hash l = i"
  then obtain l' where "dict_get (dict_by hash links) i = Some l'"
    using dict_get_by_None [of hash links i] by (cases "dict_get (dict_by hash links) i") auto
  with dict_get_by_SomeD [OF this] assms l show "dict_get (dict_by hash links) i = Some l"
    by (auto simp: inj_on_def)
qed (rule dict_get_by_SomeD)

lemma keys_interned: "set (dict_keys (dict_by hash links)) = hash ` set links"
  using dict_get_by_None [of hash links] by (auto simp: keys_dict_get)

lemma existing_keys: "set (remdups (map fst (select_by_ids table ids))) = set (map fst table) \<inter> set ids"
  by (auto simp: set_select_by_ids)

text \<open>The links of some interned identities: they are the new ones when the others are left out.\<close>

lemma links_of_interned:
  assumes "inj_on hash (set links)" and "set ids \<subseteq> hash ` set links" and "distinct ids"
  shows "map hash (links_at (dict_by hash links) ids) = ids"
    and "set (links_at (dict_by hash links) ids) = {l \<in> set links. hash l \<in> set ids}"
proof -
  have the: "the (dict_get (dict_by hash links) (hash l)) = l" if "l \<in> set links" for l
    using get_interned [OF assms(1), of "hash l" l] that by simp
  have "hash (the (dict_get (dict_by hash links) i)) = i" if "i \<in> set ids" for i
    using that assms(2) the by auto
  then show "map hash (links_at (dict_by hash links) ids) = ids"
    by (simp add: links_at_def comp_def map_idI)
  show "set (links_at (dict_by hash links) ids) = {l \<in> set links. hash l \<in> set ids}"
    unfolding links_at_def set_map using assms(2) the by (auto simp: image_iff) force
qed

lemma rows_keys:
  "map fst (sequence_rows sha ls) = map (sequence_hash sha) ls"
  "map fst (segment_rows sha ls) = map (segment_hash sha) ls"
  by (simp_all add: sequence_rows_def segment_rows_def)

lemma blocks_insert:
  assumes "distinct (map h (xs @ ys))"
  shows "executemany_bounded (concat (map (\<lambda>x. block (h x) (v x)) xs)) (concat (map (\<lambda>x. block (h x) (v x)) ys)) =
    Inr (concat (map (\<lambda>x. block (h x) (v x)) (xs @ ys)))"
proof -
  have "distinct (map fst (concat (map (\<lambda>x. block (h x) (v x)) (xs @ ys))))"
    using blocks_of [OF assms, of v] by (simp only: has_blocks_def dict_ok_def)
  then show ?thesis
    by (subst executemany_fresh) (simp_all only: map_append concat_append distinct_append Int_commute simp_thms)
qed

lemma save_new_sequences_stores:
  assumes "stores sha tables seqs segs" and "inj_on (segment_hash sha) (set segs \<union> \<Union> (set ` segments_of ` set new))"
    and ids: "map (sequence_hash sha) new = ids" "distinct ids" "set ids \<inter> sequence_hash sha ` set seqs = {}"
    and known: "\<And>l. l \<in> set new \<Longrightarrow> dict_get known (sequence_hash sha l) = Some l"
  obtains tables' added where "save_new_sequences sha tables known ids = Inr tables'"
    and "stores sha tables' (seqs @ new) (segs @ added)" and "set added \<subseteq> \<Union> (set ` segments_of ` set new)"
proof -
  let ?H = "sequence_hash sha" and ?G = "segment_hash sha"
  let ?wanted = "concat (map segments_of new)"
  from assms(1) have tables: "st_sequences tables = sequence_rows sha seqs" "st_references tables = reference_rows sha seqs"
    "st_segments tables = segment_rows sha segs" "st_members tables = member_rows sha segs"
    and distinct: "distinct (map ?H seqs)" "distinct (map ?G segs)"
    and sizes: "\<forall>l \<in> set segs. snd l \<noteq> [] \<and> length (snd l) \<le> ARCHIVE_BATCH"
    and parts: "\<forall>l \<in> set seqs. set (segments_of l) \<subseteq> set segs"
    by (simp_all add: stores_def)
  have missing: "links_at known ids = new"
    unfolding ids(1) [symmetric] links_at_def map_map comp_def by (rule map_idI) (simp add: known)
  have wanted: "set ?wanted = \<Union> (set ` segments_of ` set new)" by auto
  have inj: "inj_on ?G (set ?wanted)" unfolding wanted by (rule inj_on_subset [OF assms(2)]) blast
  let ?sv = "dict_by ?G ?wanted"
  define segment_ids where "segment_ids = sort (dict_keys ?sv)"
  have segment_ids: "set segment_ids = ?G ` set ?wanted" "distinct segment_ids"
    unfolding segment_ids_def set_sort distinct_sort keys_interned
    using dict_ok_by [of ?G ?wanted] by (simp_all only: dict_ok_def dict_keys_def)
  define existing where "existing = remdups (map fst (select_by_ids (st_segments tables) segment_ids))"
  have existing: "set existing = ?G ` set segs \<inter> ?G ` set ?wanted"
    unfolding existing_def existing_keys tables rows_keys segment_ids by simp
  define added where "added = links_at ?sv (filter (\<lambda>i. i \<notin> set existing) segment_ids)"
  have added_ids: "map ?G added = filter (\<lambda>i. i \<notin> set existing) segment_ids"
    and added_set: "set added = {l \<in> set ?wanted. ?G l \<notin> set existing}"
    unfolding added_def using links_of_interned [OF inj, of "filter (\<lambda>i. i \<notin> set existing) segment_ids"] segment_ids by auto
  have all_parts: "set ?wanted \<subseteq> set segs \<union> set added"
  proof
    fix l assume l: "l \<in> set ?wanted"
    show "l \<in> set segs \<union> set added"
    proof (cases "?G l \<in> set existing")
      case True
      then obtain s where "s \<in> set segs" "?G s = ?G l" unfolding existing by auto
      then have "s = l" using assms(2) l unfolding wanted by (auto simp: inj_on_def)
      with \<open>s \<in> set segs\<close> show ?thesis by simp
    qed (use l added_set in blast)
  qed
  have distinct_segs: "distinct (map ?G (segs @ added))"
    using distinct(2) segment_ids(2) unfolding map_append added_ids distinct_append
    by (auto simp: existing segment_ids)
  have distinct_seqs: "distinct (map ?H (seqs @ new))" using distinct(1) ids by (simp add: Int_commute)
  have checked: "(if existing = [] then Inr ()
      else bind_r (load_segments sha tables existing) (\<lambda>loaded. check_loaded ''segment'' loaded ?sv existing)) = Inr ()"
  proof (cases "existing = []")
    case False
    have "set existing \<subseteq> ?G ` set segs" unfolding existing by blast
    from load_segments_finds [OF assms(1) this] obtain loaded where loaded: "load_segments sha tables existing = Inr loaded"
      "\<forall>l \<in> set segs. ?G l \<in> set existing \<longrightarrow> dict_get loaded (?G l) = Some l" by blast
    have "dict_get loaded i = dict_get ?sv i" if "i \<in> set existing" for i
    proof -
      from that existing have "i \<in> ?G ` set segs" "i \<in> ?G ` set ?wanted" by blast+
      then obtain s w where "s \<in> set segs" "i = ?G s" "w \<in> set ?wanted" "i = ?G w" by blast
      moreover from this assms(2) have "s = w" unfolding wanted [symmetric] by (auto simp: inj_on_def)
      ultimately show ?thesis using loaded(2) that get_interned [OF inj, of i w] by auto
    qed
    with loaded(1) show ?thesis by (auto simp: check_loaded_def list_all_iff)
  qed simp
  let ?tables = "\<lparr>st_sequences = sequence_rows sha (seqs @ new), st_references = reference_rows sha (seqs @ new),
    st_segments = segment_rows sha (segs @ added), st_members = member_rows sha (segs @ added)\<rparr>"
  have segments: "executemany_bounded (st_segments tables) (map (\<lambda>l. (?G l, meta_of ?G l)) added) = Inr (segment_rows sha (segs @ added))"
    using distinct_segs unfolding tables
    by (subst executemany_fresh) (auto simp: segment_rows_def comp_def)
  have members: "executemany_bounded (st_members tables) (concat (map (\<lambda>l. block (?G l) (snd l)) added)) = Inr (member_rows sha (segs @ added))"
    unfolding tables member_rows_def by (rule blocks_insert [OF distinct_segs])
  have sequences: "executemany_bounded (st_sequences tables) (map (\<lambda>l. (?H l, meta_of ?H l)) new) = Inr (sequence_rows sha (seqs @ new))"
    using distinct_seqs unfolding tables
    by (subst executemany_fresh) (auto simp: sequence_rows_def comp_def)
  have references: "executemany_bounded (st_references tables) (concat (map (\<lambda>l. block (?H l) (map ?G (segments_of l))) new)) =
      Inr (reference_rows sha (seqs @ new))"
    unfolding tables reference_rows_def by (rule blocks_insert [OF distinct_seqs])
  have "snd l \<noteq> [] \<and> length (snd l) \<le> ARCHIVE_BATCH" if "l \<in> set added" for l
  proof -
    from that added_set obtain r where "l \<in> set (segments_of r)" by auto
    then show ?thesis by (auto simp: segments_of_def dest: chunks_bound)
  qed
  with sizes have sizes': "\<forall>l \<in> set (segs @ added). snd l \<noteq> [] \<and> length (snd l) \<le> ARCHIVE_BATCH"
    by (simp add: ball_Un)
  have "\<forall>l \<in> set new. set (segments_of l) \<subseteq> set (segs @ added)" using all_parts by simp blast
  with parts have parts': "\<forall>l \<in> set (seqs @ new). set (segments_of l) \<subseteq> set (segs @ added)"
    by (auto simp only: set_append ball_Un)
  have stored: "stores sha ?tables (seqs @ new) (segs @ added)"
    unfolding stores_def using distinct_seqs distinct_segs sizes' parts' by (intro conjI refl)
  have "set ids \<subseteq> ?H ` set (seqs @ new)" using ids(1) by auto
  from load_sequences_finds [OF stored this] obtain loaded where loaded: "load_sequences sha ?tables ids = Inr loaded"
    "\<forall>l \<in> set (seqs @ new). ?H l \<in> set ids \<longrightarrow> dict_get loaded (?H l) = Some l" by blast
  have "check_loaded ''sequence'' loaded known ids = Inr ()"
    using loaded(2) ids(1) known by (auto simp: check_loaded_def list_all_iff)
  then have "save_new_sequences sha tables known ids = Inr ?tables"
    unfolding save_new_sequences_def Let_def missing intern_all_inj [OF inj] bind_r_simps
      segment_ids_def [symmetric] existing_def [symmetric] checked added_def [symmetric]
      segments members sequences references loaded(1) by simp
  from this stored show thesis by (rule that) (use added_set wanted in blast)
qed

lemma save_sequences_stores:
  assumes "stores sha tables seqs segs" and "inj_on (sequence_hash sha) (set seqs \<union> set requests)"
    and "inj_on (segment_hash sha) (set segs \<union> \<Union> (set ` segments_of ` set requests))"
  obtains tables' new added where "save_sequences_batch sha tables requests = Inr (map (sequence_hash sha) requests, tables')"
    and "stores sha tables' (seqs @ new) (segs @ added)" and "set new = set requests - set seqs"
    and "set added \<subseteq> \<Union> (set ` segments_of ` set requests)"
proof (cases "requests = []")
  case True
  then show thesis using assms(1) that [of tables "[]" "[]"] by (simp add: save_sequences_batch_def intern_all_def)
next
  case False
  let ?H = "sequence_hash sha"
  have inj: "inj_on ?H (set requests)" using assms(2) by (rule inj_on_subset) blast
  let ?sv = "dict_by ?H requests"
  define all_ids where "all_ids = sort (dict_keys ?sv)"
  have all_ids: "set all_ids = ?H ` set requests" "distinct all_ids"
    unfolding all_ids_def set_sort distinct_sort keys_interned
    using dict_ok_by [of ?H requests] by (simp_all only: dict_ok_def dict_keys_def)
  have table: "st_sequences tables = sequence_rows sha seqs" using assms(1) by (simp add: stores_def)
  define existing where "existing = remdups (map fst (select_by_ids (st_sequences tables) all_ids))"
  have existing: "set existing = ?H ` set seqs \<inter> ?H ` set requests"
    unfolding existing_def existing_keys table rows_keys all_ids by simp
  have checked: "(if existing = [] then Inr ()
      else bind_r (load_sequences sha tables existing) (\<lambda>loaded. check_loaded ''sequence'' loaded ?sv existing)) = Inr ()"
  proof (cases "existing = []")
    case False
    have "set existing \<subseteq> ?H ` set seqs" unfolding existing by blast
    from load_sequences_finds [OF assms(1) this] obtain loaded where loaded: "load_sequences sha tables existing = Inr loaded"
      "\<forall>l \<in> set seqs. ?H l \<in> set existing \<longrightarrow> dict_get loaded (?H l) = Some l" by blast
    have "dict_get loaded i = dict_get ?sv i" if "i \<in> set existing" for i
    proof -
      from that existing obtain s w where "s \<in> set seqs" "i = ?H s" "w \<in> set requests" "i = ?H w" by auto
      moreover from this assms(2) have "s = w" by (auto simp: inj_on_def)
      ultimately show ?thesis using loaded(2) that get_interned [OF inj, of i w] by auto
    qed
    with loaded(1) show ?thesis by (auto simp: check_loaded_def list_all_iff)
  qed simp
  define missing where "missing = filter (\<lambda>i. i \<notin> set existing) all_ids"
  define new where "new = links_at ?sv missing"
  have missing: "distinct missing" "set missing \<subseteq> ?H ` set requests" "set missing \<inter> ?H ` set seqs = {}"
    using all_ids existing by (auto simp: missing_def)
  have new_ids: "map ?H new = missing" and "set new = {l \<in> set requests. ?H l \<in> set missing}"
    unfolding new_def by (rule links_of_interned [OF inj missing(2,1)])+
  then have new: "set new = set requests - set seqs"
    using assms(2) all_ids existing by (auto simp: missing_def inj_on_def)
  have save: "save_sequences_batch sha tables requests =
      bind_r (if missing = [] then Inr tables else save_new_sequences sha tables ?sv missing)
        (\<lambda>tables. Inr (map ?H requests, tables))"
    using False unfolding save_sequences_batch_def Let_def intern_all_inj [OF inj] bind_r_simps
      all_ids_def [symmetric] existing_def [symmetric] checked missing_def [symmetric] by simp
  show thesis
  proof (cases "missing = []")
    case True
    with new_ids new save assms(1) show thesis by (intro that [of tables new "[]"]) auto
  next
    case some: False
    have "inj_on (segment_hash sha) (set segs \<union> \<Union> (set ` segments_of ` set new))"
      using assms(3) by (rule inj_on_subset) (use new in auto)
    moreover have "dict_get ?sv (?H l) = Some l" if "l \<in> set new" for l
      using that new get_interned [OF inj, of "?H l" l] by auto
    ultimately obtain tables' added where "save_new_sequences sha tables ?sv missing = Inr tables'"
      "stores sha tables' (seqs @ new) (segs @ added)" "set added \<subseteq> \<Union> (set ` segments_of ` set new)"
      using save_new_sequences_stores [OF assms(1) _ new_ids missing(1,3)] by metis
    moreover from this(3) new have "set added \<subseteq> \<Union> (set ` segments_of ` set requests)" by auto
    ultimately show thesis using save some new by (intro that) auto
  qed
qed

lemma stores_empty: "stores sha \<lparr>st_sequences = [], st_references = [], st_segments = [], st_members = []\<rparr> [] []"
  by (simp add: stores_def sequence_rows_def segment_rows_def reference_rows_def member_rows_def)

end
