(* ===== verification/HistoricalArchiveProperties.thy ===== *)
theory HistoricalArchiveProperties
  imports HistoricalArchive SequenceStoreProperties
begin

text \<open>
  The archive gives back exactly what was saved in it: a representation of the tables by the
  metrics and diagnostics they hold, reading and saving over it, and the archive as a paged source.
\<close>

section \<open>What an archive holds\<close>

definition archivable_metric :: "archive_env \<Rightarrow> metric_result \<Rightarrow> bool" where
  "archivable_metric env m \<longleftrightarrow>
     sorted_parameters (m_parameters m) = m_parameters m \<and> validate_result_traceability m = Inr m \<and>
     validate_metric_identity env m = Inr ()"

definition archivable_diagnostic :: "diagnostic_result \<Rightarrow> bool" where
  "archivable_diagnostic d \<longleftrightarrow> parse_diagnostic d = Inr d"

definition stored_metric :: "archive_env \<Rightarrow> metric_result \<Rightarrow> metric_row" where
  "stored_metric env m =
     metric_row_of env m (sequence_hash (ae_sha env) (observation_link m)) (sequence_hash (ae_sha env) (metric_link m))"

definition stored_component :: "archive_env \<Rightarrow> diagnostic_component \<Rightarrow> component_row" where
  "stored_component env c = component_row_of c (sequence_hash (ae_sha env) (component_link c))"

definition metric_links :: "metric_result \<Rightarrow> link set" where
  "metric_links m = {observation_link m, metric_link m}"

definition diagnostic_links :: "diagnostic_result \<Rightarrow> link set" where
  "diagnostic_links d = component_link ` set (d_components d)"

definition archive_parts ::
  "archive_env \<Rightarrow> archive \<Rightarrow> metric_result list \<Rightarrow> diagnostic_result list \<Rightarrow> link list \<Rightarrow> link list \<Rightarrow> bool" where
  "archive_parts env archive ms ds seqs segs \<longleftrightarrow>
     ar_metrics archive = map (\<lambda>m. (m_result_id m, stored_metric env m)) ms \<and>
     ar_diagnostics archive = map (\<lambda>d. (d_diagnostic_id d, diagnostic_row_of env d)) ds \<and>
     ar_components archive =
       concat (map (\<lambda>d. block (d_diagnostic_id d) (map (stored_component env) (d_components d))) ds) \<and>
     ar_evidence archive = concat (map (\<lambda>d. block (d_diagnostic_id d) (d_evidence d)) ds) \<and>
     stores (ae_sha env) (ar_sequences archive) seqs segs \<and> (\<forall>l \<in> set seqs \<union> set segs. short_link l) \<and>
     set seqs = (\<Union>m \<in> set ms. metric_links m) \<union> (\<Union>d \<in> set ds. diagnostic_links d) \<and>
     set segs \<subseteq> (\<Union>l \<in> set seqs. set (segments_of l)) \<and>
     (\<forall>m \<in> set ms. archivable_metric env m) \<and> (\<forall>d \<in> set ds. archivable_diagnostic d)"

lemma parts_links:
  assumes "archive_parts env archive ms ds seqs segs"
  shows "\<forall>m \<in> set ms. archivable_metric env m \<and> metric_links m \<subseteq> set seqs"
    and "\<forall>d \<in> set ds. archivable_diagnostic d \<and> diagnostic_links d \<subseteq> set seqs"
  using assms unfolding archive_parts_def by blast+

definition archive_holds :: "archive_env \<Rightarrow> archive \<Rightarrow> metric_result list \<Rightarrow> diagnostic_result list \<Rightarrow> bool" where
  "archive_holds env archive ms ds \<longleftrightarrow>
     inj (ae_sha env) \<and> distinct (map m_result_id ms) \<and> distinct (map d_diagnostic_id ds) \<and>
     (\<exists>seqs segs. archive_parts env archive ms ds seqs segs)"

lemma short_links:
  "l \<in> metric_links m \<Longrightarrow> short_link l" "l \<in> diagnostic_links d \<Longrightarrow> short_link l"
  by (auto simp: metric_links_def diagnostic_links_def observation_link_def metric_link_def component_link_def short_link_def)

lemma short_segments: "short_link l \<Longrightarrow> s \<in> set (segments_of l) \<Longrightarrow> short_link s"
  by (auto simp: segments_of_def short_link_def)

lemma archive_holds_empty: "inj (ae_sha env) \<Longrightarrow> archive_holds env empty_archive [] []"
  unfolding archive_holds_def archive_parts_def empty_archive_def
  using stores_empty [of "ae_sha env"] by (auto intro!: exI [of _ "[]"])

section \<open>Reading\<close>

lemma indexed_rows_finds:
  assumes "distinct (map key ms)" and "set ids \<subseteq> key ` set ms"
  shows "indexed_rows message (map (\<lambda>m. (key m, row m)) ms) ids = Inr (map (\<lambda>i. (i, row (item_at key ms i))) ids)"
proof -
  let ?table = "map (\<lambda>m. (key m, row m)) ms"
  have "dict_ok ?table" using assms(1) by (simp add: dict_ok_def comp_def)
  note get = get_selected [OF this]
  have "dict_get (dict_update [] (select_by_ids ?table ids)) i = Some (row (item_at key ms i))" if "i \<in> set ids" for i
  proof -
    from that assms(2) obtain m where "m \<in> set ms" "i = key m" by blast
    moreover from this have "dict_get ?table i = Some (row m)"
      using map_of_links [OF assms(1), of m row] by (simp add: dict_get_def)
    ultimately show ?thesis using that item_at_key [OF assms(1)] by (simp add: get)
  qed
  then show ?thesis
    by (auto simp: indexed_rows_def Let_def intro!: traverse_Inr_map)
qed

lemma read_metric_stored:
  assumes "archivable_metric env m" and "\<And>l. l \<in> metric_links m \<Longrightarrow> dict_get sequences (sequence_hash (ae_sha env) l) = Some l"
  shows "read_metric env sequences (m_result_id m, stored_metric env m) = Inr m"
proof -
  have m: "\<lparr>m_result_id = m_result_id m, m_asset_id = m_asset_id m, m_metric_key = m_metric_key m, m_value = m_value m,
      m_unit = m_unit m, m_as_of = m_as_of m, m_available_at = m_available_at m, m_computed_at = m_computed_at m,
      m_parameters = m_parameters m, m_input_observation_ids = m_input_observation_ids m,
      m_input_metric_result_ids = m_input_metric_result_ids m, m_algorithm_version = m_algorithm_version m,
      m_quality = m_quality m\<rparr> = m"
    by (cases m) simp
  have "identifiers_at sequences (sequence_hash (ae_sha env) (observation_link m)) = Inr (m_input_observation_ids m)"
    "identifiers_at sequences (sequence_hash (ae_sha env) (metric_link m)) = Inr (m_input_metric_result_ids m)"
    using assms(2) by (simp_all add: metric_links_def identifiers_at_def observation_link_def metric_link_def)
  with assms(1) show ?thesis
    by (simp add: read_metric_def stored_metric_def metric_row_of_def archivable_metric_def invalid_row_def
        require_unit_def Let_def m)
qed

lemma get_metrics_finds:
  assumes "archive_holds env archive ms ds" and "set ids \<subseteq> m_result_id ` set ms" and "length (remdups ids) \<le> ARCHIVE_BATCH"
  shows "\<exists>found. get_metrics env archive ids = Inr found \<and> dict_keys found = sort (remdups ids) \<and>
    (\<forall>m \<in> set ms. m_result_id m \<in> set ids \<longrightarrow> dict_get found (m_result_id m) = Some m)"
proof (cases "ids = []")
  case True
  then show ?thesis by (simp add: get_metrics_def dict_keys_def)
next
  case False
  let ?ids = "sort (remdups ids)" and ?at = "item_at m_result_id ms" and ?H = "sequence_hash (ae_sha env)"
  from assms(1) obtain seqs segs where distinct: "distinct (map m_result_id ms)" and parts: "archive_parts env archive ms ds seqs segs"
    by (auto simp: archive_holds_def)
  then have table: "ar_metrics archive = map (\<lambda>m. (m_result_id m, stored_metric env m)) ms"
    and stores: "stores (ae_sha env) (ar_sequences archive) seqs segs"
    by (simp_all add: archive_parts_def)
  note each = parts_links(1) [OF parts]
  have at: "?at i \<in> set ms" "m_result_id (?at i) = i" if "i \<in> set ids" for i
    using that assms(2) item_at_key [OF distinct] by auto
  have rows: "indexed_rows message (ar_metrics archive) ?ids = Inr (map (\<lambda>i. (i, stored_metric env (?at i))) ?ids)" for message
    unfolding table by (rule indexed_rows_finds [OF distinct]) (use assms(2) in simp)
  let ?rows = "map (\<lambda>i. (i, stored_metric env (?at i))) ?ids"
  let ?sequence_ids = "map (\<lambda>(i, row). mw_observation_sequence_id row) ?rows @ map (\<lambda>(i, row). mw_metric_sequence_id row) ?rows"
  have wanted: "set ?sequence_ids = ?H ` (\<Union>i \<in> set ids. metric_links (?at i))"
    by (auto simp: stored_metric_def metric_row_of_def metric_links_def)
  also have "\<dots> \<subseteq> ?H ` set seqs" using at(1) each by blast
  finally obtain sequences where sequences: "load_sequences (ae_sha env) (ar_sequences archive) ?sequence_ids = Inr sequences"
    "\<forall>l \<in> set seqs. ?H l \<in> set ?sequence_ids \<longrightarrow> dict_get sequences (?H l) = Some l"
    using load_sequences_finds [OF stores] by blast
  have "read_metric env sequences (i, stored_metric env (?at i)) = Inr (?at i)" if "i \<in> set ids" for i
  proof -
    have "read_metric env sequences (m_result_id (?at i), stored_metric env (?at i)) = Inr (?at i)"
    proof (rule read_metric_stored)
      show "archivable_metric env (?at i)" using at(1) [OF that] each by blast
      fix l assume l: "l \<in> metric_links (?at i)"
      then have "l \<in> set seqs" using at(1) [OF that] each by blast
      moreover have "?H l \<in> set ?sequence_ids" unfolding wanted using l that by blast
      ultimately show "dict_get sequences (?H l) = Some l" using sequences(2) by blast
    qed
    then show ?thesis by (simp add: at(2) [OF that])
  qed
  then have "traverse (read_metric env sequences) ?rows = Inr (map ?at ?ids)"
    by (auto simp: traverse_Inr_iff list_all2_map1 list_all2_map2 list_all2_same)
  note results = this
  have "?ids \<noteq> []" "\<not> ARCHIVE_BATCH < length ?ids" using False assms(3) by (simp_all add: sort_empty)
  then have "get_metrics env archive ids = Inr (zip ?ids (map ?at ?ids))"
    unfolding get_metrics_def Let_def by (simp only: if_False rows bind_r_simps sequences(1) results)
  moreover have "dict_keys (zip ?ids (map ?at ?ids)) = ?ids" by (simp add: dict_keys_def)
  moreover have "\<forall>m \<in> set ms. m_result_id m \<in> set ids \<longrightarrow> dict_get (zip ?ids (map ?at ?ids)) (m_result_id m) = Some m"
    using item_at_key [OF distinct] by (simp add: dict_get_def map_of_zip_map)
  ultimately show ?thesis by blast
qed

lemma children_of_blocks:
  assumes "distinct ids" and "i \<in> set ids"
  shows "children_of (concat (map (\<lambda>k. block k (f k)) ids)) i = enumerate 0 (f i)"
proof -
  have other: "children_of (concat (map (\<lambda>k. block k (f k)) ks)) i = []" if "i \<notin> set ks" for ks
    using that by (auto simp: children_of_def filter_empty_conv dest: fst_block)
  have one: "children_of (block i (f i)) i = enumerate 0 (f i)"
  proof -
    have "filter (\<lambda>row. fst (fst row) = i) (block i (f i)) = block i (f i)" by (auto simp: filter_id_conv dest: fst_block)
    then show ?thesis by (simp add: children_of_def block_def comp_def case_prod_beta)
  qed
  have append: "children_of (xs @ ys) i = children_of xs i @ children_of ys i" for xs ys :: "(('a \<times> nat) \<times> 'b) list"
    by (simp add: children_of_def)
  from assms(2) obtain as bs where ids: "ids = as @ i # bs" by (meson split_list)
  with assms(1) have "i \<notin> set as" "i \<notin> set bs" by auto
  with other one show ?thesis by (simp add: ids append)
qed

lemma snd_block: "snd ` set (block k vs) = set vs"
proof -
  have "map snd (block k vs) = vs" by (simp add: block_def comp_def case_prod_beta enumerate_eq_zip)
  then show ?thesis by (metis set_map)
qed

lemma read_component_stored:
  "dict_get sequences (sequence_hash (ae_sha env) (component_link c)) = Some (component_link c) \<Longrightarrow>
    read_component sequences (stored_component env c) = Inr c"
  by (cases c) (simp add: read_component_def stored_component_def component_row_of_def identifiers_at_def component_link_def)

lemma read_components_stored:
  assumes "\<And>l. l \<in> diagnostic_links d \<Longrightarrow> dict_get sequences (sequence_hash (ae_sha env) l) = Some l"
  shows "traverse (\<lambda>(p, c). read_component sequences c) (enumerate n (map (stored_component env) (d_components d))) =
    Inr (d_components d)"
proof -
  have one: "read_component sequences (stored_component env c) = Inr c" if "c \<in> set (d_components d)" for c
    using that by (auto simp: diagnostic_links_def intro!: read_component_stored assms)
  have "set cs \<subseteq> set (d_components d) \<Longrightarrow>
      traverse (\<lambda>(p, c). read_component sequences c) (enumerate n (map (stored_component env) cs)) = Inr cs" for cs n
    by (induction cs arbitrary: n) (simp_all add: one)
  then show ?thesis by simp
qed

lemma read_diagnostic_stored:
  assumes "archivable_diagnostic d" and "distinct ids" and "d_diagnostic_id d \<in> set ids"
    and "\<And>l. l \<in> diagnostic_links d \<Longrightarrow> dict_get sequences (sequence_hash (ae_sha env) l) = Some l"
    and "cs (d_diagnostic_id d) = map (stored_component env) (d_components d)" and "es (d_diagnostic_id d) = d_evidence d"
  shows "read_diagnostic env sequences (concat (map (\<lambda>k. block k (cs k)) ids)) (concat (map (\<lambda>k. block k (es k)) ids))
    (d_diagnostic_id d, diagnostic_row_of env d) = Inr d"
proof -
  have d: "\<lparr>d_diagnostic_id = d_diagnostic_id d, d_asset_id = d_asset_id d, d_mode = d_mode d, d_verdict = d_verdict d,
      d_final_score = d_final_score d, d_confidence = d_confidence d, d_as_of = d_as_of d,
      d_available_at = d_available_at d, d_computed_at = d_computed_at d, d_components = d_components d,
      d_evidence = d_evidence d, d_algorithm_version = d_algorithm_version d, d_summary = d_summary d,
      d_quality = d_quality d\<rparr> = d"
    by (cases d) simp
  have fst: "map fst (enumerate 0 xs) = [0..<length xs]" for xs :: "'b list"
    by (simp add: enumerate_eq_zip)
  have snd: "map snd (enumerate 0 xs) = xs" for xs :: "'b list"
    by (simp add: enumerate_eq_zip)
  show ?thesis
    using assms(1) read_components_stored [OF assms(4)]
    by (simp add: read_diagnostic_def children_of_blocks [OF assms(2,3)] assms(5,6) diagnostic_row_of_def fst snd
        archivable_diagnostic_def invalid_row_def require_unit_def Let_def d)
qed

lemma children_of_archive:
  assumes "distinct (map key xs)" and "set ids \<subseteq> key ` set xs" and "sorted ids" and "distinct ids"
  shows "paged_children (concat (map (\<lambda>x. block (key x) (v x)) xs)) ids =
    concat (map (\<lambda>i. block i (v (item_at key xs i))) ids)"
proof -
  let ?f = "\<lambda>k. case map_of (map (\<lambda>x. (key x, v x)) xs) k of None \<Rightarrow> [] | Some vs \<Rightarrow> vs"
  have "?f i = v (item_at key xs i)" if "i \<in> set ids" for i
  proof -
    from that assms(2) obtain x where "x \<in> set xs" "i = key x" by blast
    then show ?thesis using map_of_links [OF assms(1), of x v] item_at_key [OF assms(1), of x] by simp
  qed
  then have "map (\<lambda>i. block i (?f i)) ids = map (\<lambda>i. block i (v (item_at key xs i))) ids" by simp
  then show ?thesis unfolding paged_children_blocks [OF blocks_of [OF assms(1), of v] assms(3,4)] by (rule arg_cong)
qed

lemma get_diagnostics_finds:
  assumes "archive_holds env archive ms ds" and "set ids \<subseteq> d_diagnostic_id ` set ds" and "length (remdups ids) \<le> ARCHIVE_BATCH"
  shows "\<exists>found. get_diagnostics env archive ids = Inr found \<and> dict_keys found = sort (remdups ids) \<and>
    (\<forall>d \<in> set ds. d_diagnostic_id d \<in> set ids \<longrightarrow> dict_get found (d_diagnostic_id d) = Some d)"
proof (cases "ids = []")
  case True
  then show ?thesis by (simp add: get_diagnostics_def dict_keys_def)
next
  case False
  let ?ids = "sort (remdups ids)" and ?at = "item_at d_diagnostic_id ds" and ?H = "sequence_hash (ae_sha env)"
  from assms(1) obtain seqs segs where distinct: "distinct (map d_diagnostic_id ds)" and parts: "archive_parts env archive ms ds seqs segs"
    by (auto simp: archive_holds_def)
  then have tables: "ar_diagnostics archive = map (\<lambda>d. (d_diagnostic_id d, diagnostic_row_of env d)) ds"
    "ar_components archive = concat (map (\<lambda>d. block (d_diagnostic_id d) (map (stored_component env) (d_components d))) ds)"
    "ar_evidence archive = concat (map (\<lambda>d. block (d_diagnostic_id d) (d_evidence d)) ds)"
    and stores: "stores (ae_sha env) (ar_sequences archive) seqs segs"
    by (simp_all add: archive_parts_def)
  note each = parts_links(2) [OF parts]
  have at: "?at i \<in> set ds" "d_diagnostic_id (?at i) = i" if "i \<in> set ids" for i
    using that assms(2) item_at_key [OF distinct] by auto
  have sub: "set ?ids \<subseteq> d_diagnostic_id ` set ds" "sorted ?ids" "distinct ?ids" using assms(2) by simp_all
  have rows: "indexed_rows message (ar_diagnostics archive) ?ids = Inr (map (\<lambda>i. (i, diagnostic_row_of env (?at i))) ?ids)" for message
    unfolding tables by (rule indexed_rows_finds [OF distinct sub(1)])
  let ?rows = "map (\<lambda>i. (i, diagnostic_row_of env (?at i))) ?ids"
  let ?components = "concat (map (\<lambda>i. block i (map (stored_component env) (d_components (?at i)))) ?ids)"
  let ?evidence = "concat (map (\<lambda>i. block i (d_evidence (?at i))) ?ids)"
  have components: "paged_children (ar_components archive) ?ids = ?components"
    unfolding tables by (rule children_of_archive [OF distinct sub])
  have evidence: "paged_children (ar_evidence archive) ?ids = ?evidence"
    unfolding tables by (rule children_of_archive [OF distinct sub])
  let ?sequence_ids = "map (\<lambda>(k, row). cw_metric_sequence_id row) ?components"
  have "cw_metric_sequence_id ` snd ` set (block i (map (stored_component env) cs)) = ?H ` component_link ` set cs" for i :: uuid and cs
    unfolding snd_block by (simp add: image_image stored_component_def component_row_of_def)
  then have "cw_metric_sequence_id ` snd ` set ?components = (\<Union>i \<in> set ids. ?H ` diagnostic_links (?at i))"
    by (simp add: image_UN diagnostic_links_def)
  then have wanted: "set ?sequence_ids = ?H ` (\<Union>i \<in> set ids. diagnostic_links (?at i))"
    by (simp add: image_UN image_image case_prod_beta)
  also have "\<dots> \<subseteq> ?H ` set seqs" using at(1) each by blast
  finally obtain sequences where sequences: "load_sequences (ae_sha env) (ar_sequences archive) ?sequence_ids = Inr sequences"
    "\<forall>l \<in> set seqs. ?H l \<in> set ?sequence_ids \<longrightarrow> dict_get sequences (?H l) = Some l"
    using load_sequences_finds [OF stores] by blast
  have "read_diagnostic env sequences ?components ?evidence (i, diagnostic_row_of env (?at i)) = Inr (?at i)"
    if i: "i \<in> set ids" for i
  proof -
    have "read_diagnostic env sequences ?components ?evidence (d_diagnostic_id (?at i), diagnostic_row_of env (?at i)) = Inr (?at i)"
    proof (rule read_diagnostic_stored)
      show "archivable_diagnostic (?at i)" using at(1) [OF i] each by blast
      show "d_diagnostic_id (?at i) \<in> set ?ids" using at(2) [OF i] i by simp
      fix l assume l: "l \<in> diagnostic_links (?at i)"
      then have "l \<in> set seqs" using at(1) [OF i] each by blast
      moreover have "?H l \<in> set ?sequence_ids" unfolding wanted using l i by blast
      ultimately show "dict_get sequences (?H l) = Some l" using sequences(2) by blast
    qed (simp_all add: at(2) [OF i])
    then show ?thesis by (simp only: at(2) [OF i])
  qed
  then have results: "traverse (read_diagnostic env sequences ?components ?evidence) ?rows = Inr (map ?at ?ids)"
    by (auto simp: traverse_Inr_iff list_all2_map1 list_all2_map2 list_all2_same)
  have "?ids \<noteq> []" "\<not> ARCHIVE_BATCH < length ?ids" using False assms(3) by (simp_all add: sort_empty)
  then have "get_diagnostics env archive ids = Inr (zip ?ids (map ?at ?ids))"
    unfolding get_diagnostics_def Let_def by (simp only: if_False rows bind_r_simps components evidence sequences(1) results)
  moreover have "dict_keys (zip ?ids (map ?at ?ids)) = ?ids" by (simp add: dict_keys_def)
  moreover have "\<forall>d \<in> set ds. d_diagnostic_id d \<in> set ids \<longrightarrow> dict_get (zip ?ids (map ?at ?ids)) (d_diagnostic_id d) = Some d"
    using item_at_key [OF distinct] by (simp add: dict_get_def map_of_zip_map)
  ultimately show ?thesis by blast
qed

section \<open>Saving\<close>

lemma metric_eq_refl [simp]: "metric_eq m m"
  by (simp add: metric_eq_def dec_eq_def)

lemma diagnostic_eq_refl [simp]: "diagnostic_eq d d"
  by (simp add: diagnostic_eq_def dec_eq_def component_eq_def evidence_eq_def list_all2_same)

text \<open>A batch that can be saved next to \<open>ms\<close>: one content for each identity.\<close>

definition consistent :: "('r \<Rightarrow> uuid) \<Rightarrow> 'r list \<Rightarrow> 'r list \<Rightarrow> bool" where
  "consistent key stored batch \<longleftrightarrow> inj_on key (set stored \<union> set batch)"

lemma check_checksums_ok:
  assumes "inj_on key (set items)" and "\<And>m. m \<in> set items \<Longrightarrow> validate m = Inr ()"
    and "\<And>m c. m \<in> set items \<Longrightarrow> dict_get acc (key m) = Some c \<Longrightarrow> c = checksum m"
  shows "check_checksums key checksum validate items acc = Inr ()"
  using assms
proof (induction items arbitrary: acc)
  case (Cons m items)
  have next_acc: "c = checksum m'" if "m' \<in> set items" "dict_get (dict_set acc (key m) (checksum m)) (key m') = Some c" for m' c
  proof (cases "key m' = key m")
    case True
    then have "m' = m" using Cons.prems(1) that(1) by (auto simp: inj_on_def)
    with that(2) show ?thesis by simp
  next
    case False
    with that Cons.prems(3) [of m' c] show ?thesis by simp
  qed
  have inj: "inj_on key (set items)" using Cons.prems(1) by (rule inj_on_subset) auto
  have rest: "check_checksums key checksum validate items (dict_set acc (key m) (checksum m)) = Inr ()"
    by (rule Cons.IH [OF inj Cons.prems(2) next_acc]) simp_all
  have here: "validate m = Inr ()" using Cons.prems(2) by simp
  show ?case
  proof (cases "dict_get acc (key m)")
    case None
    with rest here show ?thesis by simp
  next
    case (Some c)
    with Cons.prems(3) [of m c] have "c = checksum m" by simp
    with Some rest here show ?thesis by simp
  qed
qed simp

lemma unique_items_spec:
  assumes "inj_on key (set items)"
  shows "set (unique_items key items) = set items" and "distinct (map key (unique_items key items))"
proof -
  let ?d = "dict_by key items"
  have row: "(k, x) \<in> set ?d \<longleftrightarrow> x \<in> set items \<and> key x = k" for k x
  proof -
    have "(k, x) \<in> set ?d \<longleftrightarrow> dict_get ?d k = Some x" by (simp add: dict_in_iff_get)
    also have "\<dots> \<longleftrightarrow> x \<in> set items \<and> key x = k" by (rule get_interned [OF assms])
    finally show ?thesis .
  qed
  then show "set (unique_items key items) = set items" by (force simp: unique_items_def dict_values_def)
  have "map key (map snd ?d) = map fst ?d" using row by auto
  then show "distinct (map key (unique_items key items))"
    using dict_ok_by [of key items] by (simp only: unique_items_def dict_values_def dict_ok_def)
qed

lemma unique_items_distinct: "distinct (map key items) \<Longrightarrow> unique_items key items = items"
  by (simp add: unique_items_def dict_by_values)

lemma check_stored_ok:
  assumes "\<And>item stored. item \<in> set unique \<Longrightarrow> dict_get current (key item) = Some stored \<Longrightarrow> stored = item" and "\<And>item. eq item item"
  shows "check_stored eq key unique current = Inr ()"
  using assms by (auto simp: check_stored_def list_all_iff split: option.splits)

lemma paired_nth: "map (\<lambda>(i, m). f m ((concat (map (\<lambda>m. [g m, h m]) (us @ ms))) ! (i * 2))
     ((concat (map (\<lambda>m. [g m, h m]) (us @ ms))) ! (i * 2 + 1))) (enumerate (length us) ms) = map (\<lambda>m. f m (g m) (h m)) ms"
proof (induction ms arbitrary: us)
  case (Cons m ms)
  have len: "length (concat (map (\<lambda>m. [g m, h m]) us)) = length us * 2" by (induction us) simp_all
  have "concat (map (\<lambda>m. [g m, h m]) (us @ m # ms)) ! (length us * 2) = g m"
    "concat (map (\<lambda>m. [g m, h m]) (us @ m # ms)) ! (length us * 2 + 1) = h m"
    by (simp_all add: nth_append len)
  with Cons.IH [of "us @ [m]"] show ?case by simp
qed simp

lemma links_injective:
  assumes "inj sha" and "\<forall>l \<in> A. short_link l"
  shows "inj_on (sequence_hash sha) A" and "inj_on (segment_hash sha) A"
  using hash_inj_on [OF assms(1)] assms(2) by (auto intro: inj_on_subset)

text \<open>Interning the links of new items in the sequences of an archive.\<close>

lemma intern_links:
  assumes "inj (ae_sha env)" and "archive_parts env archive ms ds seqs segs" and "\<forall>l \<in> set requests. short_link l"
  obtains tables' seqs' segs' where
    "save_sequences_batch (ae_sha env) (ar_sequences archive) requests = Inr (map (sequence_hash (ae_sha env)) requests, tables')"
    and "stores (ae_sha env) tables' seqs' segs'" and "\<forall>l \<in> set seqs' \<union> set segs'. short_link l"
    and "set seqs' = set seqs \<union> set requests" and "set segs' \<subseteq> (\<Union>l \<in> set seqs'. set (segments_of l))"
proof -
  from assms(2) have stores: "stores (ae_sha env) (ar_sequences archive) seqs segs"
    and short: "\<forall>l \<in> set seqs \<union> set segs. short_link l"
    and used: "set segs \<subseteq> (\<Union>l \<in> set seqs. set (segments_of l))"
    unfolding archive_parts_def by blast+
  have "inj_on (sequence_hash (ae_sha env)) (set seqs \<union> set requests)"
    by (rule links_injective [OF assms(1)]) (use short assms(3) in auto)
  moreover have "inj_on (segment_hash (ae_sha env)) (set segs \<union> \<Union> (set ` segments_of ` set requests))"
    by (rule links_injective [OF assms(1)]) (use short assms(3) short_segments in auto)
  ultimately obtain tables' new added where save:
    "save_sequences_batch (ae_sha env) (ar_sequences archive) requests = Inr (map (sequence_hash (ae_sha env)) requests, tables')"
    "stores (ae_sha env) tables' (seqs @ new) (segs @ added)" "set new = set requests - set seqs"
    "set added \<subseteq> \<Union> (set ` segments_of ` set requests)"
    using save_sequences_stores [OF stores] by metis
  have "\<forall>l \<in> set added. short_link l" using save(4) assms(3) short_segments by blast
  moreover have "set (segs @ added) \<subseteq> (\<Union>l \<in> set (seqs @ new). set (segments_of l))"
  proof -
    have "set (segs @ added) \<subseteq> (\<Union>l \<in> set seqs \<union> set requests. set (segments_of l))"
      using used save(4) by fastforce
    moreover have "set (seqs @ new) = set seqs \<union> set requests" using save(3) by auto
    ultimately show ?thesis by simp
  qed
  ultimately show thesis using save short assms(3) by (intro that [OF save(1,2)]) auto
qed

text \<open>
  The items of a batch that are stored already: they are found under their identities, few enough
  to be read at once, and equal to the items of the batch.
\<close>

definition existing_ids :: "('r \<Rightarrow> uuid) \<Rightarrow> (uuid, 'w) dict \<Rightarrow> 'r list \<Rightarrow> uuid list" where
  "existing_ids key table typed = remdups (map fst (select_by_ids table (map key (unique_items key typed))))"

lemma existing_items:
  assumes "inj_on key (set ms \<union> set typed)" and "map fst table = map key ms" and "length typed \<le> ARCHIVE_BATCH"
  shows "\<And>m. m \<in> set typed \<Longrightarrow> key m \<in> set (existing_ids key table typed) \<longleftrightarrow> m \<in> set ms"
    and "set (existing_ids key table typed) \<subseteq> key ` set ms"
    and "length (remdups (sort (existing_ids key table typed))) \<le> ARCHIVE_BATCH"
    and "distinct (existing_ids key table typed)"
proof -
  have inj: "inj_on key (set typed)" using assms(1) by (rule inj_on_subset) blast
  have existing: "set (existing_ids key table typed) = key ` set ms \<inter> key ` set typed"
    unfolding existing_ids_def existing_keys assms(2) using unique_items_spec(1) [OF inj] by simp
  show "key m \<in> set (existing_ids key table typed) \<longleftrightarrow> m \<in> set ms" if "m \<in> set typed" for m
    using that assms(1) unfolding existing by (auto simp: inj_on_def)
  show "set (existing_ids key table typed) \<subseteq> key ` set ms" unfolding existing by blast
  have "length (existing_ids key table typed) = card (set (existing_ids key table typed))"
    by (simp add: existing_ids_def length_remdups_card_conv)
  also have "\<dots> \<le> card (key ` set typed)" unfolding existing by (intro card_mono) auto
  also have "\<dots> \<le> length typed" by (metis card_length length_map list.set_map)
  finally show "length (remdups (sort (existing_ids key table typed))) \<le> ARCHIVE_BATCH"
    using assms(3) length_remdups_leq [of "sort (existing_ids key table typed)"] by simp
  show "distinct (existing_ids key table typed)" by (simp add: existing_ids_def)
qed

lemma current_items:
  assumes "inj_on key (set ms \<union> set typed)" and "map fst table = map key ms" and "length typed \<le> ARCHIVE_BATCH"
    and "\<And>item. eq item item"
    and finds: "\<And>ids. set ids \<subseteq> key ` set ms \<Longrightarrow> length (remdups ids) \<le> ARCHIVE_BATCH \<Longrightarrow>
      \<exists>found. lookup ids = Inr found \<and> dict_keys found = sort (remdups ids) \<and>
        (\<forall>m \<in> set ms. key m \<in> set ids \<longrightarrow> dict_get found (key m) = Some m)"
  obtains current where
    "(if existing_ids key table typed = [] then Inr [] else lookup (sort (existing_ids key table typed))) = Inr current"
    and "check_stored eq key (unique_items key typed) current = Inr ()"
    and "set (dict_keys current) = set (existing_ids key table typed)"
proof (cases "existing_ids key table typed = []")
  case True
  then show thesis using that [of "[]"] check_stored_ok [of "unique_items key typed" "[]" key eq, OF _ assms(4)]
    by (simp add: dict_keys_def)
next
  case False
  let ?existing = "existing_ids key table typed"
  note existing = existing_items [OF assms(1-3)]
  have "inj_on key (set typed)" using assms(1) by (rule inj_on_subset) blast
  note unique = unique_items_spec [OF this]
  have "set (sort ?existing) \<subseteq> key ` set ms" using existing(2) by simp
  from finds [OF this existing(3)] obtain found where found: "lookup (sort ?existing) = Inr found"
    "dict_keys found = sort (remdups (sort ?existing))"
    "\<forall>m \<in> set ms. key m \<in> set (sort ?existing) \<longrightarrow> dict_get found (key m) = Some m" by blast
  have "stored = m" if m: "m \<in> set (unique_items key typed)" and stored: "dict_get found (key m) = Some stored" for m stored
  proof -
    have "key m \<in> set (dict_keys found)" using stored by (simp add: keys_dict_get)
    then have key: "key m \<in> set ?existing" by (simp add: found(2))
    then have "m \<in> set ms" using existing(1) m unique(1) by blast
    with key show "stored = m" using found(3) stored by simp
  qed
  then have "check_stored eq key (unique_items key typed) found = Inr ()"
    by (intro check_stored_ok assms(4))
  with False found(1,2) show thesis by (intro that [of found]) simp_all
qed

text \<open>The new items of a batch, and the archive's identities after it.\<close>

definition new_items :: "'r list \<Rightarrow> ('r \<Rightarrow> uuid) \<Rightarrow> 'r list \<Rightarrow> 'r list" where
  "new_items ms key typed = filter (\<lambda>m. m \<notin> set ms) (unique_items key typed)"

definition old_items :: "'r list \<Rightarrow> ('r \<Rightarrow> uuid) \<Rightarrow> 'r list \<Rightarrow> 'r list" where
  "old_items ms key typed = filter (\<lambda>m. m \<in> set ms) (unique_items key typed)"

lemma partition_items:
  assumes "inj_on key (set ms \<union> set typed)" and "distinct (map key ms)"
    and "\<And>m. m \<in> set typed \<Longrightarrow> key m \<in> set existing \<longleftrightarrow> m \<in> set ms"
  shows "filter (\<lambda>m. key m \<notin> set existing) (unique_items key typed) = new_items ms key typed"
    and "filter (\<lambda>m. key m \<in> set existing) (unique_items key typed) = old_items ms key typed"
    and "set (new_items ms key typed) = set typed - set ms"
    and "distinct (map key (ms @ new_items ms key typed))"
proof -
  have "inj_on key (set typed)" using assms(1) by (rule inj_on_subset) blast
  note unique = unique_items_spec [OF this]
  show "filter (\<lambda>m. key m \<notin> set existing) (unique_items key typed) = new_items ms key typed"
    "filter (\<lambda>m. key m \<in> set existing) (unique_items key typed) = old_items ms key typed"
    unfolding new_items_def old_items_def by (auto intro!: filter_cong simp: assms(3) unique(1))
  show new: "set (new_items ms key typed) = set typed - set ms" by (auto simp: new_items_def unique(1))
  have "key ` set ms \<inter> key ` (set typed - set ms) = {}"
    using assms(1) by (auto simp: inj_on_def)
  then show "distinct (map key (ms @ new_items ms key typed))"
    using assms(2) unique(2) new by (simp add: new_items_def distinct_map_filter)
qed

lemma save_archive_metrics_holds:
  assumes holds: "archive_holds env archive ms ds" and size: "length typed \<le> ARCHIVE_BATCH"
    and each: "\<forall>m \<in> set typed. archivable_metric env m" and consistent: "consistent m_result_id ms typed"
  obtains archive' where "save_archive_metrics env archive typed =
      Inr ((map m_result_id (new_items ms m_result_id typed), map m_result_id (old_items ms m_result_id typed)), archive')"
    and "archive_holds env archive' (ms @ new_items ms m_result_id typed) ds"
proof (cases "typed = []")
  case True
  then show thesis using holds that [of archive]
    by (simp add: save_archive_metrics_def new_items_def old_items_def unique_items_def dict_by_def dict_values_def)
next
  case False
  let ?key = m_result_id and ?H = "sequence_hash (ae_sha env)"
  let ?new = "new_items ms ?key typed"
  from holds obtain seqs segs where inj: "inj (ae_sha env)" and distinct: "distinct (map ?key ms)" "distinct (map d_diagnostic_id ds)"
    and parts: "archive_parts env archive ms ds seqs segs" by (auto simp: archive_holds_def)
  have table: "ar_metrics archive = map (\<lambda>m. (?key m, stored_metric env m)) ms" using parts by (simp add: archive_parts_def)
  have keys: "map fst (ar_metrics archive) = map ?key ms" by (simp add: table comp_def)
  have inj_all: "inj_on ?key (set ms \<union> set typed)" using consistent by (simp add: consistent_def)
  have checks: "check_checksums ?key (ae_metric_checksum env) (validate_metric_identity env) typed [] = Inr ()"
    by (rule check_checksums_ok) (use each inj_all in \<open>auto simp: archivable_metric_def inj_on_def\<close>)
  obtain current where current: "(if existing_ids ?key (ar_metrics archive) typed = [] then Inr []
      else get_metrics env archive (sort (existing_ids ?key (ar_metrics archive) typed))) = Inr current"
    "check_stored metric_eq ?key (unique_items ?key typed) current = Inr ()"
    by (rule current_items [OF inj_all keys size, of metric_eq "get_metrics env archive"])
       (use get_metrics_finds [OF holds] in auto)
  note items = partition_items [OF inj_all distinct(1) existing_items(1) [OF inj_all keys size]]
  let ?requests = "concat (map (\<lambda>m. [observation_link m, metric_link m]) ?new)"
  have requests: "set ?requests = (\<Union>m \<in> set ?new. metric_links m)" by (auto simp: metric_links_def)
  have "\<forall>l \<in> set ?requests. short_link l" unfolding requests using short_links(1) by blast
  from intern_links [OF inj parts this] obtain tables' seqs' segs' where
    interned: "save_sequences_batch (ae_sha env) (ar_sequences archive) ?requests = Inr (map ?H ?requests, tables')"
    and stores': "stores (ae_sha env) tables' seqs' segs'" "\<forall>l \<in> set seqs' \<union> set segs'. short_link l"
    and links': "set seqs' = set seqs \<union> set ?requests" "set segs' \<subseteq> (\<Union>l \<in> set seqs'. set (segments_of l))" .
  let ?rows = "map (\<lambda>m. (?key m, stored_metric env m)) ?new"
  have rows: "map (\<lambda>(index, m). (?key m, metric_row_of env m (map ?H ?requests ! (index * 2)) (map ?H ?requests ! (index * 2 + 1))))
      (enumerate 0 ?new) = ?rows"
    using paired_nth [of "\<lambda>m a b. (?key m, metric_row_of env m a b)" "\<lambda>m. ?H (observation_link m)" "\<lambda>m. ?H (metric_link m)" "[]" ?new]
    by (simp add: map_concat comp_def stored_metric_def)
  have inserted: "executemany_bounded (ar_metrics archive) ?rows = Inr (map (\<lambda>m. (?key m, stored_metric env m)) (ms @ ?new))"
    using items(4) unfolding table by (subst executemany_fresh) (auto simp: comp_def)
  let ?archive = "archive\<lparr>ar_metrics := map (\<lambda>m. (?key m, stored_metric env m)) (ms @ ?new), ar_sequences := tables'\<rparr>"
  have save: "save_archive_metrics env archive typed = Inr ((map ?key ?new, map ?key (old_items ms ?key typed)), ?archive)"
    using False size unfolding save_archive_metrics_def Let_def
    by (simp only: if_False not_less [symmetric] checks bind_r_simps existing_ids_def [symmetric] current items(1,2) interned
        split_conv rows inserted)
  have "\<forall>m \<in> set ?new. archivable_metric env m" using each items(3) by auto
  moreover have "set seqs' = (\<Union>m \<in> set (ms @ ?new). metric_links m) \<union> (\<Union>d \<in> set ds. diagnostic_links d)"
    using parts unfolding links'(1) requests archive_parts_def by auto
  ultimately have "archive_parts env ?archive (ms @ ?new) ds seqs' segs'"
    using parts stores' links'(2) unfolding archive_parts_def by auto
  then have "archive_holds env ?archive (ms @ ?new) ds"
    using inj distinct(2) items(4) unfolding archive_holds_def by blast
  with save show thesis by (rule that)
qed

lemma dealt:
  "deal (concat (map (\<lambda>d. map f (d_components d)) ds)) ds = map (\<lambda>d. (d, map f (d_components d))) ds"
  by (induction ds) simp_all

lemma zip_rows: "map (\<lambda>(c, i). component_row_of c i) (zip cs (map (\<lambda>c. sequence_hash (ae_sha env) (component_link c)) cs)) =
    map (stored_component env) cs"
  by (induction cs) (simp_all add: stored_component_def)

lemma save_archive_diagnostics_holds:
  assumes holds: "archive_holds env archive ms ds" and size: "length typed \<le> ARCHIVE_BATCH"
    and each: "\<forall>d \<in> set typed. archivable_diagnostic d" and consistent: "consistent d_diagnostic_id ds typed"
  obtains archive' where "save_archive_diagnostics env archive typed =
      Inr ((map d_diagnostic_id (new_items ds d_diagnostic_id typed), map d_diagnostic_id (old_items ds d_diagnostic_id typed)), archive')"
    and "archive_holds env archive' ms (ds @ new_items ds d_diagnostic_id typed)"
proof (cases "typed = []")
  case True
  then show thesis using holds that [of archive]
    by (simp add: save_archive_diagnostics_def new_items_def old_items_def unique_items_def dict_by_def dict_values_def)
next
  case False
  let ?key = d_diagnostic_id and ?H = "sequence_hash (ae_sha env)"
  let ?new = "new_items ds ?key typed"
  from holds obtain seqs segs where inj: "inj (ae_sha env)" and distinct: "distinct (map m_result_id ms)" "distinct (map ?key ds)"
    and parts: "archive_parts env archive ms ds seqs segs" by (auto simp: archive_holds_def)
  have tables: "ar_diagnostics archive = map (\<lambda>d. (?key d, diagnostic_row_of env d)) ds"
    "ar_components archive = concat (map (\<lambda>d. block (?key d) (map (stored_component env) (d_components d))) ds)"
    "ar_evidence archive = concat (map (\<lambda>d. block (?key d) (d_evidence d)) ds)"
    using parts by (simp_all add: archive_parts_def)
  have keys: "map fst (ar_diagnostics archive) = map ?key ds" by (simp add: tables comp_def)
  have inj_all: "inj_on ?key (set ds \<union> set typed)" using consistent by (simp add: consistent_def)
  have checks: "check_checksums ?key (ae_diagnostic_checksum env) (\<lambda>_. Inr ()) typed [] = Inr ()"
    by (rule check_checksums_ok) (use inj_all in \<open>auto simp: inj_on_def\<close>)
  obtain current where current: "(if existing_ids ?key (ar_diagnostics archive) typed = [] then Inr []
      else get_diagnostics env archive (sort (existing_ids ?key (ar_diagnostics archive) typed))) = Inr current"
    "check_stored diagnostic_eq ?key (unique_items ?key typed) current = Inr ()"
    "set (dict_keys current) = set (existing_ids ?key (ar_diagnostics archive) typed)"
    by (rule current_items [OF inj_all keys size, of diagnostic_eq "get_diagnostics env archive"])
       (use get_diagnostics_finds [OF holds] in auto)
  have "?key m \<in> set (dict_keys current) \<longleftrightarrow> m \<in> set ds" if "m \<in> set typed" for m
    unfolding current(3) using existing_items(1) [OF inj_all keys size] that by blast
  note items = partition_items [OF inj_all distinct(2) this]
  let ?requests = "concat (map (\<lambda>d. map component_link (d_components d)) ?new)"
  have requests: "set ?requests = (\<Union>d \<in> set ?new. diagnostic_links d)" by (auto simp: diagnostic_links_def)
  have "\<forall>l \<in> set ?requests. short_link l" unfolding requests using short_links(2) by blast
  from intern_links [OF inj parts this] obtain tables' seqs' segs' where
    interned: "save_sequences_batch (ae_sha env) (ar_sequences archive) ?requests = Inr (map ?H ?requests, tables')"
    and stores': "stores (ae_sha env) tables' seqs' segs'" "\<forall>l \<in> set seqs' \<union> set segs'. short_link l"
    and links': "set seqs' = set seqs \<union> set ?requests" "set segs' \<subseteq> (\<Union>l \<in> set seqs'. set (segments_of l))" .
  let ?rows = "map (\<lambda>d. (?key d, diagnostic_row_of env d))"
    and ?components = "\<lambda>ds. concat (map (\<lambda>d. block (?key d) (map (stored_component env) (d_components d))) ds)"
    and ?evidence = "\<lambda>ds. concat (map (\<lambda>d. block (?key d) (d_evidence d)) ds)"
  have components: "concat (map (\<lambda>(d, ids). block (?key d) (map (\<lambda>(c, i). component_row_of c i) (zip (d_components d) ids)))
      (deal (map ?H ?requests) ?new)) = ?components ?new"
    using dealt [of "\<lambda>c. ?H (component_link c)" ?new] by (simp add: map_concat comp_def zip_rows)
  have inserted: "executemany_bounded (ar_diagnostics archive) (?rows ?new) = Inr (?rows (ds @ ?new))"
    using items(4) unfolding tables by (subst executemany_fresh) (auto simp: comp_def)
  have inserted_children: "executemany_bounded (ar_components archive) (?components ?new) = Inr (?components (ds @ ?new))"
    "executemany_bounded (ar_evidence archive) (?evidence ?new) = Inr (?evidence (ds @ ?new))"
    using blocks_insert [OF items(4), of "\<lambda>d. map (stored_component env) (d_components d)"]
      blocks_insert [OF items(4), of d_evidence] unfolding tables by (simp_all only:)
  let ?archive = "\<lparr>ar_metrics = ar_metrics archive, ar_diagnostics = ?rows (ds @ ?new), ar_components = ?components (ds @ ?new),
      ar_evidence = ?evidence (ds @ ?new), ar_sequences = tables'\<rparr>"
  have save: "save_archive_diagnostics env archive typed = Inr ((map ?key ?new, map ?key (old_items ds ?key typed)), ?archive)"
    using False size unfolding save_archive_diagnostics_def Let_def
    by (simp only: if_False not_less [symmetric] checks bind_r_simps existing_ids_def [symmetric] current(1,2) items(1,2) interned
        split_conv components inserted inserted_children)
  have "\<forall>d \<in> set ?new. archivable_diagnostic d" using each items(3) by auto
  moreover have "set seqs' = (\<Union>m \<in> set ms. metric_links m) \<union> (\<Union>d \<in> set (ds @ ?new). diagnostic_links d)"
    using parts unfolding links'(1) requests archive_parts_def by auto
  ultimately have "archive_parts env ?archive ms (ds @ ?new) seqs' segs'"
    using parts stores' links'(2) unfolding archive_parts_def by auto
  then have "archive_holds env ?archive ms (ds @ ?new)"
    using inj distinct(1) items(4) unfolding archive_holds_def by blast
  with save show thesis by (rule that)
qed

section \<open>The archive as a paged source\<close>

lemma insort_key_map: "insort_key f (g x) (map g xs) = map g (insort_key (\<lambda>x. f (g x)) x xs)"
  by (induction xs) simp_all

lemma sort_key_map: "sort_key f (map g xs) = map g (sort_key (\<lambda>x. f (g x)) xs)"
  by (induction xs) (simp_all add: insort_key_map)

lemma select_page_next:
  assumes "distinct (map key ms)" and "sort_key (by_availability avail key) ms = seen @ rest"
    and "\<And>m. av (row m) = avail m"
  shows "select_page_ids av (map (\<lambda>m. (key m, row m)) ms) limit (cursor_after avail key seen) (\<lambda>_. True) None =
    map key (take (nat limit) rest)"
proof -
  let ?row = "\<lambda>m. (key m, row m)" and ?by = "by_availability (av \<circ> snd) fst"
  have by_row: "?by (?row m) = by_availability avail key m" for m
    by (simp add: by_availability_def assms(3))
  have sorted: "sort_key ?by (map ?row ms) = map ?row seen @ map ?row rest"
    using assms(2) by (simp add: sort_key_map by_row)
  have cursor: "cursor_after (av \<circ> snd) fst (map ?row seen) = cursor_after avail key seen"
    by (cases seen rule: rev_cases) (simp_all add: cursor_after_def by_row)
  have "set (seen @ rest) = set ms" using assms(2) by (metis set_sort)
  have "distinct (map key (seen @ rest))" using assms(1) unfolding assms(2) [symmetric] by simp
  then have "distinct (map fst (map ?row seen @ map ?row rest))" by (simp add: comp_def)
  from sorted_pages [OF this sorted, unfolded cursor] show ?thesis
    by (simp add: select_page_ids_def holds_for_def take_map comp_def)
qed

lemma archive_limit_ok: "1 \<le> limit \<Longrightarrow> limit \<le> ANALYTICAL_IMPORT_PAGE_LIMIT \<Longrightarrow> validate_archive_limit limit = Inr ()"
  by (simp add: validate_archive_limit_def ARCHIVE_BATCH_def ANALYTICAL_IMPORT_PAGE_LIMIT_def)

text \<open>The state of an archive together with the results it holds.\<close>

type_synonym held_archive = "archive \<times> metric_result list \<times> diagnostic_result list"

definition held :: "archive_env \<Rightarrow> held_archive \<Rightarrow> bool" where
  "held env = (\<lambda>(archive, ms, ds). archive_holds env archive ms ds)"

definition held_metrics :: "held_archive \<Rightarrow> metric_result list" where
  "held_metrics = (\<lambda>(archive, ms, ds). sort_key (by_availability m_available_at m_result_id) ms)"

definition held_diagnostics :: "held_archive \<Rightarrow> diagnostic_result list" where
  "held_diagnostics = (\<lambda>(archive, ms, ds). sort_key (by_availability d_available_at d_diagnostic_id) ds)"

interpretation archived_metrics: paged_source "held env" held_metrics "\<lambda>s. list_archive_metric_ids (fst s)"
  "\<lambda>s. get_metrics env (fst s)" m_result_id m_available_at for env
proof
  fix s :: held_archive and seen rest :: "metric_result list" and limit :: int
  obtain archive ms ds where s: "s = (archive, ms, ds)" by (cases s)
  assume "held env s"
  then have holds: "archive_holds env archive ms ds" by (simp add: s held_def)
  then have distinct: "distinct (map m_result_id ms)"
    and table: "ar_metrics archive = map (\<lambda>m. (m_result_id m, stored_metric env m)) ms"
    by (auto simp: archive_holds_def archive_parts_def)
  show "distinct (map m_result_id (held_metrics s))" using distinct by (simp add: s held_metrics_def)
  show "list_archive_metric_ids (fst s) limit (cursor_after m_available_at m_result_id seen) = Inr (map m_result_id (take (nat limit) rest))"
    if "held_metrics s = seen @ rest" "1 \<le> limit" "limit \<le> ANALYTICAL_IMPORT_PAGE_LIMIT"
    using that select_page_next [OF distinct, of m_available_at seen rest mw_available_at "stored_metric env" limit]
    by (simp add: s held_metrics_def list_archive_metric_ids_def archive_limit_ok table stored_metric_def metric_row_of_def)
  show "\<exists>found. get_metrics env (fst s) (map m_result_id batch) = Inr found \<and> length found = length batch \<and>
      (\<forall>m \<in> set batch. dict_get found (m_result_id m) = Some m)"
    if "set batch \<subseteq> set (held_metrics s)" "distinct (map m_result_id batch)" "length batch \<le> 256" for batch
  proof -
    have sub: "set batch \<subseteq> set ms" using that(1) by (simp add: s held_metrics_def)
    then have ids: "set (map m_result_id batch) \<subseteq> m_result_id ` set ms" by auto
    have "length (remdups (map m_result_id batch)) \<le> ARCHIVE_BATCH"
      using that(2,3) by (simp add: distinct_remdups_id ARCHIVE_BATCH_def)
    from get_metrics_finds [OF holds ids this] obtain found where found: "get_metrics env archive (map m_result_id batch) = Inr found"
      "dict_keys found = sort (remdups (map m_result_id batch))"
      "\<forall>m \<in> set ms. m_result_id m \<in> set (map m_result_id batch) \<longrightarrow> dict_get found (m_result_id m) = Some m" by blast
    have "length found = length (dict_keys found)" by (simp add: dict_keys_def)
    also have "\<dots> = length batch" using that(2) unfolding found(2) by (simp add: distinct_remdups_id)
    finally show ?thesis using found(1,3) sub by (auto simp: s)
  qed
qed

interpretation archived_diagnostics: paged_source "held env" held_diagnostics "\<lambda>s. list_archive_diagnostic_ids (fst s)"
  "\<lambda>s. get_diagnostics env (fst s)" d_diagnostic_id d_available_at for env
proof
  fix s :: held_archive and seen rest :: "diagnostic_result list" and limit :: int
  obtain archive ms ds where s: "s = (archive, ms, ds)" by (cases s)
  assume "held env s"
  then have holds: "archive_holds env archive ms ds" by (simp add: s held_def)
  then have distinct: "distinct (map d_diagnostic_id ds)"
    and table: "ar_diagnostics archive = map (\<lambda>d. (d_diagnostic_id d, diagnostic_row_of env d)) ds"
    by (auto simp: archive_holds_def archive_parts_def)
  show "distinct (map d_diagnostic_id (held_diagnostics s))" using distinct by (simp add: s held_diagnostics_def)
  show "list_archive_diagnostic_ids (fst s) limit (cursor_after d_available_at d_diagnostic_id seen) =
      Inr (map d_diagnostic_id (take (nat limit) rest))"
    if "held_diagnostics s = seen @ rest" "1 \<le> limit" "limit \<le> ANALYTICAL_IMPORT_PAGE_LIMIT"
    using that select_page_next [OF distinct, of d_available_at seen rest gw_available_at "diagnostic_row_of env" limit]
    by (simp add: s held_diagnostics_def list_archive_diagnostic_ids_def archive_limit_ok table diagnostic_row_of_def)
  show "\<exists>found. get_diagnostics env (fst s) (map d_diagnostic_id batch) = Inr found \<and> length found = length batch \<and>
      (\<forall>m \<in> set batch. dict_get found (d_diagnostic_id m) = Some m)"
    if "set batch \<subseteq> set (held_diagnostics s)" "distinct (map d_diagnostic_id batch)" "length batch \<le> 256" for batch
  proof -
    have sub: "set batch \<subseteq> set ds" using that(1) by (simp add: s held_diagnostics_def)
    then have ids: "set (map d_diagnostic_id batch) \<subseteq> d_diagnostic_id ` set ds" by auto
    have "length (remdups (map d_diagnostic_id batch)) \<le> ARCHIVE_BATCH"
      using that(2,3) by (simp add: distinct_remdups_id ARCHIVE_BATCH_def)
    from get_diagnostics_finds [OF holds ids this] obtain found where found: "get_diagnostics env archive (map d_diagnostic_id batch) = Inr found"
      "dict_keys found = sort (remdups (map d_diagnostic_id batch))"
      "\<forall>m \<in> set ds. d_diagnostic_id m \<in> set (map d_diagnostic_id batch) \<longrightarrow> dict_get found (d_diagnostic_id m) = Some m" by blast
    have "length found = length (dict_keys found)" by (simp add: dict_keys_def)
    also have "\<dots> = length batch" using that(2) unfolding found(2) by (simp add: distinct_remdups_id)
    finally show ?thesis using found(1,3) sub by (auto simp: s)
  qed
qed

end
