(* ===== verification/ArchiveRoundtrip.thy ===== *)
theory ArchiveRoundtrip
  imports HistoricalArchiveProperties
begin

text \<open>
  What the archive promises: results saved in it are read back unchanged, whatever else it holds,
  and its hashes keep different sequences apart.
\<close>

lemma reads_back:
  assumes "archive_holds env archive ms ds" and "m \<in> set ms"
  shows "\<exists>found. get_metrics env archive [m_result_id m] = Inr found \<and> dict_get found (m_result_id m) = Some m"
  using get_metrics_finds [OF assms(1), of "[m_result_id m]"] assms(2) by (auto simp: ARCHIVE_BATCH_def)

lemma reads_back_diagnostic:
  assumes "archive_holds env archive ms ds" and "d \<in> set ds"
  shows "\<exists>found. get_diagnostics env archive [d_diagnostic_id d] = Inr found \<and> dict_get found (d_diagnostic_id d) = Some d"
  using get_diagnostics_finds [OF assms(1), of "[d_diagnostic_id d]"] assms(2) by (auto simp: ARCHIVE_BATCH_def)

text \<open>
  Property C14. Saving a batch of metrics and then a batch of diagnostics in an archive succeeds
  when no identity would get two contents. The receipts list exactly the identities that were not
  held and those that were; afterwards every metric and every diagnostic, old or new, is read back
  unchanged, with its input identities, components and evidence in order, and the archive still
  satisfies its invariant.
\<close>
theorem archive_gives_back:
  assumes "archive_holds env archive ms ds"
    and "length metrics \<le> ARCHIVE_BATCH" and "\<forall>m \<in> set metrics. archivable_metric env m" and "consistent m_result_id ms metrics"
    and "length diagnostics \<le> ARCHIVE_BATCH" and "\<forall>d \<in> set diagnostics. archivable_diagnostic d"
    and "consistent d_diagnostic_id ds diagnostics"
  shows "\<exists>archive1 archive2 ms' ds' created reused created_d reused_d.
    save_archive_metrics env archive metrics = Inr ((created, reused), archive1) \<and>
    save_archive_diagnostics env archive1 diagnostics = Inr ((created_d, reused_d), archive2) \<and>
    archive_holds env archive2 ms' ds' \<and> set ms' = set ms \<union> set metrics \<and> set ds' = set ds \<union> set diagnostics \<and>
    set created = m_result_id ` (set metrics - set ms) \<and> set reused = m_result_id ` (set metrics \<inter> set ms) \<and>
    set created_d = d_diagnostic_id ` (set diagnostics - set ds) \<and> set reused_d = d_diagnostic_id ` (set diagnostics \<inter> set ds) \<and>
    (\<forall>m \<in> set ms \<union> set metrics. \<exists>found. get_metrics env archive2 [m_result_id m] = Inr found \<and>
       dict_get found (m_result_id m) = Some m) \<and>
    (\<forall>d \<in> set ds \<union> set diagnostics. \<exists>found. get_diagnostics env archive2 [d_diagnostic_id d] = Inr found \<and>
       dict_get found (d_diagnostic_id d) = Some d)"
proof -
  obtain archive1 where metrics: "save_archive_metrics env archive metrics =
      Inr ((map m_result_id (new_items ms m_result_id metrics), map m_result_id (old_items ms m_result_id metrics)), archive1)"
    and holds1: "archive_holds env archive1 (ms @ new_items ms m_result_id metrics) ds"
    by (rule save_archive_metrics_holds [OF assms(1-4)])
  obtain archive2 where diagnostics: "save_archive_diagnostics env archive1 diagnostics =
      Inr ((map d_diagnostic_id (new_items ds d_diagnostic_id diagnostics), map d_diagnostic_id (old_items ds d_diagnostic_id diagnostics)), archive2)"
    and holds2: "archive_holds env archive2 (ms @ new_items ms m_result_id metrics) (ds @ new_items ds d_diagnostic_id diagnostics)"
    by (rule save_archive_diagnostics_holds [OF holds1 assms(5-7)])
  have "inj_on m_result_id (set metrics)" "inj_on d_diagnostic_id (set diagnostics)"
    using assms(4,7) unfolding consistent_def by (auto intro: inj_on_subset)
  then have items: "set (new_items ms m_result_id metrics) = set metrics - set ms" "set (old_items ms m_result_id metrics) = set metrics \<inter> set ms"
    "set (new_items ds d_diagnostic_id diagnostics) = set diagnostics - set ds" "set (old_items ds d_diagnostic_id diagnostics) = set diagnostics \<inter> set ds"
    by (auto simp: new_items_def old_items_def unique_items_spec(1))
  then have all: "set (ms @ new_items ms m_result_id metrics) = set ms \<union> set metrics"
    "set (ds @ new_items ds d_diagnostic_id diagnostics) = set ds \<union> set diagnostics" by auto
  have read: "\<forall>m \<in> set ms \<union> set metrics. \<exists>found. get_metrics env archive2 [m_result_id m] = Inr found \<and>
      dict_get found (m_result_id m) = Some m"
    using reads_back [OF holds2] unfolding all by blast
  have read_d: "\<forall>d \<in> set ds \<union> set diagnostics. \<exists>found. get_diagnostics env archive2 [d_diagnostic_id d] = Inr found \<and>
      dict_get found (d_diagnostic_id d) = Some d"
    using reads_back_diagnostic [OF holds2] unfolding all by blast
  show ?thesis
    by (intro exI conjI) (rule metrics, rule diagnostics, rule holds2, rule all, rule all, simp_all only: set_map items, rule read, rule read_d)
qed

definition sample_env :: archive_env where
  "sample_env = \<lparr>ae_sha = (\<lambda>s. s), ae_metric_checksum = m_metric_key, ae_diagnostic_checksum = d_asset_id,
     ae_metric_identity = (\<lambda>m. Some (m_result_id m))\<rparr>"

definition sample_diagnostic :: diagnostic_result where
  "sample_diagnostic = \<lparr>d_diagnostic_id = 9, d_asset_id = ''equity:us:aapl'', d_mode = MARKET_MODE, d_verdict = POSITIVE,
     d_final_score = Decimal False 60 0, d_confidence = Decimal False 9 (- 1), d_as_of = 100, d_available_at = 110,
     d_computed_at = 120,
     d_components = [\<lparr>dc_component_key = ''momentum'', dc_score = Decimal False 60 0, dc_weight = Decimal False 1 0,
        dc_weighted_contribution = Decimal False 60 0, dc_metric_result_ids = [5, 7], dc_explanation = ''rsi''\<rparr>],
     d_evidence = [\<lparr>de_metric_result_id = 5, de_direction = SUPPORTS, de_contribution = Decimal False 60 0,
        de_reason = ''rsi''\<rparr>],
     d_algorithm_version = ''1'', d_summary = ''s'', d_quality = VALID\<rparr>"

lemma sample_diagnostic_archivable: "archivable_diagnostic sample_diagnostic"
  by code_simp

definition roundtrip_metric :: metric_result where
  "roundtrip_metric = witness_v2_metric\<lparr>m_result_id := 5\<rparr>"

lemma sample_metric_archivable: "archivable_metric sample_env roundtrip_metric"
  by (simp add: archivable_metric_def sample_env_def roundtrip_metric_def sorted_parameters_def witness_v2_metric_def
      validate_result_traceability_def validate_metric_identity_def uuid_version_def)

theorem archive_gives_back_witness:
  "\<exists>archive1 archive2 receipt receipt_d found found_d.
     save_archive_metrics sample_env empty_archive [roundtrip_metric] = Inr (receipt, archive1) \<and>
     save_archive_diagnostics sample_env archive1 [sample_diagnostic] = Inr (receipt_d, archive2) \<and>
     get_metrics sample_env archive2 [5] = Inr found \<and> dict_get found 5 = Some roundtrip_metric \<and>
     get_diagnostics sample_env archive2 [9] = Inr found_d \<and> dict_get found_d 9 = Some sample_diagnostic"
proof -
  have "inj (ae_sha sample_env)" by (simp add: sample_env_def)
  note holds = archive_holds_empty [OF this]
  have each: "\<forall>m \<in> set [roundtrip_metric]. archivable_metric sample_env m" "\<forall>d \<in> set [sample_diagnostic]. archivable_diagnostic d"
    using sample_metric_archivable sample_diagnostic_archivable by simp_all
  have one: "length [roundtrip_metric] \<le> ARCHIVE_BATCH" "length [sample_diagnostic] \<le> ARCHIVE_BATCH"
    "consistent m_result_id [] [roundtrip_metric]" "consistent d_diagnostic_id [] [sample_diagnostic]"
    by (simp_all add: ARCHIVE_BATCH_def consistent_def)
  have "m_result_id roundtrip_metric = 5" "d_diagnostic_id sample_diagnostic = 9"
    by (simp_all add: roundtrip_metric_def sample_diagnostic_def)
  with archive_gives_back [OF holds one(1) each(1) one(3) one(2) each(2) one(4)] show ?thesis
    by fastforce
qed

end
