(* ===== verification/ArchiveValidationProperties.thy ===== *)
theory ArchiveValidationProperties
  imports ArchiveValidation ArchiveRoundtrip
begin

text \<open>
  The validation of an archive decides what it is meant to: over the results an archive holds,
  its joins compute the references of these results, so that it returns exactly when every
  reference points to a row of the same asset that was available in time and the metrics do not
  depend on each other in a cycle.
\<close>

section \<open>What the joins compute\<close>

lemma in_concat_map: "y \<in> set (concat (map f xs)) \<longleftrightarrow> (\<exists>x \<in> set xs. y \<in> set (f x))"
  by auto

lemma in_blocks:
  "((k, p), v) \<in> set (concat (map (\<lambda>x. block (h x) (vs x)) xs)) \<longleftrightarrow>
     (\<exists>x \<in> set xs. k = h x \<and> p < length (vs x) \<and> v = vs x ! p)"
  unfolding in_concat_map in_block by blast

lemma hash_unique: "distinct (map h xs) \<Longrightarrow> x \<in> set xs \<Longrightarrow> y \<in> set xs \<Longrightarrow> h x = h y \<Longrightarrow> x = y"
  by (simp add: distinct_map inj_on_def)

lemma segment_of_reference:
  assumes "stores sha tables seqs segs" and "l \<in> set seqs"
    and "((sequence_hash sha l, p), gid) \<in> set (st_references tables)" and "s \<in> set segs" and "gid = segment_hash sha s"
  shows "s \<in> set (segments_of l)"
proof -
  from assms(1) have tables: "st_references tables = concat (map (\<lambda>l. block (sequence_hash sha l) (map (segment_hash sha) (segments_of l))) seqs)"
    and distinct: "distinct (map (sequence_hash sha) seqs)" "distinct (map (segment_hash sha) segs)"
    and segs: "\<And>l. l \<in> set seqs \<Longrightarrow> set (segments_of l) \<subseteq> set segs"
    by (simp_all add: stores_def reference_rows_def)
  from assms(3) obtain l' where l': "l' \<in> set seqs" "sequence_hash sha l = sequence_hash sha l'"
    "p < length (segments_of l')" "gid = segment_hash sha (segments_of l' ! p)"
    unfolding tables in_blocks by auto
  have "l' = l" using hash_unique [OF distinct(1) l'(1) assms(2)] l'(2) by simp
  then have "segments_of l ! p \<in> set (segments_of l)" using l'(3) by simp
  moreover from this have "segments_of l ! p \<in> set segs" using segs [OF assms(2)] by blast
  then have "s = segments_of l ! p"
    by (rule hash_unique [OF distinct(2) assms(4)]) (use assms(5) l'(4) \<open>l' = l\<close> in simp)
  ultimately show ?thesis by simp
qed

text \<open>
  The members of a stored sequence, reached through its references and segments; \<open>p\<close> and \<open>q\<close> are
  the positions of the two tables.
\<close>

lemma joined_members:
  assumes "stores sha tables seqs segs" and "l \<in> set seqs"
  shows "(\<exists>p q gid. ((sequence_hash sha l, p), gid) \<in> set (st_references tables) \<and> ((gid, q), i) \<in> set (st_members tables)) \<longleftrightarrow>
    i \<in> set (snd l)" (is "?joined \<longleftrightarrow> _")
proof -
  have tables: "st_references tables = concat (map (\<lambda>l. block (sequence_hash sha l) (map (segment_hash sha) (segments_of l))) seqs)"
    "st_members tables = concat (map (\<lambda>l. block (segment_hash sha l) (snd l)) segs)"
    and segs: "set (segments_of l) \<subseteq> set segs"
    using assms by (simp_all add: stores_def reference_rows_def member_rows_def)
  have "?joined \<longleftrightarrow> (\<exists>s \<in> set (segments_of l). i \<in> set (snd s))"
  proof
    assume ?joined
    then obtain p q gid where join: "((sequence_hash sha l, p), gid) \<in> set (st_references tables)" "((gid, q), i) \<in> set (st_members tables)"
      by blast
    from join(2) obtain s where s: "s \<in> set segs" "gid = segment_hash sha s" "q < length (snd s)" "i = snd s ! q"
      unfolding tables in_blocks by auto
    from s(3,4) have "i \<in> set (snd s)" by simp
    with segment_of_reference [OF assms join(1) s(1,2)] show "\<exists>s \<in> set (segments_of l). i \<in> set (snd s)" by blast
  next
    assume "\<exists>s \<in> set (segments_of l). i \<in> set (snd s)"
    then obtain s where s: "s \<in> set (segments_of l)" "i \<in> set (snd s)" by blast
    from s(1) obtain p where p: "p < length (segments_of l)" "s = segments_of l ! p" by (metis in_set_conv_nth)
    from s(2) obtain q where q: "q < length (snd s)" "i = snd s ! q" by (metis in_set_conv_nth)
    have "((sequence_hash sha l, p), segment_hash sha s) \<in> set (st_references tables)"
      unfolding tables in_blocks using assms(2) p by auto
    moreover have "((segment_hash sha s, q), i) \<in> set (st_members tables)"
      unfolding tables in_blocks using s(1) segs q by auto
    ultimately show ?joined by blast
  qed
  also have "\<dots> \<longleftrightarrow> i \<in> set (concat (map snd (segments_of l)))" by auto
  finally show ?thesis by (simp only: concat_segments)
qed

lemma in_linked_rows:
  "(a, b, i) \<in> set (linked_rows tables sequence_id) \<longleftrightarrow>
     (\<exists>smeta gmeta p q gid. (sequence_id, smeta) \<in> set (st_sequences tables) \<and> a = mr_link_type smeta \<and>
        ((sequence_id, p), gid) \<in> set (st_references tables) \<and> (gid, gmeta) \<in> set (st_segments tables) \<and>
        b = mr_link_type gmeta \<and> ((gid, q), i) \<in> set (st_members tables))"
  unfolding linked_rows_def in_concat_map by (fastforce split: if_splits)

lemma set_linked_rows:
  assumes "stores sha tables seqs segs" and "l \<in> set seqs"
  shows "set (linked_rows tables (sequence_hash sha l)) = (\<lambda>i. (fst l, fst l, i)) ` set (snd l)"
proof -
  have tables: "st_sequences tables = map (\<lambda>l. (sequence_hash sha l, meta_of (sequence_hash sha) l)) seqs"
    "st_segments tables = map (\<lambda>l. (segment_hash sha l, meta_of (segment_hash sha) l)) segs"
    and distinct: "distinct (map (sequence_hash sha) seqs)"
    using assms by (simp_all add: stores_def sequence_rows_def segment_rows_def)
  have smeta: "(sequence_hash sha l, smeta) \<in> set (st_sequences tables) \<longleftrightarrow> smeta = meta_of (sequence_hash sha) l" for smeta
    using assms(2) hash_unique [OF distinct _ assms(2)] by (auto simp: tables)
  have gmeta: "mr_link_type gmeta = fst l"
    if "((sequence_hash sha l, p), gid) \<in> set (st_references tables)" "(gid, gmeta) \<in> set (st_segments tables)" for p gid gmeta
  proof -
    from that(2) obtain s where s: "s \<in> set segs" "gid = segment_hash sha s" "gmeta = meta_of (segment_hash sha) s"
      unfolding tables by auto
    from segment_of_reference [OF assms that(1) s(1,2)] segments_of_type show ?thesis by (simp add: s(3) meta_of_def)
  qed
  have present: "\<exists>gmeta. (gid, gmeta) \<in> set (st_segments tables)"
    if "((gid, q), i) \<in> set (st_members tables)" for gid q i
  proof -
    have "st_members tables = concat (map (\<lambda>l. block (segment_hash sha l) (snd l)) segs)"
      using assms(1) by (simp add: stores_def member_rows_def)
    with that have "\<exists>s \<in> set segs. gid = segment_hash sha s" unfolding in_blocks by (simp only: in_blocks) blast
    then show ?thesis by (auto simp: tables)
  qed
  have "(a, b, i) \<in> set (linked_rows tables (sequence_hash sha l)) \<longleftrightarrow>
      a = fst l \<and> b = fst l \<and> (\<exists>p q gid. ((sequence_hash sha l, p), gid) \<in> set (st_references tables) \<and> ((gid, q), i) \<in> set (st_members tables))" for a b i
    unfolding in_linked_rows smeta using gmeta present by (simp add: meta_of_def) metis
  then show ?thesis unfolding joined_members [OF assms] by auto
qed

definition depends_on :: "metric_result list \<Rightarrow> (uuid \<times> uuid) set" where
  "depends_on ms = {(p, i). \<exists>m \<in> set ms. p = m_result_id m \<and> i \<in> set (m_input_metric_result_ids m)}"

lemma set_metric_edges:
  assumes "archive_parts env archive ms ds seqs segs"
  shows "set (metric_edges archive) = depends_on ms"
proof -
  let ?H = "sequence_hash (ae_sha env)" and ?tables = "ar_sequences archive"
  have table: "ar_metrics archive = map (\<lambda>m. (m_result_id m, stored_metric env m)) ms"
    and stores: "stores (ae_sha env) ?tables seqs segs"
    using assms by (simp_all add: archive_parts_def)
  have sequences: "st_sequences ?tables = map (\<lambda>l. (?H l, meta_of ?H l)) seqs"
    using stores by (simp add: stores_def sequence_rows_def)
  have link: "metric_link m \<in> set seqs" if "m \<in> set ms" for m
    using parts_links(1) [OF assms] that by (auto simp: metric_links_def)
  have "(p, i) \<in> set (metric_edges archive) \<longleftrightarrow> (\<exists>m \<in> set ms. p = m_result_id m \<and> i \<in> set (m_input_metric_result_ids m))" for p i
  proof -
    have "(p, i) \<in> set (metric_edges archive) \<longleftrightarrow> (\<exists>m \<in> set ms. p = m_result_id m \<and>
        (\<exists>a b gid. ((?H (metric_link m), a), gid) \<in> set (st_references ?tables) \<and> ((gid, b), i) \<in> set (st_members ?tables)))"
      (is "_ \<longleftrightarrow> ?joined")
    proof
      assume "(p, i) \<in> set (metric_edges archive)"
      then show ?joined
        unfolding metric_edges_def Let_def in_concat_map table sequences
        by (fastforce simp: stored_metric_def metric_row_of_def split: if_splits)
    next
      assume ?joined
      then show "(p, i) \<in> set (metric_edges archive)"
        unfolding metric_edges_def Let_def in_concat_map table sequences
        using link by (fastforce simp: stored_metric_def metric_row_of_def)
    qed
    also have "\<dots> \<longleftrightarrow> (\<exists>m \<in> set ms. p = m_result_id m \<and> i \<in> set (m_input_metric_result_ids m))"
      using joined_members [OF stores link] by (auto simp: metric_link_def)
    finally show ?thesis .
  qed
  then show ?thesis by (auto simp: depends_on_def)
qed

section \<open>The decision\<close>

text \<open>The reference of a result with asset \<open>asset_id\<close> available at \<open>available_at\<close> to the metric \<open>i\<close>.\<close>

definition refers_to :: "metric_result list \<Rightarrow> string \<Rightarrow> utc \<Rightarrow> uuid \<Rightarrow> bool" where
  "refers_to ms asset_id available_at i \<longleftrightarrow>
     (\<exists>m \<in> set ms. m_result_id m = i \<and> m_asset_id m = asset_id \<and> m_available_at m \<le> available_at)"

definition observes :: "observation_index \<Rightarrow> string \<Rightarrow> utc \<Rightarrow> uuid \<Rightarrow> bool" where
  "observes observations asset_id available_at i \<longleftrightarrow>
     (\<exists>t. dict_get observations i = Some (asset_id, t) \<and> t \<le> available_at)"

lemma observed: "\<not> bad_target asset_id available_at (dict_get observations i) \<longleftrightarrow> observes observations asset_id available_at i"
  by (auto simp: bad_target_def observes_def split: option.splits)

lemma referred:
  assumes "archive_parts env archive ms ds seqs segs" and "distinct (map m_result_id ms)"
  shows "\<not> bad_target asset_id available_at (metric_target archive i) \<longleftrightarrow> refers_to ms asset_id available_at i"
proof -
  have table: "ar_metrics archive = map (\<lambda>m. (m_result_id m, stored_metric env m)) ms"
    using assms(1) by (simp add: archive_parts_def)
  show ?thesis
  proof (cases "\<exists>m \<in> set ms. m_result_id m = i")
    case True
    then obtain m where m: "m \<in> set ms" "m_result_id m = i" by blast
    have "dict_get (ar_metrics archive) i = Some (stored_metric env m)"
      using map_of_links [OF assms(2) m(1)] by (simp add: table dict_get_def m(2))
    moreover have "refers_to ms asset_id available_at i \<longleftrightarrow> m_asset_id m = asset_id \<and> m_available_at m \<le> available_at"
    proof
      assume "refers_to ms asset_id available_at i"
      then obtain m' where m': "m' \<in> set ms" "m_result_id m' = i" "m_asset_id m' = asset_id" "m_available_at m' \<le> available_at"
        by (auto simp: refers_to_def)
      have "m' = m" by (rule hash_unique [OF assms(2) m'(1) m(1)]) (simp add: m(2) m'(2))
      with m' show "m_asset_id m = asset_id \<and> m_available_at m \<le> available_at" by simp
    qed (use m in \<open>auto simp: refers_to_def\<close>)
    ultimately show ?thesis
      by (auto simp: metric_target_def bad_target_def stored_metric_def metric_row_of_def)
  next
    case False
    then have "dict_get (ar_metrics archive) i = None"
      by (auto simp: table dict_get_def map_of_eq_None_iff)
    with False show ?thesis by (auto simp: metric_target_def bad_target_def refers_to_def)
  qed
qed

lemma linked_ok:
  assumes "stores sha tables seqs segs" and "(link_type, ids) \<in> set seqs"
  shows "bad_links tables link_type (sequence_hash sha (link_type, ids)) asset_id available_at target \<longleftrightarrow>
    (\<exists>i \<in> set ids. bad_target asset_id available_at (target i))"
  using set_linked_rows [OF assms] by (simp add: bad_links_def list_ex_iff)

lemma sequences_valid:
  assumes "archive_parts env archive ms ds seqs segs"
  shows "validate_archive_sequences archive = Inr ()"
proof -
  let ?H = "sequence_hash (ae_sha env)" and ?G = "segment_hash (ae_sha env)" and ?t = "ar_sequences archive"
  from assms have stores: "stores (ae_sha env) ?t seqs segs"
    and metrics: "ar_metrics archive = map (\<lambda>m. (m_result_id m, stored_metric env m)) ms"
    and components: "ar_components archive = concat (map (\<lambda>d. block (d_diagnostic_id d) (map (stored_component env) (d_components d))) ds)"
    and links: "set seqs = (\<Union>m \<in> set ms. metric_links m) \<union> (\<Union>d \<in> set ds. diagnostic_links d)"
    and used: "set segs \<subseteq> (\<Union>l \<in> set seqs. set (segments_of l))"
    unfolding archive_parts_def by blast+
  from stores have sequences: "st_sequences ?t = map (\<lambda>l. (?H l, meta_of ?H l)) seqs"
    and segments: "st_segments ?t = map (\<lambda>l. (?G l, meta_of ?G l)) segs"
    and refs: "st_references ?t = concat (map (\<lambda>l. block (?H l) (map ?G (segments_of l))) seqs)"
    and members: "st_members ?t = concat (map (\<lambda>l. block (?G l) (snd l)) segs)"
    and distinct: "distinct (map ?H seqs)" "distinct (map ?G segs)"
    and segs: "\<And>l. l \<in> set seqs \<Longrightarrow> set (segments_of l) \<subseteq> set segs"
    by (simp_all add: stores_def sequence_rows_def segment_rows_def reference_rows_def member_rows_def)
  have segment: "dict_get (st_segments ?t) (?G s) = Some (meta_of ?G s)" if "s \<in> set segs" for s
    using map_of_links [OF distinct(2) that] by (simp add: segments dict_get_def)
  have sequence: "dict_get (st_sequences ?t) (?H l) = Some (meta_of ?H l)" if "l \<in> set seqs" for l
    using map_of_links [OF distinct(1) that] by (simp add: sequences dict_get_def)
  have owner: "list_ex (\<lambda>(i, row). mw_observation_sequence_id row = ?H l \<or> mw_metric_sequence_id row = ?H l) (ar_metrics archive) \<or>
      list_ex (\<lambda>(k, row). cw_metric_sequence_id row = ?H l) (ar_components archive)" if "l \<in> set seqs" for l
  proof -
    from that consider m where "m \<in> set ms" "l \<in> metric_links m" | d c where "d \<in> set ds" "c \<in> set (d_components d)" "l = component_link c"
      unfolding links diagnostic_links_def by blast
    then show ?thesis
    proof cases
      case 1
      then show ?thesis
        by (auto simp: metrics list_ex_iff stored_metric_def metric_row_of_def metric_links_def)
    next
      case 2
      from 2(2) obtain p where "p < length (d_components d)" "c = d_components d ! p" by (metis in_set_conv_nth)
      with 2 have "((d_diagnostic_id d, p), stored_component env c) \<in> set (ar_components archive)"
        unfolding components in_blocks by auto
      then show ?thesis
        using 2(3) by (auto simp: list_ex_iff stored_component_def component_row_of_def intro!: bexI)
    qed
  qed
  have a: "list_all (\<lambda>(sid, meta).
            list_ex (\<lambda>(i, row). mw_observation_sequence_id row = sid \<or> mw_metric_sequence_id row = sid) (ar_metrics archive) \<or>
            list_ex (\<lambda>(k, row). cw_metric_sequence_id row = sid) (ar_components archive)) (st_sequences ?t)"
    using owner by (simp add: sequences list_all_iff)
  have b: "list_all (\<lambda>(gid, meta). list_ex (\<lambda>(k, gid'). gid' = gid) (st_references ?t)) (st_segments ?t)"
  proof -
    have "\<exists>k. (k, ?G s) \<in> set (st_references ?t)" if "s \<in> set segs" for s
    proof -
      from that used obtain l where l: "l \<in> set seqs" "s \<in> set (segments_of l)" by blast
      then obtain p where "p < length (segments_of l)" "s = segments_of l ! p" by (metis in_set_conv_nth)
      with l(1) have "((?H l, p), ?G s) \<in> set (st_references ?t)" unfolding refs in_blocks by auto
      then show ?thesis by blast
    qed
    then show ?thesis unfolding segments list_all_iff list_ex_iff by fastforce
  qed
  have c: "list_all (\<lambda>((gid, q), i). dict_get (st_segments ?t) gid \<noteq> None) (st_members ?t)"
    unfolding list_all_iff using segment by (fastforce simp: members in_blocks simp del: set_concat)
  have d: "list_all (\<lambda>((sid, p), gid).
            case (dict_get (st_sequences ?t) sid, dict_get (st_segments ?t) gid) of
              (Some smeta, Some gmeta) \<Rightarrow> mr_link_type smeta = mr_link_type gmeta
            | _ \<Rightarrow> False) (st_references ?t)"
  proof -
    have "case (dict_get (st_sequences ?t) sid, dict_get (st_segments ?t) gid) of
        (Some smeta, Some gmeta) \<Rightarrow> mr_link_type smeta = mr_link_type gmeta | _ \<Rightarrow> False"
      if "((sid, p), gid) \<in> set (st_references ?t)" for sid p gid
    proof -
      from that obtain l where l: "l \<in> set seqs" "sid = ?H l" "p < length (segments_of l)" "gid = ?G (segments_of l ! p)"
        unfolding refs in_blocks by auto
      let ?s = "segments_of l ! p"
      have "?s \<in> set (segments_of l)" using l(3) by simp
      with segs [OF l(1)] have "?s \<in> set segs" "fst ?s = fst l" using segments_of_type by blast+
      then show ?thesis by (simp add: l(2,4) sequence [OF l(1)] segment meta_of_def)
    qed
    then show ?thesis unfolding list_all_iff by (auto simp del: set_concat)
  qed
  show ?thesis
    unfolding validate_archive_sequences_def Let_def require_unit_def
    by (simp only: a b c d if_True bind_r_simps)
qed

lemma references_valid:
  assumes "archive_parts env archive ms ds seqs segs" and distinct: "distinct (map m_result_id ms)" "distinct (map d_diagnostic_id ds)"
  shows "validate_reference_rows observations archive = Inr () \<longleftrightarrow>
    (\<forall>m \<in> set ms. \<forall>i \<in> set (m_input_observation_ids m). observes observations (m_asset_id m) (m_available_at m) i) \<and>
    (\<forall>m \<in> set ms. \<forall>i \<in> set (m_input_metric_result_ids m). refers_to ms (m_asset_id m) (m_available_at m) i) \<and>
    (\<forall>d \<in> set ds. \<forall>c \<in> set (d_components d). \<forall>i \<in> set (dc_metric_result_ids c). refers_to ms (d_asset_id d) (d_available_at d) i) \<and>
    (\<forall>d \<in> set ds. \<forall>e \<in> set (d_evidence d). refers_to ms (d_asset_id d) (d_available_at d) (de_metric_result_id e))"
    (is "_ \<longleftrightarrow> ?observations \<and> ?metrics \<and> ?components \<and> ?evidence")
proof -
  let ?t = "ar_sequences archive"
  from assms(1) have stores: "stores (ae_sha env) ?t seqs segs"
    and metrics: "ar_metrics archive = map (\<lambda>m. (m_result_id m, stored_metric env m)) ms"
    and diagnostics: "ar_diagnostics archive = map (\<lambda>d. (d_diagnostic_id d, diagnostic_row_of env d)) ds"
    and components: "ar_components archive = concat (map (\<lambda>d. block (d_diagnostic_id d) (map (stored_component env) (d_components d))) ds)"
    and evidence: "ar_evidence archive = concat (map (\<lambda>d. block (d_diagnostic_id d) (d_evidence d)) ds)"
    unfolding archive_parts_def by blast+
  note linked = linked_ok [OF stores] and target = referred [OF assms(1) distinct(1)]
  have links: "(''metric-input-observation-v1'', m_input_observation_ids m) \<in> set seqs"
    "(''metric-input-result-v1'', m_input_metric_result_ids m) \<in> set seqs" if "m \<in> set ms" for m
    using parts_links(1) [OF assms(1)] that by (auto simp: metric_links_def observation_link_def metric_link_def)
  have component_links: "(''diagnostic-component-metric-result-v1'', dc_metric_result_ids c) \<in> set seqs"
    if "d \<in> set ds" "c \<in> set (d_components d)" for d c
    using parts_links(2) [OF assms(1)] that by (auto simp: diagnostic_links_def component_link_def)
  have parent: "dict_get (ar_diagnostics archive) (d_diagnostic_id d) = Some (diagnostic_row_of env d)" if "d \<in> set ds" for d
    using map_of_links [OF distinct(2) that] by (simp add: diagnostics dict_get_def)
  have a: "\<not> list_ex (\<lambda>(i, row). bad_links ?t ''metric-input-observation-v1''
            (mw_observation_sequence_id row) (mw_asset_id row) (mw_available_at row) (dict_get observations))
          (ar_metrics archive) \<longleftrightarrow> ?observations"
    using linked [OF links(1)] by (simp add: metrics list_ex_iff stored_metric_def metric_row_of_def observation_link_def observed [symmetric])
  have b: "\<not> list_ex (\<lambda>(i, row). bad_links ?t ''metric-input-result-v1''
            (mw_metric_sequence_id row) (mw_asset_id row) (mw_available_at row) (metric_target archive))
          (ar_metrics archive) \<longleftrightarrow> ?metrics"
    using linked [OF links(2)] by (simp add: metrics list_ex_iff stored_metric_def metric_row_of_def metric_link_def target [symmetric])
  have child: "(\<exists>row \<in> set (concat (map (\<lambda>d. block (d_diagnostic_id d) (f d)) ds)). (\<lambda>((k, p), v).
      case dict_get (ar_diagnostics archive) k of None \<Rightarrow> False | Some row \<Rightarrow> P row v) row) \<longleftrightarrow>
      (\<exists>d \<in> set ds. \<exists>v \<in> set (f d). P (diagnostic_row_of env d) v)" (is "?rows \<longleftrightarrow> ?children") for f :: "diagnostic_result \<Rightarrow> 'v list" and P
  proof
    assume ?rows
    then obtain k p v where row: "((k, p), v) \<in> set (concat (map (\<lambda>d. block (d_diagnostic_id d) (f d)) ds))"
      "case dict_get (ar_diagnostics archive) k of None \<Rightarrow> False | Some row \<Rightarrow> P row v" by fastforce
    then show ?children unfolding in_blocks using parent by force
  next
    assume ?children
    then obtain d v where d: "d \<in> set ds" "v \<in> set (f d)" "P (diagnostic_row_of env d) v" by blast
    then obtain p where "p < length (f d)" "v = f d ! p" by (metis in_set_conv_nth)
    then have "((d_diagnostic_id d, p), v) \<in> set (concat (map (\<lambda>d. block (d_diagnostic_id d) (f d)) ds))"
      unfolding in_blocks using d(1) by blast
    then show ?rows by (rule bexI [rotated]) (simp add: parent d)
  qed
  have c: "\<not> list_ex (\<lambda>((k, p), row). case dict_get (ar_diagnostics archive) k of
              None \<Rightarrow> False
            | Some d \<Rightarrow> bad_links ?t ''diagnostic-component-metric-result-v1''
                (cw_metric_sequence_id row) (gw_asset_id d) (gw_available_at d) (metric_target archive))
          (ar_components archive) \<longleftrightarrow> ?components"
    unfolding components list_ex_iff child
    using linked [OF component_links] by (simp add: stored_component_def component_row_of_def component_link_def diagnostic_row_of_def target [symmetric])
  have d: "\<not> list_ex (\<lambda>((k, p), row). case dict_get (ar_diagnostics archive) k of
              None \<Rightarrow> False
            | Some d \<Rightarrow> bad_target (gw_asset_id d) (gw_available_at d) (metric_target archive (de_metric_result_id row)))
          (ar_evidence archive) \<longleftrightarrow> ?evidence"
    unfolding evidence list_ex_iff child by (simp add: diagnostic_row_of_def target [symmetric])
  have unit: "bind_r (require_unit q message) (\<lambda>_. r) = Inr () \<longleftrightarrow> q \<and> r = Inr ()" "require_unit q message = Inr () \<longleftrightarrow> q" for q message r
    by (simp_all add: require_unit_def)
  show ?thesis
    unfolding validate_reference_rows_def Let_def unit a b c d by (rule refl)
qed

lemma acyclic_valid:
  assumes "archive_parts env archive ms ds seqs segs" and "distinct (map m_result_id ms)"
  shows "validate_metric_acyclic archive = Inr () \<longleftrightarrow>
    acyclic (depends_on ms) \<and> snd ` depends_on ms \<subseteq> m_result_id ` set ms"
proof -
  let ?edges = "metric_edges archive"
  let ?nodes = "map (\<lambda>(i, row). (i, int (length (filter (\<lambda>(p, input). p = i) ?edges)))) (ar_metrics archive)"
  have metrics: "ar_metrics archive = map (\<lambda>m. (m_result_id m, stored_metric env m)) ms"
    using assms(1) by (simp add: archive_parts_def)
  have nodes: "map fst ?nodes = map m_result_id ms" by (simp add: metrics comp_def)
  then have keys: "fst ` set ?nodes = m_result_id ` set ms" by (metis list.set_map)
  note edges = set_metric_edges [OF assms(1)]
  have "remove_ready ?edges ?nodes (length ?nodes) = Inr () \<longleftrightarrow>
      acyclic (set ?edges) \<and> snd ` set ?edges \<subseteq> fst ` set ?nodes \<union> {}"
  proof (rule remove_ready_decides)
    show "distinct (map fst ?nodes)" unfolding nodes by (rule assms(2))
    show "counts_edges ?edges {} ?nodes" by (auto simp: counts_edges_def)
    show "fst ` set ?edges \<subseteq> fst ` set ?nodes \<union> {}" unfolding edges keys by (auto simp: depends_on_def)
  qed (simp_all add: acyclic_def)
  then show ?thesis unfolding keys edges by (simp add: validate_metric_acyclic_def Let_def)
qed

text \<open>Sound results: every reference is held and was known in time, and no metric depends on itself.\<close>

definition graph_sound :: "observation_index \<Rightarrow> metric_result list \<Rightarrow> diagnostic_result list \<Rightarrow> bool" where
  "graph_sound observations ms ds \<longleftrightarrow>
     (\<forall>m \<in> set ms. \<forall>i \<in> set (m_input_observation_ids m). observes observations (m_asset_id m) (m_available_at m) i) \<and>
     (\<forall>m \<in> set ms. \<forall>i \<in> set (m_input_metric_result_ids m). refers_to ms (m_asset_id m) (m_available_at m) i) \<and>
     (\<forall>d \<in> set ds. \<forall>c \<in> set (d_components d). \<forall>i \<in> set (dc_metric_result_ids c). refers_to ms (d_asset_id d) (d_available_at d) i) \<and>
     (\<forall>d \<in> set ds. \<forall>e \<in> set (d_evidence d). refers_to ms (d_asset_id d) (d_available_at d) (de_metric_result_id e)) \<and>
     acyclic (depends_on ms)"

lemma graph_sound_set: "set ms = set ms' \<Longrightarrow> set ds = set ds' \<Longrightarrow> graph_sound observations ms ds = graph_sound observations ms' ds'"
  by (simp add: graph_sound_def refers_to_def depends_on_def)

lemma validation_iff:
  assumes "archive_holds env archive ms ds"
  shows "(\<exists>summary. verify_historical_archive observations archive = Inr summary) \<longleftrightarrow> graph_sound observations ms ds"
proof -
  from assms obtain seqs segs where parts: "archive_parts env archive ms ds seqs segs"
    and distinct: "distinct (map m_result_id ms)" "distinct (map d_diagnostic_id ds)"
    by (auto simp: archive_holds_def)
  have all: "(\<exists>summary. verify_historical_archive observations archive = Inr summary) \<longleftrightarrow>
      validate_reference_rows observations archive = Inr () \<and> validate_metric_acyclic archive = Inr ()"
    unfolding verify_historical_archive_def sequences_valid [OF parts] Let_def
    by (cases "validate_reference_rows observations archive"; cases "validate_metric_acyclic archive") simp_all
  have "snd ` depends_on ms \<subseteq> m_result_id ` set ms"
    if "\<forall>m \<in> set ms. \<forall>i \<in> set (m_input_metric_result_ids m). refers_to ms (m_asset_id m) (m_available_at m) i"
    using that by (fastforce simp: depends_on_def refers_to_def)
  then show ?thesis
    unfolding all references_valid [OF parts distinct] acyclic_valid [OF parts distinct(1)]
    unfolding graph_sound_def by fast
qed

text \<open>
  Property C15. The validation of an archive returns exactly when the results it holds are sound:
  every observation a metric used is known, of its asset and was available in time, every metric
  that a metric, a component or an evidence refers to is held, of the same asset and was
  available in time, and no metric depends on itself through others.
\<close>
theorem validation_decides:
  assumes "archive_holds env archive ms ds"
  shows "(\<exists>summary. verify_historical_archive observations archive = Inr summary) \<longleftrightarrow>
    (\<forall>m \<in> set ms. \<forall>i \<in> set (m_input_observation_ids m). observes observations (m_asset_id m) (m_available_at m) i) \<and>
    (\<forall>m \<in> set ms. \<forall>i \<in> set (m_input_metric_result_ids m). refers_to ms (m_asset_id m) (m_available_at m) i) \<and>
    (\<forall>d \<in> set ds. \<forall>c \<in> set (d_components d). \<forall>i \<in> set (dc_metric_result_ids c). refers_to ms (d_asset_id d) (d_available_at d) i) \<and>
    (\<forall>d \<in> set ds. \<forall>e \<in> set (d_evidence d). refers_to ms (d_asset_id d) (d_available_at d) (de_metric_result_id e)) \<and>
    acyclic {(p, i). \<exists>m \<in> set ms. p = m_result_id m \<and> i \<in> set (m_input_metric_result_ids m)}"
  unfolding validation_iff [OF assms] graph_sound_def depends_on_def ..

theorem validation_decides_witness:
  "\<exists>archive receipt. save_archive_metrics sample_env empty_archive [roundtrip_metric] = Inr (receipt, archive) \<and>
     (\<exists>summary. verify_historical_archive [(1, (''equity:us:aapl'', 105))] archive = Inr summary) \<and>
     (\<nexists>summary. verify_historical_archive [(1, (''equity:us:aapl'', 115))] archive = Inr summary)"
proof -
  have "inj (ae_sha sample_env)" by (simp add: sample_env_def)
  note empty = archive_holds_empty [OF this]
  have sample: "new_items [] m_result_id [roundtrip_metric] = [roundtrip_metric]"
    by (simp add: new_items_def unique_items_distinct)
  obtain archive receipt where save: "save_archive_metrics sample_env empty_archive [roundtrip_metric] = Inr (receipt, archive)"
    and holds: "archive_holds sample_env archive [roundtrip_metric] []"
    by (rule save_archive_metrics_holds [OF empty, of "[roundtrip_metric]"])
       (use sample sample_metric_archivable in \<open>auto simp: ARCHIVE_BATCH_def consistent_def\<close>)
  have "m_input_observation_ids roundtrip_metric = [1]" "m_input_metric_result_ids roundtrip_metric = []"
    "m_asset_id roundtrip_metric = ''equity:us:aapl''" "m_available_at roundtrip_metric = 110"
    by (simp_all add: roundtrip_metric_def witness_v2_metric_def)
  then show ?thesis
    by (intro exI [of _ archive] exI [of _ receipt], unfold validation_decides [OF holds])
       (simp add: save observes_def dict_get_def acyclic_def)
qed

end
