(* ===== verification/ImportFamilies.thy ===== *)
theory ImportFamilies
  imports HistoricalImport ArchiveValidationProperties
begin

text \<open>
  What the importer relies on for one family of rows, as an interface: the source is paged, the
  archive holds rows in the order of the source, is paged in the same way and takes the next
  batch; and what its loops do over any such family. The archive and the repositories provide it
  for metrics and for diagnostics.
\<close>

section \<open>The interface\<close>

definition family_digest :: "importer \<Rightarrow> 'r family \<Rightarrow> 'r list \<Rightarrow> string" where
  "family_digest I F ms = foldl (fold_digest I F) (EMPTY_DIGEST I) ms"

definition after_rows :: "'r family \<Rightarrow> 'r list \<Rightarrow> import_cursor option" where
  "after_rows F ms = cursor_after (fa_avail F) (fa_key F) ms"

definition finds :: "('r \<Rightarrow> uuid) \<Rightarrow> (uuid list \<Rightarrow> (uuid, 'r) dict result) \<Rightarrow> 'r list \<Rightarrow> bool" where
  \<comment> \<open>hydrating the identities of \<open>ms\<close> gives exactly these rows\<close>
  "finds key get ms \<longleftrightarrow>
     (\<exists>found. get (map key ms) = Inr found \<and> length found = length ms \<and> (\<forall>m \<in> set ms. dict_get found (key m) = Some m))"

definition limit_ok :: "int \<Rightarrow> bool" where
  "limit_ok limit \<longleftrightarrow> 1 \<le> limit \<and> limit \<le> ANALYTICAL_IMPORT_PAGE_LIMIT"

locale import_family =
  fixes family :: "importer \<Rightarrow> 'r family"
    and rows :: "importer \<Rightarrow> 'r list"
    and ready :: "importer \<Rightarrow> bool"
    and holds :: "importer \<Rightarrow> 'o \<Rightarrow> archive \<Rightarrow> 'r list \<Rightarrow> bool"
  assumes source_page: "ready I \<Longrightarrow> rows I = seen @ rest \<Longrightarrow> limit_ok limit \<Longrightarrow>
      fa_page (family I) limit (after_rows (family I) seen) = Inr (map (fa_key (family I)) (take (nat limit) rest))"
    and source_get: "ready I \<Longrightarrow> rows I = seen @ ms @ rest \<Longrightarrow> length ms \<le> 256 \<Longrightarrow>
      finds (fa_key (family I)) (fa_get_many (family I)) ms"
    and target_page: "holds I other archive (seen @ rest) \<Longrightarrow> limit_ok limit \<Longrightarrow>
      fa_target_page (family I) archive limit (after_rows (family I) seen) = Inr (map (fa_key (family I)) (take (nat limit) rest))"
    and target_get: "holds I other archive (seen @ ms @ rest) \<Longrightarrow> length ms \<le> 256 \<Longrightarrow>
      finds (fa_key (family I)) (fa_target_get (family I) archive) ms"
    and save_next: "ready I \<Longrightarrow> holds I other archive (take k (rows I)) \<Longrightarrow> j \<le> k \<Longrightarrow> n \<le> 256 \<Longrightarrow>
      \<exists>receipt archive'. fa_save (family I) archive (take n (drop j (rows I))) = Inr (receipt, archive') \<and>
        holds I other archive' (take (max k (j + n)) (rows I))"
    and same_row: "fa_eq (family I) m m"
    and progress_set: "fa_progress (family I) (fa_set_progress (family I) p st) = p"
    and progress_time: "fa_progress (family I) (st\<lparr>is_updated_at := t\<rparr>) = fa_progress (family I) st"
begin

lemma source_page_at:
  assumes "ready I" and "limit_ok limit"
  shows "fa_page (family I) limit (after_rows (family I) (take n (rows I))) =
    Inr (map (fa_key (family I)) (take (nat limit) (drop n (rows I))))"
  by (rule source_page [OF assms(1) _ assms(2)]) simp

lemma source_get_at: "ready I \<Longrightarrow> p \<le> 256 \<Longrightarrow> finds (fa_key (family I)) (fa_get_many (family I)) (take p (drop n (rows I)))"
  by (rule source_get [of I "take n (rows I)" _ "drop p (drop n (rows I))"])
     (simp_all only: append_take_drop_id, simp)

lemma target_page_at:
  assumes "holds I other archive ms" and "limit_ok limit"
  shows "fa_target_page (family I) archive limit (after_rows (family I) (take n ms)) =
    Inr (map (fa_key (family I)) (take (nat limit) (drop n ms)))"
  by (rule target_page [of I other, OF _ assms(2)]) (simp add: assms(1))

lemma target_get_at:
  assumes "holds I other archive ms" and "p \<le> 256"
  shows "finds (fa_key (family I)) (fa_target_get (family I) archive) (take p (drop n ms))"
  by (rule target_get [of I other _ "take n ms" _ "drop p (drop n ms)"])
     (simp_all only: append_take_drop_id assms(1), simp add: min.coboundedI2 assms(2))

end

section \<open>Rows of a page\<close>

lemma models_found:
  assumes "\<forall>m \<in> set ms. dict_get found (key m) = Some m"
  shows "models_of found (map key ms) = Inr ms"
  unfolding models_of_def by (rule traverse_lookup) (use assms in blast)

lemma compare_same:
  assumes "\<forall>m \<in> set ms. dict_get sources (fa_key F m) = Some m" and "\<forall>m \<in> set ms. dict_get targets (fa_key F m) = Some m"
    and "\<And>m. fa_eq F m m"
  shows "compare_models I F message sources targets (map (fa_key F) ms) digest = Inr (foldl (fold_digest I F) digest ms)"
  using assms by (induction ms arbitrary: digest) (simp_all add: lookup_model_def)

lemma after_rows_Nil [simp]: "after_rows F [] = None"
  by (simp add: after_rows_def)

lemma after_rows_append: "ms \<noteq> [] \<Longrightarrow> after_rows F (seen @ ms) = cursor_at F ms"
  by (simp add: after_rows_def cursor_after_append cursor_at_def)

lemma cursor_at_last: "ms \<noteq> [] \<Longrightarrow> cursor_at F [last ms] = cursor_at F ms"
  by (simp add: cursor_at_def)

lemma family_digest_append: "family_digest I F (seen @ ms) = foldl (fold_digest I F) (family_digest I F seen) ms"
  by (simp add: family_digest_def)

text \<open>A page of at least one row after the first \<open>n\<close> ones.\<close>

lemma limit_bound: "limit_ok limit \<Longrightarrow> nat limit \<le> 256"
  by (auto simp: limit_ok_def ANALYTICAL_IMPORT_PAGE_LIMIT_def)

lemma next_rows:
  assumes "limit_ok limit"
  shows "take (nat limit) (drop n xs) = [] \<longleftrightarrow> length xs \<le> n"
    and "n < length xs \<Longrightarrow> take (n + length (take (nat limit) (drop n xs))) xs = take n xs @ take (nat limit) (drop n xs)"
    and "length (take (nat limit) (drop n xs)) \<le> 256"
proof -
  have p: "1 \<le> nat limit" "nat limit \<le> 256" using assms by (auto simp: limit_ok_def ANALYTICAL_IMPORT_PAGE_LIMIT_def)
  then show "take (nat limit) (drop n xs) = [] \<longleftrightarrow> length xs \<le> n" "length (take (nat limit) (drop n xs)) \<le> 256"
    by auto
  show "take (n + length (take (nat limit) (drop n xs))) xs = take n xs @ take (nat limit) (drop n xs)" if "n < length xs"
    using that by (simp add: take_add min_def)
qed

section \<open>The loops over a family\<close>

text \<open>The page after \<open>n\<close> rows \<open>xs\<close>, the position after it, and what is left.\<close>

lemma scan_hydrated: "scan_row I F m (c\<lparr>ci_max_page_hydrated := h\<rparr>) = (scan_row I F m c)\<lparr>ci_max_page_hydrated := h\<rparr>"
  by (cases "fa_version F m") (simp_all add: scan_row_def)

lemma fold_scan_hydrated: "fold (scan_row I F) ms (c\<lparr>ci_max_page_hydrated := h\<rparr>) = (fold (scan_row I F) ms c)\<lparr>ci_max_page_hydrated := h\<rparr>"
  by (induction ms arbitrary: c) (simp_all add: scan_hydrated)

lemma fold_scan_keeps: "ci_max_page_hydrated (fold (scan_row I F) ms c) = ci_max_page_hydrated c"
  "ci_max_page_requested (fold (scan_row I F) ms c) = ci_max_page_requested c"
  by (induction ms arbitrary: c) (simp_all add: scan_row_def)

context import_family
begin

lemma scan_loop:
  assumes "ready I" and "limit_ok (im_page_limit I)" and "n \<le> length (rows I)"
    and "ci_max_page_hydrated c \<le> nat (im_page_limit I)"
  shows "\<exists>h. read_loop (scan_step I (family I)) (after_rows (family I) (take n (rows I)), c) =
      Some (Inr (after_rows (family I) (rows I), (fold (scan_row I (family I)) (drop n (rows I)) c)\<lparr>ci_max_page_hydrated := h\<rparr>)) \<and>
    h \<le> nat (im_page_limit I)"
  using assms(3,4)
proof (induction "length (rows I) - n" arbitrary: n c rule: less_induct)
  case less
  let ?F = "family I" and ?p = "take (nat (im_page_limit I)) (drop n (rows I))"
  note rows = next_rows [OF assms(2), where xs = "rows I" and n = n]
  note page = source_page_at [OF assms(1,2), of n]
  show ?case
  proof (cases "n < length (rows I)")
    case False
    with less.prems(1) have n: "n = length (rows I)" by simp
    with page have "scan_step I ?F (after_rows ?F (take n (rows I)), c) = Inr None" by (simp add: scan_step_def)
    then show ?thesis using less.prems(2) n by (auto simp: read_loop_simps intro!: exI [of _ "ci_max_page_hydrated c"])
  next
    case True
    then have p: "?p \<noteq> []" using rows(1) by simp
    let ?c = "fold (scan_row I ?F) ?p (c\<lparr>ci_max_page_hydrated := max (ci_max_page_hydrated c) (length ?p)\<rparr>)"
    let ?n = "n + length ?p"
    from source_get_at [OF assms(1) limit_bound [OF assms(2)]] obtain found where found: "fa_get_many ?F (map (fa_key ?F) ?p) = Inr found"
      "length found = length ?p" "\<forall>m \<in> set ?p. dict_get found (fa_key ?F m) = Some m"
      unfolding finds_def by blast
    have "scan_step I ?F (after_rows ?F (take n (rows I)), c) = Inr (Some (after_rows ?F (take ?n (rows I)), ?c))"
      unfolding scan_step_def rows(2) [OF True] after_rows_append [OF p] using p
      by (simp add: page found(1,2) models_found [OF found(3)] del: take_eq_Nil drop_eq_Nil)
    then have step: "read_loop (scan_step I ?F) (after_rows ?F (take n (rows I)), c) =
        read_loop (scan_step I ?F) (after_rows ?F (take ?n (rows I)), ?c)" by (simp add: read_loop_simps)
    have "length ?p \<le> nat (im_page_limit I)" by simp
    with less.prems(2) have "ci_max_page_hydrated ?c \<le> nat (im_page_limit I)" by (simp only: fold_scan_keeps) simp
    moreover have "length (rows I) - ?n < length (rows I) - n" using True p by (cases ?p) simp_all
    moreover have "?n \<le> length (rows I)" using True by simp
    ultimately obtain h where h: "read_loop (scan_step I ?F) (after_rows ?F (take ?n (rows I)), ?c) =
        Some (Inr (after_rows ?F (rows I), (fold (scan_row I ?F) (drop ?n (rows I)) ?c)\<lparr>ci_max_page_hydrated := h\<rparr>))"
      "h \<le> nat (im_page_limit I)" using less.hyps by blast
    have "drop n (rows I) = ?p @ drop ?n (rows I)"
      by (metis append_take_drop_id drop_drop length_take add.commute append_eq_conv_conj)
    from arg_cong [OF this, of "\<lambda>xs. fold (scan_row I ?F) xs c"]
    have "fold (scan_row I ?F) (drop n (rows I)) c = fold (scan_row I ?F) (drop ?n (rows I)) (fold (scan_row I ?F) ?p c)"
      by (simp only: fold_append comp_apply)
    then have "(fold (scan_row I ?F) (drop ?n (rows I)) ?c)\<lparr>ci_max_page_hydrated := h\<rparr> =
        (fold (scan_row I ?F) (drop n (rows I)) c)\<lparr>ci_max_page_hydrated := h\<rparr>"
      by (simp add: fold_scan_hydrated)
    with h step show ?thesis by auto
  qed
qed

lemma prefix_loop:
  assumes "ready I" and "limit_ok (im_page_limit I)" and "holds I other archive (take k (rows I))"
    and "n \<le> k" and "n \<le> length (rows I)" and "j \<le> n"
  shows "read_loop (prefix_step I (family I) archive n)
      (after_rows (family I) (take j (rows I)), family_digest I (family I) (take j (rows I)), j) =
    Some (Inr (after_rows (family I) (take n (rows I)), family_digest I (family I) (take n (rows I)), n))"
  using assms(6)
proof (induction "n - j" arbitrary: j rule: less_induct)
  case less
  let ?F = "family I" and ?l = "min (im_page_limit I) (int (n - j))"
  show ?case
  proof (cases "j < n")
    case False
    with less.prems have "j = n" by simp
    then show ?thesis by (simp add: prefix_step_def read_loop_simps)
  next
    case True
    let ?p = "take (nat ?l) (drop j (rows I))"
    have limit: "limit_ok ?l" using assms(2) True by (auto simp: limit_ok_def)
    have l: "nat ?l \<le> n - j" by simp
    note rows = next_rows [OF limit, where xs = "rows I" and n = j]
    have len: "length ?p = nat ?l" using l assms(5) by simp
    have p: "?p \<noteq> []" using rows(1) True assms(5) by simp
    have target: "take (nat ?l) (drop j (take k (rows I))) = ?p" using l assms(4) by (simp add: drop_take min_def)
    have start: "take j (take k (rows I)) = take j (rows I)" using True assms(4) by (simp add: min_def)
    note pages = source_page_at [OF assms(1) limit, of j] target_page_at [OF assms(3) limit, of j, unfolded target start]
    from source_get_at [OF assms(1) limit_bound [OF limit], of j] obtain found where found: "fa_get_many ?F (map (fa_key ?F) ?p) = Inr found"
      "\<forall>m \<in> set ?p. dict_get found (fa_key ?F m) = Some m"
      unfolding finds_def by blast
    from target_get_at [OF assms(3) limit_bound [OF limit], of j, unfolded target] obtain stored where
      stored: "fa_target_get ?F archive (map (fa_key ?F) ?p) = Inr stored" "\<forall>m \<in> set ?p. dict_get stored (fa_key ?F m) = Some m"
      unfolding finds_def by blast
    have last: "lookup_model found (last (map (fa_key ?F) ?p)) = Inr (last ?p)"
      using p found(2) by (simp add: last_map lookup_model_def)
    note next_page = rows(2) [unfolded len]
    have "j < length (rows I)" using True assms(5) by simp
    note at = next_page [OF this]
    have "prefix_step I ?F archive n (after_rows ?F (take j (rows I)), family_digest I ?F (take j (rows I)), j) =
        Inr (Some (after_rows ?F (take (j + nat ?l) (rows I)), family_digest I ?F (take (j + nat ?l) (rows I)), j + nat ?l))"
      unfolding prefix_step_def Let_def split_conv
      unfolding at after_rows_append [OF p] family_digest_append
      using p True by (simp only: pages found(1) stored(1) bind_r_simps last cursor_at_last
          compare_same [OF found(2) stored(2) same_row] length_map len True not_True_eq_False if_False simp_thms list.map_disc_iff)
    moreover have "n - (j + nat ?l) < n - j" using limit True by (auto simp: limit_ok_def)
    moreover have "j + nat ?l \<le> n" using l True by simp
    ultimately show ?thesis using less.hyps by (simp add: read_loop_simps)
  qed
qed

end

end
