(* ===== verification/ImportLoops.thy ===== *)
theory ImportLoops
  imports ImportFamilies
begin

text \<open>
  The loops of the importer that write: importing the rows of a family after a checkpoint and
  verifying the archive against the source, over the worlds an interrupted import leaves behind.
\<close>

section \<open>Worlds\<close>

text \<open>
  A checkpoint confirms the first \<open>n\<close> rows of a family.
\<close>

definition checkpoint :: "importer \<Rightarrow> 'r family \<Rightarrow> 'r list \<Rightarrow> nat \<Rightarrow> import_state \<Rightarrow> bool" where
  "checkpoint I F rows n st \<longleftrightarrow>
     n \<le> length rows \<and> fa_progress F st = (after_rows F (take n rows), n, family_digest I F (take n rows))"

definition clock_aware :: "importer \<Rightarrow> bool" where
  "clock_aware I \<longleftrightarrow> (\<forall>n. \<exists>t off. im_clock I n = Aware t off)"

text \<open>
  Interruption points use up faults and change nothing else; \<open>frame P\<close> says that \<open>P\<close> does not depend
  on the clock and the faults that are left.
\<close>

definition frame :: "(import_world \<Rightarrow> bool) \<Rightarrow> bool" where
  "frame P \<longleftrightarrow>
     (\<forall>w n faults. P w \<longrightarrow> set faults \<subseteq> set (iw_faults w) \<longrightarrow> P (w\<lparr>iw_ticks := n, iw_faults := faults\<rparr>))"

lemma frameI: "(\<And>w n faults. P w \<Longrightarrow> set faults \<subseteq> set (iw_faults w) \<Longrightarrow> P (w\<lparr>iw_ticks := n, iw_faults := faults\<rparr>)) \<Longrightarrow> frame P"
  by (simp add: frame_def)

lemma frameD: "frame P \<Longrightarrow> P w \<Longrightarrow> set faults \<subseteq> set (iw_faults w) \<Longrightarrow> P (w\<lparr>iw_ticks := n, iw_faults := faults\<rparr>)"
  by (simp add: frame_def)

lemma frame_faults: "frame P \<Longrightarrow> P w \<Longrightarrow> set faults \<subseteq> set (iw_faults w) \<Longrightarrow> P (w\<lparr>iw_faults := faults\<rparr>)"
  using frameD [of P w faults "iw_ticks w"] by simp

lemma frame_ticks: "frame P \<Longrightarrow> P w \<Longrightarrow> P (w\<lparr>iw_ticks := n\<rparr>)"
  using frameD [of P w "iw_faults w" n] by simp

definition faulty :: "import_world \<Rightarrow> bool" where
  "faulty w \<longleftrightarrow> True \<in> set (iw_faults w)"

lemma hoare_take_fault:
  assumes "frame P" and "\<And>w. P w \<Longrightarrow> faulty w \<Longrightarrow> (\<And>faults. set faults \<subseteq> set (iw_faults w) \<Longrightarrow> E e (w\<lparr>iw_faults := faults\<rparr>))"
  shows "hoare P (take_fault e) (\<lambda>_. P) E"
proof (rule hoareI)
  fix w assume "P w"
  show "case take_fault e w of (Inl e, w') \<Rightarrow> E e w' | (Inr x, w') \<Rightarrow> P w'"
  proof (cases "iw_faults w")
    case Nil
    with \<open>P w\<close> show ?thesis by (simp add: take_fault_def)
  next
    case (Cons f faults)
    then have "set faults \<subseteq> set (iw_faults w)" by auto
    with assms(2) [OF \<open>P w\<close>] frame_faults [OF assms(1) \<open>P w\<close>] Cons show ?thesis
      by (cases f) (simp_all add: take_fault_def faulty_def)
  qed
qed

lemma hoare_now:
  assumes "clock_aware I" and "frame P"
  shows "hoare P (now I) (\<lambda>_. P) E"
proof (rule hoareI)
  fix w assume "P w"
  from assms(1) obtain t off where "im_clock I (iw_ticks w) = Aware t off" unfolding clock_aware_def by blast
  with frame_ticks [OF assms(2) \<open>P w\<close>] show "case now I w of (Inl e, w') \<Rightarrow> E e w' | (Inr x, w') \<Rightarrow> P w'"
    by (simp add: now_def)
qed

lemma hoare_updated:
  assumes "clock_aware I" and "frame P"
  shows "hoare P (updated_state I st) (\<lambda>st' w. P w \<and> (\<exists>t. st' = st\<lparr>is_updated_at := t\<rparr>)) E"
  unfolding updated_state_def
  by (rule hoare_bind [OF hoare_now [OF assms]], rule hoare_pure) auto

lemma hoare_write:
  assumes "frame P" and "\<And>w. P w \<Longrightarrow> R () (w\<lparr>iw_state := Some st\<rparr>)"
    and "\<And>w e faults. P w \<Longrightarrow> faulty w \<Longrightarrow> set faults \<subseteq> set (iw_faults w) \<Longrightarrow> E e (w\<lparr>iw_faults := faults\<rparr>)"
  shows "hoare P (write_state st) R E"
  unfolding write_state_def
  by (rule hoare_bind, rule hoare_take_fault [OF assms(1)], rule assms(3), assumption+)
     (rule hoareI, simp add: put_state_def assms(2))

lemma hoare_inject:
  assumes "frame P" and "\<And>w e faults. P w \<Longrightarrow> faulty w \<Longrightarrow> set faults \<subseteq> set (iw_faults w) \<Longrightarrow> E e (w\<lparr>iw_faults := faults\<rparr>)"
  shows "hoare P (inject point) (\<lambda>_. P) E"
  unfolding inject_def by (rule hoare_take_fault [OF assms(1)]) (rule assms(2))

section \<open>Importing the rows of a family\<close>

text \<open>
  An import of a family that can be resumed: the checkpoint \<open>st\<close> confirms \<open>n\<close> rows, the archive
  holds the first \<open>k\<close>; \<open>Q\<close> is what the import of this family does not touch.
\<close>

definition family_world ::
  "importer \<Rightarrow> 'r family \<Rightarrow> 'r list \<Rightarrow> (archive \<Rightarrow> 'r list \<Rightarrow> bool) \<Rightarrow> (import_state \<Rightarrow> bool) \<Rightarrow> bool set \<Rightarrow>
     import_state \<Rightarrow> nat \<Rightarrow> nat \<Rightarrow> import_world \<Rightarrow> bool" where
  "family_world I F rows hold Q fs st n k w \<longleftrightarrow>
     iw_state w = Some st \<and> Q st \<and> checkpoint I F rows n st \<and> n \<le> k \<and> k \<le> length rows \<and>
     hold (iw_archive w) (take k rows) \<and> set (iw_faults w) \<subseteq> fs"

lemma frame_family: "frame (family_world I F rows hold Q fs st n k)"
  by (rule frameI) (auto simp: family_world_def)

definition untouched :: "'r family \<Rightarrow> (import_state \<Rightarrow> bool) \<Rightarrow> bool" where
  "untouched F Q \<longleftrightarrow> (\<forall>st p t. Q st \<longrightarrow> Q ((fa_set_progress F p st)\<lparr>is_updated_at := t\<rparr>))"

definition resumable_family ::
  "importer \<Rightarrow> 'r family \<Rightarrow> 'r list \<Rightarrow> (archive \<Rightarrow> 'r list \<Rightarrow> bool) \<Rightarrow> (import_state \<Rightarrow> bool) \<Rightarrow> bool set \<Rightarrow> py_error \<Rightarrow> import_world \<Rightarrow> bool" where
  \<comment> \<open>what a failure leaves behind\<close>
  "resumable_family I F rows hold Q fs e w \<longleftrightarrow>
     (\<exists>st n k. family_world I F rows hold Q fs st n k w) \<and> True \<in> fs"

lemma resumable_fault:
  "family_world I F rows hold Q fs st n k w \<Longrightarrow> faulty w \<Longrightarrow> set faults \<subseteq> set (iw_faults w) \<Longrightarrow>
    resumable_family I F rows hold Q fs e (w\<lparr>iw_faults := faults\<rparr>)"
  unfolding resumable_family_def using frame_faults [OF frame_family, of I F rows hold Q fs st n k w faults]
  by (metis faulty_def family_world_def subsetD)

context import_family
begin

lemma import_step_keeps:
  assumes "ready I" and "limit_ok (im_page_limit I)" and "clock_aware I" and "untouched (family I) Q"
  shows "hoare (\<lambda>w. family_world I (family I) (rows I) (holds I other) Q fs st n k w)
    (import_step I (family I) (st, created, reused, hydrated))
    (\<lambda>r w. case r of
        None \<Rightarrow> family_world I (family I) (rows I) (holds I other) Q fs st (length (rows I)) (length (rows I)) w
      | Some (st', counts) \<Rightarrow> n < length (rows I) \<and> (\<exists>n' k'. n < n' \<and> family_world I (family I) (rows I) (holds I other) Q fs st' n' k' w))
    (resumable_family I (family I) (rows I) (holds I other) Q fs)" (is "hoare ?P _ ?R ?E")
proof (cases "checkpoint I (family I) (rows I) n st \<and> n \<le> k")
  case False
  then show ?thesis by (auto simp: hoare_def family_world_def)
next
  case True
  let ?F = "family I" and ?p = "take (nat (im_page_limit I)) (drop n (rows I))"
  let ?W = "family_world I ?F (rows I) (holds I other) Q fs"
  have progress: "fa_progress ?F st = (after_rows ?F (take n (rows I)), n, family_digest I ?F (take n (rows I)))"
    and n: "n \<le> length (rows I)" using True by (simp_all add: checkpoint_def)
  note page = source_page_at [OF assms(1,2), of n]
  note next_page = next_rows [OF assms(2), where xs = "rows I" and n = n]
  show ?thesis
  proof (cases "n < length (rows I)")
    case False
    with n page have "import_step I ?F (st, created, reused, hydrated) = pure_c (Inr None)"
      by (simp add: import_step_def progress bind_c_def pure_c_def fun_eq_iff)
    with False n show ?thesis by (auto intro!: hoare_pure simp: family_world_def)
  next
    case more: True
    then have p: "?p \<noteq> []" using next_page(1) by simp
    let ?n = "n + length ?p"
    let ?k = "max k ?n"
    note at = next_page(2) [OF more]
    have bounds: "n \<le> ?k" "?n \<le> ?k" "?n \<le> length (rows I)" using True more by auto
    from source_get_at [OF assms(1) limit_bound [OF assms(2)], of n] obtain found where found:
      "fa_get_many ?F (map (fa_key ?F) ?p) = Inr found" "\<forall>m \<in> set ?p. dict_get found (fa_key ?F m) = Some m"
      unfolding finds_def by blast
    let ?st = "fa_set_progress ?F (cursor_at ?F ?p, n + length (map (fa_key ?F) ?p), family_digest I ?F (take ?n (rows I))) st"
    have fault: "hoare (?W st' m j) (inject point) (\<lambda>_. ?W st' m j) ?E" for st' m j point
      by (rule hoare_inject [OF frame_family]) (rule resumable_fault)
    have save: "hoare (?W st n k) (save_page ?F ?p) (\<lambda>_. ?W st n ?k) ?E"
    proof (rule hoareI)
      fix w assume w: "?W st n k w"
      have p_at: "take (length ?p) (drop n (rows I)) = ?p" by (metis append_take_drop_id append_eq_conv_conj)
      have "holds I other (iw_archive w) (take k (rows I))" "n \<le> k" using w by (simp_all add: family_world_def)
      from save_next [OF assms(1) this next_page(3)] obtain receipt archive' where
        "fa_save ?F (iw_archive w) ?p = Inr (receipt, archive')" "holds I other archive' (take ?k (rows I))"
        unfolding p_at by blast
      with w True bounds show "case save_page ?F ?p w of (Inl e, w') \<Rightarrow> ?E e w' | (Inr x, w') \<Rightarrow> ?W st n ?k w'"
        by (simp add: save_page_def family_world_def)
    qed
    have reread: "hoare (?W st n ?k) (read_archive (\<lambda>archive. fa_target_get ?F archive (map (fa_key ?F) ?p)))
        (\<lambda>stored w. ?W st n ?k w \<and> (\<forall>m \<in> set ?p. dict_get stored (fa_key ?F m) = Some m)) ?E"
    proof (rule hoareI)
      fix w assume w: "?W st n ?k w"
      then have "holds I other (iw_archive w) (take ?k (rows I))" by (simp add: family_world_def)
      moreover have "take (length ?p) (drop n (take ?k (rows I))) = ?p"
        by (simp add: drop_take min_def max_def)
      ultimately have "finds (fa_key ?F) (fa_target_get ?F (iw_archive w)) ?p"
        using target_get_at [of I other "iw_archive w" "take ?k (rows I)" "length ?p" n] next_page(3) by simp
      then obtain stored where "fa_target_get ?F (iw_archive w) (map (fa_key ?F) ?p) = Inr stored"
        "\<forall>m \<in> set ?p. dict_get stored (fa_key ?F m) = Some m" unfolding finds_def by blast
      with w show "case read_archive (\<lambda>archive. fa_target_get ?F archive (map (fa_key ?F) ?p)) w of
          (Inl e, w') \<Rightarrow> ?E e w' | (Inr x, w') \<Rightarrow> ?W st n ?k w' \<and> (\<forall>m \<in> set ?p. dict_get x (fa_key ?F m) = Some m)"
        by (simp add: read_archive_def)
    qed
    have compare: "compare_models I ?F message found stored (map (fa_key ?F) ?p) (family_digest I ?F (take n (rows I))) =
        Inr (family_digest I ?F (take ?n (rows I)))" if "\<forall>m \<in> set ?p. dict_get stored (fa_key ?F m) = Some m" for stored message
      unfolding at family_digest_append by (rule compare_same [OF found(2) that same_row])
    have progressed: "checkpoint I ?F (rows I) ?n (?st\<lparr>is_updated_at := t\<rparr>)" for t
      unfolding checkpoint_def progress_time progress_set at after_rows_append [OF p] using bounds(3) by (simp only: length_map simp_thms)
    have written: "hoare (\<lambda>w. ?W st n ?k w \<and> (\<exists>t. st' = ?st\<lparr>is_updated_at := t\<rparr>)) (write_state st') (\<lambda>_. ?W st' ?n ?k) ?E" for st'
    proof (rule hoare_write)
      show "frame (\<lambda>w. ?W st n ?k w \<and> (\<exists>t. st' = ?st\<lparr>is_updated_at := t\<rparr>))"
        by (rule frameI) (auto intro: frameD [OF frame_family])
    next
      fix w assume w: "?W st n ?k w \<and> (\<exists>t. st' = ?st\<lparr>is_updated_at := t\<rparr>)"
      then have "Q st'" "checkpoint I ?F (rows I) ?n st'"
        using assms(4) progressed by (auto simp: family_world_def untouched_def)
      with w show "?W st' ?n ?k (w\<lparr>iw_state := Some st'\<rparr>)" by (simp add: family_world_def)
    qed (blast intro: resumable_fault)
    have last: "hoare (?W st' ?n ?k) (pure_c (Inr (Some (st', counts)))) ?R ?E" for st' and counts :: "nat \<times> nat \<times> nat"
    proof (rule hoare_pure)
      fix w assume "?W st' ?n ?k w"
      moreover have "n < ?n" using p by (cases ?p) simp_all
      ultimately have "\<exists>n' k'. n < n' \<and> ?W st' n' k' w" by blast
      then show "?R (Some (st', counts)) w" using more by simp
    qed
    show ?thesis
      unfolding import_step_def split_conv progress Let_def page
    proof (rule hoare_bind_pure, unfold list.map_disc_iff if_not_P [OF p] found(1), rule hoare_bind_pure,
        unfold models_found [OF found(2)], rule hoare_bind_pure, rule hoare_bind [OF fault], rule hoare_bind [OF save],
        rule hoare_split, rule hoare_bind [OF fault], rule hoare_bind [OF reread], rule hoare_assume)
      fix stored new old
      assume stored: "\<forall>m \<in> set ?p. dict_get stored (fa_key ?F m) = Some m"
      show "hoare (?W st n ?k)
          (bind_c (pure_c (compare_models I ?F (''archived '' @ fa_name ?F @ '' differs from source'') found stored (map (fa_key ?F) ?p)
              (family_digest I ?F (take n (rows I))))) (\<lambda>digest.
           bind_c (updated_state I (fa_set_progress ?F (cursor_at ?F ?p, n + length (map (fa_key ?F) ?p), digest) st)) (\<lambda>st.
           bind_c (write_state st) (\<lambda>_. bind_c (inject (''after_'' @ fa_name ?F @ ''_page_state'')) (\<lambda>_.
             pure_c (Inr (Some (st, created + length (new :: uuid list), reused + length (old :: uuid list),
               max hydrated (length (map (fa_key ?F) ?p)))))))))) ?R ?E"
        unfolding compare [OF stored]
        by (rule hoare_bind_pure, rule hoare_bind [OF hoare_updated [OF assms(3) frame_family]], rule hoare_bind [OF written],
            rule hoare_bind [OF fault], rule last)
    qed
  qed
qed

lemma import_rows_resumes:
  assumes "ready I" and "limit_ok (im_page_limit I)" and "clock_aware I" and "untouched (family I) Q"
  shows "achieves (\<lambda>w. \<exists>n k. family_world I (family I) (rows I) (holds I other) Q fs st n k w)
    (import_family_rows I (family I) st)
    (\<lambda>s. family_world I (family I) (rows I) (holds I other) Q fs (fst s) (length (rows I)) (length (rows I)))
    (resumable_family I (family I) (rows I) (holds I other) Q fs)"
proof -
  let ?W = "family_world I (family I) (rows I) (holds I other) Q fs"
    and ?m = "\<lambda>s :: import_locals. length (rows I) - fst (snd (fa_progress (family I) (fst s)))"
  have rank: "?m s = length (rows I) - n" if "?W (fst s) n k w" for s :: import_locals and n k w
    using that by (simp add: family_world_def checkpoint_def)
  have step: "hoare (\<lambda>w. \<exists>n k. ?W (fst s) n k w) (import_step I (family I) s)
      (\<lambda>r w. case r of None \<Rightarrow> ?W (fst s) (length (rows I)) (length (rows I)) w
        | Some s' \<Rightarrow> (\<exists>n k. ?W (fst s') n k w) \<and> ?m s' < ?m s)
      (resumable_family I (family I) (rows I) (holds I other) Q fs)" for s
  proof (intro hoare_ex)
    fix n k
    obtain st created reused hydrated where s: "s = (st, created, reused, hydrated)" by (cases s)
    show "hoare (?W (fst s) n k) (import_step I (family I) s)
        (\<lambda>r w. case r of None \<Rightarrow> ?W (fst s) (length (rows I)) (length (rows I)) w
          | Some s' \<Rightarrow> (\<exists>n k. ?W (fst s') n k w) \<and> ?m s' < ?m s)
        (resumable_family I (family I) (rows I) (holds I other) Q fs)" (is "hoare _ _ ?R _")
    proof (rule hoareI)
      fix w assume w: "?W (fst s) n k w"
      obtain r w' where step: "import_step I (family I) s w = (r, w')" by force
      note post = hoareD [OF import_step_keeps [OF assms] w [unfolded s fst_conv] step [unfolded s]]
      show "case import_step I (family I) s w of (Inl e, w') \<Rightarrow> resumable_family I (family I) (rows I) (holds I other) Q fs e w'
          | (Inr x, w') \<Rightarrow> ?R x w'"
      proof (cases r)
        case (Inr x)
        show ?thesis
        proof (cases x)
          case None
          with post Inr step show ?thesis by (simp add: s)
        next
          case (Some s')
          with post Inr obtain n' k' where n': "n < length (rows I)" "n < n'" "?W (fst s') n' k' w'"
            by (auto split: prod.splits)
          then have "?m s' < ?m s" unfolding rank [OF w] rank [OF n'(3)] by auto
          with n'(3) Some Inr step show ?thesis by auto
        qed
      qed (use post step in simp)
    qed
  qed
  note loop = achieves_loop [of "\<lambda>s w. \<exists>n k. ?W (fst s) n k w" "import_step I (family I)"
      "\<lambda>s. ?W (fst s) (length (rows I)) (length (rows I))" ?m
      "resumable_family I (family I) (rows I) (holds I other) Q fs" "(st, 0, 0, 0)"]
  from loop [OF step] show ?thesis by (simp add: import_family_rows_def)
qed

end

end
