(* ===== verification/ImportVerification.thy ===== *)
theory ImportVerification
  imports ImportLoops
begin

text \<open>
  The loops of the importer that only read: comparing the archive with the source page by page,
  the row inventory of the archive, the check of a checkpoint without its source, and the checks
  made before an import is resumed.
\<close>

section \<open>Positions\<close>

definition verified_at :: "importer \<Rightarrow> 'r family \<Rightarrow> 'r list \<Rightarrow> nat \<Rightarrow> bool \<Rightarrow> verify_locals" where
  "verified_at I F rows n injected = (after_rows F (take n rows), family_digest I F (take n rows), n, injected)"

definition read_at :: "importer \<Rightarrow> 'r family \<Rightarrow> 'r list \<Rightarrow> nat \<Rightarrow> import_cursor option \<times> string \<times> nat" where
  "read_at I F rows n = (after_rows F (take n rows), family_digest I F (take n rows), n)"

lemma starts_at:
  "verified_at I F rows 0 False = (None, EMPTY_DIGEST I, 0, False)" "read_at I F rows 0 = (None, EMPTY_DIGEST I, 0)"
  by (simp_all add: verified_at_def read_at_def family_digest_def)

lemma bind_read:
  "bind_c (read_archive g) f w = (case g (iw_archive w) of Inl e \<Rightarrow> (Inl e, w) | Inr x \<Rightarrow> f x w)"
  by (simp add: bind_c_def read_archive_def)

context import_family
begin

section \<open>Comparing the archive with the source\<close>

lemma verify_step_keeps:
  assumes "ready I" and "limit_ok (im_page_limit I)" and "n \<le> length (rows I)" and "frame P"
    and held: "\<And>w. P w \<Longrightarrow> holds I other (iw_archive w) (rows I)"
    and faults: "\<And>w e faults. P w \<Longrightarrow> faulty w \<Longrightarrow> set faults \<subseteq> set (iw_faults w) \<Longrightarrow> E e (w\<lparr>iw_faults := faults\<rparr>)"
  shows "hoare P (verify_step I (family I) injects (verified_at I (family I) (rows I) n injected))
    (\<lambda>r w. P w \<and> (case r of None \<Rightarrow> n = length (rows I)
       | Some s \<Rightarrow> \<exists>n' injected'. n < n' \<and> n' \<le> length (rows I) \<and> s = verified_at I (family I) (rows I) n' injected')) E"
    (is "hoare P _ ?R E")
proof (rule hoareI)
  fix w assume w: "P w"
  let ?F = "family I" and ?p = "take (nat (im_page_limit I)) (drop n (rows I))"
  note rows = next_rows [OF assms(2), where xs = "rows I" and n = n]
  note source = source_page_at [OF assms(1,2), of n] and target = target_page_at [OF held [OF w] assms(2), of n]
  from source_get_at [OF assms(1) limit_bound [OF assms(2)], of n] obtain found where found:
    "fa_get_many ?F (map (fa_key ?F) ?p) = Inr found" "\<forall>m \<in> set ?p. dict_get found (fa_key ?F m) = Some m"
    unfolding finds_def by blast
  from target_get_at [OF held [OF w] limit_bound [OF assms(2)], of n] obtain stored where stored:
    "fa_target_get ?F (iw_archive w) (map (fa_key ?F) ?p) = Inr stored" "\<forall>m \<in> set ?p. dict_get stored (fa_key ?F m) = Some m"
    unfolding finds_def by blast
  let ?go = "verify_step I ?F injects (verified_at I ?F (rows I) n injected) w"
  show "case ?go of (Inl e, w') \<Rightarrow> E e w' | (Inr x, w') \<Rightarrow> ?R x w'"
  proof (cases "n < length (rows I)")
    case False
    with assms(3) have n: "n = length (rows I)" by simp
    with source target found(1) stored(1) have "?go = (Inr None, w)"
      by (simp add: verify_step_def verified_at_def bind_c_def pure_c_def read_archive_def)
    with w n show ?thesis by simp
  next
    case True
    then have p: "?p \<noteq> []" using rows(1) by simp
    let ?n = "n + length ?p"
    have last: "lookup_model found (last (map (fa_key ?F) ?p)) = Inr (last ?p)"
      using p found(2) by (simp add: last_map lookup_model_def)
    have position: "(cursor_at ?F ?p, foldl (fold_digest I ?F) (family_digest I ?F (take n (rows I))) ?p, ?n, injected') =
        verified_at I ?F (rows I) ?n injected'" for injected'
      unfolding verified_at_def rows(2) [OF True] after_rows_append [OF p] family_digest_append ..
    have go: "?go = bind_c (if injects \<and> \<not> injected then inject ''during_final_verification'' else pure_c (Inr ()))
        (\<lambda>_. pure_c (Inr (Some (verified_at I ?F (rows I) ?n (injects \<or> injected))))) w"
      unfolding position [symmetric] unfolding verify_step_def verified_at_def split_conv
      using p by (simp only: source target found(1) stored(1) bind_pure bind_read sum.case
          list.map_disc_iff if_False simp_thms compare_same [OF found(2) stored(2) same_row] last cursor_at_last length_map)
    have next_at: "hoare P (pure_c (Inr (Some (verified_at I ?F (rows I) ?n (injects \<or> injected))))) ?R E"
    proof (rule hoare_pure)
      fix w assume "P w"
      moreover have "n < ?n" "?n \<le> length (rows I)" using p True by (cases ?p, simp_all)
      ultimately have "P w \<and> (\<exists>n' injected'. n < n' \<and> n' \<le> length (rows I) \<and>
          verified_at I ?F (rows I) ?n (injects \<or> injected) = verified_at I ?F (rows I) n' injected')" by blast
      then show "?R (Some (verified_at I ?F (rows I) ?n (injects \<or> injected))) w" by (simp only: option.case)
    qed
    have point: "hoare P (if injects \<and> \<not> injected then inject ''during_final_verification'' else pure_c (Inr ())) (\<lambda>_. P) E"
    proof (cases "injects \<and> \<not> injected")
      case True
      have "hoare P (inject ''during_final_verification'') (\<lambda>_. P) E"
        by (rule hoare_inject [OF assms(4)]) (rule faults)
      with True show ?thesis by simp
    qed (auto intro: hoare_pure)
    show ?thesis unfolding go by (rule hoareE [OF hoare_bind [OF point next_at] w])
  qed
qed

lemma verify_inventory_keeps:
  assumes "ready I" and "limit_ok (im_page_limit I)" and "frame P"
    and held: "\<And>w. P w \<Longrightarrow> holds I other (iw_archive w) (rows I)"
    and faults: "\<And>w e faults. P w \<Longrightarrow> faulty w \<Longrightarrow> set faults \<subseteq> set (iw_faults w) \<Longrightarrow> E e (w\<lparr>iw_faults := faults\<rparr>)"
    and expected: "ci_count expected = length (rows I)" "ci_corpus_digest expected = family_digest I (family I) (rows I)"
  shows "achieves P (verify_inventory I (family I) expected injects) (\<lambda>_. P) E"
proof -
  let ?at = "verified_at I (family I) (rows I)"
  have step: "hoare (\<lambda>w. \<exists>n injected. (P w \<and> s = ?at n injected) \<and> n \<le> length (rows I)) (verify_step I (family I) injects s)
      (\<lambda>r w. case r of None \<Rightarrow> P w \<and> (\<exists>injected. s = ?at (length (rows I)) injected)
        | Some s' \<Rightarrow> (\<exists>n injected. (P w \<and> s' = ?at n injected) \<and> n \<le> length (rows I)) \<and>
           length (rows I) - fst (snd (snd s')) < length (rows I) - fst (snd (snd s))) E" for s
  proof (intro hoare_ex hoare_assume)
    fix n injected assume n: "s = ?at n injected" "n \<le> length (rows I)"
    show "hoare P (verify_step I (family I) injects s)
      (\<lambda>r w. case r of None \<Rightarrow> P w \<and> (\<exists>injected. s = ?at (length (rows I)) injected)
        | Some s' \<Rightarrow> (\<exists>n injected. (P w \<and> s' = ?at n injected) \<and> n \<le> length (rows I)) \<and>
           length (rows I) - fst (snd (snd s')) < length (rows I) - fst (snd (snd s))) E"
      unfolding n(1)
      by (rule hoare_conseq, rule verify_step_keeps [where E = E and other = other, OF assms(1,2) n(2) assms(3)],
          rule held, assumption, rule faults, assumption+)
        (auto simp: verified_at_def split: option.splits)
  qed
  have start: "P w \<Longrightarrow> \<exists>n injected. (P w \<and> (None, EMPTY_DIGEST I, 0, False) = ?at n injected) \<and> n \<le> length (rows I)" for w
    using starts_at(1) [of I "family I" "rows I"] by (metis le0)
  note loop = achieves_loop [OF step, of "(None, EMPTY_DIGEST I, 0, False)"]
  show ?thesis unfolding verify_inventory_def
    by (rule achieves_bind [OF achieves_conseq [OF loop start]], assumption, assumption, assumption)
      (auto simp: achieves_def verified_at_def pure_a_def expected)
qed

section \<open>The inventory of the archive\<close>

lemma rows_loop:
  assumes "holds I other archive ms" and "n \<le> length ms"
  shows "read_loop (rows_step I (family I) archive) (read_at I (family I) ms n) = Some (Inr (read_at I (family I) ms (length ms)))"
  using assms(2)
proof (induction "length ms - n" arbitrary: n rule: less_induct)
  case less
  let ?F = "family I" and ?l = "int ARCHIVE_BATCH"
  have limit: "limit_ok ?l" by (simp add: limit_ok_def ANALYTICAL_IMPORT_PAGE_LIMIT_def ARCHIVE_BATCH_def)
  let ?p = "take (nat ?l) (drop n ms)"
  note rows = next_rows [OF limit, where xs = ms and n = n]
  note page = target_page_at [OF assms(1) limit, of n]
  show ?case
  proof (cases "n < length ms")
    case False
    with less.prems have "n = length ms" by simp
    with page show ?thesis by (simp add: rows_step_def read_at_def read_loop_simps)
  next
    case True
    then have p: "?p \<noteq> []" using rows(1) by simp
    from target_get_at [OF assms(1) limit_bound [OF limit], of n] obtain stored where stored:
      "fa_target_get ?F archive (map (fa_key ?F) ?p) = Inr stored" "length stored = length ?p"
      "\<forall>m \<in> set ?p. dict_get stored (fa_key ?F m) = Some m"
      unfolding finds_def by blast
    have "rows_step I ?F archive (read_at I ?F ms n) = Inr (Some (read_at I ?F ms (n + length ?p)))"
      unfolding rows_step_def read_at_def split_conv rows(2) [OF True] after_rows_append [OF p] family_digest_append
      using p by (simp only: page stored(1,2) bind_r_simps models_found [OF stored(3)] list.map_disc_iff if_False)
    moreover have "length ms - (n + length ?p) < length ms - n" using True p by (cases ?p) simp_all
    moreover have "n + length ?p \<le> length ms" using True by simp
    ultimately show ?thesis using less.hyps by (simp add: read_loop_simps)
  qed
qed

lemma family_rows_all:
  "holds I other archive ms \<Longrightarrow>
    family_rows I (family I) archive = Some (Inr (after_rows (family I) ms, family_digest I (family I) ms, length ms))"
  using rows_loop [of I other archive ms 0] starts_at(2) [of I "family I" ms] by (simp add: family_rows_def read_at_def)

section \<open>Checkpoints\<close>

lemma portable_loop:
  assumes "holds I other archive ms" and "n \<le> length ms" and "j \<le> n"
  shows "read_loop (portable_step I (family I) archive n) (read_at I (family I) ms j) = Some (Inr (read_at I (family I) ms n))"
  using assms(3)
proof (induction "n - j" arbitrary: j rule: less_induct)
  case less
  let ?F = "family I" and ?l = "min 256 (int (n - j))"
  show ?case
  proof (cases "j < n")
    case False
    with less.prems have "j = n" by simp
    then show ?thesis by (simp add: portable_step_def read_at_def read_loop_simps)
  next
    case True
    let ?p = "take (nat ?l) (drop j ms)"
    have limit: "limit_ok ?l" using True by (auto simp: limit_ok_def ANALYTICAL_IMPORT_PAGE_LIMIT_def)
    have l: "nat ?l \<le> n - j" by simp
    note rows = next_rows [OF limit, where xs = ms and n = j]
    have len: "length ?p = nat ?l" using l assms(2) by simp
    have more: "j < length ms" using True assms(2) by simp
    have p: "?p \<noteq> []" using rows(1) more by simp
    note page = target_page_at [OF assms(1) limit, of j]
    from target_get_at [OF assms(1) limit_bound [OF limit], of j] obtain stored where stored:
      "fa_target_get ?F archive (map (fa_key ?F) ?p) = Inr stored" "\<forall>m \<in> set ?p. dict_get stored (fa_key ?F m) = Some m"
      unfolding finds_def by blast
    note next_page = rows(2) [OF more, unfolded len]
    have "portable_step I ?F archive n (read_at I ?F ms j) = Inr (Some (read_at I ?F ms (j + nat ?l)))"
      unfolding portable_step_def read_at_def split_conv
      unfolding next_page after_rows_append [OF p] family_digest_append
      using p True by (simp only: page stored(1) bind_r_simps models_found [OF stored(2)] length_map len
          not_True_eq_False if_False simp_thms list.map_disc_iff)
    moreover have "n - (j + nat ?l) < n - j" using limit True by (auto simp: limit_ok_def)
    moreover have "j + nat ?l \<le> n" using l True by simp
    ultimately show ?thesis using less.hyps by (simp add: read_loop_simps)
  qed
qed

lemma portable_loop_short:
  assumes "holds I other archive ms" and "length ms < n" and "j \<le> length ms"
  shows "read_loop (portable_step I (family I) archive n) (read_at I (family I) ms j) =
    Some (Inl (HistoricalImportError ''portable analytical prefix is truncated''))"
  using assms(3)
proof (induction "length ms - j" arbitrary: j rule: less_induct)
  case less
  let ?F = "family I" and ?l = "min 256 (int (n - j))"
  let ?p = "take (nat ?l) (drop j ms)"
  have limit: "limit_ok ?l" using less.prems assms(2) by (auto simp: limit_ok_def ANALYTICAL_IMPORT_PAGE_LIMIT_def)
  note rows = next_rows [OF limit, where xs = ms and n = j]
  note page = target_page_at [OF assms(1) limit, of j]
  from target_get_at [OF assms(1) limit_bound [OF limit], of j] obtain stored where stored:
    "fa_target_get ?F archive (map (fa_key ?F) ?p) = Inr stored" "\<forall>m \<in> set ?p. dict_get stored (fa_key ?F m) = Some m"
    unfolding finds_def by blast
  have more: "j < n" using less.prems assms(2) by simp
  show ?case
  proof (cases "j < length ms")
    case False
    then have "?p = []" by simp
    with page stored(1) have "portable_step I ?F archive n (read_at I ?F ms j) = Inl (HistoricalImportError ''portable analytical prefix is truncated'')"
      using more unfolding portable_step_def read_at_def split_conv by (simp only: bind_r_simps not_True_eq_False if_False if_True list.map simp_thms)
    then show ?thesis by (rule read_loop_simps(2))
  next
    case True
    then have p: "?p \<noteq> []" using rows(1) by simp
    have step: "portable_step I ?F archive n (read_at I ?F ms j) = Inr (Some (read_at I ?F ms (j + length ?p)))"
      unfolding portable_step_def read_at_def split_conv
      unfolding rows(2) [OF True] after_rows_append [OF p] family_digest_append
      using p more by (simp only: page stored(1) bind_r_simps models_found [OF stored(2)] length_map
          not_True_eq_False if_False simp_thms list.map_disc_iff)
    have next_at: "length ms - (j + length ?p) < length ms - j" using True p by (cases ?p) simp_all
    have within: "j + length ?p \<le> length ms" using True by simp
    from step have "read_loop (portable_step I ?F archive n) (read_at I ?F ms j) =
        read_loop (portable_step I ?F archive n) (read_at I ?F ms (j + length ?p))" by (rule read_loop_simps(3))
    then show ?thesis using less.hyps [OF next_at within] by (simp only:)
  qed
qed

text \<open>Without its source, a checkpoint is accepted exactly when it confirms a prefix of the archive.\<close>

lemma family_prefix_decides:
  assumes "holds I other archive ms" and "fa_progress (family I) st = (cursor, n, digest)"
  shows "\<exists>r. verify_family_prefix I (family I) archive st = Some r \<and> (r = Inr () \<longleftrightarrow> checkpoint I (family I) ms n st)"
proof (cases "n \<le> length ms")
  case True
  have empty: "n = 0 \<Longrightarrow> after_rows (family I) (take n ms) = None \<and> family_digest I (family I) (take n ms) = EMPTY_DIGEST I"
    by (simp add: family_digest_def)
  from portable_loop [OF assms(1) True, of 0] True empty show ?thesis
    unfolding starts_at(2) by (cases cursor; cases "after_rows (family I) (take n ms)")
      (auto simp: verify_family_prefix_def assms(2) checkpoint_def read_at_def)
next
  case False
  with portable_loop_short [OF assms(1), of n 0] show ?thesis
    unfolding starts_at(2) by (simp add: verify_family_prefix_def assms(2) checkpoint_def)
qed

lemma confirmed_prefix:
  assumes "ready I" and "limit_ok (im_page_limit I)" and "holds I other archive (take k (rows I))"
    and "checkpoint I (family I) (rows I) n st" and "n \<le> k"
  shows "validate_confirmed_prefix I (family I) st archive = Some (Inr ())"
proof -
  have n: "n \<le> length (rows I)" "fa_progress (family I) st = (after_rows (family I) (take n (rows I)), n, family_digest I (family I) (take n (rows I)))"
    using assms(4) by (simp_all add: checkpoint_def)
  from prefix_loop [OF assms(1-3,5) n(1), of 0]
  show ?thesis by (simp add: validate_confirmed_prefix_def n(2) family_digest_def)
qed

end

end
