(* ===== verification/ImportContents.thy ===== *)
theory ImportContents
  imports ImportVerification
begin

text \<open>
  The source repositories and the archive provide the interface of a family for metrics and for
  diagnostics: an archive holds the first rows of the source of each family.
\<close>

section \<open>Contents\<close>

definition source_metrics :: "importer \<Rightarrow> metric_result list" where
  "source_metrics I = in_order m_available_at m_result_id (im_metrics I)"

definition source_diagnostics :: "importer \<Rightarrow> diagnostic_result list" where
  "source_diagnostics I = in_order d_available_at d_diagnostic_id (im_diagnostics I)"

text \<open>A source of results that pass their own validators.\<close>

definition sound_source :: "importer \<Rightarrow> bool" where
  "sound_source I \<longleftrightarrow>
     table_ok m_result_id (im_metrics I) \<and> table_ok d_diagnostic_id (im_diagnostics I) \<and>
     (\<forall>m \<in> set (source_metrics I). archivable_metric (im_archive_env I) m) \<and>
     (\<forall>d \<in> set (source_diagnostics I). archivable_diagnostic d)"

definition contents :: "importer \<Rightarrow> archive \<Rightarrow> metric_result list \<Rightarrow> diagnostic_result list \<Rightarrow> bool" where
  \<comment> \<open>the rows of an archive in the order of its pages\<close>
  "contents I archive ms ds \<longleftrightarrow>
     (\<exists>ms0 ds0. archive_holds (im_archive_env I) archive ms0 ds0 \<and>
       ms = sort_key (by_availability m_available_at m_result_id) ms0 \<and>
       ds = sort_key (by_availability d_available_at d_diagnostic_id) ds0)"

lemma contentsI: "archive_holds (im_archive_env I) archive ms0 ds0 \<Longrightarrow>
    sort_key (by_availability m_available_at m_result_id) ms0 = ms \<Longrightarrow>
    sort_key (by_availability d_available_at d_diagnostic_id) ds0 = ds \<Longrightarrow> contents I archive ms ds"
  unfolding contents_def by blast

lemma contents_heldE:
  assumes "contents I archive ms ds"
  obtains s where "held (im_archive_env I) s" and "fst s = archive" and "held_metrics s = ms" and "held_diagnostics s = ds"
proof -
  from assms obtain ms0 ds0 where "archive_holds (im_archive_env I) archive ms0 ds0"
    "ms = sort_key (by_availability m_available_at m_result_id) ms0"
    "ds = sort_key (by_availability d_available_at d_diagnostic_id) ds0" unfolding contents_def by blast
  then show thesis
    using that [of "(archive, ms0, ds0)"] by (simp add: held_def held_metrics_def held_diagnostics_def)
qed

section \<open>Pages and batches\<close>

context paged_source
begin

lemma middle_finds:
  assumes "ok s" and "rows s = seen @ ms @ rest" and "length ms \<le> 256"
  shows "finds key (hydrate s) ms"
proof -
  have "distinct (map key ms)" using rows_distinct [OF assms(1)] by (simp add: assms(2))
  moreover have "set ms \<subseteq> set (rows s)" by (auto simp: assms(2))
  ultimately show ?thesis using hydrate_finds [OF assms(1) _ _ assms(3)] unfolding finds_def by blast
qed

end

lemma sorted_prefix:
  assumes "distinct (map key rows)" and "sorted (map (by_availability avail key) rows)"
    and "distinct (map key xs)" and "set xs = set (take k rows)"
  shows "sort_key (by_availability avail key) xs = take k rows"
proof -
  let ?by = "by_availability avail key"
  have by_distinct: "distinct (map ?by ys)" if "distinct (map key ys)" for ys
    using that by (auto simp: distinct_map inj_on_def by_availability_def)
  have "distinct (map key (sort_key ?by xs))"
    using assms(3) by (simp add: distinct_map)
  moreover have "distinct (map key (take k rows))" using assms(1) by (simp add: take_map [symmetric])
  moreover have "sorted (map ?by (take k rows))" using assms(2) by (simp add: take_map [symmetric] sorted_wrt_take)
  moreover have "inj_on ?by (set (sort_key ?by xs) \<union> set (take k rows))"
  proof (rule inj_on_subset)
    show "inj_on ?by (set rows)" using by_distinct [OF assms(1)] by (simp add: distinct_map)
    show "set (sort_key ?by xs) \<union> set (take k rows) \<subseteq> set rows" using assms(4) by (auto dest: in_set_takeD)
  qed
  ultimately show ?thesis
    using assms(4) by (intro map_sorted_distinct_set_unique [where f = ?by]) (auto intro: by_distinct)
qed

text \<open>Saving a batch of the source that starts within what is already held.\<close>

lemma next_batch:
  assumes "distinct (map key rows)" and "sorted (map (by_availability avail key) rows)"
    and "sort_key (by_availability avail key) ms0 = take k rows" and "distinct (map key ms0)" and "j \<le> k"
  shows "consistent key ms0 (take n (drop j rows))"
    and "sort_key (by_availability avail key) (ms0 @ new_items ms0 key (take n (drop j rows))) = take (max k (j + n)) rows"
proof -
  let ?batch = "take n (drop j rows)"
  have ms0: "set ms0 = set (take k rows)" using assms(3) by (metis set_sort)
  have sub: "set ms0 \<union> set ?batch \<subseteq> set rows"
    unfolding ms0 by (auto dest: in_set_takeD in_set_dropD)
  have inj: "inj_on key (set ms0 \<union> set ?batch)"
    using assms(1) inj_on_subset [OF _ sub] by (auto simp: distinct_map)
  then show "consistent key ms0 ?batch" by (simp add: consistent_def)
  have "\<And>m. m \<in> set ?batch \<Longrightarrow> key m \<in> set (map key ms0) \<longleftrightarrow> m \<in> set ms0"
    using inj by (auto simp: inj_on_def)
  note parts = partition_items [OF inj assms(4) this]
  have "set (take k rows) \<union> set ?batch = set (take (max k (j + n)) rows)"
  proof (cases "k \<le> j + n")
    case True
    have "take (j + n) rows = take j rows @ ?batch" by (rule take_add)
    moreover have "set (take j rows) \<subseteq> set (take k rows)" "set (take k rows) \<subseteq> set (take (j + n) rows)"
      using assms(5) True by (simp_all add: set_take_subset_set_take)
    ultimately show ?thesis using True by (auto simp: max_def)
  next
    case False
    have "set ?batch \<subseteq> set (take (j + n) rows)" by (simp add: take_add)
    also have "\<dots> \<subseteq> set (take k rows)" using False by (simp add: set_take_subset_set_take)
    finally show ?thesis using False by (auto simp: max_def)
  qed
  then have "set (ms0 @ new_items ms0 key ?batch) = set (take (max k (j + n)) rows)"
    using ms0 parts(3) by auto
  then show "sort_key (by_availability avail key) (ms0 @ new_items ms0 key ?batch) = take (max k (j + n)) rows"
    using sorted_prefix [OF assms(1,2) parts(4)] by blast
qed

lemma sorted_source:
  "sorted (map (by_availability m_available_at m_result_id) (source_metrics I))"
  "sorted (map (by_availability d_available_at d_diagnostic_id) (source_diagnostics I))"
  by (simp_all add: source_metrics_def source_diagnostics_def in_order_def)

lemma distinct_source:
  "sound_source I \<Longrightarrow> distinct (map m_result_id (source_metrics I))"
  "sound_source I \<Longrightarrow> distinct (map d_diagnostic_id (source_diagnostics I))"
  by (simp_all add: sound_source_def source_metrics_def source_diagnostics_def distinct_in_order)

section \<open>The two families\<close>

interpretation metric_rows: import_family metric_family source_metrics sound_source "\<lambda>I ds archive ms. contents I archive ms ds"
proof (unfold_locales, goal_cases)
  case (1 I seen rest limit)
  then show ?case
    using metric_pages.page_next [of "im_metrics I" seen rest limit]
    by (simp add: metric_family_def after_rows_def sound_source_def source_metrics_def limit_ok_def)
next
  case (2 I seen ms rest)
  then show ?case
    using metric_pages.middle_finds [of "im_metrics I" seen ms rest]
    by (simp add: metric_family_def sound_source_def source_metrics_def)
next
  case (3 I ds archive seen rest limit)
  then obtain s where "held (im_archive_env I) s" "fst s = archive" "held_metrics s = seen @ rest" by (auto elim: contents_heldE)
  with 3 show ?case
    using archived_metrics.page_next [of "im_archive_env I" s seen rest limit]
    by (simp add: metric_family_def after_rows_def limit_ok_def)
next
  case (4 I ds archive seen ms rest)
  then obtain s where "held (im_archive_env I) s" "fst s = archive" "held_metrics s = seen @ ms @ rest" by (auto elim: contents_heldE)
  with 4 show ?case
    using archived_metrics.middle_finds [of "im_archive_env I" s seen ms rest] by (simp add: metric_family_def)
next
  case (5 I ds archive k j n)
  let ?rows = "source_metrics I" and ?env = "im_archive_env I"
  let ?batch = "take n (drop j ?rows)"
  from 5(2) obtain ms0 ds0 where held: "archive_holds ?env archive ms0 ds0"
    "take k ?rows = sort_key (by_availability m_available_at m_result_id) ms0"
    "ds = sort_key (by_availability d_available_at d_diagnostic_id) ds0" unfolding contents_def by blast
  have "distinct (map m_result_id ms0)" using held(1) by (simp add: archive_holds_def)
  note batch = next_batch [OF distinct_source(1) [OF 5(1)] sorted_source(1) held(2) [symmetric] this 5(3), of n]
  have "length ?batch \<le> ARCHIVE_BATCH" using 5(4) by (simp add: ARCHIVE_BATCH_def)
  moreover have "\<forall>m \<in> set ?batch. archivable_metric ?env m"
    using 5(1) by (auto simp: sound_source_def dest: in_set_takeD in_set_dropD)
  ultimately show ?case
    using save_archive_metrics_holds [OF held(1) _ _ batch(1)] contentsI [OF _ batch(2) held(3) [symmetric]]
    by (simp add: metric_family_def) metis
qed (simp_all add: metric_family_def split: prod.splits)

interpretation diagnostic_rows: import_family diagnostic_family source_diagnostics sound_source "\<lambda>I ms archive ds. contents I archive ms ds"
proof (unfold_locales, goal_cases)
  case (1 I seen rest limit)
  then show ?case
    using diagnostic_pages.page_next [of "im_diagnostics I" seen rest limit]
    by (simp add: diagnostic_family_def after_rows_def sound_source_def source_diagnostics_def limit_ok_def)
next
  case (2 I seen ds rest)
  then show ?case
    using diagnostic_pages.middle_finds [of "im_diagnostics I" seen ds rest]
    by (simp add: diagnostic_family_def sound_source_def source_diagnostics_def)
next
  case (3 I ms archive seen rest limit)
  then obtain s where "held (im_archive_env I) s" "fst s = archive" "held_diagnostics s = seen @ rest" by (auto elim: contents_heldE)
  with 3 show ?case
    using archived_diagnostics.page_next [of "im_archive_env I" s seen rest limit]
    by (simp add: diagnostic_family_def after_rows_def limit_ok_def)
next
  case (4 I ms archive seen ds rest)
  then obtain s where "held (im_archive_env I) s" "fst s = archive" "held_diagnostics s = seen @ ds @ rest" by (auto elim: contents_heldE)
  with 4 show ?case
    using archived_diagnostics.middle_finds [of "im_archive_env I" s seen ds rest] by (simp add: diagnostic_family_def)
next
  case (5 I ms archive k j n)
  let ?rows = "source_diagnostics I" and ?env = "im_archive_env I"
  let ?batch = "take n (drop j ?rows)"
  from 5(2) obtain ms0 ds0 where held: "archive_holds ?env archive ms0 ds0"
    "ms = sort_key (by_availability m_available_at m_result_id) ms0"
    "take k ?rows = sort_key (by_availability d_available_at d_diagnostic_id) ds0" unfolding contents_def by blast
  have "distinct (map d_diagnostic_id ds0)" using held(1) by (simp add: archive_holds_def)
  note batch = next_batch [OF distinct_source(2) [OF 5(1)] sorted_source(2) held(3) [symmetric] this 5(3), of n]
  have "length ?batch \<le> ARCHIVE_BATCH" using 5(4) by (simp add: ARCHIVE_BATCH_def)
  moreover have "\<forall>d \<in> set ?batch. archivable_diagnostic d"
    using 5(1) by (auto simp: sound_source_def dest: in_set_takeD in_set_dropD)
  ultimately show ?case
    using save_archive_diagnostics_holds [OF held(1) _ _ batch(1)] contentsI [OF _ held(2) [symmetric] batch(2)]
    by (simp add: diagnostic_family_def) metis
qed (simp_all add: diagnostic_family_def split: prod.splits)

end
