(* ===== verification/ImportRun.thy ===== *)
theory ImportRun
  imports ImportContents
begin

text \<open>
  The import as a whole: scanning the source ends with its exact inventory, and from every world
  an interrupted import can leave behind a further run returns, keeps what is confirmed and
  completes unless it is interrupted again or the archived references are unsound.
\<close>

section \<open>The inventory of the source\<close>

definition tally :: "(string, nat) dict \<Rightarrow> string \<Rightarrow> nat" where
  "tally d k = (case dict_get d k of None \<Rightarrow> 0 | Some n \<Rightarrow> n)"

definition inventory_of :: "importer \<Rightarrow> 'r family \<Rightarrow> 'r list \<Rightarrow> corpus_inventory \<Rightarrow> bool" where
  "inventory_of I F ms corpus \<longleftrightarrow>
     ci_count corpus = length ms \<and> ci_corpus_digest corpus = family_digest I F ms \<and>
     tally (ci_counts_by_asset corpus) = count_list (map (fa_asset F) ms) \<and>
     tally (ci_counts_by_category corpus) = count_list (map (fa_category F) ms) \<and>
     ci_max_page_requested corpus = im_page_limit I \<and> int (ci_max_page_hydrated corpus) \<le> im_page_limit I"

lemma tally_empty [simp]: "tally [] k = 0"
  by (simp add: tally_def)

lemma tally_increment: "tally (increment d k') k = tally d k + (if k = k' then 1 else 0)"
  by (simp add: tally_def increment_def)

lemma fold_scan_inventory:
  "ci_count (fold (scan_row I F) ms c) = ci_count c + length ms"
  "ci_corpus_digest (fold (scan_row I F) ms c) = foldl (fold_digest I F) (ci_corpus_digest c) ms"
  "tally (ci_counts_by_asset (fold (scan_row I F) ms c)) k = tally (ci_counts_by_asset c) k + count_list (map (fa_asset F) ms) k"
  "tally (ci_counts_by_category (fold (scan_row I F) ms c)) k = tally (ci_counts_by_category c) k + count_list (map (fa_category F) ms) k"
  by (induction ms arbitrary: c) (simp_all add: scan_row_def tally_increment)

context import_family
begin

lemma scan_family:
  assumes "ready I" and "limit_ok (im_page_limit I)"
  obtains corpus where "scan_source I (family I) = Some (Inr corpus)" and "inventory_of I (family I) (rows I) corpus"
proof -
  obtain h where h: "read_loop (scan_step I (family I)) (None, empty_inventory I) =
      Some (Inr (after_rows (family I) (rows I), (fold (scan_row I (family I)) (rows I) (empty_inventory I))\<lparr>ci_max_page_hydrated := h\<rparr>))"
    "h \<le> nat (im_page_limit I)"
    using scan_loop [OF assms, of 0 "empty_inventory I"] by (auto simp: empty_inventory_def)
  let ?c = "(fold (scan_row I (family I)) (rows I) (empty_inventory I))\<lparr>ci_max_page_hydrated := h\<rparr>"
  have "inventory_of I (family I) (rows I) ?c"
    using h(2) assms(2) unfolding inventory_of_def
    by (simp add: fun_eq_iff fold_scan_inventory fold_scan_keeps family_digest_def limit_ok_def empty_inventory_def le_nat_iff)
  with h(1) show thesis by (intro that [of ?c]) (simp_all add: scan_source_def)
qed

lemma complete_source:
  assumes "ready I" and "limit_ok (im_page_limit I)" and "checkpoint I (family I) (rows I) (length (rows I)) st"
  shows "check_complete_source I (family I) st = Some (Inr ())"
proof -
  from scan_family [OF assms(1,2)] obtain corpus where "scan_source I (family I) = Some (Inr corpus)"
    "inventory_of I (family I) (rows I) corpus" .
  with assms(3) show ?thesis by (simp add: check_complete_source_def checkpoint_def inventory_of_def)
qed

end

section \<open>Resumable worlds\<close>

definition bound :: "importer \<Rightarrow> string \<Rightarrow> string \<Rightarrow> import_state \<Rightarrow> bool" where
  \<comment> \<open>the checkpoint belongs to this source\<close>
  "bound I raw_digest observation_digest st \<longleftrightarrow>
     check_state_binding I st
       (source_fingerprint_of I raw_digest observation_digest
         (family_digest I (metric_family I) (source_metrics I)) (family_digest I (diagnostic_family I) (source_diagnostics I)))
       raw_digest observation_digest = Inr ()"

lemma bound_iff:
  "bound I raw_digest observation_digest st \<longleftrightarrow>
     is_source_workspace_id st = im_workspace_id I \<and>
     is_source_fingerprint st = source_fingerprint_of I raw_digest observation_digest
       (family_digest I (metric_family I) (source_metrics I)) (family_digest I (diagnostic_family I) (source_diagnostics I)) \<and>
     is_raw_digest st = raw_digest \<and> is_observation_digest st = observation_digest \<and>
     is_staging_id st = im_staging_id I \<and> is_page_limit st = im_page_limit I \<and> is_complete st = (is_phase st = COMPLETE)"
  unfolding bound_def check_state_binding_def by (auto split: if_splits)

definition position :: "importer \<Rightarrow> string \<Rightarrow> string \<Rightarrow> nat \<Rightarrow> nat \<Rightarrow> import_state \<Rightarrow> bool" where
  \<comment> \<open>the checkpoint confirms no more than the \<open>k\<close> metrics and \<open>k'\<close> diagnostics archived, in the order of the phases\<close>
  "position I raw_digest observation_digest k k' st \<longleftrightarrow>
     bound I raw_digest observation_digest st \<and>
     (\<exists>n n'. n \<le> k \<and> n' \<le> k' \<and> checkpoint I (metric_family I) (source_metrics I) n st \<and>
       checkpoint I (diagnostic_family I) (source_diagnostics I) n' st \<and>
       (is_phase st = METRICS \<longrightarrow> n' = 0) \<and> (is_phase st \<noteq> METRICS \<longrightarrow> n = length (source_metrics I)) \<and>
       (is_phase st \<in> {VERIFICATION, COMPLETE} \<longrightarrow> n' = length (source_diagnostics I)))"

definition archived :: "importer \<Rightarrow> bool set \<Rightarrow> nat \<Rightarrow> nat \<Rightarrow> import_world \<Rightarrow> bool" where
  "archived I fs k k' w \<longleftrightarrow>
     k \<le> length (source_metrics I) \<and> k' \<le> length (source_diagnostics I) \<and>
     contents I (iw_archive w) (take k (source_metrics I)) (take k' (source_diagnostics I)) \<and> set (iw_faults w) \<subseteq> fs"

definition saved :: "importer \<Rightarrow> string \<Rightarrow> string \<Rightarrow> bool set \<Rightarrow> import_state \<Rightarrow> import_world \<Rightarrow> bool" where
  "saved I raw_digest observation_digest fs st w \<longleftrightarrow>
     iw_state w = Some st \<and> (\<exists>k k'. archived I fs k k' w \<and> position I raw_digest observation_digest k k' st)"

definition foreign :: "importer \<Rightarrow> string \<Rightarrow> string \<Rightarrow> import_state \<Rightarrow> import_world \<Rightarrow> bool" where
  \<comment> \<open>a checkpoint of another source, which this import may replace and preserve\<close>
  "foreign I raw_digest observation_digest st w \<longleftrightarrow>
     iw_state w = Some st \<and> im_allow_source_transition I \<and> \<not> bound I raw_digest observation_digest st \<and>
     (\<forall>kept. dict_get (iw_preserved w) (im_state_hash I st) = Some kept \<longrightarrow> kept = st)"

definition resumable :: "importer \<Rightarrow> string \<Rightarrow> string \<Rightarrow> bool set \<Rightarrow> import_world \<Rightarrow> bool" where
  "resumable I raw_digest observation_digest fs w \<longleftrightarrow>
     (\<exists>k k'. archived I fs k k' w) \<and>
     (case iw_state w of
        None \<Rightarrow> True
      | Some st \<Rightarrow> saved I raw_digest observation_digest fs st w \<or> foreign I raw_digest observation_digest st w)"

definition import_error :: "importer \<Rightarrow> string \<Rightarrow> string \<Rightarrow> bool set \<Rightarrow> py_error \<Rightarrow> import_world \<Rightarrow> bool" where
  \<comment> \<open>a run that fails was interrupted or found unsound references, and can be resumed\<close>
  "import_error I raw_digest observation_digest fs e w \<longleftrightarrow>
     resumable I raw_digest observation_digest fs w \<and>
     (True \<in> fs \<or> \<not> graph_sound (im_observations I) (source_metrics I) (source_diagnostics I))"

lemma saved_resumable: "saved I raw obs fs st w \<Longrightarrow> resumable I raw obs fs w"
  by (auto simp: resumable_def saved_def)

lemma frame_archived: "frame (archived I fs k k')"
  by (rule frameI) (auto simp: archived_def)

lemma frame_saved: "frame (saved I raw obs fs st)"
  by (rule frameI) (auto simp: saved_def archived_def)

lemma frame_resumable: "frame (resumable I raw obs fs)"
  by (rule frameI) (auto simp: resumable_def saved_def archived_def foreign_def split: option.splits)

lemma resumable_faults: "resumable I raw obs fs w \<Longrightarrow> set (iw_faults w) \<subseteq> fs"
  by (auto simp: resumable_def archived_def)

lemma interrupted: "resumable I raw obs fs w \<Longrightarrow> faulty w \<Longrightarrow> set faults \<subseteq> set (iw_faults w) \<Longrightarrow>
    import_error I raw obs fs e (w\<lparr>iw_faults := faults\<rparr>)"
  unfolding import_error_def faulty_def
  using resumable_faults [of I raw obs fs w] frame_faults [OF frame_resumable, of I raw obs fs w faults] by blast

lemma bound_time [simp]: "bound I raw obs (st\<lparr>is_updated_at := t\<rparr>) = bound I raw obs st"
  by (simp add: bound_iff)

lemma checkpoint_other:
  "checkpoint I (metric_family I) rows n (st\<lparr>is_updated_at := t\<rparr>) = checkpoint I (metric_family I) rows n st"
  "checkpoint I (diagnostic_family I) rows' n (st\<lparr>is_updated_at := t\<rparr>) = checkpoint I (diagnostic_family I) rows' n st"
  "checkpoint I (metric_family I) rows n (st\<lparr>is_phase := p, is_complete := c\<rparr>) = checkpoint I (metric_family I) rows n st"
  "checkpoint I (diagnostic_family I) rows' n (st\<lparr>is_phase := p, is_complete := c\<rparr>) = checkpoint I (diagnostic_family I) rows' n st"
  "checkpoint I (diagnostic_family I) rows' n (fa_set_progress (metric_family I) q st) = checkpoint I (diagnostic_family I) rows' n st"
  "checkpoint I (metric_family I) rows n (fa_set_progress (diagnostic_family I) q st) = checkpoint I (metric_family I) rows n st"
  by (auto simp: checkpoint_def metric_family_def diagnostic_family_def split: prod.splits)

lemma bound_progress:
  "bound I raw obs (fa_set_progress (metric_family I) q st) = bound I raw obs st"
  "bound I raw obs (fa_set_progress (diagnostic_family I) q st) = bound I raw obs st"
  by (auto simp: bound_iff metric_family_def diagnostic_family_def split: prod.splits)

lemma phase_progress:
  "is_phase (fa_set_progress (metric_family I) q st) = is_phase st"
  "is_phase (fa_set_progress (diagnostic_family I) q st) = is_phase st"
  by (auto simp: metric_family_def diagnostic_family_def split: prod.splits)

lemma savedE:
  assumes "saved I raw obs fs st w"
  obtains k k' n n' where "iw_state w = Some st" and "archived I fs k k' w" and "bound I raw obs st" and "n \<le> k" and "n' \<le> k'"
    and "checkpoint I (metric_family I) (source_metrics I) n st" and "checkpoint I (diagnostic_family I) (source_diagnostics I) n' st"
    and "is_phase st = METRICS \<longrightarrow> n' = 0" and "is_phase st \<noteq> METRICS \<longrightarrow> n = length (source_metrics I)"
    and "is_phase st \<in> {VERIFICATION, COMPLETE} \<longrightarrow> n' = length (source_diagnostics I)"
  using assms unfolding saved_def position_def by (elim exE conjE) (rule that)

lemma savedI:
  assumes "iw_state w = Some st" and "archived I fs k k' w" and "bound I raw obs st" and "n \<le> k" and "n' \<le> k'"
    and "checkpoint I (metric_family I) (source_metrics I) n st" and "checkpoint I (diagnostic_family I) (source_diagnostics I) n' st"
    and "is_phase st = METRICS \<longrightarrow> n' = 0" and "is_phase st \<noteq> METRICS \<longrightarrow> n = length (source_metrics I)"
    and "is_phase st \<in> {VERIFICATION, COMPLETE} \<longrightarrow> n' = length (source_diagnostics I)"
  shows "saved I raw obs fs st w"
  unfolding saved_def position_def by (intro conjI exI) (rule assms)+

section \<open>The phases\<close>

lemma next_phase_keeps:
  assumes "clock_aware I" and "frame P" and "\<And>w. P w \<Longrightarrow> resumable I raw obs fs w"
    and "\<And>w t st'. P w \<Longrightarrow> st' = st\<lparr>is_phase := phase, is_complete := finished\<rparr>\<lparr>is_updated_at := t\<rparr> \<Longrightarrow> S st' (w\<lparr>iw_state := Some st'\<rparr>)"
  shows "achieves P (next_phase I phase finished st) S (import_error I raw obs fs)"
proof -
  let ?st = "st\<lparr>is_phase := phase, is_complete := finished\<rparr>"
  have "hoare (\<lambda>w. P w \<and> (\<exists>t. st' = ?st\<lparr>is_updated_at := t\<rparr>)) (write_state st') (\<lambda>_. S st') (import_error I raw obs fs)" for st'
  proof (rule hoare_write)
    show "frame (\<lambda>w. P w \<and> (\<exists>t. st' = ?st\<lparr>is_updated_at := t\<rparr>))"
      by (rule frameI) (auto intro: frameD [OF assms(2)])
  next
    fix w e faults
    assume "P w \<and> (\<exists>t. st' = ?st\<lparr>is_updated_at := t\<rparr>)" "faulty w" "set faults \<subseteq> set (iw_faults w)"
    then show "import_error I raw obs fs e (w\<lparr>iw_faults := faults\<rparr>)" using assms(3) interrupted by blast
  qed (use assms(4) in blast)
  then show ?thesis
    unfolding next_phase_def
    by (intro achieves_run hoare_bind [OF hoare_updated [OF assms(1,2)]], rule hoare_bind) (auto intro: hoare_pure)
qed

definition phase_done :: "importer \<Rightarrow> string \<Rightarrow> string \<Rightarrow> bool set \<Rightarrow> import_phase \<Rightarrow> import_state \<Rightarrow> import_world \<Rightarrow> bool" where
  \<comment> \<open>all rows of the phase of the checkpoint are confirmed\<close>
  "phase_done I raw obs fs phase st w \<longleftrightarrow>
     saved I raw obs fs st w \<and> is_phase st = phase \<and> \<not> is_complete st \<and>
     (phase = METRICS \<longrightarrow> checkpoint I (metric_family I) (source_metrics I) (length (source_metrics I)) st) \<and>
     (phase = DIAGNOSTICS \<longrightarrow> checkpoint I (diagnostic_family I) (source_diagnostics I) (length (source_diagnostics I)) st)"

lemma frame_done: "frame (phase_done I raw obs fs phase st)"
  by (rule frameI) (auto simp: phase_done_def intro: frameD [OF frame_saved])

lemma saved_complete: "saved I raw obs fs st w \<Longrightarrow> is_complete st \<longleftrightarrow> is_phase st = COMPLETE"
  by (auto simp: saved_def position_def bound_iff)

lemma import_metrics_done:
  assumes "sound_source I" and "limit_ok (im_page_limit I)" and "clock_aware I"
  shows "achieves (\<lambda>w. saved I raw obs fs st w \<and> is_phase st = METRICS) (import_metrics I st)
    (\<lambda>s. phase_done I raw obs fs METRICS (fst s)) (import_error I raw obs fs)"
proof -
  let ?Q = "\<lambda>st. bound I raw obs st \<and> is_phase st = METRICS \<and> checkpoint I (diagnostic_family I) (source_diagnostics I) 0 st"
    and ?ds = "\<lambda>k'. take k' (source_diagnostics I)"
  let ?W = "\<lambda>k'. family_world I (metric_family I) (source_metrics I) (\<lambda>archive ms. contents I archive ms (?ds k')) ?Q fs"
  have untouched: "untouched (metric_family I) ?Q"
    by (simp add: untouched_def checkpoint_other bound_progress phase_progress)
  have enter: "\<exists>k'. (\<exists>n k. ?W k' st n k w) \<and> k' \<le> length (source_diagnostics I)" if "saved I raw obs fs st w \<and> is_phase st = METRICS" for w
  proof -
    from conjunct1 [OF that] obtain k k' n n' where "iw_state w = Some st" "archived I fs k k' w" "bound I raw obs st" "n \<le> k"
      "checkpoint I (metric_family I) (source_metrics I) n st" "checkpoint I (diagnostic_family I) (source_diagnostics I) n' st"
      "is_phase st = METRICS \<longrightarrow> n' = 0" by (rule savedE)
    with that have "?W k' st n k w" "k' \<le> length (source_diagnostics I)" by (auto simp: family_world_def archived_def)
    then show ?thesis by blast
  qed
  have leave: "saved I raw obs fs st' w \<and> ?Q st'" if w: "?W k' st' n k w" "k' \<le> length (source_diagnostics I)" for k' st' n k w
  proof
    show "?Q st'" using w by (simp add: family_world_def)
    then show "saved I raw obs fs st' w"
      using w by (intro savedI [where k = k and k' = k' and n = n and n' = 0]) (simp_all add: family_world_def archived_def)
  qed
  have "achieves (\<lambda>w. (\<exists>n k. ?W k' st n k w) \<and> k' \<le> length (source_diagnostics I)) (import_metrics I st)
      (\<lambda>s. phase_done I raw obs fs METRICS (fst s)) (import_error I raw obs fs)" for k'
  proof (rule achieves_assume)
    assume k': "k' \<le> length (source_diagnostics I)"
    show "achieves (\<lambda>w. \<exists>n k. ?W k' st n k w) (import_metrics I st) (\<lambda>s. phase_done I raw obs fs METRICS (fst s)) (import_error I raw obs fs)"
      unfolding import_metrics_def
    proof (rule achieves_conseq [OF metric_rows.import_rows_resumes [OF assms untouched, where other = "?ds k'" and fs = fs]])
      fix s w assume w: "?W k' (fst s) (length (source_metrics I)) (length (source_metrics I)) w"
      note saved = leave [OF w k']
      then show "phase_done I raw obs fs METRICS (fst s) w"
        using w saved_complete [of I raw obs fs "fst s" w] by (auto simp: phase_done_def family_world_def)
    next
      fix e w assume "resumable_family I (metric_family I) (source_metrics I) (\<lambda>archive ms. contents I archive ms (?ds k')) ?Q fs e w"
      then show "import_error I raw obs fs e w"
        using leave [OF _ k'] saved_resumable unfolding resumable_family_def import_error_def by blast
    qed
  qed
  then show ?thesis by (rule achieves_conseq [OF achieves_ex]) (rule enter)
qed

lemma import_diagnostics_done:
  assumes "sound_source I" and "limit_ok (im_page_limit I)" and "clock_aware I"
  shows "achieves (\<lambda>w. saved I raw obs fs st w \<and> is_phase st = DIAGNOSTICS) (import_diagnostics I st)
    (\<lambda>s. phase_done I raw obs fs DIAGNOSTICS (fst s)) (import_error I raw obs fs)"
proof -
  let ?Q = "\<lambda>st. bound I raw obs st \<and> is_phase st = DIAGNOSTICS \<and>
      checkpoint I (metric_family I) (source_metrics I) (length (source_metrics I)) st"
  let ?W = "family_world I (diagnostic_family I) (source_diagnostics I) (\<lambda>archive ds. contents I archive (source_metrics I) ds) ?Q fs"
  have untouched: "untouched (diagnostic_family I) ?Q"
    by (simp add: untouched_def checkpoint_other bound_progress phase_progress)
  have enter: "\<exists>n k. ?W st n k w" if "saved I raw obs fs st w \<and> is_phase st = DIAGNOSTICS" for w
  proof -
    from conjunct1 [OF that] obtain k k' n n' where facts: "iw_state w = Some st" "archived I fs k k' w" "bound I raw obs st" "n \<le> k" "n' \<le> k'"
      "checkpoint I (metric_family I) (source_metrics I) n st" "checkpoint I (diagnostic_family I) (source_diagnostics I) n' st"
      "is_phase st \<noteq> METRICS \<longrightarrow> n = length (source_metrics I)" by (rule savedE)
    with that have "k = length (source_metrics I)" "n = length (source_metrics I)" by (simp_all add: archived_def)
    with facts that have "?W st n' k' w" by (simp add: family_world_def archived_def)
    then show ?thesis by blast
  qed
  have leave: "saved I raw obs fs st' w \<and> ?Q st'" if w: "?W st' n k w" for st' n k w
  proof
    show "?Q st'" using w by (simp add: family_world_def)
    then show "saved I raw obs fs st' w"
      using w by (intro savedI [where k = "length (source_metrics I)" and k' = k and n = "length (source_metrics I)" and n' = n])
        (simp_all add: family_world_def archived_def)
  qed
  show ?thesis
    unfolding import_diagnostics_def
  proof (rule achieves_conseq [OF diagnostic_rows.import_rows_resumes [OF assms untouched, where other = "source_metrics I" and fs = fs]])
    fix w assume "saved I raw obs fs st w \<and> is_phase st = DIAGNOSTICS"
    then show "\<exists>n k. ?W st n k w" by (rule enter)
  next
    fix s w assume w: "?W (fst s) (length (source_diagnostics I)) (length (source_diagnostics I)) w"
    note saved = leave [OF w]
    then show "phase_done I raw obs fs DIAGNOSTICS (fst s) w"
      using w saved_complete [of I raw obs fs "fst s" w] by (auto simp: phase_done_def family_world_def)
  next
    fix e w assume "resumable_family I (diagnostic_family I) (source_diagnostics I) (\<lambda>archive ds. contents I archive (source_metrics I) ds) ?Q fs e w"
    then show "import_error I raw obs fs e w"
      using leave saved_resumable unfolding resumable_family_def import_error_def by blast
  qed
qed


lemma done_resumable: "phase_done I raw obs fs phase st w \<Longrightarrow> resumable I raw obs fs w"
  using saved_resumable by (auto simp: phase_done_def)

lemma leave_phase:
  assumes "phase_done I raw obs fs phase st w" and "phase = METRICS \<and> phase' = DIAGNOSTICS \<or> phase = DIAGNOSTICS \<and> phase' = VERIFICATION"
    and "st' = st\<lparr>is_phase := phase', is_complete := is_complete st\<rparr>\<lparr>is_updated_at := t\<rparr>"
  shows "saved I raw obs fs st' (w\<lparr>iw_state := Some st'\<rparr>)"
proof -
  from assms(1) have sv: "saved I raw obs fs st w" and st: "is_phase st = phase" "\<not> is_complete st"
    and last: "phase = METRICS \<longrightarrow> checkpoint I (metric_family I) (source_metrics I) (length (source_metrics I)) st"
      "phase = DIAGNOSTICS \<longrightarrow> checkpoint I (diagnostic_family I) (source_diagnostics I) (length (source_diagnostics I)) st"
    by (auto simp: phase_done_def)
  from sv obtain k k' n n' where facts: "archived I fs k k' w" "bound I raw obs st" "n \<le> k" "n' \<le> k'"
      "checkpoint I (metric_family I) (source_metrics I) n st" "checkpoint I (diagnostic_family I) (source_diagnostics I) n' st"
      "is_phase st = METRICS \<longrightarrow> n' = 0" "is_phase st \<noteq> METRICS \<longrightarrow> n = length (source_metrics I)" by (rule savedE)
  have unique: "checkpoint I F rows a st \<Longrightarrow> checkpoint I F rows b st \<Longrightarrow> a = b" for F rows a b
    by (simp add: checkpoint_def)
  have "n = length (source_metrics I)" and "phase = DIAGNOSTICS \<longrightarrow> n' = length (source_diagnostics I)"
    using assms(2) st last facts(5,6,8) unique by (metis import_phase.distinct(1))+
  moreover have "bound I raw obs st'"
    using facts(2) st assms(2,3) by (auto simp: bound_iff)
  ultimately show ?thesis
    using facts assms(2,3) st
    by (intro savedI [where k = k and k' = k' and n = n and n' = n']) (auto simp: archived_def checkpoint_other)
qed

lemma metric_phase_keeps:
  assumes "sound_source I" and "limit_ok (im_page_limit I)" and "clock_aware I"
  shows "achieves (saved I raw obs fs st) (metric_phase I st)
    (\<lambda>s w. saved I raw obs fs (fst s) w \<and> is_phase (fst s) \<noteq> METRICS) (import_error I raw obs fs)"
proof (cases "is_phase st = METRICS")
  case False
  then show ?thesis by (auto simp: metric_phase_def intro: achieves_pure)
next
  case True
  have step: "achieves (phase_done I raw obs fs METRICS st') (next_phase I DIAGNOSTICS (is_complete st') st')
      (\<lambda>st' w. saved I raw obs fs st' w \<and> is_phase st' \<noteq> METRICS) (import_error I raw obs fs)" for st'
    by (rule next_phase_keeps [OF assms(3) frame_done done_resumable]) (auto intro: leave_phase)
  have start: "achieves (saved I raw obs fs st) (import_metrics I st) (\<lambda>s. phase_done I raw obs fs METRICS (fst s)) (import_error I raw obs fs)"
    by (rule achieves_conseq [OF import_metrics_done [OF assms]]) (simp_all add: True)
  show ?thesis
    unfolding metric_phase_def if_P [OF True]
    by (rule achieves_bind [OF start], rule achieves_split, simp only: fst_conv, rule achieves_bind [OF step], rule achieves_pure) simp
qed

lemma diagnostic_phase_keeps:
  assumes "sound_source I" and "limit_ok (im_page_limit I)" and "clock_aware I"
  shows "achieves (\<lambda>w. saved I raw obs fs st w \<and> is_phase st \<noteq> METRICS) (diagnostic_phase I st)
    (\<lambda>s w. saved I raw obs fs (fst s) w \<and> is_phase (fst s) \<in> {VERIFICATION, COMPLETE}) (import_error I raw obs fs)"
proof (cases "is_phase st = DIAGNOSTICS")
  case False
  then have "is_phase st \<noteq> METRICS \<Longrightarrow> is_phase st \<in> {VERIFICATION, COMPLETE}" by (cases "is_phase st") simp_all
  with False show ?thesis by (auto simp: diagnostic_phase_def intro: achieves_pure)
next
  case True
  have step: "achieves (phase_done I raw obs fs DIAGNOSTICS st') (next_phase I VERIFICATION (is_complete st') st')
      (\<lambda>st' w. saved I raw obs fs st' w \<and> is_phase st' \<in> {VERIFICATION, COMPLETE}) (import_error I raw obs fs)" for st'
    by (rule next_phase_keeps [OF assms(3) frame_done done_resumable]) (auto intro: leave_phase)
  have start: "achieves (\<lambda>w. saved I raw obs fs st w \<and> is_phase st \<noteq> METRICS) (import_diagnostics I st)
      (\<lambda>s. phase_done I raw obs fs DIAGNOSTICS (fst s)) (import_error I raw obs fs)"
    by (rule achieves_conseq [OF import_diagnostics_done [OF assms]]) (simp_all add: True)
  show ?thesis
    unfolding diagnostic_phase_def if_P [OF True]
    by (rule achieves_bind [OF start], rule achieves_split, simp only: fst_conv, rule achieves_bind [OF step], rule achieves_pure) simp
qed

section \<open>Final verification\<close>

definition ends :: "importer \<Rightarrow> string \<Rightarrow> string \<Rightarrow> bool set \<Rightarrow> import_state \<Rightarrow> import_world \<Rightarrow> bool" where
  \<comment> \<open>the checkpoint confirms everything\<close>
  "ends I raw obs fs st w \<longleftrightarrow> saved I raw obs fs st w \<and> is_phase st \<in> {VERIFICATION, COMPLETE}"

lemma ends_contents: "ends I raw obs fs st w \<Longrightarrow> contents I (iw_archive w) (source_metrics I) (source_diagnostics I)"
  by (auto simp: ends_def archived_def elim!: savedE)

lemma frame_ends: "frame (ends I raw obs fs st)"
  by (rule frameI) (auto simp: ends_def intro: frameD [OF frame_saved])

lemma ends_resumable: "ends I raw obs fs st w \<Longrightarrow> resumable I raw obs fs w"
  by (auto simp: ends_def intro: saved_resumable)


lemma verify_complete_runs:
  assumes "contents I (iw_archive w) ms ds"
  shows "verify_archive_complete I w = Some (verify_historical_archive (im_observations I) (iw_archive w), w)"
proof -
  from assms obtain ms0 ds0 seqs segs where "archive_parts (im_archive_env I) (iw_archive w) ms0 ds0 seqs segs"
    unfolding contents_def archive_holds_def by blast
  then have "validate_archive_sequences (iw_archive w) = Inr ()" by (rule sequences_valid)
  then show ?thesis
    unfolding verify_archive_complete_def verify_rows_def
    by (simp add: bind_a_def read_a_def pure_a_def metric_rows.family_rows_all [OF assms] diagnostic_rows.family_rows_all [OF assms])
qed

lemma verified_source:
  assumes "contents I archive (source_metrics I) (source_diagnostics I)"
  shows "(\<exists>summary. verify_historical_archive (im_observations I) archive = Inr summary) \<longleftrightarrow>
    graph_sound (im_observations I) (source_metrics I) (source_diagnostics I)"
proof -
  from assms obtain ms0 ds0 where held: "archive_holds (im_archive_env I) archive ms0 ds0"
    "source_metrics I = sort_key (by_availability m_available_at m_result_id) ms0"
    "source_diagnostics I = sort_key (by_availability d_available_at d_diagnostic_id) ds0" unfolding contents_def by blast
  then have "set ms0 = set (source_metrics I)" "set ds0 = set (source_diagnostics I)" by simp_all
  then show ?thesis unfolding validation_iff [OF held(1)] by (rule graph_sound_set)
qed

definition finished :: "importer \<Rightarrow> string \<Rightarrow> string \<Rightarrow> bool set \<Rightarrow> import_state \<Rightarrow> import_world \<Rightarrow> bool" where
  "finished I raw obs fs st w \<longleftrightarrow>
     saved I raw obs fs st w \<and> is_phase st = COMPLETE \<and> graph_sound (im_observations I) (source_metrics I) (source_diagnostics I) \<and>
     contents I (iw_archive w) (source_metrics I) (source_diagnostics I)"

lemma complete_checked:
  "achieves (ends I raw obs fs st) (verify_archive_complete I) (\<lambda>_ w. ends I raw obs fs st w \<and> graph_sound (im_observations I) (source_metrics I) (source_diagnostics I)) (import_error I raw obs fs)"
proof -
  have "\<exists>r w'. verify_archive_complete I w = Some (r, w') \<and>
      (case r of Inl e \<Rightarrow> import_error I raw obs fs e w' | Inr x \<Rightarrow> ends I raw obs fs st w' \<and> graph_sound (im_observations I) (source_metrics I) (source_diagnostics I))"
    if "ends I raw obs fs st w" for w
    using verify_complete_runs [OF ends_contents [OF that]] verified_source [OF ends_contents [OF that]] that ends_resumable [OF that]
    by (cases "verify_historical_archive (im_observations I) (iw_archive w)") (auto simp: import_error_def)
  then show ?thesis by (simp add: achieves_def)
qed

lemma leave_verification:
  assumes "ends I raw obs fs st w \<and> graph_sound (im_observations I) (source_metrics I) (source_diagnostics I)" and "st' = st\<lparr>is_phase := COMPLETE, is_complete := True\<rparr>\<lparr>is_updated_at := t\<rparr>"
  shows "finished I raw obs fs st' (w\<lparr>iw_state := Some st'\<rparr>)"
proof -
  from assms(1) have sv: "saved I raw obs fs st w" and phase: "is_phase st \<in> {VERIFICATION, COMPLETE}"
    and here: "graph_sound (im_observations I) (source_metrics I) (source_diagnostics I)" "contents I (iw_archive w) (source_metrics I) (source_diagnostics I)"
    using ends_contents [of I raw obs fs st w] by (auto simp: ends_def)
  from sv obtain k k' n n' where facts: "archived I fs k k' w" "bound I raw obs st" "n \<le> k" "n' \<le> k'"
      "checkpoint I (metric_family I) (source_metrics I) n st" "checkpoint I (diagnostic_family I) (source_diagnostics I) n' st"
      "is_phase st \<noteq> METRICS \<longrightarrow> n = length (source_metrics I)" "is_phase st \<in> {VERIFICATION, COMPLETE} \<longrightarrow> n' = length (source_diagnostics I)"
    by (rule savedE)
  have "bound I raw obs st'" using facts(2) assms(2) by (auto simp: bound_iff)
  then have "saved I raw obs fs st' (w\<lparr>iw_state := Some st'\<rparr>)"
    using facts phase assms(2)
    by (intro savedI [where k = k and k' = k' and n = n and n' = n']) (auto simp: archived_def checkpoint_other)
  with here assms(2) show ?thesis by (simp add: finished_def)
qed

lemma verification_phase_keeps:
  assumes "sound_source I" and "limit_ok (im_page_limit I)" and "clock_aware I"
    and "inventory_of I (metric_family I) (source_metrics I) metric_inventory"
    and "inventory_of I (diagnostic_family I) (source_diagnostics I) diagnostic_inventory"
  shows "achieves (ends I raw obs fs st) (verification_phase I metric_inventory diagnostic_inventory st)
    (finished I raw obs fs) (import_error I raw obs fs)"
proof (cases "is_phase st \<in> {VERIFICATION, COMPLETE}")
  case False
  then show ?thesis by (auto simp: ends_def achieves_def)
next
  case True
  have expected: "ci_count metric_inventory = length (source_metrics I)" "ci_corpus_digest metric_inventory = family_digest I (metric_family I) (source_metrics I)"
    "ci_count diagnostic_inventory = length (source_diagnostics I)"
    "ci_corpus_digest diagnostic_inventory = family_digest I (diagnostic_family I) (source_diagnostics I)"
    using assms(4,5) by (simp_all add: inventory_of_def)
  have fault: "import_error I raw obs fs e (w\<lparr>iw_faults := faults\<rparr>)"
    if "ends I raw obs fs st w" "faulty w" "set faults \<subseteq> set (iw_faults w)" for w e faults
    using interrupted [OF ends_resumable] that by blast
  have metrics: "achieves (ends I raw obs fs st) (verify_inventory I (metric_family I) metric_inventory injects)
      (\<lambda>_. ends I raw obs fs st) (import_error I raw obs fs)" for injects
    by (rule metric_rows.verify_inventory_keeps [OF assms(1,2) frame_ends])
      (use ends_contents fault expected in blast)+
  have diagnostics: "achieves (ends I raw obs fs st) (verify_inventory I (diagnostic_family I) diagnostic_inventory injects)
      (\<lambda>_. ends I raw obs fs st) (import_error I raw obs fs)" for injects
    by (rule diagnostic_rows.verify_inventory_keeps [OF assms(1,2) frame_ends])
      (use ends_contents fault expected in blast)+
  have frame: "frame (\<lambda>w. ends I raw obs fs st w \<and> graph_sound (im_observations I) (source_metrics I) (source_diagnostics I))"
    by (rule frameI) (auto intro: frameD [OF frame_ends])
  have "achieves (\<lambda>w. ends I raw obs fs st w \<and> graph_sound (im_observations I) (source_metrics I) (source_diagnostics I)) (if is_phase st \<noteq> COMPLETE then next_phase I COMPLETE True st else pure_a (Inr st))
      (finished I raw obs fs) (import_error I raw obs fs)"
  proof (cases "is_phase st = COMPLETE")
    case True
    have "finished I raw obs fs st w" if "ends I raw obs fs st w \<and> graph_sound (im_observations I) (source_metrics I) (source_diagnostics I)" for w
      using that ends_contents [of I raw obs fs st w] True by (simp add: finished_def ends_def)
    with True show ?thesis by (simp add: achieves_pure)
  next
    case False
    have "achieves (\<lambda>w. ends I raw obs fs st w \<and> graph_sound (im_observations I) (source_metrics I) (source_diagnostics I)) (next_phase I COMPLETE True st) (finished I raw obs fs) (import_error I raw obs fs)"
      by (rule next_phase_keeps [OF assms(3) frame]) (auto intro: ends_resumable leave_verification)
    with False show ?thesis by simp
  qed
  then show ?thesis
    unfolding verification_phase_def if_P [OF True]
    by (intro achieves_bind [OF metrics] achieves_bind [OF diagnostics] achieves_bind [OF complete_checked])
qed


section \<open>Resuming\<close>

definition starts :: "importer \<Rightarrow> string \<Rightarrow> string \<Rightarrow> import_state \<Rightarrow> bool" where
  "starts I raw obs st \<longleftrightarrow> bound I raw obs st \<and> is_phase st = METRICS \<and>
     checkpoint I (metric_family I) (source_metrics I) 0 st \<and> checkpoint I (diagnostic_family I) (source_diagnostics I) 0 st"

definition fingerprint :: "importer \<Rightarrow> string \<Rightarrow> string \<Rightarrow> string" where
  "fingerprint I raw obs = source_fingerprint_of I raw obs
     (family_digest I (metric_family I) (source_metrics I)) (family_digest I (diagnostic_family I) (source_diagnostics I))"

lemma initial_starts:
  assumes "clock_aware I" and "frame P"
  shows "hoare P (initial_state I (fingerprint I raw obs) raw obs) (\<lambda>st w. P w \<and> starts I raw obs st) E"
  unfolding initial_state_def
  by (rule hoare_bind [OF hoare_now [OF assms]], rule hoare_pure)
     (simp add: starts_def bound_iff fingerprint_def checkpoint_def family_digest_def metric_family_def diagnostic_family_def)

lemma fresh_saved:
  assumes "clock_aware I"
  shows "hoare (resumable I raw obs fs) (bind_c (initial_state I (fingerprint I raw obs) raw obs) (\<lambda>st. bind_c (write_state st) (\<lambda>_. pure_c (Inr st))))
    (saved I raw obs fs) (import_error I raw obs fs)"
proof (rule hoare_bind [OF initial_starts [OF assms frame_resumable]], rule hoare_bind)
  fix st
  show "hoare (\<lambda>w. resumable I raw obs fs w \<and> starts I raw obs st) (write_state st) (\<lambda>_. saved I raw obs fs st) (import_error I raw obs fs)"
  proof (rule hoare_write)
    show "frame (\<lambda>w. resumable I raw obs fs w \<and> starts I raw obs st)"
      by (rule frameI) (auto intro: frameD [OF frame_resumable])
  next
    fix w assume w: "resumable I raw obs fs w \<and> starts I raw obs st"
    then obtain k k' where "archived I fs k k' w" by (auto simp: resumable_def)
    with w show "saved I raw obs fs st (w\<lparr>iw_state := Some st\<rparr>)"
      by (intro savedI [where k = k and k' = k' and n = 0 and n' = 0]) (simp_all add: archived_def starts_def)
  qed (use interrupted in blast)
qed (auto intro: hoare_pure)

lemma preserved_resumable:
  "hoare (\<lambda>w. resumable I raw obs fs w \<and> foreign I raw obs st w) (archive_historic_state I st) (\<lambda>_. resumable I raw obs fs) E"
proof (rule hoareI)
  fix w assume w: "resumable I raw obs fs w \<and> foreign I raw obs st w"
  then have "foreign I raw obs st (w\<lparr>iw_preserved := dict_set (iw_preserved w) (im_state_hash I st) st\<rparr>)"
    by (auto simp: foreign_def)
  with w have "resumable I raw obs fs (w\<lparr>iw_preserved := dict_set (iw_preserved w) (im_state_hash I st) st\<rparr>)"
    by (auto simp: resumable_def archived_def foreign_def)
  with w show "case archive_historic_state I st w of (Inl e, w') \<Rightarrow> E e w' | (Inr x, w') \<Rightarrow> resumable I raw obs fs w'"
    by (auto simp: archive_historic_state_def foreign_def split: option.splits)
qed

lemma saved_prefixes:
  assumes "sound_source I" and "limit_ok (im_page_limit I)" and "saved I raw obs fs st w"
  shows "validate_confirmed_prefixes I st (iw_archive w) w = Some (Inr (), w)"
proof -
  from assms(3) obtain k k' n n' where facts: "archived I fs k k' w" "bound I raw obs st" "n \<le> k" "n' \<le> k'"
    "checkpoint I (metric_family I) (source_metrics I) n st" "checkpoint I (diagnostic_family I) (source_diagnostics I) n' st"
    "is_phase st = METRICS \<longrightarrow> n' = 0" "is_phase st \<noteq> METRICS \<longrightarrow> n = length (source_metrics I)"
    "is_phase st \<in> {VERIFICATION, COMPLETE} \<longrightarrow> n' = length (source_diagnostics I)" by (rule savedE)
  have held: "contents I (iw_archive w) (take k (source_metrics I)) (take k' (source_diagnostics I))"
    using facts(1) by (simp add: archived_def)
  note prefixes = metric_rows.confirmed_prefix [OF assms(1,2) held facts(5,3)]
    diagnostic_rows.confirmed_prefix [OF assms(1,2) held facts(6,4)]
  have empty: "is_phase st = METRICS \<Longrightarrow> is_diagnostic_count st = 0 \<and> is_diagnostic_cursor st = None \<and> is_diagnostic_digest st = EMPTY_DIGEST I"
    using facts(6,7) by (simp add: checkpoint_def diagnostic_family_def family_digest_def)
  have metrics: "is_phase st \<noteq> METRICS \<Longrightarrow> check_complete_source I (metric_family I) st = Some (Inr ())"
    using metric_rows.complete_source [OF assms(1,2)] facts(5,8) by simp
  have diagnostics: "is_phase st \<in> {VERIFICATION, COMPLETE} \<Longrightarrow> check_complete_source I (diagnostic_family I) st = Some (Inr ())"
    using diagnostic_rows.complete_source [OF assms(1,2)] facts(6,9) by simp
  show ?thesis
    unfolding validate_confirmed_prefixes_def prefixes
    using empty metrics diagnostics by (cases "is_phase st") (simp_all add: pure_a_def read_a_def)
qed

lemma resume_state_keeps:
  assumes "sound_source I" and "limit_ok (im_page_limit I)" and "clock_aware I"
  shows "achieves (resumable I raw obs fs) (resume_state I (fingerprint I raw obs) raw obs) (saved I raw obs fs) (import_error I raw obs fs)"
proof -
  note fresh = achieves_run [OF fresh_saved [OF assms(3), of raw obs fs]]
  have replace: "achieves (\<lambda>w. resumable I raw obs fs w \<and> foreign I raw obs st w)
      (run_c (bind_c (archive_historic_state I st) (\<lambda>_. bind_c (initial_state I (fingerprint I raw obs) raw obs)
        (\<lambda>st. bind_c (write_state st) (\<lambda>_. pure_c (Inr st)))))) (saved I raw obs fs) (import_error I raw obs fs)" for st
    by (rule achieves_run [OF hoare_bind [OF preserved_resumable fresh_saved [OF assms(3)]]])
  have "\<exists>r w'. resume_state I (fingerprint I raw obs) raw obs w = Some (r, w') \<and>
      (case r of Inl e \<Rightarrow> import_error I raw obs fs e w' | Inr st \<Rightarrow> saved I raw obs fs st w')" if w: "resumable I raw obs fs w" for w
  proof (cases "iw_state w")
    case None
    with w fresh show ?thesis by (auto simp: resume_state_def achieves_def)
  next
    case (Some st)
    with w consider "saved I raw obs fs st w" | "foreign I raw obs st w" by (auto simp: resumable_def)
    then show ?thesis
    proof cases
      case 1
      then have "bound I raw obs st" by (auto elim: savedE)
      then have "check_state_binding I st (fingerprint I raw obs) raw obs = Inr ()" by (simp add: bound_def fingerprint_def)
      with Some 1 show ?thesis by (simp add: resume_state_def saved_prefixes [OF assms(1,2) 1] bind_a_def pure_a_def)
    next
      case 2
      then obtain e where "check_state_binding I st (fingerprint I raw obs) raw obs = Inl e"
        by (cases "check_state_binding I st (fingerprint I raw obs) raw obs") (auto simp: foreign_def bound_def fingerprint_def)
      with Some 2 w replace [of st] show ?thesis by (simp add: resume_state_def achieves_def foreign_def)
    qed
  qed
  then show ?thesis by (simp add: achieves_def)
qed


section \<open>The run\<close>

lemma run_import_keeps:
  assumes "sound_source I" and "limit_ok (im_page_limit I)" and "clock_aware I" and "im_prerequisites I = Inr (raw, obs)"
  shows "achieves (resumable I raw obs fs) (run_import I)
    (\<lambda>summary w. (\<exists>st. finished I raw obs fs st w) \<and>
       sm_metric_count summary = length (source_metrics I) \<and> sm_diagnostic_count summary = length (source_diagnostics I) \<and>
       sm_metric_digest summary = family_digest I (metric_family I) (source_metrics I) \<and>
       sm_diagnostic_digest summary = family_digest I (diagnostic_family I) (source_diagnostics I)) (import_error I raw obs fs)"
proof -
  from metric_rows.scan_family [OF assms(1,2)] obtain metric_inventory where metrics:
    "scan_source I (metric_family I) = Some (Inr metric_inventory)"
    "inventory_of I (metric_family I) (source_metrics I) metric_inventory" .
  from diagnostic_rows.scan_family [OF assms(1,2)] obtain diagnostic_inventory where diagnostics:
    "scan_source I (diagnostic_family I) = Some (Inr diagnostic_inventory)"
    "inventory_of I (diagnostic_family I) (source_diagnostics I) diagnostic_inventory" .
  have digests: "ci_corpus_digest metric_inventory = family_digest I (metric_family I) (source_metrics I)"
    "ci_corpus_digest diagnostic_inventory = family_digest I (diagnostic_family I) (source_diagnostics I)"
    "ci_count metric_inventory = length (source_metrics I)" "ci_count diagnostic_inventory = length (source_diagnostics I)"
    using metrics(2) diagnostics(2) by (simp_all add: inventory_of_def)
  have "saved I raw obs fs st w \<Longrightarrow> is_phase st = COMPLETE \<Longrightarrow> is_complete st" for st w
    using saved_complete by blast
  then have finish: "finished I raw obs fs st w \<Longrightarrow> is_phase st = COMPLETE \<and> is_complete st" for st w
    by (auto simp: finished_def)
  show ?thesis
    unfolding run_import_def assms(4)
    apply (rule achieves_bind_pure, unfold split_conv)
    apply (rule achieves_bind_read [OF metrics(1)], rule achieves_bind_read [OF diagnostics(1)])
    apply (unfold Let_def digests fingerprint_def [symmetric])
    apply (rule achieves_bind [OF resume_state_keeps [OF assms(1-3)]])
    apply (rule achieves_bind [OF metric_phase_keeps [OF assms(1-3)]], rule achieves_split, simp only: fst_conv, rule achieves_split)
    apply (rule achieves_split)
    apply (rule achieves_bind [OF diagnostic_phase_keeps [OF assms(1-3)]], rule achieves_split, simp only: fst_conv, rule achieves_split)
    apply (rule achieves_split, unfold ends_def [symmetric])
    apply (rule achieves_bind [OF verification_phase_keeps [OF assms(1-3) metrics(2) diagnostics(2)]])
    subgoal by (auto simp: achieves_def pure_a_def dest: finish)
    done
qed


text \<open>
  Property C12. Scanning a source of stored metrics and diagnostics ends: paging by availability and
  identity visits every row exactly once, so the inventory has the number of rows, the digest of
  all rows in order and the exact number of rows of each asset and category, and no page is
  larger than the limit.
\<close>

theorem scan_counts_every_row:
  assumes "sound_source I" and "limit_ok (im_page_limit I)"
  shows "(\<exists>corpus. scan_source I (metric_family I) = Some (Inr corpus) \<and> inventory_of I (metric_family I) (source_metrics I) corpus) \<and>
    (\<exists>corpus. scan_source I (diagnostic_family I) = Some (Inr corpus) \<and> inventory_of I (diagnostic_family I) (source_diagnostics I) corpus)"
  using metric_rows.scan_family [OF assms] diagnostic_rows.scan_family [OF assms] by metis

definition sample_importer :: importer where
  "sample_importer =
     \<lparr>im_metrics = [(5, roundtrip_metric)], im_diagnostics = [], im_archive_env = sample_env,
      im_observations = [(1, (''equity:us:aapl'', 105))], im_page_limit = 256, im_clock = (\<lambda>n. Aware (int n) 0),
      im_allow_source_transition = False, im_workspace_id = ''w'', im_staging_id = ''s'',
      im_prerequisites = Inr (''raw'', ''observations''), im_payload_hash = (\<lambda>d. concat (map snd d)),
      im_state_hash = is_source_fingerprint\<rparr>"

definition sample_world :: import_world where
  "sample_world = \<lparr>iw_archive = empty_archive, iw_state = None, iw_preserved = [], iw_ticks = 0, iw_faults = [False, True]\<rparr>"

lemma sample_rows: "source_metrics sample_importer = [roundtrip_metric]" "source_diagnostics sample_importer = []"
  by (simp_all add: source_metrics_def source_diagnostics_def in_order_def sample_importer_def dict_values_def)

lemma sample_source: "sound_source sample_importer" "limit_ok (im_page_limit sample_importer)"
proof -
  have "m_result_id roundtrip_metric = 5" by (simp add: roundtrip_metric_def witness_v2_metric_def)
  then show "sound_source sample_importer"
    using sample_metric_archivable unfolding sound_source_def sample_rows
    by (simp add: sample_importer_def table_ok_def dict_ok_def dict_get_def)
  show "limit_ok (im_page_limit sample_importer)"
    by (simp add: limit_ok_def sample_importer_def ANALYTICAL_IMPORT_PAGE_LIMIT_def)
qed

theorem scan_counts_every_row_witness:
  "\<exists>corpus. scan_source sample_importer (metric_family sample_importer) = Some (Inr corpus) \<and> ci_count corpus = 1 \<and>
     ci_corpus_digest corpus = '':'' @ m_metric_key roundtrip_metric"
  using conjunct1 [OF scan_counts_every_row [OF sample_source]] unfolding sample_rows
  by (auto simp: inventory_of_def family_digest_def EMPTY_DIGEST_def fold_digest_def extend_digest_def sample_importer_def
      metric_family_def sample_env_def)

text \<open>
  Property C11. An import can be interrupted at every point where the code commits a checkpoint or
  calls its failure injector, and resumed: from every world such an import leaves behind, also
  from the checkpoint of another source that it may replace, a run returns and leaves a resumable
  world; it fails only when it is interrupted again or the references of the source are unsound,
  and otherwise the archive holds exactly the rows of the source, the checkpoint is complete and
  the summary gives the counts and digests of the source.
\<close>

theorem import_resumes:
  assumes "sound_source I" and "limit_ok (im_page_limit I)" and "clock_aware I" and "im_prerequisites I = Inr (raw, obs)"
    and "resumable I raw obs (set (iw_faults w)) w"
  shows "\<exists>r w'. run_import I w = Some (r, w') \<and> resumable I raw obs (set (iw_faults w)) w' \<and>
    (case r of
       Inl e \<Rightarrow> True \<in> set (iw_faults w) \<or> \<not> graph_sound (im_observations I) (source_metrics I) (source_diagnostics I)
     | Inr summary \<Rightarrow>
         graph_sound (im_observations I) (source_metrics I) (source_diagnostics I) \<and>
         contents I (iw_archive w') (source_metrics I) (source_diagnostics I) \<and>
         (\<exists>st. iw_state w' = Some st \<and> is_complete st) \<and>
         sm_metric_count summary = length (source_metrics I) \<and> sm_diagnostic_count summary = length (source_diagnostics I) \<and>
         sm_metric_digest summary = family_digest I (metric_family I) (source_metrics I) \<and>
         sm_diagnostic_digest summary = family_digest I (diagnostic_family I) (source_diagnostics I))"
proof -
  from run_import_keeps [OF assms(1-4), of "set (iw_faults w)"] assms(5) obtain r w' where run: "run_import I w = Some (r, w')"
    "case r of Inl e \<Rightarrow> import_error I raw obs (set (iw_faults w)) e w'
     | Inr summary \<Rightarrow> (\<exists>st. finished I raw obs (set (iw_faults w)) st w') \<and>
       sm_metric_count summary = length (source_metrics I) \<and> sm_diagnostic_count summary = length (source_diagnostics I) \<and>
       sm_metric_digest summary = family_digest I (metric_family I) (source_metrics I) \<and>
       sm_diagnostic_digest summary = family_digest I (diagnostic_family I) (source_diagnostics I)"
    unfolding achieves_def by blast
  have "resumable I raw obs (set (iw_faults w)) w'" "iw_state w' = Some st" "is_complete st"
    if "finished I raw obs (set (iw_faults w)) st w'" for st
  proof -
    from that have "saved I raw obs (set (iw_faults w)) st w'" "is_phase st = COMPLETE" by (simp_all add: finished_def)
    then show "resumable I raw obs (set (iw_faults w)) w'" "iw_state w' = Some st" "is_complete st"
      using saved_complete [of I raw obs "set (iw_faults w)" st w'] by (blast intro: saved_resumable, simp add: saved_def, simp)
  qed
  with run show ?thesis
    by (intro exI [of _ r] exI [of _ w'], cases r) (auto simp: import_error_def finished_def)
qed

theorem import_resumes_witness:
  "\<exists>r w'. run_import sample_importer sample_world = Some (r, w') \<and>
    (\<exists>r2 w2. run_import sample_importer (w'\<lparr>iw_faults := []\<rparr>) = Some (Inr r2, w2) \<and> sm_metric_count r2 = 1 \<and>
      contents sample_importer (iw_archive w2) [roundtrip_metric] [])"
proof -
  let ?I = sample_importer
  have given: "clock_aware ?I" "im_prerequisites ?I = Inr (''raw'', ''observations'')"
    by (simp_all add: clock_aware_def sample_importer_def)
  have "archive_holds (im_archive_env ?I) empty_archive [] []"
    by (rule archive_holds_empty) (simp add: sample_importer_def sample_env_def)
  then have "contents ?I empty_archive [] []" by (rule contentsI) simp_all
  then have "archived ?I {False, True} 0 0 sample_world" by (simp add: archived_def sample_world_def)
  then have start: "resumable ?I ''raw'' ''observations'' (set (iw_faults sample_world)) sample_world"
    by (auto simp: resumable_def sample_world_def)
  from import_resumes [OF sample_source given start] obtain r w' where first: "run_import ?I sample_world = Some (r, w')"
    "resumable ?I ''raw'' ''observations'' (set (iw_faults sample_world)) w'" by blast
  let ?w = "w'\<lparr>iw_faults := []\<rparr>"
  have again: "resumable ?I ''raw'' ''observations'' (set (iw_faults ?w)) ?w"
    using first(2) by (auto simp: resumable_def archived_def saved_def foreign_def split: option.splits)
  have "m_input_observation_ids roundtrip_metric = [1]" "m_input_metric_result_ids roundtrip_metric = []"
    "m_asset_id roundtrip_metric = ''equity:us:aapl''" "m_available_at roundtrip_metric = 110"
    by (simp_all add: roundtrip_metric_def witness_v2_metric_def)
  then have "graph_sound (im_observations ?I) (source_metrics ?I) (source_diagnostics ?I)"
    unfolding sample_rows by (simp add: graph_sound_def observes_def depends_on_def sample_importer_def dict_get_def acyclic_def)
  with import_resumes [OF sample_source given again] first(1) show ?thesis
    unfolding sample_rows by (fastforce split: sum.splits)
qed


text \<open>
  Property C13. A checkpoint can be checked without its source: over an archive that holds the given
  rows the check returns, and accepts exactly the checkpoints whose cursors, counts and digests
  are those of the first rows of each family, as many as they count.
\<close>

theorem portable_check_decides:
  assumes "contents I archive ms ds"
  shows "\<exists>r. verify_saved_prefix I archive st w = Some (r, w) \<and>
    (r = Inr () \<longleftrightarrow> checkpoint I (metric_family I) ms (is_metric_count st) st \<and>
       checkpoint I (diagnostic_family I) ds (is_diagnostic_count st) st)"
proof -
  have "fa_progress (metric_family I) st = (is_metric_cursor st, is_metric_count st, is_metric_digest st)"
    "fa_progress (diagnostic_family I) st = (is_diagnostic_cursor st, is_diagnostic_count st, is_diagnostic_digest st)"
    by (simp_all add: metric_family_def diagnostic_family_def)
  from metric_rows.family_prefix_decides [OF assms this(1)] diagnostic_rows.family_prefix_decides [OF assms this(2)]
  obtain r r' where "verify_family_prefix I (metric_family I) archive st = Some r"
    "r = Inr () \<longleftrightarrow> checkpoint I (metric_family I) ms (is_metric_count st) st"
    "verify_family_prefix I (diagnostic_family I) archive st = Some r'"
    "r' = Inr () \<longleftrightarrow> checkpoint I (diagnostic_family I) ds (is_diagnostic_count st) st" by blast
  then show ?thesis
    by (cases r) (auto simp: verify_saved_prefix_def bind_a_def read_a_def)
qed

definition sample_state :: "nat \<Rightarrow> import_state" where
  "sample_state n =
     \<lparr>is_source_workspace_id = ''w'', is_source_fingerprint = ''f'', is_raw_digest = ''raw'', is_observation_digest = ''observations'',
      is_staging_id = ''s'', is_phase = METRICS, is_metric_cursor = None, is_diagnostic_cursor = None, is_metric_count = n,
      is_diagnostic_count = 0, is_metric_digest = [], is_diagnostic_digest = [], is_complete = False, is_page_limit = 256,
      is_updated_at = 0\<rparr>"

theorem portable_check_decides_witness:
  "verify_saved_prefix sample_importer empty_archive (sample_state 0) sample_world = Some (Inr (), sample_world) \<and>
   verify_saved_prefix sample_importer empty_archive (sample_state 1) sample_world \<noteq> Some (Inr (), sample_world)"
proof -
  have "archive_holds (im_archive_env sample_importer) empty_archive [] []"
    by (rule archive_holds_empty) (simp add: sample_importer_def sample_env_def)
  then have empty: "contents sample_importer empty_archive [] []" by (rule contentsI) simp_all
  have "checkpoint sample_importer (metric_family sample_importer) [] 0 (sample_state 0)"
    "checkpoint sample_importer (diagnostic_family sample_importer) [] 0 (sample_state 0)"
    "\<not> checkpoint sample_importer (metric_family sample_importer) [] 1 (sample_state 1)"
    by (simp_all add: checkpoint_def sample_state_def metric_family_def diagnostic_family_def family_digest_def EMPTY_DIGEST_def
        sample_importer_def sample_env_def)
  moreover have "is_metric_count (sample_state n) = n" "is_diagnostic_count (sample_state n) = 0" for n
    by (simp_all add: sample_state_def)
  ultimately show ?thesis
    using portable_check_decides [OF empty, of "sample_state 0" sample_world]
      portable_check_decides [OF empty, of "sample_state 1" sample_world] by auto
qed

end
