(* ===== verification/ScheduledJobs.thy ===== *)
theory ScheduledJobs
  imports Contracts
begin

text \<open>
  The contracts of the scheduler (\<^verbatim>\<open>application/multi_asset_scheduler.py\<close>): definitions,
  executions, failures and their retry policy, telemetry, attempts and the persisted history, with
  their validators.

  The time zone database is a parameter: \<open>zn_local_date\<close> is the date of an instant in a zone and
  \<open>zn_utc\<close> the instant of a date and a minute of the day there. \<open>zn_duration_ms\<close> is the rounding of
  \<^verbatim>\<open>int(delta.total_seconds() * 1000)\<close>, whose floating-point steps are not modelled. Dates are
  unbounded.
\<close>

section \<open>Definitions\<close>

datatype job_domain =
    MarketDaily | MarketIntraday | CryptoDerivatives | FundamentalsJob | CatalogJob | MacroJob | EventsJob

datatype attempt_status = Running | Succeeded | Failed | SkippedAttempt

datatype job_freshness = FreshNeverRun | FreshCurrent | FreshStale | FreshIncomplete

datatype failure_category =
    Configuration | Authentication | UnsupportedCapability | ProviderContract | ValidationFailure | StorageState
  | RateLimit | Transport | TransientHttp | HttpFailure | Unexpected | Interrupted | MemoryBudget | LegacyUnknown

datatype job_health =
    HealthDisabled | HealthNeverRun | HealthRunning | HealthRetryWait | HealthBlocked | HealthCurrent
  | HealthStale | HealthIncomplete

fun FAILURE_RETRY_POLICY :: "failure_category \<Rightarrow> bool" where
  "FAILURE_RETRY_POLICY RateLimit = True"
| "FAILURE_RETRY_POLICY Transport = True"
| "FAILURE_RETRY_POLICY TransientHttp = True"
| "FAILURE_RETRY_POLICY Interrupted = True"
| "FAILURE_RETRY_POLICY category = False"

record zones =
  zn_known :: "string \<Rightarrow> bool"
  zn_local_date :: "string \<Rightarrow> utc \<Rightarrow> date"
  zn_utc :: "string \<Rightarrow> date \<Rightarrow> nat \<Rightarrow> utc"
  zn_duration_ms :: "int \<Rightarrow> int"

record job_definition =
  jd_job_id :: string
  jd_asset_id :: "string option"
  jd_provider :: string
  jd_domain :: job_domain
  jd_data_frequency :: string
  jd_timezone :: string
  jd_run_at :: nat \<comment> \<open>minute of the day\<close>
  jd_enabled :: bool
  jd_max_attempts_per_day :: int
  jd_retry_backoff_seconds :: int
  jd_freshness_threshold_seconds :: int

definition validate_definition :: "zones \<Rightarrow> job_definition \<Rightarrow> job_definition result" where
  "validate_definition Z d =
     (if \<not> zn_known Z (jd_timezone d) then Inl (ValueError ''timezone must identify an installed IANA timezone'')
      else if \<not> jd_run_at d < 1440 then Inl (ValueError ''run_at must be a timezone-naive whole minute'')
      else if jd_max_attempts_per_day d < 1 \<or> 10 < jd_max_attempts_per_day d then Inl (ValueError ''max_attempts_per_day'')
      else if jd_retry_backoff_seconds d < 1 \<or> 86400 < jd_retry_backoff_seconds d
        then Inl (ValueError ''retry_backoff_seconds'')
      else if jd_freshness_threshold_seconds d < 60 \<or> 31536000 < jd_freshness_threshold_seconds d
        then Inl (ValueError ''freshness_threshold_seconds'')
      else Inr d)"

definition scheduled_for :: "zones \<Rightarrow> job_definition \<Rightarrow> date \<Rightarrow> utc" where
  "scheduled_for Z d local_date = zn_utc Z (jd_timezone d) local_date (jd_run_at d)"

record job_invocation =
  ji_definition :: job_definition
  ji_local_date :: date
  ji_scheduled_for :: utc
  ji_started_at :: utc
  ji_attempt_number :: int

definition validate_invocation :: "zones \<Rightarrow> job_invocation \<Rightarrow> job_invocation result" where
  "validate_invocation Z i =
     (if ji_attempt_number i < 1 \<or> 10 < ji_attempt_number i then Inl (ValueError ''attempt_number'')
      else if ji_scheduled_for i \<noteq> scheduled_for Z (ji_definition i) (ji_local_date i)
        then Inl (ValueError ''scheduled_for must match the job definition and local_date'')
      else Inr i)"

section \<open>Outcomes\<close>

record job_execution =
  je_job_id :: string
  je_effective_known_at :: utc
  je_evidence_changed :: bool
  je_source_ids :: "string list"
  je_created_count :: int
  je_reused_count :: int
  je_coverage_complete :: bool
  je_analytical_inputs_changed :: "bool option"

definition validate_execution :: "job_execution \<Rightarrow> job_execution result" where
  "validate_execution e =
     (if je_created_count e < 0 then Inl (ValueError ''created_count'')
      else if je_reused_count e < 0 then Inl (ValueError ''reused_count'')
      else if je_source_ids e = [] then Inl (ValueError ''a successful job must identify at least one source'')
      else if \<not> sorted_unique (je_source_ids e) then Inl (ValueError ''source_ids must be unique and sorted'')
      else if je_evidence_changed e \<noteq> (0 < je_created_count e)
        then Inl (ValueError ''evidence_changed must match whether new records were created'')
      else Inr e)"

datatype job_category = Canonical failure_category | FreeText string

record job_failure =
  jf_category :: job_category
  jf_message :: string
  jf_retryable :: bool
  jf_reason_code :: "string option"

text \<open>\<open>allow_legacy\<close> is the validation context with which the persisted history is read.\<close>

definition reason_code_ok :: "string \<Rightarrow> bool" where
  \<comment> \<open>a lower-case letter and 2 to 39 letters, digits or underscores\<close>
  "reason_code_ok s \<longleftrightarrow>
     (case s of [] \<Rightarrow> False | c # cs \<Rightarrow> lower_case c \<and> 2 \<le> length cs \<and> length cs \<le> 39 \<and>
       list_all (\<lambda>c. lower_case c \<or> CHR ''0'' \<le> c \<and> c \<le> CHR ''9'' \<or> c = CHR ''_'') cs)"

definition validate_failure :: "bool \<Rightarrow> job_failure \<Rightarrow> job_failure result" where
  "validate_failure allow_legacy f =
     (if 500 < length (jf_message f) then Inl (ValueError ''message'')
      else if (case jf_reason_code f of None \<Rightarrow> False | Some s \<Rightarrow> \<not> reason_code_ok s)
        then Inl (ValueError ''reason_code'')
      else
     case jf_category f of
        Canonical c \<Rightarrow>
          (if jf_retryable f \<noteq> FAILURE_RETRY_POLICY c
             then Inl (ValueError ''retryable must match the canonical failure category'') else Inr f)
      | FreeText s \<Rightarrow>
          (if 120 < length s then Inl (ValueError ''category'')
           else if \<not> allow_legacy then Inl (ValueError ''failure category must be canonical'') else Inr f))"

definition safe_category :: "job_failure \<Rightarrow> failure_category" where
  "safe_category f = (case jf_category f of Canonical c \<Rightarrow> c | FreeText s \<Rightarrow> LegacyUnknown)"

definition scheduled_job_failure :: "failure_category \<Rightarrow> string \<Rightarrow> string option \<Rightarrow> job_failure" where
  "scheduled_job_failure category message reason_code =
     \<lparr>jf_category = Canonical category, jf_message = message, jf_retryable = FAILURE_RETRY_POLICY category,
      jf_reason_code = reason_code\<rparr>"

record job_telemetry =
  tm_job_id :: string
  tm_provider :: string
  tm_domain :: job_domain
  tm_started_at :: utc
  tm_completed_at :: utc
  tm_duration_ms :: int
  tm_created_count :: int
  tm_reused_count :: int
  tm_coverage_complete :: "bool option"
  tm_failure_category :: "job_category option"
  tm_peak_rss_kb :: "nat option"

definition validate_telemetry :: "job_telemetry \<Rightarrow> job_telemetry result" where
  "validate_telemetry t =
     (if tm_duration_ms t < 0 then Inl (ValueError ''duration_ms'')
      else if tm_created_count t < 0 then Inl (ValueError ''created_count'')
      else if tm_reused_count t < 0 then Inl (ValueError ''reused_count'')
      else if tm_completed_at t < tm_started_at t
        then Inl (ValueError ''telemetry completion must not predate start'')
      else if (tm_coverage_complete t = None) = (tm_failure_category t = None)
        then Inl (ValueError ''telemetry requires exactly one success or failure outcome'')
      else Inr t)"

section \<open>Attempts\<close>

record job_attempt =
  ja_attempt_id :: uuid
  ja_definition :: job_definition
  ja_local_date :: date
  ja_scheduled_for :: utc
  ja_attempt_number :: int
  ja_status :: attempt_status
  ja_started_at :: utc
  ja_completed_at :: "utc option"
  ja_execution :: "job_execution option"
  ja_failure :: "job_failure option"
  ja_telemetry :: "job_telemetry option"

definition ja_job_id :: "job_attempt \<Rightarrow> string" where
  "ja_job_id a = jd_job_id (ja_definition a)"

fun validate_option :: "('a \<Rightarrow> 'a result) \<Rightarrow> 'a option \<Rightarrow> unit result" where
  "validate_option validate None = Inr ()"
| "validate_option validate (Some x) = bind_r (validate x) (\<lambda>_. Inr ())"

definition validate_lifecycle :: "zones \<Rightarrow> job_attempt \<Rightarrow> job_attempt result" where
  "validate_lifecycle Z a =
     (if ja_scheduled_for a \<noteq> scheduled_for Z (ja_definition a) (ja_local_date a)
        then Inl (ValueError ''scheduled_for must match the job definition and local_date'')
      else if (case ja_completed_at a of None \<Rightarrow> False | Some t \<Rightarrow> t < ja_started_at a)
        then Inl (ValueError ''completed_at must not predate started_at'')
      else
        (case ja_status a of
           Running \<Rightarrow>
             (if ja_completed_at a \<noteq> None \<or> ja_execution a \<noteq> None \<or> ja_failure a \<noteq> None \<or> ja_telemetry a \<noteq> None
                then Inl (ValueError ''running attempts cannot contain an outcome'') else Inr a)
         | Succeeded \<Rightarrow>
             (if ja_completed_at a = None \<or> ja_execution a = None \<or> ja_failure a \<noteq> None
                then Inl (ValueError ''succeeded attempts require only execution evidence'')
              else if je_job_id (the (ja_execution a)) \<noteq> ja_job_id a
                then Inl (ValueError ''execution job_id must match the definition'')
              else Inr a)
         | _ \<Rightarrow>
             (if ja_completed_at a = None \<or> ja_execution a \<noteq> None \<or> ja_failure a = None
                then Inl (ValueError ''failed or skipped attempts require only a safe failure'') else Inr a)))"

definition validate_attempt :: "zones \<Rightarrow> bool \<Rightarrow> job_attempt \<Rightarrow> job_attempt result" where
  \<comment> \<open>an attempt with its parts, as pydantic builds it\<close>
  "validate_attempt Z allow_legacy a =
     bind_r (validate_definition Z (ja_definition a)) (\<lambda>_.
     if ja_attempt_number a < 1 \<or> 10 < ja_attempt_number a then Inl (ValueError ''attempt_number'')
     else
       bind_r (validate_option validate_execution (ja_execution a)) (\<lambda>_.
       bind_r (validate_option (validate_failure allow_legacy) (ja_failure a)) (\<lambda>_.
       bind_r (validate_option validate_telemetry (ja_telemetry a)) (\<lambda>_.
         validate_lifecycle Z a))))"

definition attempt_telemetry :: "zones \<Rightarrow> job_attempt \<Rightarrow> nat option \<Rightarrow> job_telemetry result" where
  "attempt_telemetry Z a peak_rss_kb =
     (case ja_completed_at a of
        None \<Rightarrow> Inl (ValueError ''completed attempt telemetry requires completed_at'')
      | Some completed_at \<Rightarrow>
          validate_telemetry
            \<lparr>tm_job_id = ja_job_id a, tm_provider = jd_provider (ja_definition a), tm_domain = jd_domain (ja_definition a),
             tm_started_at = ja_started_at a, tm_completed_at = completed_at,
             tm_duration_ms = zn_duration_ms Z (completed_at - ja_started_at a),
             tm_created_count = (case ja_execution a of None \<Rightarrow> 0 | Some e \<Rightarrow> je_created_count e),
             tm_reused_count = (case ja_execution a of None \<Rightarrow> 0 | Some e \<Rightarrow> je_reused_count e),
             tm_coverage_complete = map_option je_coverage_complete (ja_execution a),
             tm_failure_category = map_option jf_category (ja_failure a), tm_peak_rss_kb = peak_rss_kb\<rparr>)"

section \<open>The history\<close>

definition MAX_ATTEMPTS_RETAINED :: nat where
  "MAX_ATTEMPTS_RETAINED = 100000"

definition attempt_order :: "job_attempt \<Rightarrow> utc \<times> string \<times> int \<times> uuid" where
  "attempt_order a = (ja_started_at a, ja_job_id a, ja_attempt_number a, ja_attempt_id a)"

definition validate_attempts :: "job_attempt list \<Rightarrow> job_attempt list result" where
  "validate_attempts attempts =
     (if MAX_ATTEMPTS_RETAINED < length attempts then Inl (ValueError ''attempts'')
      else if \<not> distinct (map ja_attempt_id attempts)
        then Inl (ValueError ''schedule state contains duplicate attempt identities'')
      else if \<not> sorted (map attempt_order attempts)
        then Inl (ValueError ''schedule attempts must use deterministic chronological ordering'')
      else Inr attempts)"

end
