(* ===== verification/ScheduleStore.thy ===== *)
theory ScheduleStore
  imports ScheduledJobs Loops Journal
begin

text \<open>
  The persisted schedule history (\<^verbatim>\<open>MultiAssetScheduleStateStore\<close>): a legacy document and a
  bounded journal, merged when they are read; a write folds the legacy document into the journal's
  snapshot once, creates an empty document where there is none, and appends one record. The store
  is modelled twice: on the bytes of the journal's files (\<open>load_fresh\<close>,
  \<open>write_attempt_to_store\<close>), and, as the scheduler uses it, on the records its files hold
  (\<open>load_schedule\<close>, \<open>write_attempt_from_state\<close>), where rotation and compaction are not seen. The
  cache of the last state, keyed by a digest of the same bytes, is not modelled, and neither is the
  failing of the file system.
\<close>

section \<open>Merging records\<close>

definition schedule_malformed :: py_error where
  "schedule_malformed = StateError ''multi-asset schedule state is malformed or unreadable''"

definition lifecycle_inconsistent :: py_error where
  "lifecycle_inconsistent = StateError ''multi-asset schedule attempt lifecycle is inconsistent''"

definition no_transition :: "job_attempt \<Rightarrow> job_attempt \<Rightarrow> bool" where
  \<comment> \<open>\<open>attempt\<close> is not the outcome of the running \<open>existing\<close>\<close>
  "no_transition existing attempt \<longleftrightarrow>
     ja_status existing \<noteq> Running \<or> ja_status attempt = Running \<or>
     ja_definition existing \<noteq> ja_definition attempt \<or> ja_started_at existing \<noteq> ja_started_at attempt"

definition merge_attempt :: "job_attempt \<Rightarrow> (uuid, job_attempt) dict \<Rightarrow> (uuid, job_attempt) dict result" where
  "merge_attempt attempt attempts_by_id =
     (case dict_get attempts_by_id (ja_attempt_id attempt) of
        None \<Rightarrow> Inr (dict_set attempts_by_id (ja_attempt_id attempt) attempt)
      | Some existing \<Rightarrow>
          (if no_transition existing attempt
             then (if existing = attempt then Inr attempts_by_id else Inl lifecycle_inconsistent)
           else Inr (dict_set attempts_by_id (ja_attempt_id attempt) attempt)))"

fun merge_attempts :: "job_attempt list \<Rightarrow> (uuid, job_attempt) dict \<Rightarrow> (uuid, job_attempt) dict result" where
  "merge_attempts [] attempts_by_id = Inr attempts_by_id"
| "merge_attempts (attempt # attempts) attempts_by_id =
     bind_r (merge_attempt attempt attempts_by_id) (merge_attempts attempts)"

definition sort_attempts :: "job_attempt list \<Rightarrow> job_attempt list" where
  "sort_attempts attempts = sort_key attempt_order attempts"

definition reduce_schedule_attempts :: "(utc \<Rightarrow> string) \<Rightarrow> job_attempt list \<Rightarrow> job_attempt list" where
  \<comment> \<open>the last record of every attempt, sorted by the text of its start (\<open>iso_text\<close>)\<close>
  "reduce_schedule_attempts iso_text records =
     sort_key (\<lambda>a. (iso_text (ja_started_at a), ja_job_id a, ja_attempt_number a, ja_attempt_id a))
       (dict_values (dict_by ja_attempt_id records))"

section \<open>Files\<close>

record schedule_files =
  sf_legacy :: "job_attempt list option" \<comment> \<open>the document at \<^verbatim>\<open>_path\<close>, if there is one\<close>
  sf_folded :: bool \<comment> \<open>\<^verbatim>\<open>has_legacy_v1_folded()\<close>\<close>
  sf_snapshot :: "job_attempt list" \<comment> \<open>the records of the journal's snapshot\<close>
  sf_entries :: "job_attempt list" \<comment> \<open>the records of its segments\<close>

definition validate_legacy :: "zones \<Rightarrow> job_attempt list \<Rightarrow> job_attempt list result" where
  "validate_legacy Z attempts =
     (case bind_r (traverse (validate_attempt Z True) attempts) (\<lambda>_. validate_attempts attempts) of
        Inl e \<Rightarrow> Inl schedule_malformed | Inr st \<Rightarrow> Inr st)"

definition read_attempts :: "zones \<Rightarrow> job_attempt list \<Rightarrow> job_attempt list result" where
  "read_attempts Z records =
     (case traverse (validate_attempt Z True) records of Inl e \<Rightarrow> Inl schedule_malformed | Inr attempts \<Rightarrow> Inr attempts)"

definition load_schedule :: "zones \<Rightarrow> schedule_files \<Rightarrow> job_attempt list result" where
  "load_schedule Z files =
     bind_r (case sf_legacy files of None \<Rightarrow> Inr []
             | Some document \<Rightarrow> bind_r (validate_legacy Z document) (\<lambda>st. Inr (if sf_folded files then [] else st))) (\<lambda>legacy.
     bind_r (read_attempts Z (sf_snapshot files @ sf_entries files)) (\<lambda>attempts.
     bind_r (merge_attempts attempts (dict_by ja_attempt_id legacy)) (\<lambda>attempts_by_id.
       validate_attempts (sort_attempts (dict_values attempts_by_id)))))"

section \<open>Writing\<close>

definition place_attempt :: "job_attempt list \<Rightarrow> job_attempt \<Rightarrow> job_attempt list option result" where
  \<comment> \<open>\<open>None\<close>: the attempt is already there\<close>
  "place_attempt attempts attempt =
     (let i = length (takeWhile (\<lambda>item. ja_attempt_id item \<noteq> ja_attempt_id attempt) attempts) in
      if i = length attempts then Inr (Some (attempts @ [attempt]))
      else if no_transition (attempts ! i) attempt
        then (if attempts ! i = attempt then Inr None else Inl lifecycle_inconsistent)
      else Inr (Some (attempts[i := attempt])))"

definition fold_legacy :: "zones \<Rightarrow> (utc \<Rightarrow> string) \<Rightarrow> (unit, schedule_files) command" where
  \<comment> \<open>the snapshot is replaced by the reduced records of the document; an absent document is created empty\<close>
  "fold_legacy Z iso_text files =
     (case sf_legacy files of
        None \<Rightarrow> (Inr (), files\<lparr>sf_legacy := Some []\<rparr>)
      | Some document \<Rightarrow>
          (if sf_folded files then (Inr (), files)
           else
             (case validate_legacy Z document of
                Inl e \<Rightarrow> (Inl e, files)
              | Inr st \<Rightarrow>
                  (Inr (), files\<lparr>sf_folded := True,
                     sf_snapshot := (if st = [] then sf_snapshot files else reduce_schedule_attempts iso_text st)\<rparr>))))"

definition append_attempt :: "job_attempt \<Rightarrow> (unit, schedule_files) command" where
  "append_attempt attempt files = (Inr (), files\<lparr>sf_entries := sf_entries files @ [attempt]\<rparr>)"

definition write_attempt_from_state ::
  "zones \<Rightarrow> (utc \<Rightarrow> string) \<Rightarrow> job_attempt list \<Rightarrow> job_attempt \<Rightarrow> (job_attempt list, schedule_files) command" where
  "write_attempt_from_state Z iso_text st attempt =
     bind_c (pure_c (place_attempt st attempt)) (\<lambda>placed.
     case placed of
       None \<Rightarrow> pure_c (Inr st)
     | Some attempts \<Rightarrow>
         bind_c (pure_c (validate_attempts (sort_attempts attempts))) (\<lambda>updated.
         bind_c (fold_legacy Z iso_text) (\<lambda>_.
         bind_c (append_attempt attempt) (\<lambda>_. pure_c (Inr updated)))))"

definition write_attempt :: "zones \<Rightarrow> (utc \<Rightarrow> string) \<Rightarrow> job_attempt \<Rightarrow> (unit, schedule_files) command" where
  "write_attempt Z iso_text attempt files =
     bind_c (pure_c (load_schedule Z files)) (\<lambda>st.
     bind_c (write_attempt_from_state Z iso_text st attempt) (\<lambda>_. pure_c (Inr ()))) files"

section \<open>The store on its files\<close>

text \<open>
  The document at \<^verbatim>\<open>_path\<close> and the files of the journal's directory. \<open>hs_doc\<close> is
  \<^verbatim>\<open>to_json_dict\<close> and \<open>hs_parse\<close> the fields of a record, before the validators of
  \<^verbatim>\<open>ScheduledJobAttempt\<close>.
\<close>

type_synonym schedule_disk = "job_attempt list option \<times> files"

record 'r schedule_store =
  hs_zones :: zones
  hs_journal :: "'r journal"
  hs_doc :: "job_attempt \<Rightarrow> 'r"
  hs_parse :: "'r \<Rightarrow> job_attempt option"

definition journal_c :: "'a io \<Rightarrow> ('a, schedule_disk) command" where
  \<comment> \<open>an operation of the journal\<close>
  "journal_c m = (\<lambda>(document, fs). case run_io m fs of (fs', r) \<Rightarrow> (r, (document, fs')))"

definition or_malformed :: "('a, 'w) command \<Rightarrow> ('a, 'w) command" where
  \<comment> \<open>\<^verbatim>\<open>except AaplOperationalStateError\<close>\<close>
  "or_malformed c w = (case c w of (Inl e, w') \<Rightarrow> (Inl schedule_malformed, w') | (Inr x, w') \<Rightarrow> (Inr x, w'))"

definition read_records :: "'r schedule_store \<Rightarrow> 'r list \<Rightarrow> job_attempt list result" where
  "read_records H records =
     bind_r (traverse (\<lambda>r. case hs_parse H r of None \<Rightarrow> Inl schedule_malformed | Some a \<Rightarrow> Inr a) records)
       (read_attempts (hs_zones H))"

definition load_fresh :: "'r schedule_store \<Rightarrow> (job_attempt list, schedule_disk) command" where
  "load_fresh H = (\<lambda>(document, fs).
     if \<not> has_data fs \<and> document = None then (Inr [], (document, fs))
     else
       bind_c (case document of
           None \<Rightarrow> pure_c (Inr [])
         | Some attempts \<Rightarrow>
             bind_c (pure_c (validate_legacy (hs_zones H) attempts)) (\<lambda>legacy_state.
             bind_c (journal_c (has_legacy_v1_folded (hs_journal H))) (\<lambda>folded.
               pure_c (Inr (if folded then [] else legacy_state))))) (\<lambda>legacy_attempts.
       bind_c (or_malformed (journal_c (read_entries (hs_journal H)))) (\<lambda>journal_records.
       bind_c (pure_c (read_records H journal_records)) (\<lambda>journal_attempts.
       bind_c (pure_c (merge_attempts journal_attempts (dict_by ja_attempt_id legacy_attempts))) (\<lambda>attempts_by_id.
         pure_c (validate_attempts (sort_attempts (dict_values attempts_by_id))))))) (document, fs))"

definition fold_document :: "'r schedule_store \<Rightarrow> (unit, schedule_disk) command" where
  "fold_document H = (\<lambda>(document, fs).
     case document of
       None \<Rightarrow> (Inr (), (document, fs))
     | Some attempts \<Rightarrow>
         bind_c (journal_c (has_legacy_v1_folded (hs_journal H))) (\<lambda>folded.
         if folded then pure_c (Inr ())
         else
           bind_c (pure_c (validate_legacy (hs_zones H) attempts)) (\<lambda>legacy_state.
           if legacy_state \<noteq> []
             then journal_c (initialize_snapshot_with_legacy (hs_journal H) (map (hs_doc H) legacy_state))
           else journal_c (mark_legacy_v1_folded (hs_journal H)))) (document, fs))"

definition create_document :: "(unit, schedule_disk) command" where
  \<comment> \<open>the stub without attempts\<close>
  "create_document = (\<lambda>(document, fs). (Inr (), (if document = None then Some [] else document, fs)))"

definition write_attempt_to_store ::
  "'r schedule_store \<Rightarrow> utc \<Rightarrow> job_attempt list \<Rightarrow> job_attempt \<Rightarrow> (job_attempt list, schedule_disk) command" where
  \<comment> \<open>\<open>now\<close>: the reading of the clock should a segment be closed\<close>
  "write_attempt_to_store H now st attempt =
     bind_c (pure_c (place_attempt st attempt)) (\<lambda>placed.
     case placed of
       None \<Rightarrow> pure_c (Inr st)
     | Some attempts \<Rightarrow>
         bind_c (pure_c (validate_attempts (sort_attempts attempts))) (\<lambda>updated.
         bind_c (fold_document H) (\<lambda>_.
         bind_c create_document (\<lambda>_.
         bind_c (journal_c (append_record (hs_journal H) now (hs_doc H attempt))) (\<lambda>_.
           pure_c (Inr updated))))))"

end
