(* ===== verification/MemoryBudget.thy ===== *)
theory MemoryBudget
  imports Prelude
begin

text \<open>
  The cooperative memory budget of one job (\<^verbatim>\<open>application/job_memory_budget.py\<close>): reading the resident
  set size from the lines of \<^verbatim>\<open>/proc/self/status\<close>, and the watchdog that keeps the peak, notes a
  breach of the ceiling and asks for a cancellation once. The samples the worker takes until it is
  stopped are a list; the ceiling is a positive number of bytes.
\<close>

section \<open>Reading\<close>

fun py_split :: "string \<Rightarrow> string \<Rightarrow> string list" where
  \<comment> \<open>\<^verbatim>\<open>str.split()\<close>; the second argument is the field read so far\<close>
  "py_split [] field = (if field = [] then [] else [field])"
| "py_split (c # cs) field =
     (if py_space c then (if field = [] then py_split cs [] else field # py_split cs []) else py_split cs (field @ [c]))"

definition py_digit :: "char \<Rightarrow> bool" where
  "py_digit c \<longleftrightarrow> 48 \<le> (of_char c :: nat) \<and> (of_char c :: nat) \<le> 57"

fun py_digits :: "int \<Rightarrow> string \<Rightarrow> int option" where
  \<comment> \<open>digits, single underscores between them, after the value read so far\<close>
  "py_digits n [] = Some n"
| "py_digits n (c # cs) =
     (if py_digit c then py_digits (n * 10 + (of_char c - 48)) cs
      else if c = CHR ''_''
        then (case cs of [] \<Rightarrow> None | d # ds \<Rightarrow> if py_digit d then py_digits (n * 10 + (of_char d - 48)) ds else None)
      else None)"

definition py_int :: "string \<Rightarrow> int option" where
  \<comment> \<open>\<^verbatim>\<open>int(text)\<close> of an ASCII text without spaces\<close>
  "py_int s =
     (let (sign, ds) = (case s of [] \<Rightarrow> (1, []) | c # cs \<Rightarrow>
            if c = CHR ''-'' then (-1, cs) else if c = CHR ''+'' then (1, cs) else (1, s)) in
      case ds of [] \<Rightarrow> None | d # rest \<Rightarrow>
        if py_digit d then map_option (\<lambda>n. sign * n) (py_digits (of_char d - 48) rest) else None)"

fun read_process_rss_kb :: "string list \<Rightarrow> nat option" where
  "read_process_rss_kb [] = None"
| "read_process_rss_kb (line # lines) =
     (if take 6 line \<noteq> ''VmRSS:'' then read_process_rss_kb lines
      else
        (let fields = py_split line [] in
         if length fields < 3 \<or> fields ! 2 \<noteq> ''kB'' then None
         else
           (case py_int (fields ! 1) of
              None \<Rightarrow> None
            | Some kb \<Rightarrow> if kb \<ge> 0 then Some (nat kb) else None)))"

definition rss_sample :: "string list option \<Rightarrow> nat option" where
  \<comment> \<open>\<open>None\<close>: the file cannot be read\<close>
  "rss_sample lines = (case lines of None \<Rightarrow> None | Some ls \<Rightarrow> read_process_rss_kb ls)"

section \<open>The watchdog\<close>

record watchdog =
  wd_peak_rss_kb :: "nat option"
  wd_breached :: bool
  wd_cancel_requested :: bool

definition new_watchdog :: watchdog where
  "new_watchdog = \<lparr>wd_peak_rss_kb = None, wd_breached = False, wd_cancel_requested = False\<rparr>"

definition watch_sample :: "int option \<Rightarrow> bool \<Rightarrow> nat option \<Rightarrow> watchdog \<times> nat \<Rightarrow> watchdog \<times> nat" where
  \<comment> \<open>with the number of calls of \<^verbatim>\<open>cancel()\<close>, made when there is a control\<close>
  "watch_sample ceiling_bytes controlled sample = (\<lambda>(d, calls).
     case sample of
       None \<Rightarrow> (d, calls)
     | Some rss_kb \<Rightarrow>
         (let d = d\<lparr>wd_peak_rss_kb := (case wd_peak_rss_kb d of None \<Rightarrow> Some rss_kb
                      | Some peak \<Rightarrow> if peak < rss_kb then Some rss_kb else Some peak)\<rparr> in
          if (case ceiling_bytes of None \<Rightarrow> True | Some m \<Rightarrow> int rss_kb * 1024 \<le> m) then (d, calls)
          else if controlled \<and> \<not> wd_cancel_requested d
            then (d\<lparr>wd_breached := True, wd_cancel_requested := True\<rparr>, calls + 1)
          else (d\<lparr>wd_breached := True\<rparr>, calls)))"

definition watch :: "int option \<Rightarrow> bool \<Rightarrow> nat option list \<Rightarrow> watchdog \<times> nat" where
  "watch ceiling_bytes controlled samples = fold (watch_sample ceiling_bytes controlled) samples (new_watchdog, 0)"

definition breach :: "int option \<Rightarrow> nat option \<Rightarrow> bool" where
  "breach ceiling_bytes sample \<longleftrightarrow>
     (case (ceiling_bytes, sample) of (Some m, Some rss_kb) \<Rightarrow> m < int rss_kb * 1024 | _ \<Rightarrow> False)"

lemma watch_append: "watch limit controlled (samples @ [s]) = watch_sample limit controlled s (watch limit controlled samples)"
  by (simp add: watch_def)

text \<open>The watchdog reports the largest sample and whether one broke the limit, and cancels once.\<close>

definition readings :: "nat option list \<Rightarrow> nat list" where
  "readings samples = concat (map (\<lambda>s. case s of None \<Rightarrow> [] | Some rss_kb \<Rightarrow> [rss_kb]) samples)"

lemma readings_append: "readings (samples @ [s]) = readings samples @ (case s of None \<Rightarrow> [] | Some rss_kb \<Rightarrow> [rss_kb])"
  by (simp add: readings_def)

lemma watch_peak:
  "wd_peak_rss_kb (fst (watch limit controlled samples)) =
     (if readings samples = [] then None else Some (Max (set (readings samples))))"
proof (induction samples rule: rev_induct)
  case (snoc s samples)
  obtain d calls where w: "watch limit controlled samples = (d, calls)" by force
  show ?case
  proof (cases s)
    case (Some x)
    have "wd_peak_rss_kb (fst (watch_sample limit controlled s (d, calls))) =
        Some (case wd_peak_rss_kb d of None \<Rightarrow> x | Some peak \<Rightarrow> max peak x)"
      by (simp add: watch_sample_def Some Let_def split: option.split)
    then show ?thesis
      using snoc Some w by (cases "readings samples = []") (simp_all add: watch_append readings_append max.commute)
  qed (use snoc w in \<open>simp add: watch_append readings_append watch_sample_def\<close>)
qed (simp add: watch_def new_watchdog_def readings_def)

lemma watch_breached: "wd_breached (fst (watch limit controlled samples)) \<longleftrightarrow> (\<exists>s \<in> set samples. breach limit s)"
proof (induction samples rule: rev_induct)
  case (snoc s samples)
  obtain d calls where w: "watch limit controlled samples = (d, calls)" by force
  have "wd_breached (fst (watch_sample limit controlled s (d, calls))) \<longleftrightarrow> wd_breached d \<or> breach limit s"
    by (cases s; cases limit) (auto simp: watch_sample_def breach_def Let_def)
  with snoc w show ?case by (auto simp: watch_append)
qed (simp add: watch_def new_watchdog_def)

lemma watch_cancels:
  "snd (watch limit controlled samples) = (if controlled \<and> wd_breached (fst (watch limit controlled samples)) then 1 else 0)"
proof -
  have "snd (watch limit controlled samples) = (if controlled \<and> wd_breached (fst (watch limit controlled samples)) then 1 else 0) \<and>
      wd_cancel_requested (fst (watch limit controlled samples)) = (controlled \<and> wd_breached (fst (watch limit controlled samples)))"
  proof (induction samples rule: rev_induct)
    case (snoc s samples)
    obtain d calls where w: "watch limit controlled samples = (d, calls)" by force
    with snoc show ?case
      by (cases s; cases limit) (auto simp: watch_append watch_sample_def Let_def)
  qed (simp add: watch_def new_watchdog_def)
  then show ?thesis ..
qed

end
