(* ===== verification/Scheduler.thy ===== *)
theory Scheduler
  imports ScheduleStore MemoryBudget
begin

text \<open>
  The multi-asset scheduler (\<^verbatim>\<open>MultiAssetScheduler\<close>): the status of every job, the recovery of
  interrupted work, one attempt of a job with its outcome on every branch, the notifications that
  are retried until the observer accepts them, and a tick over all due jobs.

  The clock, the identities of attempts, the stop event and what a job does are parameters, read in
  the order the code asks for them. A tick holds its lock for its whole run; what other threads do
  to the registry while a job runs is part of the job's result. The storage observability collector
  is absent, as in its default configuration. An \<^verbatim>\<open>OperationControl\<close> is the stop event it is bound
  to, by the number of the poll, and its cancel event \<open>sw_cancel\<close> in the world; waiting between
  ticks reads the stop event without an effect and is left out.
\<close>

section \<open>World\<close>

datatype job_outcome =
    Executed job_execution
  | CancelledRun
  | RaisedRunError job_failure
  | RaisedStateError
  | RaisedValueError
  | RaisedOther
  | RaisedBaseException \<comment> \<open>\<^verbatim>\<open>KeyboardInterrupt\<close> or \<^verbatim>\<open>SystemExit\<close>, which no handler catches\<close>

record job_run =
  jr_outcome :: job_outcome
  jr_samples :: "nat option list" \<comment> \<open>of the resident set size, while the watchdog runs\<close>
  jr_registry :: "job_definition list option" \<comment> \<open>published by another thread meanwhile\<close>

text \<open>\<open>'o\<close> is the state of the observers.\<close>

record 'o scheduler =
  sc_zones :: zones
  sc_iso_text :: "utc \<Rightarrow> string"
  sc_clock :: "nat \<Rightarrow> py_datetime"
  sc_attempt_id :: "nat \<Rightarrow> uuid"
  sc_run :: "nat \<Rightarrow> job_invocation \<Rightarrow> job_run"
  sc_observer :: "(job_attempt \<Rightarrow> (unit, 'o) command) option"
  sc_tick_observer :: "(unit, 'o) command option"
  sc_error_handler :: "(unit, 'o) command option"
  sc_memory_ceiling_bytes :: "int option"

record 'o scheduler_world =
  sw_files :: schedule_files
  sw_jobs :: "job_definition list"
  sw_active_job :: "string option"
  sw_pending :: "(uuid, job_attempt) dict"
  sw_observer_issue :: bool
  sw_tick_issue :: bool
  sw_observed :: 'o
  sw_ticks :: nat
  sw_ids :: nat
  sw_runs :: nat
  sw_polls :: nat
  sw_cancel :: bool

type_synonym ('a, 'o) scheduled = "('a, 'o scheduler_world) command"

definition get_w :: "('w \<Rightarrow> 'a) \<Rightarrow> ('a, 'w) command" where
  "get_w f w = (Inr (f w), w)"

definition set_w :: "('w \<Rightarrow> 'w) \<Rightarrow> (unit, 'w) command" where
  "set_w f w = (Inr (), f w)"

definition scheduler_now :: "'o scheduler \<Rightarrow> (utc, 'o) scheduled" where
  "scheduler_now S w =
     (case sc_clock S (sw_ticks w) of
        Naive t \<Rightarrow> (Inl (ValueError ''scheduler clock must return a timezone-aware datetime''), w\<lparr>sw_ticks := sw_ticks w + 1\<rparr>)
      | Aware t off \<Rightarrow> (Inr (t - off), w\<lparr>sw_ticks := sw_ticks w + 1\<rparr>))"

definition write_schedule :: "'o scheduler \<Rightarrow> job_attempt list \<Rightarrow> job_attempt \<Rightarrow> (job_attempt list, 'o) scheduled" where
  "write_schedule S st attempt w =
     (case write_attempt_from_state (sc_zones S) (sc_iso_text S) st attempt (sw_files w) of
        (r, files) \<Rightarrow> (r, w\<lparr>sw_files := files\<rparr>))"

type_synonym control = "(nat \<Rightarrow> bool) option"

definition cancelled :: "control \<Rightarrow> (bool, 'o) scheduled" where
  "cancelled control w =
     (case control of
        None \<Rightarrow> (Inr False, w)
      | Some stop \<Rightarrow> (Inr (sw_cancel w \<or> stop (sw_polls w)), w\<lparr>sw_polls := sw_polls w + 1\<rparr>))"

definition raise_if_cancelled :: "control \<Rightarrow> (unit, 'o) scheduled" where
  "raise_if_cancelled control =
     bind_c (cancelled control) (\<lambda>stop.
       pure_c (if stop then Inl (CancelledError ''operation cancellation requested'') else Inr ()))"

text \<open>\<^verbatim>\<open>except Exception\<close> does not catch a \<^verbatim>\<open>BaseException\<close>.\<close>

definition base_exception :: py_error where
  "base_exception = InjectedFault ''BaseException''"

section \<open>Registry\<close>

definition validate_job_registry :: "job_definition list \<Rightarrow> job_definition list result" where
  "validate_job_registry jobs =
     (if jobs = [] then Inl (ValueError ''multi-asset scheduler requires at least one job'')
      else if \<not> distinct (map jd_job_id jobs) then Inl (ValueError ''registered scheduled job IDs must be unique'')
      else Inr (sort_key jd_job_id jobs))"

definition new_scheduler :: "'o scheduler \<Rightarrow> job_definition list \<Rightarrow> schedule_files \<Rightarrow> 'o \<Rightarrow> 'o scheduler_world result" where
  \<comment> \<open>no reading of the clock, no identity and no run so far\<close>
  "new_scheduler S jobs files observed =
     bind_r (validate_job_registry jobs) (\<lambda>jobs.
     if (case sc_memory_ceiling_bytes S of None \<Rightarrow> False | Some limit \<Rightarrow> limit \<le> 0)
       then Inl (ValueError ''ceiling_bytes must be a positive integer or None'')
     else Inr \<lparr>sw_files = files, sw_jobs = jobs, sw_active_job = None, sw_pending = [], sw_observer_issue = False,
               sw_tick_issue = False, sw_observed = observed, sw_ticks = 0, sw_ids = 0, sw_runs = 0, sw_polls = 0,
               sw_cancel = False\<rparr>)"

definition registered_job_definitions :: "(job_definition list, 'o) scheduled" where
  "registered_job_definitions = get_w sw_jobs"

definition reconcile_jobs :: "job_definition list \<Rightarrow> (unit, 'o) scheduled" where
  "reconcile_jobs jobs =
     bind_c (pure_c (validate_job_registry jobs)) (\<lambda>replacement. set_w (sw_jobs_update (\<lambda>_. replacement)))"

definition claim_registered_job :: "string \<Rightarrow> (bool, 'o) scheduled" where
  "claim_registered_job job_id w =
     (if list_all (\<lambda>d. jd_job_id d \<noteq> job_id) (sw_jobs w) then (Inr False, w)
      else (Inr True, w\<lparr>sw_active_job := Some job_id\<rparr>))"

definition release_active_job :: "string \<Rightarrow> 'o scheduler_world \<Rightarrow> 'o scheduler_world" where
  "release_active_job job_id w = (if sw_active_job w = Some job_id then w\<lparr>sw_active_job := None\<rparr> else w)"

section \<open>Status\<close>

definition attempts_for :: "job_attempt list \<Rightarrow> string \<Rightarrow> date \<Rightarrow> job_attempt list" where
  "attempts_for st job_id local_date = filter (\<lambda>a. ja_job_id a = job_id \<and> ja_local_date a = local_date) st"

definition latest_by_job :: "job_attempt list \<Rightarrow> (string, job_attempt) dict" where
  "latest_by_job st = dict_by ja_job_id st"

definition latest_success_by_job :: "job_attempt list \<Rightarrow> (string, job_attempt) dict" where
  "latest_success_by_job st = dict_by ja_job_id (filter (\<lambda>a. ja_status a = Succeeded) st)"

definition job_freshness_at :: "job_definition \<Rightarrow> job_attempt option \<Rightarrow> utc \<Rightarrow> job_freshness" where
  "job_freshness_at d latest_success now =
     (case latest_success of
        None \<Rightarrow> FreshNeverRun
      | Some a \<Rightarrow>
          (case ja_execution a of
             None \<Rightarrow> FreshNeverRun
           | Some e \<Rightarrow>
               (if \<not> je_coverage_complete e then FreshIncomplete
                else
                  (case ja_completed_at a of
                     None \<Rightarrow> FreshNeverRun
                   | Some checked_at \<Rightarrow>
                       (if now - checked_at > seconds (jd_freshness_threshold_seconds d) then FreshStale else FreshCurrent)))))"

definition retry_delay_seconds :: "job_definition \<Rightarrow> int \<Rightarrow> int" where
  "retry_delay_seconds d attempt_number = jd_retry_backoff_seconds d * 2 ^ nat (attempt_number - 1)"

record job_status =
  js_definition :: job_definition
  js_latest_attempt :: "job_attempt option"
  js_latest_success :: "job_attempt option"
  js_health :: job_health
  js_freshness :: job_freshness
  js_due :: bool
  js_next_run_at :: utc
  js_next_retry_at :: "utc option"
  js_retry_budget_remaining :: int
  js_failure_category :: "failure_category option"
  js_latest_duration_ms :: "int option"
  js_issues :: "string list"

text \<open>The health, whether the job is due, its next run, its next retry and its issues.\<close>

definition schedule_decision ::
  "zones \<Rightarrow> string option \<Rightarrow> job_definition \<Rightarrow> utc \<Rightarrow> job_attempt list \<Rightarrow> job_health \<times> bool \<times> utc \<times> utc option \<times> string list" where
  "schedule_decision Z active d now attempts_today =
     (let local_date = zn_local_date Z (jd_timezone d) now; tomorrow = scheduled_for Z d (local_date + 1) in
      if \<not> jd_enabled d then (HealthDisabled, False, tomorrow, None, [])
      else if now < scheduled_for Z d local_date then (HealthNeverRun, False, scheduled_for Z d local_date, None, [])
      else if attempts_today = [] then (HealthNeverRun, True, now, None, [])
      else
        (let today_latest = last attempts_today in
         if ja_status today_latest = Running
           then (HealthRunning, False, tomorrow, None, if Some (jd_job_id d) \<noteq> active then [jd_job_id d @ '': interrupted scheduled job''] else [])
         else if ja_status today_latest = Succeeded then (HealthCurrent, False, tomorrow, None, [])
         else if (case ja_failure today_latest of None \<Rightarrow> False | Some f \<Rightarrow> \<not> jf_retryable f)
           then (HealthBlocked, False, tomorrow, None, [jd_job_id d @ '': latest scheduled job failed''])
         else if (case ja_failure today_latest of None \<Rightarrow> False | Some f \<Rightarrow> jf_retryable f) \<and>
             int (length attempts_today) < jd_max_attempts_per_day d
           then
             (let retry_at = the (ja_completed_at today_latest) +
                  seconds (retry_delay_seconds d (ja_attempt_number today_latest)) in
              (HealthRetryWait, now \<ge> retry_at, if now \<ge> retry_at then now else retry_at, Some retry_at, [jd_job_id d @ '': latest scheduled job failed'']))
         else (HealthBlocked, False, tomorrow, None, [jd_job_id d @ '': daily retry budget exhausted''])))"

definition job_status_from ::
  "zones \<Rightarrow> string option \<Rightarrow> job_definition \<Rightarrow> utc \<Rightarrow> job_attempt list \<Rightarrow> job_attempt option \<Rightarrow> job_attempt option \<Rightarrow> job_status" where
  "job_status_from Z active d now attempts_today latest latest_success =
     (let local_date = zn_local_date Z (jd_timezone d) now;
          (health, due, next_run, next_retry, issues) = schedule_decision Z active d now attempts_today;
          prior = (case latest of None \<Rightarrow> [] | Some a \<Rightarrow>
            if ja_local_date a < local_date \<and> ja_status a \<in> {Failed, SkippedAttempt}
              then [jd_job_id d @ '': prior scheduled job failed''] else []);
          freshness = job_freshness_at d latest_success now;
          aging = (if freshness = FreshStale then [jd_job_id d @ '': provider check is stale'']
            else if freshness = FreshIncomplete then [jd_job_id d @ '': latest coverage is incomplete''] else []);
          health = (if health \<in> {HealthCurrent, HealthNeverRun}
            then (if freshness = FreshIncomplete then HealthIncomplete else if freshness = FreshStale then HealthStale else health)
            else health) in
      \<lparr>js_definition = d, js_latest_attempt = latest, js_latest_success = latest_success, js_health = health,
       js_freshness = freshness, js_due = due, js_next_run_at = next_run, js_next_retry_at = next_retry,
       js_retry_budget_remaining = max (jd_max_attempts_per_day d - int (length attempts_today)) 0,
       js_failure_category = (case latest of None \<Rightarrow> None | Some a \<Rightarrow> map_option safe_category (ja_failure a)),
       js_latest_duration_ms = (case latest of None \<Rightarrow> None | Some a \<Rightarrow> map_option tm_duration_ms (ja_telemetry a)),
       js_issues = dict_keys (dict_by (\<lambda>issue. issue) (issues @ prior @ aging))\<rparr>)"

definition job_status_at :: "zones \<Rightarrow> string option \<Rightarrow> job_definition \<Rightarrow> utc \<Rightarrow> job_attempt list \<Rightarrow> job_status" where
  \<comment> \<open>without a history index\<close>
  "job_status_at Z active d now st =
     job_status_from Z active d now (attempts_for st (jd_job_id d) (zn_local_date Z (jd_timezone d) now))
       (dict_get (latest_by_job st) (jd_job_id d)) (dict_get (latest_success_by_job st) (jd_job_id d))"

text \<open>The per-job projection that a status over all jobs builds in one pass.\<close>

record history_view =
  hv_by_date :: "(date, job_attempt list) dict"
  hv_latest :: "job_attempt option"
  hv_latest_success :: "job_attempt option"

definition empty_view :: history_view where
  "empty_view = \<lparr>hv_by_date = [], hv_latest = None, hv_latest_success = None\<rparr>"

definition view_of :: "(string, history_view) dict \<Rightarrow> string \<Rightarrow> history_view" where
  "view_of views job_id = (case dict_get views job_id of None \<Rightarrow> empty_view | Some view \<Rightarrow> view)"

definition attempts_on :: "history_view \<Rightarrow> date \<Rightarrow> job_attempt list" where
  "attempts_on view local_date = (case dict_get (hv_by_date view) local_date of None \<Rightarrow> [] | Some as \<Rightarrow> as)"

definition index_attempt :: "job_attempt \<Rightarrow> (string, history_view) dict \<Rightarrow> (string, history_view) dict" where
  "index_attempt a views =
     (let view = view_of views (ja_job_id a) in
      dict_set views (ja_job_id a)
        (view\<lparr>hv_by_date := dict_set (hv_by_date view) (ja_local_date a) (attempts_on view (ja_local_date a) @ [a]),
              hv_latest := Some a,
              hv_latest_success := (if ja_status a = Succeeded then Some a else hv_latest_success view)\<rparr>))"

definition build_index :: "job_attempt list \<Rightarrow> (string, history_view) dict" where
  "build_index st = fold index_attempt st []"

record scheduler_status =
  ss_jobs :: "job_status list"
  ss_due_count :: nat
  ss_running_count :: nat
  ss_failed_count :: nat
  ss_blocked_count :: nat
  ss_retry_wait_count :: nat
  ss_current_count :: nat
  ss_stale_count :: nat
  ss_incomplete_count :: nat
  ss_next_run_at :: utc
  ss_issues :: "string list"

definition count_jobs :: "(job_status \<Rightarrow> bool) \<Rightarrow> job_status list \<Rightarrow> nat" where
  "count_jobs P jobs = length (filter P jobs)"

definition latest_in :: "attempt_status set \<Rightarrow> job_status \<Rightarrow> bool" where
  "latest_in S js = (case js_latest_attempt js of None \<Rightarrow> False | Some a \<Rightarrow> ja_status a \<in> S)"

definition validate_scheduler_status :: "scheduler_status \<Rightarrow> scheduler_status result" where
  "validate_scheduler_status s =
     (let jobs = ss_jobs s in
      if jobs = [] then Inl (ValueError ''multi-asset scheduler requires at least one registered job'')
      else if \<not> sorted (map (\<lambda>js. jd_job_id (js_definition js)) jobs)
        then Inl (ValueError ''scheduler jobs must be sorted by job_id'')
      else if ss_due_count s \<noteq> count_jobs js_due jobs then Inl (ValueError ''due_count must match jobs'')
      else if ss_running_count s \<noteq> count_jobs (latest_in {Running}) jobs then Inl (ValueError ''running_count must match jobs'')
      else if ss_failed_count s \<noteq> count_jobs (latest_in {Failed, SkippedAttempt}) jobs
        then Inl (ValueError ''failed_count must match jobs'')
      else if ss_blocked_count s \<noteq> count_jobs (\<lambda>js. js_health js = HealthBlocked) jobs
        then Inl (ValueError ''blocked_count must match jobs'')
      else if ss_retry_wait_count s \<noteq> count_jobs (\<lambda>js. js_health js = HealthRetryWait) jobs
        then Inl (ValueError ''retry_wait_count must match jobs'')
      else if ss_current_count s \<noteq> count_jobs (\<lambda>js. js_health js = HealthCurrent) jobs
        then Inl (ValueError ''current_count must match jobs'')
      else if ss_stale_count s \<noteq> count_jobs (\<lambda>js. js_freshness js = FreshStale) jobs
        then Inl (ValueError ''stale_count must match jobs'')
      else if ss_incomplete_count s \<noteq> count_jobs (\<lambda>js. js_freshness js = FreshIncomplete) jobs
        then Inl (ValueError ''incomplete_count must match jobs'')
      else if Some (ss_next_run_at s) \<noteq> py_min (map js_next_run_at jobs)
        then Inl (ValueError ''next_run_at must match the earliest job'')
      else Inr s)"

definition status_at ::
  "zones \<Rightarrow> string option \<Rightarrow> bool \<Rightarrow> bool \<Rightarrow> utc \<Rightarrow> job_attempt list \<Rightarrow> job_definition list \<Rightarrow> scheduler_status result" where
  "status_at Z active observer_issue tick_issue now st jobs =
     (let index = build_index st;
          statuses = map (\<lambda>d. let view = view_of index (jd_job_id d) in
            job_status_from Z active d now (attempts_on view (zn_local_date Z (jd_timezone d) now)) (hv_latest view)
              (hv_latest_success view)) jobs in
      case py_min (map js_next_run_at statuses) of
        None \<Rightarrow> Inl (ValueError ''min() iterable argument is empty'')
      | Some next_run_at \<Rightarrow> validate_scheduler_status
      \<lparr>ss_jobs = statuses, ss_due_count = count_jobs js_due statuses,
       ss_running_count = count_jobs (latest_in {Running}) statuses,
       ss_failed_count = count_jobs (latest_in {Failed, SkippedAttempt}) statuses,
       ss_blocked_count = count_jobs (\<lambda>js. js_health js = HealthBlocked) statuses,
       ss_retry_wait_count = count_jobs (\<lambda>js. js_health js = HealthRetryWait) statuses,
       ss_current_count = count_jobs (\<lambda>js. js_health js = HealthCurrent) statuses,
       ss_stale_count = count_jobs (\<lambda>js. js_freshness js = FreshStale) statuses,
       ss_incomplete_count = count_jobs (\<lambda>js. js_freshness js = FreshIncomplete) statuses,
       ss_next_run_at = next_run_at,
       ss_issues = concat (map js_issues statuses) @
         (if observer_issue then [''scheduled job observer could not persist its result''] else []) @
         (if tick_issue then [''scheduled tick observer could not complete''] else [])\<rparr>)"

section \<open>Notifications\<close>

definition notify :: "'o scheduler \<Rightarrow> job_attempt \<Rightarrow> (unit, 'o) scheduled" where
  "notify S attempt w =
     (case sc_observer S of
        None \<Rightarrow> (Inr (), w)
      | Some observer \<Rightarrow>
          (case observer attempt (sw_observed w) of
             (Inl e, observed) \<Rightarrow>
               (if e = base_exception then (Inl e, w\<lparr>sw_observed := observed\<rparr>)
                else (Inr (), w\<lparr>sw_observed := observed, sw_pending := dict_set (sw_pending w) (ja_attempt_id attempt) attempt,
                         sw_observer_issue := True\<rparr>))
           | (Inr u, observed) \<Rightarrow>
               (let pending = dict_del (sw_pending w) (ja_attempt_id attempt) in
                (Inr (), w\<lparr>sw_observed := observed, sw_pending := pending,
                           sw_observer_issue := (pending \<noteq> [] \<and> sw_observer_issue w)\<rparr>))))"

fun notify_all :: "'o scheduler \<Rightarrow> job_attempt list \<Rightarrow> (unit, 'o) scheduled" where
  "notify_all S [] = pure_c (Inr ())"
| "notify_all S (a # as) = bind_c (notify S a) (\<lambda>_. notify_all S as)"

definition retry_notifications :: "'o scheduler \<Rightarrow> (unit, 'o) scheduled" where
  "retry_notifications S = bind_c (get_w (\<lambda>w. dict_values (sw_pending w))) (notify_all S)"

definition run_tick_observer :: "'o scheduler \<Rightarrow> (unit, 'o) scheduled" where
  "run_tick_observer S w =
     (case sc_tick_observer S of
        None \<Rightarrow> (Inr (), w)
      | Some observer \<Rightarrow>
          (case observer (sw_observed w) of
             (Inl e, observed) \<Rightarrow>
               (if e = base_exception then (Inl e, w\<lparr>sw_observed := observed\<rparr>)
                else (Inr (), w\<lparr>sw_observed := observed, sw_tick_issue := True\<rparr>))
           | (Inr u, observed) \<Rightarrow> (Inr (), w\<lparr>sw_observed := observed, sw_tick_issue := False\<rparr>)))"

section \<open>One attempt\<close>

text \<open>
  Building an attempt: the execution and the failure are instances, which pydantic takes as they
  are. The definition of a completed attempt is dumped from the running one and validated again;
  that of a running one is an instance of the registry, on which the check does not fail.
\<close>

definition build_attempt :: "zones \<Rightarrow> job_attempt \<Rightarrow> job_attempt result" where
  "build_attempt Z a =
     bind_r (validate_definition Z (ja_definition a)) (\<lambda>_.
     if ja_attempt_number a < 1 \<or> 10 < ja_attempt_number a then Inl (ValueError ''attempt_number'')
     else validate_lifecycle Z a)"

definition completed_attempt ::
  "zones \<Rightarrow> job_attempt \<Rightarrow> attempt_status \<Rightarrow> utc \<Rightarrow> job_execution option \<Rightarrow> job_failure option \<Rightarrow> nat option \<Rightarrow> job_attempt result" where
  "completed_attempt Z running status completed_at execution failure peak =
     bind_r (build_attempt Z (running\<lparr>ja_status := status, ja_completed_at := Some completed_at,
              ja_execution := execution, ja_failure := failure, ja_telemetry := None\<rparr>)) (\<lambda>a.
     bind_r (attempt_telemetry Z a peak) (\<lambda>t. Inr (a\<lparr>ja_telemetry := Some t\<rparr>)))"

definition outcome_of :: "job_definition \<Rightarrow> job_outcome \<Rightarrow> bool \<Rightarrow> (attempt_status \<times> job_execution option \<times> job_failure option) result" where
  \<comment> \<open>the last argument: the watchdog reports a breach\<close>
  "outcome_of d outcome breached =
     (case outcome of
        RaisedBaseException \<Rightarrow> Inl base_exception
      | Executed e \<Rightarrow> Inr
          (if je_job_id e \<noteq> jd_job_id d
             then (Failed, None, Some (scheduled_job_failure ValidationFailure ''scheduled job output failed validation'' None))
           else (Succeeded, Some e, None))
      | CancelledRun \<Rightarrow> Inr
          (Failed, None, Some
             (if breached
                then scheduled_job_failure MemoryBudget ''scheduled job exceeded its cooperative memory budget'' None
              else scheduled_job_failure Interrupted ''the scheduled job was interrupted at a safe boundary'' None))
      | RaisedRunError f \<Rightarrow> Inr (Failed, None, Some f)
      | RaisedStateError \<Rightarrow> Inr
          (Failed, None, Some (scheduled_job_failure StorageState
             ''scheduled operational state is incompatible or unavailable'' None))
      | RaisedValueError \<Rightarrow> Inr
          (Failed, None, Some (scheduled_job_failure ValidationFailure ''scheduled job output failed validation'' None))
      | RaisedOther \<Rightarrow> Inr
          (Failed, None, Some (scheduled_job_failure Unexpected ''the scheduled job failed unexpectedly'' None)))"

definition running_attempt :: "zones \<Rightarrow> job_definition \<Rightarrow> uuid \<Rightarrow> utc \<Rightarrow> job_attempt list \<Rightarrow> job_attempt result" where
  "running_attempt Z d attempt_id now st =
     (let local_date = zn_local_date Z (jd_timezone d) now in
      build_attempt Z
        \<lparr>ja_attempt_id = attempt_id, ja_definition = d, ja_local_date = local_date,
         ja_scheduled_for = scheduled_for Z d local_date,
         ja_attempt_number = int (length (attempts_for st (jd_job_id d) local_date)) + 1,
         ja_status = Running, ja_started_at = now, ja_completed_at = None, ja_execution = None, ja_failure = None,
         ja_telemetry = None\<rparr>)"

text \<open>
  The job builds its execution, or the failure it raises, itself: where pydantic refuses to build
  it, its run has raised a \<^verbatim>\<open>ValueError\<close>.
\<close>

definition built_outcome :: "job_outcome \<Rightarrow> job_outcome" where
  "built_outcome outcome =
     (case outcome of
        Executed e \<Rightarrow> (case validate_execution e of Inl _ \<Rightarrow> RaisedValueError | Inr e' \<Rightarrow> Executed e')
      | RaisedRunError f \<Rightarrow> (case validate_failure False f of Inl _ \<Rightarrow> RaisedValueError | Inr f' \<Rightarrow> RaisedRunError f')
      | _ \<Rightarrow> outcome)"

definition call_job :: "'o scheduler \<Rightarrow> control \<Rightarrow> job_invocation \<Rightarrow> (job_run \<times> watchdog, 'o) scheduled" where
  \<comment> \<open>\<^verbatim>\<open>job.run(invocation)\<close> under the watchdog; without a control a configured ceiling gets one of its own\<close>
  "call_job S control i w =
     (let r = jr_outcome_update built_outcome (sc_run S (sw_runs w) i);
          (watchdog, calls) = watch (sc_memory_ceiling_bytes S) (control \<noteq> None \<or> sc_memory_ceiling_bytes S \<noteq> None) (jr_samples r) in
      (Inr (r, watchdog), w\<lparr>sw_runs := sw_runs w + 1,
         sw_cancel := (sw_cancel w \<or> control \<noteq> None \<and> 0 < calls),
         sw_jobs := (case jr_registry r of
             None \<Rightarrow> sw_jobs w
           | Some jobs \<Rightarrow> (case validate_job_registry jobs of Inl e \<Rightarrow> sw_jobs w | Inr replacement \<Rightarrow> replacement))\<rparr>))"

definition run_callback :: "'o scheduler \<Rightarrow> control \<Rightarrow> job_invocation \<Rightarrow> (job_outcome \<times> bool \<times> nat option, 'o) scheduled" where
  \<comment> \<open>the outcome, whether the watchdog reports a breach, and its peak\<close>
  "run_callback S control i =
     bind_c (cancelled control) (\<lambda>stop.
     if stop then pure_c (Inr (CancelledRun, False, None))
     else
       bind_c (call_job S control i) (\<lambda>(r, watchdog).
       case jr_outcome r of
         Executed e \<Rightarrow>
           bind_c (cancelled control) (\<lambda>stop. pure_c (Inr
             (if stop \<or> wd_cancel_requested watchdog then CancelledRun else Executed e, wd_breached watchdog, wd_peak_rss_kb watchdog)))
       | outcome \<Rightarrow> pure_c (Inr (outcome, wd_breached watchdog, wd_peak_rss_kb watchdog))))"

definition take_id :: "'o scheduler \<Rightarrow> (uuid, 'o) scheduled" where
  "take_id S w = (Inr (sc_attempt_id S (sw_ids w)), w\<lparr>sw_ids := sw_ids w + 1\<rparr>)"

definition run_job ::
  "'o scheduler \<Rightarrow> control \<Rightarrow> job_definition \<Rightarrow> utc \<Rightarrow> job_attempt list \<Rightarrow> (job_attempt \<times> job_attempt list, 'o) scheduled" where
  "run_job S control d now st =
     bind_c (take_id S) (\<lambda>attempt_id.
     bind_c (pure_c (running_attempt (sc_zones S) d attempt_id now st)) (\<lambda>running.
     bind_c (write_schedule S st running) (\<lambda>st.
     bind_c (run_callback S control \<lparr>ji_definition = d, ji_local_date = ja_local_date running,
               ji_scheduled_for = ja_scheduled_for running, ji_started_at = now,
               ji_attempt_number = ja_attempt_number running\<rparr>) (\<lambda>(outcome, breached, peak).
     bind_c (pure_c (outcome_of d outcome breached)) (\<lambda>(status, execution, failure).
     bind_c (scheduler_now S) (\<lambda>completed_at.
     bind_c (pure_c (completed_attempt (sc_zones S) running status completed_at execution failure peak)) (\<lambda>completed.
     bind_c (write_schedule S st completed) (\<lambda>st.
     bind_c (scheduler_now S) (\<lambda>result_persisted_at.
     bind_c (notify S completed) (\<lambda>_.
       pure_c (Inr (completed, st))))))))))))"

text \<open>The invocation of a valid running attempt is valid, so that building it never raises.\<close>

lemma invocation_valid:
  assumes "running_attempt Z d attempt_id now st = Inr running"
  shows "validate_invocation Z \<lparr>ji_definition = d, ji_local_date = ja_local_date running, ji_scheduled_for = ja_scheduled_for running,
    ji_started_at = now, ji_attempt_number = ja_attempt_number running\<rparr> = Inr \<lparr>ji_definition = d, ji_local_date = ja_local_date running,
    ji_scheduled_for = ja_scheduled_for running, ji_started_at = now, ji_attempt_number = ja_attempt_number running\<rparr>"
  using assms by (auto simp: running_attempt_def Let_def build_attempt_def validate_lifecycle_def validate_invocation_def
      bind_r_eq_Inr split: if_splits)

section \<open>Ticks\<close>

definition interrupted_failure :: job_failure where
  "interrupted_failure = scheduled_job_failure Interrupted ''the prior scheduled job was interrupted before completion'' None"

fun recover_attempts ::
  "'o scheduler \<Rightarrow> utc \<Rightarrow> (string \<times> job_attempt) list \<Rightarrow> job_attempt list \<Rightarrow> job_attempt list \<Rightarrow> (job_attempt list \<times> job_attempt list, 'o) scheduled" where
  \<comment> \<open>the history and the attempts completed so far\<close>
  "recover_attempts S now [] st completed = pure_c (Inr (st, completed))"
| "recover_attempts S now ((job_id, attempt) # rest) st completed =
     bind_c (get_w sw_active_job) (\<lambda>active.
     if ja_status attempt \<noteq> Running \<or> Some job_id = active then recover_attempts S now rest st completed
     else
       bind_c (pure_c (completed_attempt (sc_zones S) attempt Failed now None (Some interrupted_failure) None)) (\<lambda>recovered.
       bind_c (write_schedule S st recovered) (\<lambda>st.
       bind_c (notify S recovered) (\<lambda>_.
         recover_attempts S now rest st (completed @ [recovered])))))"

definition recover_interrupted :: "'o scheduler \<Rightarrow> utc \<Rightarrow> job_attempt list \<Rightarrow> (job_attempt list \<times> job_attempt list, 'o) scheduled" where
  "recover_interrupted S now st = recover_attempts S now (sort_key fst (latest_by_job st)) st []"

definition finally_release :: "string \<Rightarrow> ('a, 'o) scheduled \<Rightarrow> ('a, 'o) scheduled" where
  "finally_release job_id c w = (case c w of (r, w') \<Rightarrow> (r, release_active_job job_id w'))"

fun run_due ::
  "'o scheduler \<Rightarrow> control \<Rightarrow> job_definition list \<Rightarrow> job_attempt list \<Rightarrow> job_attempt list \<Rightarrow> (job_attempt list, 'o) scheduled" where
  "run_due S control [] st completed = pure_c (Inr completed)"
| "run_due S control (d # ds) st completed =
     bind_c (raise_if_cancelled control) (\<lambda>_.
     bind_c (scheduler_now S) (\<lambda>current.
     bind_c (get_w sw_active_job) (\<lambda>active.
     if \<not> js_due (job_status_at (sc_zones S) active d current st) then run_due S control ds st completed
     else
       bind_c (claim_registered_job (jd_job_id d)) (\<lambda>claimed.
       if \<not> claimed then run_due S control ds st completed
       else
         bind_c (finally_release (jd_job_id d)
             (bind_c (run_job S control d current st) (\<lambda>(attempt, st).
              bind_c (cancelled control) (\<lambda>stop. pure_c (Inr (attempt, st, stop)))))) (\<lambda>(attempt, st, stop).
           if stop then pure_c (Inr (completed @ [attempt]))
           else run_due S control ds st (completed @ [attempt]))))))"

definition load_attempts :: "'o scheduler \<Rightarrow> (job_attempt list, 'o) scheduled" where
  "load_attempts S w = (load_schedule (sc_zones S) (sw_files w), w)"

definition status_of :: "'o scheduler \<Rightarrow> utc \<Rightarrow> job_attempt list \<Rightarrow> job_definition list \<Rightarrow> (scheduler_status, 'o) scheduled" where
  "status_of S now st jobs w =
     (status_at (sc_zones S) (sw_active_job w) (sw_observer_issue w) (sw_tick_issue w) now st jobs, w)"

definition tick :: "'o scheduler \<Rightarrow> control \<Rightarrow> (job_attempt list, 'o) scheduled" where
  "tick S control =
     bind_c (raise_if_cancelled control) (\<lambda>_.
     bind_c (retry_notifications S) (\<lambda>_.
     bind_c (run_tick_observer S) (\<lambda>_.
     bind_c (scheduler_now S) (\<lambda>now.
     bind_c (get_w sw_jobs) (\<lambda>jobs.
     bind_c (load_attempts S) (\<lambda>st.
     bind_c (recover_interrupted S now st) (\<lambda>(st, completed).
     bind_c (status_of S now st jobs) (\<lambda>status.
       run_due S control (map js_definition (filter js_due (ss_jobs status))) st completed))))))))"

section \<open>Polling\<close>

definition handle_error :: "'o scheduler \<Rightarrow> (nat \<Rightarrow> bool) \<Rightarrow> (unit, 'o) scheduled" where
  "handle_error S stop =
     (case sc_error_handler S of
        None \<Rightarrow> pure_c (Inr ())
      | Some handler \<Rightarrow>
          bind_c (cancelled (Some stop)) (\<lambda>halt.
          if halt then pure_c (Inr ())
          else (\<lambda>w. case handler (sw_observed w) of (r, observed) \<Rightarrow> (r, w\<lparr>sw_observed := observed\<rparr>))))"

definition poll_tick :: "'o scheduler \<Rightarrow> (nat \<Rightarrow> bool) \<Rightarrow> (unit, 'o) scheduled" where
  "poll_tick S stop w =
     (case tick S (Some stop) w of
        (Inr completed, w') \<Rightarrow> (Inr (), w')
      | (Inl e, w') \<Rightarrow> if e = base_exception then (Inl e, w') else handle_error S stop w')"

definition poll_step :: "'o scheduler \<Rightarrow> (nat \<Rightarrow> bool) \<Rightarrow> (unit, 'o scheduler_world) iteration" where
  "poll_step S stop u =
     bind_c (cancelled (Some stop)) (\<lambda>halt.
     if halt then pure_c (Inr None)
     else bind_c (poll_tick S stop) (\<lambda>_. pure_c (Inr (Some ()))))"

definition run_forever :: "'o scheduler \<Rightarrow> (nat \<Rightarrow> bool) \<Rightarrow> int \<Rightarrow> (unit, 'o scheduler_world) action" where
  \<comment> \<open>the seconds between two polls as an integer\<close>
  "run_forever S stop poll_seconds w =
     (if poll_seconds \<le> 0 then Some (Inl (ValueError ''poll_seconds must be positive''), w)
      else run_loop (poll_step S stop) () (w\<lparr>sw_cancel := False\<rparr>))"

section \<open>Inspection\<close>

definition scheduler_status_now :: "'o scheduler \<Rightarrow> (scheduler_status, 'o) scheduled" where
  "scheduler_status_now S =
     bind_c (get_w sw_jobs) (\<lambda>jobs.
     bind_c (scheduler_now S) (\<lambda>now.
     bind_c (load_attempts S) (\<lambda>st.
       status_of S now st jobs)))"

end
