(* ===== verification/ScheduleStoreProperties.thy ===== *)
theory ScheduleStoreProperties
  imports ScheduleStore JournalCorrectness
begin

text \<open>
  What the schedule store keeps: reading gives back the last state written, also after the journal
  has compacted its entries to the last record of every attempt.
\<close>

section \<open>Attempts by identity\<close>

definition by_id :: "(uuid, job_attempt) dict \<Rightarrow> bool" where
  "by_id d \<longleftrightarrow> dict_ok d \<and> (\<forall>k a. dict_get d k = Some a \<longrightarrow> ja_attempt_id a = k)"

lemma by_id_Nil [simp]: "by_id []"
  by (simp add: by_id_def)

lemma by_id_set: "by_id d \<Longrightarrow> by_id (dict_set d (ja_attempt_id a) a)"
  by (auto simp: by_id_def)

lemma by_id_fold: "by_id d \<Longrightarrow> by_id (fold (\<lambda>a d. dict_set d (ja_attempt_id a) a) as d)"
  by (induction as arbitrary: d) (simp_all add: by_id_set)

lemma by_id_dict_by: "by_id (dict_by ja_attempt_id as)"
  unfolding dict_by_def by (rule by_id_fold) simp

lemma by_id_values:
  assumes "by_id d"
  shows "set (dict_values d) = {a. dict_get d (ja_attempt_id a) = Some a}" and "distinct (map ja_attempt_id (dict_values d))"
proof -
  have ok: "dict_ok d" and keys: "\<And>k a. dict_get d k = Some a \<Longrightarrow> ja_attempt_id a = k" using assms by (auto simp: by_id_def)
  show "set (dict_values d) = {a. dict_get d (ja_attempt_id a) = Some a}"
    unfolding dict_values_set [OF ok] using keys by blast
  have "\<forall>(k, a) \<in> set d. ja_attempt_id a = k" using ok keys by (auto simp: dict_in_iff_get)
  then have "map ja_attempt_id (map snd d) = map fst d" by auto
  with ok show "distinct (map ja_attempt_id (dict_values d))" by (simp only: dict_values_def dict_ok_def)
qed

lemma attempt_order_inj: "attempt_order a = attempt_order b \<Longrightarrow> ja_attempt_id a = ja_attempt_id b"
  by (simp add: attempt_order_def)

lemma order_distinct: "distinct (map ja_attempt_id as) \<Longrightarrow> inj_on attempt_order (set as)"
  by (auto simp: inj_on_def distinct_map dest: attempt_order_inj)

lemma sort_attempts_same:
  assumes "distinct (map ja_attempt_id xs)" and "distinct (map ja_attempt_id ys)" and "set xs = set ys"
  shows "sort_attempts xs = sort_attempts ys"
proof -
  have "mset xs = mset (sort_attempts ys)"
    using assms by (simp add: sort_attempts_def set_eq_iff_mset_eq_distinct [symmetric] distinct_map)
  moreover have "sorted (map attempt_order (sort_attempts ys))" by (simp add: sort_attempts_def)
  ultimately show ?thesis
    unfolding sort_attempts_def [of xs] by (rule sort_key_inj_key_eq [OF _ order_distinct [OF assms(1)]])
qed

lemma sort_values_same:
  assumes "by_id d" and "by_id d'" and "dict_get d = dict_get d'"
  shows "sort_attempts (dict_values d) = sort_attempts (dict_values d')"
  by (rule sort_attempts_same) (simp_all add: by_id_values [OF assms(1)] by_id_values [OF assms(2)] assms(3))

section \<open>Merging\<close>

lemma merge_attempt_get:
  assumes "merge_attempt a d = Inr d'"
  shows "dict_get d' = (dict_get d)(ja_attempt_id a \<mapsto> a)" and "by_id d \<Longrightarrow> by_id d'"
  using assms by (auto simp: merge_attempt_def by_id_set split: option.splits if_splits)

lemma merge_attempts_get:
  "merge_attempts as d = Inr d' \<Longrightarrow> dict_get d' = dict_get (fold (\<lambda>a d. dict_set d (ja_attempt_id a) a) as d)"
  "merge_attempts as d = Inr d' \<Longrightarrow> by_id d \<Longrightarrow> by_id d'"
proof (induction as arbitrary: d)
  case (Cons a as)
  have get: "dict_get (fold (\<lambda>a d. dict_set d (ja_attempt_id a) a) as d1) = dict_get (fold (\<lambda>a d. dict_set d (ja_attempt_id a) a) as d2)"
    if "dict_get d1 = dict_get d2" for d1 d2 :: "(uuid, job_attempt) dict"
    using that by (induction as arbitrary: d1 d2) simp_all
  {
    case 1
    then obtain d1 where d1: "merge_attempt a d = Inr d1" "merge_attempts as d1 = Inr d'" by (auto simp: bind_r_eq_Inr)
    then have "dict_get d1 = dict_get (dict_set d (ja_attempt_id a) a)" by (simp add: merge_attempt_get(1))
    from Cons.IH(1) [OF d1(2)] get [OF this] show ?case by simp
  next
    case 2
    then obtain d1 where "merge_attempt a d = Inr d1" "merge_attempts as d1 = Inr d'" by (auto simp: bind_r_eq_Inr)
    with 2(2) Cons.IH(2) merge_attempt_get(2) show ?case by blast
  }
qed simp_all

lemma merge_attempts_append: "merge_attempts (as @ bs) d = bind_r (merge_attempts as d) (merge_attempts bs)"
proof (induction as arbitrary: d)
  case (Cons a as)
  then show ?case by (cases "merge_attempt a d") simp_all
qed simp

text \<open>Merging looks at the dictionary only through its lookups.\<close>

lemma merge_attempts_same:
  assumes "dict_get d1 = dict_get d2" and "merge_attempts as d1 = Inr e1"
  shows "\<exists>e2. merge_attempts as d2 = Inr e2 \<and> dict_get e2 = dict_get e1"
  using assms
proof (induction as arbitrary: d1 d2)
  case (Cons a as)
  from Cons.prems(2) obtain f1 where f1: "merge_attempt a d1 = Inr f1" "merge_attempts as f1 = Inr e1"
    by (auto simp: bind_r_eq_Inr)
  then obtain f2 where f2: "merge_attempt a d2 = Inr f2"
    using Cons.prems(1) by (auto simp: merge_attempt_def split: option.splits if_splits)
  have "dict_get f1 = dict_get f2"
    using Cons.prems(1) merge_attempt_get(1) [OF f1(1)] merge_attempt_get(1) [OF f2] by simp
  from Cons.IH [OF this f1(2)] show ?case using f2 by auto
qed simp

lemma merge_distinct:
  assumes "distinct (map ja_attempt_id as)" and "\<forall>a \<in> set as. dict_get d (ja_attempt_id a) = None"
  shows "merge_attempts as d = Inr (fold (\<lambda>a d. dict_set d (ja_attempt_id a) a) as d)"
  using assms
proof (induction as arbitrary: d)
  case (Cons a as)
  have "\<forall>b \<in> set as. dict_get (dict_set d (ja_attempt_id a) a) (ja_attempt_id b) = None"
    using Cons.prems by (auto simp: image_iff)
  with Cons.IH [of "dict_set d (ja_attempt_id a) a"] Cons.prems show ?case by (simp add: merge_attempt_def)
qed simp

lemma dict_by_get:
  assumes "distinct (map ja_attempt_id as)"
  shows "dict_get (dict_by ja_attempt_id as) k = (if k \<in> ja_attempt_id ` set as then Some (THE a. a \<in> set as \<and> ja_attempt_id a = k) else None)"
proof (cases "k \<in> ja_attempt_id ` set as")
  case True
  then obtain a where a: "a \<in> set as" "ja_attempt_id a = k" by blast
  then have "dict_get (dict_by ja_attempt_id as) k = Some a"
    unfolding dict_by_def using pydict.lookup_store_all_same [of "[]" ja_attempt_id as a "\<lambda>x. x"] assms by auto
  moreover have "(THE a. a \<in> set as \<and> ja_attempt_id a = k) = a"
    using assms a by (intro the_equality) (auto simp: distinct_map inj_on_def)
  ultimately show ?thesis using True by simp
next
  case False
  then show ?thesis
    unfolding dict_by_def using pydict.lookup_store_all_other [of "[]" k ja_attempt_id as "\<lambda>x. x"] by auto
qed

lemma dict_by_same:
  assumes "distinct (map ja_attempt_id xs)" and "distinct (map ja_attempt_id ys)" and "set xs = set ys"
  shows "dict_get (dict_by ja_attempt_id xs) = dict_get (dict_by ja_attempt_id ys)"
  by (rule ext) (simp add: dict_by_get [OF assms(1)] dict_by_get [OF assms(2)] assms(3))

text \<open>Merging the reduced records gives the same attempts.\<close>

lemma reduced_records:
  "distinct (map ja_attempt_id (reduce_schedule_attempts iso_text as))"
  "set (reduce_schedule_attempts iso_text as) = set (dict_values (dict_by ja_attempt_id as))"
  "distinct (map ja_attempt_id as) \<Longrightarrow> set (reduce_schedule_attempts iso_text as) = set as"
  using by_id_values(2) [OF by_id_dict_by [of as]]
  by (simp_all add: reduce_schedule_attempts_def distinct_map dict_by_values)

lemma merge_reduced:
  assumes "merge_attempts as [] = Inr d"
  obtains d' where "merge_attempts (reduce_schedule_attempts iso_text as) [] = Inr d'" and "by_id d'" and "dict_get d' = dict_get d"
proof -
  let ?as = "reduce_schedule_attempts iso_text as" and ?e = "dict_by ja_attempt_id as"
  have d: "dict_get d = dict_get ?e" using merge_attempts_get(1) [OF assms] by (simp add: dict_by_def)
  have merged: "merge_attempts ?as [] = Inr (dict_by ja_attempt_id ?as)"
    unfolding dict_by_def by (rule merge_distinct) (simp_all add: reduced_records(1))
  have "dict_get (dict_by ja_attempt_id ?as) = dict_get (dict_by ja_attempt_id (dict_values ?e))"
    by (rule dict_by_same) (simp_all add: reduced_records by_id_values(2) by_id_dict_by)
  also have "\<dots> = dict_get ?e"
  proof
    fix k
    have v: "distinct (map ja_attempt_id (dict_values ?e))" by (rule by_id_values(2) [OF by_id_dict_by])
    show "dict_get (dict_by ja_attempt_id (dict_values ?e)) k = dict_get ?e k"
    proof (cases "dict_get ?e k")
      case None
      then have "k \<notin> ja_attempt_id ` set (dict_values ?e)"
        using by_id_values(1) [OF by_id_dict_by, of as] by auto
      then show ?thesis using None by (simp add: dict_by_get [OF v])
    next
      case (Some a)
      then have a: "ja_attempt_id a = k" "a \<in> set (dict_values ?e)"
        using by_id_dict_by [of as] by_id_values(1) [OF by_id_dict_by, of as] by (auto simp: by_id_def)
      then have "(THE a. a \<in> set (dict_values ?e) \<and> ja_attempt_id a = k) = a"
        using v by (intro the_equality) (auto simp: distinct_map inj_on_def)
      with a Some show ?thesis by (auto simp: dict_by_get [OF v])
    qed
  qed
  finally show thesis using that [OF merged by_id_dict_by] d by simp
qed


section \<open>Writing\<close>

definition schedule_ok :: "job_attempt list \<Rightarrow> bool" where
  \<comment> \<open>a history that \<open>validate_attempts\<close> accepts\<close>
  "schedule_ok st \<longleftrightarrow> length st \<le> MAX_ATTEMPTS_RETAINED \<and> distinct (map ja_attempt_id st) \<and> sorted (map attempt_order st)"

lemma validate_attempts_Inr: "validate_attempts st = Inr st' \<longleftrightarrow> st' = st \<and> schedule_ok st"
  by (auto simp: validate_attempts_def schedule_ok_def)

lemma sorted_schedule: "schedule_ok st \<Longrightarrow> sort_attempts st = st"
  unfolding schedule_ok_def sort_attempts_def
  by (intro sort_key_inj_key_eq [OF refl order_distinct]) simp_all

lemma holds_schedule:
  assumes "by_id d" and "sort_attempts (dict_values d) = st"
  shows "dict_get d = dict_get (dict_by ja_attempt_id st)" and "distinct (map ja_attempt_id st)"
proof -
  have st: "set st = set (dict_values d)" using assms(2) by (auto simp: sort_attempts_def)
  have vals: "distinct (map ja_attempt_id (dict_values d))" by (rule by_id_values(2) [OF assms(1)])
  then show distinct: "distinct (map ja_attempt_id st)"
    using assms(2) by (auto simp: sort_attempts_def distinct_map)
  show "dict_get d = dict_get (dict_by ja_attempt_id st)"
  proof
    fix k
    show "dict_get d k = dict_get (dict_by ja_attempt_id st) k"
    proof (cases "dict_get d k")
      case None
      then have "k \<notin> ja_attempt_id ` set st" using by_id_values(1) [OF assms(1)] st by auto
      with None show ?thesis by (simp add: dict_by_get [OF distinct])
    next
      case (Some a)
      then have a: "ja_attempt_id a = k" "a \<in> set st"
        using assms(1) by_id_values(1) [OF assms(1)] st by (auto simp: by_id_def)
      then have "(THE a. a \<in> set st \<and> ja_attempt_id a = k) = a"
        using distinct by (intro the_equality) (auto simp: distinct_map inj_on_def)
      with a Some show ?thesis by (auto simp: dict_by_get [OF distinct])
    qed
  qed
qed

text \<open>Placing an attempt in a history is merging it.\<close>

lemma place_merges:
  assumes "by_id d" and "sort_attempts (dict_values d) = st" and "place_attempt st a = Inr placed"
  obtains d' where "merge_attempt a d = Inr d'" and "by_id d'"
    and "sort_attempts (dict_values d') = (case placed of None \<Rightarrow> st | Some attempts \<Rightarrow> sort_attempts attempts)"
proof -
  note st = holds_schedule [OF assms(1,2)]
  let ?i = "length (takeWhile (\<lambda>item. ja_attempt_id item \<noteq> ja_attempt_id a) st)"
  have set_st: "set st = set (dict_values d)" using assms(2) by (auto simp: sort_attempts_def)
  have new_set: "set (dict_values (dict_set d (ja_attempt_id a) a)) = insert a {b \<in> set st. ja_attempt_id b \<noteq> ja_attempt_id a}"
    unfolding by_id_values(1) [OF by_id_set [OF assms(1)]] set_st by_id_values(1) [OF assms(1)] by auto
  have new_distinct: "distinct (map ja_attempt_id (dict_values (dict_set d (ja_attempt_id a) a)))"
    by (rule by_id_values(2) [OF by_id_set [OF assms(1)]])
  show thesis
  proof (cases "?i = length st")
    case True
    then have fresh: "\<forall>b \<in> set st. ja_attempt_id b \<noteq> ja_attempt_id a"
      by (metis (mono_tags, lifting) takeWhile_eq_all_conv takeWhile_eq_take take_all_iff le_refl)
    then have none: "dict_get d (ja_attempt_id a) = None"
      unfolding st(1) by (auto simp: dict_by_get [OF st(2)])
    have placed: "placed = Some (st @ [a])" using assms(3) True by (simp add: place_attempt_def)
    have "set (dict_values (dict_set d (ja_attempt_id a) a)) = set (st @ [a])" using fresh by (auto simp: new_set)
    moreover have "distinct (map ja_attempt_id (st @ [a]))" using st(2) fresh by auto
    ultimately have "sort_attempts (dict_values (dict_set d (ja_attempt_id a) a)) = sort_attempts (st @ [a])"
      using sort_attempts_same [OF new_distinct] by blast
    with none placed show thesis by (intro that [of "dict_set d (ja_attempt_id a) a"]) (simp_all add: merge_attempt_def by_id_set assms(1))
  next
    case False
    then have i: "?i < length st" by (metis length_takeWhile_le nless_le)
    let ?b = "st ! ?i"
    have b: "ja_attempt_id ?b = ja_attempt_id a" using nth_length_takeWhile [OF i] by simp
    have b_in: "?b \<in> set st" using i by simp
    have found: "dict_get d (ja_attempt_id a) = Some ?b"
    proof -
      have "(THE c. c \<in> set st \<and> ja_attempt_id c = ja_attempt_id a) = ?b"
        using st(2) b b_in by (intro the_equality) (auto simp: distinct_map inj_on_def)
      moreover have "ja_attempt_id a \<in> ja_attempt_id ` set st" using b b_in by (metis imageI)
      ultimately show ?thesis unfolding st(1) dict_by_get [OF st(2)] by simp
    qed
    show thesis
    proof (cases "no_transition ?b a")
      case True
      with assms(3) False have "?b = a" "placed = None" by (auto simp: place_attempt_def split: if_splits)
      with found True assms(1,2) show thesis by (intro that [of d]) (auto simp: merge_attempt_def)
    next
      case step: False
      with assms(3) False have placed: "placed = Some (st[?i := a])" by (auto simp: place_attempt_def)
      have ids: "map ja_attempt_id (st[?i := a]) = map ja_attempt_id st"
        using b by (metis list_update_id map_update nth_map i)
      have others: "c = ?b" if "c \<in> set st" "ja_attempt_id c = ja_attempt_id a" for c
        using st(2) that b b_in by (auto simp: distinct_map inj_on_def)
      have "set (st[?i := a]) = insert a (set st - {?b})"
        using st(2) i by (intro set_update_distinct) (auto simp: distinct_map)
      also have "\<dots> = set (dict_values (dict_set d (ja_attempt_id a) a))"
        unfolding new_set using others b by auto
      finally have "sort_attempts (dict_values (dict_set d (ja_attempt_id a) a)) = sort_attempts (st[?i := a])"
        using sort_attempts_same [OF new_distinct, of "st[?i := a]"] st(2) ids by simp
      with found step placed show thesis
        by (intro that [of "dict_set d (ja_attempt_id a) a"]) (simp_all add: merge_attempt_def by_id_set assms(1))
    qed
  qed
qed


section \<open>Reading what was written\<close>

lemma validate_attempt_same: "validate_attempt Z b a = Inr a' \<Longrightarrow> a' = a"
  by (auto simp: validate_attempt_def validate_lifecycle_def bind_r_eq_Inr split: if_splits attempt_status.splits)

lemma read_attempts_Inr: "read_attempts Z es = Inr es' \<longleftrightarrow> es' = es \<and> (\<forall>a \<in> set es. validate_attempt Z True a = Inr a)"
proof -
  have "traverse (validate_attempt Z True) es = Inr es' \<longleftrightarrow> es' = es \<and> (\<forall>a \<in> set es. validate_attempt Z True a = Inr a)" for es'
  proof (induction es arbitrary: es')
    case (Cons a es)
    show ?case
    proof (cases "validate_attempt Z True a")
      case (Inr b)
      with validate_attempt_same [OF Inr] Cons.IH show ?thesis
        by (cases "traverse (validate_attempt Z True) es") auto
    qed simp
  qed auto
  then show ?thesis by (auto simp: read_attempts_def split: sum.splits)
qed

definition legacy_attempts :: "zones \<Rightarrow> schedule_files \<Rightarrow> job_attempt list result" where
  "legacy_attempts Z files =
     (case sf_legacy files of None \<Rightarrow> Inr []
      | Some document \<Rightarrow> bind_r (validate_legacy Z document) (\<lambda>st. Inr (if sf_folded files then [] else st)))"

definition loaded :: "zones \<Rightarrow> job_attempt list \<Rightarrow> job_attempt list \<Rightarrow> job_attempt list \<Rightarrow> bool" where
  \<comment> \<open>merging the entries into the legacy attempts gives the history\<close>
  "loaded Z legacy entries st \<longleftrightarrow>
     (\<forall>a \<in> set entries. validate_attempt Z True a = Inr a) \<and> schedule_ok st \<and>
     (\<exists>d. merge_attempts entries (dict_by ja_attempt_id legacy) = Inr d \<and> sort_attempts (dict_values d) = st)"

definition journal_entries :: "schedule_files \<Rightarrow> job_attempt list" where
  "journal_entries files = sf_snapshot files @ sf_entries files"

lemma load_schedule_Inr:
  "load_schedule Z files = Inr st \<longleftrightarrow> (\<exists>legacy. legacy_attempts Z files = Inr legacy \<and> loaded Z legacy (journal_entries files) st)"
  by (auto simp: load_schedule_def legacy_attempts_def [symmetric] loaded_def journal_entries_def bind_r_eq_Inr read_attempts_Inr
      validate_attempts_Inr)

lemma loaded_append:
  assumes "loaded Z legacy entries st" and "validate_attempt Z True a = Inr a" and "place_attempt st a = Inr (Some attempts)"
    and "schedule_ok (sort_attempts attempts)"
  shows "loaded Z legacy (entries @ [a]) (sort_attempts attempts)"
proof -
  from assms(1) obtain d where d: "merge_attempts entries (dict_by ja_attempt_id legacy) = Inr d" "sort_attempts (dict_values d) = st"
    by (auto simp: loaded_def)
  have "by_id d" by (rule merge_attempts_get(2) [OF d(1) by_id_dict_by])
  from place_merges [OF this d(2) assms(3)] obtain d' where "merge_attempt a d = Inr d'" "sort_attempts (dict_values d') = sort_attempts attempts"
    by auto
  with assms d(1) show ?thesis by (auto simp: loaded_def merge_attempts_append)
qed

lemma reduced_subset: "set (reduce_schedule_attempts iso_text entries) \<subseteq> set entries"
proof
  fix a assume "a \<in> set (reduce_schedule_attempts iso_text entries)"
  then have "dict_get (dict_by ja_attempt_id entries) (ja_attempt_id a) = Some a"
    by (simp add: reduced_records(2) by_id_values(1) [OF by_id_dict_by])
  then show "a \<in> set entries" by (auto dest: dict_get_by_SomeD)
qed

lemma loaded_reduced:
  assumes "loaded Z [] entries st"
  shows "loaded Z [] (reduce_schedule_attempts iso_text entries) st"
proof -
  from assms obtain d where d: "merge_attempts entries [] = Inr d" "sort_attempts (dict_values d) = st"
    by (auto simp: loaded_def dict_by_def)
  from merge_reduced [OF d(1), of iso_text] obtain d' where d': "merge_attempts (reduce_schedule_attempts iso_text entries) [] = Inr d'"
    "by_id d'" "dict_get d' = dict_get d" by blast
  have "by_id d" by (rule merge_attempts_get(2) [OF d(1)]) simp
  from sort_values_same [OF d'(2) this d'(3)] d(2) have "sort_attempts (dict_values d') = st" by simp
  moreover note reduced_subset [of iso_text entries]
  ultimately show ?thesis using assms d'(1) by (auto simp: loaded_def dict_by_def)
qed

text \<open>Folding the legacy document into the journal.\<close>

lemma loaded_folded:
  assumes "loaded Z legacy entries st" and "schedule_ok legacy" and "\<forall>a \<in> set legacy. validate_attempt Z True a = Inr a"
  shows "loaded Z [] (reduce_schedule_attempts iso_text legacy @ entries) st"
proof -
  have distinct: "distinct (map ja_attempt_id legacy)" using assms(2) by (simp add: schedule_ok_def)
  from assms(1) obtain d where d: "merge_attempts entries (dict_by ja_attempt_id legacy) = Inr d" "sort_attempts (dict_values d) = st"
    by (auto simp: loaded_def)
  have "merge_attempts legacy [] = Inr (dict_by ja_attempt_id legacy)"
    unfolding dict_by_def by (rule merge_distinct [OF distinct]) simp
  from merge_reduced [OF this, of iso_text] obtain d0 where d0: "merge_attempts (reduce_schedule_attempts iso_text legacy) [] = Inr d0"
    "by_id d0" "dict_get d0 = dict_get (dict_by ja_attempt_id legacy)" by blast
  from merge_attempts_same [OF d0(3) [symmetric] d(1)] obtain d' where d': "merge_attempts entries d0 = Inr d'" "dict_get d' = dict_get d"
    by blast
  have "sort_attempts (dict_values d') = st"
    using sort_values_same [OF merge_attempts_get(2) [OF d'(1) d0(2)] merge_attempts_get(2) [OF d(1) by_id_dict_by] d'(2)] d(2) by simp
  then show ?thesis
    using assms d0(1) d'(1) reduced_records(3) [OF distinct, of iso_text]
    by (auto simp: loaded_def merge_attempts_append dict_by_def)
qed

lemma validate_legacy_Inr:
  "validate_legacy Z document = Inr st \<Longrightarrow> st = document \<and> schedule_ok document \<and> (\<forall>a \<in> set document. validate_attempt Z True a = Inr a)"
proof -
  assume "validate_legacy Z document = Inr st"
  then obtain x where "traverse (validate_attempt Z True) document = Inr x" "validate_attempts document = Inr st"
    by (cases "traverse (validate_attempt Z True) document"; cases "validate_attempts document") (simp_all add: validate_legacy_def)
  moreover from this(1) have "read_attempts Z document = Inr x" by (simp add: read_attempts_def)
  ultimately show ?thesis by (simp add: read_attempts_Inr validate_attempts_Inr)
qed

text \<open>
  Folding replaces the snapshot, so it is safe when there is nothing to fold or no snapshot yet.
\<close>

definition fold_safe :: "schedule_files \<Rightarrow> bool" where
  "fold_safe files \<longleftrightarrow> (\<forall>document. sf_legacy files = Some document \<longrightarrow> sf_folded files \<or> document = [] \<or> sf_snapshot files = [])"

lemma dict_by_not_empty: "x \<in> set xs \<Longrightarrow> dict_get (dict_by f xs) (f x) \<noteq> None"
  by (induction xs rule: rev_induct) (auto simp: dict_by_def)

lemma loaded_nothing:
  assumes "load_schedule Z files = Inr []"
  shows "fold_safe files"
proof -
  from assms obtain legacy d where d: "merge_attempts (journal_entries files) (dict_by ja_attempt_id legacy) = Inr d"
    "sort_attempts (dict_values d) = []" by (auto simp: load_schedule_Inr loaded_def)
  have "length d = length (sort_attempts (dict_values d))" by (simp add: sort_attempts_def dict_values_def)
  then have "d = []" unfolding d(2) by simp
  moreover have "dict_get d = dict_get (dict_by ja_attempt_id (legacy @ journal_entries files))"
    using merge_attempts_get(1) [OF d(1)] by (simp add: dict_by_def)
  ultimately have "dict_get (dict_by ja_attempt_id (legacy @ journal_entries files)) = dict_get []" by simp
  then have "dict_get (dict_by ja_attempt_id (legacy @ journal_entries files)) k = None" for k
    by (simp only: dict_get_Nil)
  then have "x \<notin> set (legacy @ journal_entries files)" for x
    using dict_by_not_empty [of x "legacy @ journal_entries files" ja_attempt_id] by auto
  then have "legacy @ journal_entries files = []" by (metis last_in_set)
  then show ?thesis by (simp add: fold_safe_def journal_entries_def)
qed

lemma fold_legacy_loads:
  assumes "load_schedule Z files = Inr st" and "fold_safe files"
  obtains files' where "fold_legacy Z iso_text files = (Inr (), files')" and "legacy_attempts Z files' = Inr []"
    and "loaded Z [] (journal_entries files') st" and "fold_safe files'"
proof -
  from assms obtain legacy where legacy: "legacy_attempts Z files = Inr legacy" "loaded Z legacy (journal_entries files) st"
    by (auto simp: load_schedule_Inr)
  show thesis
  proof (cases "sf_legacy files")
    case None
    with legacy show thesis
      by (intro that [of "files\<lparr>sf_legacy := Some []\<rparr>"])
        (auto simp: fold_legacy_def legacy_attempts_def validate_legacy_def validate_attempts_def journal_entries_def fold_safe_def)
  next
    case (Some document)
    with legacy(1) obtain doc where doc: "validate_legacy Z document = Inr doc" "legacy = (if sf_folded files then [] else doc)"
      by (auto simp: legacy_attempts_def bind_r_eq_Inr)
    note valid = validate_legacy_Inr [OF doc(1)]
    show thesis
    proof (cases "sf_folded files")
      case True
      with Some legacy doc show thesis by (intro that [of files]) (simp_all add: fold_legacy_def fold_safe_def)
    next
      case False
      let ?snapshot = "if doc = [] then sf_snapshot files else reduce_schedule_attempts iso_text doc"
      let ?files = "files\<lparr>sf_folded := True, sf_snapshot := ?snapshot\<rparr>"
      have "doc = [] \<or> sf_snapshot files = []" using assms(2) Some False valid by (auto simp: fold_safe_def)
      then have "loaded Z [] (journal_entries ?files) st"
        using loaded_folded [of Z doc "journal_entries files" st iso_text] legacy(2) doc(2) False valid
        by (auto simp: journal_entries_def)
      with Some False doc show thesis
        by (intro that [of ?files]) (simp_all add: fold_legacy_def legacy_attempts_def fold_safe_def)
    qed
  qed
qed

lemma written_schedule_loads:
  assumes "load_schedule Z files = Inr st" and "fold_safe files" and "validate_attempt Z True a = Inr a"
  shows "case write_attempt_from_state Z iso_text st a files of
      (Inl e, files') \<Rightarrow> files' = files
    | (Inr st', files') \<Rightarrow> load_schedule Z files' = Inr st' \<and> fold_safe files'"
proof (cases "place_attempt st a")
  case (Inl e)
  then show ?thesis by (simp add: write_attempt_from_state_def pure_c_def bind_c_def)
next
  case (Inr placed)
  show ?thesis
  proof (cases placed)
    case None
    with Inr assms show ?thesis by (simp add: write_attempt_from_state_def pure_c_def bind_c_def)
  next
    case (Some attempts)
    show ?thesis
    proof (cases "validate_attempts (sort_attempts attempts)")
      case (Inl e)
      with Inr Some show ?thesis by (simp add: write_attempt_from_state_def pure_c_def bind_c_def)
    next
      case valid: (Inr updated)
      then have updated: "updated = sort_attempts attempts" "schedule_ok (sort_attempts attempts)" by (simp_all add: validate_attempts_Inr)
      from fold_legacy_loads [OF assms(1,2)] obtain files' where files': "fold_legacy Z iso_text files = (Inr (), files')"
        "legacy_attempts Z files' = Inr []" "loaded Z [] (journal_entries files') st" "fold_safe files'" .
      let ?files = "files'\<lparr>sf_entries := sf_entries files' @ [a]\<rparr>"
      have "write_attempt_from_state Z iso_text st a files = (Inr updated, ?files)"
        using Inr Some valid files'(1) by (simp add: write_attempt_from_state_def pure_c_def bind_c_def append_attempt_def)
      moreover have "loaded Z [] (journal_entries ?files) updated"
        using loaded_append [OF files'(3) assms(3)] Inr Some updated by (simp add: journal_entries_def)
      moreover have "legacy_attempts Z ?files = Inr []" using files'(2) by (cases "sf_legacy files'") (simp_all add: legacy_attempts_def)
      moreover have "fold_safe ?files" using files'(4) by (simp add: fold_safe_def)
      ultimately show ?thesis by (auto simp: load_schedule_Inr)
    qed
  qed
qed

section \<open>The history on the journal\<close>

definition schedule_reducer ::
  "(job_attempt \<Rightarrow> 'r) \<Rightarrow> ('r \<Rightarrow> job_attempt option) \<Rightarrow> (utc \<Rightarrow> string) \<Rightarrow> 'r list \<Rightarrow> 'r list" where
  "schedule_reducer doc parse iso_text records = map doc (reduce_schedule_attempts iso_text (List.map_filter parse records))"

definition store_ok :: "'r schedule_store \<Rightarrow> (utc \<Rightarrow> string) \<Rightarrow> bool" where
  \<comment> \<open>the JSON codec, and the reducer of the store\<close>
  "store_ok H iso_text \<longleftrightarrow> codec_ok (jn_codec (hs_journal H)) \<and>
     jn_reducer (hs_journal H) = Some (schedule_reducer (hs_doc H) (hs_parse H) iso_text)"

definition readable :: "'r schedule_store \<Rightarrow> job_attempt \<Rightarrow> bool" where
  \<comment> \<open>a valid attempt whose document reads back as itself\<close>
  "readable H a \<longleftrightarrow> hs_parse H (hs_doc H a) = Some a \<and> validate_attempt (hs_zones H) True a = Inr a"

lemma parsed_docs: "\<forall>a \<in> set as. parse (doc a) = Some a \<Longrightarrow> List.map_filter parse (map doc as) = as"
  by (induction as) (simp_all add: List.map_filter_simps)

lemma read_docs: "\<forall>a \<in> set as. readable H a \<Longrightarrow> read_records H (map (hs_doc H) as) = Inr as"
proof -
  assume as: "\<forall>a \<in> set as. readable H a"
  then have "traverse (\<lambda>r. case hs_parse H r of None \<Rightarrow> Inl schedule_malformed | Some a \<Rightarrow> Inr a) (map (hs_doc H) as) = Inr as"
    by (induction as) (simp_all add: readable_def)
  with as show ?thesis by (simp add: read_records_def read_attempts_Inr readable_def)
qed

lemma reduced_docs:
  assumes "store_ok H iso_text" and "\<forall>a \<in> set as. readable H a"
  shows "reduced None (hs_journal H) (map (hs_doc H) as) = map (hs_doc H) (reduce_schedule_attempts iso_text as)"
proof -
  have "List.map_filter (hs_parse H) (map (hs_doc H) as) = as" using assms(2) by (intro parsed_docs) (simp add: readable_def)
  with assms(1) show ?thesis by (simp add: store_ok_def reduced_def schedule_reducer_def)
qed

text \<open>
  The files of a store: none; a document the journal has not folded, either because nothing was
  written yet or because it has no attempts; or a document folded for good.
\<close>

definition on_disk :: "'r schedule_store \<Rightarrow> job_attempt list \<Rightarrow> schedule_disk \<Rightarrow> bool" where
  "on_disk H st = (\<lambda>(document, fs). \<exists>es. (\<forall>a \<in> set es. readable H a) \<and> journal_ok (hs_journal H) fs (map (hs_doc H) es) \<and>
     (case document of
        None \<Rightarrow> fs = [] \<and> st = []
      | Some d \<Rightarrow> schedule_ok d \<and> (\<forall>a \<in> set d. readable H a) \<and>
          (fs = [] \<and> st = d \<or> (d = [] \<or> legacy_settled (hs_journal H) fs) \<and> loaded (hs_zones H) [] es st)))"

lemma on_disk_Some:
  assumes "schedule_ok d" and "\<forall>a \<in> set d. readable H a" and "\<forall>a \<in> set es. readable H a"
    and "journal_ok (hs_journal H) fs (map (hs_doc H) es)"
    and "fs = [] \<and> st = d \<or> (d = [] \<or> legacy_settled (hs_journal H) fs) \<and> loaded (hs_zones H) [] es st"
  shows "on_disk H st (Some d, fs)"
  using assms unfolding on_disk_def by auto

lemma validate_legacy_ok:
  assumes "schedule_ok d" and "\<forall>a \<in> set d. validate_attempt Z True a = Inr a"
  shows "validate_legacy Z d = Inr d"
proof -
  have "read_attempts Z d = Inr d" using assms(2) by (simp add: read_attempts_Inr)
  then have "traverse (validate_attempt Z True) d = Inr d" by (simp add: read_attempts_def split: sum.splits)
  moreover have "validate_attempts d = Inr d" using assms(1) by (simp add: validate_attempts_Inr)
  ultimately show ?thesis by (simp add: validate_legacy_def)
qed

lemma loaded_itself:
  assumes "schedule_ok d"
  shows "loaded Z d [] d"
proof -
  have "distinct (map ja_attempt_id d)" using assms by (simp add: schedule_ok_def)
  then show ?thesis using assms sorted_schedule [OF assms] by (simp add: loaded_def dict_by_values)
qed

lemma journal_none: "journal_ok J [] entries \<Longrightarrow> entries = []"
  by (auto simp: journal_ok_def journal_state_def)

lemma on_disk_folded:
  assumes "on_disk H st (Some d, fs)" and "run_io (has_legacy_v1_folded (hs_journal H)) fs = (fs, Inr folded)"
  shows "\<exists>es. (\<forall>a \<in> set es. readable H a) \<and> journal_ok (hs_journal H) fs (map (hs_doc H) es) \<and>
    loaded (hs_zones H) (if folded then [] else d) es st"
proof -
  let ?J = "hs_journal H"
  from assms(1) obtain es where es: "\<forall>a \<in> set es. readable H a" "journal_ok ?J fs (map (hs_doc H) es)" and d: "schedule_ok d"
    and st: "fs = [] \<and> st = d \<or> (d = [] \<or> legacy_settled ?J fs) \<and> loaded (hs_zones H) [] es st" by (auto simp: on_disk_def)
  have "loaded (hs_zones H) (if folded then [] else d) es st"
  proof (cases "fs = [] \<and> st = d")
    case True
    have "dict_get ([] :: files) manifest_name = None" by simp
    then have "run_io (has_legacy_v1_folded ?J) [] = ([], Inr False)" by (simp add: has_legacy_v1_folded_def)
    with assms(2) True have "\<not> folded" by simp
    moreover have "es = []" using es(2) True journal_none by force
    ultimately show ?thesis using True loaded_itself [OF d] by simp
  next
    case False
    then have "d = [] \<or> folded" "loaded (hs_zones H) [] es st"
      using st settled_has_folded [of ?J fs] assms(2) by auto
    then show ?thesis by auto
  qed
  with es show ?thesis by blast
qed

lemma load_on_disk:
  assumes "store_ok H iso_text" and "on_disk H st (document, fs)"
  shows "load_fresh H (document, fs) = (Inr st, (document, fs))"
proof (cases document)
  case None
  with assms(2) have "fs = []" "st = []" by (auto simp: on_disk_def)
  with None show ?thesis by (simp add: load_fresh_def has_data_def)
next
  case (Some d)
  let ?J = "hs_journal H" and ?Z = "hs_zones H"
  from assms(2) Some obtain es0 where "journal_ok ?J fs (map (hs_doc H) es0)" and d: "schedule_ok d" "\<forall>a \<in> set d. readable H a"
    by (auto simp: on_disk_def)
  from run_has_folded [OF this(1)] obtain folded where folded: "run_io (has_legacy_v1_folded ?J) fs = (fs, Inr folded)" ..
  from on_disk_folded [OF _ folded, of st d] assms(2) Some obtain es where es: "\<forall>a \<in> set es. readable H a"
    "journal_ok ?J fs (map (hs_doc H) es)" "loaded ?Z (if folded then [] else d) es st" by auto
  have "codec_ok (jn_codec ?J)" using assms(1) by (simp add: store_ok_def)
  note entries = run_read_entries [OF this es(2)]
  have "validate_legacy ?Z d = Inr d" using d by (intro validate_legacy_ok) (auto simp: readable_def)
  moreover from es(3) obtain by_id where "merge_attempts es (dict_by ja_attempt_id (if folded then [] else d)) = Inr by_id"
    "sort_attempts (dict_values by_id) = st" "validate_attempts st = Inr st" by (auto simp: loaded_def validate_attempts_Inr)
  ultimately show ?thesis
    using Some folded entries read_docs [OF es(1)]
    by (simp add: load_fresh_def bind_c_def pure_c_def journal_c_def or_malformed_def)
qed

text \<open>What the next record is appended to.\<close>

lemma fold_on_disk:
  assumes "store_ok H iso_text" and "on_disk H st (document, fs)"
  shows "\<exists>d fs' es. bind_c (fold_document H) (\<lambda>_. create_document) (document, fs) = (Inr (), (Some d, fs')) \<and>
    document \<in> {None, Some d} \<and> schedule_ok d \<and> (\<forall>a \<in> set d. readable H a) \<and> (\<forall>a \<in> set es. readable H a) \<and>
    journal_ok (hs_journal H) fs' (map (hs_doc H) es) \<and> (d = [] \<or> legacy_settled (hs_journal H) fs') \<and> loaded (hs_zones H) [] es st"
proof (cases document)
  case None
  with assms(2) have "fs = []" "st = []" by (auto simp: on_disk_def)
  moreover have "journal_ok (hs_journal H) [] []" by (simp add: journal_ok_def)
  moreover have empty: "schedule_ok []" by (simp add: schedule_ok_def)
  ultimately show ?thesis using None loaded_itself [OF empty, of "hs_zones H"]
    by (intro exI [of _ "[]"]) (simp add: fold_document_def create_document_def bind_c_def)
next
  case (Some d)
  let ?J = "hs_journal H" and ?Z = "hs_zones H"
  have codec: "codec_ok (jn_codec ?J)" using assms(1) by (simp add: store_ok_def)
  from assms(2) Some obtain es0 where es0: "\<forall>a \<in> set es0. readable H a" "journal_ok ?J fs (map (hs_doc H) es0)"
    and d: "schedule_ok d" "\<forall>a \<in> set d. readable H a"
    and st: "fs = [] \<and> st = d \<or> (d = [] \<or> legacy_settled ?J fs) \<and> loaded ?Z [] es0 st"
    by (auto simp: on_disk_def)
  from run_has_folded [OF es0(2)] obtain folded where folded: "run_io (has_legacy_v1_folded ?J) fs = (fs, Inr folded)" ..
  from on_disk_folded [OF _ folded, of st d] assms(2) Some obtain es where es: "\<forall>a \<in> set es. readable H a"
    "journal_ok ?J fs (map (hs_doc H) es)" "loaded ?Z (if folded then [] else d) es st" by auto
  have valid: "\<forall>a \<in> set d. validate_attempt ?Z True a = Inr a" using d(2) by (simp add: readable_def)
  then have legacy: "validate_legacy ?Z d = Inr d" by (rule validate_legacy_ok [OF d(1)])
  show ?thesis
  proof (cases folded)
    case True
    have settled: "d = [] \<or> legacy_settled ?J fs"
      using st folded True by (auto simp: has_legacy_v1_folded_def)
    have "bind_c (fold_document H) (\<lambda>_. create_document) (document, fs) = (Inr (), (Some d, fs))"
      using Some True folded by (simp add: fold_document_def create_document_def bind_c_def pure_c_def journal_c_def)
    with Some d es True settled show ?thesis by (intro exI [of _ d] exI [of _ fs] exI [of _ es]) simp
  next
    case False
    show ?thesis
    proof (cases "d = []")
      case True
      from run_mark_legacy [OF codec es(2)] obtain fs' where
        marked: "run_io (mark_legacy_v1_folded ?J) fs = (fs', Inr ())" "journal_ok ?J fs' (map (hs_doc H) es)" by blast
      have "bind_c (fold_document H) (\<lambda>_. create_document) (document, fs) = (Inr (), (Some d, fs'))"
        using Some False True folded marked(1) legacy by (simp add: fold_document_def create_document_def bind_c_def pure_c_def journal_c_def)
      with Some d es False True marked(2) show ?thesis by (intro exI [of _ d] exI [of _ fs'] exI [of _ es]) simp
    next
      case nonempty: False
      then have fs: "fs = []" using st False folded settled_has_folded [of ?J fs] by auto
      with es(2) have es_none: "es = []" using journal_none by force
      from run_initialize_legacy [OF codec, of "map (hs_doc H) d"] obtain fs' where
        init: "run_io (initialize_snapshot_with_legacy ?J (map (hs_doc H) d)) [] = (fs', Inr ())" "legacy_settled ?J fs'"
        "journal_ok ?J fs' (reduced None ?J (map (hs_doc H) d))" by blast
      let ?es = "reduce_schedule_attempts iso_text d"
      have "journal_ok ?J fs' (map (hs_doc H) ?es)" using init(3) reduced_docs [OF assms(1) d(2)] by simp
      moreover have "loaded ?Z [] ?es st" using loaded_folded [of ?Z d es st iso_text] es(3) False d(1) valid es_none by simp
      moreover have "\<forall>a \<in> set ?es. readable H a" using d(2) reduced_subset [of iso_text d] by auto
      moreover have "bind_c (fold_document H) (\<lambda>_. create_document) (document, fs) = (Inr (), (Some d, fs'))"
        using Some False nonempty folded init(1) legacy fs
        by (simp add: fold_document_def create_document_def bind_c_def pure_c_def journal_c_def)
      ultimately show ?thesis using Some d init(2) by (intro exI [of _ d] exI [of _ fs'] exI [of _ ?es]) simp
    qed
  qed
qed

lemma write_on_disk:
  assumes "store_ok H iso_text" and "on_disk H st (document, fs)" and "readable H a"
  shows "case write_attempt_to_store H now st a (document, fs) of
      (Inl e, disk) \<Rightarrow> disk = (document, fs)
    | (Inr st', disk) \<Rightarrow> on_disk H st' disk \<and> (document \<noteq> None \<longrightarrow> fst disk = document)"
    and "fst (write_attempt_to_store H now st a (document, fs)) = bind_r (place_attempt st a) (\<lambda>placed.
      case placed of None \<Rightarrow> Inr st | Some attempts \<Rightarrow> validate_attempts (sort_attempts attempts))"
proof -
  let ?J = "hs_journal H" and ?Z = "hs_zones H"
  have codec: "codec_ok (jn_codec ?J)" using assms(1) by (simp add: store_ok_def)
  have outcome: "(case write_attempt_to_store H now st a (document, fs) of
      (Inl e, disk) \<Rightarrow> disk = (document, fs)
    | (Inr st', disk) \<Rightarrow> on_disk H st' disk \<and> (document \<noteq> None \<longrightarrow> fst disk = document)) \<and>
    fst (write_attempt_to_store H now st a (document, fs)) = bind_r (place_attempt st a) (\<lambda>placed.
      case placed of None \<Rightarrow> Inr st | Some attempts \<Rightarrow> validate_attempts (sort_attempts attempts))"
  proof (cases "\<exists>attempts. place_attempt st a = Inr (Some attempts) \<and> schedule_ok (sort_attempts attempts)")
    case False
    then show ?thesis using assms(2)
      by (auto simp: write_attempt_to_store_def bind_c_def pure_c_def validate_attempts_Inr split: sum.split option.split prod.split)
  next
    case True
    then obtain attempts where placed: "place_attempt st a = Inr (Some attempts)" and ok: "schedule_ok (sort_attempts attempts)" by blast
    then have valid: "validate_attempts (sort_attempts attempts) = Inr (sort_attempts attempts)" by (simp add: validate_attempts_Inr)
    from fold_on_disk [OF assms(1,2)] obtain d fs1 es where
      folded: "bind_c (fold_document H) (\<lambda>_. create_document) (document, fs) = (Inr (), (Some d, fs1))"
      and d: "document \<in> {None, Some d}" "schedule_ok d" "\<forall>a \<in> set d. readable H a"
      and es: "\<forall>a \<in> set es. readable H a" "journal_ok ?J fs1 (map (hs_doc H) es)" "d = [] \<or> legacy_settled ?J fs1" "loaded ?Z [] es st"
      by blast
    from run_append_settled [OF codec es(2), of now "hs_doc H a"] obtain fs2 where
      run: "run_io (append_record ?J now (hs_doc H a)) fs1 = (fs2, Inr ())" and settled: "legacy_settled ?J fs1 \<longrightarrow> legacy_settled ?J fs2"
      and kept_or: "journal_ok ?J fs2 (map (hs_doc H) (es @ [a])) \<or> journal_ok ?J fs2 (reduced None ?J (map (hs_doc H) (es @ [a])))" by auto
    have wrote: "write_attempt_to_store H now st a (document, fs) = (Inr (sort_attempts attempts), (Some d, fs2))"
    proof -
      have "bind_c (fold_document H) (\<lambda>_. bind_c create_document g) = bind_c (bind_c (fold_document H) (\<lambda>_. create_document)) g" for g :: "unit \<Rightarrow> (job_attempt list, schedule_disk) command"
        by (auto simp: fun_eq_iff bind_c_def split: prod.split sum.split)
      moreover have "journal_c (append_record ?J now (hs_doc H a)) (Some d, fs1) = (Inr (), (Some d, fs2))"
        using run by (simp add: journal_c_def)
      ultimately show ?thesis
        using placed valid folded by (simp add: write_attempt_to_store_def bind_c_def [of "pure_c _"] bind_c_def [of "bind_c _ _"]
            bind_c_def [of "journal_c _"] pure_c_def)
    qed
    have docs: "\<forall>x \<in> set (es @ [a]). readable H x" using es(1) assms(3) by simp
    have loaded: "loaded ?Z [] (es @ [a]) (sort_attempts attempts)"
      using loaded_append [OF es(4) _ placed ok] assms(3) by (simp add: readable_def)
    have "on_disk H (sort_attempts attempts) (Some d, fs2)"
    proof (cases "journal_ok ?J fs2 (map (hs_doc H) (es @ [a]))")
      case True
      then show ?thesis by (rule on_disk_Some [OF d(2,3) docs]) (use loaded es(3) settled in blast)
    next
      case False
      let ?es = "reduce_schedule_attempts iso_text (es @ [a])"
      have "journal_ok ?J fs2 (map (hs_doc H) ?es)" using kept_or False reduced_docs [OF assms(1) docs] by simp
      moreover have "\<forall>x \<in> set ?es. readable H x" using docs reduced_subset [of iso_text "es @ [a]"] by blast
      ultimately show ?thesis
        by (intro on_disk_Some [OF d(2,3)]) (use loaded_reduced [OF loaded, of iso_text] es(3) settled in blast)+
    qed
    with wrote d(1) placed valid show ?thesis by auto
  qed
  from conjunct1 [OF outcome] show "case write_attempt_to_store H now st a (document, fs) of
      (Inl e, disk) \<Rightarrow> disk = (document, fs)
    | (Inr st', disk) \<Rightarrow> on_disk H st' disk \<and> (document \<noteq> None \<longrightarrow> fst disk = document)" .
  from conjunct2 [OF outcome] show "fst (write_attempt_to_store H now st a (document, fs)) = bind_r (place_attempt st a) (\<lambda>placed.
      case placed of None \<Rightarrow> Inr st | Some attempts \<Rightarrow> validate_attempts (sort_attempts attempts))" .
qed

text \<open>A sequence of writes; one that raises leaves the history in memory as it was.\<close>

definition attempt_write :: "'r schedule_store \<Rightarrow> utc \<times> job_attempt \<Rightarrow> job_attempt list \<times> schedule_disk \<Rightarrow> job_attempt list \<times> schedule_disk" where
  "attempt_write H = (\<lambda>(now, a) (st, disk).
     case write_attempt_to_store H now st a disk of (Inl e, disk') \<Rightarrow> (st, disk') | (Inr st', disk') \<Rightarrow> (st', disk'))"

definition attempt_record ::
  "zones \<Rightarrow> (utc \<Rightarrow> string) \<Rightarrow> utc \<times> job_attempt \<Rightarrow> job_attempt list \<times> schedule_files \<Rightarrow> job_attempt list \<times> schedule_files" where
  \<comment> \<open>the same write on the records\<close>
  "attempt_record Z iso_text = (\<lambda>(now, a) (st, files).
     case write_attempt_from_state Z iso_text st a files of (Inl e, files') \<Rightarrow> (st, files') | (Inr st', files') \<Rightarrow> (st', files'))"

lemma write_result:
  assumes "load_schedule Z files = Inr st" and "fold_safe files"
  shows "fst (write_attempt_from_state Z iso_text st a files) = bind_r (place_attempt st a) (\<lambda>placed.
      case placed of None \<Rightarrow> Inr st | Some attempts \<Rightarrow> validate_attempts (sort_attempts attempts))"
proof -
  from fold_legacy_loads [OF assms, of iso_text] obtain files' where "fold_legacy Z iso_text files = (Inr (), files')" .
  then show ?thesis
    by (cases "place_attempt st a")
      (auto simp: write_attempt_from_state_def bind_c_def pure_c_def append_attempt_def split: option.split sum.split)
qed

lemma write_both:
  assumes "store_ok H iso_text" and "readable H a" and "on_disk H st (document, fs)"
    and "load_schedule (hs_zones H) files = Inr st" and "fold_safe files"
  shows "\<exists>st' document' fs' files'. attempt_write H (now, a) (st, (document, fs)) = (st', (document', fs')) \<and>
    attempt_record (hs_zones H) iso_text (now, a) (st, files) = (st', files') \<and> on_disk H st' (document', fs') \<and>
    load_schedule (hs_zones H) files' = Inr st' \<and> fold_safe files' \<and> (document \<noteq> None \<longrightarrow> document' = document)"
proof -
  obtain r document' fs' where disk: "write_attempt_to_store H now st a (document, fs) = (r, (document', fs'))"
    by (cases "write_attempt_to_store H now st a (document, fs)") auto
  obtain r' files' where files: "write_attempt_from_state (hs_zones H) iso_text st a files = (r', files')" by force
  note step = write_on_disk [OF assms(1,3,2), of now]
  have "r' = r" using step(2) disk write_result [OF assms(4,5), of iso_text a] files by simp
  moreover have "validate_attempt (hs_zones H) True a = Inr a" using assms(2) by (simp add: readable_def)
  note written_schedule_loads [OF assms(4,5) this, of iso_text]
  ultimately show ?thesis
    using step(1) disk files assms(3-5)
    by (cases r) (auto simp: attempt_write_def attempt_record_def)
qed

lemma writes_both:
  assumes "store_ok H iso_text" and "\<forall>(now, a) \<in> set writes. readable H a" and "on_disk H st (document, fs)"
    and "load_schedule (hs_zones H) files = Inr st" and "fold_safe files"
  shows "\<exists>st' document' fs' files'. fold (attempt_write H) writes (st, (document, fs)) = (st', (document', fs')) \<and>
    fold (attempt_record (hs_zones H) iso_text) writes (st, files) = (st', files') \<and> on_disk H st' (document', fs') \<and>
    load_schedule (hs_zones H) files' = Inr st' \<and> (document \<noteq> None \<longrightarrow> document' = document)"
  using assms(2-)
proof (induction writes arbitrary: st document fs files)
  case (Cons w ws)
  obtain now a where w: "w = (now, a)" by force
  with Cons.prems(1) have "readable H a" by simp
  from write_both [OF assms(1) this Cons.prems(2-4), of now] obtain st' document1 fs1 files1 where
    step: "attempt_write H w (st, (document, fs)) = (st', (document1, fs1))" "attempt_record (hs_zones H) iso_text w (st, files) = (st', files1)"
    and next_ok: "on_disk H st' (document1, fs1)" "load_schedule (hs_zones H) files1 = Inr st'" "fold_safe files1" "document \<noteq> None \<longrightarrow> document1 = document"
    unfolding w by blast
  have "\<forall>(now, a) \<in> set ws. readable H a" using Cons.prems(1) by simp
  from Cons.IH [OF this next_ok(1-3)] show ?case using step next_ok(4) by auto
qed auto

lemma starts_on_disk:
  assumes "\<forall>d. document = Some d \<longrightarrow> (\<forall>a \<in> set d. readable H a)" and "load_fresh H (document, []) = (Inr st, (document, []))"
  shows "on_disk H st (document, [])"
    and "load_schedule (hs_zones H) \<lparr>sf_legacy = document, sf_folded = False, sf_snapshot = [], sf_entries = []\<rparr> = Inr st"
proof -
  let ?Z = "hs_zones H" and ?files = "\<lparr>sf_legacy = document, sf_folded = False, sf_snapshot = [], sf_entries = []\<rparr>"
  have ok: "journal_ok (hs_journal H) [] []" by (simp add: journal_ok_def)
  have "on_disk H st (document, []) \<and> load_schedule ?Z ?files = Inr st"
  proof (cases document)
    case None
    with assms(2) have "st = []" by (simp add: load_fresh_def has_data_def)
    with None ok show ?thesis
      by (auto simp: on_disk_def load_schedule_Inr legacy_attempts_def journal_entries_def loaded_itself schedule_ok_def intro!: exI [of _ "[]"])
  next
    case (Some d)
    have "dict_get ([] :: files) manifest_name = None" by simp
    then have none: "run_io (has_legacy_v1_folded (hs_journal H)) [] = ([], Inr False)" "run_io (read_entries (hs_journal H)) [] = ([], Inr [])"
      by (simp_all add: has_legacy_v1_folded_def read_entries_def)
    from assms(2) Some obtain st1 where legacy: "validate_legacy ?Z d = Inr st1"
      by (cases "validate_legacy ?Z d") (auto simp: load_fresh_def bind_c_def pure_c_def)
    note d = validate_legacy_Inr [OF this]
    from d have schedule: "schedule_ok d" by blast
    have "read_records H [] = Inr []" by (simp add: read_records_def read_attempts_Inr)
    moreover from loaded_itself [OF schedule, of ?Z] have "validate_attempts (sort_attempts (dict_values (dict_by ja_attempt_id d))) = Inr d"
      by (auto simp: loaded_def validate_attempts_Inr)
    ultimately have "st = d"
      using assms(2) Some none legacy d by (simp add: load_fresh_def bind_c_def pure_c_def journal_c_def or_malformed_def)
    moreover have "load_schedule ?Z ?files = Inr d"
      using Some d legacy loaded_itself [OF schedule, of ?Z] by (auto simp: load_schedule_Inr legacy_attempts_def journal_entries_def)
    ultimately show ?thesis using Some assms(1) ok on_disk_Some [OF schedule, of H "[]" "[]" d] by auto
  qed
  then show "on_disk H st (document, [])" and "load_schedule ?Z ?files = Inr st" by blast+
qed

text \<open>
  Property C5. The files of the scheduler's store implement the history. Starting from an absent or
  a readable legacy document and no journal, after any sequence of writes, returning or raising, of
  attempts whose JSON document is read back as the attempt,
  with the folding of the document, the creation of an empty one and all the rotations and
  compactions the journal's limits cause: loading the files gives exactly the history in memory,
  which is also what the store of records on which the scheduler is modelled has made of the same
  writes and what it loads; and an existing document is never altered.
\<close>

theorem schedule_survives_journal:
  assumes "store_ok H iso_text" and "\<forall>(now, a) \<in> set writes. readable H a" and "\<forall>d. document = Some d \<longrightarrow> (\<forall>a \<in> set d. readable H a)"
    and "load_fresh H (document, []) = (Inr st0, (document, []))"
    and "fold (attempt_write H) writes (st0, (document, [])) = (st, (document', fs))"
    and "fold (attempt_record (hs_zones H) iso_text) writes
      (st0, \<lparr>sf_legacy = document, sf_folded = False, sf_snapshot = [], sf_entries = []\<rparr>) = (records, files)"
  shows "load_fresh H (document', fs) = (Inr st, (document', fs)) \<and> records = st \<and> load_schedule (hs_zones H) files = Inr st \<and>
    (document \<noteq> None \<longrightarrow> document' = document)"
proof -
  note start = starts_on_disk [OF assms(3,4)]
  have "fold_safe \<lparr>sf_legacy = document, sf_folded = False, sf_snapshot = [], sf_entries = []\<rparr>" by (simp add: fold_safe_def)
  from writes_both [OF assms(1,2) start this] assms(5,6) have "records = st" "on_disk H st (document', fs)"
    "load_schedule (hs_zones H) files = Inr st" "document \<noteq> None \<longrightarrow> document' = document" by auto
  with load_on_disk [OF assms(1)] show ?thesis by blast
qed

end
