(* ===== verification/SchedulerProperties.thy ===== *)
theory SchedulerProperties
  imports Scheduler ScheduleStoreProperties
begin

text \<open>
  The scheduler over its reachable states: the status index agrees with the history, every day of
  a job is a bounded sequence of retries, and a tick runs every due job.
\<close>

section \<open>The history index\<close>

lemma attempts_for_append: "attempts_for (st @ [a]) job_id local_date =
    attempts_for st job_id local_date @ (if ja_job_id a = job_id \<and> ja_local_date a = local_date then [a] else [])"
  by (simp add: attempts_for_def)

lemma index_agrees:
  "attempts_on (view_of (build_index st) job_id) local_date = attempts_for st job_id local_date"
  "hv_latest (view_of (build_index st) job_id) = dict_get (latest_by_job st) job_id"
  "hv_latest_success (view_of (build_index st) job_id) = dict_get (latest_success_by_job st) job_id"
proof (induction st rule: rev_induct)
  case Nil
  {
    case 1 show ?case by (simp add: build_index_def view_of_def empty_view_def attempts_on_def attempts_for_def)
  next
    case 2 show ?case by (simp add: build_index_def view_of_def empty_view_def latest_by_job_def dict_by_def)
  next
    case 3 show ?case by (simp add: build_index_def view_of_def empty_view_def latest_success_by_job_def dict_by_def)
  }
next
  case (snoc a st)
  have build: "build_index (st @ [a]) = index_attempt a (build_index st)" by (simp add: build_index_def)
  let ?v = "view_of (build_index st) (ja_job_id a)"
  have view: "view_of (build_index (st @ [a])) k = (if k = ja_job_id a
      then ?v\<lparr>hv_by_date := dict_set (hv_by_date ?v) (ja_local_date a) (attempts_on ?v (ja_local_date a) @ [a]),
              hv_latest := Some a, hv_latest_success := (if ja_status a = Succeeded then Some a else hv_latest_success ?v)\<rparr>
      else view_of (build_index st) k)" for k
    by (simp add: build index_attempt_def Let_def view_of_def)
  {
    case 1
    then show ?case using snoc.IH(1)
      by (cases "job_id = ja_job_id a"; cases "local_date = ja_local_date a") (auto simp: view attempts_for_append attempts_on_def)
  next
    case 2
    then show ?case using snoc.IH(2) by (simp add: view latest_by_job_def dict_by_def)
  next
    case 3
    then show ?case using snoc.IH(3)
      by (cases "job_id = ja_job_id a") (simp_all add: view latest_success_by_job_def dict_by_def)
  }
qed

lemma status_at_Inr:
  assumes "jobs \<noteq> []" and "sorted (map jd_job_id jobs)"
  obtains s where "status_at Z active observer_issue tick_issue now st jobs = Inr s"
    and "ss_jobs s = map (\<lambda>d. job_status_at Z active d now st) jobs"
proof -
  let ?statuses = "map (\<lambda>d. job_status_at Z active d now st) jobs"
  obtain m where m: "py_min (map js_next_run_at ?statuses) = Some m" using assms(1) by (cases jobs) simp_all
  have "(\<lambda>js. jd_job_id (js_definition js)) \<circ> (\<lambda>d. job_status_at Z active d now st) = jd_job_id"
    by (simp add: fun_eq_iff job_status_at_def job_status_from_def Let_def split: prod.splits)
  then have "\<exists>s. status_at Z active observer_issue tick_issue now st jobs = Inr s \<and> ss_jobs s = ?statuses"
    unfolding status_at_def Let_def index_agrees job_status_at_def [symmetric] m option.case validate_scheduler_status_def
    using assms m by simp
  then show thesis using that by blast
qed

section \<open>Days\<close>

text \<open>\<open>b\<close> is a retry of \<open>a\<close>, no earlier than its backoff allows.\<close>

definition retried :: "job_attempt \<Rightarrow> job_attempt \<Rightarrow> bool" where
  "retried a b \<longleftrightarrow>
     (\<exists>f t. ja_failure a = Some f \<and> jf_retryable f \<and> ja_completed_at a = Some t \<and>
       t + seconds (retry_delay_seconds (ja_definition b) (ja_attempt_number a)) \<le> ja_started_at b)"

definition day_ok :: "job_attempt list \<Rightarrow> bool" where
  "day_ok as \<longleftrightarrow>
     map ja_attempt_number as = map (\<lambda>i. int i + 1) [0..<length as] \<and>
     (\<forall>a \<in> set as. ja_attempt_number a \<le> jd_max_attempts_per_day (ja_definition a)) \<and> successively retried as"

definition same_slot :: "job_attempt \<Rightarrow> job_attempt \<Rightarrow> bool" where
  \<comment> \<open>two records of one attempt\<close>
  "same_slot a b \<longleftrightarrow>
     ja_attempt_id a = ja_attempt_id b \<and> ja_definition a = ja_definition b \<and> ja_local_date a = ja_local_date b \<and>
     ja_attempt_number a = ja_attempt_number b \<and> ja_started_at a = ja_started_at b"

lemma same_slot_order: "same_slot a b \<Longrightarrow> attempt_order a = attempt_order b \<and> ja_job_id a = ja_job_id b"
  by (simp add: same_slot_def attempt_order_def ja_job_id_def)

lemma day_ok_append:
  assumes "day_ok as" and "ja_attempt_number b = int (length as) + 1" and "as = [] \<or> retried (last as) b"
    and "ja_attempt_number b \<le> jd_max_attempts_per_day (ja_definition b)"
  shows "day_ok (as @ [b])"
  using assms by (auto simp: day_ok_def successively_append_iff)

lemma day_ok_update:
  assumes "day_ok (as @ [a] @ bs)" and "ja_failure a = None" and "same_slot a c"
  shows "bs = []" and "day_ok (as @ [c])"
proof -
  from assms(1) have "successively retried (as @ [a] @ bs)" by (simp add: day_ok_def)
  then show bs: "bs = []" using assms(2) by (cases bs) (auto simp: successively_append_iff retried_def)
  have "retried b a = retried b c" for b using assms(3) by (simp add: retried_def same_slot_def)
  with assms(1,3) show "day_ok (as @ [c])"
    unfolding bs by (auto simp: day_ok_def successively_append_iff same_slot_def)
qed

section \<open>Histories\<close>

definition attempts_history_ok :: "job_attempt list \<Rightarrow> bool" where
  "attempts_history_ok st \<longleftrightarrow> (\<forall>job_id local_date. day_ok (attempts_for st job_id local_date))"

lemma history_ok_Nil: "attempts_history_ok []"
  by (simp add: attempts_history_ok_def attempts_for_def day_ok_def)

lemma attempts_for_sorted: "attempts_for (sort_attempts st) job_id local_date = sort_attempts (attempts_for st job_id local_date)"
  by (simp add: attempts_for_def sort_attempts_def filter_sort)

lemma sorted_attempts_for: "sorted (map attempt_order st) \<Longrightarrow> sorted (map attempt_order (attempts_for st job_id local_date))"
  by (simp add: attempts_for_def sorted_filter)

text \<open>A new attempt is the last of its day, wherever it comes in the history.\<close>

lemma attempts_for_insert:
  assumes "sorted (map attempt_order st)"
    and "\<forall>a \<in> set (attempts_for st (ja_job_id b) (ja_local_date b)). attempt_order a \<le> attempt_order b"
  shows "attempts_for (sort_attempts (st @ [b])) job_id local_date =
    attempts_for st job_id local_date @ (if ja_job_id b = job_id \<and> ja_local_date b = local_date then [b] else [])"
proof -
  let ?new = "attempts_for st job_id local_date @ (if ja_job_id b = job_id \<and> ja_local_date b = local_date then [b] else [])"
  have "sorted (map attempt_order ?new)"
    using sorted_attempts_for [OF assms(1), of job_id local_date] assms(2) by (auto simp: sorted_append)
  then have "sort_attempts ?new = ?new" unfolding sort_attempts_def by (rule sort_key_id_if_sorted)
  then show ?thesis unfolding attempts_for_sorted attempts_for_append .
qed

lemma history_insert:
  assumes "attempts_history_ok st" and "sorted (map attempt_order st)"
    and "\<forall>a \<in> set (attempts_for st (ja_job_id b) (ja_local_date b)). attempt_order a \<le> attempt_order b"
    and "day_ok (attempts_for st (ja_job_id b) (ja_local_date b) @ [b])"
  shows "attempts_history_ok (sort_attempts (st @ [b]))"
  using assms(1,4) by (auto simp: attempts_history_ok_def attempts_for_insert [OF assms(2,3)])

lemma history_update:
  assumes "attempts_history_ok (as @ [a] @ bs)" and "ja_failure a = None" and "same_slot a c"
  shows "attempts_history_ok (as @ [c] @ bs)"
  unfolding attempts_history_ok_def
proof (intro allI)
  fix job_id local_date
  have here: "ja_job_id c = job_id \<and> ja_local_date c = local_date \<longleftrightarrow> ja_job_id a = job_id \<and> ja_local_date a = local_date"
    using assms(3) same_slot_order [OF assms(3)] by (simp add: same_slot_def)
  have day: "day_ok (attempts_for (as @ [a] @ bs) job_id local_date)" using assms(1) by (simp add: attempts_history_ok_def)
  show "day_ok (attempts_for (as @ [c] @ bs) job_id local_date)"
  proof (cases "ja_job_id a = job_id \<and> ja_local_date a = local_date")
    case True
    then have "day_ok (attempts_for as job_id local_date @ [a] @ attempts_for bs job_id local_date)"
      using day by (simp add: attempts_for_def)
    from day_ok_update [OF this assms(2,3)] True here show ?thesis by (simp add: attempts_for_def)
  next
    case False
    with here have "attempts_for (as @ [c] @ bs) job_id local_date = attempts_for (as @ [a] @ bs) job_id local_date"
      unfolding attempts_for_def by (simp only: filter_append filter.simps if_False)
    with day show ?thesis by (simp only:)
  qed
qed

end
