(* ===== verification/SchedulerWrites.thy ===== *)
theory SchedulerWrites
  imports SchedulerProperties
begin

text \<open>
  What the writes of the scheduler do to its history: a running attempt is inserted at its place in
  the order, its outcome takes its place, and a write that raises changes nothing.
\<close>

section \<open>Valid attempts\<close>

lemma validate_failure_legacy: "validate_failure False f = Inr f \<Longrightarrow> validate_failure True f = Inr f"
  by (auto simp: validate_failure_def split: if_splits job_category.splits option.splits)

lemma validate_option_legacy:
  "validate_option (validate_failure False) f = Inr () \<Longrightarrow> validate_option (validate_failure True) f = Inr ()"
proof (cases f)
  case (Some x)
  assume "validate_option (validate_failure False) f = Inr ()"
  with Some obtain y where "validate_failure False x = Inr y" by (auto simp: bind_r_eq_Inr)
  moreover from this have "y = x" by (auto simp: validate_failure_def split: if_splits job_category.splits)
  ultimately show ?thesis using Some by (simp add: validate_failure_legacy)
qed simp

lemma valid_parts:
  "validate_attempt Z legacy a = Inr b \<longleftrightarrow> b = a \<and> validate_definition Z (ja_definition a) = Inr (ja_definition a) \<and>
     1 \<le> ja_attempt_number a \<and> ja_attempt_number a \<le> 10 \<and> validate_option validate_execution (ja_execution a) = Inr () \<and>
     validate_option (validate_failure legacy) (ja_failure a) = Inr () \<and>
     validate_option validate_telemetry (ja_telemetry a) = Inr () \<and> validate_lifecycle Z a = Inr a"
proof -
  have "validate_definition Z (ja_definition a) = Inr d \<Longrightarrow> d = ja_definition a" for d
    by (auto simp: validate_definition_def split: if_splits)
  moreover have "validate_lifecycle Z a = Inr c \<Longrightarrow> c = a" for c
    by (auto simp: validate_lifecycle_def split: if_splits attempt_status.splits)
  ultimately show ?thesis
    unfolding validate_attempt_def by (auto simp: bind_r_eq_Inr not_less)
qed

lemma valid_legacy: "validate_attempt Z False a = Inr a \<Longrightarrow> validate_attempt Z True a = Inr a"
  unfolding valid_parts by (auto intro: validate_option_legacy)

lemma running_no_outcome:
  assumes "validate_attempt Z legacy a = Inr a" and "ja_status a = Running"
  shows "ja_completed_at a = None" "ja_execution a = None" "ja_failure a = None" "ja_telemetry a = None"
  using assms unfolding valid_parts by (auto simp: validate_lifecycle_def split: if_splits)

text \<open>Every attempt of a loaded history is valid.\<close>

lemma loaded_valid:
  assumes "load_schedule Z files = Inr st"
  shows "\<forall>a \<in> set st. validate_attempt Z True a = Inr a"
proof -
  from assms obtain legacy where legacy: "legacy_attempts Z files = Inr legacy" "loaded Z legacy (journal_entries files) st"
    by (auto simp: load_schedule_Inr)
  then obtain d where d: "merge_attempts (journal_entries files) (dict_by ja_attempt_id legacy) = Inr d" "sort_attempts (dict_values d) = st"
    and entries: "\<forall>a \<in> set (journal_entries files). validate_attempt Z True a = Inr a"
    by (auto simp: loaded_def)
  have old: "\<forall>a \<in> set legacy. validate_attempt Z True a = Inr a"
  proof (cases "sf_legacy files")
    case (Some document)
    with legacy(1) obtain doc where "validate_legacy Z document = Inr doc" "legacy = (if sf_folded files then [] else doc)"
      by (auto simp: legacy_attempts_def bind_r_eq_Inr)
    with validate_legacy_Inr [of Z document doc] show ?thesis by auto
  qed (use legacy(1) in \<open>simp add: legacy_attempts_def\<close>)
  show ?thesis
  proof
    fix a assume "a \<in> set st"
    then have "a \<in> set (dict_values d)" using d(2) by (auto simp: sort_attempts_def)
    then have "dict_get d (ja_attempt_id a) = Some a"
      using by_id_values(1) [OF merge_attempts_get(2) [OF d(1) by_id_dict_by]] by auto
    moreover have "dict_get d = dict_get (dict_by ja_attempt_id (legacy @ journal_entries files))"
      using merge_attempts_get(1) [OF d(1)] by (simp add: dict_by_def)
    ultimately have "dict_get (dict_by ja_attempt_id (legacy @ journal_entries files)) (ja_attempt_id a) = Some a" by simp
    then have "a \<in> set (legacy @ journal_entries files)"
      using pydict.lookup_store_all_Some [of "[]" ja_attempt_id "\<lambda>x. x" "legacy @ journal_entries files" "ja_attempt_id a" a]
      by (simp add: dict_by_def)
    with old entries show "validate_attempt Z True a = Inr a" by auto
  qed
qed

lemma loaded_ok: "load_schedule Z files = Inr st \<Longrightarrow> schedule_ok st"
  by (auto simp: load_schedule_Inr loaded_def)

section \<open>Placing\<close>

lemma place_new: "\<forall>b \<in> set st. ja_attempt_id b \<noteq> ja_attempt_id a \<Longrightarrow> place_attempt st a = Inr (Some (st @ [a]))"
proof -
  assume "\<forall>b \<in> set st. ja_attempt_id b \<noteq> ja_attempt_id a"
  then have "takeWhile (\<lambda>item. ja_attempt_id item \<noteq> ja_attempt_id a) st = st" by (simp add: takeWhile_eq_all_conv)
  then show ?thesis by (simp only: place_attempt_def Let_def refl if_True)
qed

lemma place_known:
  assumes "b \<in> set st" and "ja_attempt_id b = ja_attempt_id a" and "ja_status a = Running" and "a \<notin> set st"
  shows "place_attempt st a = Inl lifecycle_inconsistent"
proof -
  let ?i = "length (takeWhile (\<lambda>item. ja_attempt_id item \<noteq> ja_attempt_id a) st)"
  have "takeWhile (\<lambda>item. ja_attempt_id item \<noteq> ja_attempt_id a) st \<noteq> st"
    using assms(1,2) unfolding takeWhile_eq_all_conv by auto
  then have "?i \<noteq> length st" using takeWhile_eq_take [of "\<lambda>item. ja_attempt_id item \<noteq> ja_attempt_id a" st] by auto
  then have i: "?i < length st" using length_takeWhile_le [of "\<lambda>item. ja_attempt_id item \<noteq> ja_attempt_id a" st] by linarith
  have "st ! ?i \<in> set st" using i by simp
  with assms(4) have "st ! ?i \<noteq> a" by auto
  with \<open>?i \<noteq> length st\<close> assms(3) show ?thesis by (simp only: place_attempt_def Let_def no_transition_def if_False if_True simp_thms)
qed

lemma place_outcome:
  assumes "distinct (map ja_attempt_id (as @ [a] @ bs))" and "same_slot a c" and "ja_status a = Running" and "ja_status c \<noteq> Running"
  shows "place_attempt (as @ [a] @ bs) c = Inr (Some (as @ [c] @ bs))"
proof -
  have id: "ja_attempt_id a = ja_attempt_id c" using assms(2) by (simp add: same_slot_def)
  have "\<forall>b \<in> set as. ja_attempt_id b \<noteq> ja_attempt_id a" using assms(1) by (auto simp: image_iff)
  with id have "takeWhile (\<lambda>item. ja_attempt_id item \<noteq> ja_attempt_id c) (as @ [a] @ bs) = as"
    by (simp add: takeWhile_append2)
  with id show ?thesis using assms(2-4) by (simp add: place_attempt_def no_transition_def same_slot_def nth_append)
qed

lemma schedule_ok_insert:
  assumes "schedule_ok st" and "\<forall>b \<in> set st. ja_attempt_id b \<noteq> ja_attempt_id a" and "length st < MAX_ATTEMPTS_RETAINED"
  shows "schedule_ok (sort_attempts (st @ [a]))"
proof -
  have "distinct (map ja_attempt_id (st @ [a]))" using assms(1,2) by (auto simp: schedule_ok_def)
  moreover have "mset (map ja_attempt_id (sort_attempts (st @ [a]))) = mset (map ja_attempt_id (st @ [a]))"
    by (simp add: sort_attempts_def)
  ultimately have "distinct (map ja_attempt_id (sort_attempts (st @ [a])))" by (metis mset_eq_imp_distinct_iff)
  then show ?thesis using assms(3) by (simp add: schedule_ok_def sort_attempts_def)
qed

lemma schedule_ok_outcome:
  assumes "schedule_ok (as @ [a] @ bs)" and "same_slot a c"
  shows "schedule_ok (as @ [c] @ bs)"
proof -
  have "attempt_order c = attempt_order a" using same_slot_order [OF assms(2)] by simp
  moreover have "ja_attempt_id c = ja_attempt_id a" using assms(2) by (simp add: same_slot_def)
  ultimately show ?thesis using assms(1) unfolding schedule_ok_def by (simp only: map_append list.map length_append list.size simp_thms)
qed

section \<open>Writing\<close>

text \<open>What a write returns, with the files it leaves.\<close>

lemma write_placed:
  assumes "load_schedule (sc_zones S) (sw_files w) = Inr st" and "fold_safe (sw_files w)" and "validate_attempt (sc_zones S) True a = Inr a"
    and "place_attempt st a = Inr (Some attempts)" and "schedule_ok (sort_attempts attempts)"
  shows "\<exists>files. write_schedule S st a w = (Inr (sort_attempts attempts), w\<lparr>sw_files := files\<rparr>) \<and>
    load_schedule (sc_zones S) files = Inr (sort_attempts attempts) \<and> fold_safe files"
proof -
  have "fst (write_attempt_from_state (sc_zones S) (sc_iso_text S) st a (sw_files w)) = Inr (sort_attempts attempts)"
    using write_result [OF assms(1,2), of "sc_iso_text S" a] assms(4,5) by (simp add: validate_attempts_Inr)
  then obtain files where run: "write_attempt_from_state (sc_zones S) (sc_iso_text S) st a (sw_files w) = (Inr (sort_attempts attempts), files)"
    by (metis prod.collapse)
  with written_schedule_loads [OF assms(1-3), of "sc_iso_text S"] show ?thesis by (auto simp: write_schedule_def)
qed

lemma write_refused:
  assumes "place_attempt st a = Inl e \<or> place_attempt st a = Inr (Some attempts) \<and> validate_attempts (sort_attempts attempts) = Inl e"
  shows "write_schedule S st a w = (Inl e, w)"
  using assms by (auto simp: write_schedule_def write_attempt_from_state_def bind_c_def pure_c_def)

lemma write_running:
  assumes "load_schedule (sc_zones S) (sw_files w) = Inr st" and "fold_safe (sw_files w)" and "validate_attempt (sc_zones S) True a = Inr a"
    and "ja_status a = Running" and "a \<notin> set st"
  shows "(\<exists>e. write_schedule S st a w = (Inl e, w) \<and>
        (MAX_ATTEMPTS_RETAINED \<le> length st \<or> (\<exists>b \<in> set st. ja_attempt_id b = ja_attempt_id a))) \<or>
     (\<exists>files. write_schedule S st a w = (Inr (sort_attempts (st @ [a])), w\<lparr>sw_files := files\<rparr>) \<and>
        load_schedule (sc_zones S) files = Inr (sort_attempts (st @ [a])) \<and> fold_safe files)"
proof (cases "\<exists>b \<in> set st. ja_attempt_id b = ja_attempt_id a")
  case True
  then show ?thesis using write_refused [of st a lifecycle_inconsistent] place_known [OF _ _ assms(4,5)] by blast
next
  case fresh: False
  then have placed: "place_attempt st a = Inr (Some (st @ [a]))" by (auto intro: place_new)
  show ?thesis
  proof (cases "length st < MAX_ATTEMPTS_RETAINED")
    case True
    from schedule_ok_insert [OF loaded_ok [OF assms(1)] _ True] fresh have "schedule_ok (sort_attempts (st @ [a]))" by blast
    from write_placed [OF assms(1-3) placed this] show ?thesis by blast
  next
    case False
    then have "validate_attempts (sort_attempts (st @ [a])) = Inl (ValueError ''attempts'')"
      by (simp add: validate_attempts_def sort_attempts_def)
    with placed False show ?thesis using write_refused [of st a] by fastforce
  qed
qed

lemma write_outcome:
  assumes "load_schedule (sc_zones S) (sw_files w) = Inr (as @ [a] @ bs)" and "fold_safe (sw_files w)"
    and "validate_attempt (sc_zones S) True c = Inr c" and "ja_status a = Running" and "ja_status c \<noteq> Running" and "same_slot a c"
  shows "\<exists>files. write_schedule S (as @ [a] @ bs) c w = (Inr (as @ [c] @ bs), w\<lparr>sw_files := files\<rparr>) \<and>
    load_schedule (sc_zones S) files = Inr (as @ [c] @ bs) \<and> fold_safe files"
proof -
  have ok: "schedule_ok (as @ [a] @ bs)" by (rule loaded_ok [OF assms(1)])
  then have distinct: "distinct (map ja_attempt_id (as @ [a] @ bs))" unfolding schedule_ok_def by blast
  have outcome: "schedule_ok (as @ [c] @ bs)" by (rule schedule_ok_outcome [OF ok assms(6)])
  then have "schedule_ok (sort_attempts (as @ [c] @ bs))" by (simp only: sorted_schedule)
  from write_placed [OF assms(1-3) place_outcome [OF distinct assms(6,4,5)] this] show ?thesis
    unfolding sorted_schedule [OF outcome] .
qed

section \<open>Outcomes\<close>

lemma build_parts:
  "build_attempt Z a = Inr b \<longleftrightarrow> b = a \<and> validate_definition Z (ja_definition a) = Inr (ja_definition a) \<and>
     1 \<le> ja_attempt_number a \<and> ja_attempt_number a \<le> 10 \<and> validate_lifecycle Z a = Inr a"
proof -
  have "validate_definition Z (ja_definition a) = Inr d \<Longrightarrow> d = ja_definition a" for d
    by (auto simp: validate_definition_def split: if_splits)
  moreover have "validate_lifecycle Z a = Inr c \<Longrightarrow> c = a" for c
    by (auto simp: validate_lifecycle_def split: if_splits attempt_status.splits)
  ultimately show ?thesis
    unfolding build_attempt_def by (auto simp: bind_r_eq_Inr not_less)
qed

definition instances_ok :: "job_execution option \<Rightarrow> job_failure option \<Rightarrow> bool" where
  \<comment> \<open>the execution and the failure are instances of their classes\<close>
  "instances_ok execution failure \<longleftrightarrow>
     validate_option validate_execution execution = Inr () \<and> validate_option (validate_failure False) failure = Inr ()"

lemma completed_attempt_Inr:
  assumes "completed_attempt Z a status t execution failure peak = Inr c"
  shows "instances_ok execution failure \<Longrightarrow> validate_attempt Z True c = Inr c" and "same_slot a c"
    and "ja_status c = status" and "ja_completed_at c = Some t" and "ja_failure c = failure" and "status \<noteq> Running"
proof -
  let ?b = "a\<lparr>ja_status := status, ja_completed_at := Some t, ja_execution := execution, ja_failure := failure, ja_telemetry := None\<rparr>"
  from assms obtain tm where b: "build_attempt Z ?b = Inr ?b" and tm: "attempt_telemetry Z ?b peak = Inr tm"
    and c: "c = ?b\<lparr>ja_telemetry := Some tm\<rparr>"
  proof -
    from assms obtain b' tm where b': "build_attempt Z ?b = Inr b'" "attempt_telemetry Z b' peak = Inr tm" "c = b'\<lparr>ja_telemetry := Some tm\<rparr>"
      by (auto simp: completed_attempt_def bind_r_eq_Inr)
    moreover from this(1) have "b' = ?b" unfolding build_parts by blast
    ultimately show thesis by (intro that) simp_all
  qed
  have valid_tm: "validate_telemetry tm = Inr tm"
    using tm by (auto simp: attempt_telemetry_def validate_telemetry_def split: if_splits)
  show status: "status \<noteq> Running" using b unfolding build_parts by (auto simp: validate_lifecycle_def split: if_splits)
  then have lifecycle: "validate_lifecycle Z c = Inr c"
    using b unfolding build_parts c by (cases status) (auto simp: validate_lifecycle_def ja_job_id_def split: if_splits)
  show "validate_attempt Z True c = Inr c" if "instances_ok execution failure"
    using lifecycle b valid_tm that unfolding valid_parts build_parts c
    by (auto simp: instances_ok_def intro: validate_option_legacy)
  show "same_slot a c" "ja_status c = status" "ja_completed_at c = Some t" "ja_failure c = failure"
    by (simp_all add: c same_slot_def)
qed

end
