(* ===== verification/SchedulerInvariant.thy ===== *)
theory SchedulerInvariant
  imports SchedulerWrites
begin

text \<open>
  The invariant of the scheduler through an attempt, the recovery of interrupted attempts and a
  tick, on every branch, whatever the clock reads. \<open>L\<close> marks runs in which nothing goes wrong
  outside the jobs and the clock does not step back: from these no exception comes out.
\<close>

section \<open>The environment\<close>

definition forward :: "'o scheduler \<Rightarrow> (nat \<Rightarrow> utc) \<Rightarrow> nat \<Rightarrow> bool" where
  \<comment> \<open>from its reading \<open>m\<close> on the clock reads the aware times \<open>clk m \<le> clk (m + 1) \<le> \<dots>\<close>\<close>
  "forward S clk m \<longleftrightarrow> (\<forall>n \<ge> m. (\<exists>off. sc_clock S n = Aware (clk n + off) off) \<and> clk n \<le> clk (Suc n))"

definition raises_base :: "(py_error + 'a) \<times> 'b \<Rightarrow> bool" where
  "raises_base r \<longleftrightarrow> (case r of (Inl e, w) \<Rightarrow> e = base_exception | _ \<Rightarrow> False)"

definition undisturbed :: "'o scheduler \<Rightarrow> control \<Rightarrow> bool" where
  \<comment> \<open>no cancellation; callbacks and observers that raise no \<^verbatim>\<open>BaseException\<close>\<close>
  "undisturbed S control \<longleftrightarrow>
     control = None \<and> (\<forall>t \<ge> 0. 0 \<le> zn_duration_ms (sc_zones S) t) \<and>
     (\<forall>n i. jr_outcome (sc_run S n i) \<noteq> RaisedBaseException \<and> jr_registry (sc_run S n i) = None) \<and>
     (\<forall>observer a x. sc_observer S = Some observer \<longrightarrow> \<not> raises_base (observer a x)) \<and>
     (\<forall>observer x. sc_tick_observer S = Some observer \<longrightarrow> \<not> raises_base (observer x))"

lemma forward_le: "forward S clk m \<Longrightarrow> m \<le> i \<Longrightarrow> i \<le> j \<Longrightarrow> clk i \<le> clk j"
proof (induction j)
  case (Suc j)
  show ?case
  proof (cases "i = Suc j")
    case False
    with Suc have "clk i \<le> clk j" "clk j \<le> clk (Suc j)" by (auto simp: forward_def)
    then show ?thesis by simp
  qed simp
qed simp

lemma forward_later: "forward S clk m \<Longrightarrow> m \<le> n \<Longrightarrow> forward S clk n"
  by (auto simp: forward_def)

text \<open>What a job hands over is an instance of its class.\<close>

definition outcome_ok :: "bool \<Rightarrow> job_outcome \<Rightarrow> bool" where
  "outcome_ok L outcome \<longleftrightarrow>
     (case outcome of
        RaisedBaseException \<Rightarrow> \<not> L
      | Executed e \<Rightarrow> validate_execution e = Inr e
      | RaisedRunError f \<Rightarrow> validate_failure False f = Inr f
      | _ \<Rightarrow> True)"

lemma built_outcome_ok: "L \<longrightarrow> outcome \<noteq> RaisedBaseException \<Longrightarrow> outcome_ok L (built_outcome outcome)"
proof -
  have "validate_execution e = Inr e' \<Longrightarrow> e' = e" for e e'
    by (auto simp: validate_execution_def split: if_splits)
  moreover have "validate_failure False f = Inr f' \<Longrightarrow> f' = f" for f f'
    by (auto simp: validate_failure_def split: if_splits job_category.splits)
  ultimately show "L \<longrightarrow> outcome \<noteq> RaisedBaseException \<Longrightarrow> outcome_ok L (built_outcome outcome)"
    by (cases outcome) (auto simp: outcome_ok_def built_outcome_def split: sum.split)
qed

section \<open>The invariant\<close>

definition fresh_ids :: "'o scheduler \<Rightarrow> nat \<Rightarrow> job_attempt list \<Rightarrow> 'o scheduler_world \<Rightarrow> bool" where
  \<comment> \<open>the next \<open>k\<close> identities differ from one another and from those of the history\<close>
  "fresh_ids S k st w \<longleftrightarrow> inj_on (sc_attempt_id S) {sw_ids w..<sw_ids w + k} \<and>
     (\<forall>a \<in> set st. \<forall>n \<in> {sw_ids w..<sw_ids w + k}. ja_attempt_id a \<noteq> sc_attempt_id S n)"

definition sched ::
  "'o scheduler \<Rightarrow> (nat \<Rightarrow> utc) \<Rightarrow> bool \<Rightarrow> job_definition list \<Rightarrow> nat \<Rightarrow> nat \<Rightarrow> string option \<Rightarrow> job_attempt list \<Rightarrow> 'o scheduler_world \<Rightarrow> bool" where
  \<comment> \<open>the history \<open>st\<close> is on disk; the clock was read \<open>m\<close> times at least; in a run marked \<open>L\<close> there is
    room for \<open>k\<close> attempts and no attempt started after the next reading\<close>
  "sched S clk L J m k active st w \<longleftrightarrow>
     load_schedule (sc_zones S) (sw_files w) = Inr st \<and> fold_safe (sw_files w) \<and> attempts_history_ok st \<and>
     sw_active_job w = active \<and> m \<le> sw_ticks w \<and>
     (L \<longrightarrow> sw_jobs w = J \<and> length st + k \<le> MAX_ATTEMPTS_RETAINED \<and> fresh_ids S k st w \<and> forward S clk (sw_ticks w) \<and>
       (\<forall>a \<in> set st. ja_started_at a \<le> clk (sw_ticks w)))"

definition failed :: "'o scheduler \<Rightarrow> (nat \<Rightarrow> utc) \<Rightarrow> bool \<Rightarrow> string option \<Rightarrow> py_error \<Rightarrow> 'o scheduler_world \<Rightarrow> bool" where
  "failed S clk L active e w \<longleftrightarrow> \<not> L \<and> (\<exists>st. sched S clk False [] 0 0 active st w)"

lemma sched_weaken: "sched S clk L J m k active st w \<Longrightarrow> m' \<le> m \<Longrightarrow> k' \<le> k \<Longrightarrow> sched S clk L J m' k' active st w"
  by (auto simp: sched_def fresh_ids_def intro: inj_on_subset)

lemma sched_failed: "sched S clk L J m k active st w \<Longrightarrow> \<not> L \<Longrightarrow> failed S clk L active e w"
  by (auto simp: sched_def failed_def)

lemma sched_frame:
  assumes "sched S clk L J m k active st w" and "sw_files w' = sw_files w" and "sw_active_job w' = sw_active_job w"
    and "sw_ticks w' = sw_ticks w" and "sw_ids w' = sw_ids w" and "L \<Longrightarrow> sw_jobs w' = sw_jobs w"
  shows "sched S clk L J m k active st w'"
  using assms by (auto simp: sched_def fresh_ids_def)

lemma hoare_result:
  assumes "\<And>x. r = Inr x \<Longrightarrow> hoare P (f x) R E" and "\<And>e w. r = Inl e \<Longrightarrow> P w \<Longrightarrow> E e w"
  shows "hoare P (bind_c (pure_c r) f) R E"
  using assms by (cases r) (simp_all add: hoare_def)

lemma hoare_get: "(\<And>x. hoare (\<lambda>w. P w \<and> g w = x) (f x) R E) \<Longrightarrow> hoare P (bind_c (get_w g) f) R E"
  by (auto simp: hoare_def bind_c_def get_w_def)

lemma hoare_frame:
  assumes "\<And>w. fst (c w) = Inr (v w)" and "\<And>w. P w \<Longrightarrow> R (v w) (snd (c w))"
  shows "hoare P c R E"
proof (rule hoareI)
  fix w assume "P w"
  then show "case c w of (Inl e, w') \<Rightarrow> E e w' | (Inr x, w') \<Rightarrow> R x w'"
    using assms(1) [of w] assms(2) [OF \<open>P w\<close>] by (cases "c w") simp
qed

section \<open>Steps\<close>

text \<open>A reading \<open>t\<close> of the clock, its \<open>n\<close>-th: unless \<open>L\<close>, any time at all.\<close>

definition timed :: "bool \<Rightarrow> (nat \<Rightarrow> utc) \<Rightarrow> nat \<Rightarrow> utc \<Rightarrow> job_attempt list \<Rightarrow> bool" where
  "timed L clk n t st \<longleftrightarrow> (L \<longrightarrow> t = clk n \<and> (\<forall>a \<in> set st. ja_started_at a \<le> t) \<and> (\<forall>n' \<ge> n. t \<le> clk n'))"

lemma now_step:
  "hoare (sched S clk L J m k active st) (scheduler_now S)
    (\<lambda>t w. \<exists>n. m \<le> n \<and> timed L clk n t st \<and> sched S clk L J (Suc n) k active st w) (failed S clk L active)"
proof (rule hoareI)
  fix w assume pre: "sched S clk L J m k active st w"
  let ?n = "sw_ticks w"
  have next_forward: "forward S clk (Suc ?n)" if L using pre that forward_later [of S clk ?n "Suc ?n"] by (simp add: sched_def)
  have later: "clk ?n \<le> clk (Suc ?n)" if L using pre that by (simp add: sched_def forward_def)
  have started: "\<forall>a \<in> set st. ja_started_at a \<le> clk (Suc ?n)" if L
    using pre that later [OF that] by (force simp: sched_def)
  have after: "sched S clk L J (Suc ?n) k active st (w\<lparr>sw_ticks := sw_ticks w + 1\<rparr>)"
    using pre next_forward started by (auto simp: sched_def fresh_ids_def)
  show "case scheduler_now S w of (Inl e, w') \<Rightarrow> failed S clk L active e w'
      | (Inr t, w') \<Rightarrow> \<exists>n. m \<le> n \<and> timed L clk n t st \<and> sched S clk L J (Suc n) k active st w'"
  proof (cases "sc_clock S ?n")
    case (Naive t)
    moreover have "\<not> L" using pre Naive by (auto simp: sched_def forward_def)
    ultimately show ?thesis using sched_failed [OF after] by (simp add: scheduler_now_def)
  next
    case (Aware t off)
    have "timed L clk ?n (t - off) st"
    proof (cases L)
      case True
      with pre obtain off' where "sc_clock S ?n = Aware (clk ?n + off') off'" by (auto simp: sched_def forward_def)
      with Aware have "t - off = clk ?n" by simp
      moreover have "\<forall>n' \<ge> ?n. clk ?n \<le> clk n'" using pre True forward_le [of S clk ?n ?n] by (simp add: sched_def)
      ultimately show ?thesis using pre True by (simp add: timed_def sched_def)
    qed (simp add: timed_def)
    moreover have "m \<le> ?n" using pre by (simp add: sched_def)
    ultimately show ?thesis using after Aware by (auto simp: scheduler_now_def)
  qed
qed

lemma id_step:
  "hoare (sched S clk L J m (Suc k) active st) (take_id S) (\<lambda>new w. sched S clk L J m k active st w \<and>
    (L \<longrightarrow> length st < MAX_ATTEMPTS_RETAINED - k \<and> (\<forall>a \<in> set st. ja_attempt_id a \<noteq> new) \<and>
      (\<forall>n \<in> {sw_ids w..<sw_ids w + k}. new \<noteq> sc_attempt_id S n))) E"
proof (rule hoare_frame [where v = "\<lambda>w. sc_attempt_id S (sw_ids w)"])
  fix w assume pre: "sched S clk L J m (Suc k) active st w"
  have "sc_attempt_id S (sw_ids w) \<noteq> sc_attempt_id S n" if L "n \<in> {sw_ids w + 1..<sw_ids w + 1 + k}" for n
    using pre that by (auto simp: sched_def fresh_ids_def dest: inj_onD [of _ _ "sw_ids w" n])
  moreover have "fresh_ids S k st (w\<lparr>sw_ids := sw_ids w + 1\<rparr>)" if L
    using pre that by (auto simp: sched_def fresh_ids_def intro: inj_on_subset)
  ultimately show "sched S clk L J m k active st (snd (take_id S w)) \<and>
      (L \<longrightarrow> length st < MAX_ATTEMPTS_RETAINED - k \<and> (\<forall>a \<in> set st. ja_attempt_id a \<noteq> sc_attempt_id S (sw_ids w)) \<and>
        (\<forall>n \<in> {sw_ids (snd (take_id S w))..<sw_ids (snd (take_id S w)) + k}. sc_attempt_id S (sw_ids w) \<noteq> sc_attempt_id S n))"
    using pre by (auto simp: take_id_def sched_def fresh_ids_def)
qed (simp add: take_id_def)

lemma insert_started: "set (sort_attempts (st @ [a])) = insert a (set st)" "length (sort_attempts (st @ [a])) = Suc (length st)"
  by (simp_all add: sort_attempts_def)

lemma running_step:
  assumes "validate_attempt (sc_zones S) True a = Inr a" and "ja_status a = Running" and "timed L clk n (ja_started_at a) st"
    and "a \<notin> set st" and "attempts_history_ok (sort_attempts (st @ [a]))"
  shows "hoare (\<lambda>w. sched S clk L J (Suc n) k active st w \<and> (L \<longrightarrow> length st < MAX_ATTEMPTS_RETAINED - k \<and>
      (\<forall>b \<in> set st. ja_attempt_id b \<noteq> ja_attempt_id a) \<and> (\<forall>n \<in> {sw_ids w..<sw_ids w + k}. ja_attempt_id a \<noteq> sc_attempt_id S n)))
    (write_schedule S st a) (\<lambda>st' w. st' = sort_attempts (st @ [a]) \<and> sched S clk L J (Suc n) k active (sort_attempts (st @ [a])) w)
    (failed S clk L active)"
proof (rule hoareI)
  fix w
  assume pre: "sched S clk L J (Suc n) k active st w \<and> (L \<longrightarrow> length st < MAX_ATTEMPTS_RETAINED - k \<and>
      (\<forall>b \<in> set st. ja_attempt_id b \<noteq> ja_attempt_id a) \<and> (\<forall>n \<in> {sw_ids w..<sw_ids w + k}. ja_attempt_id a \<noteq> sc_attempt_id S n))"
  then have load: "load_schedule (sc_zones S) (sw_files w) = Inr st" "fold_safe (sw_files w)" and n: "n < sw_ticks w" by (auto simp: sched_def)
  have started: "ja_started_at a \<le> clk (sw_ticks w)" if L using assms(3) less_imp_le [OF n] that unfolding timed_def by blast
  show "case write_schedule S st a w of (Inl e, w') \<Rightarrow> failed S clk L active e w'
      | (Inr st', w') \<Rightarrow> st' = sort_attempts (st @ [a]) \<and> sched S clk L J (Suc n) k active (sort_attempts (st @ [a])) w'"
  proof (cases "fst (write_schedule S st a w)")
    case (Inl e)
    with write_running [OF load assms(1,2,4)] have written: "write_schedule S st a w = (Inl e, w)"
      and "MAX_ATTEMPTS_RETAINED \<le> length st \<or> (\<exists>b \<in> set st. ja_attempt_id b = ja_attempt_id a)" by auto
    from this(2) pre have "\<not> L" by (auto simp: sched_def)
    with pre written show ?thesis using sched_failed by auto
  next
    case (Inr st')
    with write_running [OF load assms(1,2,4)] obtain files where
      "write_schedule S st a w = (Inr (sort_attempts (st @ [a])), w\<lparr>sw_files := files\<rparr>)"
      "load_schedule (sc_zones S) files = Inr (sort_attempts (st @ [a]))" "fold_safe files" by auto
    then show ?thesis using pre assms(5) started by (auto simp: sched_def fresh_ids_def insert_started)
  qed
qed

lemma outcome_step:
  assumes "validate_attempt (sc_zones S) True c = Inr c" and "ja_status a = Running" and "ja_status c \<noteq> Running" and "same_slot a c"
  shows "hoare (sched S clk L J m k active (as @ [a] @ bs)) (write_schedule S (as @ [a] @ bs) c)
    (\<lambda>st' w. st' = as @ [c] @ bs \<and> sched S clk L J m k active (as @ [c] @ bs) w) E"
proof (rule hoareI)
  fix w assume pre: "sched S clk L J m k active (as @ [a] @ bs) w"
  then have load: "load_schedule (sc_zones S) (sw_files w) = Inr (as @ [a] @ bs)" "fold_safe (sw_files w)"
    and ok: "attempts_history_ok (as @ [a] @ bs)" by (auto simp: sched_def)
  from write_outcome [OF load assms] obtain files where
    files: "write_schedule S (as @ [a] @ bs) c w = (Inr (as @ [c] @ bs), w\<lparr>sw_files := files\<rparr>)"
      "load_schedule (sc_zones S) files = Inr (as @ [c] @ bs)" "fold_safe files"
    by blast
  have "validate_attempt (sc_zones S) True a = Inr a" using loaded_valid [OF load(1)] by simp
  from history_update [OF ok running_no_outcome(3) [OF this assms(2)] assms(4)]
  have "attempts_history_ok (as @ [c] @ bs)" .
  moreover have "ja_started_at c = ja_started_at a" "ja_attempt_id c = ja_attempt_id a" using assms(4) by (simp_all add: same_slot_def)
  ultimately have "sched S clk L J m k active (as @ [c] @ bs) (w\<lparr>sw_files := files\<rparr>)"
    using pre files(2,3) by (auto simp: sched_def fresh_ids_def)
  with files(1) show "case write_schedule S (as @ [a] @ bs) c w of (Inl e, w') \<Rightarrow> E e w'
      | (Inr st', w') \<Rightarrow> st' = as @ [c] @ bs \<and> sched S clk L J m k active (as @ [c] @ bs) w'" by simp
qed

lemma notify_step:
  assumes "L \<Longrightarrow> undisturbed S control"
  shows "hoare (sched S clk L J m k active st) (notify S a) (\<lambda>u. sched S clk L J m k active st) (failed S clk L active)"
proof (rule hoareI)
  fix w assume pre: "sched S clk L J m k active st w"
  then have after: "sched S clk L J m k active st (snd (notify S a w))"
    by (rule sched_frame) (simp_all add: notify_def Let_def split: option.split prod.split sum.split)
  have "\<not> L" if "notify S a w = (Inl e, w')" for e w'
  proof
    assume L
    then have "sc_observer S = Some observer \<Longrightarrow> \<not> raises_base (observer a (sw_observed w))" for observer
      using assms by (simp add: undisturbed_def)
    with that show False
      by (auto simp: notify_def Let_def raises_base_def split: option.splits prod.splits sum.splits if_splits)
  qed
  with after show "case notify S a w of (Inl e, w') \<Rightarrow> failed S clk L active e w' | (Inr u, w') \<Rightarrow> sched S clk L J m k active st w'"
    by (cases "notify S a w") (auto intro: sched_failed split: sum.split)
qed

lemma cancelled_step:
  assumes "L \<Longrightarrow> undisturbed S control"
  shows "hoare (sched S clk L J m k active st) (cancelled control) (\<lambda>stop w. sched S clk L J m k active st w \<and> (stop \<longrightarrow> \<not> L)) E"
proof (rule hoare_frame [where v = "\<lambda>w. fst (cancelled control w) = Inr True"])
  show "fst (cancelled control w) = Inr (fst (cancelled control w) = Inr True)" for w
    by (simp add: cancelled_def split: option.split)
  fix w assume "sched S clk L J m k active st w"
  then have "sched S clk L J m k active st (snd (cancelled control w))"
    by (rule sched_frame) (simp_all add: cancelled_def split: option.split)
  moreover have "fst (cancelled control w) = Inr False" if L
    using assms [OF that] by (simp add: undisturbed_def cancelled_def)
  ultimately show "sched S clk L J m k active st (snd (cancelled control w)) \<and> (fst (cancelled control w) = Inr True \<longrightarrow> \<not> L)" by auto
qed

lemma callback_step:
  assumes "L \<Longrightarrow> undisturbed S control"
  shows "hoare (sched S clk L J m k active st) (run_callback S control i)
    (\<lambda>x w. sched S clk L J m k active st w \<and> outcome_ok L (fst x)) E"
proof -
  let ?P = "sched S clk L J m k active st"
  let ?R = "\<lambda>x w. ?P w \<and> outcome_ok L (fst x)"
  let ?run = "\<lambda>w. jr_outcome_update built_outcome (sc_run S (sw_runs w) i)"
  let ?watch = "\<lambda>w. fst (watch (sc_memory_ceiling_bytes S) (control \<noteq> None \<or> sc_memory_ceiling_bytes S \<noteq> None) (jr_samples (sc_run S (sw_runs w) i)))"
  have call: "hoare ?P (call_job S control i) (\<lambda>x w. ?P w \<and> outcome_ok L (jr_outcome (fst x))) E"
  proof (rule hoare_frame [where v = "\<lambda>w. (?run w, ?watch w)"])
    show "fst (call_job S control i w) = Inr (?run w, ?watch w)" for w
      by (simp add: call_job_def Let_def split: prod.split)
    fix w assume "?P w"
    then have "?P (snd (call_job S control i w))"
      by (rule sched_frame) (use assms in \<open>auto simp: call_job_def Let_def undisturbed_def split: prod.split\<close>)
    then show "?P (snd (call_job S control i w)) \<and> outcome_ok L (jr_outcome (fst (?run w, ?watch w)))"
      using assms by (auto simp: undisturbed_def intro: built_outcome_ok)
  qed
  have after: "hoare (\<lambda>w. ?P w \<and> outcome_ok L (jr_outcome r)) (case jr_outcome r of
      Executed e \<Rightarrow> bind_c (cancelled control) (\<lambda>stop. pure_c (Inr
        (if stop \<or> wd_cancel_requested d then CancelledRun else Executed e, wd_breached d, wd_peak_rss_kb d)))
    | outcome \<Rightarrow> pure_c (Inr (outcome, wd_breached d, wd_peak_rss_kb d))) ?R E" for r d
  proof (cases "jr_outcome r")
    case (Executed e)
    have "hoare (\<lambda>w. ?P w \<and> outcome_ok L (jr_outcome r)) (bind_c (cancelled control) (\<lambda>stop. pure_c (Inr
        (if stop \<or> wd_cancel_requested d then CancelledRun else Executed e, wd_breached d, wd_peak_rss_kb d)))) ?R E"
      by (intro hoare_assume hoare_bind [OF cancelled_step [OF assms]] hoare_pure)
        (auto simp: Executed outcome_ok_def)
    then show ?thesis by (simp only: Executed job_outcome.case)
  qed (auto intro!: hoare_pure)
  show ?thesis
    unfolding run_callback_def
  proof (rule hoare_bind [OF cancelled_step [OF assms]])
    fix stop
    have "hoare ?P (bind_c (call_job S control i) (\<lambda>(r, watchdog). case jr_outcome r of
        Executed e \<Rightarrow> bind_c (cancelled control) (\<lambda>stop. pure_c (Inr
          (if stop \<or> wd_cancel_requested watchdog then CancelledRun else Executed e, wd_breached watchdog, wd_peak_rss_kb watchdog)))
      | outcome \<Rightarrow> pure_c (Inr (outcome, wd_breached watchdog, wd_peak_rss_kb watchdog)))) ?R E"
    proof (rule hoare_bind [OF call])
      fix x :: "job_run \<times> watchdog"
      obtain r d where x: "x = (r, d)" by force
      show "hoare (\<lambda>w. ?P w \<and> outcome_ok L (jr_outcome (fst x))) (case x of (r, watchdog) \<Rightarrow> case jr_outcome r of
          Executed e \<Rightarrow> bind_c (cancelled control) (\<lambda>stop. pure_c (Inr
            (if stop \<or> wd_cancel_requested watchdog then CancelledRun else Executed e, wd_breached watchdog, wd_peak_rss_kb watchdog)))
        | outcome \<Rightarrow> pure_c (Inr (outcome, wd_breached watchdog, wd_peak_rss_kb watchdog))) ?R E"
        unfolding x prod.case fst_conv by (rule after)
    qed
    then show "hoare (\<lambda>w. ?P w \<and> (stop \<longrightarrow> \<not> L)) (if stop then pure_c (Inr (CancelledRun, False, None))
        else bind_c (call_job S control i) (\<lambda>(r, watchdog). case jr_outcome r of
          Executed e \<Rightarrow> bind_c (cancelled control) (\<lambda>stop. pure_c (Inr
            (if stop \<or> wd_cancel_requested watchdog then CancelledRun else Executed e, wd_breached watchdog, wd_peak_rss_kb watchdog)))
        | outcome \<Rightarrow> pure_c (Inr (outcome, wd_breached watchdog, wd_peak_rss_kb watchdog)))) ?R E"
      by (cases stop) (auto intro!: hoare_pure simp: outcome_ok_def)
  qed
qed

end
