(* ===== verification/SchedulerRuns.thy ===== *)
theory SchedulerRuns
  imports SchedulerInvariant
begin

text \<open>
  An attempt and a tick keep the invariant, and when nothing disturbs them every due job gets an
  outcome.
\<close>

section \<open>Due jobs\<close>

definition due_now :: "zones \<Rightarrow> job_definition \<Rightarrow> utc \<Rightarrow> job_attempt list \<Rightarrow> bool" where
  \<comment> \<open>after its time of the day, never tried, or failed and to be retried by now\<close>
  "due_now Z d t st \<longleftrightarrow>
     (let local_date = zn_local_date Z (jd_timezone d) t; as = attempts_for st (jd_job_id d) local_date in
      jd_enabled d \<and> scheduled_for Z d local_date \<le> t \<and>
      (as = [] \<or>
        ja_status (last as) \<noteq> Running \<and> ja_status (last as) \<noteq> Succeeded \<and> int (length as) < jd_max_attempts_per_day d \<and>
        (\<exists>f. ja_failure (last as) = Some f \<and> jf_retryable f) \<and>
        the (ja_completed_at (last as)) + seconds (retry_delay_seconds d (ja_attempt_number (last as))) \<le> t))"

lemma js_due_iff: "js_due (job_status_at Z active d t st) \<longleftrightarrow> due_now Z d t st"
  by (auto simp: job_status_at_def job_status_from_def schedule_decision_def due_now_def Let_def split: prod.split option.splits if_splits)

lemma due_later:
  assumes "due_now Z d t st" and "t \<le> t'" and "zn_local_date Z (jd_timezone d) t' = zn_local_date Z (jd_timezone d) t"
    and "\<And>local_date. attempts_for st' (jd_job_id d) local_date = attempts_for st (jd_job_id d) local_date"
  shows "due_now Z d t' st'"
  using assms(1,2) unfolding due_now_def Let_def assms(3,4) by auto

section \<open>One attempt\<close>

definition idle :: "job_attempt list \<Rightarrow> bool" where
  "idle st \<longleftrightarrow> (\<forall>a \<in> set st. ja_status a \<noteq> Running)"

lemma running_attempt_Inr:
  assumes "running_attempt Z d new t st = Inr b"
  shows "validate_attempt Z True b = Inr b" and "ja_definition b = d" and "ja_status b = Running" and "ja_started_at b = t"
    and "ja_attempt_id b = new" and "ja_local_date b = zn_local_date Z (jd_timezone d) t"
    and "ja_attempt_number b = int (length (attempts_for st (jd_job_id d) (ja_local_date b))) + 1"
proof -
  from assms have "validate_attempt Z True b = Inr b \<and> ja_definition b = d \<and> ja_status b = Running \<and> ja_started_at b = t \<and>
      ja_attempt_id b = new \<and> ja_local_date b = zn_local_date Z (jd_timezone d) t \<and>
      ja_attempt_number b = int (length (attempts_for st (jd_job_id d) (ja_local_date b))) + 1"
    unfolding running_attempt_def Let_def build_parts valid_parts by auto
  then show "validate_attempt Z True b = Inr b" "ja_definition b = d" "ja_status b = Running" "ja_started_at b = t"
    "ja_attempt_id b = new" "ja_local_date b = zn_local_date Z (jd_timezone d) t"
    "ja_attempt_number b = int (length (attempts_for st (jd_job_id d) (ja_local_date b))) + 1" by blast+
qed

lemma definition_bounds:
  assumes "validate_definition Z d = Inr d"
  shows "1 \<le> jd_max_attempts_per_day d" and "jd_max_attempts_per_day d \<le> 10" and "1 \<le> jd_retry_backoff_seconds d"
  using assms by (auto simp: validate_definition_def split: if_splits)

text \<open>The last attempt of a day is no later than its retry, so that the retry is the last one then.\<close>

lemma retried_later:
  assumes "retried a b" and "validate_attempt Z True a = Inr a" and "1 \<le> jd_retry_backoff_seconds (ja_definition b)"
  shows "ja_started_at a \<le> ja_started_at b"
proof -
  from assms(1) obtain t where t: "ja_completed_at a = Some t"
    "t + seconds (retry_delay_seconds (ja_definition b) (ja_attempt_number a)) \<le> ja_started_at b" by (auto simp: retried_def)
  have "ja_started_at a \<le> t" using assms(2) t(1) unfolding valid_parts by (auto simp: validate_lifecycle_def split: if_splits)
  moreover have "0 \<le> seconds (retry_delay_seconds (ja_definition b) (ja_attempt_number a))"
    using assms(3) by (simp add: retry_delay_seconds_def seconds_def second_us_def)
  ultimately show ?thesis using t(2) by linarith
qed

lemma day_numbers:
  assumes "day_ok as" and "a \<in> set as"
  shows "ja_attempt_number a \<le> int (length as)"
proof -
  have "ja_attempt_number a \<in> set (map ja_attempt_number as)" using assms(2) by simp
  also have "\<dots> = set (map (\<lambda>i. int i + 1) [0..<length as])" using assms(1) by (simp add: day_ok_def)
  finally show ?thesis by auto
qed

lemma sorted_last: "sorted xs \<Longrightarrow> x \<in> set xs \<Longrightarrow> x \<le> last xs"
  by (cases xs rule: rev_cases) (auto simp: sorted_append)

lemma running_history:
  assumes "running_attempt Z d new t st = Inr b" and "due_now Z d t st" and "attempts_history_ok st" and "schedule_ok st"
    and "\<forall>a \<in> set st. validate_attempt Z True a = Inr a"
  shows "attempts_history_ok (sort_attempts (st @ [b]))" and "b \<notin> set st"
    and "\<forall>a \<in> set (attempts_for st (ja_job_id b) (ja_local_date b)). attempt_order a \<le> attempt_order b"
proof -
  note b = running_attempt_Inr [OF assms(1)]
  let ?as = "attempts_for st (ja_job_id b) (ja_local_date b)"
  have job: "ja_job_id b = jd_job_id d" using b(2) by (simp add: ja_job_id_def)
  have sorted: "sorted (map attempt_order st)" using assms(4) by (simp add: schedule_ok_def)
  have bounds: "1 \<le> jd_max_attempts_per_day d" "1 \<le> jd_retry_backoff_seconds d"
    using definition_bounds(1,3) b(1,2) unfolding valid_parts by auto
  have day: "day_ok ?as" using assms(3) by (simp add: attempts_history_ok_def)
  have number: "ja_attempt_number b = int (length ?as) + 1" using b(7) job by simp
  have due: "?as = [] \<or> ja_status (last ?as) \<noteq> Running \<and> ja_status (last ?as) \<noteq> Succeeded \<and>
      int (length ?as) < jd_max_attempts_per_day d \<and> (\<exists>f. ja_failure (last ?as) = Some f \<and> jf_retryable f) \<and>
      the (ja_completed_at (last ?as)) + seconds (retry_delay_seconds d (ja_attempt_number (last ?as))) \<le> t"
    using assms(2) unfolding due_now_def Let_def job b(6) by blast
  have valid: "validate_attempt Z True a = Inr a \<and> ja_job_id a = ja_job_id b" if "a \<in> set ?as" for a
    using that assms(5) by (simp add: attempts_for_def)
  have retry: "retried (last ?as) b" if "?as \<noteq> []"
  proof -
    have "ja_completed_at (last ?as) \<noteq> None"
      using due that valid [OF last_in_set [OF that]] unfolding valid_parts
      by (cases "ja_status (last ?as)") (auto simp: validate_lifecycle_def split: if_splits)
    then show ?thesis using due that b(2,4) by (auto simp: retried_def)
  qed
  have order: "\<forall>a \<in> set ?as. attempt_order a \<le> attempt_order b"
  proof
    fix a assume a: "a \<in> set ?as"
    then have nonempty: "?as \<noteq> []" by auto
    note last = valid [OF last_in_set [OF nonempty]]
    from a have "attempt_order a \<in> set (map attempt_order ?as)" by simp
    with sorted_attempts_for [OF sorted] have "attempt_order a \<le> last (map attempt_order ?as)" by (rule sorted_last)
    also have "last (map attempt_order ?as) = attempt_order (last ?as)" using nonempty by (simp add: last_map)
    also have "\<dots> \<le> attempt_order b"
      using retried_later [OF retry [OF nonempty], of Z] last bounds(2) b(2) day_numbers [OF day last_in_set [OF nonempty]] number
      by (auto simp: attempt_order_def less_eq_prod_def)
    finally show "attempt_order a \<le> attempt_order b" .
  qed
  have "ja_attempt_number b \<le> jd_max_attempts_per_day (ja_definition b)" using due bounds(1) b(2) number by auto
  then have "day_ok (?as @ [b])" using number day retry by (intro day_ok_append) auto
  from history_insert [OF assms(3) sorted order this] show "attempts_history_ok (sort_attempts (st @ [b]))" .
  show "\<forall>a \<in> set ?as. attempt_order a \<le> attempt_order b" by (rule order)
  show "b \<notin> set st"
  proof
    assume "b \<in> set st"
    then have "b \<in> set ?as" by (simp add: attempts_for_def)
    from day_numbers [OF day this] number show False by simp
  qed
qed

lemma running_attempt_ok:
  assumes "due_now Z d t st" and "validate_definition Z d = Inr d"
  obtains b where "running_attempt Z d new t st = Inr b"
proof -
  have "int (length (attempts_for st (jd_job_id d) (zn_local_date Z (jd_timezone d) t))) + 1 \<le> 10"
    using assms(1) definition_bounds [OF assms(2)] by (auto simp: due_now_def Let_def)
  then have "running_attempt Z d new t st = Inr \<lparr>ja_attempt_id = new, ja_definition = d, ja_local_date = zn_local_date Z (jd_timezone d) t,
      ja_scheduled_for = scheduled_for Z d (zn_local_date Z (jd_timezone d) t),
      ja_attempt_number = int (length (attempts_for st (jd_job_id d) (zn_local_date Z (jd_timezone d) t))) + 1,
      ja_status = Running, ja_started_at = t, ja_completed_at = None, ja_execution = None, ja_failure = None, ja_telemetry = None\<rparr>"
    using assms(2) by (simp add: running_attempt_def Let_def build_parts validate_lifecycle_def)
  then show thesis by (rule that)
qed

definition fits :: "job_definition \<Rightarrow> attempt_status \<Rightarrow> job_execution option \<Rightarrow> job_failure option \<Rightarrow> bool" where
  "fits d status execution failure \<longleftrightarrow>
     (case (execution, failure) of
        (Some e, None) \<Rightarrow> status = Succeeded \<and> je_job_id e = jd_job_id d \<and> validate_execution e = Inr e
      | (None, Some f) \<Rightarrow> status = Failed \<and> validate_failure False f = Inr f
      | _ \<Rightarrow> False)"

lemma scheduled_job_failure_ok: "length message \<le> 500 \<Longrightarrow> validate_failure False (scheduled_job_failure category message None) =
    Inr (scheduled_job_failure category message None)"
  by (simp add: validate_failure_def scheduled_job_failure_def)

lemma interrupted_instances: "instances_ok None (Some interrupted_failure)"
  by (simp add: instances_ok_def interrupted_failure_def scheduled_job_failure_ok)

lemma outcome_fits:
  assumes "outcome_ok L outcome" and "outcome_of d outcome breached = Inr (status, execution, failure)"
  shows "fits d status execution failure"
  using assms by (cases outcome) (auto simp: outcome_of_def outcome_ok_def fits_def scheduled_job_failure_ok split: if_splits)

lemma outcome_returns: "outcome_ok True outcome \<Longrightarrow> \<exists>y. outcome_of d outcome breached = Inr y"
  by (cases outcome) (auto simp: outcome_of_def outcome_ok_def)

lemma fits_instances: "fits d status execution failure \<Longrightarrow> instances_ok execution failure"
  by (cases execution; cases failure) (auto simp: fits_def instances_ok_def)

lemma completed_attempt_ok:
  assumes "validate_attempt Z True a = Inr a" and "ja_started_at a \<le> t" and "fits (ja_definition a) status execution failure"
    and "\<forall>x \<ge> 0. 0 \<le> zn_duration_ms Z x"
  shows "\<exists>c. completed_attempt Z a status t execution failure peak = Inr c"
proof -
  let ?b = "a\<lparr>ja_status := status, ja_completed_at := Some t, ja_execution := execution, ja_failure := failure, ja_telemetry := None\<rparr>"
  have due: "ja_scheduled_for a = scheduled_for Z (ja_definition a) (ja_local_date a)"
    using assms(1) unfolding valid_parts by (auto simp: validate_lifecycle_def split: if_splits)
  have valid: "build_attempt Z ?b = Inr ?b"
    using assms(1-3) due unfolding valid_parts build_parts
    by (cases execution; cases failure) (auto simp: fits_def validate_lifecycle_def ja_job_id_def)
  have "0 \<le> zn_duration_ms Z (t - ja_started_at a)" using assms(2,4) by simp
  then have "\<exists>tm. attempt_telemetry Z ?b peak = Inr tm"
    using assms(2,3) by (cases execution; cases failure)
      (auto simp: attempt_telemetry_def validate_telemetry_def fits_def validate_execution_def split: if_splits)
  then obtain tm where "attempt_telemetry Z ?b peak = Inr tm" ..
  with valid have "completed_attempt Z a status t execution failure peak = Inr (?b\<lparr>ja_telemetry := Some tm\<rparr>)"
    by (simp only: completed_attempt_def bind_r_simps)
  then show ?thesis ..
qed

text \<open>The steps of an attempt from its outcome on.\<close>

definition outcome_recorded :: "'o scheduler \<Rightarrow> job_attempt list \<Rightarrow> job_attempt \<Rightarrow> (job_attempt \<times> job_attempt list, 'o) scheduled" where
  "outcome_recorded S st completed =
     bind_c (write_schedule S st completed) (\<lambda>st.
     bind_c (scheduler_now S) (\<lambda>result_persisted_at.
     bind_c (notify S completed) (\<lambda>_. pure_c (Inr (completed, st)))))"

definition complete_attempt ::
  "'o scheduler \<Rightarrow> job_definition \<Rightarrow> job_attempt list \<Rightarrow> job_attempt \<Rightarrow> job_outcome \<times> bool \<times> nat option \<Rightarrow> (job_attempt \<times> job_attempt list, 'o) scheduled" where
  "complete_attempt S d st running = (\<lambda>(outcome, breached, peak).
     bind_c (pure_c (outcome_of d outcome breached)) (\<lambda>(status, execution, failure).
     bind_c (scheduler_now S) (\<lambda>completed_at.
     bind_c (pure_c (completed_attempt (sc_zones S) running status completed_at execution failure peak)) (outcome_recorded S st))))"

definition attempted :: "zones \<Rightarrow> job_definition \<Rightarrow> utc \<Rightarrow> job_attempt list \<Rightarrow> job_attempt \<times> job_attempt list \<Rightarrow> bool" where
  \<comment> \<open>the attempt is new in the history, for this job and this day, and not running\<close>
  "attempted Z d t st x \<longleftrightarrow> snd x = sort_attempts (st @ [fst x]) \<and> ja_definition (fst x) = d \<and> ja_status (fst x) \<noteq> Running \<and>
     ja_local_date (fst x) = zn_local_date Z (jd_timezone d) t \<and>
     (\<forall>job_id local_date. attempts_for (snd x) job_id local_date = attempts_for st job_id local_date @
       (if ja_job_id (fst x) = job_id \<and> ja_local_date (fst x) = local_date then [fst x] else []))"

lemma hoare_eq: "hoare P (f y) R E \<Longrightarrow> hoare (\<lambda>w. x = y \<and> P w) (f x) R E"
  by (cases "x = y") (simp_all add: hoare_def)

lemma hoare_pure_pre: "(Q \<Longrightarrow> hoare P c R E) \<Longrightarrow> hoare (\<lambda>w. Q \<and> P w) c R E"
  by (cases Q) (simp_all add: hoare_def)

lemma sched_schedule_ok: "sched S clk L J m k active st w \<Longrightarrow> schedule_ok st"
  by (auto simp: sched_def dest: loaded_ok)

lemma hoare_schedule_ok:
  assumes "schedule_ok st \<Longrightarrow> hoare (sched S clk L J m k active st) c R E"
  shows "hoare (sched S clk L J m k active st) c R E"
  using assms by (cases "schedule_ok st") (auto simp: hoare_def dest: sched_schedule_ok)

text \<open>The outcome takes the place of the running attempt.\<close>

lemma outcome_sorted:
  assumes "schedule_ok (as @ [b] @ bs)" and "sort_attempts (st @ [b]) = as @ [b] @ bs" and "same_slot b c"
  shows "as @ [c] @ bs = sort_attempts (st @ [c])"
proof -
  have ids: "mset (map ja_attempt_id (as @ [b] @ bs)) = mset (map ja_attempt_id (st @ [b]))"
    unfolding assms(2) [symmetric] by (simp add: sort_attempts_def)
  have distinct: "distinct (map ja_attempt_id (as @ [b] @ bs))" using assms(1) by (simp add: schedule_ok_def)
  with ids have "distinct (map ja_attempt_id (st @ [b]))" by (metis mset_eq_imp_distinct_iff)
  moreover have "ja_attempt_id c = ja_attempt_id b" using assms(3) by (simp add: same_slot_def)
  ultimately have new: "distinct (map ja_attempt_id (st @ [c]))" "b \<notin> set st" by auto
  have "set (st @ [b]) = set (as @ [b] @ bs)" unfolding assms(2) [symmetric] by (simp add: sort_attempts_def)
  moreover have "b \<notin> set as" "b \<notin> set bs" using distinct by (auto simp: distinct_map)
  ultimately have "set (as @ [c] @ bs) = set (st @ [c])" using new(2) by auto
  moreover have ok: "schedule_ok (as @ [c] @ bs)" by (rule schedule_ok_outcome [OF assms(1,3)])
  then have "distinct (map ja_attempt_id (as @ [c] @ bs))" unfolding schedule_ok_def by blast
  ultimately have "sort_attempts (as @ [c] @ bs) = sort_attempts (st @ [c])" using new(1) by (intro sort_attempts_same)
  then show ?thesis by (simp only: sorted_schedule [OF ok])
qed

lemma attempted_outcome:
  assumes "schedule_ok st" and "as @ [c] @ bs = sort_attempts (st @ [c])" and "same_slot b c"
    and "ja_definition b = d" and "ja_local_date b = zn_local_date Z (jd_timezone d) t" and "ja_status c \<noteq> Running"
    and "\<forall>a \<in> set (attempts_for st (ja_job_id b) (ja_local_date b)). attempt_order a \<le> attempt_order b"
  shows "attempted Z d t st (c, as @ [c] @ bs)"
proof -
  have c: "ja_definition c = d" "ja_local_date c = ja_local_date b" "ja_job_id c = ja_job_id b" "attempt_order c = attempt_order b"
    using assms(3,4) same_slot_order [OF assms(3)] by (simp_all add: same_slot_def)
  have "sorted (map attempt_order st)" using assms(1) by (simp add: schedule_ok_def)
  from attempts_for_insert [OF this, of c] assms(7) c
  have "attempts_for (sort_attempts (st @ [c])) job_id local_date = attempts_for st job_id local_date @
      (if ja_job_id c = job_id \<and> ja_local_date c = local_date then [c] else [])" for job_id local_date by simp
  then show ?thesis using assms(2,5,6) c by (simp add: attempted_def)
qed

definition newest :: "job_attempt list \<Rightarrow> job_attempt \<Rightarrow> bool" where
  \<comment> \<open>no attempt of its job and day comes after it\<close>
  "newest st b \<longleftrightarrow> schedule_ok st \<and>
     (\<forall>a \<in> set (attempts_for st (ja_job_id b) (ja_local_date b)). attempt_order a \<le> attempt_order b)"

lemma record_step:
  assumes "L \<Longrightarrow> undisturbed S control" and "completed_attempt (sc_zones S) b status t' execution failure peak = Inr c"
    and "instances_ok execution failure" and "running_attempt (sc_zones S) d new t st = Inr b" and "newest st b"
  shows "hoare (sched S clk L J m k active (sort_attempts (st @ [b]))) (outcome_recorded S (sort_attempts (st @ [b])) c)
    (\<lambda>x w. attempted (sc_zones S) d t st x \<and> sched S clk L J m k active (snd x) w) (failed S clk L active)"
proof (rule hoare_schedule_ok)
  assume ok: "schedule_ok (sort_attempts (st @ [b]))"
  note b = running_attempt_Inr [OF assms(4)] and c = completed_attempt_Inr [OF assms(2)]
  have c_done: "ja_status c \<noteq> Running" using c(3,6) by simp
  have "b \<in> set (sort_attempts (st @ [b]))" by (simp add: insert_started)
  then obtain as bs where split: "sort_attempts (st @ [b]) = as @ [b] @ bs" using split_list by fastforce
  have order: "as @ [c] @ bs = sort_attempts (st @ [c])" using outcome_sorted [OF _ split c(2)] ok split by simp
  have finished: "attempted (sc_zones S) d t st (c, as @ [c] @ bs)"
    using assms(5) by (intro attempted_outcome [OF _ order c(2) b(2,6) c_done]) (simp_all add: newest_def)
  have written: "hoare (sched S clk L J m k active (as @ [b] @ bs)) (write_schedule S (as @ [b] @ bs) c)
      (\<lambda>st' w. st' = as @ [c] @ bs \<and> sched S clk L J m k active (as @ [c] @ bs) w) (failed S clk L active)"
    by (rule outcome_step [OF c(1) [OF assms(3)] b(3) c_done c(2)])
  have now: "hoare (sched S clk L J m k active (as @ [c] @ bs)) (scheduler_now S) (\<lambda>t. sched S clk L J m k active (as @ [c] @ bs))
      (failed S clk L active)"
    by (rule hoare_conseq [OF now_step]) (auto intro: sched_weaken)
  have "hoare (sched S clk L J m k active (as @ [c] @ bs)) (bind_c (scheduler_now S) (\<lambda>result_persisted_at.
      bind_c (notify S c) (\<lambda>_. pure_c (Inr (c, as @ [c] @ bs)))))
      (\<lambda>x w. attempted (sc_zones S) d t st x \<and> sched S clk L J m k active (snd x) w) (failed S clk L active)"
    by (intro hoare_bind [OF now] hoare_bind [OF notify_step [OF assms(1)]] hoare_pure) (simp_all add: finished [simplified])
  then show "hoare (sched S clk L J m k active (sort_attempts (st @ [b]))) (outcome_recorded S (sort_attempts (st @ [b])) c)
      (\<lambda>x w. attempted (sc_zones S) d t st x \<and> sched S clk L J m k active (snd x) w) (failed S clk L active)"
    unfolding outcome_recorded_def split by (intro hoare_bind [OF written] hoare_eq)
qed

lemma complete_step:
  assumes "L \<Longrightarrow> undisturbed S control" and "running_attempt (sc_zones S) d new t st = Inr b" and "newest st b"
  shows "hoare (\<lambda>w. sched S clk L J m k active (sort_attempts (st @ [b])) w \<and> outcome_ok L (fst x))
    (complete_attempt S d (sort_attempts (st @ [b])) b x)
    (\<lambda>x w. attempted (sc_zones S) d t st x \<and> sched S clk L J m k active (snd x) w) (failed S clk L active)"
proof -
  note b = running_attempt_Inr [OF assms(2)]
  let ?st = "sort_attempts (st @ [b])"
  let ?P = "\<lambda>m. sched S clk L J m k active ?st" and ?E = "failed S clk L active"
  let ?R = "\<lambda>x w. attempted (sc_zones S) d t st x \<and> sched S clk L J m k active (snd x) w"
  obtain outcome breached peak where x: "x = (outcome, breached, peak)" by (cases x)
  have completing: "hoare (\<lambda>w. \<exists>n. m \<le> n \<and> timed L clk n t' ?st \<and> ?P (Suc n) w)
      (bind_c (pure_c (completed_attempt (sc_zones S) b status t' execution failure peak)) (outcome_recorded S ?st)) ?R ?E"
    if "fits d status execution failure" for t' status execution failure
  proof (rule hoare_ex, rule hoare_result)
    fix n c assume c: "completed_attempt (sc_zones S) b status t' execution failure peak = Inr c"
    show "hoare (\<lambda>w. m \<le> n \<and> timed L clk n t' ?st \<and> ?P (Suc n) w) (outcome_recorded S ?st c) ?R ?E"
    proof (rule hoare_pure_pre)
      assume "m \<le> n"
      then show "hoare (\<lambda>w. timed L clk n t' ?st \<and> ?P (Suc n) w) (outcome_recorded S ?st c) ?R ?E"
        by (intro hoare_pure_pre hoare_conseq [OF record_step [OF assms(1) c fits_instances [OF that] assms(2,3)]])
          (auto intro: sched_weaken)
    qed
  next
    fix n e w assume bad: "completed_attempt (sc_zones S) b status t' execution failure peak = Inl e"
      and w: "m \<le> n \<and> timed L clk n t' ?st \<and> ?P (Suc n) w"
    have "\<not> L"
    proof
      assume L
      then have "\<forall>x \<ge> 0. 0 \<le> zn_duration_ms (sc_zones S) x" using assms(1) by (simp add: undisturbed_def)
      moreover have "ja_started_at b \<le> t'" using w \<open>L\<close> by (simp add: timed_def insert_started)
      moreover have "fits (ja_definition b) status execution failure" using that b(2) by simp
      ultimately show False using completed_attempt_ok [OF b(1)] bad by (metis sum.distinct(1))
    qed
    with w show "?E e w" using sched_failed by blast
  qed
  show ?thesis
    unfolding complete_attempt_def x prod.case fst_conv
  proof (rule hoare_assume, rule hoare_result)
    fix y assume ok: "outcome_ok L outcome" and y: "outcome_of d outcome breached = Inr y"
    obtain status execution failure where xy: "y = (status, execution, failure)" by (cases y)
    from completing [OF outcome_fits [OF ok y [unfolded xy]]]
    show "hoare (?P m) (case y of (status, execution, failure) \<Rightarrow> bind_c (scheduler_now S) (\<lambda>completed_at.
        bind_c (pure_c (completed_attempt (sc_zones S) b status completed_at execution failure peak)) (outcome_recorded S ?st))) ?R ?E"
      unfolding xy prod.case by (rule hoare_bind [OF now_step])
  next
    fix e w assume "outcome_ok L outcome" "outcome_of d outcome breached = Inl e" "?P m w"
    moreover from this(1,2) have "\<not> L" using outcome_returns [of outcome d breached] by (cases L) auto
    ultimately show "?E e w" using sched_failed by blast
  qed
qed

lemma run_job_steps:
  "run_job S control d now st =
     bind_c (take_id S) (\<lambda>attempt_id.
     bind_c (pure_c (running_attempt (sc_zones S) d attempt_id now st)) (\<lambda>running.
     bind_c (write_schedule S st running) (\<lambda>st.
     bind_c (run_callback S control \<lparr>ji_definition = d, ji_local_date = ja_local_date running,
         ji_scheduled_for = ja_scheduled_for running, ji_started_at = now, ji_attempt_number = ja_attempt_number running\<rparr>)
       (complete_attempt S d st running))))"
  unfolding run_job_def complete_attempt_def outcome_recorded_def ..

lemma attempt_step:
  assumes "L \<Longrightarrow> undisturbed S control" and "L \<Longrightarrow> validate_definition (sc_zones S) d = Inr d"
    and "due_now (sc_zones S) d t st" and "timed L clk n t st"
  shows "hoare (sched S clk L J (Suc n) (Suc k) active st) (run_job S control d t st)
    (\<lambda>x w. attempted (sc_zones S) d t st x \<and> sched S clk L J (Suc n) k active (snd x) w) (failed S clk L active)"
  (is "hoare ?P _ ?R ?E")
proof (rule hoareI)
  fix w0 assume pre: "?P w0"
  then have load: "load_schedule (sc_zones S) (sw_files w0) = Inr st" and history: "attempts_history_ok st" by (auto simp: sched_def)
  note ok = loaded_ok [OF load]
  let ?fresh = "\<lambda>new w. sched S clk L J (Suc n) k active st w \<and> (L \<longrightarrow> length st < MAX_ATTEMPTS_RETAINED - k \<and>
    (\<forall>a \<in> set st. ja_attempt_id a \<noteq> new) \<and> (\<forall>n \<in> {sw_ids w..<sw_ids w + k}. new \<noteq> sc_attempt_id S n))"
  have rest: "hoare (?fresh new) (bind_c (pure_c (running_attempt (sc_zones S) d new t st)) (\<lambda>b.
      bind_c (write_schedule S st b) (\<lambda>st. bind_c (run_callback S control (i b)) (complete_attempt S d st b)))) ?R ?E" for new i
  proof (rule hoare_result)
    fix e w assume "running_attempt (sc_zones S) d new t st = Inl e" "?fresh new w"
    moreover have "\<not> L" if "running_attempt (sc_zones S) d new t st = Inl e"
      using running_attempt_ok [OF assms(3,2), of new] that by fastforce
    ultimately show "?E e w" using sched_failed by blast
  next
    fix b assume running: "running_attempt (sc_zones S) d new t st = Inr b"
    note b = running_attempt_Inr [OF this]
    note running_history = running_history [OF running assms(3) history ok loaded_valid [OF load]]
    have newest: "newest st b" using ok running_history(3) by (simp add: newest_def)
    have "timed L clk n (ja_started_at b) st" using assms(4) b(4) by simp
    from running_step [OF b(1,3) this running_history(2,1), of J k active]
    have written: "hoare (?fresh new) (write_schedule S st b)
        (\<lambda>st' w. st' = sort_attempts (st @ [b]) \<and> sched S clk L J (Suc n) k active (sort_attempts (st @ [b])) w) ?E"
      unfolding b(5) .
    show "hoare (?fresh new) (bind_c (write_schedule S st b) (\<lambda>st. bind_c (run_callback S control (i b)) (complete_attempt S d st b))) ?R ?E"
      by (rule hoare_bind [OF written], rule hoare_eq, rule hoare_bind [OF callback_step [OF assms(1)]], assumption,
          rule complete_step [OF assms(1) running newest])
  qed
  have "hoare ?P (run_job S control d t st) ?R ?E"
    unfolding run_job_steps by (rule hoare_bind [OF id_step], rule rest)
  from hoareE [OF this pre] show "case run_job S control d t st w0 of (Inl e, w') \<Rightarrow> ?E e w' | (Inr x, w') \<Rightarrow> ?R x w'" .
qed

end
