(* ===== verification/SchedulerTicks.thy ===== *)
theory SchedulerTicks
  imports SchedulerRuns
begin

text \<open>
  A tick: the recovery of interrupted attempts leaves none running, and the due jobs are run one
  after the other.
\<close>

section \<open>Recovery\<close>

definition only_latest_run :: "job_attempt list \<Rightarrow> bool" where
  \<comment> \<open>a running attempt is the latest one of its job\<close>
  "only_latest_run st \<longleftrightarrow> (\<forall>a \<in> set st. ja_status a = Running \<longrightarrow> dict_get (latest_by_job st) (ja_job_id a) = Some a)"

lemma idle_latest: "idle st \<Longrightarrow> only_latest_run st"
  by (simp add: idle_def only_latest_run_def)

definition recoverable :: "bool \<Rightarrow> (string \<times> job_attempt) list \<Rightarrow> job_attempt list \<Rightarrow> bool" where
  \<comment> \<open>the entries name attempts of different jobs, and if \<open>L\<close> all running ones are among them\<close>
  "recoverable L rest st \<longleftrightarrow> distinct (map fst rest) \<and> (\<forall>(job_id, a) \<in> set rest. a \<in> set st \<and> ja_job_id a = job_id) \<and>
     (L \<longrightarrow> (\<forall>a \<in> set st. ja_status a = Running \<longrightarrow> (ja_job_id a, a) \<in> set rest))"

lemma latest_recoverable:
  assumes "L \<Longrightarrow> only_latest_run st"
  shows "recoverable L (sort_key fst (latest_by_job st)) st"
proof -
  have ok: "dict_ok (latest_by_job st)"
    unfolding latest_by_job_def by (rule dict_ok_by)
  have get: "a \<in> set st \<and> ja_job_id a = job_id" if "dict_get (latest_by_job st) job_id = Some a" for job_id a
    using dict_get_by_SomeD that unfolding latest_by_job_def .
  have "distinct (map fst (sort_key fst (latest_by_job st)))" using ok by (simp add: dict_ok_def distinct_map)
  with ok get assms show ?thesis by (auto simp: recoverable_def only_latest_run_def dict_in_iff_get)
qed

lemma sched_distinct: "sched S clk L J m k active st w \<Longrightarrow> distinct st"
  by (auto simp: sched_def schedule_ok_def distinct_map dest!: loaded_ok)

lemma recoverable_outcome:
  assumes "recoverable L ((job_id, a) # rest) (as @ [a] @ bs)" and "a \<notin> set as" and "a \<notin> set bs" and "ja_status c \<noteq> Running"
  shows "recoverable L rest (as @ [c] @ bs)"
proof -
  from assms(1) have rest: "distinct (map fst rest)" "job_id \<notin> fst ` set rest" "ja_job_id a = job_id"
    and entries: "\<And>j x. (j, x) \<in> set rest \<Longrightarrow> x \<in> set (as @ [a] @ bs) \<and> ja_job_id x = j"
    and running: "\<And>x. L \<Longrightarrow> x \<in> set (as @ [a] @ bs) \<Longrightarrow> ja_status x = Running \<Longrightarrow> (ja_job_id x, x) \<in> set ((job_id, a) # rest)"
    unfolding recoverable_def by auto
  have "x \<in> set (as @ [c] @ bs) \<and> ja_job_id x = j" if "(j, x) \<in> set rest" for j x
  proof -
    have "x \<noteq> a" using that rest(2,3) entries [OF that] by (auto simp: image_iff)
    with entries [OF that] show ?thesis by auto
  qed
  moreover have "(ja_job_id x, x) \<in> set rest" if "L" "x \<in> set (as @ [c] @ bs)" "ja_status x = Running" for x
  proof -
    have x: "x \<in> set as \<or> x \<in> set bs" using that assms(4) by auto
    then have "x \<noteq> a" using assms(2,3) by auto
    with running [of x] x that show ?thesis by auto
  qed
  ultimately show ?thesis using rest(1) unfolding recoverable_def by fast
qed

definition recovered :: "zones \<Rightarrow> utc \<Rightarrow> job_attempt \<Rightarrow> job_attempt" where
  \<comment> \<open>a running attempt fails as interrupted\<close>
  "recovered Z now a =
     (if ja_status a = Running
        then (case completed_attempt Z a Failed now None (Some interrupted_failure) None of Inl e \<Rightarrow> a | Inr c \<Rightarrow> c)
      else a)"

lemma recover_steps:
  assumes "L \<Longrightarrow> undisturbed S control" and "recoverable L rest st" and "L \<Longrightarrow> \<forall>a \<in> set st. ja_started_at a \<le> now"
  shows "hoare (sched S clk L J m k None st) (recover_attempts S now rest st completed)
    (\<lambda>x w. sched S clk L J m k None (fst x) w \<and> (L \<longrightarrow> idle (fst x) \<and> fst x = map (recovered (sc_zones S) now) st \<and>
      (\<exists>new. snd x = completed @ new \<and> set new \<subseteq> set (fst x)))) (failed S clk L None)"
  (is "hoare _ _ (?R st completed) ?E")
  using assms(2,3)
proof (induction rest arbitrary: st completed)
  case Nil
  have "idle st \<and> map (recovered (sc_zones S) now) st = st" if L
  proof -
    have "idle st" using Nil that by (auto simp: recoverable_def idle_def)
    moreover from this have "map (recovered (sc_zones S) now) st = st" by (auto simp: idle_def recovered_def intro: map_idI)
    ultimately show ?thesis ..
  qed
  then show ?case by (auto intro!: hoare_pure)
next
  case (Cons entry rest)
  obtain job_id a where entry: "entry = (job_id, a)" by force
  let ?P = "sched S clk L J m k None"
  let ?recover = "bind_c (pure_c (completed_attempt (sc_zones S) a Failed now None (Some interrupted_failure) None))
      (\<lambda>recovered. bind_c (write_schedule S st recovered) (\<lambda>st. bind_c (notify S recovered)
        (\<lambda>_. recover_attempts S now rest st (completed @ [recovered]))))"
  from Cons.prems(1) have a: "a \<in> set st" "ja_job_id a = job_id" by (auto simp: recoverable_def entry)
  have skip: "hoare (?P st) (recover_attempts S now rest st completed) (?R st completed) ?E" if "ja_status a \<noteq> Running"
  proof -
    have "recoverable L rest st" using Cons.prems(1) that by (auto simp: recoverable_def entry)
    from Cons.IH [OF this Cons.prems(2), of completed] show ?thesis .
  qed
  have recover: "hoare (?P st) ?recover (?R st completed) ?E" if running: "ja_status a = Running"
  proof (rule hoare_result)
    fix e w assume bad: "completed_attempt (sc_zones S) a Failed now None (Some interrupted_failure) None = Inl e" and w: "?P st w"
    have "\<not> L"
    proof
      assume L
      have "validate_attempt (sc_zones S) True a = Inr a" using w a(1) loaded_valid by (auto simp: sched_def)
      moreover have "ja_started_at a \<le> now" using Cons.prems(2) \<open>L\<close> a(1) by auto
      moreover have "fits (ja_definition a) Failed None (Some interrupted_failure)"
        by (simp add: fits_def interrupted_failure_def scheduled_job_failure_ok)
      moreover have "\<forall>x \<ge> 0. 0 \<le> zn_duration_ms (sc_zones S) x" using assms(1) [OF \<open>L\<close>] by (simp add: undisturbed_def)
      ultimately show False using completed_attempt_ok bad by (metis sum.distinct(1))
    qed
    with w show "?E e w" by (auto intro: sched_failed)
  next
    fix c assume c: "completed_attempt (sc_zones S) a Failed now None (Some interrupted_failure) None = Inr c"
    then have new': "recovered (sc_zones S) now a = c" using running by (simp add: recovered_def)
    note c = completed_attempt_Inr [OF c]
    from split_list [OF a(1)] obtain as bs where st: "st = as @ [a] @ bs" by auto
    have c_done: "ja_status c \<noteq> Running" using c(3) by simp
    have job: "ja_job_id c = job_id" "ja_started_at c = ja_started_at a" using same_slot_order [OF c(2)] a(2) c(2) by (simp_all add: same_slot_def)
    show "hoare (?P st) (bind_c (write_schedule S st c) (\<lambda>st. bind_c (notify S c)
        (\<lambda>_. recover_attempts S now rest st (completed @ [c])))) (?R st completed) ?E"
    proof (cases "distinct st")
      case unique: True
      have rec: "recoverable L rest (as @ [c] @ bs)"
        using recoverable_outcome [OF _ _ _ c_done, of L job_id a rest as bs] Cons.prems(1) unique unfolding entry st by auto
      have older: "\<forall>x \<in> set (as @ [c] @ bs). ja_started_at x \<le> now" if L using Cons.prems(2) [OF that] job(2) unfolding st by auto
      have post: "?R (as @ [a] @ bs) completed x w" if "?R (as @ [c] @ bs) (completed @ [c]) x w" for x w
      proof (cases L)
        case True
        with that obtain new where new: "snd x = (completed @ [c]) @ new" "set new \<subseteq> set (fst x)"
          and all: "fst x = map (recovered (sc_zones S) now) (as @ [c] @ bs)" by blast
        have "recovered (sc_zones S) now c = c" using c_done by (simp add: recovered_def)
        with all have all: "fst x = map (recovered (sc_zones S) now) (as @ [a] @ bs)" and "c \<in> set (fst x)"
          using new' by simp_all
        then have "snd x = completed @ (c # new) \<and> set (c # new) \<subseteq> set (fst x)" using new by simp
        with all that True show ?thesis by blast
      qed (use that in blast)
      have rest: "hoare (?P (as @ [c] @ bs)) (recover_attempts S now rest (as @ [c] @ bs) (completed @ [c])) (?R (as @ [a] @ bs) completed) ?E"
        by (rule hoare_conseq [OF Cons.IH [OF rec older, of "completed @ [c]"]]) (fact post | assumption)+
      show ?thesis
        unfolding st
        by (rule hoare_bind [OF outcome_step [OF c(1) [OF interrupted_instances] running c_done c(2)]], rule hoare_eq,
            rule hoare_bind [OF notify_step [OF assms(1)]], assumption, rule rest)
    next
      case False
      then have "\<not> ?P st w" for w using sched_distinct by blast
      then show ?thesis by (simp add: hoare_def)
    qed
  qed
  show ?case
    unfolding entry recover_attempts.simps
  proof (rule hoare_get)
    fix active
    show "hoare (\<lambda>w. ?P st w \<and> sw_active_job w = active) (if ja_status a \<noteq> Running \<or> Some job_id = active
        then recover_attempts S now rest st completed else ?recover) (?R st completed) ?E"
    proof (cases "ja_status a = Running")
      case True
      then show ?thesis using recover [OF True] by (cases active) (auto simp: hoare_def sched_def)
    next
      case False
      then show ?thesis using skip [OF False] by (auto simp: hoare_def)
    qed
  qed
qed

section \<open>Due jobs\<close>

definition fulfilled :: "zones \<Rightarrow> (nat \<Rightarrow> utc) \<Rightarrow> nat \<Rightarrow> job_attempt list \<Rightarrow> 'o scheduler_world \<Rightarrow> job_definition \<Rightarrow> bool" where
  \<comment> \<open>the job has an attempt in \<open>new\<close>, or its day ended since the reading \<open>n0\<close>\<close>
  "fulfilled Z clk n0 new w d \<longleftrightarrow> (\<exists>a \<in> set new. ja_definition a = d) \<or>
     (\<exists>n. n0 \<le> n \<and> n < sw_ticks w \<and> zn_local_date Z (jd_timezone d) (clk n) \<noteq> zn_local_date Z (jd_timezone d) (clk n0))"

definition queued :: "'o scheduler \<Rightarrow> (nat \<Rightarrow> utc) \<Rightarrow> job_definition list \<Rightarrow> nat \<Rightarrow> job_definition list \<Rightarrow> job_attempt list \<Rightarrow> bool" where
  "queued S clk J n0 ds st \<longleftrightarrow> distinct (map jd_job_id ds) \<and>
     (\<forall>d \<in> set ds. d \<in> set J \<and> validate_definition (sc_zones S) d = Inr d \<and> due_now (sc_zones S) d (clk n0) st)"

lemma release_step:
  assumes "hoare P c (\<lambda>x w. R x (release_active_job job_id w)) (\<lambda>e w. E e (release_active_job job_id w))"
  shows "hoare P (finally_release job_id c) R E"
proof (rule hoareI)
  fix w assume "P w"
  from hoareE [OF assms this] show "case finally_release job_id c w of (Inl e, w') \<Rightarrow> E e w' | (Inr x, w') \<Rightarrow> R x w'"
    by (auto simp: finally_release_def split: prod.splits sum.splits)
qed

lemma sched_release:
  "sched S clk L J m k (Some job_id) st w \<Longrightarrow> sched S clk L J m k None st (release_active_job job_id w)"
  by (simp add: sched_def fresh_ids_def release_active_job_def)

lemma failed_release: "failed S clk L (Some job_id) e w \<Longrightarrow> failed S clk L None e (release_active_job job_id w)"
  by (auto simp: failed_def intro: sched_release)

lemma claim_step:
  assumes "L \<Longrightarrow> d \<in> set J"
  shows "hoare (sched S clk L J m k None st) (claim_registered_job (jd_job_id d)) (\<lambda>claimed w.
    if claimed then sched S clk L J m k (Some (jd_job_id d)) st w else \<not> L \<and> sched S clk L J m k None st w) E"
  using assms by (auto simp: hoare_def claim_registered_job_def sched_def fresh_ids_def list_all_iff)

text \<open>One due job: its attempt, and whether the tick is cancelled.\<close>

definition run_claimed :: "'o scheduler \<Rightarrow> control \<Rightarrow> job_definition \<Rightarrow> utc \<Rightarrow> job_attempt list \<Rightarrow> (job_attempt \<times> job_attempt list \<times> bool, 'o) scheduled" where
  "run_claimed S control d now st =
     finally_release (jd_job_id d) (bind_c (run_job S control d now st) (\<lambda>(attempt, st).
       bind_c (cancelled control) (\<lambda>stop. pure_c (Inr (attempt, st, stop)))))"

lemma claimed_step:
  assumes "L \<Longrightarrow> undisturbed S control" and "L \<Longrightarrow> validate_definition (sc_zones S) d = Inr d"
    and "due_now (sc_zones S) d t st" and "timed L clk n t st"
  shows "hoare (sched S clk L J (Suc n) (Suc k) (Some (jd_job_id d)) st) (run_claimed S control d t st)
    (\<lambda>(attempt, st', stop) w. attempted (sc_zones S) d t st (attempt, st') \<and> sched S clk L J (Suc n) k None st' w \<and> (stop \<longrightarrow> \<not> L))
    (failed S clk L None)"
proof -
  let ?Q = "\<lambda>x w. (case x of (attempt, st', stop) \<Rightarrow> \<lambda>w. attempted (sc_zones S) d t st (attempt, st') \<and>
        sched S clk L J (Suc n) k None st' w \<and> (stop \<longrightarrow> \<not> L)) (release_active_job (jd_job_id d) w)"
  let ?E = "\<lambda>e w. failed S clk L None e (release_active_job (jd_job_id d) w)"
  have step: "hoare (sched S clk L J (Suc n) (Suc k) (Some (jd_job_id d)) st) (run_job S control d t st)
    (\<lambda>x w. attempted (sc_zones S) d t st x \<and> sched S clk L J (Suc n) k (Some (jd_job_id d)) (snd x) w) ?E"
    by (rule hoare_conseq [OF attempt_step [OF assms]]) (auto intro: failed_release)
  show ?thesis
    unfolding run_claimed_def
  proof (rule release_step, rule hoare_bind [OF step])
    fix x :: "job_attempt \<times> job_attempt list"
    obtain attempt st' where x: "x = (attempt, st')" by force
    show "hoare (\<lambda>w. attempted (sc_zones S) d t st x \<and> sched S clk L J (Suc n) k (Some (jd_job_id d)) (snd x) w)
        (case x of (attempt, st) \<Rightarrow> bind_c (cancelled control) (\<lambda>stop. pure_c (Inr (attempt, st, stop)))) ?Q ?E"
      unfolding x prod.case snd_conv
    proof (rule hoare_pure_pre)
      assume "attempted (sc_zones S) d t st (attempt, st')"
      then show "hoare (sched S clk L J (Suc n) k (Some (jd_job_id d)) st')
          (bind_c (cancelled control) (\<lambda>stop. pure_c (Inr (attempt, st', stop)))) ?Q ?E"
        by (intro hoare_conseq [OF hoare_bind [OF cancelled_step [OF assms(1)] hoare_pure]]) (auto intro: sched_release)
    qed
  qed
qed

lemma get_const: "bind_c (get_w g) (\<lambda>x. c) = c"
  by (simp add: fun_eq_iff bind_c_def get_w_def)

lemma run_due_Cons:
  "run_due S control (d # ds) st completed =
     bind_c (raise_if_cancelled control) (\<lambda>_.
     bind_c (scheduler_now S) (\<lambda>current.
     if \<not> due_now (sc_zones S) d current st then run_due S control ds st completed
     else bind_c (claim_registered_job (jd_job_id d)) (\<lambda>claimed.
       if \<not> claimed then run_due S control ds st completed
       else bind_c (run_claimed S control d current st) (\<lambda>(attempt, st, stop).
         if stop then pure_c (Inr (completed @ [attempt])) else run_due S control ds st (completed @ [attempt])))))"
  by (simp only: run_due.simps js_due_iff get_const run_claimed_def)

lemma raise_step:
  assumes "L \<Longrightarrow> undisturbed S control"
  shows "hoare (sched S clk L J m k active st) (raise_if_cancelled control) (\<lambda>u. sched S clk L J m k active st) (failed S clk L active)"
  unfolding raise_if_cancelled_def
proof (rule hoare_bind [OF cancelled_step [OF assms]], assumption)
  fix stop
  show "hoare (\<lambda>w. sched S clk L J m k active st w \<and> (stop \<longrightarrow> \<not> L)) (pure_c (if stop then Inl (CancelledError ''operation cancellation requested'') else Inr ()))
      (\<lambda>u. sched S clk L J m k active st) (failed S clk L active)"
    by (cases stop) (auto simp: hoare_def pure_c_def intro: sched_failed)
qed

lemma queued_attempted:
  assumes "queued S clk J n0 (d # ds) st" and "attempted Z d t st (a, st')"
  shows "queued S clk J n0 ds st'"
proof -
  have a: "ja_job_id a = jd_job_id d" using assms(2) by (simp add: attempted_def ja_job_id_def)
  have "due_now (sc_zones S) d' (clk n0) st'" if "d' \<in> set ds" for d'
  proof (rule due_later)
    have "jd_job_id d' \<noteq> jd_job_id d" using assms(1) imageI [OF that, of jd_job_id] by (auto simp: queued_def)
    moreover have "attempts_for st' job_id local_date = attempts_for st job_id local_date @
        (if ja_job_id a = job_id \<and> ja_local_date a = local_date then [a] else [])" for job_id local_date
      using assms(2) unfolding attempted_def fst_conv snd_conv by blast
    ultimately show "attempts_for st' (jd_job_id d') local_date = attempts_for st (jd_job_id d') local_date" for local_date
      using a by simp
    show "due_now (sc_zones S) d' (clk n0) st" using assms(1) that by (simp add: queued_def)
  qed simp_all
  with assms(1) show ?thesis by (simp add: queued_def)
qed

definition ran :: "'o scheduler \<Rightarrow> (nat \<Rightarrow> utc) \<Rightarrow> bool \<Rightarrow> job_definition list \<Rightarrow> nat \<Rightarrow> nat \<Rightarrow> job_definition list \<Rightarrow>
    job_attempt list \<Rightarrow> job_attempt list \<Rightarrow> job_attempt list \<Rightarrow> 'o scheduler_world \<Rightarrow> bool" where
  "ran S clk L J n0 m ds st completed completed' w \<longleftrightarrow>
     (\<exists>st'. sched S clk L J m 0 None st' w \<and>
       (L \<longrightarrow> (\<exists>new. completed' = completed @ new \<and> st' = sort_attempts (st @ new) \<and> idle st' \<and>
         (\<forall>d \<in> set ds. fulfilled (sc_zones S) clk n0 new w d))))"

lemma claim_then:
  assumes "L \<Longrightarrow> d \<in> set J" and "\<not> L \<Longrightarrow> hoare (sched S clk L J m k None st) c R E"
    and "hoare (sched S clk L J m k (Some (jd_job_id d)) st) f R E"
  shows "hoare (sched S clk L J m k None st) (bind_c (claim_registered_job (jd_job_id d)) (\<lambda>claimed. if \<not> claimed then c else f)) R E"
proof (rule hoare_bind [OF claim_step [OF assms(1)]], assumption)
  fix claimed
  show "hoare (\<lambda>w. if claimed then sched S clk L J m k (Some (jd_job_id d)) st w else \<not> L \<and> sched S clk L J m k None st w)
      (if \<not> claimed then c else f) R E"
    using assms(2,3) by (cases claimed; cases L) (simp_all add: hoare_def)
qed

lemma claimed_then:
  assumes "L \<Longrightarrow> undisturbed S control" and "L \<Longrightarrow> validate_definition (sc_zones S) d = Inr d"
    and "due_now (sc_zones S) d t st" and "timed L clk n t st"
    and "\<And>a st'. attempted (sc_zones S) d t st (a, st') \<Longrightarrow> hoare (sched S clk L J (Suc n) k None st') (f a st') R (failed S clk L None)"
    and "\<And>a st' w. attempted (sc_zones S) d t st (a, st') \<Longrightarrow> \<not> L \<Longrightarrow> sched S clk L J (Suc n) k None st' w \<Longrightarrow> R (completed @ [a]) w"
  shows "hoare (sched S clk L J (Suc n) (Suc k) (Some (jd_job_id d)) st) (bind_c (run_claimed S control d t st)
    (\<lambda>(a, st', stop). if stop then pure_c (Inr (completed @ [a])) else f a st')) R (failed S clk L None)"
proof (rule hoare_bind [OF claimed_step [OF assms(1-4)]], assumption+)
  fix x :: "job_attempt \<times> job_attempt list \<times> bool"
  obtain a st' stop where x: "x = (a, st', stop)" by (cases x)
  have "hoare (\<lambda>w. attempted (sc_zones S) d t st (a, st') \<and> sched S clk L J (Suc n) k None st' w \<and> (stop \<longrightarrow> \<not> L))
      (if stop then pure_c (Inr (completed @ [a])) else f a st') R (failed S clk L None)"
    using assms(5,6) [of a st'] by (cases stop) (auto simp: hoare_def pure_c_def)
  then show "hoare ((\<lambda>(attempt, st', stop) w. attempted (sc_zones S) d t st (attempt, st') \<and>
        sched S clk L J (Suc n) k None st' w \<and> (stop \<longrightarrow> \<not> L)) x)
      (case x of (a, st', stop) \<Rightarrow> if stop then pure_c (Inr (completed @ [a])) else f a st') R (failed S clk L None)"
    unfolding x prod.case .
qed

lemma ran_skip:
  assumes "ran S clk L J n0 (Suc n) ds st completed completed' w" and "m \<le> n" and "n0 < m" and "L \<Longrightarrow> \<forall>n' \<ge> n0. clk n0 \<le> clk n'"
    and "L \<Longrightarrow> due_now (sc_zones S) d (clk n0) st" and "L \<Longrightarrow> \<not> due_now (sc_zones S) d (clk n) st"
  shows "ran S clk L J n0 m (d # ds) st completed completed' w"
proof -
  have "fulfilled (sc_zones S) clk n0 new w d" if L for new
  proof -
    have "clk n0 \<le> clk n" using assms(2,3) assms(4) [OF that] by simp
    then have "zn_local_date (sc_zones S) (jd_timezone d) (clk n) \<noteq> zn_local_date (sc_zones S) (jd_timezone d) (clk n0)"
      using due_later [of "sc_zones S" d "clk n0" st "clk n" st] assms(5,6) [OF that] by blast
    moreover have "n < sw_ticks w" using assms(1) by (auto simp: ran_def sched_def)
    ultimately show ?thesis using assms(2,3) by (auto simp: fulfilled_def intro!: exI [of _ n])
  qed
  with assms(1,2) show ?thesis unfolding ran_def by (fastforce intro: sched_weaken)
qed

lemma sort_attempts_again: "sort_attempts (sort_attempts xs @ ys) = sort_attempts (xs @ ys)"
proof -
  have key: "(\<lambda>x. attempt_order k = attempt_order x) = (\<lambda>x. attempt_order x = attempt_order k)" for k by auto
  show ?thesis
    unfolding sort_attempts_def
    by (rule properties_for_sort_key [symmetric]) (simp_all add: key sort_key_stable)
qed

lemma ran_attempted:
  assumes "ran S clk L J n0 (Suc n) ds st' (completed @ [a]) completed' w" and "attempted (sc_zones S) d t st (a, st')" and "m \<le> n"
  shows "ran S clk L J n0 m (d # ds) st completed completed' w"
proof -
  have st': "st' = sort_attempts (st @ [a])" and ad: "ja_definition a = d" using assms(2) by (simp_all add: attempted_def)
  obtain st'' where st'': "sched S clk L J (Suc n) 0 None st'' w" and run: "L \<longrightarrow> (\<exists>new. completed' = (completed @ [a]) @ new \<and>
      st'' = sort_attempts (st' @ new) \<and> idle st'' \<and> (\<forall>d \<in> set ds. fulfilled (sc_zones S) clk n0 new w d))"
    using assms(1) by (auto simp: ran_def)
  have "\<exists>new. completed' = completed @ new \<and> st'' = sort_attempts (st @ new) \<and> idle st'' \<and>
      (\<forall>d \<in> set (d # ds). fulfilled (sc_zones S) clk n0 new w d)" if L
  proof -
    from run that obtain new where new: "completed' = (completed @ [a]) @ new" "st'' = sort_attempts (st' @ new)" "idle st''"
      "\<forall>d \<in> set ds. fulfilled (sc_zones S) clk n0 new w d" by blast
    have "st'' = sort_attempts (st @ (a # new))" unfolding new(2) st' sort_attempts_again by simp
    with new(1,3,4) ad show ?thesis by (intro exI [of _ "a # new"]) (auto simp: fulfilled_def)
  qed
  moreover have "sched S clk L J m 0 None st'' w" using st'' assms(3) by (auto intro: sched_weaken)
  ultimately show ?thesis unfolding ran_def by blast
qed

lemma due_steps:
  assumes "L \<Longrightarrow> undisturbed S control" and "L \<Longrightarrow> \<forall>n' \<ge> n0. clk n0 \<le> clk n'"
    and "L \<Longrightarrow> idle st" and "L \<Longrightarrow> sort_attempts st = st" and "L \<Longrightarrow> queued S clk J n0 ds st" and "n0 < m"
  shows "hoare (sched S clk L J m (length ds) None st) (run_due S control ds st completed)
    (ran S clk L J n0 m ds st completed) (failed S clk L None)"
  using assms(3-)
proof (induction ds arbitrary: st completed m)
  case Nil
  then have "ran S clk L J n0 m [] st completed completed w" if "sched S clk L J m 0 None st w" for w
    using that by (auto simp: ran_def)
  then show ?case by (auto intro: hoare_pure)
next
  case (Cons d ds)
  let ?R = "ran S clk L J n0 m (d # ds) st completed" and ?E = "failed S clk L None"
  let ?P = "\<lambda>m k st. sched S clk L J m k None st"
  have head: "d \<in> set J" "validate_definition (sc_zones S) d = Inr d" "due_now (sc_zones S) d (clk n0) st" "queued S clk J n0 ds st" if L
    using Cons.prems(3) [OF that] by (simp_all add: queued_def)
  have skip: "hoare (?P (Suc n) (length (d # ds)) st) (run_due S control ds st completed) ?R ?E"
    if n: "m \<le> n" and ended: "L \<Longrightarrow> \<not> due_now (sc_zones S) d (clk n) st" for n
  proof (rule hoare_conseq)
    show "hoare (?P (Suc n) (length ds) st) (run_due S control ds st completed) (ran S clk L J n0 (Suc n) ds st completed) ?E"
      using Cons.IH [OF Cons.prems(1,2) head(4), of "Suc n" completed] Cons.prems(4) n by simp
  qed (auto intro: sched_weaken ran_skip [OF _ n Cons.prems(4) assms(2) head(3) ended])
  have tail: "hoare (?P (Suc n) (length ds) st') (run_due S control ds st' (completed @ [a])) ?R ?E"
    if a: "attempted (sc_zones S) d t st (a, st')" and n: "m \<le> n" for n t a st'
  proof (rule hoare_conseq)
    have "idle st'" if L using Cons.prems(1) [OF that] a by (auto simp: attempted_def idle_def insert_started)
    moreover have "sort_attempts st' = st'" using a sort_attempts_again [of _ "[]"] by (simp add: attempted_def)
    moreover have "queued S clk J n0 ds st'" if L using queued_attempted [OF Cons.prems(3) a] that by blast
    ultimately show "hoare (?P (Suc n) (length ds) st') (run_due S control ds st' (completed @ [a]))
        (ran S clk L J n0 (Suc n) ds st' (completed @ [a])) ?E"
      using Cons.IH [of st' "Suc n" "completed @ [a]"] Cons.prems(4) n by simp
  qed (auto intro: ran_attempted [OF _ a n])
  have stopped: "?R (completed @ [a]) w"
    if "m \<le> n" "\<not> L" "?P (Suc n) (length ds) st' w" for n a st' w
    using that unfolding ran_def by (intro exI [of _ st']) (auto intro: sched_weaken)
  have body: "hoare (?P (Suc n) (length (d # ds)) st) (if \<not> due_now (sc_zones S) d t st then run_due S control ds st completed
       else bind_c (claim_registered_job (jd_job_id d)) (\<lambda>claimed.
         if \<not> claimed then run_due S control ds st completed
         else bind_c (run_claimed S control d t st) (\<lambda>(attempt, st, stop).
           if stop then pure_c (Inr (completed @ [attempt])) else run_due S control ds st (completed @ [attempt])))) ?R ?E"
    if n: "m \<le> n" and time: "timed L clk n t st" for n t
  proof (cases "due_now (sc_zones S) d t st")
    case True
    have "hoare (sched S clk L J (Suc n) (length (d # ds)) (Some (jd_job_id d)) st) (bind_c (run_claimed S control d t st)
        (\<lambda>(attempt, st, stop). if stop then pure_c (Inr (completed @ [attempt])) else run_due S control ds st (completed @ [attempt]))) ?R ?E"
      using claimed_then [OF assms(1) head(2) True time,
          where J = J and k = "length ds" and f = "\<lambda>a st'. run_due S control ds st' (completed @ [a])" and R = ?R and completed = completed]
        tail [OF _ n] stopped [OF n] by simp
    then have "hoare (?P (Suc n) (length (d # ds)) st) (bind_c (claim_registered_job (jd_job_id d)) (\<lambda>claimed.
         if \<not> claimed then run_due S control ds st completed
         else bind_c (run_claimed S control d t st) (\<lambda>(attempt, st, stop).
           if stop then pure_c (Inr (completed @ [attempt])) else run_due S control ds st (completed @ [attempt])))) ?R ?E"
      using head(1) skip [OF n] by (intro claim_then) auto
    with True show ?thesis by simp
  next
    case False
    then have "\<not> due_now (sc_zones S) d (clk n) st" if L using time that by (simp add: timed_def)
    with skip [OF n] False show ?thesis by simp
  qed
  show ?case
    unfolding run_due_Cons
  proof (rule hoare_bind [OF raise_step [OF assms(1)]], assumption, rule hoare_bind [OF now_step], rule hoare_ex)
    fix t n
    show "hoare (\<lambda>w. m \<le> n \<and> timed L clk n t st \<and> ?P (Suc n) (length (d # ds)) st w)
        (if \<not> due_now (sc_zones S) d t st then run_due S control ds st completed
         else bind_c (claim_registered_job (jd_job_id d)) (\<lambda>claimed.
           if \<not> claimed then run_due S control ds st completed
           else bind_c (run_claimed S control d t st) (\<lambda>(attempt, st, stop).
             if stop then pure_c (Inr (completed @ [attempt])) else run_due S control ds st (completed @ [attempt])))) ?R ?E"
      using body [of n t] by (intro hoare_pure_pre)
  qed
qed

section \<open>The tick\<close>

lemma notify_all_step:
  assumes "L \<Longrightarrow> undisturbed S control"
  shows "hoare (sched S clk L J m k active st) (notify_all S as) (\<lambda>u. sched S clk L J m k active st) (failed S clk L active)"
  by (induction as) (auto intro: hoare_pure hoare_bind [OF notify_step [OF assms]])

lemma retry_step:
  assumes "L \<Longrightarrow> undisturbed S control"
  shows "hoare (sched S clk L J m k active st) (retry_notifications S) (\<lambda>u. sched S clk L J m k active st) (failed S clk L active)"
  unfolding retry_notifications_def by (rule hoare_get, rule hoare_conseq [OF notify_all_step [OF assms]]) simp_all

lemma tick_observer_step:
  assumes "L \<Longrightarrow> undisturbed S control"
  shows "hoare (sched S clk L J m k active st) (run_tick_observer S) (\<lambda>u. sched S clk L J m k active st) (failed S clk L active)"
proof (rule hoareI)
  fix w assume pre: "sched S clk L J m k active st w"
  then have after: "sched S clk L J m k active st (snd (run_tick_observer S w))"
    by (rule sched_frame) (simp_all add: run_tick_observer_def split: option.split prod.split sum.split)
  have "\<not> L" if "run_tick_observer S w = (Inl e, w')" for e w'
  proof
    assume L
    then have "sc_tick_observer S = Some observer \<Longrightarrow> \<not> raises_base (observer (sw_observed w))" for observer
      using assms by (simp add: undisturbed_def)
    with that show False
      by (auto simp: run_tick_observer_def raises_base_def split: option.splits prod.splits sum.splits if_splits)
  qed
  with after show "case run_tick_observer S w of (Inl e, w') \<Rightarrow> failed S clk L active e w'
      | (Inr u, w') \<Rightarrow> sched S clk L J m k active st w'"
    by (cases "run_tick_observer S w") (auto intro: sched_failed split: sum.split)
qed

definition job_registry_ok :: "zones \<Rightarrow> job_definition list \<Rightarrow> bool" where
  "job_registry_ok Z jobs \<longleftrightarrow> jobs \<noteq> [] \<and> distinct (map jd_job_id jobs) \<and> sorted (map jd_job_id jobs) \<and>
     (\<forall>d \<in> set jobs. validate_definition Z d = Inr d)"

lemma status_step:
  assumes "L \<Longrightarrow> job_registry_ok (sc_zones S) J" and "L \<Longrightarrow> jobs = J"
  shows "hoare (sched S clk L J m k active st) (status_of S now st jobs)
    (\<lambda>status w. sched S clk L J m k active st w \<and>
      (L \<longrightarrow> map js_definition (filter js_due (ss_jobs status)) = filter (\<lambda>d. due_now (sc_zones S) d now st) J)) (failed S clk L active)"
proof (rule hoareI)
  fix w assume pre: "sched S clk L J m k active st w"
  have "\<exists>status. status_of S now st jobs w = (Inr status, w) \<and>
      map js_definition (filter js_due (ss_jobs status)) = filter (\<lambda>d. due_now (sc_zones S) d now st) J" if L
  proof -
    have "J \<noteq> []" "sorted (map jd_job_id J)" using assms(1) [OF that] by (auto simp: job_registry_ok_def)
    from status_at_Inr [OF this] obtain status where status:
      "status_at (sc_zones S) (sw_active_job w) (sw_observer_issue w) (sw_tick_issue w) now st J = Inr status"
      "ss_jobs status = map (\<lambda>d. job_status_at (sc_zones S) (sw_active_job w) d now st) J" by blast
    have "js_definition (job_status_at (sc_zones S) (sw_active_job w) d now st) = d" for d
      by (simp add: job_status_at_def job_status_from_def Let_def split: prod.split)
    then have "map js_definition (filter js_due (ss_jobs status)) = filter (\<lambda>d. due_now (sc_zones S) d now st) J"
      unfolding status(2) by (induction J) (simp_all add: js_due_iff)
    with status(1) show ?thesis using assms(2) [OF that] by (simp add: status_of_def)
  qed
  moreover have "snd (status_of S now st jobs w) = w" by (simp add: status_of_def)
  ultimately show "case status_of S now st jobs w of (Inl e, w') \<Rightarrow> failed S clk L active e w'
      | (Inr status, w') \<Rightarrow> sched S clk L J m k active st w' \<and>
        (L \<longrightarrow> map js_definition (filter js_due (ss_jobs status)) = filter (\<lambda>d. due_now (sc_zones S) d now st) J)"
    using pre by (cases "status_of S now st jobs w"; cases L) (auto intro: sched_failed split: sum.split)
qed

text \<open>
  What a tick does from a world with the invariant: it leaves one with the invariant, also when it
  raises. Undisturbed, it returns, leaves no attempt running, and every job that was due then has
  an outcome unless its day ended during the tick.
\<close>

definition ticked ::
  "'o scheduler \<Rightarrow> (nat \<Rightarrow> utc) \<Rightarrow> bool \<Rightarrow> job_definition list \<Rightarrow> nat \<Rightarrow> job_attempt list \<Rightarrow> job_attempt list \<Rightarrow> 'o scheduler_world \<Rightarrow> bool" where
  "ticked S clk L J m st completed w \<longleftrightarrow>
     (\<exists>st'. sched S clk L J m 0 None st' w \<and>
       (L \<longrightarrow> (\<exists>n0 new. m \<le> n0 \<and> n0 < sw_ticks w \<and> idle st' \<and> set new \<subseteq> set completed \<and>
         st' = sort_attempts (map (recovered (sc_zones S) (clk n0)) st @ new) \<and>
         (\<forall>d \<in> set J. due_now (sc_zones S) d (clk n0) (map (recovered (sc_zones S) (clk n0)) st) \<longrightarrow>
           fulfilled (sc_zones S) clk n0 new w d))))"

lemma run_tick_jobs:
  assumes "L \<Longrightarrow> undisturbed S control" and "L \<Longrightarrow> job_registry_ok (sc_zones S) J"
    and "m \<le> n0" and "L \<longrightarrow> idle st0 \<and> st0 = map (recovered (sc_zones S) (clk n0)) st \<and> (\<forall>n' \<ge> n0. clk n0 \<le> clk n')"
    and "L \<longrightarrow> map js_definition (filter js_due (ss_jobs status)) = filter (\<lambda>d. due_now (sc_zones S) d (clk n0) st0) J"
  shows "hoare (sched S clk L J (Suc n0) (length J) None st0)
    (run_due S control (map js_definition (filter js_due (ss_jobs status))) st0 completed) (ticked S clk L J m st) (failed S clk L None)"
proof (rule hoare_schedule_ok)
  assume ok: "schedule_ok st0"
  let ?ds = "map js_definition (filter js_due (ss_jobs status))"
  have queue: "queued S clk J n0 ?ds st0" if L
    using assms(2) [OF that] assms(5) that by (auto simp: queued_def job_registry_ok_def distinct_map_filter)
  have room: "length ?ds \<le> length J" if L using assms(5) that by simp
  show "hoare (sched S clk L J (Suc n0) (length J) None st0) (run_due S control ?ds st0 completed) (ticked S clk L J m st) (failed S clk L None)"
  proof (rule hoare_conseq)
    show "hoare (sched S clk L J (Suc n0) (length ?ds) None st0) (run_due S control ?ds st0 completed)
        (ran S clk L J n0 (Suc n0) ?ds st0 completed) (failed S clk L None)"
      by (rule due_steps [OF assms(1) _ _ _ queue]) (use assms(4) sorted_schedule [OF ok] in blast)+
    show "sched S clk L J (Suc n0) (length J) None st0 w \<Longrightarrow> sched S clk L J (Suc n0) (length ?ds) None st0 w" for w
      using room by (auto simp: sched_def fresh_ids_def intro: inj_on_subset)
    fix completed' w assume "ran S clk L J n0 (Suc n0) ?ds st0 completed completed' w"
    then obtain st' where st': "sched S clk L J (Suc n0) 0 None st' w" and run: "L \<longrightarrow> (\<exists>new. completed' = completed @ new \<and>
        st' = sort_attempts (st0 @ new) \<and> idle st' \<and> (\<forall>d \<in> set ?ds. fulfilled (sc_zones S) clk n0 new w d))" by (auto simp: ran_def)
    have "n0 < sw_ticks w" using st' by (simp add: sched_def)
    moreover have "\<forall>d \<in> set J. due_now (sc_zones S) d (clk n0) st0 \<longrightarrow> fulfilled (sc_zones S) clk n0 new w d"
      if L "\<forall>d \<in> set ?ds. fulfilled (sc_zones S) clk n0 new w d" for new
      using that assms(5) by auto
    ultimately have "L \<longrightarrow> (\<exists>n0 new. m \<le> n0 \<and> n0 < sw_ticks w \<and> idle st' \<and> set new \<subseteq> set completed' \<and>
         st' = sort_attempts (map (recovered (sc_zones S) (clk n0)) st @ new) \<and>
         (\<forall>d \<in> set J. due_now (sc_zones S) d (clk n0) (map (recovered (sc_zones S) (clk n0)) st) \<longrightarrow>
           fulfilled (sc_zones S) clk n0 new w d))"
      using run assms(3,4) by fastforce
    moreover have "sched S clk L J m 0 None st' w" using st' assms(3) by (auto intro: sched_weaken)
    ultimately show "ticked S clk L J m st completed' w" unfolding ticked_def by blast
  qed simp_all
qed

lemma tick_step:
  assumes "L \<Longrightarrow> undisturbed S control" and "L \<Longrightarrow> job_registry_ok (sc_zones S) J" and "L \<Longrightarrow> only_latest_run st"
  shows "hoare (sched S clk L J m (length J) None st) (tick S control) (ticked S clk L J m st) (failed S clk L None)"
proof -
  let ?P = "\<lambda>m st. sched S clk L J m (length J) None st" and ?E = "failed S clk L None"
  have load: "hoare (?P m st) (load_attempts S) (\<lambda>st' w. st' = st \<and> ?P m st w) ?E" for m
    by (auto simp: hoare_def load_attempts_def sched_def)
  have recovered: "hoare (?P (Suc n0) st) (bind_c (recover_interrupted S t st) (\<lambda>(st, completed).
      bind_c (status_of S t st jobs) (\<lambda>status.
        run_due S control (map js_definition (filter js_due (ss_jobs status))) st completed))) (ticked S clk L J m st) ?E"
    if n0: "m \<le> n0" and time: "timed L clk n0 t st" and jobs: "L \<Longrightarrow> jobs = J" for n0 t jobs
    unfolding recover_interrupted_def
  proof (rule hoare_bind [OF recover_steps [OF assms(1) latest_recoverable [OF assms(3)]]], assumption+)
    show "\<forall>a \<in> set st. ja_started_at a \<le> t" if L using time that unfolding timed_def by blast
    fix x :: "job_attempt list \<times> job_attempt list"
    obtain st0 completed where x: "x = (st0, completed)" by force
    let ?Q = "L \<longrightarrow> idle st0 \<and> st0 = map (recovered (sc_zones S) t) st \<and> (\<exists>new. completed = [] @ new \<and> set new \<subseteq> set st0)"
    have "hoare (?P (Suc n0) st0) (bind_c (status_of S t st0 jobs) (\<lambda>status.
        run_due S control (map js_definition (filter js_due (ss_jobs status))) st0 completed)) (ticked S clk L J m st) ?E" if q: ?Q
    proof (rule hoare_bind [OF status_step [OF assms(2) jobs]], assumption+)
      fix status
      let ?due = "L \<longrightarrow> map js_definition (filter js_due (ss_jobs status)) = filter (\<lambda>d. due_now (sc_zones S) d t st0) J"
      have "hoare (?P (Suc n0) st0) (run_due S control (map js_definition (filter js_due (ss_jobs status))) st0 completed)
          (ticked S clk L J m st) ?E" if ?due
        by (rule run_tick_jobs [OF assms(1,2) n0]) (use q that time in \<open>auto simp: timed_def\<close>)
      then show "hoare (\<lambda>w. ?P (Suc n0) st0 w \<and> ?due)
          (run_due S control (map js_definition (filter js_due (ss_jobs status))) st0 completed) (ticked S clk L J m st) ?E"
        by (rule hoare_assume)
    qed
    then show "hoare (\<lambda>w. ?P (Suc n0) (fst x) w \<and> (L \<longrightarrow> idle (fst x) \<and> fst x = map (recovered (sc_zones S) t) st \<and>
          (\<exists>new. snd x = [] @ new \<and> set new \<subseteq> set (fst x))))
        (case x of (st, completed) \<Rightarrow> bind_c (status_of S t st jobs) (\<lambda>status.
          run_due S control (map js_definition (filter js_due (ss_jobs status))) st completed)) (ticked S clk L J m st) ?E"
      unfolding x prod.case fst_conv snd_conv by (rule hoare_assume)
  qed
  show ?thesis
    unfolding tick_def
  proof (rule hoare_bind [OF raise_step [OF assms(1)]], assumption, rule hoare_bind [OF retry_step [OF assms(1)]], assumption,
      rule hoare_bind [OF tick_observer_step [OF assms(1)]], assumption, rule hoare_bind [OF now_step], rule hoare_ex, rule hoare_get)
    fix t n0 jobs
    let ?rest = "bind_c (load_attempts S) (\<lambda>st. bind_c (recover_interrupted S t st) (\<lambda>(st, completed).
        bind_c (status_of S t st jobs) (\<lambda>status. run_due S control (map js_definition (filter js_due (ss_jobs status))) st completed)))"
    show "hoare (\<lambda>w. (m \<le> n0 \<and> timed L clk n0 t st \<and> ?P (Suc n0) st w) \<and> sw_jobs w = jobs) ?rest (ticked S clk L J m st) ?E"
    proof (rule hoareI)
      fix w assume pre: "(m \<le> n0 \<and> timed L clk n0 t st \<and> ?P (Suc n0) st w) \<and> sw_jobs w = jobs"
      then have now: "m \<le> n0" "timed L clk n0 t st" "L \<Longrightarrow> jobs = J" and P: "?P (Suc n0) st w" by (auto simp: sched_def)
      have "hoare (?P (Suc n0) st) ?rest (ticked S clk L J m st) ?E"
        by (rule hoare_bind [OF load], rule hoare_eq, rule recovered [OF now])
      from hoareE [OF this P] show "case ?rest w of (Inl e, w') \<Rightarrow> ?E e w' | (Inr x, w') \<Rightarrow> ticked S clk L J m st x w'" .
    qed
  qed
qed

end
