(* ===== verification/SchedulerGuarantees.thy ===== *)
theory SchedulerGuarantees
  imports SchedulerTicks SampleCodec
begin

text \<open>
  What the scheduler guarantees in every world it can reach: the days of a job, what a tick does for
  the jobs that are due, and what a breach of the memory budget does to the polling loop.
\<close>

section \<open>Reachable worlds\<close>

text \<open>
  A scheduler starts on an empty history; its ticks return, raise or are cut short by an exception
  no handler catches; the registry is replaced; the process is started again on the same files. Of
  the clock nothing is assumed: it may repeat itself, step back, or return a naive time.
\<close>

inductive scheduled_world :: "'o scheduler \<Rightarrow> 'o scheduler_world \<Rightarrow> bool" for S where
  start: "new_scheduler S jobs files observed = Inr w \<Longrightarrow> load_schedule (sc_zones S) files = Inr [] \<Longrightarrow> scheduled_world S w"
| ticks: "scheduled_world S w \<Longrightarrow> scheduled_world S (snd (tick S control w))"
| reconcile: "scheduled_world S w \<Longrightarrow> scheduled_world S (snd (reconcile_jobs jobs w))"
| restart: "scheduled_world S w \<Longrightarrow> sw_files w' = sw_files w \<Longrightarrow> sw_active_job w' = None \<Longrightarrow> scheduled_world S w'"

definition keeps_history :: "'o scheduler \<Rightarrow> job_attempt list \<Rightarrow> 'o scheduler_world \<Rightarrow> bool" where
  "keeps_history S st w \<longleftrightarrow> load_schedule (sc_zones S) (sw_files w) = Inr st \<and> fold_safe (sw_files w) \<and> attempts_history_ok st \<and>
     sw_active_job w = None"

lemma sched_history: "sched S clk False J 0 k None st w \<longleftrightarrow> keeps_history S st w"
  by (simp add: sched_def keeps_history_def)

lemma tick_keeps_history:
  assumes "keeps_history S st w"
  shows "\<exists>st'. keeps_history S st' (snd (tick S control w))"
proof -
  have "sched S (\<lambda>n. 0) False [] 0 (length ([] :: job_definition list)) None st w" using assms by (simp only: sched_history)
  from hoareE [OF tick_step this, of control]
  have "case tick S control w of (Inl e, w') \<Rightarrow> failed S (\<lambda>n. 0) False None e w'
      | (Inr x, w') \<Rightarrow> ticked S (\<lambda>n. 0) False [] 0 st x w'" by simp
  then show ?thesis
    by (cases "tick S control w") (auto simp: failed_def ticked_def sched_history split: sum.splits)
qed

lemma reachable_history:
  assumes "scheduled_world S w"
  shows "\<exists>st. keeps_history S st w"
  using assms
proof (induction rule: scheduled_world.induct)
  case (start jobs files observed w)
  then have "sw_files w = files" "sw_active_job w = None"
    by (auto simp: new_scheduler_def bind_r_eq_Inr split: if_splits)
  with start.hyps(2) loaded_nothing [OF start.hyps(2)] show ?case by (auto simp: keeps_history_def history_ok_Nil)
next
  case (ticks w control)
  then show ?case using tick_keeps_history by blast
next
  case (reconcile w jobs)
  have "snd (reconcile_jobs jobs w) = w \<or> (\<exists>jobs'. snd (reconcile_jobs jobs w) = w\<lparr>sw_jobs := jobs'\<rparr>)"
    by (auto simp: reconcile_jobs_def bind_c_def pure_c_def set_w_def split: sum.split)
  with reconcile.IH show ?case by (auto simp: keeps_history_def)
next
  case (restart w w')
  then show ?case by (auto simp: keeps_history_def)
qed

text \<open>
  Property C3. In every reachable world, whatever the clock reads, the history loads, and the
  attempts of a job on a day are numbered from 1 without gaps, at most as many as its definition
  allowed when each was started, every one after the first a retry of a retryable failure, no
  earlier than the exponential backoff after it.
\<close>

theorem daily_attempts:
  assumes "scheduled_world S w"
  shows "\<exists>st. load_schedule (sc_zones S) (sw_files w) = Inr st \<and> (\<forall>job_id local_date.
    let as = attempts_for st job_id local_date in
      map ja_attempt_number as = map (\<lambda>i. int i + 1) [0..<length as] \<and>
      (\<forall>a \<in> set as. ja_attempt_number a \<le> jd_max_attempts_per_day (ja_definition a)) \<and> successively retried as)"
  using reachable_history [OF assms] by (auto simp: keeps_history_def attempts_history_ok_def day_ok_def Let_def)


section \<open>What a tick keeps\<close>

text \<open>A predicate on worlds that every effect of a tick keeps is kept by the tick.\<close>

locale tick_frame =
  fixes S :: "'o scheduler" and control :: control and K :: "'o scheduler_world \<Rightarrow> bool"
  assumes files: "K w \<Longrightarrow> K (w\<lparr>sw_files := files\<rparr>)"
    and clock: "K w \<Longrightarrow> K (w\<lparr>sw_ticks := Suc (sw_ticks w)\<rparr>)"
    and ids: "K w \<Longrightarrow> K (w\<lparr>sw_ids := Suc (sw_ids w)\<rparr>)"
    and polls: "K w \<Longrightarrow> K (w\<lparr>sw_polls := Suc (sw_polls w)\<rparr>)"
    and active: "K w \<Longrightarrow> K (w\<lparr>sw_active_job := job\<rparr>)"
    and raised: "K w \<Longrightarrow> K (w\<lparr>sw_observed := observed\<rparr>)"
    and observers: "K w \<Longrightarrow> K (w\<lparr>sw_observed := observed, sw_pending := pending, sw_observer_issue := b\<rparr>)"
    and tick_observers: "K w \<Longrightarrow> K (w\<lparr>sw_observed := observed, sw_tick_issue := b\<rparr>)"
    and calls: "K w \<Longrightarrow> K (snd (call_job S control i w))"
begin

definition keeps :: "('a, 'o) scheduled \<Rightarrow> bool" where
  "keeps c \<longleftrightarrow> (\<forall>w. K w \<longrightarrow> K (snd (c w)))"

lemma keeps_bind: "keeps c \<Longrightarrow> (\<And>x. keeps (f x)) \<Longrightarrow> keeps (bind_c c f)"
  unfolding keeps_def bind_c_def by (auto split: prod.split sum.split)

lemma keeps_if: "keeps c \<Longrightarrow> keeps f \<Longrightarrow> keeps (if b then c else f)"
  by simp

lemma keeps_reads: "keeps (pure_c r)" "keeps (get_w g)" "keeps (load_attempts S)" "keeps (status_of S now st jobs)"
  by (simp_all add: keeps_def pure_c_def get_w_def load_attempts_def status_of_def)

lemma keeps_steps: "keeps (scheduler_now S)" "keeps (write_schedule S st a)" "keeps (cancelled control)" "keeps (take_id S)"
    "keeps (claim_registered_job job_id)" "keeps (notify S a)" "keeps (run_tick_observer S)" "keeps (call_job S control i)"
  by (auto simp: keeps_def scheduler_now_def write_schedule_def cancelled_def take_id_def claim_registered_job_def notify_def Let_def
      run_tick_observer_def clock files polls ids active raised observers tick_observers calls
      split: option.split prod.split sum.split py_datetime.split)

lemma keeps_release: "keeps c \<Longrightarrow> keeps (finally_release job_id c)"
  unfolding keeps_def finally_release_def release_active_job_def by (auto simp: active split: prod.split)

lemmas keeps_intros = keeps_bind keeps_reads keeps_steps keeps_if keeps_release

lemma keeps_run_job: "keeps (run_job S control d now st)"
  unfolding run_job_def run_callback_def
  by (intro keeps_intros) (auto intro!: keeps_intros split: prod.split job_outcome.split)

lemma keeps_recover: "keeps (recover_attempts S now rest st completed)"
  by (induction rest arbitrary: st completed) (auto intro!: keeps_intros)

lemma keeps_run_due: "keeps (run_due S control ds st completed)"
  by (induction ds arbitrary: st completed)
    (auto simp: raise_if_cancelled_def intro!: keeps_intros keeps_run_job split: prod.split)

lemma keeps_notify_all: "keeps (notify_all S as)"
  by (induction as) (auto intro!: keeps_intros)

theorem keeps_tick: "K w \<Longrightarrow> tick S control w = (r, w') \<Longrightarrow> K w'"
proof -
  have "keeps (tick S control)"
    unfolding tick_def raise_if_cancelled_def retry_notifications_def recover_interrupted_def
    by (intro keeps_intros keeps_recover keeps_notify_all) (auto intro!: keeps_intros keeps_run_due split: prod.split)
  then show "K w \<Longrightarrow> tick S control w = (r, w') \<Longrightarrow> K w'" by (auto simp: keeps_def)
qed

end

text \<open>The registry stays valid.\<close>

definition valid_jobs :: "job_definition list \<Rightarrow> bool" where
  "valid_jobs jobs \<longleftrightarrow> jobs \<noteq> [] \<and> distinct (map jd_job_id jobs) \<and> sorted (map jd_job_id jobs)"

lemma validate_registry_valid: "validate_job_registry jobs = Inr jobs' \<Longrightarrow> valid_jobs jobs'"
proof -
  assume "validate_job_registry jobs = Inr jobs'"
  then have jobs: "jobs \<noteq> []" "distinct (map jd_job_id jobs)" "jobs' = sort_key jd_job_id jobs"
    by (auto simp: validate_job_registry_def split: if_splits)
  then have "mset (map jd_job_id jobs') = mset (map jd_job_id jobs)" by simp
  then have "distinct (map jd_job_id jobs')" using jobs(2) by (metis mset_eq_imp_distinct_iff)
  with jobs show ?thesis by (auto simp: valid_jobs_def dest: arg_cong [of _ _ length])
qed

interpretation registry_frame: tick_frame S control "\<lambda>w. valid_jobs (sw_jobs w)" for S control
  by unfold_locales
    (auto simp: call_job_def Let_def intro: validate_registry_valid split: prod.split option.split sum.split)

lemma registry_stays_valid: "scheduled_world S w \<Longrightarrow> valid_jobs (sw_jobs w) \<Longrightarrow> tick S control w = (r, w') \<Longrightarrow> valid_jobs (sw_jobs w')"
  by (rule registry_frame.keeps_tick)

text \<open>A breach in the first job a tick runs stays requested.\<close>

definition first_breach :: "'o scheduler \<Rightarrow> nat \<Rightarrow> bool" where
  "first_breach S n \<longleftrightarrow> (\<forall>i. \<exists>sample \<in> set (jr_samples (sc_run S n i)). breach (sc_memory_ceiling_bytes S) sample)"

lemma breach_requests:
  assumes "first_breach S (sw_runs w)"
  shows "sw_cancel (snd (call_job S (Some stop) i w))"
proof -
  let ?samples = "jr_samples (sc_run S (sw_runs w) i)"
  have "wd_breached (fst (watch (sc_memory_ceiling_bytes S) True ?samples))"
    using assms by (simp add: watch_breached first_breach_def)
  then have "snd (watch (sc_memory_ceiling_bytes S) True ?samples) = 1" by (simp add: watch_cancels)
  then show ?thesis by (cases "watch (sc_memory_ceiling_bytes S) True ?samples") (simp add: call_job_def Let_def)
qed

interpretation breach_frame: tick_frame S "Some stop"
  "\<lambda>w. first_breach S n \<longrightarrow> n \<le> sw_runs w \<and> (n < sw_runs w \<longrightarrow> sw_cancel w)" for S :: "'o scheduler" and stop n
proof unfold_locales
  fix w :: "'o scheduler_world" and i assume K: "first_breach S n \<longrightarrow> n \<le> sw_runs w \<and> (n < sw_runs w \<longrightarrow> sw_cancel w)"
  have runs: "sw_runs (snd (call_job S (Some stop) i w)) = sw_runs w + 1"
    by (simp add: call_job_def Let_def split: prod.split)
  have stays: "sw_cancel w \<Longrightarrow> sw_cancel (snd (call_job S (Some stop) i w))"
    by (simp add: call_job_def Let_def split: prod.split)
  show "first_breach S n \<longrightarrow> n \<le> sw_runs (snd (call_job S (Some stop) i w)) \<and>
      (n < sw_runs (snd (call_job S (Some stop) i w)) \<longrightarrow> sw_cancel (snd (call_job S (Some stop) i w)))"
    using K runs stays breach_requests [of S w stop i] by (cases "n = sw_runs w") auto
qed auto

text \<open>
  Property C6. A breach of the memory budget ends the polling of all jobs: when the first job a tick
  of the polling loop runs breaks the ceiling, the loop returns after that tick, although its stop
  event is never set, because the watchdog cancels the control the loop itself polls.
\<close>

theorem breach_ends_polling:
  assumes "0 < poll_seconds" and "\<forall>n. \<not> stop n" and "first_breach S (sw_runs w)"
    and "tick S (Some stop) (w\<lparr>sw_cancel := False, sw_polls := sw_polls w + 1\<rparr>) = (Inr completed, w')" and "sw_runs w < sw_runs w'"
  shows "run_forever S stop poll_seconds w = Some (Inr (), w'\<lparr>sw_polls := sw_polls w' + 1\<rparr>)"
proof -
  let ?w = "w\<lparr>sw_cancel := False\<rparr>"
  have "first_breach S (sw_runs w) \<longrightarrow> sw_runs w \<le> sw_runs w' \<and> (sw_runs w < sw_runs w' \<longrightarrow> sw_cancel w')"
    by (rule breach_frame.keeps_tick [OF _ assms(4)]) simp
  then have cancel: "sw_cancel w'" using assms(3,5) by blast
  have "poll_step S stop () ?w = (Inr (Some ()), w')"
    using assms(2,4) by (simp add: poll_step_def poll_tick_def cancelled_def bind_c_def pure_c_def)
  moreover have "poll_step S stop () w' = (Inr None, w'\<lparr>sw_polls := sw_polls w' + 1\<rparr>)"
    using cancel by (simp add: poll_step_def cancelled_def bind_c_def pure_c_def)
  ultimately have "run_loop (poll_step S stop) () ?w = Some (Inr (), w'\<lparr>sw_polls := sw_polls w' + 1\<rparr>)"
    by (simp add: run_loop_goes_on run_loop_stops)
  with assms(1) show ?thesis by (simp add: run_forever_def)
qed

section \<open>A sample\<close>

definition sample_zones :: zones where
  "sample_zones = \<lparr>zn_known = (\<lambda>z. True), zn_local_date = (\<lambda>z t. t div 86400000000),
     zn_utc = (\<lambda>z d m. d * 86400000000 + int m * 60000000), zn_duration_ms = (\<lambda>t. t div 1000)\<rparr>"

definition sample_job :: job_definition where
  "sample_job = \<lparr>jd_job_id = ''aapl'', jd_asset_id = None, jd_provider = ''p'', jd_domain = MarketDaily, jd_data_frequency = ''1d'',
     jd_timezone = ''UTC'', jd_run_at = 0, jd_enabled = True, jd_max_attempts_per_day = 3, jd_retry_backoff_seconds = 60,
     jd_freshness_threshold_seconds = 3600\<rparr>"

definition sample_execution :: job_execution where
  "sample_execution = \<lparr>je_job_id = ''aapl'', je_effective_known_at = 0, je_evidence_changed = False, je_source_ids = [''s''],
     je_created_count = 0, je_reused_count = 1, je_coverage_complete = True, je_analytical_inputs_changed = None\<rparr>"

definition sample_scheduler :: "unit scheduler" where
  "sample_scheduler = \<lparr>sc_zones = sample_zones, sc_iso_text = (\<lambda>t. []), sc_clock = (\<lambda>n. Aware (int n) 0), sc_attempt_id = word_of_nat,
     sc_run = (\<lambda>n i. \<lparr>jr_outcome = Executed sample_execution, jr_samples = [Some 2], jr_registry = None\<rparr>), sc_observer = None,
     sc_tick_observer = None, sc_error_handler = None, sc_memory_ceiling_bytes = Some 1024\<rparr>"

definition sample_schedule_world :: "unit scheduler_world" where
  "sample_schedule_world = \<lparr>sw_files = \<lparr>sf_legacy = None, sf_folded = False, sf_snapshot = [], sf_entries = []\<rparr>, sw_jobs = [sample_job], sw_active_job = None,
     sw_pending = [], sw_observer_issue = False, sw_tick_issue = False, sw_observed = (), sw_ticks = 0, sw_ids = 0, sw_runs = 0,
     sw_polls = 0, sw_cancel = False\<rparr>"


lemma sample_start: "scheduled_world sample_scheduler sample_schedule_world"
proof (rule scheduled_world.start)
  show "new_scheduler sample_scheduler [sample_job] (sw_files sample_schedule_world) () = Inr sample_schedule_world"
    by (simp add: new_scheduler_def validate_job_registry_def sample_schedule_world_def sample_scheduler_def)
  show "load_schedule (sc_zones sample_scheduler) (sw_files sample_schedule_world) = Inr []"
    by (simp add: load_schedule_def read_attempts_def dict_by_def dict_values_def sort_attempts_def validate_attempts_def sample_schedule_world_def)
qed


theorem daily_attempts_witness:
  "\<exists>st. load_schedule sample_zones (sw_files (snd (tick sample_scheduler None sample_schedule_world))) = Inr st \<and> (\<forall>job_id local_date.
    let as = attempts_for st job_id local_date in
      map ja_attempt_number as = map (\<lambda>i. int i + 1) [0..<length as] \<and>
      (\<forall>a \<in> set as. ja_attempt_number a \<le> jd_max_attempts_per_day (ja_definition a)) \<and> successively retried as)"
  using daily_attempts [OF scheduled_world.ticks [OF sample_start, of None]] by (simp add: sample_scheduler_def)

lemma validate_attempts_code [code]:
  "validate_attempts attempts =
     (if 100000 < int (length attempts) then Inl (ValueError ''attempts'')
      else if \<not> distinct (map ja_attempt_id attempts)
        then Inl (ValueError ''schedule state contains duplicate attempt identities'')
      else if \<not> sorted (map attempt_order attempts)
        then Inl (ValueError ''schedule attempts must use deterministic chronological ordering'')
      else Inr attempts)"
  by (simp add: validate_attempts_def MAX_ATTEMPTS_RETAINED_def)

lemma sample_tick:
  "(case tick sample_scheduler (Some (\<lambda>n. False)) (sample_schedule_world\<lparr>sw_cancel := False, sw_polls := 1\<rparr>) of
      (Inr completed, w') \<Rightarrow> map ja_status completed = [Failed] \<and> sw_runs w' = 1 | _ \<Rightarrow> False)"
  by code_simp

lemma sample_breach: "first_breach sample_scheduler 0"
  by (simp add: first_breach_def sample_scheduler_def breach_def)

theorem breach_ends_polling_witness:
  "\<exists>w'. run_forever sample_scheduler (\<lambda>n. False) 30 sample_schedule_world = Some (Inr (), w')"
proof -
  obtain completed w' where
    "tick sample_scheduler (Some (\<lambda>n. False)) (sample_schedule_world\<lparr>sw_cancel := False, sw_polls := sw_polls sample_schedule_world + 1\<rparr>) = (Inr completed, w')"
    and "sw_runs w' = 1"
    using sample_tick by (auto simp: sample_schedule_world_def split: prod.splits sum.splits)
  then show ?thesis
    using breach_ends_polling [of 30 "\<lambda>n. False" sample_scheduler sample_schedule_world completed w'] sample_breach
    by (auto simp: sample_schedule_world_def)
qed




text \<open>
  The history of the sample on its files: a legacy document with an attempt of the day before, a
  journal whose segments hold one record, and a write that is refused.
\<close>

definition sample_running :: job_attempt where
  "sample_running = \<lparr>ja_attempt_id = 7, ja_definition = sample_job, ja_local_date = 0, ja_scheduled_for = 0, ja_attempt_number = 1,
     ja_status = Running, ja_started_at = 1, ja_completed_at = None, ja_execution = None, ja_failure = None, ja_telemetry = None\<rparr>"

definition sample_succeeded :: job_attempt where
  "sample_succeeded = sample_running\<lparr>ja_status := Succeeded, ja_completed_at := Some 2, ja_execution := Some sample_execution\<rparr>"

definition sample_legacy :: job_attempt where
  "sample_legacy = sample_running\<lparr>ja_attempt_id := 6, ja_local_date := -1, ja_scheduled_for := -86400000000, ja_started_at := -5,
     ja_status := Succeeded, ja_completed_at := Some (-4), ja_execution := Some sample_execution\<rparr>"

definition sample_attempt_doc :: "job_attempt \<Rightarrow> nat" where
  "sample_attempt_doc a = (if ja_attempt_id a = 6 then 2 else if ja_status a = Running then 0 else 1)"

definition sample_attempt_parse :: "nat \<Rightarrow> job_attempt option" where
  "sample_attempt_parse n = Some (if n = 2 then sample_legacy else if n = 0 then sample_running else sample_succeeded)"

definition sample_history :: "nat schedule_store" where
  "sample_history = \<lparr>hs_zones = sample_zones,
     hs_journal = sample_journal\<lparr>jn_max_segment_bytes := 1, jn_reducer := Some (schedule_reducer sample_attempt_doc sample_attempt_parse (\<lambda>t. []))\<rparr>,
     hs_doc = sample_attempt_doc, hs_parse = sample_attempt_parse\<rparr>"

lemma sample_attempt_valid: "validate_attempt sample_zones True sample_running = Inr sample_running"
  "validate_attempt sample_zones True sample_succeeded = Inr sample_succeeded"
  "validate_attempt sample_zones True sample_legacy = Inr sample_legacy"
  by code_simp+

lemma sample_readable: "readable sample_history sample_running" "readable sample_history sample_succeeded" "readable sample_history sample_legacy"
  using sample_attempt_valid
  by (simp_all add: readable_def sample_history_def sample_attempt_doc_def sample_attempt_parse_def sample_running_def sample_succeeded_def sample_legacy_def)

lemma sample_store_ok: "store_ok sample_history (\<lambda>t. [])"
  by (simp add: store_ok_def sample_history_def sample_codec_ok)

lemma sample_loaded: "load_fresh sample_history (Some [sample_legacy], []) = (Inr [sample_legacy], (Some [sample_legacy], []))"
  by (rule load_on_disk [OF sample_store_ok], rule on_disk_Some [where es = "[]"])
    (simp_all add: sample_readable schedule_ok_def MAX_ATTEMPTS_RETAINED_def journal_ok_def)

definition sample_attempts :: "(utc \<times> job_attempt) list" where
  "sample_attempts = [(0, sample_running), (0, sample_succeeded), (0, sample_running)]"

lemma sample_records:
  "fst (fold (attempt_record sample_zones (\<lambda>t. [])) sample_attempts
    ([sample_legacy], \<lparr>sf_legacy = Some [sample_legacy], sf_folded = False, sf_snapshot = [], sf_entries = []\<rparr>)) = [sample_legacy, sample_succeeded]"
  by code_simp

theorem schedule_survives_journal_witness:
  "\<exists>fs. load_fresh sample_history (Some [sample_legacy], fs) = (Inr [sample_legacy, sample_succeeded], (Some [sample_legacy], fs))"
proof -
  obtain st document fs where files: "fold (attempt_write sample_history) sample_attempts ([sample_legacy], (Some [sample_legacy], [])) = (st, (document, fs))"
    by (metis prod.exhaust_sel)
  obtain records rfiles where records: "fold (attempt_record sample_zones (\<lambda>t. [])) sample_attempts
      ([sample_legacy], \<lparr>sf_legacy = Some [sample_legacy], sf_folded = False, sf_snapshot = [], sf_entries = []\<rparr>) = (records, rfiles)" by force
  have zones: "hs_zones sample_history = sample_zones" by (simp add: sample_history_def)
  have "\<forall>(now, a) \<in> set sample_attempts. readable sample_history a" by (simp add: sample_attempts_def sample_readable)
  moreover have "\<forall>d. Some [sample_legacy] = Some d \<longrightarrow> (\<forall>a \<in> set d. readable sample_history a)" by (simp add: sample_readable)
  ultimately have kept: "load_fresh sample_history (document, fs) = (Inr st, (document, fs)) \<and> records = st \<and>
      load_schedule (hs_zones sample_history) rfiles = Inr st \<and> (Some [sample_legacy] \<noteq> None \<longrightarrow> document = Some [sample_legacy])"
    by (rule schedule_survives_journal [OF sample_store_ok _ _ sample_loaded files records [folded zones]])
  moreover have "records = [sample_legacy, sample_succeeded]" using sample_records records by simp
  moreover from kept have "document = Some [sample_legacy]" by simp
  ultimately show ?thesis by auto
qed

end
