(* ===== verification/AssetCatalog.thy ===== *)
theory AssetCatalog
  imports Contracts
begin

text \<open>
  The versioned asset catalogue (\<^verbatim>\<open>catalog/models.py\<close>, \<^verbatim>\<open>catalog/service.py\<close>): provider
  bindings, documented security unit revisions, assets and the document with their validators, the
  selection of the unit revision in force, and the indexed service with its look-ups.

  Parameters: \<open>casefold\<close> is \<^verbatim>\<open>str.casefold\<close>, \<open>digest\<close> the SHA-256 of the canonical JSON of the
  semantic fields of a unit revision, and \<open>document_digest\<close> that of a document. The literals
  \<^verbatim>\<open>basis\<close>, \<^verbatim>\<open>adjustment\<close> and \<^verbatim>\<open>reported_share_unit\<close> of a revision have one value each and are left out.
\<close>

section \<open>Patterns\<close>

definition slug_char :: "char \<Rightarrow> bool" where
  "slug_char c \<longleftrightarrow> lower_case c \<or> CHR ''0'' \<le> c \<and> c \<le> CHR ''9''"

fun slug_rest :: "bool \<Rightarrow> string \<Rightarrow> bool" where
  \<comment> \<open>\<^verbatim>\<open>[a-z0-9]*(?:[._-][a-z0-9]+)*\<close>; the flag tells whether a separator or the end may follow\<close>
  "slug_rest after [] = after"
| "slug_rest after (c # cs) =
     (if slug_char c then slug_rest True cs
      else after \<and> (c = CHR ''.'' \<or> c = CHR ''_'' \<or> c = CHR ''-'') \<and> slug_rest False cs)"

definition slug_ok :: "string \<Rightarrow> bool" where
  "slug_ok s = (case s of [] \<Rightarrow> False | c # cs \<Rightarrow> lower_case c \<and> slug_rest True cs)"

fun capability_rest :: "bool \<Rightarrow> bool \<Rightarrow> string \<Rightarrow> bool" where
  \<comment> \<open>whether a letter must follow (after a dot), and whether a dot was read\<close>
  "capability_rest fresh dotted [] = (\<not> fresh \<and> dotted)"
| "capability_rest fresh dotted (c # cs) =
     (if fresh then lower_case c \<and> capability_rest False dotted cs
      else if c = CHR ''.'' then capability_rest True True cs
      else (slug_char c \<or> c = CHR ''_'' \<or> c = CHR ''-'') \<and> capability_rest False dotted cs)"

definition capability_ok :: "string \<Rightarrow> bool" where
  "capability_ok = capability_rest True False"

definition sha256_ok :: "string \<Rightarrow> bool" where
  "sha256_ok s \<longleftrightarrow> length s = 64 \<and>
     list_all (\<lambda>c. CHR ''0'' \<le> c \<and> c \<le> CHR ''9'' \<or> CHR ''a'' \<le> c \<and> c \<le> CHR ''f'') s"

section \<open>Provider bindings\<close>

datatype crypto_profile = BITCOIN | ETHEREUM | ALTCOIN | STABLECOIN | WRAPPED

record provider_binding =
  pb_provider :: string
  pb_namespace :: string
  pb_identifier :: string
  pb_is_unique :: bool
  pb_capabilities :: "string list"

type_synonym binding_identity = "string \<times> string \<times> string"

definition binding_identity_of :: "provider_binding \<Rightarrow> binding_identity" where
  "binding_identity_of b = (pb_provider b, pb_namespace b, pb_identifier b)"

definition validate_capabilities :: "string list \<Rightarrow> string list result" where
  "validate_capabilities values =
     (if values = [] then Inl (ValueError ''capabilities must not be empty'')
      else if list_ex (\<lambda>v. \<not> capability_ok v) values
        then Inl (ValueError ''capabilities must use lower-case namespaced names'')
      else if \<not> distinct values then Inl (ValueError ''capabilities must not contain duplicates'')
      else if values \<noteq> sort values then Inl (ValueError ''capabilities must be sorted'')
      else Inr values)"

definition validate_binding :: "(string \<Rightarrow> string) \<Rightarrow> provider_binding \<Rightarrow> provider_binding result" where
  \<comment> \<open>the text fields as given\<close>
  "validate_binding casefold b =
     (let provider = casefold (py_strip (pb_provider b)); namespace = casefold (py_strip (pb_namespace b)) in
      if \<not> slug_ok provider \<or> \<not> slug_ok namespace
        then Inl (ValueError ''provider and namespace must be lower-case slugs'')
      else if pb_identifier b \<noteq> py_strip (pb_identifier b)
        then Inl (ValueError ''identifier must not contain surrounding whitespace'')
      else if pb_identifier b = [] then Inl (ValueError ''identifier'')
      else bind_r (validate_capabilities (pb_capabilities b)) (\<lambda>_.
        Inr (b\<lparr>pb_provider := provider, pb_namespace := namespace\<rparr>)))"

section \<open>Security unit revisions\<close>

record unit_revision =
  ub_factor :: decimal
  ub_valid_from :: date
  ub_valid_to :: "date option"
  ub_available_at :: utc
  ub_cik :: string
  ub_accession_number :: string
  ub_source_url :: string
  ub_source_sha256 :: string
  ub_revision :: string \<comment> \<open>empty where it was not given\<close>

definition security_unit_basis_revision_digest :: "(unit_revision \<Rightarrow> string) \<Rightarrow> unit_revision \<Rightarrow> string" where
  \<comment> \<open>of every field but the revision\<close>
  "security_unit_basis_revision_digest digest r = digest (r\<lparr>ub_revision := ''''\<rparr>)"

definition validate_unit_revision :: "(unit_revision \<Rightarrow> string) \<Rightarrow> unit_revision \<Rightarrow> unit_revision result" where
  "validate_unit_revision digest r =
     (if dec_value (ub_factor r) \<le> 0 then Inl (ValueError ''factor must be a finite positive Decimal'')
      else if \<not> sha256_ok (ub_source_sha256 r)
        then Inl (ValueError ''source_sha256 must be a lower-case hexadecimal SHA-256 digest'')
      else if (case ub_valid_to r of None \<Rightarrow> False | Some d \<Rightarrow> d \<le> ub_valid_from r)
        then Inl (ValueError ''valid_to must be after valid_from'')
      else (let revision = security_unit_basis_revision_digest digest r in
        if ub_revision r \<noteq> '''' \<and> ub_revision r \<noteq> revision
          then Inl (ValueError ''revision must match the canonical semantic digest'')
        else Inr (r\<lparr>ub_revision := revision\<rparr>)))"

definition covers_date :: "unit_revision \<Rightarrow> date \<Rightarrow> bool" where
  "covers_date r d \<longleftrightarrow> ub_valid_from r \<le> d \<and> (case ub_valid_to r of None \<Rightarrow> True | Some t \<Rightarrow> d < t)"

fun latest_by_start ::
  "unit_revision list \<Rightarrow> (date, unit_revision) dict \<Rightarrow> (date, unit_revision) dict result" where
  "latest_by_start [] latest = Inr latest"
| "latest_by_start (item # items) latest =
     (case dict_get latest (ub_valid_from item) of
        None \<Rightarrow> latest_by_start items (dict_set latest (ub_valid_from item) item)
      | Some current \<Rightarrow>
          if ub_available_at current < ub_available_at item
            then latest_by_start items (dict_set latest (ub_valid_from item) item)
          else if ub_available_at item = ub_available_at current \<and> ub_revision item \<noteq> ub_revision current
            then Inl (UnitBasisAmbiguityError ''equally available security unit revisions disagree semantically'')
          else latest_by_start items latest)"

definition select_security_unit_basis_revision ::
  "unit_revision list \<Rightarrow> utc \<Rightarrow> date \<Rightarrow> unit_revision option result" where
  "select_security_unit_basis_revision revisions known_at valuation_date =
     (let eligible = filter (\<lambda>r. ub_available_at r \<le> known_at) revisions in
      if eligible = [] then Inr None
      else bind_r (latest_by_start eligible []) (\<lambda>latest.
        (let candidates = sort_key (\<lambda>r. (ub_valid_from r, ub_revision r))
               (filter (\<lambda>r. covers_date r valuation_date) (dict_values latest)) in
         case candidates of
           [] \<Rightarrow> Inr None
         | r # rest \<Rightarrow>
             if rest \<noteq> [] then Inl (UnitBasisAmbiguityError
               ''security unit revision intervals overlap without a unique resolution'')
             else Inr (Some r))))"

section \<open>Assets\<close>

datatype unit_basis = ReportedCommonShare | DepositaryReceipt

record catalog_asset =
  ca_asset_id :: string
  ca_symbol :: string
  ca_name :: string
  ca_asset_class :: asset_class
  ca_quote_currency :: string
  ca_exchange :: "string option"
  ca_provider_symbols :: "(string, string) dict"
  ca_is_active :: bool
  ca_aliases :: "string list"
  ca_provider_bindings :: "provider_binding list"
  ca_crypto_profile :: "crypto_profile option"
  ca_unit_factor :: "decimal option"
  ca_unit_basis :: "unit_basis option"
  ca_unit_basis_version :: "string option"
  ca_unit_market_adjustment :: bool \<comment> \<open>\<^verbatim>\<open>"all"\<close> was given\<close>
  ca_unit_revisions :: "unit_revision list"

definition validate_aliases :: "(string \<Rightarrow> string) \<Rightarrow> string list \<Rightarrow> string list result" where
  "validate_aliases casefold values =
     (if values = [] then Inl (ValueError ''aliases must not be empty'')
      else if \<not> distinct (map casefold values) then Inl (ValueError ''aliases must be unique ignoring case'')
      else Inr values)"

definition validate_bindings :: "provider_binding list \<Rightarrow> provider_binding list result" where
  "validate_bindings values =
     (let identities = map binding_identity_of values in
      if values = [] then Inl (ValueError ''provider_bindings must not be empty'')
      else if \<not> distinct identities
        then Inl (ValueError ''provider_bindings must not contain duplicate identities'')
      else if identities \<noteq> sort identities
        then Inl (ValueError ''provider_bindings must be sorted by identity'')
      else Inr values)"

definition validate_crypto_profile :: "catalog_asset \<Rightarrow> catalog_asset result" where
  "validate_crypto_profile a =
     (let unit_contract = [ca_unit_factor a \<noteq> None, ca_unit_basis a \<noteq> None, ca_unit_basis_version a \<noteq> None,
                           ca_unit_market_adjustment a];
          ordered = map (\<lambda>r. (ub_valid_from r, ub_available_at r, ub_revision r)) (ca_unit_revisions a) in
      if ca_asset_class a = CRYPTO \<and> ca_crypto_profile a = None
        then Inl (ValueError ''crypto assets require an explicit crypto_profile'')
      else if ca_asset_class a \<noteq> CRYPTO \<and> ca_crypto_profile a \<noteq> None
        then Inl (ValueError ''crypto_profile is only valid for crypto assets'')
      else if list_ex (\<lambda>b. b) unit_contract \<and> \<not> list_all (\<lambda>b. b) unit_contract
        then Inl (ValueError ''security unit contract fields must be declared together'')
      else if ca_asset_class a \<noteq> EQUITY \<and> (list_ex (\<lambda>b. b) unit_contract \<or> ca_unit_revisions a \<noteq> [])
        then Inl (ValueError ''security unit contracts are only valid for equities'')
      else if ca_unit_revisions a \<noteq> [] \<and> list_ex (\<lambda>b. b) unit_contract
        then Inl (ValueError ''security unit revisions and static fields must not coexist'')
      else if \<not> distinct (map ub_revision (ca_unit_revisions a))
        then Inl (ValueError ''security unit revisions must be unique'')
      else if ordered \<noteq> sort ordered
        then Inl (ValueError ''security unit revisions must be sorted by validity and availability'')
      else Inr a)"

definition validate_asset ::
  "(string \<Rightarrow> string) \<Rightarrow> (unit_revision \<Rightarrow> string) \<Rightarrow> catalog_asset \<Rightarrow> catalog_asset result" where
  "validate_asset casefold digest a =
     bind_r (validate_aliases casefold (ca_aliases a)) (\<lambda>_.
     bind_r (traverse (validate_binding casefold) (ca_provider_bindings a)) (\<lambda>bindings.
     bind_r (validate_bindings bindings) (\<lambda>_.
     if (case ca_unit_factor a of None \<Rightarrow> False | Some f \<Rightarrow> dec_value f \<le> 0)
       then Inl (ValueError ''security_unit_factor must be a finite positive Decimal'')
     else bind_r (traverse (validate_unit_revision digest) (ca_unit_revisions a)) (\<lambda>revisions.
       validate_crypto_profile (a\<lparr>ca_provider_bindings := bindings, ca_unit_revisions := revisions\<rparr>)))))"

section \<open>The document\<close>

record catalog_document =
  cd_version :: int
  cd_assets :: "catalog_asset list"

definition binding_rows :: "catalog_asset list \<Rightarrow> (catalog_asset \<times> provider_binding) list" where
  "binding_rows assets = concat (map (\<lambda>a. map (Pair a) (ca_provider_bindings a)) assets)"

fun check_owners ::
  "(catalog_asset \<times> provider_binding) list \<Rightarrow> (binding_identity, string \<times> bool) dict \<Rightarrow> unit result" where
  "check_owners [] owners = Inr ()"
| "check_owners ((a, b) # rest) owners =
     (if (case dict_get owners (binding_identity_of b) of None \<Rightarrow> False
          | Some (owner, is_unique) \<Rightarrow> owner \<noteq> ca_asset_id a \<and> (is_unique \<or> pb_is_unique b))
        then Inl (ValueError ''unique external provider bindings must be globally unique'')
      else check_owners rest (dict_set owners (binding_identity_of b) (ca_asset_id a, pb_is_unique b)))"

definition validate_catalog_document :: "catalog_document \<Rightarrow> catalog_document result" where
  "validate_catalog_document d =
     (let asset_ids = map ca_asset_id (cd_assets d) in
      if cd_version d < 1 then Inl (ValueError ''catalog_version must be positive'')
      else if cd_assets d = [] then Inl (ValueError ''assets must not be empty'')
      else if \<not> distinct asset_ids then Inl (ValueError ''asset IDs must be unique'')
      else if asset_ids \<noteq> sort asset_ids then Inl (ValueError ''assets must be sorted by asset_id'')
      else bind_r (check_owners (binding_rows (cd_assets d)) []) (\<lambda>_. Inr d))"

definition list_by_type :: "catalog_document \<Rightarrow> asset_class \<Rightarrow> catalog_asset list" where
  "list_by_type d asset_type = filter (\<lambda>a. ca_asset_class a = asset_type) (cd_assets d)"

definition contains_text :: "string \<Rightarrow> string \<Rightarrow> bool" where
  \<comment> \<open>\<^verbatim>\<open>part in text\<close>\<close>
  "contains_text part s \<longleftrightarrow> list_ex (\<lambda>k. take (length part) (drop k s) = part) [0..<Suc (length s)]"

definition parse_document ::
  "(string \<Rightarrow> string) \<Rightarrow> (unit_revision \<Rightarrow> string) \<Rightarrow> catalog_document option \<Rightarrow> catalog_document result" where
  \<comment> \<open>\<open>None\<close> where \<^verbatim>\<open>json.loads\<close> raises or the fields do not have their types\<close>
  "parse_document casefold digest payload =
     (case payload of
        None \<Rightarrow> Inl (CatalogFormatError ''asset catalog is malformed'')
      | Some raw \<Rightarrow>
          (case bind_r (traverse (validate_asset casefold digest) (cd_assets raw)) (\<lambda>assets.
              validate_catalog_document (raw\<lparr>cd_assets := assets\<rparr>)) of
             Inr d \<Rightarrow> Inr d
           | Inl (ValueError message) \<Rightarrow>
               (if contains_text ''globally unique'' message \<or> contains_text ''asset IDs must be unique'' message
                  then Inl (DuplicateCatalogIdentityError ''asset catalog contains duplicate identities'')
                else Inl (CatalogFormatError ''asset catalog is malformed''))
           | Inl e \<Rightarrow> Inl e))"

section \<open>The service\<close>

record catalog_service =
  sv_document :: catalog_document
  sv_semantic_digest :: string
  sv_assets_by_id :: "(string, catalog_asset) dict"
  sv_aliases :: "(string, catalog_asset list) dict"
  sv_external :: "(binding_identity, catalog_asset list) dict"

definition group_append :: "('k \<times> 'v) \<Rightarrow> ('k, 'v list) dict \<Rightarrow> ('k, 'v list) dict" where
  \<comment> \<open>\<^verbatim>\<open>d.setdefault(k, []).append(v)\<close>\<close>
  "group_append kv d = dict_set d (fst kv) ((case dict_get d (fst kv) of None \<Rightarrow> [] | Some vs \<Rightarrow> vs) @ [snd kv])"

definition group_assets :: "('k \<times> catalog_asset) list \<Rightarrow> ('k, catalog_asset list) dict" where
  "group_assets rows = map (\<lambda>(k, vs). (k, sort_key ca_asset_id vs)) (fold group_append rows [])"

definition CURRENT_CATALOG_VERSION :: int where "CURRENT_CATALOG_VERSION = 1"

definition validate_version :: "catalog_document \<Rightarrow> unit result" where
  "validate_version d =
     (if cd_version d \<noteq> CURRENT_CATALOG_VERSION
        then Inl (CatalogVersionError ''unsupported asset catalog version'') else Inr ())"

definition new_catalog_service ::
  "(string \<Rightarrow> string) \<Rightarrow> (catalog_document \<Rightarrow> string) \<Rightarrow> catalog_document \<Rightarrow> catalog_service result" where
  "new_catalog_service casefold document_digest loaded =
     bind_r (validate_version loaded) (\<lambda>_.
       Inr \<lparr>sv_document = loaded, sv_semantic_digest = document_digest loaded,
            sv_assets_by_id = dict_by ca_asset_id (cd_assets loaded),
            sv_aliases = group_assets
              (concat (map (\<lambda>a. map (\<lambda>alias. (casefold alias, a)) (ca_aliases a)) (cd_assets loaded))),
            sv_external = group_assets
              (map (\<lambda>(a, b). (binding_identity_of b, a)) (binding_rows (cd_assets loaded)))\<rparr>)"

definition normalized_slug :: "(string \<Rightarrow> string) \<Rightarrow> string \<Rightarrow> string \<Rightarrow> string result" where
  "normalized_slug casefold field_name value =
     (let normalized = casefold (py_strip value) in
      if normalized = [] then Inl (CatalogFormatError (field_name @ '' must not be empty'')) else Inr normalized)"

definition exact_identifier :: "string \<Rightarrow> string result" where
  "exact_identifier value =
     (if value = [] \<or> value \<noteq> py_strip value
        then Inl (CatalogFormatError ''identifier must be non-empty without surrounding whitespace'') else Inr value)"

definition catalog_get :: "catalog_service \<Rightarrow> string \<Rightarrow> catalog_asset result" where
  "catalog_get sv asset_id =
     (case dict_get (sv_assets_by_id sv) (py_strip asset_id) of
        None \<Rightarrow> Inl (AssetNotFoundError (''asset not found: '' @ asset_id)) | Some a \<Rightarrow> Inr a)"

definition list_assets :: "catalog_service \<Rightarrow> asset_class option \<Rightarrow> string option \<Rightarrow> catalog_asset list" where
  "list_assets sv asset_type capability =
     sort_key ca_asset_id
       (filter (\<lambda>a. (case asset_type of None \<Rightarrow> True | Some t \<Rightarrow> ca_asset_class a = t) \<and>
            (case capability of None \<Rightarrow> True
             | Some c \<Rightarrow> list_ex (\<lambda>b. py_strip c \<in> set (pb_capabilities b)) (ca_provider_bindings a)))
          (cd_assets (sv_document sv)))"

definition only_candidate :: "(string \<Rightarrow> py_error) \<Rightarrow> (string \<Rightarrow> py_error) \<Rightarrow> string \<Rightarrow> string \<Rightarrow> 'a list \<Rightarrow> 'a result" where
  \<comment> \<open>the common end of the look-ups: one candidate, or the error for none or for several\<close>
  "only_candidate missing ambiguous missing_text ambiguous_text candidates =
     (case candidates of
        [] \<Rightarrow> Inl (missing missing_text)
      | [a] \<Rightarrow> Inr a
      | _ \<Rightarrow> Inl (ambiguous ambiguous_text))"

definition resolve_alias ::
  "(string \<Rightarrow> string) \<Rightarrow> catalog_service \<Rightarrow> string \<Rightarrow> asset_class option \<Rightarrow> catalog_asset result" where
  "resolve_alias casefold sv alias asset_type =
     only_candidate AssetAliasNotFoundError AmbiguousAssetAliasError
       (''asset alias not found: '' @ alias) (''asset alias is ambiguous: '' @ alias)
       (filter (\<lambda>a. case asset_type of None \<Rightarrow> True | Some t \<Rightarrow> ca_asset_class a = t)
          (case dict_get (sv_aliases sv) (casefold (py_strip alias)) of None \<Rightarrow> [] | Some as \<Rightarrow> as))"

definition get_binding ::
  "(string \<Rightarrow> string) \<Rightarrow> catalog_service \<Rightarrow> string \<Rightarrow> string \<Rightarrow> string \<Rightarrow> provider_binding result" where
  "get_binding casefold sv asset_id provider namespace =
     bind_r (normalized_slug casefold ''provider'' provider) (\<lambda>p.
     bind_r (normalized_slug casefold ''namespace'' namespace) (\<lambda>n.
     bind_r (catalog_get sv asset_id) (\<lambda>a.
       only_candidate ProviderBindingNotFoundError AmbiguousProviderBindingError
         (''provider binding not found for '' @ asset_id @ '': '' @ p @ ''/'' @ n)
         (''provider binding is ambiguous for '' @ asset_id @ '': '' @ p @ ''/'' @ n)
         (filter (\<lambda>b. pb_provider b = p \<and> pb_namespace b = n) (ca_provider_bindings a)))))"

definition resolve_external ::
  "(string \<Rightarrow> string) \<Rightarrow> catalog_service \<Rightarrow> string \<Rightarrow> string \<Rightarrow> string \<Rightarrow> catalog_asset result" where
  "resolve_external casefold sv provider namespace identifier =
     bind_r (normalized_slug casefold ''provider'' provider) (\<lambda>p.
     bind_r (normalized_slug casefold ''namespace'' namespace) (\<lambda>n.
     bind_r (exact_identifier identifier) (\<lambda>i.
       only_candidate ProviderBindingNotFoundError AmbiguousProviderBindingError
         (''external provider binding not found: '' @ p @ ''/'' @ n @ ''/'' @ identifier)
         (''external provider binding is ambiguous: '' @ p @ ''/'' @ n @ ''/'' @ identifier)
         (case dict_get (sv_external sv) (p, n, i) of None \<Rightarrow> [] | Some as \<Rightarrow> as))))"

definition supports :: "catalog_service \<Rightarrow> string \<Rightarrow> string \<Rightarrow> bool result" where
  "supports sv asset_id capability =
     (let requested = py_strip capability in
      if requested = [] then Inl (CatalogFormatError ''capability must not be empty'')
      else bind_r (catalog_get sv asset_id) (\<lambda>a.
        Inr (list_ex (\<lambda>b. requested \<in> set (pb_capabilities b)) (ca_provider_bindings a))))"

end
