(* ===== verification/Backtest.thy ===== *)
theory Backtest
  imports SnapshotSelector RuleRegistry Repositories AssetCatalog
begin

text \<open>
  The point-in-time replay of one rule (\<^verbatim>\<open>alerts/analytical_backtest.py\<close>): the compatible metrics
  and their single source, the historical cuts, the distinct snapshots evaluated at the last of
  them, the simulated life of a candidate, and the summary with its validator.

  The metric table is that of the storage opened for reading. \<open>uuid_backtest\<close> is the UUIDv5 of the
  canonical JSON of its payload.
\<close>

section \<open>Request and result\<close>

record backtest_request =
  br_rule_id :: string
  br_asset_id :: string
  br_max_cuts :: int

definition validate_backtest_request :: "backtest_request \<Rightarrow> backtest_request result" where
  "validate_backtest_request r =
     (if br_max_cuts r < 20 \<or> 500 < br_max_cuts r then Inl (ValueError ''max_cuts'') else Inr r)"

record backtest_evaluation =
  be_result :: screening_result
  be_opened :: bool
  be_resolved :: bool

definition validate_lifecycle_flags :: "backtest_evaluation \<Rightarrow> backtest_evaluation result" where
  "validate_lifecycle_flags e =
     (if be_opened e \<and> be_resolved e
        then Inl (ValueError ''one backtest cut cannot both open and resolve a candidate'') else Inr e)"

record backtest_payload =
  bp_rule_fingerprint :: string
  bp_asset_id :: string
  bp_asset_class :: string
  bp_source_id :: string
  bp_total_available_cuts :: nat
  bp_evaluations :: "(uuid \<times> bool \<times> bool) list"

record backtest_ids = registry_ids +
  uuid_backtest :: "backtest_payload \<Rightarrow> uuid"

definition analytical_backtest_id ::
  "('x) backtest_ids_scheme \<Rightarrow> screening_rule \<Rightarrow> string \<Rightarrow> asset_class \<Rightarrow> string \<Rightarrow> nat \<Rightarrow>
     backtest_evaluation list \<Rightarrow> uuid" where
  "analytical_backtest_id I rule asset_id asset_class source_id total_available_cuts evaluations =
     uuid_backtest I
       \<lparr>bp_rule_fingerprint = rule_fingerprint I rule, bp_asset_id = asset_id,
        bp_asset_class = asset_class_value asset_class, bp_source_id = source_id,
        bp_total_available_cuts = total_available_cuts,
        bp_evaluations = map (\<lambda>e. (s_result_id (be_result e), be_opened e, be_resolved e)) evaluations\<rparr>"

record backtest_result =
  bt_backtest_id :: uuid
  bt_rule :: screening_rule
  bt_asset_id :: string
  bt_asset_class :: asset_class
  bt_source_id :: string
  bt_total_available_cuts :: nat
  bt_truncated :: bool
  bt_evaluations :: "backtest_evaluation list"
  bt_matched_count :: nat
  bt_not_evaluable_count :: nat
  bt_activation_count :: nat
  bt_resolution_count :: nat
  bt_match_rate :: decimal
  bt_first_known_at :: utc
  bt_last_known_at :: utc

section \<open>The match rate\<close>

function leading_zeros :: "nat \<Rightarrow> nat \<Rightarrow> nat" where
  \<comment> \<open>by how many powers of ten a quotient below one has to be raised to reach one\<close>
  "leading_zeros m t = (if m = 0 \<or> t \<le> m then 0 else Suc (leading_zeros (10 * m) t))"
  by auto
termination by (relation "measure (\<lambda>(m, t). t - m)") auto

declare leading_zeros.simps [simp del]

definition divide_34 :: "nat \<Rightarrow> nat \<Rightarrow> nat \<times> nat" where
  \<comment> \<open>\<^verbatim>\<open>Decimal(m) / Decimal(t)\<close> at precision 34 for \<open>m \<le> t\<close>: coefficient and negated exponent\<close>
  "divide_34 m t =
     (let scale = 33 + leading_zeros m t in (half_even (m * 10 ^ scale) t, scale))"

definition match_rate :: "nat \<Rightarrow> nat \<Rightarrow> decimal" where
  \<comment> \<open>\<^verbatim>\<open>.quantize(Decimal("0.0001"))\<close> of that quotient\<close>
  "match_rate matched evaluated =
     (case divide_34 matched evaluated of (c, scale) \<Rightarrow> Decimal False (half_even c (10 ^ (scale - 4))) (- 4))"

definition not_evaluable :: "backtest_evaluation \<Rightarrow> bool" where
  "not_evaluable e \<longleftrightarrow> list_ex (\<lambda>c. cr_state c = NOT_EVALUABLE) (s_conditions (be_result e))"

definition count_of :: "('a \<Rightarrow> bool) \<Rightarrow> 'a list \<Rightarrow> nat" where
  \<comment> \<open>\<^verbatim>\<open>sum(p(item) for item in items)\<close>\<close>
  "count_of p items = length (filter p items)"

definition validate_summary :: "('x) backtest_ids_scheme \<Rightarrow> backtest_result \<Rightarrow> backtest_result result" where
  "validate_summary I b =
     (let es = bt_evaluations b; times = map (\<lambda>e. s_known_at (be_result e)) es in
      if bt_total_available_cuts b < 1 then Inl (ValueError ''total_available_cuts'')
      else if es = [] \<or> 500 < length es then Inl (ValueError ''evaluations'')
      else if times \<noteq> sort times then Inl (ValueError ''backtest evaluations must be chronologically ordered'')
      else if list_ex (\<lambda>e. rule_fingerprint I (s_rule (be_result e)) \<noteq> rule_fingerprint I (bt_rule b) \<or>
            s_asset_id (be_result e) \<noteq> bt_asset_id b \<or> s_asset_class (be_result e) \<noteq> bt_asset_class b \<or>
            s_source_id (be_result e) \<noteq> bt_source_id b) es
        then Inl (ValueError ''backtest evaluations do not share one rule and context'')
      else if bt_matched_count b \<noteq> count_of (\<lambda>e. s_matched (be_result e)) es \<or>
            bt_not_evaluable_count b \<noteq> count_of not_evaluable es \<or>
            bt_activation_count b \<noteq> count_of be_opened es \<or> bt_resolution_count b \<noteq> count_of be_resolved es
        then Inl (ValueError ''backtest summary counts do not match evaluations'')
      else if \<not> dec_eq (bt_match_rate b) (match_rate (count_of (\<lambda>e. s_matched (be_result e)) es) (length es))
        then Inl (ValueError ''backtest match_rate does not match evaluations'')
      else if bt_first_known_at b \<noteq> s_known_at (be_result (hd es))
        then Inl (ValueError ''backtest first_known_at is inconsistent'')
      else if bt_last_known_at b \<noteq> s_known_at (be_result (last es))
        then Inl (ValueError ''backtest last_known_at is inconsistent'')
      else if bt_backtest_id b \<noteq> analytical_backtest_id I (bt_rule b) (bt_asset_id b) (bt_asset_class b)
            (bt_source_id b) (bt_total_available_cuts b) es
        then Inl (ValueError ''analytical backtest_id is not deterministic'')
      else Inr b)"

section \<open>Metrics and cuts\<close>

definition relevant_metrics :: "screening_rule \<Rightarrow> metric_result list \<Rightarrow> metric_result list" where
  "relevant_metrics rule metrics =
     (let conditions = dict_by c_metric_key (r_conditions rule) in
      filter (\<lambda>m. case dict_get conditions (m_metric_key m) of
           None \<Rightarrow> False
         | Some c \<Rightarrow> m_algorithm_version m = c_algorithm_version c \<and> m_unit m = c_unit c \<and>
             m_quality m \<in> set (c_accepted_qualities c) \<and> filters_match c m) metrics)"

fun market_metric_cuts :: "iso_parser \<Rightarrow> metric_result list \<Rightarrow> utc list result" where
  "market_metric_cuts parse [] = Inr []"
| "market_metric_cuts parse (m # ms) =
     (if resolve_cut_identity_version m = CutV2
      then bind_r (require_absent_legacy_cut_parameter m) (\<lambda>_.
        bind_r (market_metric_cuts parse ms) (\<lambda>cuts. Inr (m_available_at m # cuts)))
      else
        (let legacy = probe_legacy_known_at parse m in
         if lp_state legacy = LegacyAbsent then market_metric_cuts parse ms
         else if lp_state legacy = LegacyNaive
           then Inl (BacktestError ''market metric known_at parameter must include timezone'')
         else
           (case lp_value legacy of
              None \<Rightarrow> Inl (BacktestError ''market metric known_at parameter is invalid'')
            | Some t \<Rightarrow> bind_r (market_metric_cuts parse ms) (\<lambda>cuts. Inr (t # cuts)))))"

definition backtest_cuts :: "iso_parser \<Rightarrow> screening_rule \<Rightarrow> metric_result list \<Rightarrow> utc list result" where
  "backtest_cuts parse rule metrics =
     (if r_domain rule = FUNDAMENTALS then Inr (sort (remdups (map m_available_at metrics)))
      else bind_r (market_metric_cuts parse metrics) (\<lambda>cuts. Inr (sort (remdups cuts))))"

definition source_text :: "metric_result \<Rightarrow> string option" where
  \<comment> \<open>the source of a metric, where it is a text that is not blank\<close>
  "source_text m =
     (case param_get (m_parameters m) ''source_id'' of
        JStr s \<Rightarrow> if py_strip s = [] then None else Some s
      | _ \<Rightarrow> None)"

definition metric_sources :: "metric_result list \<Rightarrow> string list" where
  "metric_sources metrics = sort (remdups (List.map_filter source_text metrics))"

section \<open>Evaluating the cuts\<close>

fun evaluate_cuts ::
  "('x) backtest_ids_scheme \<Rightarrow> iso_parser \<Rightarrow> screening_rule \<Rightarrow> string \<Rightarrow> asset_class \<Rightarrow> string \<Rightarrow>
     metric_result list \<Rightarrow> uuid list option \<Rightarrow> utc list \<Rightarrow> screening_result list result" where
  "evaluate_cuts I parse rule asset_id asset_class source_id metrics previous [] = Inr []"
| "evaluate_cuts I parse rule asset_id asset_class source_id metrics previous (known_at # cuts) =
     bind_r (select parse rule metrics source_id (Aware known_at 0)) (\<lambda>selected.
       (let evidence = map m_result_id selected in
        if previous = Some evidence
          then evaluate_cuts I parse rule asset_id asset_class source_id metrics previous cuts
        else
          bind_r (bind_r (validate_snapshot
              (request_of rule asset_id asset_class source_id known_at known_at selected)) (evaluate I)) (\<lambda>s.
          bind_r (evaluate_cuts I parse rule asset_id asset_class source_id metrics (Some evidence) cuts) (\<lambda>rest.
            Inr (s # rest)))))"

section \<open>The simulated candidate\<close>

record simulation =
  sm_open :: bool
  sm_cooldown_until :: "utc option"
  sm_confirmations :: nat
  sm_latest_period :: "utc option"

definition no_candidate :: simulation where
  "no_candidate = \<lparr>sm_open = False, sm_cooldown_until = None, sm_confirmations = 0, sm_latest_period = None\<rparr>"

definition confirm :: "screening_result \<Rightarrow> simulation \<Rightarrow> simulation" where
  "confirm s sim =
     (if s_matched s
      then (if s_as_of s \<noteq> sm_latest_period sim
            then sim\<lparr>sm_confirmations := Suc (sm_confirmations sim), sm_latest_period := s_as_of s\<rparr> else sim)
      else sim\<lparr>sm_confirmations := 0, sm_latest_period := None\<rparr>)"

definition simulate_step :: "screening_rule \<Rightarrow> screening_result \<Rightarrow> simulation \<Rightarrow> simulation \<times> bool \<times> bool" where
  \<comment> \<open>the simulation after one result, and whether it opened and resolved the candidate\<close>
  "simulate_step rule s sim =
     (let sim = confirm s sim in
      if sm_open sim then
        (if s_retained s = Some False then (sim\<lparr>sm_open := False\<rparr>, False, True) else (sim, False, False))
      else if s_activated s \<and> s_as_of s \<noteq> None \<and> r_confirmations_required rule \<le> int (sm_confirmations sim) \<and>
          (case sm_cooldown_until sim of None \<Rightarrow> True | Some t \<Rightarrow> t \<le> s_known_at s)
        then (sim\<lparr>sm_open := True, sm_cooldown_until := Some (s_known_at s + seconds (r_cooldown_seconds rule))\<rparr>,
              True, False)
      else (sim, False, False))"

fun simulate_results ::
  "screening_rule \<Rightarrow> simulation \<Rightarrow> screening_result list \<Rightarrow> backtest_evaluation list result" where
  "simulate_results rule sim [] = Inr []"
| "simulate_results rule sim (s # rest) =
     (case simulate_step rule s sim of (sim', opened, resolved) \<Rightarrow>
        bind_r (validate_lifecycle_flags \<lparr>be_result = s, be_opened = opened, be_resolved = resolved\<rparr>) (\<lambda>e.
        bind_r (simulate_results rule sim' rest) (\<lambda>es. Inr (e # es))))"

definition simulate_lifecycle :: "screening_rule \<Rightarrow> screening_result list \<Rightarrow> backtest_evaluation list result" where
  "simulate_lifecycle rule results = simulate_results rule no_candidate results"

section \<open>The service\<close>

definition last_cuts :: "int \<Rightarrow> 'a list \<Rightarrow> 'a list" where
  \<comment> \<open>\<^verbatim>\<open>cuts[-n:]\<close> for a positive n\<close>
  "last_cuts n cuts = drop (length cuts - nat n) cuts"

definition summarize ::
  "('x) backtest_ids_scheme \<Rightarrow> screening_rule \<Rightarrow> catalog_asset \<Rightarrow> string \<Rightarrow> nat \<Rightarrow> nat \<Rightarrow>
     backtest_evaluation list \<Rightarrow> backtest_result" where
  "summarize I rule asset source_id available selected lifecycle =
     (let matched = count_of (\<lambda>e. s_matched (be_result e)) lifecycle in
      \<lparr>bt_backtest_id = analytical_backtest_id I rule (ca_asset_id asset) (ca_asset_class asset) source_id available lifecycle,
       bt_rule = rule, bt_asset_id = ca_asset_id asset, bt_asset_class = ca_asset_class asset,
       bt_source_id = source_id, bt_total_available_cuts = available, bt_truncated = (selected < available),
       bt_evaluations = lifecycle, bt_matched_count = matched,
       bt_not_evaluable_count = count_of not_evaluable lifecycle,
       bt_activation_count = count_of be_opened lifecycle, bt_resolution_count = count_of be_resolved lifecycle,
       bt_match_rate = match_rate matched (length lifecycle),
       bt_first_known_at = s_known_at (be_result (hd lifecycle)),
       bt_last_known_at = s_known_at (be_result (last lifecycle))\<rparr>)"

definition replay_metrics ::
  "('x) backtest_ids_scheme \<Rightarrow> iso_parser \<Rightarrow> int \<Rightarrow> screening_rule \<Rightarrow> catalog_asset \<Rightarrow> metric_result list \<Rightarrow>
     backtest_result result" where
  \<comment> \<open>\<^verbatim>\<open>run\<close> once the metrics are read\<close>
  "replay_metrics I parse max_cuts rule asset metrics =
     (let relevant = relevant_metrics rule metrics in
      case metric_sources relevant of
        [] \<Rightarrow> Inl (BacktestUnavailableError ''no compatible persisted metrics exist for this rule and asset'')
      | source_id # others \<Rightarrow>
          if others \<noteq> [] then Inl (BacktestAmbiguousSourceError ''compatible backtest metrics identify multiple sources'')
          else
            (let scoped = filter (\<lambda>m. json_eq (param_get (m_parameters m) ''source_id'') (JStr source_id)) relevant in
             bind_r (backtest_cuts parse rule scoped) (\<lambda>cuts.
             if cuts = [] then Inl (BacktestUnavailableError ''no valid point-in-time cuts exist for this rule and asset'')
             else
               (let selected_cuts = last_cuts max_cuts cuts in
                bind_r (evaluate_cuts I parse rule (ca_asset_id asset) (ca_asset_class asset) source_id scoped None
                    selected_cuts) (\<lambda>evaluations.
                if evaluations = [] then Inl (BacktestUnavailableError
                  ''no distinct compatible metric snapshots exist in the requested cuts'')
                else bind_r (simulate_lifecycle rule evaluations) (\<lambda>lifecycle.
                  validate_summary I
                    (summarize I rule asset source_id (length cuts) (length selected_cuts) lifecycle)))))))"

definition run_backtest ::
  "('x) backtest_ids_scheme \<Rightarrow> iso_parser \<Rightarrow> catalog_service \<Rightarrow> screening_rule list \<Rightarrow> registry_state option \<Rightarrow>
     metric_table \<Rightarrow> backtest_request \<Rightarrow> backtest_result result" where
  "run_backtest I parse catalog defaults document table request =
     bind_r (get_rule I defaults document (br_rule_id request)) (\<lambda>rule.
     bind_r (catalog_get catalog (br_asset_id request)) (\<lambda>asset.
     if ca_asset_class asset \<notin> set (r_asset_classes rule)
       then Inl (BacktestUnavailableError ''the analytical rule is not compatible with this asset class'')
     else bind_r (list_metrics table
           \<lparr>mq_asset_id = Some (ca_asset_id asset), mq_metric_key = None,
            mq_metric_keys = Some (sort (remdups (map c_metric_key (r_conditions rule)))),
            mq_as_of_from = None, mq_as_of_to = None\<rparr>) (\<lambda>metrics.
       replay_metrics I parse (br_max_cuts request) rule asset metrics)))"

end
