(* ===== verification/BacktestLifecycle.thy ===== *)
theory BacktestLifecycle
  imports Backtest InboxProperties
begin

text \<open>
  The simulated candidate of the backtest against the candidate store: fed one result at a time,
  with the processing time at the cut, the store opens and resolves candidates exactly where the
  backtest says, as long as every result has evidence and no period turns from not matched to
  matched.
\<close>

section \<open>Counting confirmations\<close>

definition follows :: "screening_result \<Rightarrow> screening_result \<Rightarrow> bool" where
  \<comment> \<open>a later cut, of the same or a later period; within a period a match is not regained\<close>
  "follows s t \<longleftrightarrow> s_known_at s < s_known_at t \<and> the (s_as_of s) \<le> the (s_as_of t) \<and>
     (s_as_of s = s_as_of t \<and> s_matched t \<longrightarrow> s_matched s)"

definition one_stream :: "screening_rule \<Rightarrow> string \<Rightarrow> string \<Rightarrow> screening_result list \<Rightarrow> bool" where
  "one_stream rule asset source ss \<longleftrightarrow> sorted_wrt follows ss \<and>
     (\<forall>s \<in> set ss. s_rule s = rule \<and> s_asset_id s = asset \<and> s_source_id s = source \<and> s_as_of s \<noteq> None)"

definition streak_of :: "screening_result list \<Rightarrow> nat" where
  "streak_of ss = length (takeWhile s_matched (first_by s_as_of (rev ss)))"

lemma streak_of_snoc:
  "streak_of (ss @ [s]) =
     (if s_matched s then Suc (length (takeWhile s_matched
        (filter (\<lambda>y. s_as_of y \<noteq> s_as_of s) (first_by s_as_of (rev ss))))) else 0)"
  by (simp add: streak_of_def)

lemma set_first_by: "set (first_by key xs) \<subseteq> set xs"
  by (induction xs) auto

definition last_period :: "screening_result list \<Rightarrow> utc option" where
  \<comment> \<open>the period the simulation remembers\<close>
  "last_period ss = (if ss \<noteq> [] \<and> s_matched (last ss) then s_as_of (last ss) else None)"

lemma streak_step:
  assumes "one_stream rule asset source (ss @ [s])" and "sm_confirmations sim = streak_of ss"
    and "sm_latest_period sim = last_period ss"
  shows "sm_confirmations (confirm s sim) = streak_of (ss @ [s]) \<and>
    sm_latest_period (confirm s sim) = last_period (ss @ [s])"
proof (cases "s_matched s")
  case True
  have before: "follows x s" "s_as_of x \<noteq> None" if "x \<in> set ss" for x
    using assms(1) that by (auto simp: one_stream_def sorted_wrt_append)
  have some: "s_as_of s \<noteq> None" using assms(1) by (simp add: one_stream_def)
  show ?thesis
  proof (cases ss rule: rev_cases)
    case Nil
    with True some assms(2,3) show ?thesis
      by (auto simp: confirm_def streak_of_def last_period_def)
  next
    case (snoc ts t)
    note t = before [of t]
    show ?thesis
    proof (cases "s_as_of t = s_as_of s")
      case same: True
      with t True snoc have mt: "s_matched t" by (auto simp: follows_def)
      have "streak_of (ss @ [s]) = streak_of ss"
        using True mt same by (simp add: streak_of_snoc snoc streak_of_def)
      with same True mt assms(2,3) snoc show ?thesis by (simp add: confirm_def last_period_def)
    next
      case other: False
      have earlier: "s_as_of x \<noteq> s_as_of s" if x: "x \<in> set ss" for x
      proof -
        have "the (s_as_of x) \<le> the (s_as_of t)"
          using assms(1) x by (auto simp: one_stream_def sorted_wrt_append snoc follows_def)
        moreover have "the (s_as_of t) < the (s_as_of s)"
          using t other some snoc by (auto simp: follows_def order_le_less)
        ultimately show ?thesis by auto
      qed
      have "filter (\<lambda>y. s_as_of y \<noteq> s_as_of s) (first_by s_as_of (rev ss)) = first_by s_as_of (rev ss)"
        using set_first_by [of s_as_of "rev ss"] earlier by (intro filter_True) auto
      then have "streak_of (ss @ [s]) = Suc (streak_of ss)"
        using True by (simp add: streak_of_snoc) (simp add: streak_of_def)
      moreover have "last_period ss \<noteq> s_as_of s" using other some by (auto simp: last_period_def snoc)
      ultimately show ?thesis using True assms(2,3) by (simp add: confirm_def last_period_def)
    qed
  qed
next
  case False
  then show ?thesis by (simp add: confirm_def streak_of_snoc last_period_def)
qed

lemma one_stream_prefix: "one_stream rule asset source (ss @ ts) \<Longrightarrow> one_stream rule asset source ss"
  by (simp add: one_stream_def sorted_wrt_append)

lemma one_stream_strict:
  assumes "one_stream rule asset source ss"
  shows "sorted_wrt (\<lambda>a b. result_order a < result_order b) ss"
proof (rule sorted_wrt_mono_rel)
  show "sorted_wrt follows ss" using assms by (simp add: one_stream_def)
qed (simp add: follows_def result_order_def less_prod_def)

lemma strict_sort_rev:
  assumes "sorted_wrt (\<lambda>a b. key a < key b) xs"
  shows "sort_key key (rev xs) = xs"
proof (rule properties_for_sort_key)
  have "sorted_wrt (\<lambda>a b. key a \<le> key b) xs" by (rule sorted_wrt_mono_rel [OF _ assms]) simp
  then show "sorted (map key xs)" by (simp only: sorted_map)
  show "mset xs = mset (rev xs)" by simp
next
  fix k assume "k \<in> set xs"
  then obtain us vs where xs: "xs = us @ k # vs" by (auto dest: split_list)
  have "\<forall>x \<in> set us \<union> set vs. key x \<noteq> key k" using assms by (auto simp: xs sorted_wrt_append)
  then have "filter (\<lambda>x. key k = key x) us = []" "filter (\<lambda>x. key k = key x) vs = []"
    by (auto simp: filter_empty_conv)
  then show "filter (\<lambda>x. key k = key x) xs = filter (\<lambda>x. key k = key x) (rev xs)"
    by (simp add: xs rev_filter [symmetric])
qed

lemma one_stream_count:
  assumes "one_stream rule asset source (ss @ [s])"
  shows "confirmation_count I (ss @ [s]) s = streak_of (ss @ [s])"
proof -
  let ?xs = "ss @ [s]"
  have all: "\<forall>x \<in> set ?xs. result_stream I x = result_stream I s \<and> s_known_at x \<le> s_known_at s \<and> s_as_of x \<noteq> None"
  proof
    fix x assume x: "x \<in> set ?xs"
    then have "follows x s \<or> x = s" using assms by (simp add: one_stream_def sorted_wrt_append) blast
    moreover have "s_rule x = s_rule s" "s_asset_id x = s_asset_id s" "s_source_id x = s_source_id s" "s_as_of x \<noteq> None"
      using assms x unfolding one_stream_def by fastforce+
    ultimately show "result_stream I x = result_stream I s \<and> s_known_at x \<le> s_known_at s \<and> s_as_of x \<noteq> None"
      unfolding result_stream_def follows_def by auto
  qed
  have "stream_results I ?xs s = rev ?xs"
    unfolding stream_results_def sorted_reverse_def
    using filter_True [OF all] strict_sort_rev [OF one_stream_strict [OF assms]] by (simp only:)
  then show ?thesis by (simp only: confirmation_count_spec streak_of_def)
qed

section \<open>One result in the store\<close>

lemma at_most_one_open:
  assumes "candidates_ok I lc"
  shows "length (open_of I s lc) \<le> 1"
proof (rule ccontr)
  assume "\<not> length (open_of I s lc) \<le> 1"
  then obtain a b rest where eq: "open_of I s lc = a # b # rest"
    by (cases "open_of I s lc" rule: remdups_adj.cases) auto
  have "distinct (map e_candidate_id (open_of I s lc))"
    using assms keyed_values_distinct unfolding candidates_ok_def open_of_def by (auto simp: distinct_map_filter)
  then have ids: "e_candidate_id a \<noteq> e_candidate_id b" by (simp add: eq)
  have "a \<in> set (open_of I s lc)" "b \<in> set (open_of I s lc)" by (simp_all add: eq)
  then have "a \<in> set (dict_values (lc_candidates lc))" "b \<in> set (dict_values (lc_candidates lc))"
      "stream a = stream b" "e_status a \<noteq> RESOLVED" "e_status b \<noteq> RESOLVED"
    by (auto simp: open_of_def same_stream_iff)
  with ids assms show False by (auto simp: candidates_ok_def streams_ok_def apart_def)
qed

definition mirrors ::
  "('x) state_ids_scheme \<Rightarrow> string \<times> string \<times> string \<Rightarrow> candidate_event list \<Rightarrow> simulation \<Rightarrow> bool" where
  \<comment> \<open>the simulation knows of the candidates whether one is open and when the cooldowns end\<close>
  "mirrors I str es sim \<longleftrightarrow>
     (\<forall>e \<in> set es. stream e = str) \<and>
     (sm_open sim \<longleftrightarrow> (\<exists>e \<in> set es. e_status e \<noteq> RESOLVED)) \<and>
     (\<forall>p. (\<forall>e \<in> set es. e_cooldown_until e \<le> p) \<longleftrightarrow>
        (case sm_cooldown_until sim of None \<Rightarrow> True | Some t \<Rightarrow> t \<le> p))"

lemma mirrors_confirm [simp]: "mirrors I str es (confirm s sim) = mirrors I str es sim"
  by (simp add: mirrors_def confirm_def)

lemma confirm_frame [simp]:
  "sm_open (confirm s sim) = sm_open sim" "sm_cooldown_until (confirm s sim) = sm_cooldown_until sim"
  by (simp_all add: confirm_def)

lemma mirrored_step:
  assumes "lifecycle_step I (s_known_at s) (ss @ [s]) s lc = Inr lc'"
    and "candidates_ok I lc" and "mirrors I (result_stream I s) (dict_values (lc_candidates lc)) sim"
    and "one_stream rule asset source (ss @ [s])" and "sm_confirmations (confirm s sim) = streak_of (ss @ [s])"
    and "0 \<le> r_cooldown_seconds rule"
    and "dict_get (lc_candidates lc) (analytical_candidate_id I (s_result_id s)) = None"
    and "simulate_step rule s sim = (sim', opened, resolved)"
  shows "mirrors I (result_stream I s) (dict_values (lc_candidates lc')) sim'"
    and "length (lc_created lc') = length (lc_created lc) + of_bool opened"
    and "lc_resolved lc' = lc_resolved lc + of_bool resolved"
    and "sm_confirmations sim' = sm_confirmations (confirm s sim)"
    and "sm_latest_period sim' = sm_latest_period (confirm s sim)"
proof -
  let ?open = "open_of I s lc" and ?V = "dict_values (lc_candidates lc)"
  note m = assms(3) [unfolded mirrors_def]
  have rule: "s_rule s = rule" and some: "s_as_of s \<noteq> None" using assms(4) by (simp_all add: one_stream_def)
  have k: "keyed_ok (lc_candidates lc)" using assms(2) by (simp add: candidates_ok_def)
  have op: "?open \<noteq> [] \<longleftrightarrow> sm_open sim"
    using m by (auto simp: open_of_def filter_empty_conv same_stream_iff)
  have all_open: "set ?open = {e \<in> set ?V. e_status e \<noteq> RESOLVED}"
    using m by (auto simp: open_of_def same_stream_iff)
  have may: "may_open I (s_known_at s) (ss @ [s]) s lc \<longleftrightarrow> s_activated s \<and>
      r_confirmations_required rule \<le> int (sm_confirmations (confirm s sim)) \<and>
      (case sm_cooldown_until sim of None \<Rightarrow> True | Some t \<Rightarrow> t \<le> s_known_at s)"
    using m some by (simp add: may_open_def rule one_stream_count [OF assms(4)] assms(5) same_stream_iff)
  have "mirrors I (result_stream I s) (dict_values (lc_candidates lc')) sim' \<and>
    length (lc_created lc') = length (lc_created lc) + of_bool opened \<and>
    lc_resolved lc' = lc_resolved lc + of_bool resolved \<and>
    sm_confirmations sim' = sm_confirmations (confirm s sim) \<and> sm_latest_period sim' = sm_latest_period (confirm s sim)"
  proof (cases "sm_open sim")
    case True
    show ?thesis
    proof (cases "s_retained s = Some False")
      case ret: True
      have lc': "lc' = resolved_lifecycle I (s_known_at s) ?open lc"
        using assms(1) True ret op by (simp add: lifecycle_step_unfold)
      have "length ?open = 1" using at_most_one_open [OF assms(2), of s] True op by (cases ?open) auto
      then have n: "lc_resolved lc' = lc_resolved lc + 1" "lc_created lc' = lc_created lc"
        by (simp_all add: lc' resolved_lifecycle_def)
      obtain f where f: "\<And>e. stream (f e) = stream e" "\<And>e. e_status (f e) = RESOLVED"
          "\<And>e. e_cooldown_until (f e) = e_cooldown_until e"
        and vals: "set (dict_values (lc_candidates lc')) = f ` set ?V"
      proof
        let ?f = "\<lambda>e. if e_status e \<noteq> RESOLVED then e\<lparr>e_status := RESOLVED\<rparr> else e"
        show "set (dict_values (lc_candidates lc')) = ?f ` set ?V"
          unfolding lc' resolved_values(2) [OF k] all_open by (rule image_cong) auto
      qed simp_all
      have sim': "sim' = (confirm s sim)\<lparr>sm_open := False\<rparr>" "\<not> opened" "resolved"
        using assms(8) True ret by (auto simp: simulate_step_def Let_def)
      have "mirrors I (result_stream I s) (dict_values (lc_candidates lc')) sim'"
        using m unfolding mirrors_def vals sim'(1) by (simp add: f)
      with n sim' show ?thesis by simp
    next
      case False
      then have "lc' = lc" using assms(1) True op by (simp add: lifecycle_step_unfold)
      moreover have "sim' = confirm s sim" "\<not> opened" "\<not> resolved"
        using assms(8) True False by (auto simp: simulate_step_def Let_def)
      ultimately show ?thesis using assms(3) by simp
    qed
  next
    case False
    then have none: "?open = []" using op by blast
    show ?thesis
    proof (cases "may_open I (s_known_at s) (ss @ [s]) s lc")
      case True
      let ?e = "activation_event I s (the (s_as_of s)) (s_known_at s) (confirmation_count I (ss @ [s]) s)"
      have id: "e_candidate_id ?e = analytical_candidate_id I (s_result_id s)" by (simp add: activation_event_def)
      have lc': "lc' = opened_lifecycle ?e lc"
        using assms(1,7) none True
        by (auto simp: lifecycle_step_unfold Let_def bind_r_eq_Inr id validate_event_def split: if_splits)
      have vals: "set (dict_values (lc_candidates lc')) = insert ?e (set ?V)"
        unfolding lc' by (rule opened_values(2) [OF k]) (simp add: id assms(7))
      have sim': "sim' = (confirm s sim)\<lparr>sm_open := True,
          sm_cooldown_until := Some (s_known_at s + seconds (r_cooldown_seconds rule))\<rparr>" "opened" "\<not> resolved"
        using assms(8) False True may some by (auto simp: simulate_step_def Let_def)
      have cool: "e_cooldown_until e \<le> p" if "e \<in> set ?V" "s_known_at s + seconds (r_cooldown_seconds rule) \<le> p" for e p
      proof -
        have "e_cooldown_until e \<le> s_known_at s" using True m that(1) by (auto simp: may_open_def same_stream_iff)
        moreover have "0 \<le> seconds (r_cooldown_seconds rule)" using assms(6) by (simp add: seconds_def second_us_def)
        ultimately show ?thesis using that(2) by linarith
      qed
      have e: "stream ?e = result_stream I s" "e_status ?e = NEW"
          "e_cooldown_until ?e = s_known_at s + seconds (r_cooldown_seconds rule)"
        by (simp_all add: activation_event_def stream_def result_stream_def rule)
      have "mirrors I (result_stream I s) (dict_values (lc_candidates lc')) sim'"
        using m cool unfolding mirrors_def vals sim'(1) by (auto simp: e)
      with sim' show ?thesis by (simp add: lc' opened_lifecycle_def)
    next
      case no: False
      then have "lc' = lc" using assms(1) none by (simp add: lifecycle_step_unfold)
      moreover have "sim' = confirm s sim" "\<not> opened" "\<not> resolved"
        using assms(8) False no may some by (auto simp: simulate_step_def Let_def split: if_splits)
      ultimately show ?thesis using assms(3) by simp
    qed
  qed
  then show "mirrors I (result_stream I s) (dict_values (lc_candidates lc')) sim'"
    "length (lc_created lc') = length (lc_created lc) + of_bool opened"
    "lc_resolved lc' = lc_resolved lc + of_bool resolved"
    "sm_confirmations sim' = sm_confirmations (confirm s sim)"
    "sm_latest_period sim' = sm_latest_period (confirm s sim)" by simp_all
qed

section \<open>A feed of results\<close>

lemma fresh_recording:
  assumes "record_attempt I st r [s] = Inr (out, st', js)" and "history_ok st"
    and "rc_attempt_id r \<notin> rc_attempt_id ` set (st_receipts st)"
    and "s_result_id s \<notin> s_result_id ` set (st_results st)"
  obtains lc where "lifecycle_step I (rc_processed_at r) (st_results st @ [s]) s (initial_lifecycle st) = Inr lc"
    and "st' = recorded_state st r [s] lc" and "history_ok st'"
    and "ro_candidates_created out = length (lc_created lc)" and "ro_candidates_resolved out = lc_resolved lc"
proof -
  have none: "dict_get (dict_by rc_attempt_id (st_receipts st)) (rc_attempt_id r) = None"
    using assms(3) by (simp add: dict_get_by_None)
  have dist: "distinct (map s_result_id (st_results st))" using assms(2) by (simp add: history_ok_def)
  have merged: "merge_results I [s] (dict_by s_result_id (st_results st)) [] =
      Inr (dict_by s_result_id (st_results st) @ [(s_result_id s, s)], [s])"
    using merge_results_fresh [of "[s]" "dict_by s_result_id (st_results st)" I "[]"] assms(4)
    by (simp add: dict_get_by_None)
  have vals: "dict_values (dict_by s_result_id (st_results st) @ [(s_result_id s, s)]) = st_results st @ [s]"
    using dict_values_by [OF dist, of "[s]"] by simp
  from assms(1) obtain lc st1 where
      lc: "lifecycle_step I (rc_processed_at r) (st_results st @ [s]) s (initial_lifecycle st) = Inr lc"
    and v: "validate_history
        \<lparr>st_results = sort_key result_order (st_results st @ [s]),
         st_candidates = sort_key candidate_order (dict_values (lc_candidates lc)),
         st_transitions = sort_key transition_order (st_transitions st @ lc_transitions lc),
         st_receipts = sort_key receipt_order (st_receipts st @ [r])\<rparr> = Inr st1"
    and out: "st' = st1" "ro_candidates_created out = length (lc_created lc)" "ro_candidates_resolved out = lc_resolved lc"
    unfolding record_attempt_def Let_def none receipts_extended [OF assms(2) none] merged
    by (auto simp: bind_r_eq_Inr vals split: if_splits)
  from v have "st1 = recorded_state st r [s] lc" "history_ok st1"
    by (simp_all add: validate_history_iff recorded_state_def)
  with lc out that show ?thesis by simp
qed

fun record_all ::
  "('x) state_ids_scheme \<Rightarrow> screening_state \<Rightarrow> (monitor_receipt \<times> screening_result) list \<Rightarrow> record_outcome list result" where
  \<comment> \<open>the store fed one result at a time\<close>
  "record_all I st [] = Inr []"
| "record_all I st ((r, s) # feed) =
     bind_r (record_attempt I st r [s]) (\<lambda>(out, st', js).
     bind_r (record_all I st' feed) (\<lambda>outs. Inr (out # outs)))"

definition feed_ok ::
  "('x) state_ids_scheme \<Rightarrow> screening_rule \<Rightarrow> string \<Rightarrow> string \<Rightarrow> screening_state \<Rightarrow>
     (monitor_receipt \<times> screening_result) list \<Rightarrow> bool" where
  \<comment> \<open>one stream continued, processed at its cuts, under fresh identities that do not collide\<close>
  "feed_ok I rule asset source st feed \<longleftrightarrow>
     one_stream rule asset source (st_results st @ map snd feed) \<and>
     (\<forall>(r, s) \<in> set feed. rc_processed_at r = s_known_at s) \<and>
     distinct (map s_result_id (st_results st @ map snd feed)) \<and>
     distinct (map rc_attempt_id (st_receipts st @ map fst feed)) \<and>
     inj_on (uuid_candidate I) (s_result_id ` set (st_results st @ map snd feed))"

lemma recorded_results:
  assumes "one_stream rule asset source (st_results st @ [s])"
  shows "st_results (recorded_state st r [s] lc) = st_results st @ [s]"
proof -
  have "sorted (map result_order (st_results st @ [s]))"
    unfolding sorted_map by (rule sorted_wrt_mono_rel [OF _ one_stream_strict [OF assms]]) simp
  then show ?thesis by (simp only: recorded_state_def screening_state.simps sort_key_id_if_sorted)
qed

lemma new_candidate_id:
  assumes "valid_state I st" and "s_result_id s \<notin> s_result_id ` set (st_results st)"
    and "inj_on (uuid_candidate I) (insert (s_result_id s) (s_result_id ` set (st_results st)))"
  shows "dict_get (lc_candidates (initial_lifecycle st)) (analytical_candidate_id I (s_result_id s)) = None"
proof (rule ccontr)
  assume "dict_get (lc_candidates (initial_lifecycle st)) (analytical_candidate_id I (s_result_id s)) \<noteq> None"
  then obtain e where e: "e \<in> set (st_candidates st)" "e_candidate_id e = analytical_candidate_id I (s_result_id s)"
    by (auto simp: initial_lifecycle_def dest: dict_get_by_SomeD)
  have "validate_event I e = Inr e" "e_activation_result_id e \<in> s_result_id ` set (st_results st)"
    using assms(1) e(1) by (auto simp: valid_state_def events_ok_def history_ok_def)
  then have "uuid_candidate I (e_activation_result_id e) = uuid_candidate I (s_result_id s)"
      "e_activation_result_id e \<in> s_result_id ` set (st_results st)"
    using e(2) by (auto simp: validate_event_def analytical_candidate_id_def split: if_splits)
  with assms(2) inj_onD [OF assms(3), of "e_activation_result_id e" "s_result_id s"] show False by auto
qed

lemma recorded_step:
  assumes "record_attempt I st r [s] = Inr (out, st', js)" and "valid_state I st"
    and "feed_ok I rule asset source st ((r, s) # feed)" and "0 \<le> r_cooldown_seconds rule"
    and "mirrors I (rule_fingerprint I rule, asset, source) (st_candidates st) sim"
    and "sm_confirmations sim = streak_of (st_results st)" and "sm_latest_period sim = last_period (st_results st)"
    and "simulate_step rule s sim = (sim', opened, resolved)"
  shows "valid_state I st'" and "feed_ok I rule asset source st' feed"
    and "mirrors I (rule_fingerprint I rule, asset, source) (st_candidates st') sim'"
    and "sm_confirmations sim' = streak_of (st_results st')" and "sm_latest_period sim' = last_period (st_results st')"
    and "ro_candidates_created out = of_bool opened" and "ro_candidates_resolved out = of_bool resolved"
proof -
  let ?lc = "initial_lifecycle st" and ?str = "(rule_fingerprint I rule, asset, source)"
  have h: "history_ok st" using assms(2) by (simp add: valid_state_def)
  have stream: "one_stream rule asset source (st_results st @ [s])"
    using assms(3) one_stream_prefix [of rule asset source "st_results st @ [s]" "map snd feed"] by (simp add: feed_ok_def)
  have fresh: "rc_attempt_id r \<notin> rc_attempt_id ` set (st_receipts st)" "s_result_id s \<notin> s_result_id ` set (st_results st)"
    using assms(3) by (auto simp: feed_ok_def)
  obtain lc where lc: "lifecycle_step I (rc_processed_at r) (st_results st @ [s]) s ?lc = Inr lc"
      and st': "st' = recorded_state st r [s] lc" and h': "history_ok st'"
      and out: "ro_candidates_created out = length (lc_created lc)" "ro_candidates_resolved out = lc_resolved lc"
    by (rule fresh_recording [OF assms(1) h fresh])
  have at: "rc_processed_at r = s_known_at s" using assms(3) by (simp add: feed_ok_def)
  have str: "result_stream I s = ?str" using stream by (simp add: one_stream_def result_stream_def)
  have "candidates_ok I ?lc"
    using assms(2) initial_candidates [OF h] by (simp add: candidates_ok_def valid_state_def)
  moreover have "mirrors I (result_stream I s) (dict_values (lc_candidates ?lc)) sim"
    using assms(5) initial_candidates(2) [OF h] by (simp add: str)
  moreover note conf = streak_step [OF stream assms(6,7)]
  moreover have "dict_get (lc_candidates ?lc) (analytical_candidate_id I (s_result_id s)) = None"
  proof (rule new_candidate_id [OF assms(2) fresh(2)])
    have "inj_on (uuid_candidate I) (s_result_id ` set (st_results st @ map snd ((r, s) # feed)))"
      using assms(3) by (simp only: feed_ok_def)
    then show "inj_on (uuid_candidate I) (insert (s_result_id s) (s_result_id ` set (st_results st)))"
      by (rule inj_on_subset) auto
  qed
  ultimately have "mirrors I (result_stream I s) (dict_values (lc_candidates lc)) sim' \<and>
      length (lc_created lc) = length (lc_created ?lc) + of_bool opened \<and>
      lc_resolved lc = lc_resolved ?lc + of_bool resolved \<and>
      sm_confirmations sim' = sm_confirmations (confirm s sim) \<and> sm_latest_period sim' = sm_latest_period (confirm s sim)"
    using mirrored_step [OF lc [unfolded at] _ _ stream _ assms(4) _ assms(8)] by blast
  note step = this [THEN conjunct1] this [THEN conjunct2]
  show "valid_state I st'" by (rule valid_state_recorded [OF assms(2,1)])
  note results = recorded_results [OF stream, of r lc]
  have "mset (st_receipts st' @ map fst feed) = mset (st_receipts st @ map fst ((r, s) # feed))"
    by (simp add: st' recorded_state_def)
  moreover have "distinct (map rc_attempt_id (st_receipts st @ map fst ((r, s) # feed)))"
    using assms(3) by (simp only: feed_ok_def)
  ultimately have "distinct (map rc_attempt_id (st_receipts st' @ map fst feed))"
    by (metis mset_eq_imp_distinct_iff mset_map)
  moreover have "st_results st' @ map snd feed = st_results st @ map snd ((r, s) # feed)" by (simp add: st' results)
  ultimately show "feed_ok I rule asset source st' feed"
    using assms(3) unfolding feed_ok_def by simp
  show "mirrors I ?str (st_candidates st') sim'"
    using step(1) by (simp add: mirrors_def str st' recorded_state_def)
  show "sm_confirmations sim' = streak_of (st_results st')" "sm_latest_period sim' = last_period (st_results st')"
    using step(2) conf by (simp_all add: st' results)
  show "ro_candidates_created out = of_bool opened" "ro_candidates_resolved out = of_bool resolved"
    using step(2) by (simp_all add: out initial_lifecycle_def)
qed

lemma simulate_flags: "simulate_step rule s sim = (sim', opened, resolved) \<Longrightarrow> \<not> (opened \<and> resolved)"
  by (auto simp: simulate_step_def Let_def split: if_splits)

lemma record_all_mirrors:
  assumes "record_all I st feed = Inr outs" and "valid_state I st" and "feed_ok I rule asset source st feed"
    and "0 \<le> r_cooldown_seconds rule"
    and "mirrors I (rule_fingerprint I rule, asset, source) (st_candidates st) sim"
    and "sm_confirmations sim = streak_of (st_results st)" and "sm_latest_period sim = last_period (st_results st)"
  shows "\<exists>es. simulate_results rule sim (map snd feed) = Inr es \<and> map be_result es = map snd feed \<and>
    map (\<lambda>out. (ro_candidates_created out, ro_candidates_resolved out)) outs =
      map (\<lambda>e. (of_bool (be_opened e), of_bool (be_resolved e))) es"
  using assms
proof (induction feed arbitrary: st sim outs)
  case (Cons rs feed)
  obtain r s where rs: "rs = (r, s)" by (cases rs)
  obtain out st' js outs' where rec: "record_attempt I st r [s] = Inr (out, st', js)"
      and rest: "record_all I st' feed = Inr outs'" and outs: "outs = out # outs'"
    using Cons.prems(1) by (auto simp: rs bind_r_eq_Inr)
  obtain sim' opened resolved where sim: "simulate_step rule s sim = (sim', opened, resolved)"
    by (cases "simulate_step rule s sim")
  note step = recorded_step [OF rec Cons.prems(2) Cons.prems(3) [unfolded rs] Cons.prems(4-7) sim]
  from Cons.IH [OF rest step(1,2) Cons.prems(4) step(3-5)] obtain es where
      "simulate_results rule sim' (map snd feed) = Inr es" "map be_result es = map snd feed"
      "map (\<lambda>out. (ro_candidates_created out, ro_candidates_resolved out)) outs' =
        map (\<lambda>e. (of_bool (be_opened e), of_bool (be_resolved e))) es" by blast
  with sim simulate_flags [OF sim] step(6,7) show ?case
    by (auto simp: rs outs validate_lifecycle_flags_def)
qed simp

text \<open>
  Property C2. The backtest tells what the store would do with the stream it replays: where the
  store, empty at first, records the results one by one, each processed at its cut, it opens and
  resolves a candidate at exactly the results where the simulation does. The results are of one
  rule, asset and source, each with evidence, at strictly increasing cuts and non-decreasing
  periods, and no period turns from not matched to matched; the cooldown is not negative, attempts
  and results are fresh, and the candidate identities do not collide. The last section shows what
  happens without the two restrictions on periods and evidence.
\<close>
theorem backtest_agrees_with_store:
  assumes "record_all I empty_state feed = Inr outs" and "feed_ok I rule asset source empty_state feed"
    and "0 \<le> r_cooldown_seconds rule"
  shows "\<exists>es. simulate_lifecycle rule (map snd feed) = Inr es \<and> map be_result es = map snd feed \<and>
    map (\<lambda>out. (ro_candidates_created out, ro_candidates_resolved out)) outs =
      map (\<lambda>e. (of_bool (be_opened e), of_bool (be_resolved e))) es"
  unfolding simulate_lifecycle_def
  by (rule record_all_mirrors [OF assms(1) valid_empty assms(2,3)])
     (simp_all add: mirrors_def no_candidate_def empty_state_def streak_of_def last_period_def)

text \<open>The sample stream: a result that opens a candidate and, a period later, one that resolves it.\<close>

definition sample_fall :: screening_result where
  "sample_fall = assemble_result sample_state_ids
     (sample_request\<lparr>q_known_at := 140, q_computed_at := 150,
        q_metrics := [sample_metric\<lparr>m_as_of := 110, m_value := Decimal False 60 0\<rparr>]\<rparr>)
     [evaluated_result sample_condition (sample_metric\<lparr>m_as_of := 110, m_value := Decimal False 60 0\<rparr>)]"

lemma sample_fall_simps [simp]:
  "s_result_id sample_fall = 140" "s_known_at sample_fall = 140" "s_as_of sample_fall = Some 110"
  "\<not> s_matched sample_fall" "s_retained sample_fall = Some False"
  "s_rule sample_fall = sample_rule" "s_asset_id sample_fall = ''equity:us:aapl''"
  "s_source_id sample_fall = ''alpaca''"
  by (simp_all add: sample_fall_def assemble_result_def Let_def analytical_screening_result_id_def
      sample_state_ids_def sample_defs evaluated_result_def state_of_def dec_le_def all_met_def
      retained_of_def rule_enabled_def retention_threshold_def)

abbreviation sample_cut_receipt :: monitor_receipt where
  "sample_cut_receipt \<equiv> sample_receipt\<lparr>rc_processed_at := 130\<rparr>"

abbreviation sample_fall_receipt :: monitor_receipt where
  "sample_fall_receipt \<equiv> sample_receipt\<lparr>rc_attempt_id := 2, rc_processed_at := 140, rc_result_ids := [140]\<rparr>"

abbreviation sample_feed :: "(monitor_receipt \<times> screening_result) list" where
  "sample_feed \<equiv> [(sample_cut_receipt, sample_at 0), (sample_fall_receipt, sample_fall)]"

lemma sample_resolutions:
  assumes "ids = {1130} \<or> ids = {1140, 1130}" and "p = 130 \<or> p = 140"
  shows "inj_on (uuid_transition sample_state_ids) (resolution_payloads p ids)"
  using assms
  by (auto simp: inj_on_def resolution_payloads_def sample_state_ids_def split: candidate_status.splits)

lemma sample_cut_recorded:
  "\<exists>out lc js. record_attempt sample_state_ids empty_state sample_cut_receipt [sample_at 0] =
     Inr (out, recorded_state empty_state sample_cut_receipt [sample_at 0] lc, js) \<and>
     lc_transitions lc = [] \<and> length (dict_values (lc_candidates lc)) = 1"
proof -
  have "recordable sample_state_ids empty_state sample_cut_receipt [sample_at 0]"
    by (simp add: recordable_def sample_receipt_def empty_state_def step_inputs_ok_def sample_count
        MAX_STATE_RECORDS_def) (simp add: sample_rule_def)
  moreover have "collision_free sample_state_ids empty_state sample_cut_receipt [sample_at 0]"
    using sample_resolutions [of "{1130}" 130]
    by (simp add: collision_free_def empty_state_def sample_receipt_def) (simp add: sample_state_ids_def)
  ultimately obtain lc where
      steps: "lifecycle_steps sample_state_ids (rc_processed_at sample_cut_receipt) (st_results empty_state @ [sample_at 0])
        (sort_key result_order [sample_at 0]) (initial_lifecycle empty_state) = Inr lc"
    and rec: "record_attempt sample_state_ids empty_state sample_cut_receipt [sample_at 0] = Inr
        (\<lparr>ro_receipt_created = True, ro_results_created = length [sample_at 0],
           ro_candidates_created = length (lc_created lc), ro_candidates_resolved = lc_resolved lc\<rparr>,
         recorded_state empty_state sample_cut_receipt [sample_at 0] lc,
         map ResultRecord [sample_at 0] @ map CandidateRecord (lc_created lc) @
           map TransitionRecord (lc_transitions lc) @ [ReceiptRecord sample_cut_receipt])"
    by (rule recordable_succeeds [OF valid_empty])
  have lc: "lifecycle_step sample_state_ids 130 [sample_at 0] (sample_at 0) (initial_lifecycle empty_state) = Inr lc"
    using steps by (simp add: empty_state_def bind_r_eq_Inr)
  have "open_of sample_state_ids (sample_at 0) (initial_lifecycle empty_state) = []"
    "may_open sample_state_ids 130 [sample_at 0] (sample_at 0) (initial_lifecycle empty_state)"
    by (simp_all add: open_of_def may_open_def initial_lifecycle_def empty_state_def dict_values_def
        dict_by_def sample_count) (simp add: sample_rule_def)
  with lc obtain e where "lc = opened_lifecycle e (initial_lifecycle empty_state)"
    by (auto simp: lifecycle_step_unfold Let_def bind_r_eq_Inr initial_lifecycle_def empty_state_def dict_by_def)
  then have "lc_transitions lc = []" "length (dict_values (lc_candidates lc)) = 1"
    by (simp_all add: opened_lifecycle_def initial_lifecycle_def empty_state_def dict_by_def dict_values_def)
  with rec show ?thesis by blast
qed

lemma sample_feed_recorded: "\<exists>outs. record_all sample_state_ids empty_state sample_feed = Inr outs"
proof -
  obtain out lc js where rec: "record_attempt sample_state_ids empty_state sample_cut_receipt [sample_at 0] =
      Inr (out, recorded_state empty_state sample_cut_receipt [sample_at 0] lc, js)"
    and lc: "lc_transitions lc = []" "length (dict_values (lc_candidates lc)) = 1"
    using sample_cut_recorded by blast
  let ?st = "recorded_state empty_state sample_cut_receipt [sample_at 0] lc"
  have st: "st_results ?st = [sample_at 0]" "st_receipts ?st = [sample_cut_receipt]" "st_transitions ?st = []"
      "length (st_candidates ?st) = 1"
    by (simp_all add: recorded_state_def empty_state_def lc)
  have count: "confirmation_count sample_state_ids [sample_at 0, sample_fall] sample_fall = 0"
    by (simp add: confirmation_count_def sorted_reverse_def result_order_def)
  have "recordable sample_state_ids ?st sample_fall_receipt [sample_fall]"
    by (simp add: recordable_def st step_inputs_ok_def count) (simp add: sample_receipt_def sample_rule_def MAX_STATE_RECORDS_def)
  moreover have "collision_free sample_state_ids ?st sample_fall_receipt [sample_fall]"
    using sample_resolutions [of "{1140, 1130}" 140]
    by (simp add: collision_free_def st) (simp add: sample_state_ids_def)
  ultimately obtain out' st' js' where
      "record_attempt sample_state_ids ?st sample_fall_receipt [sample_fall] = Inr (out', st', js')"
    by (rule recordable_succeeds [OF valid_state_recorded [OF valid_empty rec]])
  with rec show ?thesis by simp
qed

theorem backtest_agrees_with_store_witness:
  "\<exists>outs es. record_all sample_state_ids empty_state sample_feed = Inr outs \<and>
     simulate_lifecycle sample_rule [sample_at 0, sample_fall] = Inr es \<and>
     map be_opened es = [True, False] \<and> map be_resolved es = [False, True] \<and>
     map ro_candidates_created outs = [1, 0] \<and> map ro_candidates_resolved outs = [0, 1]"
proof -
  obtain outs where outs: "record_all sample_state_ids empty_state sample_feed = Inr outs"
    using sample_feed_recorded by blast
  have "follows (sample_at 0) sample_fall" by (simp add: follows_def)
  moreover have "inj_on (uuid_candidate sample_state_ids) {130, 140}"
    by (simp add: sample_state_ids_def)
  ultimately have "feed_ok sample_state_ids sample_rule ''equity:us:aapl'' ''alpaca'' empty_state sample_feed"
    by (simp add: feed_ok_def one_stream_def empty_state_def) (simp add: sample_receipt_def)
  from backtest_agrees_with_store [OF outs this] obtain es where
      es: "simulate_lifecycle sample_rule [sample_at 0, sample_fall] = Inr es"
      "map (\<lambda>out. (ro_candidates_created out, ro_candidates_resolved out)) outs =
        map (\<lambda>e. (of_bool (be_opened e), of_bool (be_resolved e))) es"
    by (auto simp: sample_rule_def)
  moreover have "simulate_lifecycle sample_rule [sample_at 0, sample_fall] =
      Inr [\<lparr>be_result = sample_at 0, be_opened = True, be_resolved = False\<rparr>,
           \<lparr>be_result = sample_fall, be_opened = False, be_resolved = True\<rparr>]"
    by (simp add: simulate_lifecycle_def simulate_step_def confirm_def no_candidate_def validate_lifecycle_flags_def)
       (simp add: sample_rule_def)
  ultimately show ?thesis using outs by (auto simp: map_eq_Cons_conv)
qed

section \<open>Where they differ\<close>

text \<open>
  A period that first does not match and then, revised, does: the store counts the newest result
  of every period, so the two periods confirm the rule and a candidate may open; the backtest has
  dropped the first confirmation at the unmatched result and opens nothing.
\<close>
lemma backtest_misses_regained_period:
  assumes "\<forall>x \<in> {a, b, c}. s_rule x = rule \<and> s_asset_id x = asset \<and> s_source_id x = source"
    and "s_as_of a = Some p" "s_as_of b = Some q" "s_as_of c = Some q" "p < q"
    and "s_known_at a < s_known_at b" "s_known_at b < s_known_at c"
    and "s_matched a" "\<not> s_matched b" "s_matched c" "s_activated a" "s_activated c" "\<not> s_activated b"
    and "r_confirmations_required rule = 2"
  shows "confirmation_count I [a, b, c] c = 2"
    and "may_open I (s_known_at c) [a, b, c] c (initial_lifecycle empty_state)"
    and "\<exists>es. simulate_lifecycle rule [a, b, c] = Inr es \<and> list_all (\<lambda>e. \<not> be_opened e) es"
proof -
  have strict: "sorted_wrt (\<lambda>a b. result_order a < result_order b) [a, b, c]"
    using assms by (simp add: result_order_def less_prod_def)
  have "\<forall>x \<in> set [a, b, c]. result_stream I x = result_stream I c \<and> s_known_at x \<le> s_known_at c \<and> s_as_of x \<noteq> None"
    using assms by (auto simp: result_stream_def)
  from filter_True [OF this] strict_sort_rev [OF strict] have "stream_results I [a, b, c] c = rev [a, b, c]"
    unfolding stream_results_def sorted_reverse_def by (simp only:)
  then show count: "confirmation_count I [a, b, c] c = 2"
    using assms by (simp add: confirmation_count_spec)
  show "may_open I (s_known_at c) [a, b, c] c (initial_lifecycle empty_state)"
    using assms by (simp add: may_open_def count initial_lifecycle_def empty_state_def dict_values_def dict_by_def)
  show "\<exists>es. simulate_lifecycle rule [a, b, c] = Inr es \<and> list_all (\<lambda>e. \<not> be_opened e) es"
    using assms by (simp add: simulate_lifecycle_def simulate_step_def confirm_def no_candidate_def validate_lifecycle_flags_def Let_def)
qed

text \<open>
  A result without evidence between two matched periods: the store leaves it out of its count, so
  the two periods confirm the rule; the backtest counts it as a result that does not match.
\<close>
lemma backtest_resets_without_evidence:
  assumes "\<forall>x \<in> {a, b, c}. s_rule x = rule \<and> s_asset_id x = asset \<and> s_source_id x = source"
    and "s_as_of a = Some p" "s_as_of b = None" "s_as_of c = Some q" "p < q"
    and "s_known_at a < s_known_at b" "s_known_at b < s_known_at c"
    and "s_matched a" "\<not> s_matched b" "s_matched c" "s_activated a" "s_activated c" "\<not> s_activated b"
    and "r_confirmations_required rule = 2"
  shows "confirmation_count I [a, b, c] c = 2"
    and "may_open I (s_known_at c) [a, b, c] c (initial_lifecycle empty_state)"
    and "\<exists>es. simulate_lifecycle rule [a, b, c] = Inr es \<and> list_all (\<lambda>e. \<not> be_opened e) es"
proof -
  let ?in = "\<lambda>x. result_stream I x = result_stream I c \<and> s_known_at x \<le> s_known_at c \<and> s_as_of x \<noteq> None"
  have strict: "sorted_wrt (\<lambda>a b. result_order a < result_order b) [a, c]"
    using assms by (simp add: result_order_def less_prod_def)
  have "filter ?in [a, b, c] = [a, c]" using assms by (auto simp: result_stream_def)
  with strict_sort_rev [OF strict] have "stream_results I [a, b, c] c = [c, a]"
    unfolding stream_results_def sorted_reverse_def by (simp only: rev.simps append.simps)
  then show count: "confirmation_count I [a, b, c] c = 2"
    using assms by (simp add: confirmation_count_spec)
  show "may_open I (s_known_at c) [a, b, c] c (initial_lifecycle empty_state)"
    using assms by (simp add: may_open_def count initial_lifecycle_def empty_state_def dict_values_def dict_by_def)
  show "\<exists>es. simulate_lifecycle rule [a, b, c] = Inr es \<and> list_all (\<lambda>e. \<not> be_opened e) es"
    using assms by (simp add: simulate_lifecycle_def simulate_step_def confirm_def no_candidate_def validate_lifecycle_flags_def Let_def)
qed

end
