(* ===== verification/AssetCatalogProperties.thy ===== *)
theory AssetCatalogProperties
  imports AssetCatalog
begin

text \<open>
  The asset catalogue: a document that parses gives a service in which every asset is found under
  its identifier and every unique provider binding names exactly its asset, and the unit revision
  selected is the one in force.
\<close>

section \<open>Owners of a binding\<close>

abbreviation row_identity :: "catalog_asset \<times> provider_binding \<Rightarrow> binding_identity" where
  "row_identity r \<equiv> binding_identity_of (snd r)"

abbreviation row_key :: "catalog_asset \<times> provider_binding \<Rightarrow> string \<times> binding_identity" where
  "row_key r \<equiv> (ca_asset_id (fst r), row_identity r)"

lemma check_owners_after:
  assumes "check_owners rows owners = Inr ()" and "dict_get owners i = Some (owner, True)"
    and "(owner, i) \<notin> row_key ` set rows"
  shows "i \<notin> row_identity ` set rows"
  using assms
proof (induction rows owners rule: check_owners.induct)
  case (2 a b rest owners)
  then show ?case by (cases "binding_identity_of b = i") (auto split: if_splits)
qed simp

lemma check_owners_before:
  assumes "check_owners (rows @ (a, b) # rest) owners = Inr ()" and "pb_is_unique b"
    and "dict_get owners (binding_identity_of b) = Some (owner, u)" and "owner \<noteq> ca_asset_id a"
    and "row_key (a, b) \<notin> row_key ` set rows"
  shows False
  using assms
proof (induction rows arbitrary: owners owner u)
  case (Cons r rows)
  obtain a' b' where r: "r = (a', b')" by (cases r)
  let ?owners = "dict_set owners (binding_identity_of b') (ca_asset_id a', pb_is_unique b')"
  have rest: "check_owners (rows @ (a, b) # rest) ?owners = Inr ()"
    using Cons.prems(1) by (simp add: r split: if_splits)
  show ?case
  proof (cases "binding_identity_of b' = binding_identity_of b")
    case True
    then have "ca_asset_id a' \<noteq> ca_asset_id a" using Cons.prems(5) by (auto simp: r)
    with True Cons.IH [OF rest Cons.prems(2), of "ca_asset_id a'" "pb_is_unique b'"] Cons.prems(5)
    show ?thesis by simp
  next
    case False
    with Cons.IH [OF rest Cons.prems(2), of owner u] Cons.prems(3-5) show ?thesis by simp
  qed
qed (simp split: if_splits)

lemma check_owners_split:
  assumes "check_owners (rows @ rest) owners = Inr ()"
  obtains owners' where "check_owners rest owners' = Inr ()"
  using assms
proof (induction rows arbitrary: owners)
  case (Cons r rows)
  then show ?case by (cases r) (auto split: if_splits)
qed auto

lemma unique_owner:
  assumes "check_owners (xs @ (a, b) # ys) [] = Inr ()" and "pb_is_unique b"
    and "distinct (map row_key (xs @ (a, b) # ys))"
  shows "filter (\<lambda>r. row_identity r = binding_identity_of b) (xs @ (a, b) # ys) = [(a, b)]"
proof -
  let ?i = "binding_identity_of b"
  have after: "?i \<notin> row_identity ` set ys"
  proof -
    obtain owners where "check_owners ((a, b) # ys) owners = Inr ()"
      by (rule check_owners_split [OF assms(1)])
    then have "check_owners ys (dict_set owners ?i (ca_asset_id a, True)) = Inr ()"
      using assms(2) by (simp split: if_splits)
    from check_owners_after [OF this, of ?i "ca_asset_id a"] assms(3) show ?thesis by auto
  qed
  have before: "?i \<notin> row_identity ` set xs"
  proof
    assume "?i \<in> row_identity ` set xs"
    then obtain a' b' where r: "(a', b') \<in> set xs" "binding_identity_of b' = ?i" by auto
    from split_list [OF r(1)] obtain us vs where xs: "xs = us @ (a', b') # vs" by blast
    have "check_owners (us @ (a', b') # vs @ (a, b) # ys) [] = Inr ()" using assms(1) by (simp add: xs)
    then obtain owners where "check_owners ((a', b') # vs @ (a, b) # ys) owners = Inr ()"
      by (rule check_owners_split)
    then have "check_owners (vs @ (a, b) # ys) (dict_set owners ?i (ca_asset_id a', pb_is_unique b')) = Inr ()"
      using r(2) by (simp split: if_splits)
    moreover have "ca_asset_id a' \<noteq> ca_asset_id a" using assms(3) r(2) by (auto simp: xs)
    moreover have "row_key (a, b) \<notin> row_key ` set vs" using assms(3) by (auto simp: xs)
    ultimately show False using check_owners_before [of vs a b ys] assms(2) by fastforce
  qed
  have "filter (\<lambda>r. row_identity r = ?i) xs = []" "filter (\<lambda>r. row_identity r = ?i) ys = []"
    using before after by (force simp: filter_empty_conv)+
  then show ?thesis by simp
qed

section \<open>Grouping\<close>

lemma group_append_get:
  "dict_get (fold group_append rows d) k =
     (case map snd (filter (\<lambda>r. fst r = k) rows) of
        [] \<Rightarrow> dict_get d k
      | v # vs \<Rightarrow> Some ((case dict_get d k of None \<Rightarrow> [] | Some ws \<Rightarrow> ws) @ v # vs))"
proof (induction rows arbitrary: d)
  case (Cons r rows)
  then show ?case by (simp add: group_append_def split: list.splits option.splits)
qed simp

lemma dict_get_map_values: "dict_get (map (\<lambda>(k, v). (k, f v)) d) k = map_option f (dict_get d k)"
  by (induction d) (auto simp: dict_get_def)

lemma group_assets_get:
  "dict_get (group_assets rows) k =
     (case map snd (filter (\<lambda>r. fst r = k) rows) of [] \<Rightarrow> None | v # vs \<Rightarrow> Some (sort_key ca_asset_id (v # vs)))"
  by (simp add: group_assets_def dict_get_map_values group_append_get split: list.split)

section \<open>Documents that parse\<close>

definition asset_ok :: "(string \<Rightarrow> string) \<Rightarrow> catalog_asset \<Rightarrow> bool" where
  \<comment> \<open>what the validators leave of an asset's bindings\<close>
  "asset_ok casefold a \<longleftrightarrow> distinct (map binding_identity_of (ca_provider_bindings a)) \<and>
     (\<forall>b \<in> set (ca_provider_bindings a). slug_ok (pb_provider b) \<and> slug_ok (pb_namespace b) \<and>
        pb_identifier b \<noteq> [] \<and> pb_identifier b = py_strip (pb_identifier b))"

lemma validate_binding_ok: "validate_binding casefold b0 = Inr b \<Longrightarrow>
    slug_ok (pb_provider b) \<and> slug_ok (pb_namespace b) \<and> pb_identifier b \<noteq> [] \<and>
    pb_identifier b = py_strip (pb_identifier b)"
  by (auto simp: validate_binding_def Let_def bind_r_eq_Inr split: if_splits)

lemma traverse_range: "traverse f xs = Inr ys \<Longrightarrow> \<forall>y \<in> set ys. \<exists>x \<in> set xs. f x = Inr y"
proof (induction xs arbitrary: ys)
  case (Cons x xs)
  then obtain z zs where "f x = Inr z" "traverse f xs = Inr zs" "ys = z # zs" by (auto simp: bind_r_eq_Inr)
  with Cons.IH [of zs] show ?case by simp
qed simp

lemma validate_bindings_ok: "validate_bindings bs = Inr r \<Longrightarrow> distinct (map binding_identity_of bs)"
  by (simp add: validate_bindings_def Let_def split: if_splits)

lemma validate_crypto_profile_eq: "validate_crypto_profile a = Inr r \<Longrightarrow> r = a"
  unfolding validate_crypto_profile_def Let_def by (simp split: if_splits)

lemma validate_asset_ok:
  assumes "validate_asset casefold digest a0 = Inr a"
  shows "asset_ok casefold a"
proof -
  from assms obtain bindings revisions r where b: "traverse (validate_binding casefold) (ca_provider_bindings a0) = Inr bindings"
      and v: "validate_bindings bindings = Inr r"
      and p: "validate_crypto_profile (a0\<lparr>ca_provider_bindings := bindings, ca_unit_revisions := revisions\<rparr>) = Inr a"
    by (simp only: validate_asset_def bind_r_eq_Inr split: if_splits) blast
  have a: "a = a0\<lparr>ca_provider_bindings := bindings, ca_unit_revisions := revisions\<rparr>"
    by (rule validate_crypto_profile_eq [OF p])
  have "\<forall>y \<in> set bindings. slug_ok (pb_provider y) \<and> slug_ok (pb_namespace y) \<and> pb_identifier y \<noteq> [] \<and>
      pb_identifier y = py_strip (pb_identifier y)"
    using traverse_range [OF b] validate_binding_ok by blast
  with validate_bindings_ok [OF v] show ?thesis by (simp add: asset_ok_def a)
qed

lemma parse_document_ok:
  assumes "parse_document casefold digest payload = Inr d"
  shows "(\<forall>a \<in> set (cd_assets d). asset_ok casefold a) \<and> distinct (map ca_asset_id (cd_assets d)) \<and>
    check_owners (binding_rows (cd_assets d)) [] = Inr ()"
proof -
  from assms obtain raw assets where t: "traverse (validate_asset casefold digest) (cd_assets raw) = Inr assets"
      and v: "validate_catalog_document (raw\<lparr>cd_assets := assets\<rparr>) = Inr d"
    by (auto simp: parse_document_def bind_r_eq_Inr split: option.splits sum.splits py_error.splits if_splits)
  from v have d: "d = raw\<lparr>cd_assets := assets\<rparr>" "distinct (map ca_asset_id assets)"
      "check_owners (binding_rows assets) [] = Inr ()"
    by (auto simp: validate_catalog_document_def Let_def bind_r_eq_Inr split: if_splits)
  have "\<forall>a \<in> set assets. asset_ok casefold a"
    using traverse_range [OF t] validate_asset_ok by blast
  with d show ?thesis by simp
qed

lemma binding_rows_distinct:
  assumes "\<forall>a \<in> set assets. asset_ok casefold a" and "distinct (map ca_asset_id assets)"
  shows "distinct (map row_key (binding_rows assets))"
  using assms
proof (induction assets)
  case (Cons a assets)
  have "inj_on (Pair (ca_asset_id a)) X" for X :: "binding_identity set" by (rule inj_onI) simp
  moreover have "distinct (map binding_identity_of (ca_provider_bindings a))"
    using Cons.prems(1) by (simp add: asset_ok_def)
  ultimately have "distinct (map (\<lambda>b. (ca_asset_id a, binding_identity_of b)) (ca_provider_bindings a))"
    by (simp add: distinct_map comp_def inj_on_def)
  with Cons show ?case by (auto simp: binding_rows_def comp_def)
qed (simp add: binding_rows_def)

lemma slug_not_empty: "slug_ok s \<Longrightarrow> s \<noteq> []"
  by (auto simp: slug_ok_def)

section \<open>Look-ups\<close>

text \<open>
  Property C35. A unique provider binding names one asset: in the service built on a document that
  parses, resolving the provider, the namespace and the exact identifier of a binding marked
  unique gives the asset that declares it, never an ambiguity, however the provider and the
  namespace are spaced or cased.
\<close>
theorem unique_binding_resolves:
  assumes "parse_document casefold digest payload = Inr d"
    and "new_catalog_service casefold document_digest d = Inr sv"
    and "a \<in> set (cd_assets d)" and "b \<in> set (ca_provider_bindings a)" and "pb_is_unique b"
    and "casefold (py_strip provider) = pb_provider b" and "casefold (py_strip namespace) = pb_namespace b"
  shows "resolve_external casefold sv provider namespace (pb_identifier b) = Inr a"
proof -
  let ?rows = "binding_rows (cd_assets d)" and ?i = "binding_identity_of b"
  note ok = parse_document_ok [OF assms(1)]
  have "(a, b) \<in> set ?rows" using assms(3,4) by (auto simp: binding_rows_def)
  from split_list [OF this] obtain xs ys where rows: "?rows = xs @ (a, b) # ys" by blast
  have one: "filter (\<lambda>r. row_identity r = ?i) ?rows = [(a, b)]"
    using unique_owner [of xs a b ys] ok binding_rows_distinct [of "cd_assets d" casefold] assms(5)
    by (simp add: rows)
  have "filter (\<lambda>r. fst r = ?i) (map (\<lambda>(a, b). (binding_identity_of b, a)) ?rows) =
      map (\<lambda>(a, b). (binding_identity_of b, a)) (filter (\<lambda>r. row_identity r = ?i) ?rows)"
    by (simp add: filter_map comp_def case_prod_unfold)
  then have "dict_get (sv_external sv) ?i = Some [a]"
    using assms(2) by (auto simp: new_catalog_service_def bind_r_eq_Inr group_assets_get one)
  moreover have "pb_identifier b \<noteq> [] \<and> pb_identifier b = py_strip (pb_identifier b)"
      "pb_provider b \<noteq> []" "pb_namespace b \<noteq> []"
    using ok assms(3,4) slug_not_empty by (auto simp: asset_ok_def)
  ultimately show ?thesis
    using assms(6,7)
    by (simp add: resolve_external_def normalized_slug_def exact_identifier_def only_candidate_def binding_identity_of_def)
qed

text \<open>
  Every asset of the document is found under its identifier, and nothing else is.
\<close>
lemma catalog_get_iff:
  assumes "distinct (map ca_asset_id (cd_assets d))" and "new_catalog_service casefold document_digest d = Inr sv"
  shows "catalog_get sv asset_id = Inr a \<longleftrightarrow> a \<in> set (cd_assets d) \<and> ca_asset_id a = py_strip asset_id"
proof -
  have "sv_assets_by_id sv = map (\<lambda>a. (ca_asset_id a, a)) (cd_assets d)"
    using assms by (auto simp: new_catalog_service_def bind_r_eq_Inr dict_by_distinct)
  moreover have "distinct (map fst (map (\<lambda>a. (ca_asset_id a, a)) (cd_assets d)))"
    using assms(1) by (simp add: comp_def)
  ultimately have "dict_get (sv_assets_by_id sv) (py_strip asset_id) = Some a \<longleftrightarrow>
      (py_strip asset_id, a) \<in> set (map (\<lambda>a. (ca_asset_id a, a)) (cd_assets d))"
    unfolding dict_get_def by (simp only: map_of_eq_Some_iff)
  then show ?thesis
    by (cases "dict_get (sv_assets_by_id sv) (py_strip asset_id)") (auto simp: catalog_get_def image_iff)
qed

section \<open>The unit revision in force\<close>

definition latest_of :: "unit_revision list \<Rightarrow> unit_revision \<Rightarrow> bool" where
  "latest_of items r \<longleftrightarrow> r \<in> set items \<and>
     (\<forall>x \<in> set items. ub_valid_from x = ub_valid_from r \<longrightarrow> ub_available_at x < ub_available_at r \<or>
        ub_available_at x = ub_available_at r \<and> ub_revision x = ub_revision r)"

lemma latest_of_snoc: "ub_valid_from x \<noteq> ub_valid_from r \<Longrightarrow> latest_of items r \<Longrightarrow> latest_of (items @ [x]) r"
  by (simp add: latest_of_def)

definition supersedes :: "unit_revision list \<Rightarrow> (date, unit_revision) dict \<Rightarrow> bool" where
  \<comment> \<open>every start has an entry, a latest of its items\<close>
  "supersedes items latest \<longleftrightarrow>
     (\<forall>s. case dict_get latest s of
            None \<Rightarrow> \<forall>x \<in> set items. ub_valid_from x \<noteq> s
          | Some r \<Rightarrow> ub_valid_from r = s \<and> latest_of items r)"

lemma supersedes_set:
  assumes "supersedes seen latest" and "latest_of (seen @ [item]) item"
  shows "supersedes (seen @ [item]) (dict_set latest (ub_valid_from item) item)"
  unfolding supersedes_def
proof
  fix s
  show "case dict_get (dict_set latest (ub_valid_from item) item) s of
      None \<Rightarrow> \<forall>x \<in> set (seen @ [item]). ub_valid_from x \<noteq> s
    | Some r \<Rightarrow> ub_valid_from r = s \<and> latest_of (seen @ [item]) r"
  proof (cases "s = ub_valid_from item")
    case False
    show ?thesis
    proof (cases "dict_get latest s")
      case None
      then show ?thesis using assms(1) [unfolded supersedes_def, rule_format, of s] False by simp
    next
      case (Some r)
      then have r: "ub_valid_from r = s" "latest_of seen r"
        using assms(1) [unfolded supersedes_def, rule_format, of s] by simp_all
      then have "latest_of (seen @ [item]) r" using False latest_of_snoc by metis
      with r(1) Some False show ?thesis by simp
    qed
  qed (simp add: assms(2))
qed

lemma supersedes_keep:
  assumes "supersedes seen latest" and "dict_get latest (ub_valid_from item) = Some r" and "latest_of (seen @ [item]) r"
  shows "supersedes (seen @ [item]) latest"
  unfolding supersedes_def
proof
  fix s
  show "case dict_get latest s of
      None \<Rightarrow> \<forall>x \<in> set (seen @ [item]). ub_valid_from x \<noteq> s
    | Some r \<Rightarrow> ub_valid_from r = s \<and> latest_of (seen @ [item]) r"
  proof (cases "s = ub_valid_from item")
    case True
    then show ?thesis using assms(1) [unfolded supersedes_def, rule_format, of s] assms(2,3) by simp
  next
    case False
    show ?thesis
    proof (cases "dict_get latest s")
      case None
      then show ?thesis using assms(1) [unfolded supersedes_def, rule_format, of s] False by simp
    next
      case (Some r')
      then have r: "ub_valid_from r' = s" "latest_of seen r'"
        using assms(1) [unfolded supersedes_def, rule_format, of s] by simp_all
      then have "latest_of (seen @ [item]) r'" using False latest_of_snoc by metis
      with r(1) Some show ?thesis by simp
    qed
  qed
qed

lemma latest_by_start_supersedes:
  assumes "latest_by_start items latest = Inr latest'" and "supersedes seen latest"
  shows "supersedes (seen @ items) latest'"
  using assms
proof (induction items arbitrary: seen latest)
  case (Cons item items)
  let ?s = "ub_valid_from item"
  note sup = Cons.prems(2) [unfolded supersedes_def, rule_format, of ?s]
  show ?case
  proof (cases "dict_get latest ?s")
    case None
    then have "latest_of (seen @ [item]) item" using sup by (auto simp: latest_of_def)
    from Cons.IH [OF _ supersedes_set [OF Cons.prems(2) this]] Cons.prems(1) None show ?thesis by simp
  next
    case (Some current)
    then have cur: "ub_valid_from current = ?s" "latest_of seen current" using sup by simp_all
    show ?thesis
    proof (cases "ub_available_at current < ub_available_at item")
      case True
      with cur have "latest_of (seen @ [item]) item" by (fastforce simp: latest_of_def)
      from Cons.IH [OF _ supersedes_set [OF Cons.prems(2) this]] Cons.prems(1) Some True show ?thesis by simp
    next
      case False
      with Cons.prems(1) Some have eq: "ub_available_at item = ub_available_at current \<longrightarrow>
          ub_revision item = ub_revision current" and rest: "latest_by_start items latest = Inr latest'"
        by (auto split: if_splits)
      with cur False have "latest_of (seen @ [item]) current" by (auto simp: latest_of_def)
      from Cons.IH [OF rest supersedes_keep [OF Cons.prems(2) Some this]] show ?thesis by simp
    qed
  qed
qed simp

lemma latest_by_start_ok:
  assumes "latest_by_start items latest = Inr latest'" and "dict_ok latest"
  shows "dict_ok latest'"
  using assms
  by (induction items latest rule: latest_by_start.induct) (auto split: option.splits if_splits)

lemma superseded_elsewhere:
  assumes sup: "supersedes (filter (\<lambda>r. ub_available_at r \<le> known_at) revisions) latest"
    and vals: "\<And>x s. dict_get latest s = Some x \<Longrightarrow> x \<in> set (dict_values latest)"
    and only: "\<And>x. x \<in> set (dict_values latest) \<Longrightarrow> covers_date x d \<Longrightarrow> x = r"
    and x: "x \<in> set revisions" "ub_available_at x \<le> known_at" "ub_valid_from x \<noteq> ub_valid_from r"
  shows "\<exists>y \<in> set revisions. ub_available_at y \<le> known_at \<and> ub_valid_from y = ub_valid_from x \<and>
    ub_available_at x \<le> ub_available_at y \<and> \<not> covers_date y d"
proof -
  note at = sup [unfolded supersedes_def, rule_format, of "ub_valid_from x"]
  with x(1,2) obtain y where y: "dict_get latest (ub_valid_from x) = Some y"
    by (cases "dict_get latest (ub_valid_from x)") auto
  with at x(1,2) have ok: "ub_valid_from y = ub_valid_from x" "y \<in> set revisions" "ub_available_at y \<le> known_at"
      "ub_available_at x \<le> ub_available_at y"
    by (auto simp: latest_of_def)
  with x(3) only [OF vals [OF y]] have "\<not> covers_date y d" by auto
  with ok show ?thesis by blast
qed

text \<open>
  Property C36. The security unit revision in force: when the selection returns a revision, it is
  one of those published by the cut, its interval contains the valuation date, no published
  revision of the same start is newer or, published at the same time, different, and the revision
  in force from any other start does not contain the date.
\<close>
theorem selected_unit_revision:
  assumes "select_security_unit_basis_revision revisions known_at d = Inr (Some r)"
  shows "r \<in> set revisions \<and> ub_available_at r \<le> known_at \<and> covers_date r d \<and>
    (\<forall>x \<in> set revisions. ub_available_at x \<le> known_at \<and> ub_valid_from x = ub_valid_from r \<longrightarrow>
       ub_available_at x < ub_available_at r \<or>
       ub_available_at x = ub_available_at r \<and> ub_revision x = ub_revision r) \<and>
    (\<forall>x \<in> set revisions. ub_available_at x \<le> known_at \<and> ub_valid_from x \<noteq> ub_valid_from r \<and> covers_date x d \<longrightarrow>
       (\<exists>y \<in> set revisions. ub_available_at y \<le> known_at \<and> ub_valid_from y = ub_valid_from x \<and>
          ub_available_at x \<le> ub_available_at y \<and> \<not> covers_date y d))"
proof -
  let ?eligible = "filter (\<lambda>r. ub_available_at r \<le> known_at) revisions"
  let ?key = "\<lambda>r. (ub_valid_from r, ub_revision r)"
  from assms obtain latest where latest: "latest_by_start ?eligible [] = Inr latest"
      and sel: "(case sort_key ?key (filter (\<lambda>r. covers_date r d) (dict_values latest)) of
         [] \<Rightarrow> Inr None
       | r # rest \<Rightarrow> if rest \<noteq> [] then Inl (UnitBasisAmbiguityError
               ''security unit revision intervals overlap without a unique resolution'')
             else Inr (Some r)) = (Inr (Some r) :: unit_revision option result)"
    by (simp only: select_security_unit_basis_revision_def Let_def bind_r_eq_Inr split: if_splits) auto
  have one: "sort_key ?key (filter (\<lambda>r. covers_date r d) (dict_values latest)) = [r]"
    using sel by (simp split: list.splits if_splits)
  have "supersedes [] []" by (simp add: supersedes_def dict_get_def)
  from latest_by_start_supersedes [OF latest this] have sup: "supersedes ?eligible latest" by simp
  have get: "ub_valid_from x = s \<and> latest_of ?eligible x" if "dict_get latest s = Some x" for s x
    using sup [unfolded supersedes_def, rule_format, of s] that by simp
  have vals: "x \<in> set (dict_values latest) \<longleftrightarrow> (\<exists>s. dict_get latest s = Some x)" for x
    using latest_by_start_ok [OF latest dict_ok_Nil] unfolding dict_ok_def dict_get_def dict_values_def
    by (force simp: map_of_eq_Some_iff)
  have "set (filter (\<lambda>r. covers_date r d) (dict_values latest)) = {r}"
    using arg_cong [OF one, of set] by simp
  then have only: "x \<in> set (dict_values latest) \<and> covers_date x d \<longleftrightarrow> x = r" for x by auto
  then have r: "covers_date r d" "r \<in> set (dict_values latest)" by blast+
  then obtain s where "dict_get latest s = Some r" unfolding vals by blast
  note same = get [OF this]
  have in_values: "x \<in> set (dict_values latest)" if "dict_get latest s = Some x" for s x using vals that by blast
  have covering: "x = r" if "x \<in> set (dict_values latest)" "covers_date x d" for x using only that by blast
  note other = superseded_elsewhere [OF sup in_values covering]
  from same r(1) show ?thesis
    by (simp add: latest_of_def) (intro ballI impI, elim conjE, rule other, simp_all)
qed

text \<open>
  A tie between two published revisions raises although a newer one of the same start supersedes
  both, unless the newer one is met first: the outcome depends on the order of the revisions.
\<close>

definition sample_unit_revision :: unit_revision where
  "sample_unit_revision =
     \<lparr>ub_factor = Decimal False 4 0, ub_valid_from = 10, ub_valid_to = None, ub_available_at = 1, ub_cik = ''1'',
      ub_accession_number = ''1'', ub_source_url = ''u'', ub_source_sha256 = replicate 64 CHR ''0'', ub_revision = ''a''\<rparr>"

abbreviation sample_newer :: unit_revision where
  "sample_newer \<equiv> sample_unit_revision\<lparr>ub_available_at := 2, ub_revision := ''c''\<rparr>"

theorem selected_unit_revision_witness:
  "\<not> covers_date (sample_unit_revision\<lparr>ub_valid_to := Some 20\<rparr>) 30 \<and> ub_available_at sample_newer \<le> 5 \<and>
   covers_date sample_newer 30"
  using selected_unit_revision [of "[sample_unit_revision\<lparr>ub_valid_to := Some 20\<rparr>, sample_newer]" 5 30 sample_newer]
  by (simp add: select_security_unit_basis_revision_def sample_unit_revision_def covers_date_def dict_get_def dict_values_def)

lemma superseded_tie_depends_on_order:
  "select_security_unit_basis_revision
     [sample_unit_revision, sample_unit_revision\<lparr>ub_revision := ''b''\<rparr>, sample_newer] 5 30 =
     Inl (UnitBasisAmbiguityError ''equally available security unit revisions disagree semantically'') \<and>
   select_security_unit_basis_revision
     [sample_newer, sample_unit_revision, sample_unit_revision\<lparr>ub_revision := ''b''\<rparr>] 5 30 = Inr (Some sample_newer)"
  by (simp add: select_security_unit_basis_revision_def sample_unit_revision_def covers_date_def dict_get_def dict_values_def)

section \<open>A sample document\<close>

definition sample_binding :: provider_binding where
  "sample_binding =
     \<lparr>pb_provider = '' alpaca'', pb_namespace = ''us.equity'', pb_identifier = ''AAPL'', pb_is_unique = True,
      pb_capabilities = [''bars.daily'']\<rparr>"

definition sample_asset :: catalog_asset where
  "sample_asset =
     \<lparr>ca_asset_id = ''equity:us:aapl'', ca_symbol = ''AAPL'', ca_name = ''Apple'', ca_asset_class = EQUITY,
      ca_quote_currency = ''USD'', ca_exchange = None, ca_provider_symbols = [], ca_is_active = True,
      ca_aliases = [''aapl''], ca_provider_bindings = [sample_binding], ca_crypto_profile = None,
      ca_unit_factor = None, ca_unit_basis = None, ca_unit_basis_version = None,
      ca_unit_market_adjustment = False, ca_unit_revisions = []\<rparr>"

definition sample_other :: catalog_asset where
  "sample_other = sample_asset\<lparr>ca_asset_id := ''etf:us:spy'', ca_asset_class := ETF, ca_aliases := [''spy''],
     ca_provider_bindings := [sample_binding\<lparr>pb_identifier := ''SPY''\<rparr>]\<rparr>"

definition stripped :: "catalog_asset \<Rightarrow> catalog_asset" where
  "stripped a = a\<lparr>ca_provider_bindings := map (pb_provider_update py_strip) (ca_provider_bindings a)\<rparr>"

definition sample_document :: catalog_document where
  "sample_document = \<lparr>cd_version = 1, cd_assets = [stripped sample_asset, stripped sample_other]\<rparr>"

lemma sample_parses:
  "parse_document (\<lambda>s. s) ub_cik (Some \<lparr>cd_version = 1, cd_assets = [sample_asset, sample_other]\<rparr>) = Inr sample_document"
  by code_simp

definition sample_service :: catalog_service where
  "sample_service = \<lparr>sv_document = sample_document, sv_semantic_digest = ''d'',
     sv_assets_by_id = dict_by ca_asset_id (cd_assets sample_document),
     sv_aliases = [(''aapl'', [stripped sample_asset]), (''spy'', [stripped sample_other])],
     sv_external = [((''alpaca'', ''us.equity'', ''AAPL''), [stripped sample_asset]),
       ((''alpaca'', ''us.equity'', ''SPY''), [stripped sample_other])]\<rparr>"

lemma sample_serves: "new_catalog_service (\<lambda>s. s) (\<lambda>d. ''d'') sample_document = Inr sample_service"
  by code_simp

theorem unique_binding_resolves_witness:
  "resolve_external (\<lambda>s. s) sample_service ''alpaca '' ''us.equity'' ''AAPL'' = Inr (stripped sample_asset)"
proof -
  have "stripped sample_asset \<in> set (cd_assets sample_document)" by (simp add: sample_document_def)
  moreover have "pb_provider_update py_strip sample_binding \<in> set (ca_provider_bindings (stripped sample_asset))"
    by (simp add: stripped_def sample_asset_def)
  ultimately show ?thesis
    using unique_binding_resolves [OF sample_parses sample_serves, of "stripped sample_asset"
        "pb_provider_update py_strip sample_binding" "''alpaca ''" "''us.equity''"]
    by (simp add: sample_binding_def) (simp add: py_strip_def py_space_def)
qed

end
