(* ===== verification/BacktestProperties.thy ===== *)
theory BacktestProperties
  imports BacktestLifecycle AssetCatalogProperties
begin

text \<open>
  The backtest as a whole: no evaluation reads what became available after its cut, and a replay
  either returns a summary its own validator accepts, of at most the requested number of cuts in
  chronological order, or raises one of the documented errors.
\<close>

section \<open>Sample identities\<close>

definition sample_backtest_ids :: backtest_ids where
  "sample_backtest_ids =
     \<lparr>sha_rule = sha_rule sample_ids, sha_result = sha_result sample_ids, uuid_result = uuid_result sample_ids,
      uuid_revision = (\<lambda>a b t. 1), uuid_backtest = (\<lambda>p. 2)\<rparr>"

section \<open>Errors of the selector\<close>

fun backtest_error :: "py_error \<Rightarrow> bool" where
  "backtest_error (BacktestError m) = True"
| "backtest_error (BacktestUnavailableError m) = True"
| "backtest_error (BacktestAmbiguousSourceError m) = True"
| "backtest_error (MetricCutError m) = True"
| "backtest_error (AmbiguousMetricError m) = True"
| "backtest_error e = False"

lemma admissible_error: "admissible parse rule source_id known_at c m = Inl e \<Longrightarrow> backtest_error e"
  by (auto simp: admissible_def bind_r_eq_Inl metric_cut_eligibility_def Let_def require_absent_legacy_cut_parameter_def
      split: if_splits cut_identity_version.splits)

lemma filter_r_Inl: "filter_r p xs = Inl e \<Longrightarrow> \<exists>x \<in> set xs. p x = Inl e"
  by (induction xs) (auto simp: bind_r_eq_Inl split: if_splits)

lemma candidates_by_key_error:
  "candidates_by_key parse rule metrics source_id known_at cs d = Inl e \<Longrightarrow> backtest_error e"
proof (induction cs arbitrary: d)
  case (Cons c cs)
  then show ?case by (auto simp: bind_r_eq_Inl dest: filter_r_Inl admissible_error)
qed simp

lemma select_error:
  assumes "select parse rule metrics source_id (Aware w off) = Inl e"
    and "distinct (map c_metric_key (r_conditions rule))"
  shows "backtest_error e"
proof (cases "candidates_by_key parse rule metrics source_id (w - off) (r_conditions rule) []")
  case (Inl e')
  with assms(1) candidates_by_key_error [OF Inl] show ?thesis by (simp add: select_def)
next
  case (Inr d)
  show ?thesis
  proof (cases "py_max (map m_as_of (concat (dict_values d)))")
    case None
    with assms(1) Inr show ?thesis by (simp add: select_def)
  next
    case (Some period)
    let ?f = "\<lambda>c. case dict_get d (c_metric_key c) of None \<Rightarrow> Inl (KeyError (c_metric_key c))
        | Some rows \<Rightarrow> pick_candidate (w - off) period c rows"
    have "traverse ?f (r_conditions rule) = Inl e"
      using assms(1) Inr Some by (auto simp: select_def Let_def bind_r_eq_Inl)
    then obtain c where c: "c \<in> set (r_conditions rule)" "?f c = Inl e" by (auto dest: traverse_Inl_D)
    with candidates_at_condition [OF Inr assms(2) c(1)] show ?thesis
      by (auto simp: pick_candidate_def Let_def split: if_splits)
  qed
qed

section \<open>The evaluations\<close>

definition in_context :: "screening_rule \<Rightarrow> string \<Rightarrow> asset_class \<Rightarrow> string \<Rightarrow> screening_result \<Rightarrow> bool" where
  "in_context rule asset_id asset_class source_id s \<longleftrightarrow> s_rule s = rule \<and> s_asset_id s = asset_id \<and>
     s_asset_class s = asset_class \<and> s_source_id s = source_id"

lemma evaluate_context:
  assumes "bind_r (validate_snapshot q) (evaluate I) = Inr s"
  shows "in_context (q_rule q) (q_asset_id q) (q_asset_class q) (q_source_id q) s \<and> s_known_at s = q_known_at q"
proof -
  have "validate_snapshot q = Inr q' \<Longrightarrow> q' = q" for q'
    by (auto simp: validate_snapshot_def bind_r_eq_Inr split: if_splits)
  with assms have q: "validate_snapshot q = Inr q" and s: "evaluate I q = Inr s" by (auto simp: bind_r_eq_Inr)
  from s obtain crs where "s = assemble_result I q crs" unfolding evaluate_Inr [OF q] by blast
  then show ?thesis by (simp add: in_context_def assemble_result_def Let_def)
qed

lemma evaluate_cuts_Inr:
  assumes "evaluate_cuts I parse rule asset_id asset_class source_id metrics previous cuts = Inr ss"
    and "sorted_wrt (<) cuts"
  shows "sorted_wrt (<) (map s_known_at ss) \<and> s_known_at ` set ss \<subseteq> set cuts \<and> length ss \<le> length cuts \<and>
    (\<forall>s \<in> set ss. in_context rule asset_id asset_class source_id s)"
  using assms
proof (induction cuts arbitrary: previous ss)
  case (Cons t cuts)
  from Cons.prems(1) obtain selected where sel: "select parse rule metrics source_id (Aware t 0) = Inr selected"
    by (auto simp: bind_r_eq_Inr)
  let ?evidence = "map m_result_id selected"
  show ?case
  proof (cases "previous = Some ?evidence")
    case True
    with Cons.IH [of previous ss] Cons.prems sel show ?thesis by auto
  next
    case False
    with Cons.prems(1) sel obtain s rest where
        s: "bind_r (validate_snapshot (request_of rule asset_id asset_class source_id t t selected)) (evaluate I) = Inr s"
      and rest: "evaluate_cuts I parse rule asset_id asset_class source_id metrics (Some ?evidence) cuts = Inr rest"
      and ss: "ss = s # rest"
      by (auto simp: bind_r_eq_Inr Let_def)
    have "sorted_wrt (<) cuts" using Cons.prems(2) by simp
    note ih = Cons.IH [OF rest this]
    from evaluate_context [OF s] have "in_context rule asset_id asset_class source_id s" "s_known_at s = t" by simp_all
    with ih Cons.prems(2) show ?thesis by (auto simp: ss)
  qed
qed simp

lemma evaluate_cuts_error:
  assumes "evaluate_cuts I parse rule asset_id asset_class source_id metrics previous cuts = Inl e"
    and "distinct (map c_metric_key (r_conditions rule))" and "asset_class \<in> set (r_asset_classes rule)"
    and "\<forall>m \<in> set metrics. m_asset_id m = asset_id" and "inj_on m_result_id (set metrics)"
  shows "backtest_error e"
  using assms(1)
proof (induction cuts arbitrary: previous)
  case (Cons t cuts)
  show ?case
  proof (cases "select parse rule metrics source_id (Aware t 0)")
    case (Inl e')
    with Cons.prems select_error [OF Inl assms(2)] show ?thesis by simp
  next
    case (Inr selected)
    let ?q = "request_of rule asset_id asset_class source_id t t selected"
    have "?q = request_of rule asset_id asset_class source_id (t - 0) t selected" "t - 0 \<le> t" by simp_all
    note q = selection_outcomes [OF Inr assms(2,3) this(2) assms(4,5) this(1)]
    from q(2) obtain s where "evaluate I ?q = Inr s" unfolding evaluate_Inr [OF q(1)] by blast
    with q(1) Inr Cons show ?thesis by (auto simp: bind_r_eq_Inl Let_def split: if_splits)
  qed
qed simp

section \<open>The outcome of a replay\<close>

lemma simulate_results_Inr: "\<exists>es. simulate_results rule sim ss = Inr es \<and> map be_result es = ss"
proof (induction ss arbitrary: sim)
  case (Cons s ss)
  obtain sim' opened resolved where sim: "simulate_step rule s sim = (sim', opened, resolved)"
    by (cases "simulate_step rule s sim")
  from Cons [of sim'] obtain es where "simulate_results rule sim' ss = Inr es" "map be_result es = ss" by blast
  with sim simulate_flags [OF sim] show ?case by (auto simp: validate_lifecycle_flags_def)
qed simp

section \<open>No look-ahead\<close>

text \<open>
  Up to a time, the evaluations are those of the cuts up to that time on the metrics available
  by then; the simulation goes over the results in order, so the same holds of its flags.
\<close>

lemma evaluate_cuts_known_by:
  assumes "evaluate_cuts I parse rule asset_id asset_class source_id metrics previous cuts = Inr ss"
    and "sorted_wrt (<) cuts"
  shows "evaluate_cuts I parse rule asset_id asset_class source_id (filter (\<lambda>m. m_available_at m \<le> t) metrics) previous
    (filter (\<lambda>c. c \<le> t) cuts) = Inr (filter (\<lambda>s. s_known_at s \<le> t) ss)"
  using assms
proof (induction cuts arbitrary: previous ss)
  case (Cons c cuts)
  note later = evaluate_cuts_Inr [OF Cons.prems]
  show ?case
  proof (cases "c \<le> t")
    case False
    with Cons.prems(2) have late: "\<forall>x \<in> set (c # cuts). \<not> x \<le> t" by auto
    moreover from this later have "\<forall>s \<in> set ss. \<not> s_known_at s \<le> t" by (meson image_eqI subsetD)
    ultimately have "filter (\<lambda>c. c \<le> t) (c # cuts) = []" "filter (\<lambda>s. s_known_at s \<le> t) ss = []"
      by (simp_all only: filter_empty_conv)
    then show ?thesis by simp
  next
    case True
    have "filter (\<lambda>m. m_available_at m \<le> c) (filter (\<lambda>m. m_available_at m \<le> t) metrics) =
        filter (\<lambda>m. m_available_at m \<le> c) metrics"
      using True by (auto intro: filter_cong)
    then have select: "select parse rule (filter (\<lambda>m. m_available_at m \<le> t) metrics) source_id (Aware c 0) =
        select parse rule metrics source_id (Aware c 0)"
      using select_restrict [of parse rule c 0 metrics source_id]
        select_restrict [of parse rule c 0 "filter (\<lambda>m. m_available_at m \<le> t) metrics" source_id] by simp
    have lt: "sorted_wrt (<) cuts" using Cons.prems(2) by simp
    from Cons.prems(1) obtain selected where sel: "select parse rule metrics source_id (Aware c 0) = Inr selected"
      by (auto simp: bind_r_eq_Inr)
    show ?thesis
    proof (cases "previous = Some (map m_result_id selected)")
      case same: True
      with Cons.prems(1) sel have "evaluate_cuts I parse rule asset_id asset_class source_id metrics previous cuts = Inr ss"
        by simp
      from Cons.IH [OF this lt] show ?thesis using True same sel select by simp
    next
      case new: False
      with Cons.prems(1) sel obtain s rest where
          s: "bind_r (validate_snapshot (request_of rule asset_id asset_class source_id c c selected)) (evaluate I) = Inr s"
        and rest: "evaluate_cuts I parse rule asset_id asset_class source_id metrics
            (Some (map m_result_id selected)) cuts = Inr rest" and ss: "ss = s # rest"
        by (auto simp: bind_r_eq_Inr Let_def)
      from evaluate_context [OF s] have "s_known_at s = c" by simp
      with Cons.IH [OF rest lt] show ?thesis using True new sel select s by (simp add: ss)
    qed
  qed
qed simp

lemma simulate_results_known_by:
  assumes "simulate_results rule sim ss = Inr es" and "sorted_wrt (<) (map s_known_at ss)"
  shows "simulate_results rule sim (filter (\<lambda>s. s_known_at s \<le> t) ss) =
    Inr (filter (\<lambda>e. s_known_at (be_result e) \<le> t) es)"
  using assms
proof (induction ss arbitrary: sim es)
  case (Cons s ss)
  obtain sim' opened resolved where step: "simulate_step rule s sim = (sim', opened, resolved)"
    by (cases "simulate_step rule s sim")
  from simulate_results_Inr obtain es' where es': "simulate_results rule sim' ss = Inr es'" "map be_result es' = ss"
    by blast
  have es: "es = \<lparr>be_result = s, be_opened = opened, be_resolved = resolved\<rparr> # es'"
    using Cons.prems(1) step es'(1) simulate_flags [OF step] by (auto simp: validate_lifecycle_flags_def)
  show ?case
  proof (cases "s_known_at s \<le> t")
    case False
    with Cons.prems(2) have late: "\<forall>x \<in> set (s # ss). \<not> s_known_at x \<le> t" by auto
    moreover have "\<forall>e \<in> set es. be_result e \<in> set (s # ss)" using es es'(2) by auto
    ultimately have "filter (\<lambda>s. s_known_at s \<le> t) (s # ss) = []" "filter (\<lambda>e. s_known_at (be_result e) \<le> t) es = []"
      by (auto simp: filter_empty_conv)
    then show ?thesis by simp
  next
    case True
    with Cons.IH [OF es'(1)] Cons.prems(2) step simulate_flags [OF step] show ?thesis
      by (auto simp: es validate_lifecycle_flags_def)
  qed
qed simp

definition replay_cuts ::
  "('x) backtest_ids_scheme \<Rightarrow> iso_parser \<Rightarrow> screening_rule \<Rightarrow> string \<Rightarrow> asset_class \<Rightarrow> string \<Rightarrow>
     metric_result list \<Rightarrow> utc list \<Rightarrow> backtest_evaluation list result" where
  \<comment> \<open>the evaluations of the cuts with the life of the candidate over them\<close>
  "replay_cuts I parse rule asset_id asset_class source_id metrics cuts =
     bind_r (evaluate_cuts I parse rule asset_id asset_class source_id metrics None cuts) (simulate_lifecycle rule)"

lemma replay_cuts_known_by:
  assumes "replay_cuts I parse rule asset_id asset_class source_id metrics cuts = Inr es" and "sorted_wrt (<) cuts"
  shows "replay_cuts I parse rule asset_id asset_class source_id (filter (\<lambda>m. m_available_at m \<le> t) metrics)
    (filter (\<lambda>c. c \<le> t) cuts) = Inr (filter (\<lambda>e. s_known_at (be_result e) \<le> t) es)"
proof -
  from assms(1) obtain ss where ss: "evaluate_cuts I parse rule asset_id asset_class source_id metrics None cuts = Inr ss"
      "simulate_results rule no_candidate ss = Inr es"
    by (auto simp: replay_cuts_def simulate_lifecycle_def bind_r_eq_Inr)
  from evaluate_cuts_Inr [OF ss(1) assms(2)] have "sorted_wrt (<) (map s_known_at ss)" by blast
  from simulate_results_known_by [OF ss(2) this] evaluate_cuts_known_by [OF ss(1) assms(2)] show ?thesis
    by (simp add: replay_cuts_def simulate_lifecycle_def)
qed

text \<open>
  Property C33. The replay never looks ahead. Take any time: two replays over stores that agree on
  the metrics available by that time, and over increasing cuts that agree up to that time, have the
  same evaluations up to it, with the same candidates opened and resolved, whatever the stores
  hold later and whatever cuts follow.
\<close>
theorem replay_no_lookahead:
  assumes "bind_r (evaluate_cuts I parse rule asset_id asset_class source_id metrics None cuts)
      (simulate_lifecycle rule) = Inr es"
    and "bind_r (evaluate_cuts I parse rule asset_id asset_class source_id metrics' None cuts')
      (simulate_lifecycle rule) = Inr es'"
    and "sorted_wrt (<) cuts" and "sorted_wrt (<) cuts'"
    and "filter (\<lambda>c. c \<le> t) cuts = filter (\<lambda>c. c \<le> t) cuts'"
    and "filter (\<lambda>m. m_available_at m \<le> t) metrics = filter (\<lambda>m. m_available_at m \<le> t) metrics'"
  shows "filter (\<lambda>e. s_known_at (be_result e) \<le> t) es = filter (\<lambda>e. s_known_at (be_result e) \<le> t) es'"
  using replay_cuts_known_by [OF assms(1) [folded replay_cuts_def] assms(3), of t]
    replay_cuts_known_by [OF assms(2) [folded replay_cuts_def] assms(4), of t]
  by (simp add: assms(5,6))

section \<open>Valid summaries\<close>

lemma market_cuts_error: "market_metric_cuts parse ms = Inl e \<Longrightarrow> backtest_error e"
  by (induction ms)
     (auto simp: bind_r_eq_Inl Let_def require_absent_legacy_cut_parameter_def split: if_splits option.splits)

lemma backtest_cuts_error: "backtest_cuts parse rule ms = Inl e \<Longrightarrow> backtest_error e"
  using market_cuts_error [of parse ms e] by (auto simp: backtest_cuts_def bind_r_eq_Inl split: if_splits)

lemma sorted_cuts:
  assumes "backtest_cuts parse rule metrics = Inr cuts"
  shows "sorted_wrt (<) cuts"
proof -
  have "sorted_wrt (<) (sort (remdups xs))" for xs :: "utc list"
    by (simp add: strict_sorted_iff)
  with assms show ?thesis by (auto simp: backtest_cuts_def bind_r_eq_Inr split: if_splits)
qed

lemma sorted_wrt_drop: "sorted_wrt R xs \<Longrightarrow> sorted_wrt R (drop n xs)"
  using sorted_wrt_append [of R "take n xs" "drop n xs"] by simp

lemma summarize_simps [simp]:
  "bt_evaluations (summarize I rule asset source_id available selected lifecycle) = lifecycle"
  "bt_source_id (summarize I rule asset source_id available selected lifecycle) = source_id"
  by (simp_all add: summarize_def Let_def)

lemma summary_valid:
  assumes "lifecycle \<noteq> []" and "length lifecycle \<le> 500" and "0 < available"
    and "sorted_wrt (<) (map (\<lambda>e. s_known_at (be_result e)) lifecycle)"
    and "\<forall>e \<in> set lifecycle. in_context rule (ca_asset_id asset) (ca_asset_class asset) source_id (be_result e)"
    and "b = summarize I rule asset source_id available selected lifecycle"
  shows "validate_summary I b = Inr b"
proof -
  have "sorted_wrt (\<le>) (map (\<lambda>e. s_known_at (be_result e)) lifecycle)"
    by (rule sorted_wrt_mono_rel [OF _ assms(4)]) simp
  then have "sort (map (\<lambda>e. s_known_at (be_result e)) lifecycle) = map (\<lambda>e. s_known_at (be_result e)) lifecycle"
    by (rule sorted_sort_id)
  moreover have "\<not> list_ex (\<lambda>e. rule_fingerprint I (s_rule (be_result e)) \<noteq> rule_fingerprint I rule \<or>
      s_asset_id (be_result e) \<noteq> ca_asset_id asset \<or> s_asset_class (be_result e) \<noteq> ca_asset_class asset \<or>
      s_source_id (be_result e) \<noteq> source_id) lifecycle"
    using assms(5) by (auto simp: list_ex_iff in_context_def)
  ultimately show ?thesis
    using assms(1-3) by (simp add: validate_summary_def summarize_def assms(6) Let_def dec_eq_def)
qed

lemma replayed_cuts:
  assumes "distinct (map c_metric_key (r_conditions rule))" and "ca_asset_class asset \<in> set (r_asset_classes rule)"
    and "\<forall>m \<in> set metrics. m_asset_id m = ca_asset_id asset" and "inj_on m_result_id (set metrics)"
    and "1 \<le> max_cuts" and "max_cuts \<le> 500" and "set scoped \<subseteq> set metrics"
    and cuts: "backtest_cuts parse rule scoped = Inr cuts" "cuts \<noteq> []"
  defines "selected \<equiv> last_cuts max_cuts cuts"
  shows "case bind_r (evaluate_cuts I parse rule (ca_asset_id asset) (ca_asset_class asset) source_id scoped None selected) (\<lambda>ss.
        if ss = [] then Inl (BacktestUnavailableError ''no distinct compatible metric snapshots exist in the requested cuts'')
        else bind_r (simulate_lifecycle rule ss) (\<lambda>es.
          validate_summary I (summarize I rule asset source_id (length cuts) (length selected) es))) of
      Inl e \<Rightarrow> backtest_error e
    | Inr b \<Rightarrow> validate_summary I b = Inr b \<and> bt_evaluations b \<noteq> [] \<and> int (length (bt_evaluations b)) \<le> max_cuts \<and>
        sorted_wrt (<) (map (\<lambda>e. s_known_at (be_result e)) (bt_evaluations b)) \<and>
        (\<forall>e \<in> set (bt_evaluations b). in_context rule (ca_asset_id asset) (ca_asset_class asset)
           (bt_source_id b) (be_result e))"
proof -
  have lt: "sorted_wrt (<) selected" and len: "int (length selected) \<le> max_cuts"
    using sorted_wrt_drop [OF sorted_cuts [OF cuts(1)]] assms(5) by (auto simp: selected_def last_cuts_def)
  show ?thesis
  proof (cases "evaluate_cuts I parse rule (ca_asset_id asset) (ca_asset_class asset) source_id scoped None selected")
    case (Inl e)
    have "\<forall>m \<in> set scoped. m_asset_id m = ca_asset_id asset" "inj_on m_result_id (set scoped)"
      using assms(3) assms(7) inj_on_subset [OF assms(4,7)] by blast+
    from evaluate_cuts_error [OF Inl assms(1,2) this] show ?thesis by (simp add: Inl)
  next
    case (Inr ss)
    note ok = evaluate_cuts_Inr [OF Inr lt]
    obtain es where es: "simulate_results rule no_candidate ss = Inr es" "map be_result es = ss"
      using simulate_results_Inr by blast
    then have known: "map (\<lambda>e. s_known_at (be_result e)) es = map s_known_at ss" and n: "length es = length ss"
      by (auto simp: comp_def)
    show ?thesis
    proof (cases "ss = []")
      case False
      have ctx: "\<forall>e \<in> set es. in_context rule (ca_asset_id asset) (ca_asset_class asset) source_id (be_result e)"
        using ok es(2) by auto
      have "es \<noteq> []" "length es \<le> 500" "0 < length cuts"
        using False n ok len assms(6) cuts(2) by (cases es; fastforce)+
      moreover have "sorted_wrt (<) (map (\<lambda>e. s_known_at (be_result e)) es)" using ok by (simp only: known)
      ultimately have "validate_summary I b = Inr b"
        if "b = summarize I rule asset source_id (length cuts) (length selected) es" for b
        using ctx that by (rule summary_valid)
      then show ?thesis
        using Inr es False n ok len known ctx by (auto simp: simulate_lifecycle_def)
    qed (simp add: Inr)
  qed
qed

text \<open>
  Property C32. A replay never fails in its own validators: for a rule whose conditions read distinct
  metrics, an asset of one of its classes and that asset's stored metrics, it either raises a
  missing or ambiguous source, an unusable cut or an ambiguous revision, or returns a summary that
  validates, of at most the requested cuts, in strictly increasing order, all of one context.
\<close>
theorem replay_outcome:
  assumes "distinct (map c_metric_key (r_conditions rule))" and "ca_asset_class asset \<in> set (r_asset_classes rule)"
    and "\<forall>m \<in> set metrics. m_asset_id m = ca_asset_id asset" and "inj_on m_result_id (set metrics)"
    and "1 \<le> max_cuts" and "max_cuts \<le> 500"
  shows "case replay_metrics I parse max_cuts rule asset metrics of
      Inl e \<Rightarrow> backtest_error e
    | Inr b \<Rightarrow> validate_summary I b = Inr b \<and> bt_evaluations b \<noteq> [] \<and> int (length (bt_evaluations b)) \<le> max_cuts \<and>
        sorted_wrt (<) (map (\<lambda>e. s_known_at (be_result e)) (bt_evaluations b)) \<and>
        (\<forall>e \<in> set (bt_evaluations b). in_context rule (ca_asset_id asset) (ca_asset_class asset)
           (bt_source_id b) (be_result e))"
proof (cases "metric_sources (relevant_metrics rule metrics)")
  case Nil
  then show ?thesis by (simp add: replay_metrics_def)
next
  case sources: (Cons source_id others)
  define scoped where "scoped = filter (\<lambda>m. json_eq (param_get (m_parameters m) ''source_id'') (JStr source_id))
    (relevant_metrics rule metrics)"
  note run = replay_metrics_def Let_def sources scoped_def [symmetric]
  have scoped: "set scoped \<subseteq> set metrics" by (auto simp: scoped_def relevant_metrics_def)
  consider "others \<noteq> []" | e where "others = []" "backtest_cuts parse rule scoped = Inl e"
    | "others = []" "backtest_cuts parse rule scoped = Inr []"
    | cuts where "others = []" "backtest_cuts parse rule scoped = Inr cuts" "cuts \<noteq> []"
    by (cases "backtest_cuts parse rule scoped") auto
  then show ?thesis
  proof cases
    case (2 e)
    with backtest_cuts_error [OF 2(2)] show ?thesis by (simp add: run del: json_eq_str)
  next
    case (4 cuts)
    from replayed_cuts [OF assms scoped 4(2,3), of I source_id] show ?thesis
      by (simp only: run 4(1,2) bind_r_simps list.case if_False simp_thms) (simp only: 4(3) if_False)
  qed (simp_all add: run del: json_eq_str)
qed

abbreviation sample_fundamental :: screening_rule where
  "sample_fundamental \<equiv> sample_rule\<lparr>r_domain := FUNDAMENTALS\<rparr>"

abbreviation sample_revision :: metric_result where
  \<comment> \<open>a later revision of the sample metric, no longer below the threshold\<close>
  "sample_revision \<equiv> sample_metric\<lparr>m_result_id := 6, m_available_at := 140, m_value := Decimal False 100 (-1)\<rparr>"

lemma sample_cut_selection:
  "select (\<lambda>s. None) sample_fundamental [sample_metric] ''alpaca'' (Aware 110 0) = Inr [sample_metric]"
  "select (\<lambda>s. None) sample_fundamental [sample_revision, sample_metric] ''alpaca'' (Aware 110 0) = Inr [sample_metric]"
  "select (\<lambda>s. None) sample_fundamental [sample_revision, sample_metric] ''alpaca'' (Aware 140 0) = Inr [sample_revision]"
  by (simp_all add: select_def sample_defs admissible_def param_get_def dict_get_def filters_match_def
      dict_values_def pick_candidate_def latest_available_def revision_policy_def)

lemma selection_evaluates:
  assumes "select parse rule metrics source_id (Aware t 0) = Inr selected"
    and "distinct (map c_metric_key (r_conditions rule))" and "asset_class \<in> set (r_asset_classes rule)"
    and "\<forall>m \<in> set metrics. m_asset_id m = asset_id" and "inj_on m_result_id (set metrics)"
  shows "\<exists>s. bind_r (validate_snapshot (request_of rule asset_id asset_class source_id t t selected)) (evaluate I) = Inr s"
proof -
  have "request_of rule asset_id asset_class source_id t t selected =
      request_of rule asset_id asset_class source_id (t - 0) t selected" "t - 0 \<le> t" by simp_all
  note q = selection_outcomes [OF assms(1-3) this(2) assms(4,5) this(1)]
  from q(2) obtain s where "evaluate I (request_of rule asset_id asset_class source_id t t selected) = Inr s"
    unfolding evaluate_Inr [OF q(1)] by blast
  with q(1) show ?thesis by simp
qed

lemma sample_evaluations:
  "\<exists>s. evaluate_cuts sample_backtest_ids (\<lambda>s. None) sample_fundamental ''equity:us:aapl'' EQUITY ''alpaca''
     [sample_metric] None [110] = Inr [s]"
  "\<exists>s u. evaluate_cuts sample_backtest_ids (\<lambda>s. None) sample_fundamental ''equity:us:aapl'' EQUITY ''alpaca''
     [sample_revision, sample_metric] None [110, 140] = Inr [s, u]"
proof -
  have rule: "distinct (map c_metric_key (r_conditions sample_fundamental))" "EQUITY \<in> set (r_asset_classes sample_fundamental)"
    by (simp_all add: sample_defs)
  have rows: "\<forall>m \<in> set ms. m_asset_id m = ''equity:us:aapl''" "inj_on m_result_id (set ms)"
    if "ms = [sample_metric] \<or> ms = [sample_revision, sample_metric]" for ms
    using that by (auto simp: sample_metric_def)
  note s = selection_evaluates [OF _ rule rows, where I = sample_backtest_ids]
  show "\<exists>s. evaluate_cuts sample_backtest_ids (\<lambda>s. None) sample_fundamental ''equity:us:aapl'' EQUITY ''alpaca''
      [sample_metric] None [110] = Inr [s]"
    using s [OF sample_cut_selection(1)] by (auto simp: sample_cut_selection)
  have "m_result_id sample_metric \<noteq> 6" by (simp add: sample_metric_def)
  then show "\<exists>s u. evaluate_cuts sample_backtest_ids (\<lambda>s. None) sample_fundamental ''equity:us:aapl'' EQUITY ''alpaca''
      [sample_revision, sample_metric] None [110, 140] = Inr [s, u]"
    using s [OF sample_cut_selection(2)] s [OF sample_cut_selection(3)]
    by (auto simp: sample_cut_selection)
qed

theorem replay_no_lookahead_witness:
  "\<exists>e u v. replay_cuts sample_backtest_ids (\<lambda>s. None) sample_fundamental ''equity:us:aapl'' EQUITY ''alpaca''
       [sample_metric] [110] = Inr [e] \<and>
     replay_cuts sample_backtest_ids (\<lambda>s. None) sample_fundamental ''equity:us:aapl'' EQUITY ''alpaca''
       [sample_revision, sample_metric] [110, 140] = Inr [u, v] \<and> e = u"
proof -
  let ?replay = "replay_cuts sample_backtest_ids (\<lambda>s. None) sample_fundamental ''equity:us:aapl'' EQUITY ''alpaca''"
  from sample_evaluations obtain s a b where
      s: "evaluate_cuts sample_backtest_ids (\<lambda>s. None) sample_fundamental ''equity:us:aapl'' EQUITY ''alpaca''
        [sample_metric] None [110] = Inr [s]"
    and ab: "evaluate_cuts sample_backtest_ids (\<lambda>s. None) sample_fundamental ''equity:us:aapl'' EQUITY ''alpaca''
        [sample_revision, sample_metric] None [110, 140] = Inr [a, b]" by blast
  obtain e u v where e: "simulate_lifecycle sample_fundamental [s] = Inr [e]" "be_result e = s"
      and uv: "simulate_lifecycle sample_fundamental [a, b] = Inr [u, v]" "be_result u = a" "be_result v = b"
    using simulate_results_Inr [of sample_fundamental no_candidate "[s]"]
      simulate_results_Inr [of sample_fundamental no_candidate "[a, b]"]
    by (auto simp: simulate_lifecycle_def)
  have "s_known_at s = 110" "s_known_at a = 110" "s_known_at b = 140"
    using evaluate_cuts_Inr [OF s] evaluate_cuts_Inr [OF ab] by auto
  moreover have "filter (\<lambda>e. s_known_at (be_result e) \<le> 130) [e] = filter (\<lambda>e. s_known_at (be_result e) \<le> 130) [u, v]"
  proof (rule replay_no_lookahead)
    show "bind_r (evaluate_cuts sample_backtest_ids (\<lambda>s. None) sample_fundamental ''equity:us:aapl'' EQUITY ''alpaca''
        [sample_metric] None [110]) (simulate_lifecycle sample_fundamental) = Inr [e]" by (simp only: s e bind_r_simps)
    show "bind_r (evaluate_cuts sample_backtest_ids (\<lambda>s. None) sample_fundamental ''equity:us:aapl'' EQUITY ''alpaca''
        [sample_revision, sample_metric] None [110, 140]) (simulate_lifecycle sample_fundamental) = Inr [u, v]"
      by (simp only: ab uv bind_r_simps)
  qed (simp_all add: sample_metric_def)
  ultimately have "e = u" by (simp add: e uv)
  then show ?thesis using s ab e uv by (simp only: replay_cuts_def bind_r_simps) blast
qed

lemma strict_subset_equal:
  fixes xs :: "'a :: linorder list"
  assumes "sorted_wrt (<) xs" and "sorted_wrt (<) ys" and "set xs \<subseteq> set ys" and "length xs = length ys"
  shows "xs = ys"
proof (rule strict_sorted_equal [OF assms(2,1)])
  have "card (set xs) = card (set ys)"
    using assms by (simp add: strict_sorted_iff distinct_card)
  then show "set xs = set ys" using assms(3) by (simp add: card_subset_eq)
qed

abbreviation sample_rows :: "metric_result list \<Rightarrow> utc list \<Rightarrow> bool" where
  "sample_rows ms cuts \<equiv> ms = [sample_metric] \<and> cuts = [110] \<or> ms = [sample_revision, sample_metric] \<and> cuts = [110, 140]"

lemma sample_replay:
  assumes "sample_rows ms cuts"
  shows "\<exists>b. replay_metrics sample_backtest_ids (\<lambda>s. None) 20 sample_fundamental sample_asset ms = Inr b \<and>
    \<not> bt_truncated b \<and> map (\<lambda>e. s_known_at (be_result e)) (bt_evaluations b) = cuts"
proof -
  have relevant: "relevant_metrics sample_fundamental ms = ms"
    using assms by (auto simp: relevant_metrics_def sample_defs dict_by_def dict_get_def filters_match_def param_get_def)
  have src: "\<forall>m \<in> set ms. param_get (m_parameters m) ''source_id'' = JStr ''alpaca''"
    using assms by (auto simp: sample_defs param_get_def dict_get_def)
  then have "metric_sources ms = [''alpaca'']"
    using assms by (auto simp: metric_sources_def source_text_def List.map_filter_simps py_strip_def py_space_def)
  moreover have "filter (\<lambda>m. json_eq (param_get (m_parameters m) ''source_id'') (JStr ''alpaca'')) ms = ms"
    using src by (intro filter_True) simp
  moreover have "backtest_cuts (\<lambda>s. None) sample_fundamental ms = Inr cuts"
    using assms by (auto simp: backtest_cuts_def) (simp_all add: sample_defs)
  moreover obtain ss where ss: "evaluate_cuts sample_backtest_ids (\<lambda>s. None) sample_fundamental ''equity:us:aapl'' EQUITY ''alpaca''
      ms None cuts = Inr ss" "length ss = length cuts"
    using assms sample_evaluations by (elim disjE) fastforce+
  moreover obtain es where es: "simulate_results sample_fundamental no_candidate ss = Inr es" "map be_result es = ss"
    using simulate_results_Inr by blast
  moreover have lt: "sorted_wrt (<) cuts" "cuts \<noteq> []" "length cuts \<le> 20" using assms by auto
  moreover note ok = evaluate_cuts_Inr [OF ss(1) lt(1)]
  moreover have known: "map (\<lambda>e. s_known_at (be_result e)) es = map s_known_at ss"
    using es(2) by (auto simp: comp_def)
  moreover have "map s_known_at ss = cuts"
    using ok ss(2) lt(1) by (intro strict_subset_equal) auto
  moreover have "validate_summary sample_backtest_ids b = Inr b"
    if "b = summarize sample_backtest_ids sample_fundamental sample_asset ''alpaca'' (length cuts) (length cuts) es" for b
  proof (rule summary_valid [OF _ _ _ _ _ that])
    show "es \<noteq> []" "length es \<le> 500" "0 < length cuts" using es(2) ss(2) lt by auto
    show "sorted_wrt (<) (map (\<lambda>e. s_known_at (be_result e)) es)" using ok known by simp
    show "\<forall>e\<in>set es. in_context sample_fundamental (ca_asset_id sample_asset) (ca_asset_class sample_asset) ''alpaca'' (be_result e)"
      using ok es(2) by (auto simp: sample_asset_def)
  qed
  ultimately show ?thesis
    using relevant
    by (auto simp: replay_metrics_def simulate_lifecycle_def last_cuts_def sample_asset_def summarize_def Let_def)
qed

theorem replay_outcome_witness:
  "\<exists>b. replay_metrics sample_backtest_ids (\<lambda>s. None) 20 sample_fundamental sample_asset [sample_metric] = Inr b \<and>
     validate_summary sample_backtest_ids b = Inr b \<and> int (length (bt_evaluations b)) \<le> 20"
proof -
  obtain b where b: "replay_metrics sample_backtest_ids (\<lambda>s. None) 20 sample_fundamental sample_asset [sample_metric] = Inr b"
    using sample_replay [of "[sample_metric]"] by auto
  show ?thesis
    using replay_outcome [of sample_fundamental sample_asset "[sample_metric]" 20 sample_backtest_ids "\<lambda>s. None"] b
    by (auto simp: b sample_defs sample_asset_def)
qed

section \<open>The past of a replay\<close>

lemma known_cuts:
  assumes "backtest_cuts parse rule metrics = Inr cuts"
    and "r_domain rule = FUNDAMENTALS \<or> (\<forall>m \<in> set metrics. resolve_cut_identity_version m = CutV2)"
  shows "set cuts = m_available_at ` set metrics"
proof -
  have "market_metric_cuts parse ms = Inr cs \<Longrightarrow> \<forall>m \<in> set ms. resolve_cut_identity_version m = CutV2 \<Longrightarrow>
      set cs = m_available_at ` set ms" for ms cs
    by (induction ms arbitrary: cs) (auto simp: bind_r_eq_Inr)
  with assms show ?thesis by (auto simp: backtest_cuts_def bind_r_eq_Inr split: if_splits)
qed

lemma same_known_cuts:
  assumes "backtest_cuts parse rule metrics = Inr cuts" and "backtest_cuts parse rule metrics' = Inr cuts'"
    and "r_domain rule = FUNDAMENTALS \<or> (\<forall>m \<in> set metrics \<union> set metrics'. resolve_cut_identity_version m = CutV2)"
    and "filter (\<lambda>m. m_available_at m \<le> t) metrics = filter (\<lambda>m. m_available_at m \<le> t) metrics'"
  shows "filter (\<lambda>c. c \<le> t) cuts = filter (\<lambda>c. c \<le> t) cuts'"
proof (rule strict_sorted_equal)
  show "sorted_wrt (<) (filter (\<lambda>c. c \<le> t) cuts')" "sorted_wrt (<) (filter (\<lambda>c. c \<le> t) cuts)"
    using sorted_cuts [OF assms(1)] sorted_cuts [OF assms(2)] by (simp_all add: sorted_wrt_filter)
  have "set (filter (\<lambda>c. c \<le> t) cuts) = m_available_at ` set (filter (\<lambda>m. m_available_at m \<le> t) metrics)"
      "set (filter (\<lambda>c. c \<le> t) cuts') = m_available_at ` set (filter (\<lambda>m. m_available_at m \<le> t) metrics')"
    using known_cuts [OF assms(1)] known_cuts [OF assms(2)] assms(3) by auto
  with assms(4) show "set (filter (\<lambda>c. c \<le> t) cuts) = set (filter (\<lambda>c. c \<le> t) cuts')" by simp
qed

definition from_source :: "string \<Rightarrow> metric_result list \<Rightarrow> metric_result list" where
  "from_source source_id = filter (\<lambda>m. json_eq (param_get (m_parameters m) ''source_id'') (JStr source_id))"

lemma full_replay:
  assumes "replay_metrics I parse max_cuts rule asset metrics = Inr b" and "\<not> bt_truncated b"
  obtains source_id cuts where "metric_sources (relevant_metrics rule metrics) = [source_id]"
    and "backtest_cuts parse rule (from_source source_id (relevant_metrics rule metrics)) = Inr cuts"
    and "replay_cuts I parse rule (ca_asset_id asset) (ca_asset_class asset) source_id
      (from_source source_id (relevant_metrics rule metrics)) cuts = Inr (bt_evaluations b)"
proof -
  let ?relevant = "relevant_metrics rule metrics"
  obtain source_id where src: "metric_sources ?relevant = [source_id]"
    using assms(1) by (auto simp: replay_metrics_def Let_def split: list.splits if_splits)
  note run = assms(1) [unfolded replay_metrics_def Let_def src list.case from_source_def [symmetric]]
  from run obtain cuts where cuts: "backtest_cuts parse rule (from_source source_id ?relevant) = Inr cuts"
    by (auto simp: bind_r_eq_Inr from_source_def simp del: json_eq_str)
  from run cuts obtain ss es where
      ss: "evaluate_cuts I parse rule (ca_asset_id asset) (ca_asset_class asset) source_id
        (from_source source_id ?relevant) None (last_cuts max_cuts cuts) = Inr ss"
    and es: "simulate_lifecycle rule ss = Inr es"
    and b: "validate_summary I (summarize I rule asset source_id (length cuts) (length (last_cuts max_cuts cuts)) es) = Inr b"
    by (auto simp: bind_r_eq_Inr from_source_def simp del: json_eq_str split: if_splits)
  have b: "b = summarize I rule asset source_id (length cuts) (length (last_cuts max_cuts cuts)) es"
    using b by (auto simp: validate_summary_def Let_def split: if_splits)
  with assms(2) have "last_cuts max_cuts cuts = cuts" by (simp add: summarize_def last_cuts_def Let_def)
  with ss es b show thesis by (intro that [OF src cuts]) (simp add: replay_cuts_def)
qed

lemma source_known_by:
  assumes "metric_sources xs = [a]" and "metric_sources ys = [b]"
    and "filter (\<lambda>m. m_available_at m \<le> t) xs = filter (\<lambda>m. m_available_at m \<le> t) ys"
    and "m \<in> set (from_source a xs)" and "m_available_at m \<le> t"
  shows "a = b"
proof -
  have sources: "set (metric_sources zs) = {s. \<exists>m \<in> set zs. source_text m = Some s}" for zs
    by (force simp: metric_sources_def List.map_filter_def image_iff)
  from assms(1) sources [of xs] have "\<exists>n. source_text n = Some a" by auto
  then obtain n where "source_text n = Some a" by blast
  then have "py_strip a \<noteq> []"
    by (cases "param_get (m_parameters n) ''source_id''") (auto simp: source_text_def split: if_splits)
  with assms(4) have "source_text m = Some a" by (simp add: source_text_def from_source_def)
  moreover have "m \<in> set ys"
  proof -
    have "m \<in> set (filter (\<lambda>m. m_available_at m \<le> t) xs)" using assms(4,5) by (simp add: from_source_def)
    then show ?thesis by (simp add: assms(3))
  qed
  ultimately have "a \<in> set (metric_sources ys)" using sources [of ys] by auto
  then show ?thesis by (simp add: assms(2))
qed

lemma nothing_known_by:
  assumes "replay_cuts I parse rule asset_id asset_class source_id metrics cuts = Inr es"
    and "sorted_wrt (<) cuts" and "filter (\<lambda>c. c \<le> t) cuts = []"
  shows "filter (\<lambda>e. s_known_at (be_result e) \<le> t) es = []"
  using replay_cuts_known_by [OF assms(1,2), of t] by (simp add: assms(3) replay_cuts_def simulate_lifecycle_def)

text \<open>
  Property C34. A replay does not rewrite its past. Run over two stores that agree on the metrics
  available by some time - one of them, say, as it was at that time - two replays that cover all
  their cuts have the same evaluations up to it: the same cuts are found, the same snapshots
  selected, the same candidates opened and resolved. The cuts of the metrics are the times they
  became available, as they are for a fundamental rule and for market metrics of the second identity version.
\<close>
theorem replay_keeps_its_past:
  assumes "replay_metrics I parse max_cuts rule asset metrics = Inr b" and "\<not> bt_truncated b"
    and "replay_metrics I parse max_cuts rule asset metrics' = Inr b'" and "\<not> bt_truncated b'"
    and "filter (\<lambda>m. m_available_at m \<le> t) metrics = filter (\<lambda>m. m_available_at m \<le> t) metrics'"
    and "r_domain rule = FUNDAMENTALS \<or> (\<forall>m \<in> set metrics \<union> set metrics'. resolve_cut_identity_version m = CutV2)"
  shows "filter (\<lambda>e. s_known_at (be_result e) \<le> t) (bt_evaluations b) =
    filter (\<lambda>e. s_known_at (be_result e) \<le> t) (bt_evaluations b')"
proof -
  let ?r = "relevant_metrics rule metrics" and ?r' = "relevant_metrics rule metrics'"
  let ?by = "filter (\<lambda>m. m_available_at m \<le> t)"
  obtain a cuts where a: "metric_sources ?r = [a]" and cuts: "backtest_cuts parse rule (from_source a ?r) = Inr cuts"
      and es: "replay_cuts I parse rule (ca_asset_id asset) (ca_asset_class asset) a (from_source a ?r) cuts =
        Inr (bt_evaluations b)"
    using assms(1,2) by (rule full_replay)
  obtain a' cuts' where a': "metric_sources ?r' = [a']" and cuts': "backtest_cuts parse rule (from_source a' ?r') = Inr cuts'"
      and es': "replay_cuts I parse rule (ca_asset_id asset) (ca_asset_class asset) a' (from_source a' ?r') cuts' =
        Inr (bt_evaluations b')"
    using assms(3,4) by (rule full_replay)
  have swap: "?by (relevant_metrics rule ms) = relevant_metrics rule (?by ms)" "?by (from_source x ms) = from_source x (?by ms)" for ms x
    by (simp_all add: relevant_metrics_def from_source_def Let_def conj_commute)
  have r: "?by ?r = ?by ?r'" by (simp only: swap assms(5))
  have v2: "r_domain rule = FUNDAMENTALS \<or>
      (\<forall>m \<in> set (from_source a ?r) \<union> set (from_source a' ?r'). resolve_cut_identity_version m = CutV2)"
    using assms(6) by (auto simp: from_source_def relevant_metrics_def)
  have scoped: "?by (from_source a ?r) = ?by (from_source a' ?r')"
  proof (cases "a = a'")
    case True
    then show ?thesis by (simp only: swap(2) r)
  next
    case False
    then have "?by (from_source a ?r) = []" "?by (from_source a' ?r') = []"
      using source_known_by [OF a a' r] source_known_by [OF a' a r [symmetric]] by (auto simp: filter_empty_conv)
    then show ?thesis by simp
  qed
  note same = same_known_cuts [OF cuts cuts' v2 scoped]
  note past = replay_cuts_known_by [OF es sorted_cuts [OF cuts], of t] replay_cuts_known_by [OF es' sorted_cuts [OF cuts'], of t]
  show ?thesis
  proof (cases "a = a'")
    case True
    with past same scoped show ?thesis by simp
  next
    case False
    have "?by (from_source a ?r) = []" using source_known_by [OF a a' r] False by (auto simp: filter_empty_conv)
    then have "filter (\<lambda>c. c \<le> t) cuts = []"
      using known_cuts [OF cuts] v2 by (auto simp: filter_empty_conv)
    with same nothing_known_by [OF es sorted_cuts [OF cuts]] nothing_known_by [OF es' sorted_cuts [OF cuts']]
    show ?thesis by simp
  qed
qed

theorem replay_keeps_its_past_witness:
  "\<exists>b b'. replay_metrics sample_backtest_ids (\<lambda>s. None) 20 sample_fundamental sample_asset [sample_metric] = Inr b \<and>
     replay_metrics sample_backtest_ids (\<lambda>s. None) 20 sample_fundamental sample_asset [sample_revision, sample_metric] = Inr b' \<and>
     length (bt_evaluations b') = 2 \<and> bt_evaluations b = [hd (bt_evaluations b')]"
proof -
  obtain b b' where b: "replay_metrics sample_backtest_ids (\<lambda>s. None) 20 sample_fundamental sample_asset [sample_metric] = Inr b"
        "\<not> bt_truncated b" "map (\<lambda>e. s_known_at (be_result e)) (bt_evaluations b) = [110]"
      and b': "replay_metrics sample_backtest_ids (\<lambda>s. None) 20 sample_fundamental sample_asset [sample_revision, sample_metric] = Inr b'"
        "\<not> bt_truncated b'" "map (\<lambda>e. s_known_at (be_result e)) (bt_evaluations b') = [110, 140]"
    using sample_replay [of "[sample_metric]"] sample_replay [of "[sample_revision, sample_metric]"] by auto
  have "filter (\<lambda>e. s_known_at (be_result e) \<le> 130) (bt_evaluations b) =
      filter (\<lambda>e. s_known_at (be_result e) \<le> 130) (bt_evaluations b')"
    by (rule replay_keeps_its_past [OF b(1,2) b'(1,2)]) (simp_all add: sample_metric_def)
  then show ?thesis using b b' by (auto simp: map_eq_Cons_conv)
qed

end
