(* ===== verification/AnalyticalMonitor.thy ===== *)
theory AnalyticalMonitor
  imports SnapshotSelector CandidateStoreProperties ScheduledJobs Repositories AssetCatalog
begin

text \<open>
  The monitor that screens the evidence of finished job attempts
  (\<^verbatim>\<open>AnalyticalScreeningMonitor\<close> of \<^verbatim>\<open>alerts/analytical_monitor.py\<close>): one receipt per completed
  attempt, screened or skipped with its reason, and the replay of the scheduler's history at
  startup.

  What an observation reads besides the store and the attempt is its environment: the asset
  catalogue, the rules (whose callback may raise), the metric table of the storage opened for
  reading, and the clock. The store is the candidate store; an observation returns its state and
  the journal records appended.
\<close>

section \<open>Attempts that are not screened\<close>

fun attempt_status_value :: "attempt_status \<Rightarrow> string" where
  "attempt_status_value Running = ''running''"
| "attempt_status_value Succeeded = ''succeeded''"
| "attempt_status_value Failed = ''failed''"
| "attempt_status_value SkippedAttempt = ''skipped''"

fun analytical_domain :: "job_domain \<Rightarrow> screening_domain option" where
  "analytical_domain MarketDaily = Some MARKET"
| "analytical_domain FundamentalsJob = Some FUNDAMENTALS"
| "analytical_domain d = None"

definition skip_reason :: "job_attempt \<Rightarrow> string option" where
  "skip_reason a =
     (if ja_status a \<noteq> Succeeded then Some (''attempt_'' @ attempt_status_value (ja_status a))
      else case ja_execution a of
        None \<Rightarrow> Some ''missing_execution''
      | Some ex \<Rightarrow>
          if \<not> je_coverage_complete ex then Some ''incomplete_coverage''
          else if je_analytical_inputs_changed ex = Some False \<and> jd_domain (ja_definition a) = MarketDaily
            then Some ''unchanged_analytical_inputs''
          else if \<not> je_evidence_changed ex then Some ''unchanged_evidence''
          else if analytical_domain (jd_domain (ja_definition a)) = None then Some ''unsupported_domain''
          else if jd_asset_id (ja_definition a) = None then Some ''missing_asset_scope''
          else None)"

section \<open>Rules\<close>

definition fundamental_rule_frequency :: "screening_rule \<Rightarrow> string option" where
  "fundamental_rule_frequency r =
     (case map (\<lambda>c. param_get (c_parameter_filters c) ''frequency'') (r_conditions r) of
        [] \<Rightarrow> None
      | declared # others \<Rightarrow>
          if list_ex (\<lambda>v. \<not> json_eq v declared) others then None
          else (case declared of JStr s \<Rightarrow> if s = [] then None else Some s | _ \<Rightarrow> None))"

fun dispatch_rules :: "string \<Rightarrow> screening_rule list \<Rightarrow> screening_rule list \<Rightarrow> screening_rule list" where
  \<comment> \<open>the third argument are the rules dispatched so far\<close>
  "dispatch_rules frequency [] dispatched = dispatched"
| "dispatch_rules frequency (r # rs) dispatched =
     (case fundamental_rule_frequency r of
        None \<Rightarrow> []
      | Some declared \<Rightarrow>
          dispatch_rules frequency rs (if declared = frequency then dispatched @ [r] else dispatched))"

definition fundamental_rules_for_frequency :: "screening_rule list \<Rightarrow> string \<Rightarrow> screening_rule list" where
  "fundamental_rules_for_frequency rules frequency = dispatch_rules frequency rules []"

definition rules_for :: "screening_rule list \<Rightarrow> screening_domain \<Rightarrow> asset_class \<Rightarrow> string \<Rightarrow> screening_rule list" where
  "rules_for configured domain asset_class frequency =
     (let rules = filter (\<lambda>r. r_domain r = domain \<and> asset_class \<in> set (r_asset_classes r))
            (sort_key (\<lambda>r. (r_rule_id r, r_rule_version r)) configured) in
      if domain = FUNDAMENTALS then fundamental_rules_for_frequency rules frequency else rules)"

section \<open>Metrics\<close>

record monitor_env =
  me_catalog :: catalog_service
  me_rules :: "screening_rule list result"
  me_metrics :: metric_table
  me_sql :: sql_functions
  me_parse :: iso_parser
  me_clock :: py_datetime

definition HYDRATION_BATCH_SIZE :: nat where "HYDRATION_BATCH_SIZE = 256"

definition hydrate_metrics :: "metric_table \<Rightarrow> uuid list \<Rightarrow> metric_result list result" where
  "hydrate_metrics table identifiers =
     bind_r (traverse (get_many_documents table) (chunks HYDRATION_BATCH_SIZE identifiers)) (\<lambda>batches.
       Inr (sort_key by_period (concat (map dict_values batches))))"

definition read_metrics ::
  "monitor_env \<Rightarrow> screening_domain \<Rightarrow> string \<Rightarrow> string list \<Rightarrow> utc \<Rightarrow> string \<Rightarrow> string \<Rightarrow> metric_result list result" where
  "read_metrics E domain asset_id metric_keys known_at source_id frequency =
     (if domain = FUNDAMENTALS
      then bind_r (list_metric_ids (me_sql E) (me_metrics E)
          \<lparr>iq_asset_id = Some asset_id, iq_metric_keys = Some metric_keys, iq_available_to = Some (Aware known_at 0),
           iq_as_of_from = None, iq_as_of_before = None,
           iq_parameter_equals = [(''source_id'', source_id), (''frequency'', frequency)],
           iq_parameter_date_range = None, iq_cut_known_at = None, iq_legacy_known_at_to = None\<rparr>)
        (hydrate_metrics (me_metrics E))
      else list_metrics (me_metrics E)
          \<lparr>mq_asset_id = Some asset_id, mq_metric_key = None, mq_metric_keys = Some metric_keys,
           mq_as_of_from = None, mq_as_of_to = None\<rparr>)"

section \<open>Observing an attempt\<close>

type_synonym observed = "(screening_state \<times> journal_record list) result"

definition record_receipt ::
  "('x) state_ids_scheme \<Rightarrow> screening_state \<Rightarrow> monitor_receipt \<Rightarrow> screening_result list \<Rightarrow> observed" where
  \<comment> \<open>the receipt is built, then recorded\<close>
  "record_receipt I st receipt results =
     bind_r (validate_receipt receipt) (\<lambda>receipt.
     bind_r (record_attempt I st receipt results) (\<lambda>(out, st', js). Inr (st', js)))"

definition record_skipped ::
  "('x) state_ids_scheme \<Rightarrow> screening_state \<Rightarrow> job_attempt \<Rightarrow> string \<Rightarrow> observed" where
  "record_skipped I st a reason =
     (case ja_completed_at a of
        None \<Rightarrow> Inl (ValueError ''completed analytical attempt requires completed_at'')
      | Some processed_at \<Rightarrow>
          record_receipt I st
            \<lparr>rc_attempt_id = ja_attempt_id a, rc_job_id = ja_job_id a, rc_asset_id = jd_asset_id (ja_definition a),
             rc_status = SKIPPED, rc_reason = reason, rc_processed_at = processed_at, rc_result_ids = []\<rparr> [])"

definition normalized_clock :: "monitor_env \<Rightarrow> utc result" where
  "normalized_clock E =
     (case me_clock E of
        Naive w \<Rightarrow> Inl (ValueError ''analytical monitor clock must be timezone-aware'')
      | Aware w off \<Rightarrow> Inr (w - off))"

definition screen_rules ::
  "('x) screening_ids_scheme \<Rightarrow> iso_parser \<Rightarrow> screening_rule list \<Rightarrow> catalog_asset \<Rightarrow> metric_result list \<Rightarrow> string \<Rightarrow>
     utc \<Rightarrow> utc \<Rightarrow> screening_result list result" where
  "screen_rules I parse rules asset metrics source_id known_at computed_at =
     traverse (\<lambda>rule. bind_r (select parse rule metrics source_id (Aware known_at 0)) (\<lambda>ms.
       bind_r (validate_snapshot (request_of rule (ca_asset_id asset) (ca_asset_class asset) source_id
           known_at computed_at ms)) (evaluate I))) rules"

fun screening_error :: "py_error \<Rightarrow> (string \<times> string) option" where
  \<comment> \<open>an \<^verbatim>\<open>AnalyticalScreeningError\<close>: its message and the name of its class\<close>
  "screening_error (IncompatibleMetricError m) = Some (m, ''IncompatibleAnalyticalMetricError'')"
| "screening_error (AmbiguousMetricError m) = Some (m, ''AmbiguousAnalyticalMetricError'')"
| "screening_error e = None"

definition error_reason :: "string \<times> string \<Rightarrow> string" where
  "error_reason e = ''screening_error:'' @ (if py_strip (fst e) \<noteq> [] then py_strip (fst e) else snd e)"

definition screen_attempt ::
  "('x) state_ids_scheme \<Rightarrow> monitor_env \<Rightarrow> screening_state \<Rightarrow> job_attempt \<Rightarrow> job_execution \<Rightarrow> screening_domain \<Rightarrow>
     catalog_asset \<Rightarrow> screening_rule list \<Rightarrow> string \<Rightarrow> observed" where
  \<comment> \<open>from the single source on\<close>
  "screen_attempt I E st a ex domain asset rules source_id =
     (let known_at = je_effective_known_at ex;
          metric_keys = sort (remdups (map c_metric_key (concat (map r_conditions rules)))) in
      bind_r (read_metrics E domain (ca_asset_id asset) metric_keys known_at source_id
          (jd_data_frequency (ja_definition a))) (\<lambda>metrics.
      bind_r (normalized_clock E) (\<lambda>now.
        (let computed_at = (if now < known_at then known_at else now) in
         case screen_rules I (me_parse E) rules asset metrics source_id known_at computed_at of
           Inl e \<Rightarrow>
             (case screening_error e of
                None \<Rightarrow> Inl e
              | Some failure \<Rightarrow> record_skipped I st a (error_reason failure))
         | Inr results \<Rightarrow>
             record_receipt I st
               \<lparr>rc_attempt_id = ja_attempt_id a, rc_job_id = ja_job_id a, rc_asset_id = Some (ca_asset_id asset),
                rc_status = SCREENED, rc_reason = ''new_compatible_evidence'', rc_processed_at = computed_at,
                rc_result_ids = sort (map s_result_id results)\<rparr> results))))"

definition observe ::
  "('x) state_ids_scheme \<Rightarrow> monitor_env \<Rightarrow> screening_state \<Rightarrow> job_attempt \<Rightarrow> observed" where
  "observe I E st a =
     (if ja_status a = Running \<or> ja_completed_at a = None then Inr (st, [])
      else if contains_attempt st (ja_attempt_id a) then Inr (st, [])
      else
     case skip_reason a of
        Some reason \<Rightarrow> record_skipped I st a reason
      | None \<Rightarrow>
     (case (ja_execution a, jd_asset_id (ja_definition a)) of
        (Some ex, Some asset_id) \<Rightarrow>
          (case analytical_domain (jd_domain (ja_definition a)) of
             None \<Rightarrow> record_skipped I st a ''unsupported_domain''
           | Some domain \<Rightarrow>
               bind_r (catalog_get (me_catalog E) asset_id) (\<lambda>asset.
               bind_r (me_rules E) (\<lambda>configured.
                 (let rules = rules_for configured domain (ca_asset_class asset) (jd_data_frequency (ja_definition a)) in
                  if rules = [] then record_skipped I st a ''no_compatible_rules''
                  else
                    (case je_source_ids ex of
                       [source_id] \<Rightarrow> screen_attempt I E st a ex domain asset rules source_id
                     | _ \<Rightarrow> record_skipped I st a ''ambiguous_source_scope'')))))
      | _ \<Rightarrow> Inl (ValueError ''screenable scheduled attempt is missing execution scope'')))"

section \<open>Reconciling the history\<close>

text \<open>
  The in-memory reconciliation holds the state of the store and follows it with every recording,
  so it is the same state here. \<open>env\<close> is the environment each attempt is observed in.
\<close>

fun reconcile ::
  "('x) state_ids_scheme \<Rightarrow> (job_attempt \<Rightarrow> monitor_env) \<Rightarrow> screening_state \<Rightarrow> job_attempt list \<Rightarrow> observed" where
  "reconcile I env st [] = Inr (st, [])"
| "reconcile I env st (a # as) =
     (if ja_status a = Running then reconcile I env st as
      else bind_r (observe I (env a) st a) (\<lambda>(st', js).
        bind_r (reconcile I env st' as) (\<lambda>(st'', js'). Inr (st'', js @ js'))))"

end
