(* ===== verification/MonitorProperties.thy ===== *)
theory MonitorProperties
  imports AnalyticalMonitor AssetCatalogProperties
begin

text \<open>
  The promises of the monitor: every completed attempt of the history gets exactly one receipt and
  replaying the history again does nothing, and what is screened rests on evidence that was
  available when the attempt's evidence was.
\<close>

section \<open>One observation\<close>

lemma record_receipt_Inr:
  assumes "record_receipt I st r rs = Inr (st', js)"
  obtains out where "record_attempt I st r rs = Inr (out, st', js)"
proof -
  have "validate_receipt r = Inr r' \<Longrightarrow> r' = r" for r'
    by (simp add: validate_receipt_def split: if_splits)
  with assms that show ?thesis by (auto simp: record_receipt_def bind_r_eq_Inr)
qed

definition recorded_for ::
  "('x) state_ids_scheme \<Rightarrow> screening_state \<Rightarrow> job_attempt \<Rightarrow> screening_result list \<Rightarrow> screening_state \<times> journal_record list \<Rightarrow> bool" where
  "recorded_for I st a rs res \<longleftrightarrow>
     (\<exists>r out. rc_attempt_id r = ja_attempt_id a \<and> record_attempt I st r rs = Inr (out, res))"

lemma record_skipped_Inr: "record_skipped I st a reason = Inr res \<Longrightarrow> recorded_for I st a [] res"
  unfolding record_skipped_def recorded_for_def
  by (cases res) (auto split: option.splits elim!: record_receipt_Inr intro!: exI)

lemma screen_attempt_Inr:
  assumes "screen_attempt I E st a ex domain asset rules source_id = Inr res"
  obtains "recorded_for I st a [] res"
  | metrics computed_at rs where "recorded_for I st a rs res"
    "read_metrics E domain (ca_asset_id asset) (sort (remdups (map c_metric_key (concat (map r_conditions rules)))))
       (je_effective_known_at ex) source_id (jd_data_frequency (ja_definition a)) = Inr metrics"
    "screen_rules I (me_parse E) rules asset metrics source_id (je_effective_known_at ex) computed_at = Inr rs"
proof -
  let ?known = "je_effective_known_at ex"
  obtain metrics now where m: "read_metrics E domain (ca_asset_id asset)
        (sort (remdups (map c_metric_key (concat (map r_conditions rules))))) ?known source_id
        (jd_data_frequency (ja_definition a)) = Inr metrics"
      and now: "normalized_clock E = Inr now"
    using assms by (auto simp: screen_attempt_def Let_def bind_r_eq_Inr)
  define computed_at where "computed_at = (if now < ?known then ?known else now)"
  note run = assms [unfolded screen_attempt_def Let_def m now bind_r_simps computed_at_def [symmetric]]
  show ?thesis
  proof (cases "screen_rules I (me_parse E) rules asset metrics source_id ?known computed_at")
    case (Inl e)
    with run that(1) show ?thesis by (auto split: option.splits dest: record_skipped_Inr)
  next
    case (Inr rs)
    obtain st' js where res: "res = (st', js)" by (cases res)
    from run [unfolded Inr res sum.case] obtain out where "record_attempt I st
        \<lparr>rc_attempt_id = ja_attempt_id a, rc_job_id = ja_job_id a, rc_asset_id = Some (ca_asset_id asset),
         rc_status = SCREENED, rc_reason = ''new_compatible_evidence'', rc_processed_at = computed_at,
         rc_result_ids = sort (map s_result_id rs)\<rparr> rs = Inr (out, st', js)"
      by (rule record_receipt_Inr)
    then have "recorded_for I st a rs res" unfolding recorded_for_def res by (intro exI conjI) simp_all
    with that(2) m Inr show ?thesis by blast
  qed
qed

definition to_observe :: "screening_state \<Rightarrow> job_attempt \<Rightarrow> bool" where
  \<comment> \<open>completed, without a receipt\<close>
  "to_observe st a \<longleftrightarrow> ja_status a \<noteq> Running \<and> ja_completed_at a \<noteq> None \<and> \<not> contains_attempt st (ja_attempt_id a)"

lemma observe_nothing: "\<not> to_observe st a \<Longrightarrow> observe I E st a = Inr (st, [])"
  by (auto simp: to_observe_def observe_def)

lemma observe_Inr:
  assumes "observe I E st a = Inr res" and "to_observe st a"
  obtains "recorded_for I st a [] res"
  | ex asset_id domain asset configured source_id metrics computed_at rs where "skip_reason a = None"
    "ja_execution a = Some ex" "analytical_domain (jd_domain (ja_definition a)) = Some domain"
    "jd_asset_id (ja_definition a) = Some asset_id" "catalog_get (me_catalog E) asset_id = Inr asset"
    "me_rules E = Inr configured" "je_source_ids ex = [source_id]"
    "read_metrics E domain (ca_asset_id asset) (sort (remdups (map c_metric_key (concat (map r_conditions
       (rules_for configured domain (ca_asset_class asset) (jd_data_frequency (ja_definition a))))))))
       (je_effective_known_at ex) source_id (jd_data_frequency (ja_definition a)) = Inr metrics"
    "screen_rules I (me_parse E) (rules_for configured domain (ca_asset_class asset) (jd_data_frequency (ja_definition a)))
       asset metrics source_id (je_effective_known_at ex) computed_at = Inr rs"
    "recorded_for I st a rs res"
proof (cases "skip_reason a")
  case (Some reason)
  with assms have "record_skipped I st a reason = Inr res" by (auto simp: observe_def to_observe_def)
  then show ?thesis by (rule that(1) [OF record_skipped_Inr])
next
  case None
  show ?thesis
  proof (cases "ja_execution a")
    case ex: (Some ex)
    show ?thesis
    proof (cases "jd_asset_id (ja_definition a)")
      case asset_id: (Some asset_id)
      note run = assms(1) [unfolded observe_def None ex asset_id option.case prod.case]
      show ?thesis
      proof (cases "analytical_domain (jd_domain (ja_definition a))")
        case dom: None
        with run assms(2) have "record_skipped I st a ''unsupported_domain'' = Inr res" by (auto simp: to_observe_def)
        then show ?thesis by (rule that(1) [OF record_skipped_Inr])
      next
        case dom: (Some domain)
        from run assms(2) obtain asset configured where asset: "catalog_get (me_catalog E) asset_id = Inr asset"
            and configured: "me_rules E = Inr configured"
          by (auto simp: to_observe_def dom bind_r_eq_Inr)
        let ?rules = "rules_for configured domain (ca_asset_class asset) (jd_data_frequency (ja_definition a))"
        consider "?rules = [] \<or> (\<nexists>source_id. je_source_ids ex = [source_id])"
          | source_id where "?rules \<noteq> []" "je_source_ids ex = [source_id]" by blast
        then show ?thesis
        proof cases
          case 1
          with run assms(2) obtain reason where "record_skipped I st a reason = Inr res"
            by (auto simp: to_observe_def dom asset configured Let_def split: list.splits if_splits)
          then show ?thesis by (rule that(1) [OF record_skipped_Inr])
        next
          case (2 source_id)
          with run assms(2) have "screen_attempt I E st a ex domain asset ?rules source_id = Inr res"
            by (auto simp: to_observe_def dom asset configured Let_def)
          then show ?thesis
          proof (rule screen_attempt_Inr)
            fix metrics computed_at rs
            assume "recorded_for I st a rs res"
              and "read_metrics E domain (ca_asset_id asset) (sort (remdups (map c_metric_key (concat (map r_conditions ?rules)))))
                (je_effective_known_at ex) source_id (jd_data_frequency (ja_definition a)) = Inr metrics"
              and "screen_rules I (me_parse E) ?rules asset metrics source_id (je_effective_known_at ex) computed_at = Inr rs"
            with that(2) [OF None ex dom asset_id asset configured 2(2)] show ?thesis by blast
          qed (rule that(1))
        qed
      qed
    next
      case asset_id: None
      with assms ex None show ?thesis by (auto simp: observe_def to_observe_def)
    qed
  next
    case ex: None
    with assms None show ?thesis by (auto simp: observe_def to_observe_def)
  qed
qed

section \<open>Exactly one receipt\<close>

lemma recorded_for_keeps:
  assumes "recorded_for I st a rs (st', js)" and "reachable I st" and "\<not> contains_attempt st (ja_attempt_id a)"
  shows "reachable I st' \<and> contains_attempt st' (ja_attempt_id a) \<and> set (st_receipts st) \<subseteq> set (st_receipts st')"
proof -
  from assms(1) obtain r out where r: "rc_attempt_id r = ja_attempt_id a" "record_attempt I st r rs = Inr (out, st', js)"
    by (auto simp: recorded_for_def)
  have reach: "reachable I st'" using assms(2) r(2) by (blast intro: reachable.step store_step.attempted)
  have h: "history_ok st" using reachable_valid [OF assms(2)] by (simp add: valid_state_def)
  from r(2) h show ?thesis
  proof (cases rule: record_attempt_cases)
    case (replayed old)
    then have "contains_attempt st (rc_attempt_id r)"
      using dict_get_by_SomeD [OF replayed(1)] unfolding contains_attempt_def by (metis image_eqI)
    with assms(3) r(1) show ?thesis by simp
  next
    case (recorded new lc)
    then show ?thesis using reach r(1) by (auto simp: recorded_state_def contains_attempt_def)
  qed
qed

lemma observe_keeps:
  assumes "observe I E st a = Inr (st', js)" and "reachable I st"
  shows "reachable I st' \<and> \<not> to_observe st' a \<and> set (st_receipts st) \<subseteq> set (st_receipts st')"
proof (cases "to_observe st a")
  case True
  with assms(1) obtain rs where "recorded_for I st a rs (st', js)" by (elim observe_Inr)
  from recorded_for_keeps [OF this assms(2)] True show ?thesis by (simp add: to_observe_def)
next
  case False
  with assms observe_nothing [OF False, of I E] show ?thesis by simp
qed

lemma observed_stays: "\<not> to_observe st a \<Longrightarrow> set (st_receipts st) \<subseteq> set (st_receipts st') \<Longrightarrow> \<not> to_observe st' a"
  by (auto simp: to_observe_def contains_attempt_def)

lemma reconcile_keeps:
  assumes "reconcile I env st as = Inr (st', js)" and "reachable I st"
  shows "reachable I st' \<and> (\<forall>a \<in> set as. \<not> to_observe st' a) \<and> set (st_receipts st) \<subseteq> set (st_receipts st')"
  using assms
proof (induction as arbitrary: st js)
  case (Cons a as)
  show ?case
  proof (cases "ja_status a = Running")
    case True
    with Cons show ?thesis by (auto simp: to_observe_def)
  next
    case False
    with Cons.prems(1) obtain st1 js1 js2 where a: "observe I (env a) st a = Inr (st1, js1)"
        and rest: "reconcile I env st1 as = Inr (st', js2)" by (auto simp: bind_r_eq_Inr)
    note one = observe_keeps [OF a Cons.prems(2)]
    from Cons.IH [OF rest] one observed_stays [of st1 a st'] show ?thesis by auto
  qed
qed simp

lemma reconcile_nothing: "\<forall>a \<in> set as. \<not> to_observe st a \<Longrightarrow> reconcile I env st as = Inr (st, [])"
  by (induction as) (simp_all add: observe_nothing)

text \<open>
  Property C7. Exactly-once receipts: when replaying the scheduler's history returns, every
  completed attempt of it has exactly one receipt, the receipts there were are kept, and replaying
  the history again, whatever the catalogue, the rules, the metrics and the clock are by then,
  changes nothing and appends no record.
\<close>
theorem reconcile_exactly_once:
  assumes "reconcile I env st as = Inr (st', js)" and "reachable I st"
  shows "(\<forall>a \<in> set as. ja_status a \<noteq> Running \<and> ja_completed_at a \<noteq> None \<longrightarrow>
      (\<exists>!r. r \<in> set (st_receipts st') \<and> rc_attempt_id r = ja_attempt_id a)) \<and>
    set (st_receipts st) \<subseteq> set (st_receipts st') \<and> (\<forall>env'. reconcile I env' st' as = Inr (st', []))"
proof -
  note kept = reconcile_keeps [OF assms]
  have "history_ok st'" using reachable_valid [of I st'] kept by (simp add: valid_state_def)
  then have dist: "inj_on rc_attempt_id (set (st_receipts st'))" by (simp add: history_ok_def distinct_map)
  have "\<exists>!r. r \<in> set (st_receipts st') \<and> rc_attempt_id r = ja_attempt_id a"
    if a: "a \<in> set as" "ja_status a \<noteq> Running" "ja_completed_at a \<noteq> None" for a
  proof -
    have "contains_attempt st' (ja_attempt_id a)" using kept a by (auto simp: to_observe_def)
    then obtain r where "r \<in> set (st_receipts st')" "rc_attempt_id r = ja_attempt_id a"
      by (auto simp: contains_attempt_def)
    with dist show ?thesis by (metis inj_onD)
  qed
  with kept reconcile_nothing [of as st' I] show ?thesis by blast
qed

section \<open>The evidence of a screened attempt\<close>

lemma select_subset:
  assumes "select parse rule metrics source_id (Aware w off) = Inr ms"
  shows "set ms \<subseteq> set metrics"
proof -
  from assms obtain d where d: "candidates_by_key parse rule metrics source_id (w - off) (r_conditions rule) [] = Inr d"
    by (auto simp: select_def Let_def bind_r_eq_Inr)
  have rows: "set rows \<subseteq> set metrics" if "dict_get d k = Some rows" for k rows
  proof -
    have "rows \<in> set (dict_values d)"
      using that by (force simp: dict_get_def dict_values_def dest: map_of_SomeD)
    with candidates_by_key_values [OF d] show ?thesis by (auto simp: candidate_rows_def dict_values_def)
  qed
  show ?thesis
  proof (cases "py_max (map m_as_of (concat (dict_values d)))")
    case None
    with assms d show ?thesis by (simp add: select_def)
  next
    case (Some period)
    let ?f = "\<lambda>c. case dict_get d (c_metric_key c) of None \<Rightarrow> Inl (KeyError (c_metric_key c))
        | Some rows \<Rightarrow> pick_candidate (w - off) period c rows"
    from assms d Some obtain picks where picks: "traverse ?f (r_conditions rule) = Inr picks" and ms: "ms = concat picks"
      by (auto simp: select_def Let_def bind_r_eq_Inr)
    have "set picked \<subseteq> set metrics" if "picked \<in> set picks" for picked
    proof -
      from traverse_range [OF picks] that obtain c where "?f c = Inr picked" by blast
      with rows pick_candidate_Inr show ?thesis by (fastforce split: option.splits)
    qed
    then show ?thesis by (auto simp: ms)
  qed
qed

lemma get_document_values: "get_document table i = Inr m \<Longrightarrow> m \<in> set (dict_values table)"
  by (force simp: get_document_def dict_get_def dict_values_def dest: map_of_SomeD split: option.splits)

lemma hydrate_metrics_subset:
  assumes "hydrate_metrics table ids = Inr ms"
  shows "set ms \<subseteq> set (dict_values table)"
proof -
  from assms obtain batches where b: "traverse (get_many_documents table) (chunks HYDRATION_BATCH_SIZE ids) = Inr batches"
      and ms: "ms = sort_key by_period (concat (map dict_values batches))"
    by (auto simp: hydrate_metrics_def bind_r_eq_Inr)
  have "set (dict_values batch) \<subseteq> set (dict_values table)" if "batch \<in> set batches" for batch
  proof -
    from traverse_range [OF b] that obtain chunk where "get_many_documents table chunk = Inr batch" by blast
    then obtain rows where rows: "traverse (get_document table) (sort (remdups chunk)) = Inr rows"
        and batch: "batch = zip (sort (remdups chunk)) rows"
      by (auto simp: get_many_documents_def Let_def bind_r_eq_Inr)
    show ?thesis
    proof
      fix m assume "m \<in> set (dict_values batch)"
      then have "m \<in> set rows" by (auto simp: batch dict_values_def dest: set_zip_rightD)
      with traverse_range [OF rows] obtain i where "get_document table i = Inr m" by blast
      then show "m \<in> set (dict_values table)" by (rule get_document_values)
    qed
  qed
  then show ?thesis by (auto simp: ms)
qed

lemma read_metrics_subset:
  assumes "read_metrics E domain asset_id keys known_at source_id frequency = Inr ms"
  shows "set ms \<subseteq> set (dict_values (me_metrics E))"
proof (cases "domain = FUNDAMENTALS")
  case True
  with assms obtain ids where "hydrate_metrics (me_metrics E) ids = Inr ms" by (auto simp: read_metrics_def bind_r_eq_Inr)
  then show ?thesis by (rule hydrate_metrics_subset)
next
  case False
  with assms show ?thesis by (auto simp: read_metrics_def list_metrics_def bind_r_eq_Inr)
qed

lemma screened_result:
  assumes "screen_rules I parse rules asset metrics source_id known_at computed_at = Inr rs" and "s \<in> set rs"
  shows "s_rule s \<in> set rules \<and> s_known_at s = known_at \<and> s_source_id s = source_id \<and> s_asset_id s = ca_asset_id asset \<and>
    (\<forall>r \<in> set (s_conditions s). cr_state r \<noteq> NOT_EVALUABLE \<longrightarrow>
       (\<exists>m \<in> set metrics. cr_metric_result_id r = Some (m_result_id m) \<and> cr_observed_value r = Some (m_value m) \<and>
          m_asset_id m = ca_asset_id asset \<and> m_available_at m \<le> known_at))"
proof -
  from traverse_range [OF assms(1) [unfolded screen_rules_def]] assms(2) obtain rule where rule: "rule \<in> set rules"
      and eval: "bind_r (select parse rule metrics source_id (Aware known_at 0)) (\<lambda>ms.
       bind_r (validate_snapshot (request_of rule (ca_asset_id asset) (ca_asset_class asset) source_id
           known_at computed_at ms)) (evaluate I)) = Inr s" by blast
  then obtain ms where ms: "select parse rule metrics source_id (Aware known_at 0) = Inr ms"
    by (auto simp: bind_r_eq_Inr)
  let ?q = "request_of rule (ca_asset_id asset) (ca_asset_class asset) source_id known_at computed_at ms"
  from eval [unfolded ms bind_r_simps bind_r_eq_Inr] obtain q' where q': "validate_snapshot ?q = Inr q'" "evaluate I q' = Inr s"
    by blast
  have "q' = ?q" using q'(1) by (simp only: validate_snapshot_Inr)
  with q' have q: "validate_snapshot ?q = Inr ?q" and s: "evaluate I ?q = Inr s" by simp_all
  from s obtain crs where crs: "condition_outcomes ?q crs" and s_eq: "s = assemble_result I ?q crs"
    unfolding evaluate_Inr [OF q] by blast
  have "\<exists>m \<in> set metrics. cr_metric_result_id r = Some (m_result_id m) \<and> cr_observed_value r = Some (m_value m) \<and>
      m_asset_id m = ca_asset_id asset \<and> m_available_at m \<le> known_at"
    if r: "r \<in> set crs" "cr_state r \<noteq> NOT_EVALUABLE" for r
    using crs r(1)
  proof (rule outcome_evidence)
    fix c m
    assume "m \<in> set (q_metrics ?q)" "r = evaluated_result c m"
    moreover from this q select_subset [OF ms] have "m \<in> set metrics" "m_asset_id m = ca_asset_id asset" "m_available_at m \<le> known_at"
      by (auto simp: validate_snapshot_Inr)
    ultimately show ?thesis by (intro bexI [of _ m]) (simp_all add: evaluated_result_def Let_def)
  qed (use r(2) in \<open>simp add: not_evaluable_result_def\<close>)
  with rule show ?thesis by (simp add: s_eq assemble_result_def Let_def)
qed

text \<open>
  Property C8. What is screened is point in time: every result an observation adds to the store
  belongs to a completed, covered job that brought new evidence from that one source, is cut at
  the instant that job's evidence was known, and each of its evaluated conditions reads a stored
  metric of the asset that was available by then.
\<close>
theorem screened_evidence:
  assumes "observe I E st a = Inr (st', js)" and "reachable I st"
    and "s \<in> set (st_results st')" and "s \<notin> set (st_results st)"
  shows "\<exists>ex. ja_execution a = Some ex \<and> ja_status a = Succeeded \<and> je_coverage_complete ex \<and> je_evidence_changed ex \<and>
    je_source_ids ex = [s_source_id s] \<and> s_known_at s = je_effective_known_at ex \<and>
    (\<forall>r \<in> set (s_conditions s). cr_state r \<noteq> NOT_EVALUABLE \<longrightarrow>
       (\<exists>m \<in> set (dict_values (me_metrics E)). cr_metric_result_id r = Some (m_result_id m) \<and>
          cr_observed_value r = Some (m_value m) \<and> m_asset_id m = s_asset_id s \<and> m_available_at m \<le> s_known_at s))"
proof -
  have h: "history_ok st" using reachable_valid [OF assms(2)] by (simp add: valid_state_def)
  have new: "s \<in> set rs" if "recorded_for I st a rs (st', js)" for rs
  proof -
    from that obtain r out where "record_attempt I st r rs = Inr (out, st', js)" by (auto simp: recorded_for_def)
    then show ?thesis using h
    proof (cases rule: record_attempt_cases)
      case (recorded new lc)
      with assms(3,4) show ?thesis by (auto simp: recorded_state_def)
    qed (use assms(3,4) in simp)
  qed
  have "to_observe st a"
    using assms(1,3,4) observe_nothing [of st a I E] by (cases "to_observe st a") auto
  with assms(1) show ?thesis
  proof (rule observe_Inr)
    fix ex asset_id domain asset configured source_id metrics computed_at rs
    assume reason: "skip_reason a = None" "ja_execution a = Some ex" and src: "je_source_ids ex = [source_id]"
      and read: "read_metrics E domain (ca_asset_id asset) (sort (remdups (map c_metric_key (concat (map r_conditions
         (rules_for configured domain (ca_asset_class asset) (jd_data_frequency (ja_definition a))))))))
         (je_effective_known_at ex) source_id (jd_data_frequency (ja_definition a)) = Inr metrics"
      and rs: "screen_rules I (me_parse E) (rules_for configured domain (ca_asset_class asset)
         (jd_data_frequency (ja_definition a))) asset metrics source_id (je_effective_known_at ex) computed_at = Inr rs"
      and rec: "recorded_for I st a rs (st', js)"
    have "ja_status a = Succeeded \<and> je_coverage_complete ex \<and> je_evidence_changed ex"
      using reason by (auto simp: skip_reason_def split: if_splits)
    with screened_result [OF rs new [OF rec]] read_metrics_subset [OF read] reason(2) src show ?thesis by fastforce
  qed (use new in force)
qed

section \<open>A sample observation\<close>

definition screened_execution :: job_execution where
  "screened_execution =
     \<lparr>je_job_id = ''aapl'', je_effective_known_at = 130, je_evidence_changed = True, je_source_ids = [''alpaca''],
      je_created_count = 1, je_reused_count = 0, je_coverage_complete = True, je_analytical_inputs_changed = None\<rparr>"

definition screened_attempt :: job_attempt where
  "screened_attempt =
     \<lparr>ja_attempt_id = 1,
      ja_definition = \<lparr>jd_job_id = ''aapl'', jd_asset_id = Some ''equity:us:aapl'', jd_provider = ''alpaca'',
        jd_domain = MarketDaily, jd_data_frequency = ''1d'', jd_timezone = ''UTC'', jd_run_at = 0, jd_enabled = True,
        jd_max_attempts_per_day = 1, jd_retry_backoff_seconds = 60, jd_freshness_threshold_seconds = 3600\<rparr>,
      ja_local_date = 0, ja_scheduled_for = 0, ja_attempt_number = 1, ja_status = Succeeded, ja_started_at = 100,
      ja_completed_at = Some 150, ja_execution = Some screened_execution, ja_failure = None, ja_telemetry = None\<rparr>"

definition screening_env :: monitor_env where
  "screening_env =
     \<lparr>me_catalog = sample_service, me_rules = Inr [sample_rule], me_metrics = [(m_result_id witness_v2_metric, witness_v2_metric)],
      me_sql = \<lparr>sq_cast = (\<lambda>s. None), sq_text = (\<lambda>v. '''')\<rparr>, me_parse = (\<lambda>s. None), me_clock = Aware 200 0\<rparr>"

abbreviation screened_request :: screening_request where
  "screened_request \<equiv> request_of sample_rule ''equity:us:aapl'' EQUITY ''alpaca'' 130 200 [witness_v2_metric]"

definition screened_sample :: screening_result where
  "screened_sample = assemble_result sample_state_ids screened_request [evaluated_result sample_condition witness_v2_metric]"

lemma screened_sample_evaluates:
  "validate_snapshot screened_request = Inr screened_request" "evaluate sample_state_ids screened_request = Inr screened_sample"
proof -
  show v: "validate_snapshot screened_request = Inr screened_request"
    by (simp add: validate_snapshot_Inr sample_rule_def) (simp add: witness_v2_metric_def param_get_def dict_get_def)
  have rows: "rows_for screened_request sample_condition = [witness_v2_metric]"
    by (simp add: rows_for_def) (simp add: witness_v2_metric_def sample_condition_def)
  then have "filter (compatible sample_condition) (rows_for screened_request sample_condition) = [witness_v2_metric]"
      "\<forall>m \<in> set (rows_for screened_request sample_condition). contract_ok sample_condition m"
    by (simp_all add: compatible_def contract_ok_def filters_match_def) (simp_all add: witness_v2_metric_def sample_condition_def)
  then have "condition_outcomes screened_request [evaluated_result sample_condition witness_v2_metric]"
    by (simp add: condition_outcomes_def sample_rule_def)
  then show "evaluate sample_state_ids screened_request = Inr screened_sample"
    unfolding evaluate_Inr [OF v] screened_sample_def by blast
qed

lemma screened_sample_simps [simp]:
  "s_result_id screened_sample = 130" "s_rule screened_sample = sample_rule" "s_known_at screened_sample = 130"
  "s_as_of screened_sample = Some 100" "s_asset_id screened_sample = ''equity:us:aapl''"
  "s_conditions screened_sample = [evaluated_result sample_condition witness_v2_metric]"
  by (simp_all add: screened_sample_def assemble_result_def Let_def analytical_screening_result_id_def sample_state_ids_def sample_ids_def)
     (simp add: witness_v2_metric_def)

lemma screened_selection:
  "select (\<lambda>s. None) sample_rule [witness_v2_metric] ''alpaca'' (Aware 130 0) = Inr [witness_v2_metric]"
proof -
  have "admissible (\<lambda>s. None) sample_rule ''alpaca'' 130 sample_condition witness_v2_metric = Inr True"
    by (simp add: admissible_def metric_cut_eligibility_def require_absent_legacy_cut_parameter_def filters_match_def)
       (simp add: witness_v2_metric_def sample_condition_def param_get_def dict_get_def dict_keys_def)
  moreover have "r_conditions sample_rule = [sample_condition]" by (simp add: sample_rule_def)
  ultimately show ?thesis
    by (simp add: select_def dict_values_def dict_get_def pick_candidate_def latest_available_def revision_policy_def)
qed

lemma screened_rules:
  "screen_rules sample_state_ids (\<lambda>s. None) [sample_rule] (stripped sample_asset) [witness_v2_metric] ''alpaca'' 130 200 = Inr [screened_sample]"
proof -
  have "ca_asset_id (stripped sample_asset) = ''equity:us:aapl''" "ca_asset_class (stripped sample_asset) = EQUITY"
    by (simp_all add: stripped_def sample_asset_def)
  then show ?thesis by (simp add: screen_rules_def screened_selection screened_sample_evaluates)
qed

definition screened_receipt :: monitor_receipt where
  "screened_receipt =
     \<lparr>rc_attempt_id = 1, rc_job_id = ''aapl'', rc_asset_id = Some ''equity:us:aapl'', rc_status = SCREENED,
      rc_reason = ''new_compatible_evidence'', rc_processed_at = 200, rc_result_ids = [130]\<rparr>"

lemma screened_observation:
  "observe sample_state_ids screening_env empty_state screened_attempt =
     record_receipt sample_state_ids empty_state screened_receipt [screened_sample]"
proof -
  have asset: "ca_asset_id (stripped sample_asset) = ''equity:us:aapl''" "ca_asset_class (stripped sample_asset) = EQUITY"
    by (simp_all add: stripped_def sample_asset_def)
  have skip: "skip_reason screened_attempt = None"
    by (simp add: skip_reason_def screened_attempt_def screened_execution_def)
  have found: "catalog_get sample_service ''equity:us:aapl'' = Inr (stripped sample_asset)" by code_simp
  have rules: "rules_for [sample_rule] MARKET EQUITY ''1d'' = [sample_rule]" by (simp add: rules_for_def sample_rule_def)
  have keys: "map c_metric_key (r_conditions sample_rule) = [''market.technical.rsi'']"
    by (simp add: sample_rule_def sample_condition_def)
  have read: "read_metrics screening_env MARKET ''equity:us:aapl'' [''market.technical.rsi''] 130 ''alpaca'' ''1d'' = Inr [witness_v2_metric]"
    by (simp add: read_metrics_def list_metrics_def metric_clauses_def normalize_metric_keys_def screening_env_def
        blank_text_def py_space_def dict_values_def holds_for_def) (simp add: witness_v2_metric_def)
  have env: "me_catalog screening_env = sample_service" "me_rules screening_env = Inr [sample_rule]"
      "me_parse screening_env = (\<lambda>s. None)" "normalized_clock screening_env = Inr 200"
    by (simp_all add: screening_env_def normalized_clock_def)
  have attempt: "ja_status screened_attempt = Succeeded" "ja_completed_at screened_attempt = Some 150"
      "ja_execution screened_attempt = Some screened_execution" "jd_asset_id (ja_definition screened_attempt) = Some ''equity:us:aapl''"
      "jd_domain (ja_definition screened_attempt) = MarketDaily" "jd_data_frequency (ja_definition screened_attempt) = ''1d''"
      "ja_attempt_id screened_attempt = 1" "ja_job_id screened_attempt = ''aapl''"
      "je_source_ids screened_execution = [''alpaca'']" "je_effective_known_at screened_execution = 130"
    by (simp_all add: screened_attempt_def screened_execution_def ja_job_id_def)
  show ?thesis
    by (simp add: observe_def contains_attempt_def empty_state_def screen_attempt_def Let_def
        asset skip found rules keys read env attempt screened_rules screened_receipt_def)
qed

lemma screened_recorded:
  obtains st' js where "observe sample_state_ids screening_env empty_state screened_attempt = Inr (st', js)"
    and "screened_sample \<in> set (st_results st')"
proof -
  have "confirmation_count sample_state_ids [screened_sample] screened_sample \<le> 20"
    by (simp add: confirmation_count_def sorted_reverse_def)
  then have "recordable sample_state_ids empty_state screened_receipt [screened_sample]"
    by (simp add: recordable_def screened_receipt_def empty_state_def step_inputs_ok_def MAX_STATE_RECORDS_def)
       (simp add: sample_rule_def)
  moreover have "collision_free sample_state_ids empty_state screened_receipt [screened_sample]"
  proof -
    have "inj_on (uuid_transition sample_state_ids) (resolution_payloads 200 {1130})"
      by (auto simp: inj_on_def resolution_payloads_def sample_state_ids_def split: candidate_status.splits)
    then show ?thesis
      by (simp add: collision_free_def empty_state_def screened_receipt_def) (simp add: sample_state_ids_def)
  qed
  ultimately obtain lc where "record_attempt sample_state_ids empty_state screened_receipt [screened_sample] = Inr
       (\<lparr>ro_receipt_created = True, ro_results_created = length [screened_sample],
         ro_candidates_created = length (lc_created lc), ro_candidates_resolved = lc_resolved lc\<rparr>,
        recorded_state empty_state screened_receipt [screened_sample] lc,
        map ResultRecord [screened_sample] @ map CandidateRecord (lc_created lc) @
          map TransitionRecord (lc_transitions lc) @ [ReceiptRecord screened_receipt])"
    using recordable_succeeds [OF valid_empty] by blast
  moreover have "validate_receipt screened_receipt = Inr screened_receipt"
    by (simp add: validate_receipt_def screened_receipt_def sorted_unique_def)
  ultimately show thesis
    by (intro that) (auto simp: screened_observation record_receipt_def recorded_state_def)
qed

theorem reconcile_exactly_once_witness:
  "\<exists>st' js. reconcile sample_state_ids (\<lambda>a. screening_env) empty_state [screened_attempt] = Inr (st', js) \<and>
     (\<exists>!r. r \<in> set (st_receipts st') \<and> rc_attempt_id r = 1) \<and>
     reconcile sample_state_ids (\<lambda>a. screening_env) st' [screened_attempt] = Inr (st', [])"
proof -
  have completed: "ja_status screened_attempt \<noteq> Running" "ja_completed_at screened_attempt \<noteq> None" "ja_attempt_id screened_attempt = 1"
    by (simp_all add: screened_attempt_def)
  obtain st' js where "observe sample_state_ids screening_env empty_state screened_attempt = Inr (st', js)"
    by (rule screened_recorded)
  with completed have run: "reconcile sample_state_ids (\<lambda>a. screening_env) empty_state [screened_attempt] = Inr (st', js)" by simp
  note once = reconcile_exactly_once [OF run reachable.start]
  from once completed have "\<exists>!r. r \<in> set (st_receipts st') \<and> rc_attempt_id r = 1" by simp
  with run once show ?thesis by blast
qed

theorem screened_evidence_witness:
  "\<exists>m \<in> set (dict_values (me_metrics screening_env)).
     cr_metric_result_id (evaluated_result sample_condition witness_v2_metric) = Some (m_result_id m) \<and> m_available_at m \<le> 130"
proof -
  obtain st' js where st': "observe sample_state_ids screening_env empty_state screened_attempt = Inr (st', js)"
      "screened_sample \<in> set (st_results st')" by (rule screened_recorded)
  have "screened_sample \<notin> set (st_results empty_state)" by (simp add: empty_state_def)
  from screened_evidence [OF st'(1) reachable.start st'(2) this] show ?thesis
    by (auto simp: evaluated_result_def Let_def state_of_def split: if_splits)
qed

end
