(* ===== verification/Notifications.thy ===== *)
theory Notifications
  imports CandidateStoreProperties
begin

text \<open>
  The local outbox of candidate notifications (\<^verbatim>\<open>alerts/candidate_notifications.py\<close>): items derived
  from new candidates and their activation results, acknowledgements, the validated state, and the
  reconciliation with the candidate store. The state stands for the document at the path, written
  whole at every change; an operation returns it.

  \<open>uuid_notification\<close> and \<open>uuid_acknowledgement\<close> are the UUIDv5 of the candidate and of the item with
  the time (the actor is always the local user).
\<close>

section \<open>Items and transitions\<close>

record notification_condition =
  nc_condition_id :: string
  nc_state :: condition_state
  nc_metric_key :: string
  nc_unit :: string
  nc_metric_result_id :: "uuid option"
  nc_as_of :: "utc option"
  nc_explanation_es :: string

record notification_payload =
  np_rule_name_es :: string
  np_explanation_es :: string
  np_conditions :: "notification_condition list"

definition validate_payload :: "notification_payload \<Rightarrow> notification_payload result" where
  "validate_payload p =
     (if np_conditions p = [] \<or> 20 < length (np_conditions p) then Inl (ValueError ''conditions'') else Inr p)"

record notification =
  nt_notification_id :: uuid
  nt_candidate_id :: uuid
  nt_activation_result_id :: uuid
  nt_asset_id :: string
  nt_rule_id :: string
  nt_as_of :: utc
  nt_created_at :: utc
  nt_payload :: notification_payload

record acknowledgement =
  ak_transition_id :: uuid
  ak_notification_id :: uuid
  ak_recorded_at :: utc

record notification_ids =
  uuid_notification :: "uuid \<Rightarrow> uuid"
  uuid_acknowledgement :: "uuid \<Rightarrow> utc \<Rightarrow> uuid"

definition validate_notification :: "notification_ids \<Rightarrow> notification \<Rightarrow> notification result" where
  "validate_notification N n =
     (if nt_notification_id n \<noteq> uuid_notification N (nt_candidate_id n)
        then Inl (ValueError ''notification_id is not deterministic'') else Inr n)"

definition validate_acknowledgement :: "notification_ids \<Rightarrow> acknowledgement \<Rightarrow> acknowledgement result" where
  "validate_acknowledgement N t =
     (if ak_transition_id t \<noteq> uuid_acknowledgement N (ak_notification_id t) (ak_recorded_at t)
        then Inl (ValueError ''notification transition_id is not deterministic'') else Inr t)"

section \<open>The outbox\<close>

record outbox =
  ob_items :: "notification list"
  ob_transitions :: "acknowledgement list"

definition MAX_OUTBOX :: nat where "MAX_OUTBOX = 250000"

definition item_order :: "notification \<Rightarrow> utc \<times> uuid" where
  "item_order n = (nt_created_at n, nt_notification_id n)"

definition acknowledgement_order :: "acknowledgement \<Rightarrow> utc \<times> uuid" where
  "acknowledgement_order t = (ak_recorded_at t, ak_transition_id t)"

definition validate_outbox :: "outbox \<Rightarrow> outbox result" where
  "validate_outbox ob =
     (let items = ob_items ob; transitions = ob_transitions ob; identifiers = map nt_notification_id items in
      if MAX_OUTBOX < length items \<or> MAX_OUTBOX < length transitions then Inl (ValueError ''max_length'')
      else if \<not> distinct identifiers then Inl (ValueError ''notification items contain duplicate identities'')
      else if list_ex (\<lambda>t. ak_notification_id t \<notin> set identifiers) transitions
        then Inl (ValueError ''notification transition references an unknown item'')
      else if \<not> distinct (map ak_notification_id transitions)
        then Inl (ValueError ''notification transitions are not sequential'')
      else if map item_order items \<noteq> sort (map item_order items)
        then Inl (ValueError ''notification items are not deterministically ordered'')
      else if map acknowledgement_order transitions \<noteq> sort (map acknowledgement_order transitions)
        then Inl (ValueError ''notification transitions are not deterministically ordered'')
      else Inr ob)"

definition enqueue :: "outbox \<Rightarrow> notification \<Rightarrow> ((notification \<times> bool) \<times> outbox) result" where
  "enqueue ob item =
     (case find (\<lambda>n. nt_notification_id n = nt_notification_id item) (ob_items ob) of
        Some existing \<Rightarrow>
          (if existing \<noteq> item then Inl (StateError ''notification identity changed semantics'')
           else Inr ((existing, False), ob))
      | None \<Rightarrow>
          bind_r (validate_outbox (ob\<lparr>ob_items := sort_key item_order (ob_items ob @ [item])\<rparr>)) (\<lambda>snapshot.
            Inr ((item, True), snapshot)))"

text \<open>The acknowledgements are sorted by the time and the identity of their item.\<close>

definition acknowledge ::
  "notification_ids \<Rightarrow> outbox \<Rightarrow> uuid \<Rightarrow> py_datetime \<Rightarrow> ((notification \<times> bool) \<times> outbox) result" where
  "acknowledge N ob identifier recorded_at =
     (case recorded_at of
        Naive w \<Rightarrow> Inl (ValueError ''recorded_at must be timezone-aware'')
      | Aware w off \<Rightarrow>
          (case find (\<lambda>n. nt_notification_id n = identifier) (ob_items ob) of
             None \<Rightarrow> Inl (ValueError ''notification does not exist'')
           | Some item \<Rightarrow>
               if list_ex (\<lambda>t. ak_notification_id t = identifier) (ob_transitions ob) then Inr ((item, False), ob)
               else
                 bind_r (validate_acknowledgement N
                   \<lparr>ak_transition_id = uuid_acknowledgement N identifier (w - off), ak_notification_id = identifier,
                    ak_recorded_at = w - off\<rparr>) (\<lambda>transition.
                 bind_r (validate_outbox
                   (ob\<lparr>ob_transitions := sort_key (\<lambda>t. (ak_recorded_at t, ak_notification_id t))
                      (ob_transitions ob @ [transition])\<rparr>)) (\<lambda>snapshot.
                   Inr ((item, True), snapshot)))))"

section \<open>Reconciling with the candidate store\<close>

definition condition_notice :: "condition_result \<Rightarrow> notification_condition" where
  "condition_notice c =
     \<lparr>nc_condition_id = cr_condition_id c, nc_state = cr_state c, nc_metric_key = cr_metric_key c, nc_unit = cr_unit c,
      nc_metric_result_id = cr_metric_result_id c, nc_as_of = cr_as_of c, nc_explanation_es = cr_explanation_es c\<rparr>"

definition notification_payload_of :: "screening_result \<Rightarrow> notification_payload result" where
  "notification_payload_of s =
     validate_payload
       \<lparr>np_rule_name_es = r_name_es (s_rule s), np_explanation_es = s_explanation_es s,
        np_conditions = map condition_notice (s_conditions s)\<rparr>"

definition notification_of ::
  "notification_ids \<Rightarrow> (uuid, screening_result) dict \<Rightarrow> candidate_event \<Rightarrow> notification result" where
  "notification_of N results e =
     (case dict_get results (e_activation_result_id e) of
        None \<Rightarrow> Inl (KeyError ''activation_result_id'')
      | Some s \<Rightarrow>
          bind_r (notification_payload_of s) (\<lambda>payload.
          validate_notification N
            \<lparr>nt_notification_id = uuid_notification N (e_candidate_id e), nt_candidate_id = e_candidate_id e,
             nt_activation_result_id = e_activation_result_id e, nt_asset_id = e_asset_id e, nt_rule_id = e_rule_id e,
             nt_as_of = e_as_of e, nt_created_at = e_activated_at e, nt_payload = payload\<rparr>))"

definition outbox_contains :: "outbox \<Rightarrow> uuid \<Rightarrow> bool" where
  "outbox_contains ob identifier \<longleftrightarrow> identifier \<in> nt_notification_id ` set (ob_items ob)"

fun notify_candidates ::
  "notification_ids \<Rightarrow> (uuid, screening_result) dict \<Rightarrow> candidate_event list \<Rightarrow> outbox \<Rightarrow> outbox result" where
  "notify_candidates N results [] ob = Inr ob"
| "notify_candidates N results (e # es) ob =
     (if e_status e \<noteq> NEW then notify_candidates N results es ob
      else bind_r (notification_of N results e) (\<lambda>item.
        if outbox_contains ob (nt_notification_id item) then notify_candidates N results es ob
        else bind_r (enqueue ob item) (\<lambda>(created, ob'). notify_candidates N results es ob')))"

definition reconcile_notifications :: "notification_ids \<Rightarrow> screening_state \<Rightarrow> outbox \<Rightarrow> outbox result" where
  \<comment> \<open>the batch observer, absent by default, is left out\<close>
  "reconcile_notifications N st ob = notify_candidates N (dict_by s_result_id (st_results st)) (st_candidates st) ob"

end
