(* ===== verification/NotificationProperties.thy ===== *)
theory NotificationProperties
  imports Notifications
begin

text \<open>
  The outbox of notifications: reconciling it with the candidate store returns, gives every new
  candidate exactly one notification and changes nothing the second time; acknowledging two
  notifications at one instant may be refused.
\<close>

section \<open>Enqueueing\<close>

lemma outbox_ok_iff: "validate_outbox ob = Inr ob \<longleftrightarrow>
    length (ob_items ob) \<le> MAX_OUTBOX \<and> length (ob_transitions ob) \<le> MAX_OUTBOX \<and>
    distinct (map nt_notification_id (ob_items ob)) \<and>
    ak_notification_id ` set (ob_transitions ob) \<subseteq> nt_notification_id ` set (ob_items ob) \<and>
    distinct (map ak_notification_id (ob_transitions ob)) \<and>
    sorted (map item_order (ob_items ob)) \<and> sorted (map acknowledgement_order (ob_transitions ob))"
  by (auto simp: validate_outbox_def Let_def list_ex_iff not_less sort_eq_iff_sorted split: if_splits)

lemma enqueue_new:
  assumes "validate_outbox ob = Inr ob" and "\<not> outbox_contains ob (nt_notification_id item)"
    and "length (ob_items ob) < MAX_OUTBOX" and "ob' = ob\<lparr>ob_items := sort_key item_order (ob_items ob @ [item])\<rparr>"
  shows "enqueue ob item = Inr ((item, True), ob')" and "validate_outbox ob' = Inr ob'"
proof -
  have new: "find (\<lambda>n. nt_notification_id n = nt_notification_id item) (ob_items ob) = None"
    using assms(2) unfolding find_None_iff outbox_contains_def by (auto intro: rev_image_eqI)
  have "mset (map nt_notification_id (ob_items ob')) = mset (map nt_notification_id (ob_items ob @ [item]))"
    by (simp add: assms(4))
  then have "distinct (map nt_notification_id (ob_items ob')) \<longleftrightarrow> distinct (map nt_notification_id (ob_items ob @ [item]))"
    by (rule mset_eq_imp_distinct_iff)
  then show ok: "validate_outbox ob' = Inr ob'"
    using assms(1-3) by (auto simp: outbox_ok_iff assms(4) outbox_contains_def)
  show "enqueue ob item = Inr ((item, True), ob')"
    using ok by (simp add: enqueue_def new assms(4))
qed

section \<open>Reconciling\<close>

definition noticeable :: "(uuid, screening_result) dict \<Rightarrow> candidate_event \<Rightarrow> bool" where
  \<comment> \<open>the activation result is there and its conditions fit a payload\<close>
  "noticeable results e \<longleftrightarrow> (\<exists>s. dict_get results (e_activation_result_id e) = Some s \<and>
     s_conditions s \<noteq> [] \<and> length (s_conditions s) \<le> 20)"

lemma notification_of_Inr:
  assumes "noticeable results e"
  obtains item where "notification_of N results e = Inr item" "nt_notification_id item = uuid_notification N (e_candidate_id e)"
  using assms by (auto simp: noticeable_def notification_of_def notification_payload_of_def validate_payload_def validate_notification_def)

definition notified :: "notification_ids \<Rightarrow> outbox \<Rightarrow> candidate_event \<Rightarrow> bool" where
  "notified N ob e \<longleftrightarrow> e_status e \<noteq> NEW \<or> outbox_contains ob (uuid_notification N (e_candidate_id e))"

lemma notify_candidates_Inr:
  assumes "validate_outbox ob = Inr ob" and "\<forall>e \<in> set es. noticeable results e"
    and "length (ob_items ob) + length es \<le> MAX_OUTBOX"
  shows "\<exists>ob'. notify_candidates N results es ob = Inr ob' \<and> validate_outbox ob' = Inr ob' \<and>
    ob_transitions ob' = ob_transitions ob \<and> set (ob_items ob) \<subseteq> set (ob_items ob') \<and> (\<forall>e \<in> set es. notified N ob' e)"
  using assms
proof (induction es arbitrary: ob)
  case (Cons e es)
  from Cons.prems(2) obtain item where item: "notification_of N results e = Inr item"
      "nt_notification_id item = uuid_notification N (e_candidate_id e)"
    using notification_of_Inr [of results e N] by auto
  have keep: "notified N ob' e" if "notified N ob1 e" "set (ob_items ob1) \<subseteq> set (ob_items ob')" for ob1 ob'
    using that by (auto simp: notified_def outbox_contains_def)
  show ?case
  proof (cases "notified N ob e")
    case True
    with item have "notify_candidates N results (e # es) ob = notify_candidates N results es ob"
      by (auto simp: notified_def)
    with Cons.IH [of ob] Cons.prems keep [OF True] show ?thesis by auto
  next
    case False
    define ob1 where "ob1 = ob\<lparr>ob_items := sort_key item_order (ob_items ob @ [item])\<rparr>"
    have new: "e_status e = NEW" "\<not> outbox_contains ob (nt_notification_id item)"
      using False item(2) by (simp_all add: notified_def)
    have size: "length (ob_items ob) < MAX_OUTBOX" using Cons.prems(3) by simp
    note added = enqueue_new [OF Cons.prems(1) new(2) size ob1_def]
    have "notify_candidates N results (e # es) ob = notify_candidates N results es ob1"
      using new item(1) added(1) by simp
    moreover have "notified N ob1 e" by (simp add: notified_def outbox_contains_def ob1_def flip: item(2))
    ultimately show ?thesis
      using Cons.IH [OF added(2)] Cons.prems keep [of ob1] by (auto simp: ob1_def)
  qed
qed simp

lemma notify_candidates_nothing:
  assumes "\<forall>e \<in> set es. noticeable results e" and "\<forall>e \<in> set es. notified N ob e"
  shows "notify_candidates N results es ob = Inr ob"
  using assms
proof (induction es)
  case (Cons e es)
  then obtain item where "notification_of N results e = Inr item"
      "nt_notification_id item = uuid_notification N (e_candidate_id e)"
    using notification_of_Inr [of results e N] by auto
  with Cons show ?case by (auto simp: notified_def)
qed simp

text \<open>
  Property C9. The outbox follows the candidates: for a reachable candidate store whose results
  have at most 20 conditions, and a valid outbox with room for its candidates, the reconciliation
  returns a valid outbox that keeps the items and the acknowledgements, in which every new
  candidate has exactly one notification; reconciling again changes nothing.
\<close>
theorem outbox_follows_candidates:
  assumes "reachable I st" and "\<forall>s \<in> set (st_results st). s_conditions s \<noteq> [] \<and> length (s_conditions s) \<le> 20"
    and "validate_outbox ob = Inr ob" and "length (ob_items ob) + length (st_candidates st) \<le> MAX_OUTBOX"
  shows "\<exists>ob'. reconcile_notifications N st ob = Inr ob' \<and> validate_outbox ob' = Inr ob' \<and>
    ob_transitions ob' = ob_transitions ob \<and> set (ob_items ob) \<subseteq> set (ob_items ob') \<and>
    (\<forall>e \<in> set (st_candidates st). e_status e = NEW \<longrightarrow>
       (\<exists>!n. n \<in> set (ob_items ob') \<and> nt_notification_id n = uuid_notification N (e_candidate_id e))) \<and>
    reconcile_notifications N st ob' = Inr ob'"
proof -
  let ?results = "dict_by s_result_id (st_results st)"
  have h: "history_ok st" using reachable_valid [OF assms(1)] by (simp add: valid_state_def)
  have fit: "\<forall>e \<in> set (st_candidates st). noticeable ?results e"
  proof
    fix e assume "e \<in> set (st_candidates st)"
    with h have "e_activation_result_id e \<in> s_result_id ` set (st_results st)" by (auto simp: history_ok_def)
    then obtain s where s: "dict_get ?results (e_activation_result_id e) = Some s"
      using dict_get_by_None [of s_result_id "st_results st" "e_activation_result_id e"]
      by (cases "dict_get ?results (e_activation_result_id e)") auto
    with assms(2) dict_get_by_SomeD [OF s] show "noticeable ?results e" by (auto simp: noticeable_def)
  qed
  from notify_candidates_Inr [OF assms(3) fit assms(4), of N] obtain ob' where
      ob': "notify_candidates N ?results (st_candidates st) ob = Inr ob'" "validate_outbox ob' = Inr ob'"
        "ob_transitions ob' = ob_transitions ob" "set (ob_items ob) \<subseteq> set (ob_items ob')"
    and all: "\<forall>e \<in> set (st_candidates st). notified N ob' e" by blast
  have inj: "inj_on nt_notification_id (set (ob_items ob'))"
    using ob'(2) by (simp add: outbox_ok_iff distinct_map)
  have "\<exists>!n. n \<in> set (ob_items ob') \<and> nt_notification_id n = uuid_notification N (e_candidate_id e)"
    if e: "e \<in> set (st_candidates st)" "e_status e = NEW" for e
  proof -
    obtain n where "n \<in> set (ob_items ob')" "nt_notification_id n = uuid_notification N (e_candidate_id e)"
      using all e by (auto simp: notified_def outbox_contains_def)
    with inj show ?thesis by (metis inj_onD)
  qed
  with ob' notify_candidates_nothing [OF fit all] show ?thesis by (auto simp: reconcile_notifications_def)
qed

theorem outbox_follows_candidates_witness:
  "\<exists>ob'. reconcile_notifications \<lparr>uuid_notification = (\<lambda>i. i + 1), uuid_acknowledgement = (\<lambda>i t. i)\<rparr> sample_store
       \<lparr>ob_items = [], ob_transitions = []\<rparr> = Inr ob' \<and>
     (\<exists>!n. n \<in> set (ob_items ob') \<and> nt_notification_id n = 1131)"
proof -
  have results: "\<forall>s \<in> set (st_results sample_store). s_conditions s \<noteq> [] \<and> length (s_conditions s) \<le> 20"
    by (simp add: sample_store_def sample_at_def assemble_result_def Let_def)
  have empty: "validate_outbox \<lparr>ob_items = [], ob_transitions = []\<rparr> = Inr \<lparr>ob_items = [], ob_transitions = []\<rparr>"
    by (simp add: outbox_ok_iff)
  have size: "length (ob_items \<lparr>ob_items = [], ob_transitions = []\<rparr>) + length (st_candidates sample_store) \<le> MAX_OUTBOX"
    by (simp add: sample_store_def MAX_OUTBOX_def)
  have "sample_event \<in> set (st_candidates sample_store)" by (simp add: sample_store_def)
  with outbox_follows_candidates [OF sample_reachable results empty size,
      of "\<lparr>uuid_notification = (\<lambda>i. i + 1), uuid_acknowledgement = (\<lambda>i t. i)\<rparr>"]
  show ?thesis by force
qed

section \<open>Acknowledging\<close>

lemma disordered_transitions_refused:
  assumes "validate_outbox ob = Inr ob" and "length xs \<le> MAX_OUTBOX" and "distinct (map ak_notification_id xs)"
    and "ak_notification_id ` set xs \<subseteq> nt_notification_id ` set (ob_items ob)"
    and "\<not> sorted (map acknowledgement_order xs)"
  shows "validate_outbox (ob\<lparr>ob_transitions := xs\<rparr>) =
    Inl (ValueError ''notification transitions are not deterministically ordered'')"
proof -
  note ok = assms(1) [unfolded outbox_ok_iff]
  have "map acknowledgement_order xs \<noteq> sort (map acknowledgement_order xs)"
    using assms(5) by (simp only: sort_eq_iff_sorted not_False_eq_True)
  moreover have "map item_order (ob_items ob) = sort (map item_order (ob_items ob))"
    using ok by (simp only: sort_eq_iff_sorted)
  moreover have "\<not> list_ex (\<lambda>t. ak_notification_id t \<notin> set (map nt_notification_id (ob_items ob))) xs"
    using assms(4) by (auto simp: list_ex_iff)
  moreover have "\<not> (MAX_OUTBOX < length (ob_items ob) \<or> MAX_OUTBOX < length xs)"
    using ok assms(2) by (simp add: not_less)
  ultimately show ?thesis using ok assms(3) by (simp add: validate_outbox_def Let_def del: list_ex_iff)
qed

lemma sorted_pair_order:
  assumes "sorted (map f xs)" and "sorted (map g xs)" and "x \<in> set xs" and "y \<in> set xs" and "x \<noteq> y"
  shows "f x \<le> f y \<and> g x \<le> g y \<or> f y \<le> f x \<and> g y \<le> g x"
proof -
  obtain i j where i: "i < length xs" "xs ! i = x" and j: "j < length xs" "xs ! j = y"
    using assms(3,4) by (auto simp: in_set_conv_nth)
  moreover from this assms(5) have "i \<noteq> j" by auto
  then have "i < j \<or> j < i" by arith
  ultimately show ?thesis
    using sorted_nth_mono [OF assms(1), of i j] sorted_nth_mono [OF assms(2), of i j]
      sorted_nth_mono [OF assms(1), of j i] sorted_nth_mono [OF assms(2), of j i] i j by auto
qed

text \<open>
  Property C28. Two acknowledgements at one instant may be refused: they are sorted by time and
  notification and then checked to be sorted by time and transition, so if some notification was
  acknowledged at the same instant and the two transition identities are ordered the other way
  round than the two notifications, the acknowledgement raises and is lost.
\<close>
theorem simultaneous_acknowledgement_refused:
  assumes "validate_outbox ob = Inr ob" and "identifier \<in> nt_notification_id ` set (ob_items ob)"
    and "identifier \<notin> ak_notification_id ` set (ob_transitions ob)" and "length (ob_transitions ob) < MAX_OUTBOX"
    and "t \<in> set (ob_transitions ob)" and "ak_recorded_at t = w - off"
    and "ak_notification_id t < identifier \<longleftrightarrow> uuid_acknowledgement N identifier (w - off) < ak_transition_id t"
    and "ak_transition_id t \<noteq> uuid_acknowledgement N identifier (w - off)"
  shows "acknowledge N ob identifier (Aware w off) =
    Inl (ValueError ''notification transitions are not deterministically ordered'')"
proof -
  let ?new = "\<lparr>ak_transition_id = uuid_acknowledgement N identifier (w - off), ak_notification_id = identifier,
      ak_recorded_at = w - off\<rparr>"
  let ?key = "\<lambda>t. (ak_recorded_at t, ak_notification_id t)"
  define xs where "xs = sort_key ?key (ob_transitions ob @ [?new])"
  obtain item where item: "find (\<lambda>n. nt_notification_id n = identifier) (ob_items ob) = Some item"
    using assms(2) by (cases "find (\<lambda>n. nt_notification_id n = identifier) (ob_items ob)") (auto simp: find_None_iff)
  have first: "\<not> list_ex (\<lambda>t. ak_notification_id t = identifier) (ob_transitions ob)"
    using assms(3) by (auto simp: list_ex_iff)
  note ok = assms(1) [unfolded outbox_ok_iff]
  have mem: "set xs = insert ?new (set (ob_transitions ob))" and len: "length xs \<le> MAX_OUTBOX"
    using assms(4) by (auto simp: xs_def)
  have other: "ak_notification_id t \<noteq> identifier" using assms(3,5) by auto
  then have differ: "t \<noteq> ?new" by (metis acknowledgement.select_convs(2))
  have "\<not> sorted (map acknowledgement_order xs)"
  proof
    assume sorted: "sorted (map acknowledgement_order xs)"
    have "sorted (map ?key xs)" by (simp add: xs_def)
    from sorted_pair_order [OF this sorted, of t ?new] assms(5-8) other mem differ show False
      by (auto simp: acknowledgement_order_def)
  qed
  moreover have "mset (map ak_notification_id xs) = mset (map ak_notification_id (ob_transitions ob @ [?new]))"
    by (simp add: xs_def)
  then have "distinct (map ak_notification_id xs) \<longleftrightarrow> distinct (map ak_notification_id (ob_transitions ob @ [?new]))"
    by (rule mset_eq_imp_distinct_iff)
  then have "distinct (map ak_notification_id xs)" using ok assms(3) by simp
  moreover have "ak_notification_id ` set xs \<subseteq> nt_notification_id ` set (ob_items ob)"
    using ok assms(2) by (simp add: mem)
  ultimately have "validate_outbox (ob\<lparr>ob_transitions := xs\<rparr>) =
      Inl (ValueError ''notification transitions are not deterministically ordered'')"
    using disordered_transitions_refused [OF assms(1) len] by blast
  then show ?thesis
    by (simp add: acknowledge_def item first validate_acknowledgement_def flip: xs_def)
qed

definition sample_notice :: "uuid \<Rightarrow> notification" where
  "sample_notice i =
     \<lparr>nt_notification_id = i, nt_candidate_id = i, nt_activation_result_id = i, nt_asset_id = ''equity:us:aapl'',
      nt_rule_id = ''rsi'', nt_as_of = 100, nt_created_at = 130,
      nt_payload = \<lparr>np_rule_name_es = ''RSI'', np_explanation_es = ''RSI'', np_conditions = []\<rparr>\<rparr>"

theorem simultaneous_acknowledgement_refused_witness:
  "acknowledge \<lparr>uuid_notification = (\<lambda>i. i), uuid_acknowledgement = (\<lambda>i t. 10 - i)\<rparr>
     \<lparr>ob_items = [sample_notice 1, sample_notice 2],
      ob_transitions = [\<lparr>ak_transition_id = 9, ak_notification_id = 1, ak_recorded_at = 200\<rparr>]\<rparr> 2 (Aware 200 0) =
   Inl (ValueError ''notification transitions are not deterministically ordered'')"
  by (rule simultaneous_acknowledgement_refused
        [where t = "\<lparr>ak_transition_id = 9, ak_notification_id = 1, ak_recorded_at = 200\<rparr>"])
     (simp_all add: outbox_ok_iff sample_notice_def MAX_OUTBOX_def item_order_def acknowledgement_order_def)

end
