(* ===== verification/Spec2Isabelle.thy ===== *)
theory Spec2Isabelle
  imports SnapshotSelector CandidateJournal RegistryProperties RepositoryProperties ImportRun SchedulerGuarantees BacktestProperties
    MonitorProperties NotificationProperties
begin

text \<open>
  \<^bold>\<open>Investment Analyst: a verification of its analytical core.\<close>

  The program (Python, \<^verbatim>\<open>src/src/investment_analyst\<close>) collects market and fundamental data on one
  machine, derives metrics from them and screens the metrics with rules. Every row carries the
  instant it became available, and every analysis is made at a cut, so that it can be repeated with
  what was known then. This library models the part that decides: the screening of evidence, the
  stores that must survive a crash, the scheduler that drives the jobs, the archive of the history.
  Names of definitions are those of the code; \<^verbatim>\<open>PROJECT.json\<close> beside the library lists for each
  definition the lines it models.

  \<^bold>\<open>The parts and how they work together.\<close> The scheduler runs the due jobs of the assets and keeps
  one record per attempt. An observer, the monitor, looks at every finished attempt: if it brought
  new evidence, the monitor reads the metrics of the asset, selects for every compatible rule the
  snapshot of the latest common period, evaluates the rule on it and records a receipt with the
  results in the candidate store. The store opens a candidate when a rule has matched for enough
  periods and resolves it when the rule no longer holds; the outbox of notifications follows the
  new candidates. The rules come from a registry over packaged defaults, the assets from a
  catalogue. The backtest replays one rule over the stored metrics. The schedule and the candidate
  store write to the same kind of segmented journal. The stored metrics and diagnostics can be
  imported, page by page and resumably, into a normalized archive.

  \<^bold>\<open>Foundations.\<close>
  \<^item> \<open>Prelude\<close>: the exceptions as one datatype \<open>py_error\<close>, results as \<open>py_error + 'a\<close> with
    \<open>bind_r\<close> and \<open>traverse\<close>, Python dictionaries as association lists in insertion order (the locale
    \<open>keyed\<close>, interpreted on them), \<^verbatim>\<open>sorted\<close>, \<^verbatim>\<open>max\<close>, \<^verbatim>\<open>str.strip\<close>.
  \<^item> \<open>PyTime\<close>: instants are integers, the microseconds since 1970 in UTC; a datetime a caller passes
    is \<open>Naive\<close> or \<open>Aware\<close> (\<^verbatim>\<open>time_intervals.py\<close>, \<^verbatim>\<open>core/models/base.py\<close>).
  \<^item> \<open>Contracts\<close>, \<open>EvidenceModels\<close>: metrics, observations, sources, diagnostics with their validators,
    finite decimals (sign, coefficient, exponent), JSON values with Python's equality, the
    eligibility of a metric at a cut (\<^verbatim>\<open>core/models\<close>, \<^verbatim>\<open>analytics/metric_identity_cut.py\<close>). UUIDs are
    128 bit words.

  \<^bold>\<open>Screening\<close> (\<^verbatim>\<open>alerts/analytical_models.py\<close>, \<^verbatim>\<open>analytical_engine.py\<close>, \<^verbatim>\<open>analytical_monitor.py\<close>).
  \<open>Screening\<close> has the rules, conditions, requests, results and the engine; \<open>EngineCorrectness\<close> shows
  which errors the engine can raise, what \<^verbatim>\<open>matched\<close> and \<^verbatim>\<open>retained\<close> mean and that recomputation gives
  the same result. \<open>SnapshotSelector\<close> selects the snapshot and shows that a selection is a valid
  request, never looks past the cut, and equals a reference selection. \<open>AnalyticalMonitor\<close> is the
  observation of one attempt and the replay of the history; \<open>MonitorProperties\<close> shows that every
  completed attempt gets exactly one receipt and that what is screened was available in time.

  \<^bold>\<open>Rules\<close> (\<^verbatim>\<open>analytical_rule_registry.py\<close>, \<^verbatim>\<open>analytical_rule_catalog.py\<close>). \<open>RuleRegistry\<close> replays
  revisions over packaged defaults with optimistic updates; \<open>RegistryProperties\<close> carries its
  invariant (\<open>registry_run\<close>) and the effect of an update; \<open>RuleCatalog\<close> is the packaged catalogue.

  \<^bold>\<open>Candidate store\<close> (\<^verbatim>\<open>analytical_state.py\<close>). \<open>CandidateStore\<close>: validators, the confirmation count,
  the lifecycle step of a result, recording an attempt, the user's transitions, the inbox.
  \<open>CandidateInvariants\<close> states the invariant \<open>history_ok\<close>; \<open>CandidateLifecycle\<close> inverts one lifecycle
  step into its three outcomes and carries a run of steps; \<open>CandidateRecording\<close> lifts this to the
  operations; \<open>CandidateLiveness\<close> shows when recording cannot fail; \<open>CandidateStoreProperties\<close> has the
  step relation \<open>store_step\<close>, the reachable states and the properties, \<open>InboxProperties\<close> the rest.
  \<open>CandidateRecovery\<close> loads the store from its snapshot and journal; \<open>CandidateJournal\<close> joins it with
  the journal.

  \<^bold>\<open>Journal\<close> (\<^verbatim>\<open>application/bounded_journal.py\<close>). \<open>Journal\<close> models the files as bytes and an operation as
  the list of file system steps it issues, so that a crash leaves the files after some of the steps,
  the last append possibly cut short. \<open>JournalCorrectness\<close> relates the files to the list of entries
  (\<open>journal_state\<close>); \<open>JournalCrash\<close> states the interface of an append log as the locale
  \<open>append_log\<close>, interprets it on the journal, and follows the crash points. \<open>SampleCodec\<close> is a
  concrete codec with the documented behaviour, for the witnesses.

  \<^bold>\<open>Scheduler\<close> (\<^verbatim>\<open>application/multi_asset_scheduler.py\<close>, \<^verbatim>\<open>job_memory_budget.py\<close>,
  \<^verbatim>\<open>core/operation_control.py\<close>). \<open>ScheduledJobs\<close>: the contracts; \<open>ScheduleStore\<close>: the persisted history,
  twice: as lists of records (\<open>schedule_files\<close>), over which the scheduler is modelled, and as the
  document and the bytes of the journal's files (\<open>schedule_store\<close>, with \<open>load_fresh\<close> and
  \<open>write_attempt_to_store\<close>), which \<open>ScheduleStoreProperties\<close> proves to give the same histories;
  \<open>MemoryBudget\<close>: the watchdog over its samples; \<open>Scheduler\<close>: status, recovery, attempts, ticks and
  polling as commands over a world (the files, the registered jobs, the running ones, the state of
  the observers, counters of the clock and of identities). \<open>Loops\<close> gives loops that may not end as
  \<open>partial_function (option)\<close> and a small logic \<open>hoare\<close> for commands with returns, errors and
  interruptions. \<open>SchedulerProperties\<close>, \<open>SchedulerWrites\<close>, \<open>SchedulerInvariant\<close>, \<open>SchedulerRuns\<close> and
  \<open>SchedulerTicks\<close> carry the invariant through every branch of an attempt and a tick;
  \<open>SchedulerGuarantees\<close> states it for every reachable world (\<open>scheduled_world\<close>). That invariant
  rests on no property of the clock. That a tick serves the due jobs needs one: from the first
  reading of the tick on the clock does not step back, though it may repeat itself (\<open>forward\<close>), and
  no attempt of the history started after that reading; besides it needs room in the history,
  fresh identities, no cancellation, callbacks and observers that raise at most an \<^verbatim>\<open>Exception\<close>
  (\<open>undisturbed\<close>), a history in which only the latest attempt of a job is running, and a local
  date that does not change between the decision and the start of the job. An exception that is
  not an \<^verbatim>\<open>Exception\<close> (\<open>base_exception\<close>) leaves the observers, the job and the tick. Nested
  executions and failures are instances and are not validated again; a job that cannot build its
  execution has raised a \<^verbatim>\<open>ValueError\<close> (\<open>built_outcome\<close>).

  \<^bold>\<open>Catalogue, backtest, notifications\<close> (\<^verbatim>\<open>catalog/models.py\<close>, \<^verbatim>\<open>catalog/service.py\<close>,
  \<^verbatim>\<open>alerts/analytical_backtest.py\<close>, \<^verbatim>\<open>alerts/candidate_notifications.py\<close>). \<open>AssetCatalog\<close> and
  \<open>AssetCatalogProperties\<close>: the validated document, the index, the unit revision in force. \<open>Backtest\<close>
  replays a rule; \<open>BacktestLifecycle\<close> proves its simulated candidate equal to the one of the candidate
  store fed with the same results one by one, as long as every result has evidence and no period
  turns from not matched to matched, and shows that both are needed; \<open>BacktestProperties\<close> shows that
  the evaluations up to a time depend only on what was available and cut by then, that a later
  replay repeats an earlier one up to it, and which errors a replay can raise. \<open>Notifications\<close> and
  \<open>NotificationProperties\<close>: the outbox, its order and its reconciliation with the store.

  \<^bold>\<open>Storage\<close> (\<^verbatim>\<open>storage/repositories.py\<close>, \<^verbatim>\<open>bounded_insert.py\<close>). \<open>DocumentTable\<close> has the operations all
  document tables share, \<open>Repositories\<close> the three append-only repositories and their queries.
  \<open>AppendOnly\<close> proves the batch save once, in the locale \<open>batch_lookup\<close>, for both ways a batch is
  looked up; \<open>PagedSource\<close> states bounded pages as the locale \<open>paged_source\<close>, interpreted on every
  table that is paged; \<open>RepositoryProperties\<close> joins them.

  \<^bold>\<open>Archive and import\<close> (\<^verbatim>\<open>storage/historical_analytical_archive.py\<close>, \<^verbatim>\<open>_validation.py\<close>,
  \<^verbatim>\<open>_import.py\<close>). \<open>ChildTables\<close>: rows under a parent and a position. \<open>SequenceStore\<close>,
  \<open>SequenceStoreProperties\<close>: content-addressed sequences of identities. \<open>HistoricalArchive\<close>,
  \<open>HistoricalArchiveProperties\<close>, \<open>ArchiveRoundtrip\<close>: saving and reading results. \<open>ArchiveValidation\<close>,
  \<open>ArchiveValidationProperties\<close>: references, availability, acyclicity. \<open>HistoricalImport\<close>: the import
  and its verification; \<open>ImportFamilies\<close> states what its loops rely on for one family of rows as the
  locale \<open>import_family\<close>, \<open>ImportContents\<close> interprets it for metrics and for diagnostics,
  \<open>ImportVerification\<close>, \<open>ImportLoops\<close> and \<open>ImportRun\<close> prove the loops and the whole.

  \<^bold>\<open>Parameters.\<close> What the code calls and this library cannot read is an argument of the definitions:
  the SHA-256 and UUIDv5 functions over the hashed fields (\<open>screening_ids\<close>, \<open>state_ids\<close>,
  \<open>registry_ids\<close>, \<open>backtest_ids\<close>, \<open>notification_ids\<close>, \<open>archive_env\<close>), the JSON encoding of a record
  (\<open>journal_codec\<close>), \<^verbatim>\<open>datetime.fromisoformat\<close> (\<open>iso_parser\<close>), \<^verbatim>\<open>isoformat\<close>, \<^verbatim>\<open>casefold\<close>, the two DuckDB
  expressions of the cut (\<open>sql_functions\<close>), time zones (\<open>zones\<close>), the clock and the identities drawn
  at random (functions of a counter), the run of a job, the resident set size as a list of samples.
  Where a theorem needs documented behaviour of one of them it is a hypothesis: that a hash does not
  collide on the values at hand, that decoding inverts encoding and no proper prefix of a document
  is a document. The SHA-256 of the archive is idealised further: the archive and import
  properties take \<open>ae_sha\<close> to be injective on all byte strings (in \<open>archive_holds\<close>).

  \<^bold>\<open>Loops and bounds.\<close> Recursive functions terminate structurally or by a measure (pages by the rows
  left, slices by their length, the readiness rounds of the archive validation by the nodes left).
  The polling loop and the loops of the import are \<open>run_loop\<close>, a partial function into \<open>option\<close>:
  that they return is proved, by the rows that remain. No fuel is used. The bounds of the code are
  kept as constants: 256 rows a page and a slice, 253 parents a query, 250000 records of a store,
  100000 attempts of a schedule, 20 confirmations, 500 cuts of a backtest.

  \<^bold>\<open>What is left out of the modelled parts.\<close> Values are those pydantic has accepted: stripping and
  non-empty strings are not modelled, the validators the classes declare are. Instants are not
  bounded to the years of Python. Failures of the file system are not modelled, except that the
  import's write of its state may fail and that any step of the journal may be the last before a
  crash; the scheduler's write raises what its validators raise. Database transactions are not
  modelled: an operation that raises gives no table, so that a rollback
  (\<^verbatim>\<open>write_transaction\<close>) is taken for granted, and nothing is claimed about it. Locks are not
  modelled: operations under a lock are atomic. The cache of the schedule store, the storage
  telemetry, the batch observer of the notifications and the document of the registry and of the
  outbox as a file are left out; the documents are values.

  \<^bold>\<open>Not modelled.\<close> The migration and backup of workspaces (\<^verbatim>\<open>workspace\<close>, \<^verbatim>\<open>storage/workspace_v2*\<close>,
  \<^verbatim>\<open>storage/*_v2.py\<close>) moves files and database tables; its decisions rest on the contents of
  directories, SQL catalogues and Parquet files. The providers and parsers of evidence (\<^verbatim>\<open>providers\<close>,
  \<^verbatim>\<open>evidence\<close>) read foreign formats over HTTP. The numerical research (\<^verbatim>\<open>research\<close>) fits models with numerical
  libraries. The web interface, the command line, the scripts and the local release are input and
  output around these. The remaining analytics (\<^verbatim>\<open>analytics\<close>) derive metrics from observations by
  decimal formulas; they are the next candidates for this library.
\<close>

end
